(* ===== verification/JsPrelude.thy ===== *)
theory JsPrelude
  imports Main "HOL-Library.Multiset" "HOL-Library.Sublist" "HOL-Library.Char_ord"
    "HOL-Library.List_Lexorder"
begin

text \<open>
  What the components share: the operations of JavaScript's String, Array and Set that the
  modelled code calls, as functions on lists, with the facts about them.

  A JavaScript string is a sequence of code units. Most of the code handles ASCII text, so a
  string is Isabelle's \<open>string\<close> (code units 0 to 255), and the operations are polymorphic
  in the element type, so that the few functions that test a wider code unit use lists of
  numbers instead. \<open>Array.prototype.sort\<close> is stable, so for a comparator that is a total
  preorder its result is the one of a stable insertion sort.
\<close>

named_theorems js_simps \<open>unfolding of the string and array operations\<close>

section \<open>Strings\<close>

text \<open>The code units that \<open>trim\<close> and the class \<open>\s\<close> count as white space; below 256 these
  are tab, line feed, vertical tab, form feed, carriage return, space, no-break space.\<close>

definition ws_unit :: "nat \<Rightarrow> bool" where
  "ws_unit n \<longleftrightarrow> n \<in> {9, 10, 11, 12, 13, 32, 160, 5760, 8232, 8233, 8239, 8287, 12288, 65279}
     \<or> 8192 \<le> n \<and> n \<le> 8202"

definition is_ws :: "char \<Rightarrow> bool" where
  "is_ws c \<longleftrightarrow> c \<in> {CHR 0x09, CHR 0x0A, CHR 0x0B, CHR 0x0C, CHR 0x0D, CHR 0x20, CHR 0xA0}"

definition is_digit :: "char \<Rightarrow> bool" where
  "is_digit c \<longleftrightarrow> c \<in> set ''0123456789''"

definition trim_by :: "('a \<Rightarrow> bool) \<Rightarrow> 'a list \<Rightarrow> 'a list" where
  "trim_by p xs = rev (dropWhile p (rev (dropWhile p xs)))"

abbreviation js_trim :: "string \<Rightarrow> string" where
  "js_trim \<equiv> trim_by is_ws"

text \<open>\<open>s.split(sep)\<close> for a separator of one code unit, and \<open>parts.join(sep)\<close>.\<close>

fun split_by :: "('a \<Rightarrow> bool) \<Rightarrow> 'a list \<Rightarrow> 'a list list" where
  "split_by p [] = [[]]"
| "split_by p (x # xs) =
     (if p x then [] # split_by p xs
      else (case split_by p xs of [] \<Rightarrow> [[x]] | y # ys \<Rightarrow> (x # y) # ys))"

abbreviation js_split :: "'a \<Rightarrow> 'a list \<Rightarrow> 'a list list" where
  "js_split c \<equiv> split_by ((=) c)"

fun js_join :: "'a list \<Rightarrow> 'a list list \<Rightarrow> 'a list" where
  "js_join sep [] = []"
| "js_join sep [x] = x"
| "js_join sep (x # y # zs) = x @ sep @ js_join sep (y # zs)"

fun js_includes :: "'a list \<Rightarrow> 'a list \<Rightarrow> bool" where
  "js_includes [] t = (t = [])"
| "js_includes (x # xs) t = (prefix t (x # xs) \<or> js_includes xs t)"

text \<open>\<open>s.slice(i, j)\<close> for \<open>0 \<le> i\<close>, \<open>0 \<le> j\<close>; \<open>s.slice(-n)\<close>; \<open>s.indexOf(c)\<close>.\<close>

definition js_slice :: "nat \<Rightarrow> nat \<Rightarrow> 'a list \<Rightarrow> 'a list" where
  "js_slice i j xs = take (j - i) (drop i xs)"

definition js_slice_last :: "nat \<Rightarrow> 'a list \<Rightarrow> 'a list" where
  "js_slice_last n xs = drop (length xs - n) xs"

fun index_where :: "('a \<Rightarrow> bool) \<Rightarrow> 'a list \<Rightarrow> nat option" where
  "index_where p [] = None"
| "index_where p (x # xs) = (if p x then Some 0 else map_option Suc (index_where p xs))"

text \<open>Case mapping of the ASCII letters; the remaining code units below 256 that have a case
  are never compared against by the code.\<close>

definition upper_letters :: string where
  "upper_letters = ''ABCDEFGHIJKLMNOPQRSTUVWXYZ''"

definition lower_letters :: string where
  "lower_letters = ''abcdefghijklmnopqrstuvwxyz''"

definition char_lower :: "char \<Rightarrow> char" where
  "char_lower c = (case map_of (zip upper_letters lower_letters) c of None \<Rightarrow> c | Some d \<Rightarrow> d)"

definition char_upper :: "char \<Rightarrow> char" where
  "char_upper c = (case map_of (zip lower_letters upper_letters) c of None \<Rightarrow> c | Some d \<Rightarrow> d)"

abbreviation js_lower :: "string \<Rightarrow> string" where
  "js_lower \<equiv> map char_lower"

abbreviation js_upper :: "string \<Rightarrow> string" where
  "js_upper \<equiv> map char_upper"

text \<open>\<open>s || d\<close> and \<open>Boolean(s)\<close> on strings: the empty string is falsy. \<open>or_default\<close> is the
  same on a field that may be null or undefined.\<close>

definition or_str :: "string \<Rightarrow> string \<Rightarrow> string" where
  "or_str s d = (if s = [] then d else s)"

definition or_default :: "string option \<Rightarrow> string \<Rightarrow> string" where
  "or_default s d = (case s of None \<Rightarrow> d | Some t \<Rightarrow> or_str t d)"

abbreviation nonempty :: "'a list \<Rightarrow> bool" where
  "nonempty xs \<equiv> xs \<noteq> []"

section \<open>Arrays and sets\<close>

text \<open>\<open>Set.prototype.add\<close> on the insertion order of the set, and \<open>Array.from(new Set(xs))\<close>.\<close>

definition set_add :: "'a \<Rightarrow> 'a list \<Rightarrow> 'a list" where
  "set_add x acc = (if x \<in> set acc then acc else acc @ [x])"

definition js_uniq :: "'a list \<Rightarrow> 'a list" where
  "js_uniq xs = fold set_add xs []"

text \<open>\<open>xs.sort(cmp)\<close>, with \<open>le a b\<close> for \<open>cmp(a, b) \<le> 0\<close>.\<close>

fun insort_by :: "('a \<Rightarrow> 'a \<Rightarrow> bool) \<Rightarrow> 'a \<Rightarrow> 'a list \<Rightarrow> 'a list" where
  "insort_by le x [] = [x]"
| "insort_by le x (y # ys) = (if le x y then x # y # ys else y # insort_by le x ys)"

definition sort_by :: "('a \<Rightarrow> 'a \<Rightarrow> bool) \<Rightarrow> 'a list \<Rightarrow> 'a list" where
  "sort_by le xs = foldr (insort_by le) xs []"


section \<open>Facts: trim\<close>

lemma set_trim_by: "set (trim_by p xs) \<subseteq> set xs"
  by (auto simp: trim_by_def dest!: set_dropWhileD)

lemma trim_by_Nil [simp]: "trim_by p [] = []"
  by (simp add: trim_by_def)

lemma trim_by_ends:
  assumes "trim_by p xs \<noteq> []"
  shows "\<not> p (hd (trim_by p xs)) \<and> \<not> p (last (trim_by p xs))"
proof -
  define zs where "zs = dropWhile p xs"
  have t: "trim_by p xs = rev (dropWhile p (rev zs))"
    by (simp add: trim_by_def zs_def)
  have "zs = trim_by p xs @ rev (takeWhile p (rev zs))"
    unfolding t by (metis rev_append rev_rev_ident takeWhile_dropWhile_id)
  then have "hd zs = hd (trim_by p xs)" and "zs \<noteq> []"
    using assms by (metis hd_append2, auto)
  then have "\<not> p (hd (trim_by p xs))"
    using hd_dropWhile [of p xs] by (auto simp: zs_def)
  moreover have "\<not> p (last (trim_by p xs))"
    using assms hd_dropWhile [of p "rev zs"] by (auto simp: t last_rev)
  ultimately show ?thesis by simp
qed

lemma trim_by_id:
  assumes "xs = [] \<or> \<not> p (hd xs) \<and> \<not> p (last xs)"
  shows "trim_by p xs = xs"
proof (cases "xs = []")
  case False
  have "dropWhile p xs = xs" using assms False by (cases xs) auto
  moreover have "dropWhile p (rev xs) = rev xs"
    using assms False by (cases xs rule: rev_cases) auto
  ultimately show ?thesis by (simp add: trim_by_def)
qed simp

lemma trim_by_eq_iff: "trim_by p xs = xs \<longleftrightarrow> xs = [] \<or> \<not> p (hd xs) \<and> \<not> p (last xs)"
  by (metis trim_by_ends trim_by_id)

lemma trim_by_idem [simp]: "trim_by p (trim_by p xs) = trim_by p xs"
  by (metis trim_by_ends trim_by_id)

lemma trim_by_empty_iff: "trim_by p xs = [] \<longleftrightarrow> (\<forall>x \<in> set xs. p x)"
proof
  assume "trim_by p xs = []"
  then have *: "\<forall>x \<in> set (dropWhile p xs). p x"
    by (simp add: trim_by_def)
  show "\<forall>x \<in> set xs. p x"
    using * hd_dropWhile [of p xs] by (cases "dropWhile p xs") auto
qed (auto simp: trim_by_def dest: set_dropWhileD)

section \<open>Facts: split and join\<close>

lemma split_by_not_Nil [simp]: "split_by p xs \<noteq> []"
  by (induction xs) (auto split: list.splits)

lemma split_by_no_sep_ball: "\<forall>y \<in> set (split_by p xs). \<forall>x \<in> set y. \<not> p x"
proof (induction xs)
  case (Cons a xs)
  show ?case
  proof (cases "split_by p xs")
    case (Cons z zs)
    with Cons.IH show ?thesis by simp
  qed simp
qed simp

lemma split_by_no_sep: "y \<in> set (split_by p xs) \<Longrightarrow> x \<in> set y \<Longrightarrow> \<not> p x"
  by (rule split_by_no_sep_ball [rule_format])

lemma split_by_subset: "y \<in> set (split_by p xs) \<Longrightarrow> set y \<subseteq> set xs"
proof (induction xs arbitrary: y)
  case (Cons a xs)
  obtain z zs where z: "split_by p xs = z # zs"
    by (cases "split_by p xs") simp_all
  then have "set z \<subseteq> set xs" and "\<And>w. w \<in> set zs \<Longrightarrow> set w \<subseteq> set xs"
    using Cons.IH by simp_all
  with Cons.prems z show ?case by (auto split: if_splits)
qed simp

lemma split_by_none: "\<forall>x \<in> set xs. \<not> p x \<Longrightarrow> split_by p xs = [xs]"
  by (induction xs) auto

lemma split_by_append: "\<forall>x \<in> set xs. \<not> p x \<Longrightarrow> p c \<Longrightarrow> split_by p (xs @ c # ys) = xs # split_by p ys"
  by (induction xs) auto

lemma js_split_none: "c \<notin> set xs \<Longrightarrow> js_split c xs = [xs]"
  by (rule split_by_none) auto

lemma js_split_append: "c \<notin> set xs \<Longrightarrow> js_split c (xs @ c # ys) = xs # js_split c ys"
  by (rule split_by_append) auto

lemma length_split_by: "length (split_by p xs) = Suc (length (filter p xs))"
  by (induction xs) (auto split: list.splits)

lemma js_join_split [simp]: "js_join [c] (js_split c xs) = xs"
proof (induction xs)
  case (Cons x xs)
  show ?case
  proof (cases "js_split c xs")
    case Nil then show ?thesis by simp
  next
    case (Cons y ys)
    then show ?thesis using Cons.IH by (cases ys) auto
  qed
qed simp

lemma js_split_join:
  "xss \<noteq> [] \<Longrightarrow> \<forall>x \<in> set xss. c \<notin> set x \<Longrightarrow> js_split c (js_join [c] xss) = xss"
  by (induction "[c]" xss rule: js_join.induct)
     (auto simp: js_split_none js_split_append)

lemma js_join_Cons: "js_join sep (x # xs) = (if xs = [] then x else x @ sep @ js_join sep xs)"
  by (cases xs) auto

lemma set_js_join: "set (js_join sep xss) \<subseteq> set sep \<union> (\<Union>x \<in> set xss. set x)"
  by (induction sep xss rule: js_join.induct) auto

lemma js_join_eq_Nil: "js_join [c] xss = [] \<longleftrightarrow> xss = [] \<or> xss = [[]]"
  by (induction "[c]" xss rule: js_join.induct) auto

section \<open>Facts: sets in insertion order\<close>

lemma set_fold_set_add: "set (fold set_add xs acc) = set acc \<union> set xs"
  by (induction xs arbitrary: acc) (auto simp: set_add_def)

lemma distinct_fold_set_add: "distinct acc \<Longrightarrow> distinct (fold set_add xs acc)"
  by (induction xs arbitrary: acc) (auto simp: set_add_def)

lemma fold_set_add_distinct: "distinct (acc @ xs) \<Longrightarrow> fold set_add xs acc = acc @ xs"
  by (induction xs arbitrary: acc) (auto simp: set_add_def)

lemma length_fold_set_add: "length (fold set_add xs acc) \<le> length acc + length xs"
proof (induction xs arbitrary: acc)
  case (Cons x xs)
  show ?case using Cons.IH [of "set_add x acc"] by (auto simp: set_add_def split: if_splits)
qed simp

lemma prefix_fold_set_add: "prefix acc (fold set_add xs acc)"
  by (induction xs arbitrary: acc)
     (auto simp: set_add_def intro: prefix_order.trans [OF prefixI [OF refl]])

lemma set_js_uniq [simp]: "set (js_uniq xs) = set xs"
  by (simp add: js_uniq_def set_fold_set_add)

lemma distinct_js_uniq [simp]: "distinct (js_uniq xs)"
  by (simp add: js_uniq_def distinct_fold_set_add)

lemma js_uniq_distinct: "distinct xs \<Longrightarrow> js_uniq xs = xs"
  by (simp add: js_uniq_def fold_set_add_distinct)

lemma js_uniq_idem [simp]: "js_uniq (js_uniq xs) = js_uniq xs"
  by (simp add: js_uniq_distinct)

lemma js_uniq_Nil [simp]: "js_uniq [] = []"
  by (simp add: js_uniq_def)

lemma js_uniq_eq_Nil [simp]: "js_uniq xs = [] \<longleftrightarrow> xs = []"
  by (metis set_empty set_js_uniq)

lemma length_js_uniq_le: "length (js_uniq xs) \<le> length xs"
  using length_fold_set_add [of xs "[]"] by (simp add: js_uniq_def)

lemma length_js_uniq: "length (js_uniq xs) = card (set xs)"
  by (metis distinct_card distinct_js_uniq set_js_uniq)

section \<open>Facts: stable sort\<close>

lemma mset_insort_by [simp]: "mset (insort_by le x xs) = add_mset x (mset xs)"
  by (induction xs) auto

lemma mset_sort_by [simp]: "mset (sort_by le xs) = mset xs"
  by (induction xs) (auto simp: sort_by_def)

lemma set_insort_by [simp]: "set (insort_by le x xs) = insert x (set xs)"
  by (induction xs) auto

lemma set_sort_by [simp]: "set (sort_by le xs) = set xs"
  by (metis mset_sort_by set_mset_mset)

lemma length_sort_by [simp]: "length (sort_by le xs) = length xs"
  by (metis mset_sort_by size_mset)

lemma distinct_sort_by [simp]: "distinct (sort_by le xs) = distinct xs"
  by (metis mset_sort_by mset_eq_imp_distinct_iff)

lemma sorted_insort_by:
  assumes "\<And>a b. le a b \<or> le b a" and "\<And>a b c. le a b \<Longrightarrow> le b c \<Longrightarrow> le a c"
  shows "sorted_wrt le xs \<Longrightarrow> sorted_wrt le (insort_by le x xs)"
  by (induction xs) (auto intro: assms(2), use assms(1) in blast)

lemma sorted_sort_by:
  assumes "\<And>a b. le a b \<or> le b a" and "\<And>a b c. le a b \<Longrightarrow> le b c \<Longrightarrow> le a c"
  shows "sorted_wrt le (sort_by le xs)"
proof (induction xs)
  case (Cons x xs)
  from sorted_insort_by [OF assms Cons] show ?case by (simp add: sort_by_def)
qed (simp add: sort_by_def)

lemma insort_by_sorted: "sorted_wrt le (x # xs) \<Longrightarrow> insort_by le x xs = x # xs"
  by (cases xs) auto

lemma sort_by_sorted: "sorted_wrt le xs \<Longrightarrow> sort_by le xs = xs"
proof (induction xs)
  case (Cons x xs)
  then show ?case using insort_by_sorted [of le x xs] by (simp add: sort_by_def)
qed (simp add: sort_by_def)

lemma sort_by_Nil [simp]: "sort_by le [] = []"
  by (simp add: sort_by_def)

lemma sort_by_Cons: "sort_by le (x # xs) = insort_by le x (sort_by le xs)"
  by (simp add: sort_by_def)

text \<open>Stability: the elements satisfying a predicate that the comparator does not separate
  keep their order.\<close>

lemma filter_insort_by:
  assumes "\<And>a b. q a \<Longrightarrow> q b \<Longrightarrow> le a b"
  shows "filter q (insort_by le x xs) = (if q x then x # filter q xs else filter q xs)"
proof (induction xs)
  case (Cons y ys)
  then show ?case using assms by (cases "le x y") auto
qed simp

lemma filter_sort_by:
  assumes "\<And>a b. q a \<Longrightarrow> q b \<Longrightarrow> le a b"
  shows "filter q (sort_by le xs) = filter q xs"
  by (induction xs) (auto simp: sort_by_Cons filter_insort_by [OF assms])

end
