(* ===== verification/JsNumber.thy ===== *)
theory JsNumber
  imports JsPrelude
begin

text \<open>
  JavaScript numbers as the code uses them: written in decimal, compared, tested for being an
  integer and printed. \<open>Dec m e\<close> is the number \<open>m / 10 ^ e\<close>, kept normalised (\<open>dec_ok\<close>), so
  that equal numbers are equal values. Decimals of at most 15 significant digits and of
  magnitude between 1e-6 and 1e21 are exactly those on which binary64 parsing and printing are
  inverse and print without an exponent; the model is exact on them and rounds nothing. NaN and
  the infinities are the other values of \<open>jsnum\<close>. The sign of a zero is not kept.
\<close>

datatype dec = Dec int nat

datatype jsnum = NaN | Infinite bool | Num dec

fun dec_ok :: "dec \<Rightarrow> bool" where
  "dec_ok (Dec m e) \<longleftrightarrow> e = 0 \<or> m mod 10 \<noteq> 0"

fun norm_dec :: "int \<Rightarrow> nat \<Rightarrow> dec" where
  "norm_dec m 0 = Dec m 0"
| "norm_dec m (Suc e) = (if m mod 10 = 0 then norm_dec (m div 10) e else Dec m (Suc e))"

text \<open>\<open>m * 10 ^ p\<close> for an exponent of either sign.\<close>

definition scale_dec :: "int \<Rightarrow> int \<Rightarrow> dec" where
  "scale_dec m p = (if 0 \<le> p then Dec (m * 10 ^ nat p) 0 else norm_dec m (nat (- p)))"

instantiation dec :: ord
begin

fun less_eq_dec :: "dec \<Rightarrow> dec \<Rightarrow> bool" where
  "less_eq_dec (Dec m e) (Dec n f) \<longleftrightarrow> m * 10 ^ f \<le> n * 10 ^ e"

fun less_dec :: "dec \<Rightarrow> dec \<Rightarrow> bool" where
  "less_dec (Dec m e) (Dec n f) \<longleftrightarrow> m * 10 ^ f < n * 10 ^ e"

instance ..

end

abbreviation int_dec :: "int \<Rightarrow> dec" where
  "int_dec m \<equiv> Dec m 0"

fun dec_is_int :: "dec \<Rightarrow> bool" where
  "dec_is_int (Dec m e) \<longleftrightarrow> e = 0"

text \<open>\<open>Number.isInteger\<close>, and the comparisons, which are false on NaN.\<close>

fun num_is_integer :: "jsnum \<Rightarrow> bool" where
  "num_is_integer (Num d) = dec_is_int d"
| "num_is_integer _ = False"

fun num_le :: "jsnum \<Rightarrow> jsnum \<Rightarrow> bool" where
  "num_le NaN _ = False"
| "num_le _ NaN = False"
| "num_le (Infinite pos) b = (\<not> pos \<or> b = Infinite True)"
| "num_le (Num d) (Infinite pos) = pos"
| "num_le (Num d) (Num d') = (d \<le> d')"

definition num_lt :: "jsnum \<Rightarrow> jsnum \<Rightarrow> bool" where
  "num_lt a b \<longleftrightarrow> num_le a b \<and> \<not> num_le b a"

section \<open>Digits\<close>

definition digit_char :: "nat \<Rightarrow> char" where
  "digit_char n = ''0123456789'' ! n"

definition digit_val :: "char \<Rightarrow> nat" where
  "digit_val c = of_char c - 48"

fun show_nat :: "nat \<Rightarrow> string" where
  "show_nat n = (if n < 10 then [digit_char n] else show_nat (n div 10) @ [digit_char (n mod 10)])"

declare show_nat.simps [simp del]

fun frac_digits :: "nat \<Rightarrow> nat \<Rightarrow> string" where
  "frac_digits 0 n = []"
| "frac_digits (Suc e) n = frac_digits e (n div 10) @ [digit_char (n mod 10)]"

definition nat_of_digits :: "string \<Rightarrow> nat" where
  "nat_of_digits ds = foldl (\<lambda>a c. 10 * a + digit_val c) 0 ds"

definition show_int :: "int \<Rightarrow> string" where
  "show_int m = (if m < 0 then ''-'' else []) @ show_nat (nat \<bar>m\<bar>)"

text \<open>\<open>String(x)\<close>.\<close>

fun show_dec :: "dec \<Rightarrow> string" where
  "show_dec (Dec m e) =
     (if m < 0 then ''-'' else []) @ show_nat (nat \<bar>m\<bar> div 10 ^ e)
       @ (if e = 0 then [] else ''.'' @ frac_digits e (nat \<bar>m\<bar>))"

fun show_num :: "jsnum \<Rightarrow> string" where
  "show_num NaN = ''NaN''"
| "show_num (Infinite pos) = (if pos then ''Infinity'' else ''-Infinity'')"
| "show_num (Num d) = show_dec d"

section \<open>Number literals\<close>

text \<open>The optional exponent part: None when an exponent is started and has no digits.\<close>

definition parse_exponent :: "string \<Rightarrow> (int \<times> string) option" where
  "parse_exponent s = (case s of
     [] \<Rightarrow> Some (0, s)
   | c # r \<Rightarrow>
       if c = CHR ''e'' \<or> c = CHR ''E'' then
         (let neg = (r \<noteq> [] \<and> hd r = CHR ''-'');
              r1 = (if r \<noteq> [] \<and> (hd r = CHR ''-'' \<or> hd r = CHR ''+'') then tl r else r);
              xs = takeWhile is_digit r1
          in if xs = [] then None
             else Some ((if neg then - int (nat_of_digits xs) else int (nat_of_digits xs)),
                        dropWhile is_digit r1))
       else Some (0, s))"

text \<open>A JSON number at the start of a text, and what follows it.\<close>

definition parse_json_number :: "string \<Rightarrow> (dec \<times> string) option" where
  "parse_json_number s =
     (let neg = (s \<noteq> [] \<and> hd s = CHR ''-'');
          s1 = (if neg then tl s else s);
          ds = takeWhile is_digit s1;
          s2 = dropWhile is_digit s1;
          dot = (s2 \<noteq> [] \<and> hd s2 = CHR ''.'');
          fs = (if dot then takeWhile is_digit (tl s2) else []);
          s3 = (if dot then dropWhile is_digit (tl s2) else s2);
          k = int (nat_of_digits (ds @ fs))
      in if ds = [] \<or> 1 < length ds \<and> hd ds = CHR ''0'' \<or> dot \<and> fs = [] then None
         else (case parse_exponent s3 of
             None \<Rightarrow> None
           | Some (x, rest) \<Rightarrow> Some (scale_dec (if neg then - k else k) (x - int (length fs)), rest)))"

text \<open>\<open>Number(s)\<close> on a string: white space around is ignored, the empty string is 0, a literal
  is a decimal with an optional sign, point and exponent, or \<open>Infinity\<close>, or an unsigned
  hexadecimal, octal or binary integer; anything else is NaN.\<close>

definition radix_digits :: "char \<Rightarrow> string" where
  "radix_digits c = (if c \<in> set ''xX'' then ''0123456789abcdef''
     else if c \<in> set ''oO'' then ''01234567'' else if c \<in> set ''bB'' then ''01'' else [])"

definition radix_value :: "string \<Rightarrow> string \<Rightarrow> nat option" where
  "radix_value digs s =
     (if s \<noteq> [] \<and> (\<forall>c \<in> set s. char_lower c \<in> set digs)
      then Some (foldl (\<lambda>a c. length digs * a + length (takeWhile (\<lambda>d. d \<noteq> char_lower c) digs)) 0 s)
      else None)"


definition js_number :: "string \<Rightarrow> jsnum" where
  "js_number s0 =
     (let s = js_trim s0;
          signed = (s \<noteq> [] \<and> (hd s = CHR ''-'' \<or> hd s = CHR ''+''));
          neg = (signed \<and> hd s = CHR ''-'');
          s1 = (if signed then tl s else s);
          ds = takeWhile is_digit s1;
          s2 = dropWhile is_digit s1;
          dot = (s2 \<noteq> [] \<and> hd s2 = CHR ''.'');
          fs = (if dot then takeWhile is_digit (tl s2) else []);
          s3 = (if dot then dropWhile is_digit (tl s2) else s2);
          k = int (nat_of_digits (ds @ fs))
      in if s = [] then Num (int_dec 0)
         else if s1 = ''Infinity'' then Infinite (\<not> neg)
         else if \<not> signed \<and> 2 < length s \<and> hd s = CHR ''0'' \<and> radix_digits (s ! 1) \<noteq> [] then
           (case radix_value (radix_digits (s ! 1)) (drop 2 s) of
              None \<Rightarrow> NaN | Some n \<Rightarrow> Num (int_dec (int n)))
         else if ds @ fs = [] then NaN
         else (case parse_exponent s3 of
             Some (x, []) \<Rightarrow> Num (scale_dec (if neg then - k else k) (x - int (length fs)))
           | _ \<Rightarrow> NaN))"

section \<open>Facts: digits\<close>

lemma is_digit_digit_char [simp]: "n < 10 \<Longrightarrow> is_digit (digit_char n)"
  by (simp add: is_digit_def digit_char_def numeral_eq_Suc less_Suc_eq) (auto simp: nth_Cons')

lemma digit_val_digit_char [simp]: "n < 10 \<Longrightarrow> digit_val (digit_char n) = n"
  by (simp add: digit_val_def digit_char_def numeral_eq_Suc less_Suc_eq) (auto simp: nth_Cons')

lemma nat_of_digits_snoc: "nat_of_digits (ds @ [c]) = 10 * nat_of_digits ds + digit_val c"
  by (simp add: nat_of_digits_def)

lemma nat_of_digits_Nil [simp]: "nat_of_digits [] = 0"
  by (simp add: nat_of_digits_def)

lemma show_nat_digits: "c \<in> set (show_nat n) \<Longrightarrow> is_digit c"
  by (induction n rule: show_nat.induct) (subst (asm) (2) show_nat.simps, auto split: if_splits)

lemma show_nat_not_Nil [simp]: "show_nat n \<noteq> []"
  by (subst show_nat.simps) simp

lemma nat_of_digits_show_nat [simp]: "nat_of_digits (show_nat n) = n"
proof (induction n rule: show_nat.induct)
  case (1 n)
  then show ?case
    by (subst show_nat.simps) (auto simp: nat_of_digits_snoc nat_of_digits_def [of "[_]"])
qed

lemma hd_show_nat: "hd (show_nat n) = CHR ''0'' \<Longrightarrow> n = 0"
proof (induction n rule: show_nat.induct)
  case (1 n)
  show ?case
  proof (cases "n < 10")
    case True
    then have "digit_char n = CHR ''0''" using "1.prems" by (subst (asm) show_nat.simps) simp
    then have "digit_val (digit_char n) = 0" by (simp add: digit_val_def)
    with True show ?thesis by simp
  next
    case False
    then have "hd (show_nat (n div 10)) = CHR ''0''"
      using "1.prems" by (subst (asm) show_nat.simps) simp
    with "1.IH" False have "n div 10 = 0" by simp
    with False show ?thesis by simp
  qed
qed

lemma show_nat_no_leading_zero: "\<not> (1 < length (show_nat n) \<and> hd (show_nat n) = CHR ''0'')"
  using hd_show_nat [of n] by (auto simp: show_nat.simps [of 0])

lemma frac_digits_digits: "c \<in> set (frac_digits e n) \<Longrightarrow> is_digit c"
  by (induction e arbitrary: n) auto

lemma length_frac_digits [simp]: "length (frac_digits e n) = e"
  by (induction e arbitrary: n) auto

lemma nat_of_digits_frac: "nat_of_digits (show_nat (n div 10 ^ e) @ frac_digits e n) = n"
proof (induction e arbitrary: n)
  case (Suc e)
  have "nat_of_digits (show_nat (n div 10 ^ Suc e) @ frac_digits (Suc e) n)
      = 10 * nat_of_digits (show_nat (n div 10 div 10 ^ e) @ frac_digits e (n div 10)) + n mod 10"
    by (simp add: nat_of_digits_snoc div_mult2_eq mult.commute flip: append_assoc)
  then show ?case using Suc.IH [of "n div 10"] by simp
qed simp

section \<open>Facts: printing and reading a number\<close>

lemma norm_dec_ok: "dec_ok (Dec m e) \<Longrightarrow> norm_dec m e = Dec m e"
  by (cases e) auto

lemma dec_ok_norm_dec: "dec_ok (norm_dec m e)"
  by (induction m e rule: norm_dec.induct) auto

lemma dec_ok_scale_dec: "dec_ok (scale_dec m p)"
  by (simp add: scale_dec_def dec_ok_norm_dec)

definition ends_number :: "string \<Rightarrow> bool" where
  "ends_number r \<longleftrightarrow> r = [] \<or> \<not> is_digit (hd r) \<and> hd r \<notin> set ''.eE''"

lemma parse_exponent_end: "ends_number r \<Longrightarrow> parse_exponent r = Some (0, r)"
  by (auto simp: ends_number_def parse_exponent_def split: list.splits)

lemma takeWhile_digits:
  "\<forall>c \<in> set ds. is_digit c \<Longrightarrow> r = [] \<or> \<not> is_digit (hd r) \<Longrightarrow> takeWhile is_digit (ds @ r) = ds"
  by (cases r) (auto simp: takeWhile_append)

lemma dropWhile_digits:
  "\<forall>c \<in> set ds. is_digit c \<Longrightarrow> r = [] \<or> \<not> is_digit (hd r) \<Longrightarrow> dropWhile is_digit (ds @ r) = r"
  by (cases r) (auto simp: dropWhile_append)

lemma is_digit_simps [simp]: "\<not> is_digit CHR ''.''" "\<not> is_digit CHR ''-''" "\<not> is_digit CHR ''e''"
  "\<not> is_digit CHR ''+''"
  by (simp_all add: is_digit_def)

lemma hd_show_nat_digit: "is_digit (hd (show_nat n))"
  by (rule show_nat_digits [of _ n]) simp

lemma parse_show_dec:
  assumes ok: "dec_ok d" and r: "ends_number r"
  shows "parse_json_number (show_dec d @ r) = Some (d, r)"
proof (cases d)
  case (Dec m e)
  define k where "k = nat \<bar>m\<bar>"
  define ds where "ds = show_nat (k div 10 ^ e)"
  define fs where "fs = frac_digits e k"
  define tail where "tail = (if e = 0 then [] else ''.'' @ fs) @ r"
  define s1 where "s1 = ds @ tail"
  have s: "show_dec d @ r = (if m < 0 then ''-'' else []) @ s1"
    by (simp add: Dec k_def ds_def fs_def tail_def s1_def)
  have dig: "\<forall>c \<in> set ds. is_digit c" "\<forall>c \<in> set fs. is_digit c"
    by (auto simp: ds_def fs_def dest: show_nat_digits frac_digits_digits)
  have tl: "tail = [] \<or> \<not> is_digit (hd tail)" and r': "r = [] \<or> \<not> is_digit (hd r)"
    using r by (auto simp: tail_def ends_number_def)
  have tw: "takeWhile is_digit s1 = ds" "dropWhile is_digit s1 = tail"
    unfolding s1_def
    by (rule takeWhile_digits [OF dig(1) tl], rule dropWhile_digits [OF dig(1) tl])
  have ne: "ds \<noteq> []" and lz: "\<not> (1 < length ds \<and> hd ds = CHR ''0'')"
    unfolding ds_def by (simp, rule show_nat_no_leading_zero)
  have hd1: "hd s1 \<noteq> CHR ''-''" "s1 \<noteq> []"
    using ne hd_show_nat_digit [of "k div 10 ^ e"] by (auto simp: s1_def ds_def)
  have neg: "(show_dec d @ r \<noteq> [] \<and> hd (show_dec d @ r) = CHR ''-'') = (m < 0)"
    unfolding s using hd1 by simp
  have s1': "(if m < 0 then tl (show_dec d @ r) else show_dec d @ r) = s1"
    unfolding s by simp
  have k: "nat_of_digits (ds @ fs) = k"
    by (simp add: ds_def fs_def nat_of_digits_frac)
  have fs0: "fs = [] \<longleftrightarrow> e = 0" and len: "length fs = e"
    by (simp_all add: fs_def flip: length_0_conv)
  have dot: "(tail \<noteq> [] \<and> hd tail = CHR ''.'') = (e \<noteq> 0)"
    using r by (auto simp: tail_def ends_number_def)
  have r0: "takeWhile is_digit r = []" "dropWhile is_digit r = r"
    using r' by (cases r; simp)+
  have frac: "(if e \<noteq> 0 then takeWhile is_digit (tl tail) else []) = fs"
    "(if e \<noteq> 0 then dropWhile is_digit (tl tail) else tail) = r"
    using dig(2) fs0 r0 by (auto simp: tail_def)
  have km: "(if m < 0 then - int k else int k) = m"
    by (simp add: k_def)
  have sc: "scale_dec m (- int e) = d"
    using ok norm_dec_ok [of m e] by (auto simp: scale_dec_def Dec)
  show ?thesis
    unfolding parse_json_number_def Let_def neg s1' tw dot frac k
    using ne lz fs0 r by (cases "e = 0") (use sc in \<open>auto simp: parse_exponent_end len km\<close>)
qed

lemma parse_exponent_length: "parse_exponent s = Some (x, r) \<Longrightarrow> length r \<le> length s"
proof (cases s)
  case (Cons c t)
  have "length (dropWhile is_digit t) \<le> length t" "length (dropWhile is_digit (tl t)) \<le> length t"
    by (rule length_dropWhile_le, metis diff_le_self length_dropWhile_le length_tl order_trans)
  then show "parse_exponent s = Some (x, r) \<Longrightarrow> length r \<le> length s"
    by (auto simp: parse_exponent_def Cons Let_def split: if_splits)
qed (simp add: parse_exponent_def)

lemma parse_json_number_props:
  assumes "parse_json_number s = Some (d, r)"
  shows "length r < length s \<and> dec_ok d"
proof -
  define s1 where "s1 = (if s \<noteq> [] \<and> hd s = CHR ''-'' then tl s else s)"
  define s2 where "s2 = dropWhile is_digit s1"
  define s3 where "s3 = (if s2 \<noteq> [] \<and> hd s2 = CHR ''.'' then dropWhile is_digit (tl s2) else s2)"
  define fs where "fs = (if s2 \<noteq> [] \<and> hd s2 = CHR ''.'' then takeWhile is_digit (tl s2) else [])"
  define bad where "bad \<longleftrightarrow> takeWhile is_digit s1 = [] \<or> 1 < length (takeWhile is_digit s1) \<and>
      hd (takeWhile is_digit s1) = CHR ''0'' \<or> (s2 \<noteq> [] \<and> hd s2 = CHR ''.'') \<and> fs = []"
  define y where "y = (if s \<noteq> [] \<and> hd s = CHR ''-'' then - int (nat_of_digits (takeWhile is_digit s1 @ fs))
      else int (nat_of_digits (takeWhile is_digit s1 @ fs)))"
  have eq: "(if bad then None else (case parse_exponent s3 of None \<Rightarrow> None
      | Some (x, rest) \<Rightarrow> Some (scale_dec y (x - int (length fs)), rest))) = Some (d, r)"
    using assms unfolding parse_json_number_def Let_def bad_def y_def fs_def s3_def s2_def s1_def .
  then have "\<not> bad" by (cases bad) simp_all
  with eq obtain x where x: "parse_exponent s3 = Some (x, r)" "d = scale_dec y (x - int (length fs))"
    by (cases "parse_exponent s3") auto
  have ds: "takeWhile is_digit s1 \<noteq> []" using \<open>\<not> bad\<close> by (simp add: bad_def)
  have "length s2 < length s1"
    using ds length_append [of "takeWhile is_digit s1" "dropWhile is_digit s1"] by (simp add: s2_def)
  moreover have "length s1 \<le> length s" by (simp add: s1_def)
  moreover have "length s3 \<le> length s2"
    using length_dropWhile_le [of is_digit "tl s2"] by (auto simp: s3_def)
  moreover have "length r \<le> length s3" by (rule parse_exponent_length [OF x(1)])
  ultimately show ?thesis using x(2) by (simp add: dec_ok_scale_dec)
qed

end
