(* ===== verification/Json.thy ===== *)
theory Json
  imports JsNumber
begin

text \<open>
  JSON values, \<open>JSON.parse\<close> and \<open>JSON.stringify\<close>, which the channel editor uses on every text
  it loads and saves. An object is the list of its properties in JavaScript's enumeration
  order: keys that are array indices first, ascending, then the others in insertion order. The
  main results are that parsing inverts printing, for the compact and for the indented form,
  and that every parsed value is well formed. Characters and escapes above U+00FF are outside
  the model: a text that holds such an escape does not parse here.
\<close>

datatype json =
    JNull
  | JBool bool
  | JNum dec
  | JStr string
  | JArr "json list"
  | JObj "(string \<times> json) list"

section \<open>Objects\<close>

definition array_index :: "string \<Rightarrow> nat option" where
  "array_index k =
     (let n = nat_of_digits k
      in if k \<noteq> [] \<and> list_all is_digit k \<and> show_nat n = k \<and> n < 4294967295 then Some n else None)"

definition obj_get :: "string \<Rightarrow> (string \<times> 'v) list \<Rightarrow> 'v option" where
  "obj_get k kvs = map_of kvs k"

definition index_below :: "nat \<Rightarrow> string \<times> 'v \<Rightarrow> bool" where
  "index_below n p = (case array_index (fst p) of None \<Rightarrow> False | Some m \<Rightarrow> m < n)"

definition obj_set :: "string \<Rightarrow> 'v \<Rightarrow> (string \<times> 'v) list \<Rightarrow> (string \<times> 'v) list" where
  "obj_set k v kvs =
     (if k \<in> fst ` set kvs then map (\<lambda>p. if fst p = k then (k, v) else p) kvs
      else (case array_index k of
          None \<Rightarrow> kvs @ [(k, v)]
        | Some n \<Rightarrow> takeWhile (index_below n) kvs @ (k, v) # dropWhile (index_below n) kvs))"

definition obj_delete :: "string \<Rightarrow> (string \<times> 'v) list \<Rightarrow> (string \<times> 'v) list" where
  "obj_delete k kvs = filter (\<lambda>p. fst p \<noteq> k) kvs"

definition obj_of_list :: "(string \<times> 'v) list \<Rightarrow> (string \<times> 'v) list" where
  "obj_of_list kvs = fold (\<lambda>p. obj_set (fst p) (snd p)) kvs []"

definition key_before :: "string \<Rightarrow> string \<Rightarrow> bool" where
  "key_before k k' \<longleftrightarrow> k \<noteq> k' \<and>
     (case (array_index k, array_index k') of
        (Some m, Some n) \<Rightarrow> m < n
      | (None, Some _) \<Rightarrow> False
      | _ \<Rightarrow> True)"

definition obj_ok :: "(string \<times> 'v) list \<Rightarrow> bool" where
  "obj_ok kvs \<longleftrightarrow> sorted_wrt key_before (map fst kvs)"

fun json_ok :: "json \<Rightarrow> bool" where
  "json_ok (JNum d) = dec_ok d"
| "json_ok (JArr xs) = (\<forall>x \<in> set xs. json_ok x)"
| "json_ok (JObj kvs) = (obj_ok kvs \<and> (\<forall>p \<in> set kvs. json_ok (snd p)))"
| "json_ok _ = True"

section \<open>JSON.stringify\<close>

abbreviation quote_char :: char where "quote_char \<equiv> CHR 0x22"
abbreviation backslash :: char where "backslash \<equiv> CHR 0x5C"
abbreviation newline :: char where "newline \<equiv> CHR 0x0A"

definition hex_digits :: string where
  "hex_digits = ''0123456789abcdef''"

definition short_escapes :: "(char \<times> char) list" where
  "short_escapes = [(quote_char, quote_char), (backslash, backslash), (CHR 0x08, CHR ''b''),
     (CHR 0x0C, CHR ''f''), (CHR 0x0A, CHR ''n''), (CHR 0x0D, CHR ''r''), (CHR 0x09, CHR ''t'')]"

definition esc_char :: "char \<Rightarrow> string" where
  "esc_char c = (case map_of short_escapes c of
       Some d \<Rightarrow> [backslash, d]
     | None \<Rightarrow>
         if of_char c < (32::nat)
         then [backslash, CHR ''u'', CHR ''0'', CHR ''0'',
               hex_digits ! (of_char c div 16), hex_digits ! (of_char c mod 16)]
         else [c])"

definition show_jstr :: "string \<Rightarrow> string" where
  "show_jstr s = quote_char # concat (map esc_char s) @ [quote_char]"

text \<open>\<open>JSON.stringify(v)\<close> has an empty gap; \<open>JSON.stringify(v, null, 2)\<close> a gap of 2 spaces.\<close>

definition new_line :: "nat \<Rightarrow> nat \<Rightarrow> string" where
  "new_line gap ind = (if gap = 0 then [] else newline # replicate ind CHR '' '')"

fun json_text :: "nat \<Rightarrow> nat \<Rightarrow> json \<Rightarrow> string" where
  "json_text gap ind JNull = ''null''"
| "json_text gap ind (JBool b) = (if b then ''true'' else ''false'')"
| "json_text gap ind (JNum d) = show_dec d"
| "json_text gap ind (JStr s) = show_jstr s"
| "json_text gap ind (JArr xs) =
     (if xs = [] then ''[]''
      else ''['' @ new_line gap (ind + gap)
        @ js_join ('','' @ new_line gap (ind + gap)) (map (json_text gap (ind + gap)) xs)
        @ new_line gap ind @ '']'')"
| "json_text gap ind (JObj kvs) =
     (if kvs = [] then ''{}''
      else ''{'' @ new_line gap (ind + gap)
        @ js_join ('','' @ new_line gap (ind + gap))
            (map (\<lambda>p. show_jstr (fst p) @ (if gap = 0 then '':'' else '': '')
                      @ json_text gap (ind + gap) (snd p)) kvs)
        @ new_line gap ind @ ''}'')"

abbreviation json_stringify :: "json \<Rightarrow> string" where
  "json_stringify \<equiv> json_text 0 0"

abbreviation json_pretty :: "json \<Rightarrow> string" where
  "json_pretty \<equiv> json_text 2 0"

section \<open>JSON.parse\<close>

definition is_json_ws :: "char \<Rightarrow> bool" where
  "is_json_ws c \<longleftrightarrow> c \<in> {CHR 0x20, CHR 0x09, CHR 0x0A, CHR 0x0D}"

abbreviation skip_ws :: "string \<Rightarrow> string" where
  "skip_ws \<equiv> dropWhile is_json_ws"

definition hex_val :: "char \<Rightarrow> nat option" where
  "hex_val c = index_where ((=) (char_lower c)) hex_digits"

definition unescapes :: "(char \<times> char) list" where
  "unescapes = [(quote_char, quote_char), (backslash, backslash), (CHR ''/'', CHR ''/''),
     (CHR ''b'', CHR 0x08), (CHR ''f'', CHR 0x0C), (CHR ''n'', CHR 0x0A), (CHR ''r'', CHR 0x0D),
     (CHR ''t'', CHR 0x09)]"

text \<open>The four hexadecimal digits of an escape, as a code unit below 256.\<close>

fun hex_unit :: "string \<Rightarrow> (char \<times> string) option" where
  "hex_unit (a # b # c # d # r) =
     (case (hex_val a, hex_val b, hex_val c, hex_val d) of
        (Some w, Some x, Some y, Some z) \<Rightarrow>
          if w = 0 \<and> x = 0 then Some (char_of (16 * y + z), r) else None
      | _ \<Rightarrow> None)"
| "hex_unit _ = None"

text \<open>One escape, after its backslash.\<close>

definition parse_escape :: "string \<Rightarrow> (char \<times> string) option" where
  "parse_escape s = (case s of
     [] \<Rightarrow> None
   | d # r \<Rightarrow> if d = CHR ''u'' then hex_unit r else map_option (\<lambda>x. (x, r)) (map_of unescapes d))"

lemma hex_unit_length: "hex_unit s = Some (c, r) \<Longrightarrow> length r < length s"
  by (cases s rule: hex_unit.cases) (auto split: option.splits if_splits)

lemma parse_escape_length: "parse_escape s = Some (c, r) \<Longrightarrow> length r < length s"
  by (auto simp: parse_escape_def dest: hex_unit_length split: list.splits if_splits)

text \<open>The rest of a string literal, after its opening quote.\<close>

function parse_jstr :: "string \<Rightarrow> (string \<times> string) option" where
  "parse_jstr [] = None"
| "parse_jstr (c # s) =
     (if c = quote_char then Some ([], s)
      else if c = backslash then
        (case parse_escape s of
           None \<Rightarrow> None
         | Some (d, r) \<Rightarrow> map_option (\<lambda>(t, r'). (d # t, r')) (parse_jstr r))
      else if of_char c < (32::nat) then None
      else map_option (\<lambda>(t, r'). (c # t, r')) (parse_jstr s))"
  by pat_completeness auto
termination
  by (relation "measure length") (auto dest: parse_escape_length)

lemma parse_jstr_length: "parse_jstr s = Some (t, r) \<Longrightarrow> length r < length s"
proof (induction s arbitrary: t rule: parse_jstr.induct)
  case (2 c s)
  then show ?case
    by (auto split: if_splits option.splits prod.splits dest: parse_escape_length)
       (meson less_SucI less_trans parse_escape_length)+
qed simp

text \<open>The tests \<open>length r < length s\<close> below always hold (\<open>parse_lengths\<close>); they stand in the
  equations for the termination proof.\<close>

function parse_value :: "string \<Rightarrow> (json \<times> string) option"
  and parse_elems :: "string \<Rightarrow> (json list \<times> string) option"
  and parse_members :: "string \<Rightarrow> ((string \<times> json) list \<times> string) option" where
  "parse_value s = (case skip_ws s of
     [] \<Rightarrow> None
   | c # r \<Rightarrow>
       if c = quote_char then map_option (\<lambda>(t, r'). (JStr t, r')) (parse_jstr r)
       else if c = CHR ''['' then
         (if skip_ws r \<noteq> [] \<and> hd (skip_ws r) = CHR '']'' then Some (JArr [], tl (skip_ws r))
          else map_option (\<lambda>(vs, r'). (JArr vs, r')) (parse_elems r))
       else if c = CHR ''{'' then
         (if skip_ws r \<noteq> [] \<and> hd (skip_ws r) = CHR ''}'' then Some (JObj [], tl (skip_ws r))
          else map_option (\<lambda>(kvs, r'). (JObj (obj_of_list kvs), r')) (parse_members r))
       else if prefix ''true'' (c # r) then Some (JBool True, drop 3 r)
       else if prefix ''false'' (c # r) then Some (JBool False, drop 4 r)
       else if prefix ''null'' (c # r) then Some (JNull, drop 3 r)
       else map_option (\<lambda>(d, r'). (JNum d, r')) (parse_json_number (c # r)))"
| "parse_elems s = (case parse_value s of
     None \<Rightarrow> None
   | Some (v, r) \<Rightarrow> (case skip_ws r of
       [] \<Rightarrow> None
     | d # r1 \<Rightarrow>
         if d = CHR '']'' then Some ([v], r1)
         else if d = CHR '','' \<and> length r1 < length s then
           map_option (\<lambda>(vs, r'). (v # vs, r')) (parse_elems r1)
         else None))"
| "parse_members s = (case skip_ws s of
     [] \<Rightarrow> None
   | c # r \<Rightarrow>
       if c \<noteq> quote_char then None
       else (case parse_jstr r of
         None \<Rightarrow> None
       | Some (k, r1) \<Rightarrow> (case skip_ws r1 of
           [] \<Rightarrow> None
         | d # r2 \<Rightarrow>
             if d \<noteq> CHR '':'' \<or> \<not> length r2 < length s then None
             else (case parse_value r2 of
               None \<Rightarrow> None
             | Some (v, r3) \<Rightarrow> (case skip_ws r3 of
                 [] \<Rightarrow> None
               | e # r4 \<Rightarrow>
                   if e = CHR ''}'' then Some ([(k, v)], r4)
                   else if e = CHR '','' \<and> length r4 < length s then
                     map_option (\<lambda>(kvs, r'). ((k, v) # kvs, r')) (parse_members r4)
                   else None)))))"
  by pat_completeness auto
termination
proof (relation "measure (case_sum (\<lambda>s. 2 * length s) (case_sum (\<lambda>s. 2 * length s + 1) (\<lambda>s. 2 * length s + 1)))", goal_cases)
  case (2 s c r)
  have "length (skip_ws s) \<le> length s" by (rule length_dropWhile_le)
  with 2 show ?case by simp
next
  case (3 s c r)
  have "length (skip_ws s) \<le> length s" by (rule length_dropWhile_le)
  with 3 show ?case by simp
qed auto

declare parse_value.simps [simp del] parse_elems.simps [simp del] parse_members.simps [simp del]

definition json_parse :: "string \<Rightarrow> json option" where
  "json_parse s = (case parse_value s of
     None \<Rightarrow> None
   | Some (v, r) \<Rightarrow> if skip_ws r = [] then Some v else None)"

section \<open>Facts: objects\<close>

lemma map_fst_replace: "map fst (map (\<lambda>p. if fst p = k then (k, v) else p) kvs) = map fst kvs"
  by (induction kvs) auto

lemma map_of_replace: "map_of (map (\<lambda>p. if fst p = k then (k, v) else p) kvs) k' =
    (if k' = k then (if k \<in> fst ` set kvs then Some v else None) else map_of kvs k')"
  by (induction kvs) (auto, force)

lemma obj_get_set [simp]: "obj_get k' (obj_set k v kvs) = (if k' = k then Some v else obj_get k' kvs)"
proof (cases "k \<in> fst ` set kvs")
  case True
  then show ?thesis by (simp add: obj_set_def obj_get_def map_of_replace)
next
  case False
  have "map_of (takeWhile q kvs @ (k, v) # dropWhile q kvs) k' =
      (if k' = k then Some v else map_of kvs k')" for q
  proof -
    have "map_of kvs k = None" using False by (simp add: map_of_eq_None_iff)
    then have "map_of (takeWhile q kvs @ dropWhile q kvs) k = None" by simp
    then have k: "map_of (takeWhile q kvs) k = None"
      by (simp only: map_of_append map_add_None)
    have "map_of kvs k' = map_of (takeWhile q kvs @ dropWhile q kvs) k'" by simp
    with k show ?thesis by (auto simp: map_add_def simp del: takeWhile_dropWhile_id split: option.splits)
  qed
  moreover have "map_of kvs k = None" using False by (simp add: map_of_eq_None_iff)
  then have "map_of (kvs @ [(k, v)]) k' = (if k' = k then Some v else map_of kvs k')"
    by (auto simp: map_add_def split: option.splits)
  ultimately show ?thesis
    using False by (cases "array_index k") (simp_all only: obj_set_def obj_get_def if_False option.case)
qed

lemma obj_get_delete [simp]: "obj_get k' (obj_delete k kvs) = (if k' = k then None else obj_get k' kvs)"
  by (induction kvs) (auto simp: obj_get_def obj_delete_def)

lemma obj_get_Nil [simp]: "obj_get k [] = None"
  by (simp add: obj_get_def)

lemma keys_obj_set: "fst ` set (obj_set k v kvs) = insert k (fst ` set kvs)"
proof (cases "k \<in> fst ` set kvs")
  case True
  have "fst ` set (map (\<lambda>p. if fst p = k then (k, v) else p) kvs) = fst ` set kvs"
    by (metis list.set_map map_fst_replace)
  with True show ?thesis by (simp add: obj_set_def insert_absorb)
next
  case False
  have "set (takeWhile q kvs) \<union> set (dropWhile q kvs) = set kvs" for q
    by (metis set_append takeWhile_dropWhile_id)
  then have "fst ` set (takeWhile q kvs) \<union> fst ` set (dropWhile q kvs) = fst ` set kvs" for q
    by (metis image_Un)
  with False show ?thesis by (simp add: obj_set_def image_Un split: option.split)
qed

lemma obj_ok_distinct: "obj_ok kvs \<Longrightarrow> distinct (map fst kvs)"
  by (induction kvs) (auto simp: obj_ok_def key_before_def)

lemma obj_ok_Nil [simp]: "obj_ok []"
  by (simp add: obj_ok_def)

lemma obj_ok_delete: "obj_ok kvs \<Longrightarrow> obj_ok (obj_delete k kvs)"
  by (induction kvs) (auto simp: obj_ok_def obj_delete_def)

lemma obj_set_last:
  assumes "obj_ok (kvs @ [(k, v)])"
  shows "obj_set k v kvs = kvs @ [(k, v)]"
proof -
  have b: "\<forall>p \<in> set kvs. key_before (fst p) k"
    using assms by (auto simp: obj_ok_def sorted_wrt_append)
  then have "k \<notin> fst ` set kvs" by (auto simp: key_before_def)
  moreover have "\<forall>p \<in> set kvs. index_below n p" if "array_index k = Some n" for n
    using b that by (auto simp: key_before_def index_below_def split: option.splits)
  ultimately show ?thesis
    by (auto simp: obj_set_def split: option.splits)
qed

lemma obj_of_list_ok: "obj_ok kvs \<Longrightarrow> obj_of_list kvs = kvs"
proof -
  have "obj_ok (acc @ kvs) \<Longrightarrow> fold (\<lambda>p. obj_set (fst p) (snd p)) kvs acc = acc @ kvs" for acc
  proof (induction kvs arbitrary: acc)
    case (Cons p kvs)
    have "obj_ok ((acc @ [p]) @ kvs)" using Cons.prems by simp
    then have "obj_ok (acc @ [p])" by (simp add: obj_ok_def sorted_wrt_append)
    then have "obj_set (fst p) (snd p) acc = acc @ [p]" using obj_set_last [of acc "fst p" "snd p"] by simp
    then show ?case using Cons.IH [of "acc @ [p]"] Cons.prems by simp
  qed simp
  from this [of "[]"] show "obj_ok kvs \<Longrightarrow> obj_of_list kvs = kvs"
    by (simp add: obj_of_list_def)
qed

lemma array_index_inj: "array_index k = Some n \<Longrightarrow> array_index k' = Some n \<Longrightarrow> k = k'"
  by (auto simp: array_index_def Let_def split: if_splits)

lemma dropWhile_index_below:
  assumes ok: "obj_ok kvs" and k: "k \<notin> fst ` set kvs" "array_index k = Some n"
    and p: "p \<in> set (dropWhile (index_below n) kvs)"
  shows "key_before k (fst p)"
proof -
  have "fst p \<noteq> k" using p k(1) by (auto dest: set_dropWhileD)
  have "\<not> index_below n p"
    using ok p
  proof (induction kvs)
    case (Cons q kvs)
    show ?case
    proof (cases "index_below n q")
      case True
      with Cons show ?thesis by (auto simp: obj_ok_def)
    next
      case False
      have "key_before (fst q) (fst r)" if "r \<in> set kvs" for r
        using Cons.prems(1) that by (auto simp: obj_ok_def)
      moreover have "p = q \<or> p \<in> set kvs" using False Cons.prems(2) by simp
      ultimately have "p = q \<or> key_before (fst q) (fst p)" by blast
      with False show ?thesis
        by (cases "array_index (fst q)"; cases "array_index (fst p)")
           (auto simp: index_below_def key_before_def)
    qed
  qed simp
  with \<open>fst p \<noteq> k\<close> k(2) array_index_inj [of k n "fst p"] show ?thesis
    by (auto simp: key_before_def index_below_def linorder_not_less order_le_less split: option.splits)
qed

lemma takeWhile_index_below:
  "array_index k = Some n \<Longrightarrow> p \<in> set (takeWhile (index_below n) kvs) \<Longrightarrow> key_before (fst p) k"
  by (drule set_takeWhileD) (auto simp: index_below_def key_before_def split: option.splits)

lemma obj_ok_set: "obj_ok kvs \<Longrightarrow> obj_ok (obj_set k v kvs)"
proof (cases "k \<in> fst ` set kvs")
  case True
  then show "obj_ok kvs \<Longrightarrow> ?thesis"
    by (simp add: obj_set_def obj_ok_def map_fst_replace del: map_map)
next
  case False
  assume ok: "obj_ok kvs"
  show ?thesis
  proof (cases "array_index k")
    case None
    with ok False show ?thesis
      by (auto simp: obj_set_def obj_ok_def sorted_wrt_append key_before_def split: option.splits)
  next
    case (Some n)
    let ?t = "takeWhile (index_below n) kvs" and ?d = "dropWhile (index_below n) kvs"
    have "obj_ok (?t @ ?d)" using ok by simp
    then have "sorted_wrt key_before (map fst ?t)" "sorted_wrt key_before (map fst ?d)"
      "\<forall>x \<in> set ?t. \<forall>y \<in> set ?d. key_before (fst x) (fst y)"
      by (auto simp: obj_ok_def sorted_wrt_append simp del: takeWhile_dropWhile_id)
    moreover have "\<forall>x \<in> set ?t. key_before (fst x) k"
      using takeWhile_index_below [OF Some] by blast
    moreover have "\<forall>y \<in> set ?d. key_before k (fst y)"
      using dropWhile_index_below [OF ok False Some] by blast
    ultimately show ?thesis
      using False Some by (auto simp: obj_set_def obj_ok_def sorted_wrt_append)
  qed
qed

lemma obj_ok_of_list: "obj_ok (obj_of_list kvs)"
proof -
  have "obj_ok acc \<Longrightarrow> obj_ok (fold (\<lambda>p. obj_set (fst p) (snd p)) kvs acc)" for acc
    by (induction kvs arbitrary: acc) (auto intro: obj_ok_set)
  then show ?thesis by (simp add: obj_of_list_def)
qed

lemma obj_set_values: "p \<in> set (obj_set k v kvs) \<Longrightarrow> p \<in> set kvs \<or> p = (k, v)"
  by (auto simp: obj_set_def split: if_splits option.splits dest: set_takeWhileD set_dropWhileD)

lemma obj_delete_values: "p \<in> set (obj_delete k kvs) \<Longrightarrow> p \<in> set kvs"
  by (auto simp: obj_delete_def)

lemma obj_of_list_values: "p \<in> set (obj_of_list kvs) \<Longrightarrow> p \<in> set kvs"
proof -
  have "p \<in> set (fold (\<lambda>p. obj_set (fst p) (snd p)) kvs acc) \<Longrightarrow> p \<in> set kvs \<union> set acc" for acc
  proof (induction kvs arbitrary: acc)
    case (Cons q kvs)
    from Cons.IH [of "obj_set (fst q) (snd q) acc"] Cons.prems show ?case
      by (auto dest: obj_set_values)
  qed simp
  from this [of "[]"] show "p \<in> set (obj_of_list kvs) \<Longrightarrow> p \<in> set kvs"
    by (simp add: obj_of_list_def)
qed

section \<open>Facts: string literals\<close>

lemma hex_val_digits: "\<forall>n \<in> set [0..<16]. hex_val (hex_digits ! n) = Some n"
  by code_simp

lemma hex_val_digit: "n < 16 \<Longrightarrow> hex_val (hex_digits ! n) = Some n"
  using hex_val_digits by simp

lemma parse_escape_short: "map_of short_escapes c = Some d \<Longrightarrow> parse_escape (d # r) = Some (c, r)"
  by (auto simp: short_escapes_def parse_escape_def unescapes_def split: if_splits)

lemma parse_escape_control:
  assumes "of_char c < (32::nat)"
  shows "parse_escape (CHR ''u'' # CHR ''0'' # CHR ''0'' # hex_digits ! (of_char c div 16)
    # hex_digits ! (of_char c mod 16) # r) = Some (c, r)"
proof -
  have z: "hex_val CHR ''0'' = Some 0" by code_simp
  have "16 * (of_char c div 16) + of_char c mod 16 = (of_char c :: nat)" by simp
  with assms show ?thesis
    by (simp add: parse_escape_def z hex_val_digit)
qed

lemma parse_jstr_esc: "parse_jstr (esc_char c @ r) = map_option (\<lambda>(t, r'). (c # t, r')) (parse_jstr r)"
proof (cases "map_of short_escapes c")
  case None
  then have "c \<noteq> quote_char" "c \<noteq> backslash"
    by (auto simp: short_escapes_def split: if_splits)
  with None show ?thesis
    by (simp add: esc_char_def parse_escape_control del: hex_unit.simps)
next
  case (Some d)
  then show ?thesis by (simp add: esc_char_def parse_escape_short)
qed

lemma parse_jstr_show: "parse_jstr (concat (map esc_char s) @ quote_char # r) = Some (s, r)"
  by (induction s) (simp_all add: parse_jstr_esc)

section \<open>Facts: parsing inverts printing\<close>

lemma skip_ws_append: "\<forall>c \<in> set w. is_json_ws c \<Longrightarrow> skip_ws (w @ s) = skip_ws s"
  by (induction w) auto

lemma new_line_ws: "\<forall>c \<in> set (new_line gap ind). is_json_ws c"
  by (auto simp: new_line_def is_json_ws_def)

lemma skip_new_line [simp]: "skip_ws (new_line gap ind @ s) = skip_ws s"
  by (rule skip_ws_append [OF new_line_ws])

lemma parse_value_skip: "skip_ws s = skip_ws t \<Longrightarrow> parse_value s = parse_value t"
  by (subst (1 2) parse_value.simps) simp

lemma skip_ws_Cons: "\<not> is_json_ws c \<Longrightarrow> skip_ws (c # s) = c # s"
  by simp

lemma ends_number_new_line: "ends_number r \<Longrightarrow> ends_number (new_line gap ind @ r)"
  by (auto simp: ends_number_def new_line_def is_digit_def)

lemma not_ws_simps [simp]: "\<not> is_json_ws CHR '']''" "\<not> is_json_ws CHR '',''" "\<not> is_json_ws CHR ''}''"
  "\<not> is_json_ws CHR '':''" "\<not> is_json_ws quote_char" "\<not> is_json_ws CHR ''[''" "\<not> is_json_ws CHR ''{''"
  "\<not> is_json_ws CHR ''t''" "\<not> is_json_ws CHR ''f''" "\<not> is_json_ws CHR ''n''" "\<not> is_json_ws CHR ''-''"
  by (simp_all add: is_json_ws_def)

lemma is_digit_not_ws: "is_digit c \<Longrightarrow> \<not> is_json_ws c"
  by (auto simp: is_digit_def is_json_ws_def)

text \<open>The first character of a printed value: never white space, and never a closing bracket.\<close>

definition starts_value :: "char \<Rightarrow> bool" where
  "starts_value c \<longleftrightarrow> is_digit c \<or> c \<in> set ''-[{tfn'' \<or> c = quote_char"

lemma starts_value_simps: "starts_value c \<Longrightarrow> \<not> is_json_ws c \<and> c \<noteq> CHR '']'' \<and> c \<noteq> CHR ''}''"
  by (auto simp: starts_value_def is_digit_def is_json_ws_def)

lemma show_dec_start: "\<exists>c t. show_dec d = c # t \<and> (is_digit c \<or> c = CHR ''-'')"
proof (cases d)
  case (Dec m e)
  then show ?thesis
    using hd_show_nat_digit [of "nat \<bar>m\<bar> div 10 ^ e"] show_nat_not_Nil [of "nat \<bar>m\<bar> div 10 ^ e"]
    by (cases "show_nat (nat \<bar>m\<bar> div 10 ^ e)") auto
qed

lemma json_text_start: "\<exists>c t. json_text gap ind v = c # t \<and> starts_value c"
proof (cases v)
  case (JNum d)
  then show ?thesis using show_dec_start [of d] by (auto simp: starts_value_def)
qed (auto simp: starts_value_def show_jstr_def)

lemma parse_value_num:
  assumes "dec_ok d" and "ends_number r"
  shows "parse_value (show_dec d @ r) = Some (JNum d, r)"
proof -
  obtain c t where t: "show_dec d = c # t" "is_digit c \<or> c = CHR ''-''"
    using show_dec_start by blast
  then have c: "\<not> is_json_ws c" "c \<noteq> quote_char" "c \<noteq> CHR ''[''" "c \<noteq> CHR ''{''"
    "c \<noteq> CHR ''t''" "c \<noteq> CHR ''f''" "c \<noteq> CHR ''n''"
    by (auto simp: is_digit_not_ws is_digit_def is_json_ws_def)
  have "parse_json_number (c # t @ r) = Some (d, r)"
    using parse_show_dec [OF assms] t by simp
  then show ?thesis using c by (simp add: t parse_value.simps [of "c # t @ r"])
qed

definition reads_back :: "nat \<Rightarrow> nat \<Rightarrow> json \<Rightarrow> bool" where
  "reads_back gap ind v \<longleftrightarrow>
     (\<forall>r. ends_number r \<longrightarrow> parse_value (json_text gap ind v @ r) = Some (v, r))"

lemma reads_backD: "reads_back gap ind v \<Longrightarrow> ends_number r \<Longrightarrow> parse_value (json_text gap ind v @ r) = Some (v, r)"
  by (simp add: reads_back_def)

lemma ends_number_sep [simp]: "ends_number (CHR '','' # r)" "ends_number (CHR '']'' # r)" "ends_number (CHR ''}'' # r)"
  by (simp_all add: ends_number_def is_digit_def)

lemma parse_elems_text:
  assumes "xs \<noteq> []" and "\<forall>x \<in> set xs. reads_back gap ind x"
  shows "parse_elems (new_line gap ind @ js_join ('','' @ new_line gap ind) (map (json_text gap ind) xs)
      @ new_line gap ind0 @ CHR '']'' # r) = Some (xs, r)"
  using assms
proof (induction xs)
  case (Cons x xs)
  define rest where "rest = (if xs = [] then [] else '','' @ new_line gap ind @
      js_join ('','' @ new_line gap ind) (map (json_text gap ind) xs)) @ new_line gap ind0 @ CHR '']'' # r"
  have e: "ends_number rest"
    by (auto simp: rest_def intro: ends_number_new_line)
  have "parse_value (json_text gap ind x @ rest) = Some (x, rest)"
    using Cons.prems(2) e by (simp add: reads_backD)
  then have pv: "parse_value (new_line gap ind @ json_text gap ind x @ rest) = Some (x, rest)"
    by (subst parse_value_skip [where t = "json_text gap ind x @ rest"]) simp_all
  have tx: "new_line gap ind @ js_join ('','' @ new_line gap ind) (map (json_text gap ind) (x # xs))
      @ new_line gap ind0 @ CHR '']'' # r = new_line gap ind @ json_text gap ind x @ rest"
    by (simp add: rest_def js_join_Cons)
  show ?case
  proof (cases "xs = []")
    case True
    then show ?thesis
      unfolding tx by (subst parse_elems.simps) (simp add: pv, simp add: rest_def)
  next
    case False
    define rest' where "rest' = new_line gap ind @
        js_join ('','' @ new_line gap ind) (map (json_text gap ind) xs) @ new_line gap ind0 @ CHR '']'' # r"
    have r: "skip_ws rest = CHR '','' # rest'" "length rest' < length rest"
      using False by (simp_all add: rest_def rest'_def)
    have "parse_elems rest' = Some (xs, r)"
      unfolding rest'_def using Cons.IH False Cons.prems(2) by simp
    with r show ?thesis
      unfolding tx by (subst parse_elems.simps) (simp add: pv)
  qed
qed simp

definition member_text :: "nat \<Rightarrow> nat \<Rightarrow> string \<times> json \<Rightarrow> string" where
  "member_text gap ind p = show_jstr (fst p) @ (if gap = 0 then '':'' else '': '') @ json_text gap ind (snd p)"

lemma parse_member_start:
  assumes "reads_back gap ind (snd p)" and "ends_number rest"
  shows "skip_ws (new_line gap ind @ member_text gap ind p @ rest) =
      quote_char # concat (map esc_char (fst p)) @ quote_char #
        (if gap = 0 then '':'' else '': '') @ json_text gap ind (snd p) @ rest"
    and "parse_value (tl ((if gap = 0 then '':'' else '': '') @ json_text gap ind (snd p) @ rest))
      = Some (snd p, rest)"
proof -
  show "skip_ws (new_line gap ind @ member_text gap ind p @ rest) =
      quote_char # concat (map esc_char (fst p)) @ quote_char #
        (if gap = 0 then '':'' else '': '') @ json_text gap ind (snd p) @ rest"
    by (simp add: member_text_def show_jstr_def)
  have "parse_value (json_text gap ind (snd p) @ rest) = Some (snd p, rest)"
    using assms by (rule reads_backD)
  moreover have "parse_value (CHR '' '' # json_text gap ind (snd p) @ rest)
      = parse_value (json_text gap ind (snd p) @ rest)"
    by (rule parse_value_skip) (simp add: is_json_ws_def)
  ultimately show "parse_value (tl ((if gap = 0 then '':'' else '': '') @ json_text gap ind (snd p) @ rest))
      = Some (snd p, rest)"
    by (cases "gap = 0") simp_all
qed

lemma parse_members_step:
  assumes "reads_back gap ind (snd p)" and "ends_number rest"
  shows "parse_members (new_line gap ind @ member_text gap ind p @ rest) =
    (case skip_ws rest of
       [] \<Rightarrow> None
     | e # r4 \<Rightarrow>
         if e = CHR ''}'' then Some ([p], r4)
         else if e = CHR '','' then map_option (\<lambda>(kvs, r'). (p # kvs, r')) (parse_members r4)
         else None)"
proof -
  define w where "w = new_line gap ind @ member_text gap ind p @ rest"
  define u where "u = (if gap = 0 then '':'' else '': '') @ json_text gap ind (snd p) @ rest"
  have sk: "skip_ws w = quote_char # concat (map esc_char (fst p)) @ quote_char # u"
    and pv: "parse_value (tl u) = Some (snd p, rest)"
    unfolding w_def u_def by (rule parse_member_start [OF assms])+
  obtain u' where u: "u = CHR '':'' # u'" by (cases "gap = 0") (simp_all add: u_def)
  then have u': "length u' < length w" "parse_value u' = Some (snd p, rest)"
    using pv by (auto simp: u_def w_def member_text_def)
  have jstr: "parse_jstr (concat (map esc_char (fst p)) @ quote_char # u) = Some (fst p, u)"
    by (rule parse_jstr_show)
  show ?thesis
  proof (cases "skip_ws rest")
    case Nil
    then show ?thesis
      unfolding w_def [symmetric]
      by (subst parse_members.simps) (simp only: sk list.case jstr, simp add: u u' del: dropWhile_eq_Nil_conv)
  next
    case (Cons e r4)
    have "length r4 < length w"
      using Cons length_dropWhile_le [of is_json_ws rest] by (simp add: w_def)
    with Cons show ?thesis
      unfolding w_def [symmetric]
      by (subst parse_members.simps) (simp only: sk list.case jstr, simp add: u u')
  qed
qed

lemma parse_members_text:
  assumes "kvs \<noteq> []" and "\<forall>p \<in> set kvs. reads_back gap ind (snd p)"
  shows "parse_members (new_line gap ind @ js_join ('','' @ new_line gap ind) (map (member_text gap ind) kvs)
      @ new_line gap ind0 @ CHR ''}'' # r) = Some (kvs, r)"
  using assms
proof (induction kvs)
  case (Cons p kvs)
  define rest where "rest = (if kvs = [] then [] else '','' @ new_line gap ind @
      js_join ('','' @ new_line gap ind) (map (member_text gap ind) kvs)) @ new_line gap ind0 @ CHR ''}'' # r"
  have e: "ends_number rest"
    by (auto simp: rest_def intro: ends_number_new_line)
  have tx: "new_line gap ind @ js_join ('','' @ new_line gap ind) (map (member_text gap ind) (p # kvs))
      @ new_line gap ind0 @ CHR ''}'' # r = new_line gap ind @ member_text gap ind p @ rest"
    by (simp add: rest_def js_join_Cons)
  note step = parse_members_step [OF _ e, of gap ind p]
  show ?case
  proof (cases "kvs = []")
    case True
    then show ?thesis
      unfolding tx using step Cons.prems(2) by (simp add: rest_def)
  next
    case False
    then show ?thesis
      unfolding tx using step Cons.prems(2) Cons.IH by (simp add: rest_def)
  qed
qed simp

lemma json_text_obj: "kvs \<noteq> [] \<Longrightarrow> json_text gap ind (JObj kvs) =
    ''{'' @ new_line gap (ind + gap) @ js_join ('','' @ new_line gap (ind + gap))
      (map (member_text gap (ind + gap)) kvs) @ new_line gap ind @ ''}''"
  by (simp add: member_text_def [abs_def])

lemma skip_ws_ne:
  assumes "t = c # u" and "starts_value c"
  shows "skip_ws (new_line gap ind @ t @ r) \<noteq> [] \<and> hd (skip_ws (new_line gap ind @ t @ r)) = c"
  using assms by (simp add: starts_value_simps)

lemma json_text_reads_back: "json_ok v \<Longrightarrow> reads_back gap ind v"
proof (induction v arbitrary: ind)
  case (JNum d)
  then show ?case by (simp add: reads_back_def parse_value_num)
next
  case (JStr s)
  then show ?case
    by (simp add: reads_back_def show_jstr_def parse_value.simps [of "_ # _"] parse_jstr_show)
next
  case (JArr xs)
  show ?case
  proof (cases "xs = []")
    case False
    then obtain x ys where xs: "xs = x # ys" by (cases xs) auto
    obtain c u where c: "json_text gap (ind + gap) x = c # u" "starts_value c"
      using json_text_start by blast
    have "\<forall>x \<in> set xs. reads_back gap (ind + gap) x" using JArr by auto
    note elems = parse_elems_text [OF False this, of ind]
    show ?thesis
      unfolding reads_back_def
    proof (intro allI impI)
      fix r
      define w where "w = new_line gap (ind + gap) @ js_join ('','' @ new_line gap (ind + gap))
          (map (json_text gap (ind + gap)) xs) @ new_line gap ind @ CHR '']'' # r"
      have "hd (skip_ws w) = c"
        using starts_value_simps [OF c(2)] c(1) by (simp add: w_def xs js_join_Cons)
      then have "hd (skip_ws w) \<noteq> CHR '']''" using c(2) by (auto dest: starts_value_simps)
      moreover have "json_text gap ind (JArr xs) @ r = CHR ''['' # w"
        using False by (simp add: w_def)
      moreover have "parse_elems w = Some (xs, r)" unfolding w_def by (rule elems)
      ultimately show "parse_value (json_text gap ind (JArr xs) @ r) = Some (JArr xs, r)"
        by (simp add: parse_value.simps [of "_ # _"])
    qed
  qed (simp add: reads_back_def parse_value.simps [of "_ # _"])
next
  case (JObj kvs)
  show ?case
  proof (cases "kvs = []")
    case False
    then obtain p ps where kvs: "kvs = p # ps" by (cases kvs) auto
    have ok: "obj_of_list kvs = kvs" using JObj.prems by (simp add: obj_of_list_ok)
    have "\<forall>p \<in> set kvs. reads_back gap (ind + gap) (snd p)"
      using JObj by (metis json_ok.simps(3) prod.exhaust_sel snds.intros)
    note members = parse_members_text [OF False this, of ind]
    show ?thesis
      unfolding reads_back_def
    proof (intro allI impI)
      fix r
      define w where "w = new_line gap (ind + gap) @ js_join ('','' @ new_line gap (ind + gap))
          (map (member_text gap (ind + gap)) kvs) @ new_line gap ind @ CHR ''}'' # r"
      have "hd (skip_ws w) = quote_char"
        by (simp add: w_def kvs js_join_Cons member_text_def show_jstr_def)
      then have "hd (skip_ws w) \<noteq> CHR ''}''" by simp
      moreover have "json_text gap ind (JObj kvs) @ r = CHR ''{'' # w"
        unfolding json_text_obj [OF False] by (simp add: w_def)
      moreover have "parse_members w = Some (kvs, r)" unfolding w_def by (rule members)
      ultimately show "parse_value (json_text gap ind (JObj kvs) @ r) = Some (JObj kvs, r)"
        by (simp add: parse_value.simps [of "_ # _"] ok del: json_text.simps)
    qed
  qed (simp add: reads_back_def parse_value.simps [of "_ # _"])
qed (auto simp: reads_back_def parse_value.simps [of "_ # _"])

theorem json_parse_text: "json_ok v \<Longrightarrow> json_parse (json_text gap ind v) = Some v"
  using reads_backD [OF json_text_reads_back, of v "[]" gap ind]
  by (simp add: json_parse_def ends_number_def)

section \<open>Facts: what parsing returns\<close>

lemma parse_value_json_ok:
  "parse_value s = Some (v, r) \<Longrightarrow> length r < length s \<and> json_ok v"
  "parse_elems t = Some (vs, r) \<Longrightarrow> length r < length t \<and> (\<forall>x \<in> set vs. json_ok x)"
  "parse_members u = Some (kvs, r) \<Longrightarrow> length r < length u \<and> (\<forall>p \<in> set kvs. json_ok (snd p))"
proof (induction s and t and u arbitrary: v r and vs r and kvs r
    rule: parse_value_parse_elems_parse_members.induct)
  case (1 s)
  obtain c q where c: "skip_ws s = c # q"
    using "1.prems" by (subst (asm) parse_value.simps) (auto split: list.splits)
  then have l: "length q < length s" using length_dropWhile_le [of is_json_ws s] by simp
  have tl: "length (tl (skip_ws q)) \<le> length q"
    using length_dropWhile_le [of is_json_ws q] by simp
  define wt where "wt \<longleftrightarrow> prefix ''true'' (c # q)"
  define wf where "wf \<longleftrightarrow> prefix ''false'' (c # q)"
  define wn where "wn \<longleftrightarrow> prefix ''null'' (c # q)"
  note eq = "1.prems" [unfolded parse_value.simps [of s] c list.case, folded wt_def wf_def wn_def]
  consider (str) "c = quote_char" | (arr) "c = CHR ''[''" | (obj) "c = CHR ''{''"
    | (other) "c \<noteq> quote_char" "c \<noteq> CHR ''[''" "c \<noteq> CHR ''{''"
    by blast
  then show ?case
  proof cases
    case str
    with eq obtain t where "parse_jstr q = Some (t, r)" "v = JStr t" by auto
    with parse_jstr_length [of q t r] l show ?thesis by simp
  next
    case arr
    show ?thesis
    proof (cases "skip_ws q \<noteq> [] \<and> hd (skip_ws q) = CHR '']''")
      case True
      with eq arr tl l show ?thesis by auto
    next
      case False
      with eq arr obtain vs where vs: "parse_elems q = Some (vs, r)" "v = JArr vs"
        by (simp only: if_False if_True) auto
      from "1.IH"(1) [OF c _ arr False vs(1)] arr vs l show ?thesis by simp
    qed
  next
    case obj
    show ?thesis
    proof (cases "skip_ws q \<noteq> [] \<and> hd (skip_ws q) = CHR ''}''")
      case True
      with eq obj tl l show ?thesis by auto
    next
      case False
      with eq obj obtain kvs where kvs: "parse_members q = Some (kvs, r)" "v = JObj (obj_of_list kvs)"
        by (simp only: if_False if_True) auto
      from "1.IH"(2) [OF c _ _ obj False kvs(1)] obj kvs l show ?thesis
        by (auto simp: obj_ok_of_list dest!: obj_of_list_values)
    qed
  next
    case other
    note eq = eq [unfolded if_not_P [OF other(1)] if_not_P [OF other(2)] if_not_P [OF other(3)]]
    show ?thesis
    proof (cases "wt \<or> wf \<or> wn")
      case True
      with eq l show ?thesis by (auto split: if_splits)
    next
      case False
      with eq obtain d where "parse_json_number (c # q) = Some (d, r)" "v = JNum d"
        by (auto split: if_splits)
      with parse_json_number_props [of "c # q" d r] l show ?thesis by simp
    qed
  qed
next
  case (2 s)
  from "2.prems" obtain w q where w: "parse_value s = Some (w, q)"
    by (subst (asm) parse_elems.simps) (auto split: option.splits)
  with "2.prems" obtain d q1 where q: "skip_ws q = d # q1"
    by (subst (asm) parse_elems.simps) (auto split: list.splits)
  have l: "length q1 < length s" "json_ok w"
    using "2.IH"(1) [OF w] q length_dropWhile_le [of is_json_ws q] by auto
  show ?case
  proof (cases "d = CHR '']''")
    case True
    with "2.prems" w q l show ?thesis by (subst (asm) parse_elems.simps) auto
  next
    case False
    with "2.prems" w q obtain ws where ws: "d = CHR '',''" "parse_elems q1 = Some (ws, r)" "vs = w # ws"
      by (subst (asm) parse_elems.simps) (auto split: if_splits)
    from "2.IH"(2) [OF w refl q False _ ws(2)] ws l show ?thesis by auto
  qed
next
  case (3 s)
  note eq = "3.prems" [unfolded parse_members.simps [of s]]
  from eq obtain c q where c: "skip_ws s = c # q" by (cases "skip_ws s") simp_all
  note eq = eq [unfolded c list.case]
  from eq have cq: "c = quote_char" by (cases "c = quote_char") simp_all
  note eq = eq [unfolded cq, simplified]
  from eq obtain k q1 where k: "parse_jstr q = Some (k, q1)" by (cases "parse_jstr q") auto
  note eq = eq [unfolded k option.case prod.case]
  from eq obtain d q2 where d: "skip_ws q1 = d # q2" by (cases "skip_ws q1") simp_all
  note eq = eq [unfolded d list.case]
  from eq have dq: "d = CHR '':''" "length q2 < length s" by (simp_all split: if_splits)
  note eq = eq [unfolded dq(1), simplified dq(2), simplified]
  from eq obtain v q3 where v: "parse_value q2 = Some (v, q3)" by (cases "parse_value q2") auto
  note eq = eq [unfolded v option.case prod.case]
  from eq obtain e q4 where e: "skip_ws q3 = e # q4" by (cases "skip_ws q3") simp_all
  note eq = eq [unfolded e list.case]
  have nd: "\<not> (d \<noteq> CHR '':'' \<or> \<not> length q2 < length s)" "\<not> c \<noteq> quote_char" using cq dq by simp_all
  have ih: "length q3 < length q2" "json_ok v"
    using "3.IH"(1) [OF c nd(2) k refl d nd(1) v] by auto
  then have l: "length q4 < length s"
    using e dq(2) length_dropWhile_le [of is_json_ws q3] by simp
  show ?case
  proof (cases "e = CHR ''}''")
    case True
    with eq l ih show ?thesis by auto
  next
    case False
    with eq have eq': "e = CHR '',''" "map_option (\<lambda>(kvs, r'). ((k, v) # kvs, r')) (parse_members q4) = Some (kvs, r)"
      by (simp_all split: if_splits)
    then obtain ms where ms: "parse_members q4 = Some (ms, r)" "kvs = (k, v) # ms" by auto
    from "3.IH"(2) [OF c nd(2) k refl d nd(1) v refl e False _ ms(1)] eq'(1) ms l ih show ?thesis by simp
  qed
qed

lemma json_parse_ok: "json_parse s = Some v \<Longrightarrow> json_ok v"
  by (auto simp: json_parse_def dest: parse_value_json_ok split: option.splits if_splits)

lemma json_ok_set: "json_ok (JObj m) \<Longrightarrow> json_ok v \<Longrightarrow> json_ok (JObj (obj_set k v m))"
  using obj_ok_set obj_set_values by fastforce

lemma json_ok_delete: "json_ok (JObj m) \<Longrightarrow> json_ok (JObj (obj_delete k m))"
  using obj_ok_delete obj_delete_values by fastforce

lemma json_ok_get: "json_ok (JObj m) \<Longrightarrow> obj_get k m = Some v \<Longrightarrow> json_ok v"
  using map_of_SomeD by (fastforce simp: obj_get_def)

lemma json_ok_empty: "json_ok (JObj [])"
  by simp

lemmas json_oks = json_ok_set json_ok_delete json_ok_empty

end
