(* ===== verification/JsValue.thy ===== *)
theory JsValue
  imports Json
begin

text \<open>
  How the code inspects a JSON value of unknown shape: truthiness, \<open>String(v)\<close>, \<open>Number(v)\<close>,
  property access, \<open>typeof\<close> tests. A value that may be \<open>undefined\<close> is a \<open>json option\<close>. Also the
  interface through which the editors use a JSON codec, and its two instances.
\<close>

type_synonym jsval = "json option"

fun json_truthy :: "json \<Rightarrow> bool" where
  "json_truthy JNull = False"
| "json_truthy (JBool b) = b"
| "json_truthy (JNum (Dec m e)) = (m \<noteq> 0)"
| "json_truthy (JStr s) = (s \<noteq> [])"
| "json_truthy (JArr xs) = True"
| "json_truthy (JObj kvs) = True"

definition js_truthy :: "jsval \<Rightarrow> bool" where
  "js_truthy v = (case v of None \<Rightarrow> False | Some j \<Rightarrow> json_truthy j)"

text \<open>\<open>v || d\<close>.\<close>

definition js_or :: "jsval \<Rightarrow> jsval \<Rightarrow> jsval" where
  "js_or v d = (if js_truthy v then v else d)"

text \<open>\<open>String(v)\<close>. A JSON object with a key \<open>toString\<close> hides the inherited method with a value that is
  no function, so \<open>String\<close> and \<open>Number\<close> raise a TypeError on it, and on an array that holds one:
  \<open>string_raises\<close>. \<open>json_to_string\<close> and \<open>json_to_number\<close> are the result on the other values. The parameter
  override editor, which loads values of any shape, has the exception as a branch where it loads them
  (normalizeOperation, parseReturnErrorDraft, parsePruneObjectsDraft); the other places that convert a parsed value
  (header names of a pass_headers rule, status code targets, names of models, ratios of groups and models,
  search values of a request condition) are modelled for values that do not raise.\<close>

fun string_raises :: "json \<Rightarrow> bool" where
  "string_raises (JArr xs) \<longleftrightarrow> list_ex string_raises xs"
| "string_raises (JObj kvs) \<longleftrightarrow> obj_get ''toString'' kvs \<noteq> None"
| "string_raises _ \<longleftrightarrow> False"

definition js_string_raises :: "jsval \<Rightarrow> bool" where
  "js_string_raises v = (case v of None \<Rightarrow> False | Some j \<Rightarrow> string_raises j)"

fun json_to_string :: "json \<Rightarrow> string" where
  "json_to_string JNull = ''null''"
| "json_to_string (JBool b) = (if b then ''true'' else ''false'')"
| "json_to_string (JNum d) = show_dec d"
| "json_to_string (JStr s) = s"
| "json_to_string (JArr xs) =
     js_join '','' (map (\<lambda>x. if x = JNull then [] else json_to_string x) xs)"
| "json_to_string (JObj kvs) = ''[object Object]''"

definition js_to_string :: "jsval \<Rightarrow> string" where
  "js_to_string v = (case v of None \<Rightarrow> ''undefined'' | Some j \<Rightarrow> json_to_string j)"

fun json_to_number :: "json \<Rightarrow> jsnum" where
  "json_to_number JNull = Num (int_dec 0)"
| "json_to_number (JBool b) = Num (int_dec (if b then 1 else 0))"
| "json_to_number (JNum d) = Num d"
| "json_to_number (JStr s) = js_number s"
| "json_to_number (JArr xs) = js_number (json_to_string (JArr xs))"
| "json_to_number (JObj kvs) = NaN"

definition js_to_number :: "jsval \<Rightarrow> jsnum" where
  "js_to_number v = (case v of None \<Rightarrow> NaN | Some j \<Rightarrow> json_to_number j)"

lemma js_string_raises_simps [simp]:
  "\<not> js_string_raises None" "\<not> js_string_raises (Some JNull)" "\<not> js_string_raises (Some (JBool b))"
  "\<not> js_string_raises (Some (JNum d))" "\<not> js_string_raises (Some (JStr s))"
  "js_string_raises (js_or v (Some (JStr s))) \<longleftrightarrow> js_string_raises v" "js_string_raises (js_or (Some (JStr s)) None) \<longleftrightarrow> False"
proof -
  have "string_raises j \<Longrightarrow> json_truthy j" for j by (cases j) simp_all
  then show "js_string_raises (js_or v (Some (JStr s))) \<longleftrightarrow> js_string_raises v"
    by (cases v) (auto simp: js_string_raises_def js_or_def js_truthy_def)
qed (simp_all add: js_string_raises_def js_or_def)

text \<open>\<open>v.key\<close> on a value that is neither null nor undefined. The keys the code reads are not
  properties of the prototypes of strings, numbers, booleans and arrays.\<close>

definition js_prop :: "json \<Rightarrow> string \<Rightarrow> jsval" where
  "js_prop v k = (case v of JObj kvs \<Rightarrow> obj_get k kvs | _ \<Rightarrow> None)"

definition is_plain_object :: "json \<Rightarrow> bool" where
  "is_plain_object v = (case v of JObj _ \<Rightarrow> True | _ \<Rightarrow> False)"

definition is_string :: "jsval \<Rightarrow> bool" where
  "is_string v = (case v of Some (JStr _) \<Rightarrow> True | _ \<Rightarrow> False)"

text \<open>\<open>typeof v === 'string' ? v : ''\<close>, \<open>v === true\<close>, \<open>v !== false\<close>.\<close>

definition string_or_empty :: "jsval \<Rightarrow> string" where
  "string_or_empty v = (case v of Some (JStr s) \<Rightarrow> s | _ \<Rightarrow> [])"

abbreviation is_true :: "jsval \<Rightarrow> bool" where
  "is_true v \<equiv> v = Some (JBool True)"

abbreviation is_not_false :: "jsval \<Rightarrow> bool" where
  "is_not_false v \<equiv> v \<noteq> Some (JBool False)"

definition put_if :: "bool \<Rightarrow> string \<Rightarrow> json \<Rightarrow> (string \<times> json) list \<Rightarrow> (string \<times> json) list" where
  "put_if b k v kvs = (if b then obj_set k v kvs else kvs)"

lemma obj_get_put_if: "obj_get k (put_if b k' v kvs) = (if b \<and> k = k' then Some v else obj_get k kvs)"
  by (simp add: put_if_def)

lemma obj_ok_put_if: "obj_ok kvs \<Longrightarrow> obj_ok (put_if b k v kvs)"
  by (simp add: put_if_def obj_ok_set)

section \<open>The codec interface\<close>

text \<open>What a client of a JSON codec relies on: a well-formed value is read back from its text,
  and reading returns well-formed values only. From it: printing is injective on well-formed
  values, and a text that was read prints to a text that is read to the same value.\<close>

locale json_codec =
  fixes parse :: "string \<Rightarrow> json option" and print :: "json \<Rightarrow> string"
  assumes parse_print: "json_ok v \<Longrightarrow> parse (print v) = Some v"
    and parse_wf: "parse s = Some v \<Longrightarrow> json_ok v"
    and print_trim: "json_ok v \<Longrightarrow> js_trim (print v) = print v"
    and parse_empty: "parse [] = None"
begin

lemma print_inj: "json_ok v \<Longrightarrow> json_ok w \<Longrightarrow> print v = print w \<Longrightarrow> v = w"
  by (metis option.inject parse_print)

lemma reprint: "parse s = Some v \<Longrightarrow> parse (print v) = Some v"
  by (rule parse_print) (rule parse_wf)

lemma print_not_empty: "json_ok v \<Longrightarrow> print v \<noteq> []"
  by (metis option.distinct(1) parse_empty parse_print)

lemma parse_trim_print: "json_ok v \<Longrightarrow> parse (js_trim (print v)) = Some v"
  by (simp add: parse_print print_trim)

end

definition ends_text :: "char \<Rightarrow> bool" where
  "ends_text c \<longleftrightarrow> is_digit c \<or> c \<in> set ''el]}'' \<or> c = quote_char"

lemma starts_value_not_ws: "starts_value c \<Longrightarrow> \<not> is_ws c"
  by (auto simp: starts_value_def is_digit_def is_ws_def)

lemma ends_text_not_ws: "ends_text c \<Longrightarrow> \<not> is_ws c"
  by (auto simp: ends_text_def is_digit_def is_ws_def)

lemma show_dec_last: "is_digit (last (show_dec d))"
proof (cases d)
  case (Dec m e)
  define n where "n = nat \<bar>m\<bar>"
  have a: "is_digit (last (show_nat (n div 10 ^ e)))"
    by (rule show_nat_digits [of _ "n div 10 ^ e"]) simp
  have b: "frac_digits e n \<noteq> [] \<Longrightarrow> is_digit (last (frac_digits e n))"
    by (rule frac_digits_digits [of _ e n]) simp
  show ?thesis
  proof (cases "e = 0")
    case False
    then have ne: "frac_digits e n \<noteq> []" by (metis length_0_conv length_frac_digits)
    with b False show ?thesis by (simp add: Dec n_def [symmetric])
  qed (use a in \<open>simp add: Dec n_def\<close>)
qed

lemma json_text_last: "ends_text (last (json_text gap ind v))"
proof (cases v)
  case (JNum d)
  then show ?thesis using show_dec_last [of d] by (simp add: ends_text_def)
qed (auto simp: ends_text_def show_jstr_def)

lemma json_text_trim: "js_trim (json_text gap ind v) = json_text gap ind v"
proof (rule trim_by_id)
  obtain c t where "json_text gap ind v = c # t" "starts_value c"
    using json_text_start by blast
  then show "json_text gap ind v = [] \<or> \<not> is_ws (hd (json_text gap ind v)) \<and> \<not> is_ws (last (json_text gap ind v))"
    using json_text_last [of gap ind v] by (simp add: starts_value_not_ws ends_text_not_ws)
qed

lemma json_parse_Nil [simp]: "json_parse [] = None"
  by (simp add: json_parse_def parse_value.simps [of "[]"])

text \<open>White space alone is no JSON.\<close>

lemma json_parse_blank:
  assumes "js_trim s = []"
  shows "json_parse s = None"
proof -
  have "dropWhile is_ws (rev (dropWhile is_ws s)) = []" using assms by (simp add: trim_by_def)
  moreover have "hd (dropWhile is_ws s) \<in> set (rev (dropWhile is_ws s)) \<and> \<not> is_ws (hd (dropWhile is_ws s))"
    if "dropWhile is_ws s \<noteq> []" using that by (simp add: hd_dropWhile)
  ultimately have "dropWhile is_ws s = []" by (auto simp: dropWhile_eq_Nil_conv)
  then have all: "\<forall>c \<in> set s. is_ws c" by (simp add: dropWhile_eq_Nil_conv)
  have "parse_value s = None"
  proof (cases "skip_ws s")
    case (Cons c r)
    then have "c \<in> set s" by (metis list.set_intros(1) set_dropWhileD)
    then have c: "is_ws c" using all by blast
    then have n: "c \<noteq> quote_char" "c \<noteq> CHR ''[''" "c \<noteq> CHR ''{''" "c \<noteq> CHR ''t''" "c \<noteq> CHR ''f''" "c \<noteq> CHR ''n''"
      "c \<noteq> CHR ''-''" "\<not> is_digit c"
      by (auto simp: is_ws_def is_digit_def)
    then have "parse_json_number (c # r) = None" by (simp add: parse_json_number_def Let_def)
    then show ?thesis using Cons n by (subst parse_value.simps) simp
  next
    case Nil
    then show ?thesis by (subst parse_value.simps) (simp only: Nil list.case)
  qed
  then show ?thesis by (simp add: json_parse_def)
qed

interpretation compact: json_codec json_parse json_stringify
  by unfold_locales (simp_all add: json_parse_text json_parse_ok json_text_trim)

interpretation pretty: json_codec json_parse json_pretty
  by unfold_locales (simp_all add: json_parse_text json_parse_ok json_text_trim)

section \<open>The object interface\<close>

text \<open>Laws of property access, for clients that edit an object key by key.\<close>

locale js_object =
  fixes get :: "string \<Rightarrow> 'o \<Rightarrow> 'v option"
    and put :: "string \<Rightarrow> 'v \<Rightarrow> 'o \<Rightarrow> 'o"
    and del :: "string \<Rightarrow> 'o \<Rightarrow> 'o"
    and ok :: "'o \<Rightarrow> bool"
  assumes get_put: "get k' (put k v x) = (if k' = k then Some v else get k' x)"
    and get_del: "get k' (del k x) = (if k' = k then None else get k' x)"
    and ok_put: "ok x \<Longrightarrow> ok (put k v x)"
    and ok_del: "ok x \<Longrightarrow> ok (del k x)"
begin

lemma put_put: "get k' (put k v (put k w x)) = get k' (put k v x)"
  by (simp add: get_put)

lemma put_commute: "k \<noteq> l \<Longrightarrow> get k' (put k v (put l w x)) = get k' (put l w (put k v x))"
  by (simp add: get_put)

lemma del_put: "get k' (del k (put k v x)) = get k' (del k x)"
  by (simp add: get_put get_del)

end

interpretation obj: js_object obj_get obj_set obj_delete obj_ok
  by unfold_locales (simp_all add: obj_ok_set obj_ok_delete)

end
