(* ===== verification/ParamOverride.thy ===== *)
theory ParamOverride
  imports JsValue
begin

text \<open>
  The data model of the parameter override editor and its translation from and to JSON
  (features/channels/components/dialogs/param-override-editor-dialog.tsx, module level): the
  operation modes and what each needs, normalisation of a loaded value, validation, and the
  payload that is saved. A local identifier is made from the clock and a counter that the module
  keeps; the counter is threaded as \<open>n\<close>, and \<open>clk n\<close> is what the clock shows at the call that
  reads \<open>n\<close>. A property read on null raises TypeError; such a function returns an option, with
  None for the exception.
\<close>

section \<open>Types and constants\<close>

record po_condition =
  cond_id :: string
  cond_path :: string
  cond_mode :: string
  cond_value_text :: string
  cond_invert :: bool
  cond_pass_missing_key :: bool

record po_operation =
  op_id :: string
  op_description :: string
  op_path :: string
  op_mode :: string
  op_from :: string
  op_to :: string
  op_value_text :: string
  op_keep_origin :: bool
  op_logic :: string
  op_conditions :: "po_condition list"

definition OPERATION_MODE_OPTIONS :: "(string \<times> string) list" where
  "OPERATION_MODE_OPTIONS = [
     (''set'', ''Set Field''),
     (''delete'', ''Delete Field''),
     (''append'', ''Append to End''),
     (''prepend'', ''Prepend to Start''),
     (''copy'', ''Copy Field''),
     (''move'', ''Move Field''),
     (''replace'', ''String Replace''),
     (''regex_replace'', ''Regex Replace''),
     (''trim_prefix'', ''Trim Prefix''),
     (''trim_suffix'', ''Trim Suffix''),
     (''ensure_prefix'', ''Ensure Prefix''),
     (''ensure_suffix'', ''Ensure Suffix''),
     (''trim_space'', ''Trim Space''),
     (''to_lower'', ''To Lowercase''),
     (''to_upper'', ''To Uppercase''),
     (''return_error'', ''Return Custom Error''),
     (''prune_objects'', ''Prune Object Items''),
     (''pass_headers'', ''Pass Through Headers''),
     (''sync_fields'', ''Sync Fields''),
     (''set_header'', ''Set Request Header''),
     (''delete_header'', ''Delete Request Header''),
     (''copy_header'', ''Copy Request Header''),
     (''move_header'', ''Move Request Header'')]"

definition OPERATION_MODE_VALUES :: "string list" where
  "OPERATION_MODE_VALUES = map fst OPERATION_MODE_OPTIONS"

definition OPERATION_MODE_LABEL_MAP :: "string \<rightharpoonup> string" where
  "OPERATION_MODE_LABEL_MAP = map_of OPERATION_MODE_OPTIONS"

definition CONDITION_MODE_OPTIONS :: "(string \<times> string) list" where
  "CONDITION_MODE_OPTIONS = [
     (''full'', ''Exact Match''),
     (''prefix'', ''Prefix''),
     (''suffix'', ''Suffix''),
     (''contains'', ''Contains''),
     (''gt'', ''Greater Than''),
     (''gte'', ''Greater Than or Equal''),
     (''lt'', ''Less Than''),
     (''lte'', ''Less Than or Equal'')]"

definition CONDITION_MODE_VALUES :: "string list" where
  "CONDITION_MODE_VALUES = map fst CONDITION_MODE_OPTIONS"

text \<open>An absent flag is false; \<open>to\<close> is undefined, false or true, the difference showing only in
  what is rendered.\<close>

record mode_meta =
  meta_path :: bool
  meta_pathOptional :: bool
  meta_value :: bool
  meta_from :: bool
  meta_to :: "bool option"
  meta_keepOrigin :: bool
  meta_pathAlias :: bool

definition no_meta :: mode_meta where
  "no_meta = \<lparr>meta_path = False, meta_pathOptional = False, meta_value = False, meta_from = False,
     meta_to = None, meta_keepOrigin = False, meta_pathAlias = False\<rparr>"

definition MODE_META :: "(string \<times> mode_meta) list" where
  "MODE_META = [
     (''delete'', no_meta\<lparr>meta_path := True\<rparr>),
     (''set'', no_meta\<lparr>meta_path := True, meta_value := True, meta_keepOrigin := True\<rparr>),
     (''append'', no_meta\<lparr>meta_path := True, meta_value := True, meta_keepOrigin := True\<rparr>),
     (''prepend'', no_meta\<lparr>meta_path := True, meta_value := True, meta_keepOrigin := True\<rparr>),
     (''copy'', no_meta\<lparr>meta_from := True, meta_to := Some True\<rparr>),
     (''move'', no_meta\<lparr>meta_from := True, meta_to := Some True\<rparr>),
     (''replace'', no_meta\<lparr>meta_path := True, meta_from := True, meta_to := Some False\<rparr>),
     (''regex_replace'', no_meta\<lparr>meta_path := True, meta_from := True, meta_to := Some False\<rparr>),
     (''trim_prefix'', no_meta\<lparr>meta_path := True, meta_value := True\<rparr>),
     (''trim_suffix'', no_meta\<lparr>meta_path := True, meta_value := True\<rparr>),
     (''ensure_prefix'', no_meta\<lparr>meta_path := True, meta_value := True\<rparr>),
     (''ensure_suffix'', no_meta\<lparr>meta_path := True, meta_value := True\<rparr>),
     (''trim_space'', no_meta\<lparr>meta_path := True\<rparr>),
     (''to_lower'', no_meta\<lparr>meta_path := True\<rparr>),
     (''to_upper'', no_meta\<lparr>meta_path := True\<rparr>),
     (''return_error'', no_meta\<lparr>meta_value := True\<rparr>),
     (''prune_objects'', no_meta\<lparr>meta_pathOptional := True, meta_value := True\<rparr>),
     (''pass_headers'', no_meta\<lparr>meta_value := True, meta_keepOrigin := True\<rparr>),
     (''sync_fields'', no_meta\<lparr>meta_from := True, meta_to := Some True\<rparr>),
     (''set_header'', no_meta\<lparr>meta_path := True, meta_value := True, meta_keepOrigin := True\<rparr>),
     (''delete_header'', no_meta\<lparr>meta_path := True\<rparr>),
     (''copy_header'', no_meta\<lparr>meta_from := True, meta_to := Some True, meta_keepOrigin := True, meta_pathAlias := True\<rparr>),
     (''move_header'', no_meta\<lparr>meta_from := True, meta_to := Some True, meta_keepOrigin := True, meta_pathAlias := True\<rparr>)]"

text \<open>\<open>MODE_META[mode] || MODE_META.set\<close>.\<close>

definition mode_meta_of :: "string \<Rightarrow> mode_meta" where
  "mode_meta_of mode = (case map_of MODE_META mode of
     Some m \<Rightarrow> m
   | None \<Rightarrow> no_meta\<lparr>meta_path := True, meta_value := True, meta_keepOrigin := True\<rparr>)"

definition VALUE_REQUIRED_MODES :: "string list" where
  "VALUE_REQUIRED_MODES = [''trim_prefix'', ''trim_suffix'', ''ensure_prefix'', ''ensure_suffix'',
     ''set_header'', ''return_error'', ''prune_objects'', ''pass_headers'']"

definition FROM_REQUIRED_MODES :: "string list" where
  "FROM_REQUIRED_MODES = [''copy'', ''move'', ''replace'', ''regex_replace'', ''copy_header'',
     ''move_header'', ''sync_fields'']"

definition TO_REQUIRED_MODES :: "string list" where
  "TO_REQUIRED_MODES = [''copy'', ''move'', ''copy_header'', ''move_header'', ''sync_fields'']"

definition MODE_DESCRIPTIONS :: "(string \<times> string) list" where
  "MODE_DESCRIPTIONS = [
     (''set'', ''Write value to the target field''),
     (''delete'', ''Remove the target field''),
     (''append'', ''Append value to array / string / object end''),
     (''prepend'', ''Prepend value to array / string / object start''),
     (''copy'', ''Copy source field to target field''),
     (''move'', ''Move source field to target field''),
     (''replace'', ''Do string replacement in the target field''),
     (''regex_replace'', ''Do regex replacement in the target field''),
     (''trim_prefix'', ''Remove string prefix''),
     (''trim_suffix'', ''Remove string suffix''),
     (''ensure_prefix'', ''Ensure the string has a specified prefix''),
     (''ensure_suffix'', ''Ensure the string has a specified suffix''),
     (''trim_space'', ''Trim leading/trailing whitespace''),
     (''to_lower'', ''Convert string to lowercase''),
     (''to_upper'', ''Convert string to uppercase''),
     (''return_error'', ''Return a custom error immediately''),
     (''prune_objects'', ''Prune object items by conditions''),
     (''pass_headers'', ''Pass specified request headers to upstream''),
     (''sync_fields'', ''Auto-fill when one field exists and another is missing''),
     (''set_header'', ''Set runtime request header: override entire value, or manipulate comma-separated tokens''),
     (''delete_header'', ''Delete a runtime request header''),
     (''copy_header'', ''Copy a request header''),
     (''move_header'', ''Move a request header'')]"

section \<open>Local identifiers and loose values\<close>

type_synonym clock = "nat \<Rightarrow> nat"

definition nextLocalId :: "clock \<Rightarrow> nat \<Rightarrow> string" where
  "nextLocalId clk n = ''po_'' @ show_nat (clk n) @ ''_'' @ show_nat n"

definition toValueText :: "jsval \<Rightarrow> string" where
  "toValueText value = (case value of
     None \<Rightarrow> []
   | Some (JStr s) \<Rightarrow> s
   | Some v \<Rightarrow> json_stringify v)"

definition parseLooseValue :: "string \<Rightarrow> json" where
  "parseLooseValue valueText =
     (let raw = js_trim valueText
      in if raw = [] then JStr []
         else (case json_parse raw of Some v \<Rightarrow> v | None \<Rightarrow> JStr raw))"

definition verifyJSON :: "string \<Rightarrow> bool" where
  "verifyJSON s \<longleftrightarrow> json_parse s \<noteq> None"

section \<open>Normalisation\<close>

text \<open>\<open>xs.map(f)\<close> for an \<open>f\<close> that draws identifiers and may raise.\<close>

fun map_ids :: "(nat \<Rightarrow> 'a \<Rightarrow> ('b \<times> nat) option) \<Rightarrow> nat \<Rightarrow> 'a list \<Rightarrow> ('b list \<times> nat) option" where
  "map_ids f n [] = Some ([], n)"
| "map_ids f n (x # xs) =
     (case f n x of
        None \<Rightarrow> None
      | Some (y, n') \<Rightarrow> map_option (\<lambda>(ys, n''). (y # ys, n'')) (map_ids f n' xs))"

text \<open>\<open>MODES.has(v) ? v : d\<close>.\<close>

definition mode_or :: "string list \<Rightarrow> string \<Rightarrow> jsval \<Rightarrow> string" where
  "mode_or modes d v = (case v of Some (JStr m) \<Rightarrow> if m \<in> set modes then m else d | _ \<Rightarrow> d)"

text \<open>The object literal reads a property, so a null argument raises.\<close>

definition normalizeCondition :: "clock \<Rightarrow> nat \<Rightarrow> json \<Rightarrow> (po_condition \<times> nat) option" where
  "normalizeCondition clk n condition =
     (if condition = JNull then None
      else Some
        (\<lparr>cond_id = nextLocalId clk n,
          cond_path = string_or_empty (js_prop condition ''path''),
          cond_mode = mode_or CONDITION_MODE_VALUES ''full'' (js_prop condition ''mode''),
          cond_value_text = toValueText (js_prop condition ''value''),
          cond_invert = is_true (js_prop condition ''invert''),
          cond_pass_missing_key = is_true (js_prop condition ''pass_missing_key'')\<rparr>, Suc n))"

definition createDefaultCondition :: "clock \<Rightarrow> nat \<Rightarrow> po_condition \<times> nat" where
  "createDefaultCondition clk n = the (normalizeCondition clk n (JObj []))"

text \<open>The upper case of \<open>String(operation.logic || 'OR')\<close> raises as well when \<open>String\<close> does.\<close>

definition normalizeOperation :: "clock \<Rightarrow> nat \<Rightarrow> json \<Rightarrow> (po_operation \<times> nat) option" where
  "normalizeOperation clk n operation =
     (if operation = JNull \<or> js_string_raises (js_or (js_prop operation ''logic'') (Some (JStr ''OR''))) then None
      else
        (let logic = js_upper (js_to_string (js_or (js_prop operation ''logic'') (Some (JStr ''OR''))));
             conditions = (case js_prop operation ''conditions'' of
                Some (JArr cs) \<Rightarrow> map_ids (normalizeCondition clk) (Suc n) cs
              | _ \<Rightarrow> Some ([], Suc n))
         in map_option (\<lambda>(cs, n').
              (\<lparr>op_id = nextLocalId clk n,
                op_description = string_or_empty (js_prop operation ''description''),
                op_path = string_or_empty (js_prop operation ''path''),
                op_mode = mode_or OPERATION_MODE_VALUES ''set'' (js_prop operation ''mode''),
                op_from = string_or_empty (js_prop operation ''from''),
                op_to = string_or_empty (js_prop operation ''to''),
                op_value_text = toValueText (js_prop operation ''value''),
                op_keep_origin = is_true (js_prop operation ''keep_origin''),
                op_logic = (if logic = ''AND'' then ''AND'' else ''OR''),
                op_conditions = cs\<rparr>, n')) conditions))"

definition createDefaultOperation :: "clock \<Rightarrow> nat \<Rightarrow> po_operation \<times> nat" where
  "createDefaultOperation clk n = the (normalizeOperation clk n (JObj [(''mode'', JStr ''set'')]))"

section \<open>Lists of operations\<close>

definition remove_nth :: "nat \<Rightarrow> 'a list \<Rightarrow> 'a list" where
  "remove_nth i xs = take i xs @ drop (Suc i) xs"

definition insert_nth :: "nat \<Rightarrow> 'a \<Rightarrow> 'a list \<Rightarrow> 'a list" where
  "insert_nth i x xs = take i xs @ x # drop i xs"

datatype drop_position = Before | After

definition reorderOperations ::
  "po_operation list \<Rightarrow> string \<Rightarrow> string \<Rightarrow> drop_position \<Rightarrow> po_operation list" where
  "reorderOperations ops sourceId targetId position =
     (if sourceId = [] \<or> targetId = [] \<or> sourceId = targetId then ops
      else (case index_where (\<lambda>x. op_id x = sourceId) ops of
          None \<Rightarrow> ops
        | Some srcIdx \<Rightarrow>
            let moved = ops ! srcIdx; next = remove_nth srcIdx ops
            in (case index_where (\<lambda>x. op_id x = targetId) next of
                 None \<Rightarrow> ops
               | Some i \<Rightarrow> insert_nth (if position = After then Suc i else i) moved next)))"

definition isOperationBlank :: "po_operation \<Rightarrow> bool" where
  "isOperationBlank operation \<longleftrightarrow>
     (let hasCondition = (\<exists>c \<in> set (op_conditions operation).
            js_trim (cond_path c) \<noteq> [] \<or> js_trim (cond_value_text c) \<noteq> [] \<or>
            cond_mode c \<noteq> ''full'' \<or> cond_invert c \<or> cond_pass_missing_key c)
      in op_mode operation = ''set'' \<and>
         js_trim (op_path operation) = [] \<and>
         js_trim (op_from operation) = [] \<and>
         js_trim (op_to operation) = [] \<and>
         js_trim (op_value_text operation) = [] \<and>
         \<not> op_keep_origin operation \<and>
         \<not> hasCondition)"

definition getOperationSummary :: "po_operation \<Rightarrow> nat \<Rightarrow> string" where
  "getOperationSummary operation index =
     (let mode = or_str (op_mode operation) ''set'';
          modeLabel = or_default (OPERATION_MODE_LABEL_MAP mode) mode;
          path = js_trim (op_path operation);
          frm = js_trim (op_from operation);
          dest = js_trim (op_to operation);
          head = show_nat (index + 1) @ ''. '' @ modeLabel @ '' '' @ [CHR 0xB7] @ '' ''
      in if mode = ''sync_fields'' then head @ or_str frm (or_str dest ''-'')
         else head @ or_str path (or_str frm (or_str dest ''-'')))"

section \<open>Labels per mode\<close>

definition getModeTagTailwind :: "string \<Rightarrow> string" where
  "getModeTagTailwind mode =
     (if js_includes mode ''header'' then ''bg-cyan-500/15 text-cyan-700 border-cyan-500/20''
      else if js_includes mode ''replace'' \<or> js_includes mode ''trim''
        then ''bg-violet-500/15 text-violet-700 border-violet-500/20''
      else if js_includes mode ''copy'' \<or> js_includes mode ''move''
        then ''bg-blue-500/15 text-blue-700 border-blue-500/20''
      else if js_includes mode ''error'' \<or> js_includes mode ''prune''
        then ''bg-red-500/15 text-red-700 border-red-500/20''
      else if js_includes mode ''sync'' then ''bg-green-500/15 text-green-700 border-green-500/20''
      else ''bg-muted text-muted-foreground'')"

definition getModePathLabel :: "string \<Rightarrow> string" where
  "getModePathLabel mode =
     (if mode = ''set_header'' \<or> mode = ''delete_header'' then ''Header Name''
      else if mode = ''prune_objects'' then ''Target Path (optional)''
      else ''Target Field Path'')"

definition getModePathPlaceholder :: "string \<Rightarrow> string" where
  "getModePathPlaceholder mode =
     (if mode = ''set_header'' then ''Authorization''
      else if mode = ''delete_header'' then ''X-Debug-Mode''
      else if mode = ''prune_objects'' then ''messages''
      else ''temperature'')"

definition getModeFromLabel :: "string \<Rightarrow> string" where
  "getModeFromLabel mode =
     (if mode = ''replace'' then ''Match Text''
      else if mode = ''regex_replace'' then ''Regex Pattern''
      else if mode = ''copy_header'' \<or> mode = ''move_header'' then ''Source Header''
      else ''Source Field'')"

definition getModeFromPlaceholder :: "string \<Rightarrow> string" where
  "getModeFromPlaceholder mode =
     (if mode = ''replace'' then ''openai/''
      else if mode = ''regex_replace'' then ''^gpt-''
      else if mode = ''copy_header'' \<or> mode = ''move_header'' then ''Authorization''
      else ''model'')"

definition getModeToLabel :: "string \<Rightarrow> string" where
  "getModeToLabel mode =
     (if mode = ''replace'' \<or> mode = ''regex_replace'' then ''Replace With''
      else if mode = ''copy_header'' \<or> mode = ''move_header'' then ''Target Header''
      else ''Target Field'')"

definition getModeToPlaceholder :: "string \<Rightarrow> string" where
  "getModeToPlaceholder mode =
     (if mode = ''replace'' then ''(leave empty to delete)''
      else if mode = ''regex_replace'' then ''openai/gpt-''
      else if mode = ''copy_header'' \<or> mode = ''move_header'' then ''X-Upstream-Auth''
      else ''original_model'')"

definition affix_modes :: "string list" where
  "affix_modes = [''trim_prefix'', ''trim_suffix'', ''ensure_prefix'', ''ensure_suffix'']"

definition getModeValueLabel :: "string \<Rightarrow> string" where
  "getModeValueLabel mode =
     (if mode = ''set_header'' then ''Header Value (supports string or JSON mapping)''
      else if mode = ''pass_headers'' then ''Pass-through Headers (comma-separated or JSON array)''
      else if mode \<in> set affix_modes then ''Prefix/Suffix Text''
      else if mode = ''prune_objects'' then ''Prune Rule (string or JSON object)''
      else ''Value (supports JSON or plain text)'')"

definition getModeValuePlaceholder :: "string \<Rightarrow> string" where
  "getModeValuePlaceholder mode =
     (if mode = ''set_header'' then ''Bearer sk-xxx''
      else if mode = ''pass_headers'' then ''Authorization, X-Request-Id''
      else if mode \<in> set affix_modes then ''openai/''
      else if mode = ''prune_objects'' then ''{\"type\":\"redacted_thinking\"}''
      else ''0.7'')"

section \<open>Sync targets\<close>

record sync_target =
  target_type :: string
  target_key :: string

definition parseSyncTargetSpec :: "string \<Rightarrow> sync_target" where
  "parseSyncTargetSpec spec =
     (let raw = js_trim spec
      in if raw = [] then \<lparr>target_type = ''json'', target_key = []\<rparr>
         else (case index_where ((=) CHR '':'') raw of
             None \<Rightarrow> \<lparr>target_type = ''json'', target_key = raw\<rparr>
           | Some idx \<Rightarrow>
               let pre = js_lower (js_trim (take idx raw)); key = js_trim (drop (Suc idx) raw)
               in if pre = ''header'' then \<lparr>target_type = ''header'', target_key = key\<rparr>
                  else \<lparr>target_type = ''json'', target_key = key\<rparr>))"

definition buildSyncTargetSpec :: "string \<Rightarrow> string \<Rightarrow> string" where
  "buildSyncTargetSpec ty key =
     (let normalizedType = (if ty = ''header'' then ''header'' else ''json'');
          normalizedKey = js_trim key
      in if normalizedKey = [] then [] else normalizedType @ '':'' @ normalizedKey)"

section \<open>Custom error drafts\<close>

record return_error_draft =
  re_message :: string
  re_statusCode :: jsnum
  re_code :: string
  re_type :: string
  re_skipRetry :: bool
  re_simpleMode :: bool

text \<open>\<open>Number.isInteger(x) && x >= 100 && x <= 599 ? x : 400\<close>.\<close>

definition valid_status :: "jsnum \<Rightarrow> bool" where
  "valid_status x \<longleftrightarrow> num_is_integer x \<and> num_le (Num (int_dec 100)) x \<and> num_le x (Num (int_dec 599))"

definition status_or_400 :: "jsnum \<Rightarrow> jsnum" where
  "status_or_400 x = (if valid_status x then x else Num (int_dec 400))"

definition return_error_defaults :: return_error_draft where
  "return_error_defaults = \<lparr>re_message = [], re_statusCode = Num (int_dec 400), re_code = [],
     re_type = [], re_skipRetry = True, re_simpleMode = True\<rparr>"

text \<open>A conversion that raises ends in the catch, like a text that does not parse.\<close>

definition parseReturnErrorDraft :: "string \<Rightarrow> return_error_draft" where
  "parseReturnErrorDraft valueText =
     (let raw = js_trim valueText
      in if raw = [] then return_error_defaults
         else (case json_parse raw of
             Some (JObj kvs) \<Rightarrow>
               (let parsed = JObj kvs;
                    statusRaw = (if js_prop parsed ''status_code'' \<noteq> None
                       then js_prop parsed ''status_code'' else js_prop parsed ''status'')
                in if js_string_raises statusRaw \<or> js_string_raises (js_or (js_prop parsed ''message'') (js_prop parsed ''msg''))
                     \<or> js_string_raises (js_prop parsed ''code'') \<or> js_string_raises (js_prop parsed ''type'')
                   then return_error_defaults\<lparr>re_message := raw, re_simpleMode := True\<rparr>
                   else return_error_defaults
                     \<lparr>re_message := js_trim (js_to_string
                        (js_or (js_or (js_prop parsed ''message'') (js_prop parsed ''msg'')) (Some (JStr [])))),
                      re_statusCode := status_or_400 (js_to_number statusRaw),
                      re_code := js_trim (js_to_string (js_or (js_prop parsed ''code'') (Some (JStr [])))),
                      re_type := js_trim (js_to_string (js_or (js_prop parsed ''type'') (Some (JStr [])))),
                      re_skipRetry := is_not_false (js_prop parsed ''skip_retry''),
                      re_simpleMode := False\<rparr>)
           | _ \<Rightarrow> return_error_defaults\<lparr>re_message := raw, re_simpleMode := True\<rparr>))"

definition num_dec :: "jsnum \<Rightarrow> dec" where
  "num_dec x = (case x of Num d \<Rightarrow> d | _ \<Rightarrow> int_dec 0)"

definition return_error_payload :: "return_error_draft \<Rightarrow> (string \<times> json) list" where
  "return_error_payload draft =
     (let code = js_trim (re_code draft); ty = js_trim (re_type draft);
          payload = [(''message'', JStr (js_trim (re_message draft))),
                     (''status_code'', JNum (num_dec (status_or_400 (re_statusCode draft))))]
      in put_if (\<not> re_skipRetry draft) ''skip_retry'' (JBool False)
           (put_if (ty \<noteq> []) ''type'' (JStr ty)
             (put_if (code \<noteq> []) ''code'' (JStr code) payload)))"

definition buildReturnErrorValueText :: "return_error_draft \<Rightarrow> string" where
  "buildReturnErrorValueText draft =
     (if re_simpleMode draft then js_trim (re_message draft)
      else json_stringify (JObj (return_error_payload draft)))"

section \<open>Prune drafts\<close>

type_synonym prune_rule = po_condition

record prune_draft =
  pr_simpleMode :: bool
  pr_typeText :: string
  pr_logic :: string
  pr_recursive :: bool
  pr_rules :: "prune_rule list"

definition normalizePruneRule :: "clock \<Rightarrow> nat \<Rightarrow> json \<Rightarrow> prune_rule \<times> nat" where
  "normalizePruneRule clk n rule =
     (\<lparr>cond_id = nextLocalId clk n,
       cond_path = string_or_empty (js_prop rule ''path''),
       cond_mode = mode_or CONDITION_MODE_VALUES ''full'' (js_prop rule ''mode''),
       cond_value_text = toValueText (js_prop rule ''value''),
       cond_invert = is_true (js_prop rule ''invert''),
       cond_pass_missing_key = is_true (js_prop rule ''pass_missing_key'')\<rparr>, Suc n)"

definition prune_defaults :: prune_draft where
  "prune_defaults = \<lparr>pr_simpleMode = True, pr_typeText = [], pr_logic = ''AND'', pr_recursive = True,
     pr_rules = []\<rparr>"

text \<open>The rule objects a stored draft holds, in the order the code visits them: the entries of
  \<open>where\<close>, then those of \<open>conditions\<close> (an array's items that are objects or arrays, or the
  entries of an object).\<close>

definition rule_of_entry :: "string \<times> json \<Rightarrow> json" where
  "rule_of_entry p = JObj [(''path'', JStr (fst p)), (''mode'', JStr ''full''), (''value'', snd p)]"

definition is_object_like :: "json \<Rightarrow> bool" where
  "is_object_like v = (case v of JObj _ \<Rightarrow> True | JArr _ \<Rightarrow> True | _ \<Rightarrow> False)"

definition prune_rule_sources :: "json \<Rightarrow> json list" where
  "prune_rule_sources parsed =
     (case js_prop parsed ''where'' of Some (JObj kvs) \<Rightarrow> map rule_of_entry kvs | _ \<Rightarrow> [])
     @ (case js_prop parsed ''conditions'' of
          Some (JArr xs) \<Rightarrow> filter is_object_like xs
        | Some (JObj kvs) \<Rightarrow> map rule_of_entry kvs
        | _ \<Rightarrow> [])"

fun normalize_rules :: "clock \<Rightarrow> nat \<Rightarrow> json list \<Rightarrow> prune_rule list \<times> nat" where
  "normalize_rules clk n [] = ([], n)"
| "normalize_rules clk n (x # xs) =
     (let (r, n1) = normalizePruneRule clk n x; (rs, n2) = normalize_rules clk n1 xs in (r # rs, n2))"

text \<open>The identifiers of rules that were read before a conversion raises are used up.\<close>

definition parsePruneObjectsDraft :: "clock \<Rightarrow> nat \<Rightarrow> string \<Rightarrow> prune_draft \<times> nat" where
  "parsePruneObjectsDraft clk n valueText =
     (let raw = js_trim valueText
      in if raw = [] then (prune_defaults, n)
         else (case json_parse raw of
             None \<Rightarrow> (prune_defaults\<lparr>pr_typeText := raw\<rparr>, n)
           | Some (JStr s) \<Rightarrow> (prune_defaults\<lparr>pr_typeText := js_trim s\<rparr>, n)
           | Some (JObj kvs) \<Rightarrow>
               (let parsed = JObj kvs;
                    (rules, n') = normalize_rules clk n (prune_rule_sources parsed);
                    typeText = (case js_prop parsed ''type'' of None \<Rightarrow> [] | Some v \<Rightarrow> js_trim (json_to_string v));
                    logic = (if js_upper (js_to_string (js_or (js_prop parsed ''logic'') (Some (JStr ''AND'')))) = ''OR''
                             then ''OR'' else ''AND'');
                    hasAdvancedFields = (js_prop parsed ''logic'' \<noteq> None \<or> js_prop parsed ''recursive'' \<noteq> None \<or>
                      js_prop parsed ''where'' \<noteq> None \<or> js_prop parsed ''conditions'' \<noteq> None)
                in if js_string_raises (js_prop parsed ''type'') \<or> js_string_raises (js_prop parsed ''logic'')
                   then (prune_defaults\<lparr>pr_typeText := raw\<rparr>, n')
                   else (\<lparr>pr_simpleMode = \<not> hasAdvancedFields, pr_typeText = typeText, pr_logic = logic,
                     pr_recursive = is_not_false (js_prop parsed ''recursive''), pr_rules = rules\<rparr>, n'))
           | Some JNull \<Rightarrow> (prune_defaults, n)
           | Some v \<Rightarrow> (prune_defaults\<lparr>pr_typeText := if string_raises v then raw else js_trim (json_to_string v)\<rparr>, n)))"

definition prune_condition_payload :: "prune_rule \<Rightarrow> json" where
  "prune_condition_payload rule =
     (let valueRaw = js_trim (cond_value_text rule);
          payload = [(''path'', JStr (js_trim (cond_path rule))),
                     (''mode'', JStr (if cond_mode rule \<in> set CONDITION_MODE_VALUES then cond_mode rule else ''full''))]
      in JObj (put_if (cond_pass_missing_key rule) ''pass_missing_key'' (JBool True)
           (put_if (cond_invert rule) ''invert'' (JBool True)
             (put_if (valueRaw \<noteq> []) ''value'' (parseLooseValue valueRaw) payload))))"

definition prune_payload :: "prune_draft \<Rightarrow> (string \<times> json) list" where
  "prune_payload draft =
     (let typeText = js_trim (pr_typeText draft);
          conditions = map prune_condition_payload (filter (\<lambda>r. js_trim (cond_path r) \<noteq> []) (pr_rules draft))
      in put_if (conditions \<noteq> []) ''conditions'' (JArr conditions)
           (put_if (\<not> pr_recursive draft) ''recursive'' (JBool False)
             (put_if (js_upper (or_str (pr_logic draft) ''AND'') = ''OR'') ''logic'' (JStr ''OR'')
               (put_if (typeText \<noteq> []) ''type'' (JStr typeText) []))))"

definition buildPruneObjectsValueText :: "prune_draft \<Rightarrow> string" where
  "buildPruneObjectsValueText draft =
     (if pr_simpleMode draft then js_trim (pr_typeText draft)
      else
        (let payload = prune_payload draft
         in if \<not> js_truthy (obj_get ''type'' payload) \<and> \<not> js_truthy (obj_get ''conditions'' payload)
            then json_stringify (JObj [(''logic'', JStr ''AND'')])
            else json_stringify (JObj payload)))"

section \<open>Header names, conditions, validation\<close>

text \<open>\<open>String(i ?? '').trim()\<close>, of a value on which \<open>String\<close> does not raise.\<close>

definition trimmed_name :: "json \<Rightarrow> string" where
  "trimmed_name v = js_trim (if v = JNull then [] else json_to_string v)"

definition parsePassHeaderNames :: "json \<Rightarrow> string list" where
  "parsePassHeaderNames rawValue = (case rawValue of
     JArr xs \<Rightarrow> filter nonempty (map trimmed_name xs)
   | JObj kvs \<Rightarrow>
       (case obj_get ''headers'' kvs of
          Some (JArr xs) \<Rightarrow> filter nonempty (map trimmed_name xs)
        | _ \<Rightarrow>
            (case obj_get ''header'' kvs of
               Some v \<Rightarrow> let single = trimmed_name v in if single \<noteq> [] then [single] else []
             | None \<Rightarrow> []))
   | JStr s \<Rightarrow> filter nonempty (map js_trim (js_split CHR '','' s))
   | _ \<Rightarrow> [])"

definition buildConditionPayload :: "po_condition \<Rightarrow> json option" where
  "buildConditionPayload condition =
     (let path = js_trim (cond_path condition)
      in if path = [] then None
         else Some (JObj
           (put_if (cond_pass_missing_key condition) ''pass_missing_key'' (JBool True)
             (put_if (cond_invert condition) ''invert'' (JBool True)
               [(''path'', JStr path),
                (''mode'', JStr (or_str (cond_mode condition) ''full'')),
                (''value'', parseLooseValue (cond_value_text condition))]))))"

text \<open>A message is its translation key and the line number it is filled with.\<close>

type_synonym message = "string \<times> nat"

definition validate_return_error :: "nat \<Rightarrow> po_operation \<Rightarrow> message option" where
  "validate_return_error line op =
     (let raw = js_trim (op_value_text op)
      in if raw = [] then Some (''Rule {{line}} is missing value'', line)
         else (case json_parse raw of
             Some (JObj kvs) \<Rightarrow>
               if js_trim (js_to_string (js_or (obj_get ''message'' kvs) (Some (JStr [])))) = []
               then Some (''Rule {{line}} return_error requires a message field'', line) else None
           | _ \<Rightarrow> None))"

definition validate_operation :: "nat \<Rightarrow> po_operation \<Rightarrow> message option" where
  "validate_operation line op =
     (let mode = or_str (op_mode op) ''set'';
          meta = mode_meta_of mode;
          pathValue = js_trim (op_path op);
          fromValue = js_trim (op_from op);
          toValue = js_trim (op_to op)
      in if meta_path meta \<and> pathValue = [] then Some (''Rule {{line}} is missing target path'', line)
         else if mode \<in> set FROM_REQUIRED_MODES \<and> fromValue = [] \<and> \<not> (meta_pathAlias meta \<and> pathValue \<noteq> [])
           then Some (''Rule {{line}} is missing source field'', line)
         else if mode \<in> set TO_REQUIRED_MODES \<and> toValue = [] \<and> \<not> (meta_pathAlias meta \<and> pathValue \<noteq> [])
           then Some (''Rule {{line}} is missing target field'', line)
         else if mode \<in> set VALUE_REQUIRED_MODES \<and> js_trim (op_value_text op) = []
           then Some (''Rule {{line}} is missing value'', line)
         else if mode = ''return_error'' \<and> validate_return_error line op \<noteq> None
           then validate_return_error line op
         else if mode = ''prune_objects'' \<and> js_trim (op_value_text op) = []
           then Some (''Rule {{line}} prune_objects is missing conditions'', line)
         else if mode = ''pass_headers'' \<and> js_trim (op_value_text op) = []
           then Some (''Rule {{line}} pass_headers is missing header names'', line)
         else if mode = ''pass_headers'' \<and> parsePassHeaderNames (parseLooseValue (js_trim (op_value_text op))) = []
           then Some (''Rule {{line}} pass_headers format is invalid'', line)
         else None)"

fun validate_from :: "nat \<Rightarrow> po_operation list \<Rightarrow> message option" where
  "validate_from i [] = None"
| "validate_from i (op # ops) =
     (case validate_operation (i + 1) op of Some m \<Rightarrow> Some m | None \<Rightarrow> validate_from (i + 1) ops)"

definition validateOperations :: "po_operation list \<Rightarrow> message option" where
  "validateOperations operations = validate_from 0 operations"

section \<open>Loading and saving\<close>

datatype edit_mode = VisualEdit | JsonEdit

datatype visual_mode = OperationsMode | LegacyMode

record editor_init =
  init_editMode :: edit_mode
  init_visualMode :: visual_mode
  init_legacyValue :: string
  init_operations :: "po_operation list"
  init_jsonText :: string
  init_jsonError :: string

text \<open>The operations of a parsed override, a default one when there is none.\<close>

definition operations_or_default :: "clock \<Rightarrow> nat \<Rightarrow> json list \<Rightarrow> (po_operation list \<times> nat) option" where
  "operations_or_default clk n xs =
     (if xs \<noteq> [] then map_ids (normalizeOperation clk) n xs
      else (let (d, n') = createDefaultOperation clk n in Some ([d], n')))"

definition init_with :: "clock \<Rightarrow> nat \<Rightarrow> edit_mode \<Rightarrow> visual_mode \<Rightarrow> string \<Rightarrow> string \<Rightarrow> string \<Rightarrow> (editor_init \<times> nat) option" where
  "init_with clk n em vm legacy jtext jerr =
     (let (d, n') = createDefaultOperation clk n
      in Some (\<lparr>init_editMode = em, init_visualMode = vm, init_legacyValue = legacy, init_operations = [d],
                init_jsonText = jtext, init_jsonError = jerr\<rparr>, n'))"

definition parseInitialState :: "clock \<Rightarrow> nat \<Rightarrow> string \<Rightarrow> (editor_init \<times> nat) option" where
  "parseInitialState clk n rawValue =
     (let trimmed = js_trim rawValue
      in if trimmed = [] then init_with clk n VisualEdit OperationsMode [] [] []
         else (case json_parse trimmed of
             None \<Rightarrow> init_with clk n JsonEdit OperationsMode [] rawValue ''Invalid JSON format''
           | Some parsed \<Rightarrow>
               (let pretty = json_pretty parsed
                in (case parsed of
                      JObj kvs \<Rightarrow>
                        (case obj_get ''operations'' kvs of
                           Some (JArr xs) \<Rightarrow>
                             map_option (\<lambda>(ops, n').
                               (\<lparr>init_editMode = VisualEdit, init_visualMode = OperationsMode,
                                 init_legacyValue = [], init_operations = ops,
                                 init_jsonText = pretty, init_jsonError = []\<rparr>, n'))
                               (operations_or_default clk n xs)
                         | _ \<Rightarrow> init_with clk n VisualEdit LegacyMode pretty pretty [])
                    | _ \<Rightarrow> init_with clk n JsonEdit OperationsMode [] pretty []))))"

definition operation_payload :: "po_operation \<Rightarrow> (string \<times> json) list" where
  "operation_payload operation =
     (let mode = or_str (op_mode operation) ''set'';
          meta = mode_meta_of mode;
          descriptionValue = js_trim (op_description operation);
          pathValue = js_trim (op_path operation);
          fromValue = js_trim (op_from operation);
          toValue = js_trim (op_to operation);
          conditions = List.map_filter buildConditionPayload (op_conditions operation);
          p0 = [(''mode'', JStr mode)];
          p1 = put_if (descriptionValue \<noteq> []) ''description'' (JStr descriptionValue) p0;
          p2 = put_if (meta_path meta) ''path'' (JStr pathValue) p1;
          p3 = put_if (meta_pathOptional meta \<and> pathValue \<noteq> []) ''path'' (JStr pathValue) p2;
          p4 = put_if (meta_value meta) ''value'' (parseLooseValue (op_value_text operation)) p3;
          p5 = put_if (meta_keepOrigin meta \<and> op_keep_origin operation) ''keep_origin'' (JBool True) p4;
          p6 = put_if (meta_from meta) ''from'' (JStr fromValue) p5;
          p7 = put_if (meta_to meta \<noteq> Some True \<and> toValue \<noteq> []) ''to'' (JStr toValue) p6;
          p8 = put_if (meta_to meta = Some True) ''to'' (JStr toValue) p7;
          p9 = put_if (meta_pathAlias meta \<and> \<not> js_truthy (obj_get ''from'' p8) \<and> pathValue \<noteq> [])
                 ''from'' (JStr pathValue) p8;
          p10 = put_if (meta_pathAlias meta \<and> \<not> js_truthy (obj_get ''to'' p9) \<and> pathValue \<noteq> [])
                 ''to'' (JStr pathValue) p9;
          p11 = put_if (conditions \<noteq> []) ''conditions'' (JArr conditions) p10
      in put_if (conditions \<noteq> []) ''logic''
           (JStr (if op_logic operation = ''AND'' then ''AND'' else ''OR'')) p11)"

definition buildOperationsJson :: "po_operation list \<Rightarrow> bool \<Rightarrow> message + string" where
  "buildOperationsJson sourceOperations validate =
     (let filteredOps = filter (\<lambda>x. \<not> isOperationBlank x) sourceOperations
      in if filteredOps = [] then Inr []
         else (case (if validate then validateOperations filteredOps else None) of
             Some message \<Rightarrow> Inl message
           | None \<Rightarrow> Inr (json_pretty (JObj [(''operations'',
               JArr (map (\<lambda>op. JObj (operation_payload op)) filteredOps))]))))"

end
