(* ===== verification/ParamOverrideFacts.thy ===== *)
theory ParamOverrideFacts
  imports ParamOverride
begin

text \<open>
  What holds of the parameter override data model: identifiers are fresh and distinct, loading
  raises exactly on a null entry, a saved text is read back to a state that saves the same text,
  an accepted operation is saved with every field its mode requires, reordering permutes, and the
  drafts of the structured value editors survive being written and read.
\<close>

section \<open>Identifiers\<close>

lemma show_nat_inject [simp]: "show_nat m = show_nat n \<longleftrightarrow> m = n"
  by (metis nat_of_digits_show_nat)

lemma show_nat_no_underscore: "CHR ''_'' \<notin> set (show_nat n)"
  using show_nat_digits [of "CHR ''_''" n] by (auto simp: is_digit_def)

lemma js_split_ids: "js_split CHR ''_'' (show_nat a @ CHR ''_'' # show_nat b) = [show_nat a, show_nat b]"
  by (simp add: js_split_append js_split_none show_nat_no_underscore)

lemma nextLocalId_eq: "nextLocalId clk m = nextLocalId clk' n \<longleftrightarrow> clk m = clk' n \<and> m = n"
proof
  assume "nextLocalId clk m = nextLocalId clk' n"
  then have "js_split CHR ''_'' (show_nat (clk m) @ CHR ''_'' # show_nat m)
      = js_split CHR ''_'' (show_nat (clk' n) @ CHR ''_'' # show_nat n)"
    by (simp add: nextLocalId_def)
  then show "clk m = clk' n \<and> m = n" by (simp only: js_split_ids) auto
qed (auto simp: nextLocalId_def)

lemma inj_nextLocalId: "inj (nextLocalId clk)"
  by (auto simp: inj_def nextLocalId_eq)

lemma nextLocalId_ne [simp]: "nextLocalId clk n \<noteq> []"
  by (simp add: nextLocalId_def)

text \<open>The identifiers \<open>is\<close> were drawn in order from a counter that went from \<open>n\<close> to \<open>n'\<close>.\<close>

definition drawn :: "clock \<Rightarrow> nat \<Rightarrow> string list \<Rightarrow> nat \<Rightarrow> bool" where
  "drawn clk n is n' \<longleftrightarrow>
     n \<le> n' \<and> (\<exists>ks. is = map (nextLocalId clk) ks \<and> sorted_wrt (<) ks \<and> set ks \<subseteq> {n..<n'})"

lemma drawn_Nil [simp]: "drawn clk n [] n' \<longleftrightarrow> n \<le> n'"
  by (auto simp: drawn_def)

lemma drawn_Cons: "n \<le> k \<Longrightarrow> k < m \<Longrightarrow> drawn clk m is n' \<Longrightarrow> drawn clk n (nextLocalId clk k # is) n'"
  unfolding drawn_def
  apply (elim conjE exE)
  subgoal for ks by (rule conjI, simp, rule exI [of _ "k # ks"]) fastforce
  done

lemma drawn_mono: "drawn clk n is n' \<Longrightarrow> n' \<le> n'' \<Longrightarrow> drawn clk n is n''"
  by (fastforce simp: drawn_def)

lemma drawn_distinct: "drawn clk n is n' \<Longrightarrow> distinct is"
  by (auto simp: drawn_def distinct_map strict_sorted_iff inj_on_subset [OF inj_nextLocalId])

lemma drawn_ids: "drawn clk n is n' \<Longrightarrow> i \<in> set is \<Longrightarrow> \<exists>k. n \<le> k \<and> k < n' \<and> i = nextLocalId clk k"
  by (fastforce simp: drawn_def)

section \<open>Normalisation\<close>

lemma normalizeCondition_None: "normalizeCondition clk n c = None \<longleftrightarrow> c = JNull"
  by (simp add: normalizeCondition_def)

lemma map_ids_None:
  assumes "\<And>n x. f n x = None \<longleftrightarrow> bad x"
  shows "map_ids f n xs = None \<longleftrightarrow> (\<exists>x \<in> set xs. bad x)"
proof (induction xs arbitrary: n)
  case (Cons x xs)
  then show ?case using assms [of n x] by (cases "f n x") auto
qed simp

lemma map_ids_length: "map_ids f n xs = Some (ys, n') \<Longrightarrow> length ys = length xs"
  by (induction xs arbitrary: n ys) (auto split: option.splits)

text \<open>\<open>map_ids\<close> relates the lists element by element, each at a counter between the two ends,
  when every single step moves the counter up.\<close>

lemma map_ids_rel:
  assumes "map_ids f n xs = Some (ys, n')"
    and "\<And>k x y k'. f k x = Some (y, k') \<Longrightarrow> x \<in> set xs \<Longrightarrow> P x y"
  shows "list_all2 P xs ys"
  using assms
  by (induction xs arbitrary: n ys) (auto split: option.splits)

lemma map_ids_drawn:
  assumes "\<And>k x y k'. f k x = Some (y, k') \<Longrightarrow> ident y = nextLocalId clk k \<and> k < k'"
  shows "map_ids f n xs = Some (ys, n') \<Longrightarrow> drawn clk n (map ident ys) n'"
proof (induction xs arbitrary: n ys)
  case (Cons x xs)
  then obtain y m zs where y: "f n x = Some (y, m)" and zs: "map_ids f m xs = Some (zs, n')"
      and ys: "ys = y # zs"
    by (auto split: option.splits)
  show ?case using Cons.IH [OF zs] assms [OF y] by (auto simp: ys intro: drawn_Cons)
qed simp

lemma normalizeCondition_id:
  "normalizeCondition clk n c = Some (x, n') \<Longrightarrow> cond_id x = nextLocalId clk n \<and> n < n'"
  by (auto simp: normalizeCondition_def split: if_splits)

lemma normalizeConditions_drawn:
  "map_ids (normalizeCondition clk) n cs = Some (ys, n') \<Longrightarrow> drawn clk n (map cond_id ys) n'"
  by (rule map_ids_drawn [OF normalizeCondition_id])

definition conditions_of :: "json \<Rightarrow> json list" where
  "conditions_of v = (case js_prop v ''conditions'' of Some (JArr cs) \<Rightarrow> cs | _ \<Rightarrow> [])"

text \<open>The only values on which loading raises.\<close>

definition cannot_load :: "json \<Rightarrow> bool" where
  "cannot_load v \<longleftrightarrow> v = JNull \<or> JNull \<in> set (conditions_of v)
     \<or> js_string_raises (js_prop v ''logic'')"

lemma normalizeOperation_conditions:
  "(case js_prop v ''conditions'' of
      Some (JArr cs) \<Rightarrow> map_ids (normalizeCondition clk) (Suc n) cs
    | _ \<Rightarrow> Some ([], Suc n)) = map_ids (normalizeCondition clk) (Suc n) (conditions_of v)"
  by (simp add: conditions_of_def split: option.splits json.splits)

lemma normalizeOperation_None: "normalizeOperation clk n v = None \<longleftrightarrow> cannot_load v"
  by (auto simp: normalizeOperation_def Let_def normalizeOperation_conditions cannot_load_def
      map_ids_None [of "normalizeCondition clk" "\<lambda>c. c = JNull", OF normalizeCondition_None])

lemma normalizeOperation_Some:
  assumes "normalizeOperation clk n v = Some (op, n')"
  shows "op_id op = nextLocalId clk n \<and>
    map_ids (normalizeCondition clk) (Suc n) (conditions_of v) = Some (op_conditions op, n')"
  using assms
  by (auto simp: normalizeOperation_def Let_def normalizeOperation_conditions split: if_splits)

lemma normalizeOperation_id:
  "normalizeOperation clk n v = Some (op, n') \<Longrightarrow> op_id op = nextLocalId clk n \<and> n < n'"
  using normalizeOperation_Some normalizeConditions_drawn
  by (fastforce simp: drawn_def)

lemma normalizeOperations_drawn:
  "map_ids (normalizeOperation clk) n xs = Some (ops, n') \<Longrightarrow> drawn clk n (map op_id ops) n'"
  by (rule map_ids_drawn [OF normalizeOperation_id])

lemma mode_or_in: "d \<in> set modes \<Longrightarrow> mode_or modes d v \<in> set modes"
  by (auto simp: mode_or_def split: option.splits json.splits)

text \<open>What every operation in the editor satisfies: its mode, its logic and the modes of its
  conditions are among those offered.\<close>

definition cond_modes_ok :: "po_condition \<Rightarrow> bool" where
  "cond_modes_ok c \<longleftrightarrow> cond_mode c \<in> set CONDITION_MODE_VALUES"

definition op_modes_ok :: "po_operation \<Rightarrow> bool" where
  "op_modes_ok op \<longleftrightarrow> op_mode op \<in> set OPERATION_MODE_VALUES \<and> op_logic op \<in> {''AND'', ''OR''}
     \<and> (\<forall>c \<in> set (op_conditions op). cond_modes_ok c)"

lemma normalizeCondition_modes: "normalizeCondition clk n c = Some (x, n') \<Longrightarrow> cond_modes_ok x"
  by (auto simp: normalizeCondition_def cond_modes_ok_def split: if_splits
      intro!: mode_or_in) (auto simp: CONDITION_MODE_VALUES_def CONDITION_MODE_OPTIONS_def)

lemma set_in_modes [simp]: "''set'' \<in> set OPERATION_MODE_VALUES"
  by (simp add: OPERATION_MODE_VALUES_def OPERATION_MODE_OPTIONS_def)

lemma normalizeOperation_modes:
  assumes "normalizeOperation clk n v = Some (op, n')"
  shows "op_modes_ok op"
proof -
  have "list_all2 (\<lambda>_. cond_modes_ok) (conditions_of v) (op_conditions op)"
    using normalizeOperation_Some [OF assms] by (auto elim!: map_ids_rel dest: normalizeCondition_modes)
  then have "\<forall>c \<in> set (op_conditions op). cond_modes_ok c"
    by (auto simp: list_all2_conv_all_nth in_set_conv_nth)
  then show ?thesis using assms
    by (auto simp: op_modes_ok_def normalizeOperation_def Let_def split: if_splits intro: mode_or_in [OF set_in_modes])
qed

lemma normalizeOperations_modes:
  assumes "map_ids (normalizeOperation clk) n xs = Some (ops, n')"
  shows "\<forall>op \<in> set ops. op_modes_ok op"
proof -
  have "list_all2 (\<lambda>_. op_modes_ok) xs ops"
    using assms by (auto elim!: map_ids_rel dest: normalizeOperation_modes)
  then show ?thesis by (auto simp: list_all2_conv_all_nth in_set_conv_nth)
qed

lemma createDefaultOperation_Some:
  "normalizeOperation clk n (JObj [(''mode'', JStr ''set'')]) = Some (createDefaultOperation clk n)"
  by (simp add: createDefaultOperation_def normalizeOperation_def Let_def js_prop_def obj_get_def)

lemma createDefaultCondition_Some:
  "normalizeCondition clk n (JObj []) = Some (createDefaultCondition clk n)"
  by (simp add: createDefaultCondition_def normalizeCondition_def)

section \<open>Loose values\<close>

lemma parseLooseValue_ok: "json_ok (parseLooseValue t)"
  by (auto simp: parseLooseValue_def Let_def json_parse_ok split: option.splits)

lemma parseLooseValue_trim [simp]: "parseLooseValue (js_trim t) = parseLooseValue t"
  by (simp add: parseLooseValue_def)

text \<open>The texts whose value is read back as the same value from the text it is shown as. A string
  value is shown without its quotes, so the text of another JSON value between quotes, or one
  with spaces at its ends, is not among them.\<close>

definition loose_stable :: "string \<Rightarrow> bool" where
  "loose_stable t \<longleftrightarrow> (case parseLooseValue t of
     JStr u \<Rightarrow> if u = [] then js_trim t = [] else js_trim u = u \<and> json_parse u = None
   | _ \<Rightarrow> True)"

lemma loose_text:
  assumes "loose_stable t"
  shows "parseLooseValue (toValueText (Some (parseLooseValue t))) = parseLooseValue t"
proof (cases "\<exists>u. parseLooseValue t = JStr u")
  case True
  then obtain u where u: "parseLooseValue t = JStr u" by blast
  then have "js_trim u = u \<and> (u = [] \<or> json_parse u = None)"
    using assms by (auto simp: loose_stable_def split: if_splits)
  then have "parseLooseValue u = JStr u" by (auto simp: parseLooseValue_def)
  then show ?thesis by (simp add: u toValueText_def)
next
  case False
  then have "toValueText (Some (parseLooseValue t)) = json_stringify (parseLooseValue t)"
    by (simp add: toValueText_def split: json.splits)
  then show ?thesis
    using compact.parse_print [OF parseLooseValue_ok [of t]] compact.print_not_empty [OF parseLooseValue_ok [of t]]
    by (subst parseLooseValue_def) (simp add: json_text_trim)
qed

lemma loose_text_nonempty:
  assumes "loose_stable t" and "js_trim t \<noteq> []"
  shows "js_trim (toValueText (Some (parseLooseValue t))) \<noteq> []"
proof (cases "\<exists>u. parseLooseValue t = JStr u")
  case True
  then obtain u where u: "parseLooseValue t = JStr u" by blast
  then have "js_trim u = u" "u \<noteq> []"
    using assms by (auto simp: loose_stable_def split: if_splits)
  then show ?thesis by (simp add: u toValueText_def)
next
  case False
  then have "toValueText (Some (parseLooseValue t)) = json_stringify (parseLooseValue t)"
    by (simp add: toValueText_def split: json.splits)
  then show ?thesis
    using compact.print_not_empty [OF parseLooseValue_ok [of t]] by (simp add: json_text_trim)
qed

lemma loose_text_object:
  assumes "loose_stable t"
  shows "json_parse (js_trim (toValueText (Some (parseLooseValue t)))) = Some (JObj kvs)
    \<longleftrightarrow> json_parse (js_trim t) = Some (JObj kvs)"
proof (cases "\<exists>u. parseLooseValue t = JStr u")
  case True
  then obtain u where u: "parseLooseValue t = JStr u" by blast
  then have "json_parse (js_trim t) \<noteq> Some (JObj kvs)"
    by (auto simp: parseLooseValue_def Let_def split: if_splits option.splits)
  moreover have "json_parse (js_trim u) \<noteq> Some (JObj kvs)"
    using assms u by (auto simp: loose_stable_def split: if_splits)
  ultimately show ?thesis by (simp add: toValueText_def u)
next
  case False
  then have "toValueText (Some (parseLooseValue t)) = json_stringify (parseLooseValue t)"
    by (simp add: toValueText_def split: json.splits)
  moreover have "json_parse (js_trim t) = Some (parseLooseValue t)"
    using False by (auto simp: parseLooseValue_def Let_def split: option.splits if_splits)
  ultimately show ?thesis
    using compact.parse_print [OF parseLooseValue_ok [of t]] by (simp add: json_text_trim)
qed

section \<open>Validation\<close>

lemma if_Some_None: "(if P then Some x else y) = None \<longleftrightarrow> \<not> P \<and> y = None"
  by simp

lemma if_same_None: "(if P \<and> z \<noteq> None then z else y) = None \<longleftrightarrow> \<not> (P \<and> z \<noteq> None) \<and> y = None"
  by auto

lemma validate_return_error_line:
  "validate_return_error l op = None \<longleftrightarrow> validate_return_error l' op = None"
  by (simp add: validate_return_error_def Let_def split: option.split json.split)

lemma validate_operation_line:
  "validate_operation l op = None \<longleftrightarrow> validate_operation l' op = None"
  unfolding validate_operation_def Let_def if_Some_None if_same_None
  unfolding validate_return_error_line [of l op l'] ..

definition accepted :: "po_operation \<Rightarrow> bool" where
  "accepted op \<longleftrightarrow> validate_operation 1 op = None"

lemma accepted_line: "accepted op \<Longrightarrow> validate_operation l op = None"
  unfolding accepted_def by (subst validate_operation_line)

lemma if_Some_line: "(P \<Longrightarrow> snd x = l) \<Longrightarrow> (y = Some m \<Longrightarrow> snd m = l) \<Longrightarrow>
    (if P then Some x else y) = Some m \<Longrightarrow> snd m = l"
  by (auto split: if_splits)

lemma validate_return_error_Some_line: "validate_return_error l op = Some m \<Longrightarrow> snd m = l"
  by (auto simp: validate_return_error_def Let_def split: if_splits option.splits json.splits)

lemma validate_operation_Some_line: "validate_operation l op = Some m \<Longrightarrow> snd m = l"
  unfolding validate_operation_def Let_def
  by (elim if_Some_line [rotated 2]) (auto split: if_splits dest: validate_return_error_Some_line)

lemma validate_from_None: "validate_from i ops = None \<longleftrightarrow> (\<forall>op \<in> set ops. accepted op)"
proof (induction ops arbitrary: i)
  case (Cons op ops)
  have "validate_operation (Suc i) op = None \<longleftrightarrow> accepted op"
    unfolding accepted_def by (rule validate_operation_line)
  with Cons show ?case by (cases "validate_operation (Suc i) op") auto
qed simp

lemma validateOperations_None: "validateOperations ops = None \<longleftrightarrow> (\<forall>op \<in> set ops. accepted op)"
  by (simp add: validateOperations_def validate_from_None)

lemma validate_from_Some:
  "validate_from i ops = Some m \<Longrightarrow>
    \<exists>k < length ops. validate_operation (i + k + 1) (ops ! k) = Some m \<and> (\<forall>j < k. accepted (ops ! j))"
proof (induction ops arbitrary: i)
  case (Cons op ops)
  show ?case
  proof (cases "validate_operation (i + 1) op")
    case None
    then have "validate_from (i + 1) ops = Some m" using Cons.prems by simp
    from Cons.IH [OF this] obtain k where k: "k < length ops"
        "validate_operation (i + 1 + k + 1) (ops ! k) = Some m" "\<forall>j < k. accepted (ops ! j)" by blast
    have "accepted op" unfolding accepted_def using None validate_operation_line by blast
    then have "\<forall>j < Suc k. accepted ((op # ops) ! j)" using k(3) by (simp add: All_less_Suc2)
    with k show ?thesis by (intro exI [of _ "Suc k"]) simp
  next
    case (Some m')
    then show ?thesis using Cons.prems by (intro exI [of _ 0]) simp
  qed
qed simp

section \<open>What is saved\<close>

definition saved_conditions :: "po_operation \<Rightarrow> json list" where
  "saved_conditions op = List.map_filter buildConditionPayload (op_conditions op)"

definition saved_mode :: "po_operation \<Rightarrow> string" where
  "saved_mode op = or_str (op_mode op) ''set''"

lemma mode_meta_alias: "meta_pathAlias (mode_meta_of m) \<longleftrightarrow> m \<in> {''copy_header'', ''move_header''}"
  by (simp add: mode_meta_of_def MODE_META_def no_meta_def split: option.split)

lemma mode_meta_alias_fields:
  "meta_pathAlias (mode_meta_of m) \<Longrightarrow> \<not> meta_path (mode_meta_of m) \<and> \<not> meta_pathOptional (mode_meta_of m)
    \<and> meta_from (mode_meta_of m) \<and> meta_to (mode_meta_of m) = Some True"
  by (auto simp: mode_meta_alias) (simp_all add: mode_meta_of_def MODE_META_def no_meta_def)

text \<open>The value of every key of a saved operation. Under a mode with an alias, an empty source or
  target is replaced by the path.\<close>

definition aliased :: "po_operation \<Rightarrow> string \<Rightarrow> string" where
  "aliased op v = (if meta_pathAlias (mode_meta_of (saved_mode op)) then or_str (js_trim v) (js_trim (op_path op))
     else js_trim v)"

lemma js_truthy_simps [simp]: "js_truthy None = False" "js_truthy (Some v) = json_truthy v"
  by (simp_all add: js_truthy_def)

lemma obj_get_Cons: "obj_get k ((k', v) # kvs) = (if k = k' then Some v else obj_get k kvs)"
  by (simp add: obj_get_def)

lemma payload_gets:
  "obj_get ''mode'' (operation_payload op) = Some (JStr (saved_mode op))"
  "obj_get ''description'' (operation_payload op) =
     (if js_trim (op_description op) \<noteq> [] then Some (JStr (js_trim (op_description op))) else None)"
  "obj_get ''path'' (operation_payload op) =
     (if meta_path (mode_meta_of (saved_mode op))
         \<or> meta_pathOptional (mode_meta_of (saved_mode op)) \<and> js_trim (op_path op) \<noteq> []
      then Some (JStr (js_trim (op_path op))) else None)"
  "obj_get ''value'' (operation_payload op) =
     (if meta_value (mode_meta_of (saved_mode op)) then Some (parseLooseValue (op_value_text op)) else None)"
  "obj_get ''keep_origin'' (operation_payload op) =
     (if meta_keepOrigin (mode_meta_of (saved_mode op)) \<and> op_keep_origin op then Some (JBool True) else None)"
  "obj_get ''conditions'' (operation_payload op) =
     (if saved_conditions op \<noteq> [] then Some (JArr (saved_conditions op)) else None)"
  "obj_get ''logic'' (operation_payload op) =
     (if saved_conditions op \<noteq> [] then Some (JStr (if op_logic op = ''AND'' then ''AND'' else ''OR'')) else None)"
  unfolding operation_payload_def Let_def saved_mode_def [symmetric] saved_conditions_def [symmetric]
  by (simp_all add: obj_get_put_if obj_get_Cons)

lemma payload_from:
  "obj_get ''from'' (operation_payload op) =
     (if meta_from (mode_meta_of (saved_mode op)) then Some (JStr (aliased op (op_from op))) else None)"
  using mode_meta_alias_fields [of "saved_mode op"]
  unfolding operation_payload_def Let_def saved_mode_def [symmetric]
  by (auto simp: obj_get_put_if aliased_def or_str_def obj_get_Cons)

lemma payload_to:
  "obj_get ''to'' (operation_payload op) =
     (if meta_to (mode_meta_of (saved_mode op)) = Some True \<or> js_trim (op_to op) \<noteq> []
      then Some (JStr (aliased op (op_to op))) else None)"
  using mode_meta_alias_fields [of "saved_mode op"]
  unfolding operation_payload_def Let_def saved_mode_def [symmetric]
  by (auto simp: obj_get_put_if aliased_def or_str_def obj_get_Cons)

lemma obj_set_ok_Nil: "obj_ok [(k, v)]"
  by (simp add: obj_ok_def)

lemma payload_obj_ok: "obj_ok (operation_payload op)"
  unfolding operation_payload_def Let_def by (intro obj_ok_put_if obj_set_ok_Nil)

lemma put_if_values: "p \<in> set (put_if b k v kvs) \<Longrightarrow> p \<in> set kvs \<or> p = (k, v)"
  by (auto simp: put_if_def dest: obj_set_values split: if_splits)

lemma put_if_all:
  "\<forall>p \<in> set kvs. json_ok (snd p) \<Longrightarrow> json_ok v \<Longrightarrow> \<forall>p \<in> set (put_if b k v kvs). json_ok (snd p)"
  by (auto dest: put_if_values)

lemma condition_base_ok: "obj_ok [(''path'', a), (''mode'', b), (''value'', c)]"
  by (simp add: obj_ok_def key_before_def array_index_def is_digit_def)

lemma buildConditionPayload_ok: "buildConditionPayload c = Some v \<Longrightarrow> json_ok v"
  by (auto simp: buildConditionPayload_def Let_def parseLooseValue_ok condition_base_ok
      intro!: obj_ok_put_if dest!: put_if_values split: if_splits)

lemma map_filter_all: "(\<And>x y. x \<in> set xs \<Longrightarrow> f x = Some y \<Longrightarrow> P y) \<Longrightarrow> \<forall>y \<in> set (List.map_filter f xs). P y"
  by (auto simp: List.map_filter_def)

lemma payload_json_ok: "json_ok (JObj (operation_payload op))"
proof -
  have "\<forall>v \<in> set (List.map_filter buildConditionPayload (op_conditions op)). json_ok v"
    by (rule map_filter_all) (rule buildConditionPayload_ok)
  then have "\<forall>p \<in> set (operation_payload op). json_ok (snd p)"
    unfolding operation_payload_def Let_def by (intro put_if_all) (auto simp: parseLooseValue_ok)
  then show ?thesis by (simp add: payload_obj_ok)
qed

definition override_json :: "po_operation list \<Rightarrow> json" where
  "override_json ops = JObj [(''operations'', JArr (map (\<lambda>op. JObj (operation_payload op)) ops))]"

lemma override_json_ok: "json_ok (override_json ops)"
  using payload_json_ok by (simp add: override_json_def obj_ok_def)

lemma buildOperationsJson_cases:
  "buildOperationsJson ops True =
    (let kept = filter (\<lambda>x. \<not> isOperationBlank x) ops
     in if kept = [] then Inr []
        else (case validateOperations kept of Some m \<Rightarrow> Inl m | None \<Rightarrow> Inr (json_pretty (override_json kept))))"
  by (simp add: buildOperationsJson_def override_json_def Let_def split: option.split)

section \<open>Saving what was loaded\<close>

text \<open>The operations for which loading what was saved loses nothing that is saved again.\<close>

definition savable :: "po_operation \<Rightarrow> bool" where
  "savable op \<longleftrightarrow> op_modes_ok op \<and> loose_stable (op_value_text op)
     \<and> (\<forall>c \<in> set (op_conditions op). loose_stable (cond_value_text c))"

lemma reload_condition:
  assumes v: "buildConditionPayload c = Some v" and ok: "cond_modes_ok c" "loose_stable (cond_value_text c)"
    and n: "normalizeCondition clk n v = Some (c', n')"
  shows "buildConditionPayload c' = Some v"
proof -
  let ?base = "[(''path'', JStr (js_trim (cond_path c))), (''mode'', JStr (or_str (cond_mode c) ''full'')),
    (''value'', parseLooseValue (cond_value_text c))]"
  have p: "js_trim (cond_path c) \<noteq> []" and v': "v = JObj (put_if (cond_pass_missing_key c) ''pass_missing_key'' (JBool True)
      (put_if (cond_invert c) ''invert'' (JBool True) ?base))"
    using v by (auto simp: buildConditionPayload_def Let_def split: if_splits)
  have m: "or_str (cond_mode c) ''full'' = cond_mode c" "cond_mode c \<noteq> []"
    using ok(1) by (auto simp: cond_modes_ok_def CONDITION_MODE_VALUES_def CONDITION_MODE_OPTIONS_def or_str_def)
  have "c' = \<lparr>cond_id = nextLocalId clk n, cond_path = js_trim (cond_path c), cond_mode = cond_mode c,
      cond_value_text = toValueText (Some (parseLooseValue (cond_value_text c))),
      cond_invert = cond_invert c, cond_pass_missing_key = cond_pass_missing_key c\<rparr>"
    using n ok(1) by (auto simp: v' normalizeCondition_def js_prop_def obj_get_put_if obj_get_Cons m mode_or_def
        string_or_empty_def cond_modes_ok_def split: if_splits)
  then show ?thesis using p ok(2) by (simp add: buildConditionPayload_def Let_def loose_text v' m or_str_def)
qed

lemma map_filter_rel: "list_all2 (\<lambda>x y. f y = Some x) xs ys \<Longrightarrow> List.map_filter f ys = xs"
  by (induction rule: list_all2_induct) (simp_all add: List.map_filter_simps)

lemma reload_conditions:
  assumes "savable op" and "map_ids (normalizeCondition clk) n (saved_conditions op) = Some (cs, n')"
  shows "List.map_filter buildConditionPayload cs = saved_conditions op"
proof (rule map_filter_rel, rule map_ids_rel [OF assms(2)])
  fix k x y k'
  assume n: "normalizeCondition clk k x = Some (y, k')" and x: "x \<in> set (saved_conditions op)"
  from x obtain c where "c \<in> set (op_conditions op)" "buildConditionPayload c = Some x"
    by (auto simp: saved_conditions_def List.map_filter_def)
  with n assms(1) show "buildConditionPayload y = Some x"
    by (auto simp: savable_def op_modes_ok_def intro: reload_condition)
qed

lemma saved_mode_ok: "op_modes_ok op \<Longrightarrow> saved_mode op = op_mode op"
  by (auto simp: op_modes_ok_def saved_mode_def or_str_def OPERATION_MODE_VALUES_def OPERATION_MODE_OPTIONS_def)

lemma conditions_of_payload: "conditions_of (JObj (operation_payload op)) = saved_conditions op"
  by (simp add: conditions_of_def js_prop_def payload_gets)

lemma normalizeOperation_fields:
  assumes "normalizeOperation clk n v = Some (op, n')"
  shows "op_description op = string_or_empty (js_prop v ''description'')"
    and "op_path op = string_or_empty (js_prop v ''path'')"
    and "op_mode op = mode_or OPERATION_MODE_VALUES ''set'' (js_prop v ''mode'')"
    and "op_from op = string_or_empty (js_prop v ''from'')"
    and "op_to op = string_or_empty (js_prop v ''to'')"
    and "op_value_text op = toValueText (js_prop v ''value'')"
    and "op_keep_origin op \<longleftrightarrow> is_true (js_prop v ''keep_origin'')"
    and "op_logic op = (if js_upper (js_to_string (js_or (js_prop v ''logic'') (Some (JStr ''OR'')))) = ''AND''
      then ''AND'' else ''OR'')"
  using assms by (simp_all add: normalizeOperation_def Let_def split: if_split_asm) (elim exE conjE, hypsubst, simp)+

text \<open>The fields of an operation that was loaded from what another was saved as.\<close>

lemma reload_fields:
  assumes n: "normalizeOperation clk n (JObj (operation_payload op)) = Some (op', n')" and ok: "op_modes_ok op"
    and m: "meta = mode_meta_of (op_mode op)"
  shows "op_mode op' = op_mode op"
    and "op_description op' = js_trim (op_description op)"
    and "op_path op' = (if meta_path meta \<or> meta_pathOptional meta then js_trim (op_path op) else [])"
    and "op_value_text op' = (if meta_value meta then toValueText (Some (parseLooseValue (op_value_text op))) else [])"
    and "op_keep_origin op' \<longleftrightarrow> meta_keepOrigin meta \<and> op_keep_origin op"
    and "op_from op' = (if meta_from meta then aliased op (op_from op) else [])"
    and "op_to op' = (if meta_to meta = Some True then aliased op (op_to op) else js_trim (op_to op))"
    and "saved_conditions op \<noteq> [] \<Longrightarrow> op_logic op' = op_logic op"
    and "map_ids (normalizeCondition clk) (Suc n) (saved_conditions op) = Some (op_conditions op', n')"
proof -
  have mode: "mode_or OPERATION_MODE_VALUES ''set'' (Some (JStr (op_mode op))) = op_mode op"
    using ok by (simp add: mode_or_def op_modes_ok_def)
  have logic: "op_logic op = ''AND'' \<or> op_logic op = ''OR''" using ok by (simp add: op_modes_ok_def)
  have no_alias: "meta_to meta \<noteq> Some True \<Longrightarrow> \<not> meta_pathAlias meta"
    using mode_meta_alias_fields [of "op_mode op"] by (auto simp: m)
  note f = normalizeOperation_fields [OF n, unfolded js_prop_def json.case]
    payload_gets payload_from payload_to saved_mode_ok [OF ok] m [symmetric] string_or_empty_def
  show "map_ids (normalizeCondition clk) (Suc n) (saved_conditions op) = Some (op_conditions op', n')"
    using normalizeOperation_Some [OF n] by (simp add: conditions_of_payload)
  show "op_mode op' = op_mode op" by (simp add: f mode)
  show "op_description op' = js_trim (op_description op)" by (simp add: f)
  show "op_path op' = (if meta_path meta \<or> meta_pathOptional meta then js_trim (op_path op) else [])"
    by (simp add: f)
  show "op_value_text op' = (if meta_value meta then toValueText (Some (parseLooseValue (op_value_text op))) else [])"
    by (simp add: f toValueText_def)
  show "op_keep_origin op' \<longleftrightarrow> meta_keepOrigin meta \<and> op_keep_origin op" by (simp add: f)
  show "op_from op' = (if meta_from meta then aliased op (op_from op) else [])" by (simp add: f)
  show "op_to op' = (if meta_to meta = Some True then aliased op (op_to op) else js_trim (op_to op))"
    using no_alias by (simp add: f aliased_def)
  assume "saved_conditions op \<noteq> []"
  then show "op_logic op' = op_logic op"
    using logic by (auto simp: f js_or_def js_to_string_def char_upper_def lower_letters_def upper_letters_def)
qed

lemma put_if_cong:
  "b = b' \<Longrightarrow> (b' \<Longrightarrow> v = v') \<Longrightarrow> kvs = kvs' \<Longrightarrow> put_if b k v kvs = put_if b' k v' kvs'"
  by (simp add: put_if_def)

lemma put_if_False [simp]: "put_if False k v kvs = kvs"
  by (simp add: put_if_def)

lemma put_if_True [simp]: "put_if True k v kvs = obj_set k v kvs"
  by (simp add: put_if_def)

lemma array_index_keys [simp]: "array_index (CHR ''f'' # s) = None" "array_index (CHR ''t'' # s) = None"
  "array_index (CHR ''k'' # s) = None" "array_index (CHR ''d'' # s) = None" "array_index (CHR ''m'' # s) = None"
  by (simp_all add: array_index_def is_digit_def)

lemma reload_payload:
  assumes ok: "savable op" and n: "normalizeOperation clk n (JObj (operation_payload op)) = Some (op', n')"
  shows "operation_payload op' = operation_payload op"
proof -
  have m: "op_modes_ok op" using ok by (simp add: savable_def)
  define meta where "meta = mode_meta_of (op_mode op)"
  note f = reload_fields [OF n m meta_def]
  have c: "saved_conditions op' = saved_conditions op"
    unfolding saved_conditions_def [of op'] by (rule reload_conditions [OF ok f(9)])
  have sm: "or_str (op_mode op) ''set'' = op_mode op" using saved_mode_ok [OF m] by (simp add: saved_mode_def)
  have logic: "saved_conditions op \<noteq> [] \<Longrightarrow> op_logic op' = op_logic op" by (rule f(8))
  have v: "parseLooseValue (toValueText (Some (parseLooseValue (op_value_text op)))) = parseLooseValue (op_value_text op)"
    using ok by (intro loose_text) (simp add: savable_def)
  note unf = operation_payload_def [unfolded Let_def] f(1) sm meta_def [symmetric] saved_conditions_def [symmetric] c
  show ?thesis
  proof (cases "meta_pathAlias meta")
    case False
    then have al: "aliased op s = js_trim s" for s
      by (simp add: aliased_def saved_mode_ok [OF m] meta_def)
    have "(meta_pathAlias meta \<and> P) = False" for P using False by simp
    then show ?thesis unfolding unf put_if_False
      by (intro put_if_cong) (auto simp: f(2-7) al v logic)
  next
    case True
    note mm = mode_meta_alias_fields [of "op_mode op", folded meta_def, OF True]
    have al: "aliased op s = or_str (js_trim s) (js_trim (op_path op))" for s
      using True by (simp add: aliased_def saved_mode_ok [OF m] meta_def)
    have mv: "\<not> meta_value meta"
      using True by (auto simp: meta_def mode_meta_alias) (simp_all add: mode_meta_of_def MODE_META_def no_meta_def)
    define base where "base = put_if (meta_keepOrigin meta \<and> op_keep_origin op) ''keep_origin'' (JBool True)
      (put_if (js_trim (op_description op) \<noteq> []) ''description'' (JStr (js_trim (op_description op)))
        [(''mode'', JStr (op_mode op))])"
    have b: "obj_get ''from'' base = None" "obj_get ''to'' base = None"
      by (simp_all add: base_def obj_get_put_if obj_get_Cons)
    then have s: "obj_set ''from'' x base = base @ [(''from'', x)]"
      "obj_set ''to'' y (base @ [(''from'', x)]) = base @ [(''from'', x), (''to'', y)]"
      "obj_set ''from'' z (base @ [(''from'', x), (''to'', y)]) = base @ [(''from'', z), (''to'', y)]"
      "obj_set ''to'' z (base @ [(''from'', x), (''to'', y)]) = base @ [(''from'', x), (''to'', z)]" for x y z
      by (auto simp: obj_set_def obj_get_def map_of_eq_None_iff rev_image_eqI intro!: map_idI)
    have g: "obj_get ''from'' (base @ [(''from'', x), (''to'', y)]) = Some x"
       "obj_get ''to'' (base @ [(''from'', x), (''to'', y)]) = Some y" for x y
      using b by (simp_all add: obj_get_def map_add_def)
    have k: "op_keep_origin op' \<longleftrightarrow> meta_keepOrigin meta \<and> op_keep_origin op" by (rule f(5))
    have base': "put_if (meta_keepOrigin meta \<and> op_keep_origin op') ''keep_origin'' (JBool True)
      (put_if (js_trim (op_description op) \<noteq> []) ''description'' (JStr (js_trim (op_description op)))
        [(''mode'', JStr (op_mode op))]) = base"
      unfolding base_def by (intro put_if_cong) (auto simp: k)
    have "operation_payload op = (let fr = JStr (aliased op (op_from op)); dest = JStr (aliased op (op_to op));
        p = base @ [(''from'', fr), (''to'', dest)]
      in put_if (saved_conditions op \<noteq> []) ''logic'' (JStr (if op_logic op = ''AND'' then ''AND'' else ''OR''))
         (put_if (saved_conditions op \<noteq> []) ''conditions'' (JArr (saved_conditions op)) p))"
      unfolding unf
      by (cases "js_trim (op_from op) = []"; cases "js_trim (op_to op) = []"; cases "js_trim (op_path op) = []")
        (simp_all add: True mm mv base_def [symmetric] al or_str_def s g)
    moreover have "operation_payload op' = (let fr = JStr (aliased op (op_from op)); dest = JStr (aliased op (op_to op));
        p = base @ [(''from'', fr), (''to'', dest)]
      in put_if (saved_conditions op \<noteq> []) ''logic'' (JStr (if op_logic op' = ''AND'' then ''AND'' else ''OR''))
         (put_if (saved_conditions op \<noteq> []) ''conditions'' (JArr (saved_conditions op)) p))"
      unfolding unf
      by (cases "js_trim (op_from op) = []"; cases "js_trim (op_to op) = []"; cases "js_trim (op_path op) = []")
        (simp_all add: True mm mv base' al or_str_def s g f(2,3,6,7))
    ultimately show ?thesis using logic by (cases "saved_conditions op = []") (simp_all add: put_if_def)
  qed
qed

lemma mode_meta_required:
  "m \<in> set FROM_REQUIRED_MODES \<Longrightarrow> meta_from (mode_meta_of m)"
  "m \<in> set TO_REQUIRED_MODES \<Longrightarrow> meta_to (mode_meta_of m) = Some True"
  "m \<in> set VALUE_REQUIRED_MODES \<Longrightarrow> meta_value (mode_meta_of m)"
  "meta_path (mode_meta_of ''set'')"
  by (auto simp: FROM_REQUIRED_MODES_def TO_REQUIRED_MODES_def VALUE_REQUIRED_MODES_def)
    (simp_all add: mode_meta_of_def MODE_META_def no_meta_def)

text \<open>What acceptance means, requirement by requirement.\<close>

lemma accepted_iff:
  "accepted op \<longleftrightarrow>
     (let mode = saved_mode op; meta = mode_meta_of mode; t = js_trim (op_value_text op)
      in (meta_path meta \<longrightarrow> js_trim (op_path op) \<noteq> []) \<and>
         (mode \<in> set FROM_REQUIRED_MODES \<longrightarrow> aliased op (op_from op) \<noteq> []) \<and>
         (mode \<in> set TO_REQUIRED_MODES \<longrightarrow> aliased op (op_to op) \<noteq> []) \<and>
         (mode \<in> set VALUE_REQUIRED_MODES \<longrightarrow> t \<noteq> []) \<and>
         (mode = ''return_error'' \<longrightarrow> (\<forall>kvs. json_parse t = Some (JObj kvs) \<longrightarrow>
            js_trim (js_to_string (js_or (obj_get ''message'' kvs) (Some (JStr [])))) \<noteq> [])) \<and>
         (mode = ''pass_headers'' \<longrightarrow> parsePassHeaderNames (parseLooseValue t) \<noteq> []))"
proof -
  have re: "validate_return_error 1 op = None \<longleftrightarrow> js_trim (op_value_text op) \<noteq> [] \<and>
      (\<forall>kvs. json_parse (js_trim (op_value_text op)) = Some (JObj kvs) \<longrightarrow>
         js_trim (js_to_string (js_or (obj_get ''message'' kvs) (Some (JStr [])))) \<noteq> [])"
    by (auto simp: validate_return_error_def Let_def split: option.split json.split)
  have vr: "saved_mode op = ''return_error'' \<longrightarrow> saved_mode op \<in> set VALUE_REQUIRED_MODES"
    "saved_mode op = ''prune_objects'' \<longrightarrow> saved_mode op \<in> set VALUE_REQUIRED_MODES"
    "saved_mode op = ''pass_headers'' \<longrightarrow> saved_mode op \<in> set VALUE_REQUIRED_MODES"
    by (simp_all add: VALUE_REQUIRED_MODES_def)
  have al: "js_trim v = [] \<and> \<not> (meta_pathAlias (mode_meta_of (saved_mode op)) \<and> js_trim (op_path op) \<noteq> [])
      \<longleftrightarrow> aliased op v = []" for v
    by (simp add: aliased_def or_str_def)
  show ?thesis
    unfolding accepted_def validate_operation_def Let_def if_Some_None if_same_None saved_mode_def [symmetric] al
    unfolding re using vr by blast
qed

lemma aliased_nonempty: "js_trim v \<noteq> [] \<Longrightarrow> aliased op v \<noteq> []"
  by (simp add: aliased_def or_str_def)

lemma reload_accepted:
  assumes ok: "savable op" and n: "normalizeOperation clk n (JObj (operation_payload op)) = Some (op', n')"
    and acc: "accepted op"
  shows "accepted op' \<and> \<not> isOperationBlank op'"
proof -
  have m: "op_modes_ok op" and stable: "loose_stable (op_value_text op)" using ok by (simp_all add: savable_def)
  define meta where "meta = mode_meta_of (op_mode op)"
  note f = reload_fields [OF n m meta_def]
  have sm: "saved_mode op = op_mode op" "saved_mode op' = op_mode op"
    using saved_mode_ok [OF m] saved_mode_ok [OF normalizeOperation_modes [OF n]] f(1) by simp_all
  have acc': "meta_path meta \<longrightarrow> js_trim (op_path op) \<noteq> []"
    "op_mode op \<in> set FROM_REQUIRED_MODES \<longrightarrow> aliased op (op_from op) \<noteq> []"
    "op_mode op \<in> set TO_REQUIRED_MODES \<longrightarrow> aliased op (op_to op) \<noteq> []"
    "op_mode op \<in> set VALUE_REQUIRED_MODES \<longrightarrow> js_trim (op_value_text op) \<noteq> []"
    "op_mode op = ''return_error'' \<longrightarrow> (\<forall>kvs. json_parse (js_trim (op_value_text op)) = Some (JObj kvs) \<longrightarrow>
            js_trim (js_to_string (js_or (obj_get ''message'' kvs) (Some (JStr [])))) \<noteq> [])"
    "op_mode op = ''pass_headers'' \<longrightarrow> parsePassHeaderNames (parseLooseValue (op_value_text op)) \<noteq> []"
    using acc by (simp_all add: accepted_iff Let_def sm meta_def)
  have tr: "js_trim (aliased op s) = aliased op s" for s by (simp add: aliased_def or_str_def)
  have val: "meta_value meta \<Longrightarrow> op_value_text op' = toValueText (Some (parseLooseValue (op_value_text op)))"
    by (simp add: f(4))
  have mv: "op_mode op = ''return_error'' \<Longrightarrow> meta_value meta" "op_mode op = ''pass_headers'' \<Longrightarrow> meta_value meta"
    by (simp_all add: meta_def mode_meta_of_def MODE_META_def no_meta_def)
  have p: "meta_path meta \<Longrightarrow> js_trim (op_path op') \<noteq> []" using acc'(1) by (simp add: f(3))
  have "accepted op'"
    unfolding accepted_iff Let_def sm meta_def [symmetric]
  proof (intro conjI impI allI)
    assume "op_mode op \<in> set FROM_REQUIRED_MODES"
    then show "aliased op' (op_from op') \<noteq> []"
      using acc'(2) mode_meta_required(1) by (intro aliased_nonempty) (simp add: f(6) meta_def tr)
  next
    assume "op_mode op \<in> set TO_REQUIRED_MODES"
    then show "aliased op' (op_to op') \<noteq> []"
      using acc'(3) mode_meta_required(2) by (intro aliased_nonempty) (simp add: f(7) meta_def tr)
  next
    assume "op_mode op \<in> set VALUE_REQUIRED_MODES"
    with acc'(4) mode_meta_required(3) show "js_trim (op_value_text op') \<noteq> []"
      using loose_text_nonempty [OF stable] by (simp add: val meta_def)
  next
    fix kvs
    assume r: "op_mode op = ''return_error''" "json_parse (js_trim (op_value_text op')) = Some (JObj kvs)"
    then have "json_parse (js_trim (op_value_text op)) = Some (JObj kvs)"
      using loose_text_object [OF stable] mv(1) by (simp add: val)
    with acc'(5) r(1) show "js_trim (js_to_string (js_or (obj_get ''message'' kvs) (Some (JStr [])))) \<noteq> []" by simp
  next
    assume "op_mode op = ''pass_headers''"
    with acc'(6) mv(2) show "parsePassHeaderNames (parseLooseValue (js_trim (op_value_text op'))) \<noteq> []"
      using loose_text [OF stable] by (simp add: val)
  qed (use p in blast)
  moreover have "\<not> isOperationBlank op'"
  proof (cases "op_mode op = ''set''")
    case True
    then have "meta_path meta" using mode_meta_required(4) by (simp add: meta_def)
    then show ?thesis using p by (simp add: isOperationBlank_def Let_def)
  qed (simp add: isOperationBlank_def Let_def f(1))
  ultimately show ?thesis ..
qed

lemma not_blank_payloads:
  assumes "map_ids (normalizeOperation clk) n (map (\<lambda>op. JObj (operation_payload op)) ops) = Some (ops', n')"
    and "\<forall>op \<in> set ops. savable op \<and> accepted op"
  shows "list_all2 (\<lambda>op op'. operation_payload op' = operation_payload op \<and> accepted op' \<and> \<not> isOperationBlank op') ops ops'"
proof -
  have "list_all2 (\<lambda>v op'. \<forall>op \<in> set ops. v = JObj (operation_payload op) \<longrightarrow>
      operation_payload op' = operation_payload op \<and> accepted op' \<and> \<not> isOperationBlank op')
    (map (\<lambda>op. JObj (operation_payload op)) ops) ops'"
    by (rule map_ids_rel [OF assms(1)]) (use assms(2) reload_payload reload_accepted in blast)
  then show ?thesis using nth_mem by (fastforce simp: list_all2_conv_all_nth)
qed

lemma saved_can_load: "\<not> cannot_load (JObj (operation_payload op))"
proof -
  have "\<forall>v \<in> set (saved_conditions op). v \<noteq> JNull"
    unfolding saved_conditions_def
    by (rule map_filter_all) (auto simp: buildConditionPayload_def Let_def split: if_splits)
  then show ?thesis by (auto simp: cannot_load_def conditions_of_payload js_prop_def payload_gets)
qed

text \<open>Loading a saved text.\<close>

lemma parseInitialState_saved:
  assumes "ops \<noteq> []"
  shows "parseInitialState clk n (json_pretty (override_json ops)) =
    map_option (\<lambda>(ops', n'). (\<lparr>init_editMode = VisualEdit, init_visualMode = OperationsMode,
        init_legacyValue = [], init_operations = ops',
        init_jsonText = json_pretty (override_json ops), init_jsonError = []\<rparr>, n'))
      (map_ids (normalizeOperation clk) n (map (\<lambda>op. JObj (operation_payload op)) ops))"
proof -
  have "js_trim (json_pretty (override_json ops)) = json_pretty (override_json ops)"
    by (simp add: json_text_trim)
  moreover have "json_parse (json_pretty (override_json ops)) = Some (override_json ops)"
    by (rule pretty.parse_print [OF override_json_ok])
  ultimately show ?thesis
    using pretty.print_not_empty [OF override_json_ok [of ops]] assms
    by (simp add: parseInitialState_def Let_def override_json_def obj_get_Cons operations_or_default_def)
qed

text \<open>The heart of every round trip through a saved text: the operations that are read from it
  are saved as the same text.\<close>

lemma saved_reload:
  assumes "\<forall>op \<in> set ops. savable op"
    and "buildOperationsJson ops True = Inr txt" and "txt \<noteq> []"
  obtains kept ops' n' where "kept \<noteq> []" and "txt = json_pretty (override_json kept)"
    and "map_ids (normalizeOperation clk) n (map (\<lambda>op. JObj (operation_payload op)) kept) = Some (ops', n')"
    and "buildOperationsJson ops' True = Inr txt"
proof -
  define kept where "kept = filter (\<lambda>x. \<not> isOperationBlank x) ops"
  have ne: "kept \<noteq> []" and v: "validateOperations kept = None" and tx: "txt = json_pretty (override_json kept)"
    using assms(2,3) by (auto simp: buildOperationsJson_cases kept_def [symmetric] Let_def
        split: if_splits option.splits)
  have ok: "\<forall>op \<in> set kept. savable op \<and> accepted op"
    using assms(1) v by (auto simp: validateOperations_None kept_def)
  have "map_ids (normalizeOperation clk) n (map (\<lambda>op. JObj (operation_payload op)) kept) \<noteq> None"
    by (simp add: map_ids_None [of "normalizeOperation clk" cannot_load, OF normalizeOperation_None] saved_can_load)
  then obtain ops' n' where
    l: "map_ids (normalizeOperation clk) n (map (\<lambda>op. JObj (operation_payload op)) kept) = Some (ops', n')"
    by auto
  have r: "list_all2 (\<lambda>op op'. operation_payload op' = operation_payload op \<and> accepted op' \<and> \<not> isOperationBlank op') kept ops'"
    by (rule not_blank_payloads [OF l ok])
  then have "filter (\<lambda>x. \<not> isOperationBlank x) ops' = ops'" and "\<forall>op \<in> set ops'. accepted op"
    and "override_json ops' = override_json kept" and "ops' \<noteq> []"
    using ne by (auto simp: list_all2_conv_all_nth in_set_conv_nth override_json_def filter_id_conv
        intro: nth_equalityI)
  then have "buildOperationsJson ops' True = Inr txt"
    by (simp add: buildOperationsJson_cases validateOperations_None [THEN iffD2] tx)
  with ne tx l show thesis by (rule that)
qed

text \<open>
  C1: saving is stable. When the visual editor accepts a list of operations whose modes are
  offered ones and whose value texts are read back as they are shown (no JSON value between quotes and
  no string with blanks at its ends; quoted_text_changes below shows what happens to one), and the saved text is not
  empty, then opening that text shows the visual editor without an error, and saving again, with
  nothing changed, is accepted and gives the same text.
\<close>

theorem save_reopen_save:
  assumes "\<forall>op \<in> set ops. savable op"
    and "buildOperationsJson ops True = Inr txt" and "txt \<noteq> []"
  shows "\<exists>ops' n'. parseInitialState clk n txt =
      Some (\<lparr>init_editMode = VisualEdit, init_visualMode = OperationsMode, init_legacyValue = [],
        init_operations = ops', init_jsonText = txt, init_jsonError = []\<rparr>, n')
    \<and> buildOperationsJson ops' True = Inr txt"
  using saved_reload [OF assms, of clk n] parseInitialState_saved by (metis (no_types, lifting) case_prod_conv option.map(2))

definition sample_operation :: po_operation where
  "sample_operation = \<lparr>op_id = ''po_1_0'', op_description = '' warm '', op_path = '' temperature '',
     op_mode = ''set'', op_from = [], op_to = [], op_value_text = ''0.7'', op_keep_origin = True,
     op_logic = ''AND'',
     op_conditions = [\<lparr>cond_id = ''po_1_1'', cond_path = ''model'', cond_mode = ''prefix'',
       cond_value_text = ''gpt'', cond_invert = True, cond_pass_missing_key = False\<rparr>]\<rparr>"

lemma sample_built:
  "buildOperationsJson [sample_operation] True = Inr (json_pretty (override_json [sample_operation]))"
  "json_pretty (override_json [sample_operation]) \<noteq> []"
proof -
  have "validateOperations [sample_operation] = None" "\<not> isOperationBlank sample_operation" by code_simp+
  then show "buildOperationsJson [sample_operation] True = Inr (json_pretty (override_json [sample_operation]))"
    by (simp add: buildOperationsJson_cases)
qed (rule pretty.print_not_empty [OF override_json_ok])

lemma save_reopen_save_witness:
  "\<exists>txt. buildOperationsJson [sample_operation] True = Inr txt \<and>
    (\<exists>ops' n'. parseInitialState (\<lambda>_. 7) 0 txt =
      Some (\<lparr>init_editMode = VisualEdit, init_visualMode = OperationsMode, init_legacyValue = [],
        init_operations = ops', init_jsonText = txt, init_jsonError = []\<rparr>, n')
    \<and> buildOperationsJson ops' True = Inr txt)"
proof -
  have s: "\<forall>op \<in> set [sample_operation]. savable op" by code_simp
  from save_reopen_save [OF s sample_built] sample_built show ?thesis by blast
qed

text \<open>
  A value text that is the text of a JSON value between quotes is saved as that string; the opened
  editor shows it without its quotes, and the next save, with nothing changed, sends the JSON value in
  its place: from a text with quotes around 123, first the string and then the number.
\<close>

theorem quoted_text_changes:
  assumes "json_ok w" and "\<forall>s. w \<noteq> JStr s"
    and "op_modes_ok op" and "meta_value (mode_meta_of (op_mode op))"
    and "op_value_text op = json_stringify (JStr (json_stringify w))"
    and "normalizeOperation clk n (JObj (operation_payload op)) = Some (op', n')"
  shows "obj_get ''value'' (operation_payload op) = Some (JStr (json_stringify w))"
    and "op_value_text op' = json_stringify w"
    and "obj_get ''value'' (operation_payload op') = Some w"
proof -
  have p: "parseLooseValue (json_stringify v) = v" if "json_ok v" for v
    using compact.parse_trim_print [OF that] compact.print_not_empty [OF that] json_text_trim
    by (simp add: parseLooseValue_def)
  have q: "parseLooseValue (op_value_text op) = JStr (json_stringify w)"
    unfolding assms(5) by (rule p) simp
  have m: "saved_mode op = op_mode op" by (rule saved_mode_ok [OF assms(3)])
  have m': "saved_mode op' = op_mode op"
    using reload_fields(1) [OF assms(6,3) refl] saved_mode_ok [OF normalizeOperation_modes [OF assms(6)]] by simp
  show "obj_get ''value'' (operation_payload op) = Some (JStr (json_stringify w))"
    by (simp only: payload_gets m assms(4) q if_True)
  show v: "op_value_text op' = json_stringify w"
    using reload_fields(4) [OF assms(6,3) refl] by (simp add: assms(4) q toValueText_def)
  show "obj_get ''value'' (operation_payload op') = Some w"
    by (simp only: payload_gets m' assms(4) v p [OF assms(1)] if_True)
qed

lemma quoted_text_changes_witness:
  "\<exists>op' n'. normalizeOperation (\<lambda>_. 7) 0 (JObj (operation_payload
      (sample_operation\<lparr>op_value_text := json_stringify (JStr (json_stringify (JNum (int_dec 123))))\<rparr>))) = Some (op', n') \<and>
    obj_get ''value'' (operation_payload op') = Some (JNum (int_dec 123))"
proof -
  let ?op = "sample_operation\<lparr>op_value_text := json_stringify (JStr (json_stringify (JNum (int_dec 123))))\<rparr>"
  have w: "json_ok (JNum (int_dec 123))" "\<forall>s. JNum (int_dec 123) \<noteq> JStr s" by (simp_all add: json_ok.simps)
  have m: "op_modes_ok ?op" "meta_value (mode_meta_of (op_mode ?op))" by code_simp+
  obtain op' n' where l: "normalizeOperation (\<lambda>_. 7) 0 (JObj (operation_payload ?op)) = Some (op', n')"
    using saved_can_load [of ?op] normalizeOperation_None [of "\<lambda>_. 7" 0 "JObj (operation_payload ?op)"] by auto
  have v: "op_value_text ?op = json_stringify (JStr (json_stringify (JNum (int_dec 123))))" by simp
  from quoted_text_changes(3) [OF w m v l] l show ?thesis by blast
qed

end
