(* ===== verification/ParamDrafts.thy ===== *)
theory ParamDrafts
  imports ParamOverrideFacts
begin

text \<open>
  The structured value editors of the parameter override dialog write their draft into the value
  text of an operation and read it back on the next render. Here: what survives that trip for sync
  targets, custom errors and prune rules, and that dragging an operation permutes the list.
\<close>

section \<open>Sync targets\<close>

lemma index_where_append: "\<forall>x \<in> set xs. \<not> p x \<Longrightarrow> p y \<Longrightarrow> index_where p (xs @ y # ys) = Some (length xs)"
  by (induction xs) auto

lemma trim_append_target:
  assumes "js_trim k = k" and "k \<noteq> []" and "p \<noteq> []" and "\<not> is_ws (hd p)"
  shows "js_trim (p @ k) = p @ k"
  using assms by (intro trim_by_id) (auto simp: trim_by_eq_iff hd_append)

lemma letters_not_ws [simp]: "\<not> is_ws CHR ''h''" "\<not> is_ws CHR ''j''" "\<not> is_ws CHR ''n''" "\<not> is_ws CHR ''r''"
  "\<not> is_ws CHR '':''"
  by (simp_all add: is_ws_def)

text \<open>
  reading a sync target that was written gives back its kind and its trimmed key; a blank key
  is written as the empty text, which reads as an empty body field.
\<close>

theorem sync_target_round_trip:
  "parseSyncTargetSpec (buildSyncTargetSpec ty key) =
    (if js_trim key = [] then \<lparr>target_type = ''json'', target_key = []\<rparr>
     else \<lparr>target_type = (if ty = ''header'' then ''header'' else ''json''), target_key = js_trim key\<rparr>)"
proof (cases "js_trim key = []")
  case False
  have t: "js_trim (''header:'' @ js_trim key) = ''header:'' @ js_trim key"
    "js_trim (''json:'' @ js_trim key) = ''json:'' @ js_trim key"
    by (rule trim_append_target; simp add: False)+
  have l: "js_lower (js_trim ''header'') = ''header''" "js_lower (js_trim ''json'') = ''json''" by code_simp+
  show ?thesis
    using False t l
    by (simp add: parseSyncTargetSpec_def buildSyncTargetSpec_def Let_def)
qed (simp add: parseSyncTargetSpec_def buildSyncTargetSpec_def)

section \<open>Custom errors\<close>

lemma status_or_400_int: "\<exists>m. status_or_400 x = Num (int_dec m) \<and> 100 \<le> m \<and> m \<le> 599"
proof (cases "valid_status x")
  case True
  then obtain d where x: "x = Num d" by (cases x) (auto simp: valid_status_def)
  obtain m e where "d = Dec m e" by (cases d)
  with True x show ?thesis by (auto simp: status_or_400_def valid_status_def)
qed (simp add: status_or_400_def)

lemma status_or_400_idem: "status_or_400 (Num (num_dec (status_or_400 x))) = status_or_400 x"
  using status_or_400_int [of x] by (auto simp: num_dec_def status_or_400_def valid_status_def)

lemma str_or_empty: "js_to_string (js_or (Some (JStr s)) (Some (JStr []))) = s"
  by (simp add: js_or_def js_to_string_def)

lemma none_or_empty: "js_to_string (js_or None (Some (JStr []))) = []"
  by (simp add: js_or_def js_to_string_def)

lemma return_error_payload_gets:
  "obj_get ''message'' (return_error_payload d) = Some (JStr (js_trim (re_message d)))"
  "obj_get ''msg'' (return_error_payload d) = None"
  "obj_get ''status_code'' (return_error_payload d) = Some (JNum (num_dec (status_or_400 (re_statusCode d))))"
  "obj_get ''code'' (return_error_payload d) =
     (if js_trim (re_code d) \<noteq> [] then Some (JStr (js_trim (re_code d))) else None)"
  "obj_get ''type'' (return_error_payload d) =
     (if js_trim (re_type d) \<noteq> [] then Some (JStr (js_trim (re_type d))) else None)"
  "obj_get ''skip_retry'' (return_error_payload d) = (if \<not> re_skipRetry d then Some (JBool False) else None)"
  by (simp_all add: return_error_payload_def Let_def obj_get_put_if obj_get_Cons)

lemma return_error_payload_ok: "json_ok (JObj (return_error_payload d))"
proof -
  have "\<forall>p \<in> set (return_error_payload d). json_ok (snd p)"
    unfolding return_error_payload_def Let_def
    using status_or_400_int [of "re_statusCode d"] by (intro put_if_all) (auto simp: num_dec_def)
  moreover have "obj_ok (return_error_payload d)"
    unfolding return_error_payload_def Let_def
    by (intro obj_ok_put_if) (simp add: obj_ok_def key_before_def array_index_def is_digit_def)
  ultimately show ?thesis by simp
qed

text \<open>
  a custom error edited in the structured form is read back as it was written: the texts
  trimmed, the status kept when it is an integer from 100 to 599 and 400 otherwise, the retry
  flag as it was, and the form still structured.
\<close>

theorem return_error_round_trip:
  assumes "\<not> re_simpleMode d"
  shows "parseReturnErrorDraft (buildReturnErrorValueText d) =
    \<lparr>re_message = js_trim (re_message d), re_statusCode = status_or_400 (re_statusCode d),
     re_code = js_trim (re_code d), re_type = js_trim (re_type d), re_skipRetry = re_skipRetry d,
     re_simpleMode = False\<rparr>"
proof -
  let ?p = "return_error_payload d"
  have b: "buildReturnErrorValueText d = json_stringify (JObj ?p)"
    using assms by (simp add: buildReturnErrorValueText_def)
  have "json_parse (js_trim (json_stringify (JObj ?p))) = Some (JObj ?p)"
    by (rule compact.parse_trim_print [OF return_error_payload_ok])
  moreover have "js_trim (json_stringify (JObj ?p)) \<noteq> []"
    unfolding json_text_trim by (rule compact.print_not_empty [OF return_error_payload_ok])
  moreover have "js_to_string (js_or (js_or (Some (JStr s)) None) (Some (JStr []))) = s" for s
    by (simp add: js_or_def js_to_string_def)
  ultimately show ?thesis
    unfolding b
    by (simp del: json_text.simps add: parseReturnErrorDraft_def Let_def js_prop_def return_error_payload_gets return_error_defaults_def
        js_to_number_def status_or_400_idem str_or_empty none_or_empty)
qed

lemma return_error_round_trip_witness:
  "re_message (parseReturnErrorDraft (buildReturnErrorValueText
    (return_error_defaults\<lparr>re_message := '' no '', re_simpleMode := False\<rparr>))) = ''no''"
  by (subst return_error_round_trip) code_simp+

section \<open>Prune rules\<close>

lemma normalize_rules_eq:
  "normalize_rules clk n xs =
    (map (\<lambda>(i, x). fst (normalizePruneRule clk (n + i) x)) (List.enumerate 0 xs), n + length xs)"
proof (induction xs arbitrary: n)
  case (Cons x xs)
  show ?case
    by (simp add: Cons.IH normalizePruneRule_def case_prod_beta enumerate_Suc_eq comp_def)
qed simp

lemma enumerate_map: "List.enumerate n (map f xs) = map (apsnd f) (List.enumerate n xs)"
  by (induction xs arbitrary: n) simp_all

text \<open>A rule read back from its payload, with its new identifier.\<close>

definition reloaded_rule :: "clock \<Rightarrow> nat \<Rightarrow> prune_rule \<Rightarrow> prune_rule" where
  "reloaded_rule clk k r =
     \<lparr>cond_id = nextLocalId clk k,
      cond_path = js_trim (cond_path r),
      cond_mode = (if cond_mode r \<in> set CONDITION_MODE_VALUES then cond_mode r else ''full''),
      cond_value_text = (if js_trim (cond_value_text r) = [] then []
        else toValueText (Some (parseLooseValue (cond_value_text r)))),
      cond_invert = cond_invert r,
      cond_pass_missing_key = cond_pass_missing_key r\<rparr>"

lemma full_in_modes [simp]: "''full'' \<in> set CONDITION_MODE_VALUES"
  by (simp add: CONDITION_MODE_VALUES_def CONDITION_MODE_OPTIONS_def)

lemma reload_prune_rule:
  "fst (normalizePruneRule clk k (prune_condition_payload r)) = reloaded_rule clk k r"
  by (simp add: normalizePruneRule_def prune_condition_payload_def Let_def js_prop_def obj_get_put_if
      obj_get_Cons reloaded_rule_def string_or_empty_def mode_or_def toValueText_def)

definition kept_rules :: "prune_draft \<Rightarrow> prune_rule list" where
  "kept_rules d = filter (\<lambda>r. js_trim (cond_path r) \<noteq> []) (pr_rules d)"

lemma prune_payload_gets:
  "obj_get ''type'' (prune_payload d) =
     (if js_trim (pr_typeText d) \<noteq> [] then Some (JStr (js_trim (pr_typeText d))) else None)"
  "obj_get ''logic'' (prune_payload d) =
     (if js_upper (or_str (pr_logic d) ''AND'') = ''OR'' then Some (JStr ''OR'') else None)"
  "obj_get ''recursive'' (prune_payload d) = (if \<not> pr_recursive d then Some (JBool False) else None)"
  "obj_get ''conditions'' (prune_payload d) =
     (if kept_rules d \<noteq> [] then Some (JArr (map prune_condition_payload (kept_rules d))) else None)"
  "obj_get ''where'' (prune_payload d) = None"
  by (simp_all add: prune_payload_def Let_def obj_get_put_if obj_get_Cons kept_rules_def [symmetric])

lemma prune_condition_payload_ok: "json_ok (prune_condition_payload r)"
proof -
  let ?b = "[(''path'', JStr (js_trim (cond_path r))),
    (''mode'', JStr (if cond_mode r \<in> set CONDITION_MODE_VALUES then cond_mode r else ''full''))]"
  have "obj_ok ?b" by (simp add: obj_ok_def key_before_def array_index_def is_digit_def)
  then show ?thesis
    by (auto simp: prune_condition_payload_def Let_def parseLooseValue_ok intro!: obj_ok_put_if
        dest!: put_if_values split: if_splits)
qed

lemma prune_payload_ok: "json_ok (JObj (prune_payload d))"
proof -
  have "\<forall>p \<in> set (prune_payload d). json_ok (snd p)"
    unfolding prune_payload_def Let_def by (intro put_if_all) (auto simp: prune_condition_payload_ok)
  moreover have "obj_ok (prune_payload d)"
    unfolding prune_payload_def Let_def by (intro obj_ok_put_if) simp
  ultimately show ?thesis by simp
qed

lemma prune_condition_is_object: "is_object_like (prune_condition_payload r)"
  by (simp add: is_object_like_def prune_condition_payload_def Let_def)

text \<open>
  an advanced prune draft with a type or with a rule that names a path is read back with its
  type trimmed, its logic and its recursion as they were, and exactly the rules that name a path,
  in their order, each under a new identifier. The form stays advanced unless only a type is left.
\<close>

theorem prune_draft_round_trip:
  assumes "\<not> pr_simpleMode d" and "js_trim (pr_typeText d) \<noteq> [] \<or> kept_rules d \<noteq> []"
  shows "fst (parsePruneObjectsDraft clk n (buildPruneObjectsValueText d)) =
    \<lparr>pr_simpleMode = (kept_rules d = [] \<and> pr_recursive d \<and> js_upper (or_str (pr_logic d) ''AND'') \<noteq> ''OR''),
     pr_typeText = js_trim (pr_typeText d),
     pr_logic = (if js_upper (or_str (pr_logic d) ''AND'') = ''OR'' then ''OR'' else ''AND''),
     pr_recursive = pr_recursive d,
     pr_rules = map (\<lambda>(i, r). reloaded_rule clk (n + i) r) (List.enumerate 0 (kept_rules d))\<rparr>"
proof -
  let ?p = "prune_payload d"
  have b: "buildPruneObjectsValueText d = json_stringify (JObj ?p)"
    using assms by (auto simp: buildPruneObjectsValueText_def Let_def prune_payload_gets)
  have "json_parse (js_trim (json_stringify (JObj ?p))) = Some (JObj ?p)"
    by (rule compact.parse_trim_print [OF prune_payload_ok])
  moreover have "js_trim (json_stringify (JObj ?p)) \<noteq> []"
    unfolding json_text_trim by (rule compact.print_not_empty [OF prune_payload_ok])
  moreover have "prune_rule_sources (JObj ?p) = map prune_condition_payload (kept_rules d)"
    by (simp add: prune_rule_sources_def js_prop_def prune_payload_gets filter_map comp_def prune_condition_is_object)
  moreover have "js_upper (js_to_string (js_or (Some (JStr ''OR'')) (Some (JStr ''AND'')))) = ''OR''"
    "js_upper (js_to_string (js_or None (Some (JStr ''AND'')))) \<noteq> ''OR''"
    by code_simp+
  ultimately show ?thesis
    unfolding b
    by (simp del: json_text.simps list.map add: parsePruneObjectsDraft_def Let_def case_prod_beta js_prop_def prune_payload_gets
        normalize_rules_eq enumerate_map comp_def reload_prune_rule)
qed

lemma prune_draft_round_trip_witness:
  "pr_typeText (fst (parsePruneObjectsDraft (\<lambda>_. 7) 0 (buildPruneObjectsValueText
    (prune_defaults\<lparr>pr_simpleMode := False, pr_typeText := '' a '', pr_logic := ''OR''\<rparr>)))) = ''a''"
  by (subst prune_draft_round_trip) code_simp+

section \<open>Reordering\<close>

lemma index_where_Some:
  "index_where p xs = Some i \<Longrightarrow> i < length xs \<and> p (xs ! i) \<and> (\<forall>j < i. \<not> p (xs ! j))"
proof (induction xs arbitrary: i)
  case (Cons x xs)
  show ?case
  proof (cases "p x")
    case False
    then obtain k where "index_where p xs = Some k" "i = Suc k" using Cons.prems by auto
    with Cons.IH [of k] False show ?thesis by (auto simp: All_less_Suc2)
  qed (use Cons.prems in simp)
qed simp

lemma index_where_None: "index_where p xs = None \<longleftrightarrow> (\<forall>x \<in> set xs. \<not> p x)"
  by (induction xs) auto

lemma index_where_split:
  "index_where p xs = Some i \<Longrightarrow> \<exists>as x bs. xs = as @ x # bs \<and> length as = i \<and> p x \<and> (\<forall>a \<in> set as. \<not> p a)"
  using index_where_Some [of p xs i] id_take_nth_drop [of i xs]
  by (metis (no_types, lifting) in_set_conv_nth length_take min.absorb4 nth_take)

lemma remove_nth_append [simp]: "remove_nth (length as) (as @ x # bs) = as @ bs"
  by (simp add: remove_nth_def)

lemma insert_nth_append [simp]:
  "insert_nth (length as) y (as @ x # bs) = as @ y # x # bs"
  "insert_nth (Suc (length as)) y (as @ x # bs) = as @ x # y # bs"
  by (simp_all add: insert_nth_def)

text \<open>
  a drop onto another operation moves the dragged one directly before or after the target and
  leaves the order of all the others as it was; the list keeps exactly its operations.
\<close>

theorem reorder_moves:
  assumes "distinct (map op_id ops)" and "sourceId \<in> op_id ` set ops" and "targetId \<in> op_id ` set ops"
    and "sourceId \<noteq> targetId" and "sourceId \<noteq> []" and "targetId \<noteq> []"
  shows "\<exists>xs ys src tgt. op_id src = sourceId \<and> op_id tgt = targetId \<and> src \<in> set ops \<and>
    filter (\<lambda>x. op_id x \<noteq> sourceId) ops = xs @ tgt # ys \<and>
    reorderOperations ops sourceId targetId position =
      (if position = After then xs @ tgt # src # ys else xs @ src # tgt # ys)"
proof -
  obtain i where i: "index_where (\<lambda>x. op_id x = sourceId) ops = Some i"
    using assms(2) index_where_None [of "\<lambda>x. op_id x = sourceId" ops] by fastforce
  then obtain as src bs where ops: "ops = as @ src # bs" and a: "length as = i" and src: "op_id src = sourceId"
    using index_where_split [OF i] by blast
  have f: "filter (\<lambda>x. op_id x \<noteq> sourceId) ops = as @ bs"
  proof -
    have "\<forall>x \<in> set (as @ bs). op_id x \<noteq> sourceId" using assms(1) src by (auto simp: ops image_iff)
    then show ?thesis using src by (simp add: ops filter_id_conv [THEN iffD2])
  qed
  have "targetId \<in> op_id ` set (as @ bs)" using assms(3,4) src by (auto simp: ops)
  then obtain j where j: "index_where (\<lambda>x. op_id x = targetId) (as @ bs) = Some j"
    using index_where_None [of "\<lambda>x. op_id x = targetId" "as @ bs"] by fastforce
  then obtain xs tgt ys where n: "as @ bs = xs @ tgt # ys" and l: "length xs = j" and tgt: "op_id tgt = targetId"
    using index_where_split [OF j] by blast
  have "reorderOperations ops sourceId targetId position
      = insert_nth (if position = After then Suc j else j) src (as @ bs)"
    using assms(4-6) i j by (simp add: reorderOperations_def Let_def ops a [symmetric])
  also have "\<dots> = (if position = After then xs @ tgt # src # ys else xs @ src # tgt # ys)"
    unfolding n by (simp add: l [symmetric])
  finally show ?thesis using src tgt f n by (auto simp: ops)
qed

definition sample_operations :: "po_operation list" where
  "sample_operations = [sample_operation, sample_operation\<lparr>op_id := ''po_1_2'', op_path := []\<rparr>]"

lemma reorder_moves_witness:
  "\<exists>xs ys src tgt. op_id src = ''po_1_2'' \<and> op_id tgt = ''po_1_0'' \<and> src \<in> set sample_operations \<and>
    filter (\<lambda>x. op_id x \<noteq> ''po_1_2'') sample_operations = xs @ tgt # ys \<and>
    reorderOperations sample_operations ''po_1_2'' ''po_1_0'' Before = xs @ src # tgt # ys"
  using reorder_moves [of sample_operations "''po_1_2''" "''po_1_0''" Before]
  by (simp add: sample_operations_def sample_operation_def)

lemma mset_insert_nth: "mset (insert_nth j x ys) = add_mset x (mset ys)"
proof -
  have "mset (take j ys) + mset (drop j ys) = mset ys"
    by (simp only: mset_append [symmetric] append_take_drop_id)
  then show ?thesis by (simp add: insert_nth_def)
qed

lemma mset_remove_nth: "i < length xs \<Longrightarrow> add_mset (xs ! i) (mset (remove_nth i xs)) = mset xs"
  using arg_cong [OF id_take_nth_drop [of i xs], of mset] by (simp add: remove_nth_def)

lemma mset_reorder: "mset (reorderOperations ops s t pos) = mset ops"
  using index_where_Some [of _ ops]
  by (auto simp: reorderOperations_def Let_def mset_insert_nth mset_remove_nth split: option.split)

section \<open>Loading and saving\<close>

text \<open>
  C3: opening the editor raises a TypeError exactly when the stored text is an object whose array
  \<open>operations\<close> has a null entry, an entry whose array \<open>conditions\<close> has one, or an entry whose
  \<open>logic\<close> is an object with a key \<open>toString\<close> or an array that holds one at any depth.
\<close>

theorem parseInitialState_raises:
  "parseInitialState clk n raw = None \<longleftrightarrow>
    (\<exists>kvs xs. json_parse (js_trim raw) = Some (JObj kvs) \<and> obj_get ''operations'' kvs = Some (JArr xs)
      \<and> (\<exists>x \<in> set xs. x = JNull
          \<or> (\<exists>cs. js_prop x ''conditions'' = Some (JArr cs) \<and> JNull \<in> set cs)
          \<or> (\<exists>logic. js_prop x ''logic'' = Some logic \<and> string_raises logic)))"
proof -
  have c: "cannot_load x \<longleftrightarrow> x = JNull \<or> (\<exists>cs. js_prop x ''conditions'' = Some (JArr cs) \<and> JNull \<in> set cs)
      \<or> (\<exists>logic. js_prop x ''logic'' = Some logic \<and> string_raises logic)" for x
    by (cases "js_prop x ''conditions''"; cases "js_prop x ''logic''"; cases "the (js_prop x ''conditions'')")
      (simp_all add: cannot_load_def conditions_of_def js_string_raises_def)
  have "operations_or_default clk m xs = None \<longleftrightarrow> (\<exists>x \<in> set xs. cannot_load x)" for m xs
    by (simp add: operations_or_default_def case_prod_beta
        map_ids_None [of "normalizeOperation clk" cannot_load, OF normalizeOperation_None])
  then show ?thesis unfolding c [symmetric]
    by (cases "js_trim raw = []")
      (auto simp: parseInitialState_def init_with_def Let_def case_prod_beta split: option.split json.split)
qed

lemma parseInitialState_raises_witness:
  "parseInitialState (\<lambda>_. 7) 0 (json_stringify (JObj [(''operations'', JArr [JObj [(''logic'', JObj [(''toString'', JNull)])]])])) = None \<and>
    parseInitialState (\<lambda>_. 7) 0 (json_stringify (JObj [(''operations'', JArr [JObj [(''logic'', JArr [])]])])) \<noteq> None"
proof -
  have p: "json_parse (js_trim (json_stringify (JObj [(''operations'', JArr [JObj [(''logic'', v)]])]))) =
      Some (JObj [(''operations'', JArr [JObj [(''logic'', v)]])])" if "json_ok v" for v
    by (rule compact.parse_trim_print) (use that in \<open>simp add: obj_ok_def\<close>)
  have v: "json_ok (JObj [(''toString'', JNull)])" "json_ok (JArr [])" by (simp_all add: obj_ok_def)
  show ?thesis
    unfolding parseInitialState_raises p [OF v(1)] p [OF v(2)] by (simp add: obj_get_def js_prop_def)
qed

text \<open>What the server can rely on: a saved operation names every field that its mode needs.\<close>

definition has_text :: "json \<Rightarrow> string \<Rightarrow> bool" where
  "has_text v k \<longleftrightarrow> (case js_prop v k of Some (JStr s) \<Rightarrow> s \<noteq> [] \<and> js_trim s = s | _ \<Rightarrow> False)"

definition complete_operation :: "json \<Rightarrow> bool" where
  "complete_operation v \<longleftrightarrow> (case js_prop v ''mode'' of
     Some (JStr mode) \<Rightarrow>
       mode \<noteq> [] \<and>
       (meta_path (mode_meta_of mode) \<longrightarrow> has_text v ''path'') \<and>
       (mode \<in> set FROM_REQUIRED_MODES \<longrightarrow> has_text v ''from'') \<and>
       (mode \<in> set TO_REQUIRED_MODES \<longrightarrow> has_text v ''to'') \<and>
       (mode \<in> set VALUE_REQUIRED_MODES \<longrightarrow> js_prop v ''value'' \<noteq> None)
   | _ \<Rightarrow> False)"

lemma accepted_complete:
  assumes "accepted op"
  shows "complete_operation (JObj (operation_payload op))"
proof -
  have tr: "js_trim (aliased op s) = aliased op s" for s by (simp add: aliased_def or_str_def)
  have "saved_mode op \<noteq> []" by (simp add: saved_mode_def or_str_def)
  then show ?thesis
    using assms mode_meta_required(1-3) [of "saved_mode op"]
    by (auto simp: complete_operation_def has_text_def js_prop_def payload_gets payload_from payload_to
        accepted_iff Let_def tr)
qed

text \<open>
  C2: what a validated save writes is either the empty text or the JSON of an object whose only
  member is a non-empty array of operations, each with a path, a source, a target and a value
  where its mode needs them, the alias modes included.
\<close>

theorem saved_operations_complete:
  assumes "buildOperationsJson ops True = Inr txt" and "txt \<noteq> []"
  shows "\<exists>items. json_parse txt = Some (JObj [(''operations'', JArr items)]) \<and> items \<noteq> []
    \<and> list_all complete_operation items"
proof -
  define kept where "kept = filter (\<lambda>x. \<not> isOperationBlank x) ops"
  have ne: "kept \<noteq> []" and v: "validateOperations kept = None" and tx: "txt = json_pretty (override_json kept)"
    using assms by (auto simp: buildOperationsJson_cases kept_def [symmetric] Let_def
        split: if_splits option.splits)
  have "json_parse txt = Some (override_json kept)"
    unfolding tx by (rule pretty.parse_print [OF override_json_ok])
  then show ?thesis
    using ne v accepted_complete
    by (auto simp: override_json_def validateOperations_None list_all_iff)
qed

lemma saved_operations_complete_witness:
  "\<exists>txt items. buildOperationsJson [sample_operation] True = Inr txt \<and>
    json_parse txt = Some (JObj [(''operations'', JArr items)]) \<and> items \<noteq> [] \<and> list_all complete_operation items"
  using saved_operations_complete [OF sample_built] sample_built by blast

text \<open>
  a save that is refused names the first operation that is not accepted, by its number among
  those that are not blank; all the ones before it are accepted.
\<close>

theorem refused_save_names_first:
  assumes "buildOperationsJson ops True = Inl m"
  shows "\<exists>k. k < length (filter (\<lambda>x. \<not> isOperationBlank x) ops) \<and> snd m = k + 1 \<and>
    \<not> accepted (filter (\<lambda>x. \<not> isOperationBlank x) ops ! k) \<and>
    list_all accepted (take k (filter (\<lambda>x. \<not> isOperationBlank x) ops))"
proof -
  define kept where "kept = filter (\<lambda>x. \<not> isOperationBlank x) ops"
  have "validate_from 0 kept = Some m"
    using assms by (auto simp: buildOperationsJson_cases kept_def [symmetric] Let_def validateOperations_def
        split: if_splits option.splits)
  from validate_from_Some [OF this] obtain k where k: "k < length kept"
    "validate_operation (k + 1) (kept ! k) = Some m" "\<forall>j < k. accepted (kept ! j)" by auto
  then have "\<not> accepted (kept ! k)" by (metis accepted_line option.distinct(1))
  with k show ?thesis
    unfolding kept_def [symmetric]
    by (intro exI [of _ k]) (auto simp: list_all_length validate_operation_Some_line)
qed

lemma refused_save_names_first_witness:
  "\<exists>m k. buildOperationsJson sample_operations True = Inl m \<and> snd m = k + 1 \<and>
    \<not> accepted (filter (\<lambda>x. \<not> isOperationBlank x) sample_operations ! k)"
proof -
  have "validateOperations sample_operations \<noteq> None" "filter (\<lambda>x. \<not> isOperationBlank x) sample_operations \<noteq> []"
    "filter (\<lambda>x. \<not> isOperationBlank x) sample_operations = sample_operations"
    by code_simp+
  then obtain m where m: "buildOperationsJson sample_operations True = Inl m"
    by (auto simp: buildOperationsJson_cases)
  from refused_save_names_first [OF m] m show ?thesis by blast
qed

end
