(* ===== verification/ParamEditor.thy ===== *)
theory ParamEditor
  imports ParamDrafts
begin

text \<open>
  The parameter override editor as a state machine
  (features/channels/components/dialogs/param-override-editor-dialog.tsx, the component): its
  React state is a record, each callback a function on it, and the effect that keeps the selection
  valid runs after each of them. \<open>ed_seed\<close> is the module's identifier counter. A state updater is
  applied to the current list at once. Toasts are collected in \<open>ed_toasts\<close>. The rendering itself
  is not modelled; what it computes (counts, filtered lists, drafts) is.
\<close>

section \<open>Templates\<close>

definition SYNC_TARGET_TYPE_OPTIONS :: "(string \<times> string) list" where
  "SYNC_TARGET_TYPE_OPTIONS = [(''json'', ''Request Body Field''), (''header'', ''Request Header Field'')]"

definition operations_object :: "json list \<Rightarrow> (string \<times> json) list" where
  "operations_object ops = [(''operations'', JArr ops)]"

definition LEGACY_TEMPLATE :: "(string \<times> json) list" where
  "LEGACY_TEMPLATE = [(''temperature'', JNum (int_dec 0)), (''max_tokens'', JNum (int_dec 1000))]"

definition template_condition :: "string \<Rightarrow> string \<Rightarrow> string \<Rightarrow> json" where
  "template_condition path mode value =
     JObj [(''path'', JStr path), (''mode'', JStr mode), (''value'', JStr value)]"

definition OPERATION_TEMPLATE :: "(string \<times> json) list" where
  "OPERATION_TEMPLATE = operations_object [JObj [
     (''description'', JStr ''Set default temperature for openai/* models.''),
     (''path'', JStr ''temperature''),
     (''mode'', JStr ''set''),
     (''value'', JNum (Dec 7 1)),
     (''conditions'', JArr [template_condition ''model'' ''prefix'' ''openai/'']),
     (''logic'', JStr ''AND'')]]"

definition HEADER_PASSTHROUGH_TEMPLATE :: "(string \<times> json) list" where
  "HEADER_PASSTHROUGH_TEMPLATE = operations_object [JObj [
     (''description'', JStr ''Pass through X-Request-Id header to upstream.''),
     (''mode'', JStr ''pass_headers''),
     (''value'', JArr [JStr ''X-Request-Id'']),
     (''keep_origin'', JBool True)]]"

definition GEMINI_IMAGE_4K_TEMPLATE :: "(string \<times> json) list" where
  "GEMINI_IMAGE_4K_TEMPLATE = operations_object [JObj [
     (''description'', JStr ''Set imageSize to 4K when model contains gemini/image and ends with 4k.''),
     (''mode'', JStr ''set''),
     (''path'', JStr ''generationConfig.imageConfig.imageSize''),
     (''value'', JStr ''4K''),
     (''conditions'', JArr [
        template_condition ''original_model'' ''contains'' ''gemini'',
        template_condition ''original_model'' ''contains'' ''image'',
        template_condition ''original_model'' ''suffix'' ''4k'']),
     (''logic'', JStr ''AND'')]]"

definition CODEX_CLI_HEADER_PASSTHROUGH_HEADERS :: "string list" where
  "CODEX_CLI_HEADER_PASSTHROUGH_HEADERS = [''Originator'', ''Session_id'', ''User-Agent'',
     ''X-Codex-Beta-Features'', ''X-Codex-Turn-Metadata'']"

definition CLAUDE_CLI_HEADER_PASSTHROUGH_HEADERS :: "string list" where
  "CLAUDE_CLI_HEADER_PASSTHROUGH_HEADERS = [''X-Stainless-Arch'', ''X-Stainless-Lang'',
     ''X-Stainless-Os'', ''X-Stainless-Package-Version'', ''X-Stainless-Retry-Count'',
     ''X-Stainless-Runtime'', ''X-Stainless-Runtime-Version'', ''X-Stainless-Timeout'', ''User-Agent'',
     ''X-App'', ''Anthropic-Beta'', ''Anthropic-Dangerous-Direct-Browser-Access'', ''Anthropic-Version'']"

definition buildPassHeadersTemplate :: "string list \<Rightarrow> (string \<times> json) list" where
  "buildPassHeadersTemplate headers = operations_object [JObj [
     (''mode'', JStr ''pass_headers''), (''value'', JArr (map JStr headers)), (''keep_origin'', JBool True)]]"

definition bedrock_tokens :: "(string \<times> json) list" where
  "bedrock_tokens = [
     (''advanced-tool-use-2025-11-20'', JStr ''tool-search-tool-2025-10-19''),
     (''bash_20241022'', JNull), (''bash_20250124'', JNull),
     (''code-execution-2025-08-25'', JNull),
     (''compact-2026-01-12'', JStr ''compact-2026-01-12''),
     (''computer-use-2025-01-24'', JStr ''computer-use-2025-01-24''),
     (''computer-use-2025-11-24'', JStr ''computer-use-2025-11-24''),
     (''context-1m-2025-08-07'', JStr ''context-1m-2025-08-07''),
     (''context-management-2025-06-27'', JStr ''context-management-2025-06-27''),
     (''effort-2025-11-24'', JNull), (''fast-mode-2026-02-01'', JNull),
     (''files-api-2025-04-14'', JNull), (''fine-grained-tool-streaming-2025-05-14'', JNull),
     (''interleaved-thinking-2025-05-14'', JStr ''interleaved-thinking-2025-05-14''),
     (''mcp-client-2025-11-20'', JNull), (''mcp-client-2025-04-04'', JNull),
     (''mcp-servers-2025-12-04'', JNull), (''output-128k-2025-02-19'', JNull),
     (''structured-output-2024-03-01'', JNull), (''prompt-caching-scope-2026-01-05'', JNull),
     (''skills-2025-10-02'', JNull), (''structured-outputs-2025-11-13'', JNull),
     (''text_editor_20241022'', JNull), (''text_editor_20250124'', JNull),
     (''token-efficient-tools-2025-02-19'', JNull),
     (''tool-search-tool-2025-10-19'', JStr ''tool-search-tool-2025-10-19''),
     (''web-fetch-2025-09-10'', JNull), (''web-search-2025-03-05'', JNull), (''oauth-2025-04-20'', JNull)]"

definition AWS_BEDROCK_ANTHROPIC_COMPAT_TEMPLATE :: "(string \<times> json) list" where
  "AWS_BEDROCK_ANTHROPIC_COMPAT_TEMPLATE = operations_object [
     JObj [(''description'', JStr ''Normalize anthropic-beta header tokens for Bedrock compatibility.''),
       (''mode'', JStr ''set_header''), (''path'', JStr ''anthropic-beta''), (''value'', JObj bedrock_tokens)],
     JObj [(''description'', JStr ''Remove all tools[*].custom.input_examples before upstream relay.''),
       (''mode'', JStr ''delete''), (''path'', JStr ''tools.*.custom.input_examples'')]]"

datatype template_kind = OperationsKind | LegacyKind

record template_preset =
  preset_label :: string
  preset_kind :: template_kind
  preset_payload :: "(string \<times> json) list"

definition TEMPLATE_PRESET_CONFIG :: "(string \<times> template_preset) list" where
  "TEMPLATE_PRESET_CONFIG = [
     (''operations_default'', \<lparr>preset_label = ''New Format Template'', preset_kind = OperationsKind,
        preset_payload = OPERATION_TEMPLATE\<rparr>),
     (''legacy_default'', \<lparr>preset_label = ''Legacy Format Template'', preset_kind = LegacyKind,
        preset_payload = LEGACY_TEMPLATE\<rparr>),
     (''pass_headers_auth'', \<lparr>preset_label = ''Header Passthrough (X-Request-Id)'', preset_kind = OperationsKind,
        preset_payload = HEADER_PASSTHROUGH_TEMPLATE\<rparr>),
     (''gemini_image_4k'', \<lparr>preset_label = ''Gemini Image 4K'', preset_kind = OperationsKind,
        preset_payload = GEMINI_IMAGE_4K_TEMPLATE\<rparr>),
     (''claude_cli_headers_passthrough'', \<lparr>preset_label = ''Claude CLI Header Passthrough'',
        preset_kind = OperationsKind,
        preset_payload = buildPassHeadersTemplate CLAUDE_CLI_HEADER_PASSTHROUGH_HEADERS\<rparr>),
     (''codex_cli_headers_passthrough'', \<lparr>preset_label = ''Codex CLI Header Passthrough'',
        preset_kind = OperationsKind,
        preset_payload = buildPassHeadersTemplate CODEX_CLI_HEADER_PASSTHROUGH_HEADERS\<rparr>),
     (''aws_bedrock_anthropic_beta_override'', \<lparr>preset_label = ''AWS Bedrock Claude Compat'',
        preset_kind = OperationsKind, preset_payload = AWS_BEDROCK_ANTHROPIC_COMPAT_TEMPLATE\<rparr>)]"

section \<open>State\<close>

text \<open>An empty error is \<open>no_message\<close>; a message without a rule number has number 0.\<close>

abbreviation no_message :: message where
  "no_message \<equiv> ([], 0)"

record editor =
  ed_editMode :: edit_mode
  ed_visualMode :: visual_mode
  ed_legacyValue :: string
  ed_operations :: "po_operation list"
  ed_jsonText :: string
  ed_jsonError :: message
  ed_search :: string
  ed_selected :: string
  ed_expanded :: "string \<rightharpoonup> bool"
  ed_dragged :: string
  ed_dragOver :: string
  ed_dragPosition :: drop_position
  ed_presetKey :: string
  ed_seed :: nat
  ed_toasts :: "message list"

definition first_id :: "po_operation list \<Rightarrow> string" where
  "first_id ops = (case ops of [] \<Rightarrow> [] | op # _ \<Rightarrow> op_id op)"

text \<open>The effect that keeps the selection valid.\<close>

definition settle :: "editor \<Rightarrow> editor" where
  "settle ed =
     (if ed_operations ed = [] then ed\<lparr>ed_selected := []\<rparr>
      else if \<not> (\<exists>x \<in> set (ed_operations ed). op_id x = ed_selected ed)
        then ed\<lparr>ed_selected := first_id (ed_operations ed)\<rparr>
      else ed)"

text \<open>The effect that runs when the dialog opens; None when loading raises.\<close>

definition openDialog :: "clock \<Rightarrow> string \<Rightarrow> editor \<Rightarrow> editor option" where
  "openDialog clk value ed =
     map_option (\<lambda>(state, n').
       ed\<lparr>ed_editMode := init_editMode state, ed_visualMode := init_visualMode state,
          ed_legacyValue := init_legacyValue state, ed_operations := init_operations state,
          ed_jsonText := init_jsonText state, ed_jsonError := (init_jsonError state, 0),
          ed_search := [], ed_selected := first_id (init_operations state), ed_expanded := Map.empty,
          ed_dragged := [], ed_dragOver := [], ed_dragPosition := Before,
          ed_presetKey := (if init_visualMode state = LegacyMode then ''legacy_default''
                           else ''operations_default''),
          ed_seed := n'\<rparr>)
       (parseInitialState clk (ed_seed ed) value)"

definition operationCount :: "editor \<Rightarrow> nat" where
  "operationCount ed = length (filter (\<lambda>x. \<not> isOperationBlank x) (ed_operations ed))"

definition filteredOperations :: "editor \<Rightarrow> po_operation list" where
  "filteredOperations ed =
     (let keyword = js_lower (js_trim (ed_search ed))
      in if keyword = [] then ed_operations ed
         else filter (\<lambda>op.
           js_includes (js_lower (js_join '' '' (filter nonempty
             [op_description op, op_mode op, op_path op, op_from op, op_to op, op_value_text op]))) keyword)
           (ed_operations ed))"

definition selectedOperation :: "editor \<Rightarrow> po_operation option" where
  "selectedOperation ed = List.find (\<lambda>x. op_id x = ed_selected ed) (ed_operations ed)"

definition selectedOperationIndex :: "editor \<Rightarrow> int" where
  "selectedOperationIndex ed =
     (case index_where (\<lambda>x. op_id x = ed_selected ed) (ed_operations ed) of None \<Rightarrow> -1 | Some i \<Rightarrow> int i)"

definition returnErrorDraft :: "editor \<Rightarrow> return_error_draft option" where
  "returnErrorDraft ed = (case selectedOperation ed of
     None \<Rightarrow> None
   | Some op \<Rightarrow> if op_mode op \<noteq> ''return_error'' then None else Some (parseReturnErrorDraft (op_value_text op)))"

definition pruneObjectsDraft :: "clock \<Rightarrow> editor \<Rightarrow> prune_draft option \<times> editor" where
  "pruneObjectsDraft clk ed = (case selectedOperation ed of
     None \<Rightarrow> (None, ed)
   | Some op \<Rightarrow>
       if op_mode op \<noteq> ''prune_objects'' then (None, ed)
       else (let (d, n') = parsePruneObjectsDraft clk (ed_seed ed) (op_value_text op)
             in (Some d, ed\<lparr>ed_seed := n'\<rparr>)))"

definition topOperationModes :: "editor \<Rightarrow> (string \<times> nat) list" where
  "topOperationModes ed =
     (let counts = foldl (\<lambda>acc op.
            let mode = or_str (op_mode op) ''set''
            in obj_set mode ((case obj_get mode acc of None \<Rightarrow> 0 | Some c \<Rightarrow> c) + 1) acc)
          [] (ed_operations ed)
      in take 4 (sort_by (\<lambda>a b. snd b \<le> snd a) counts))"

section \<open>Operations and conditions\<close>

text \<open>A \<open>Partial\<close> of a record, as a list of field assignments; no caller assigns an identifier or
  the list of conditions.\<close>

datatype op_field =
    SetDescription string | SetPath string | SetMode string | SetFrom string | SetTo string
  | SetValueText string | SetKeepOrigin bool | SetLogic string

fun put_op_field :: "op_field \<Rightarrow> po_operation \<Rightarrow> po_operation" where
  "put_op_field (SetDescription s) op = op\<lparr>op_description := s\<rparr>"
| "put_op_field (SetPath s) op = op\<lparr>op_path := s\<rparr>"
| "put_op_field (SetMode s) op = op\<lparr>op_mode := s\<rparr>"
| "put_op_field (SetFrom s) op = op\<lparr>op_from := s\<rparr>"
| "put_op_field (SetTo s) op = op\<lparr>op_to := s\<rparr>"
| "put_op_field (SetValueText s) op = op\<lparr>op_value_text := s\<rparr>"
| "put_op_field (SetKeepOrigin b) op = op\<lparr>op_keep_origin := b\<rparr>"
| "put_op_field (SetLogic s) op = op\<lparr>op_logic := s\<rparr>"

datatype cond_field =
    SetCondPath string | SetCondMode string | SetCondValueText string | SetInvert bool
  | SetPassMissingKey bool

fun put_cond_field :: "cond_field \<Rightarrow> po_condition \<Rightarrow> po_condition" where
  "put_cond_field (SetCondPath s) c = c\<lparr>cond_path := s\<rparr>"
| "put_cond_field (SetCondMode s) c = c\<lparr>cond_mode := s\<rparr>"
| "put_cond_field (SetCondValueText s) c = c\<lparr>cond_value_text := s\<rparr>"
| "put_cond_field (SetInvert b) c = c\<lparr>cond_invert := b\<rparr>"
| "put_cond_field (SetPassMissingKey b) c = c\<lparr>cond_pass_missing_key := b\<rparr>"

text \<open>\<open>prev.map((o) => o.id === id ? f(o) : o)\<close>.\<close>

definition map_operation ::
  "(po_operation \<Rightarrow> po_operation) \<Rightarrow> string \<Rightarrow> po_operation list \<Rightarrow> po_operation list" where
  "map_operation f operationId ops = map (\<lambda>op. if op_id op = operationId then f op else op) ops"

definition updateOperation :: "string \<Rightarrow> op_field list \<Rightarrow> editor \<Rightarrow> editor" where
  "updateOperation operationId patch ed =
     ed\<lparr>ed_operations := map_operation (fold put_op_field patch) operationId (ed_operations ed)\<rparr>"

definition addOperation :: "clock \<Rightarrow> editor \<Rightarrow> editor" where
  "addOperation clk ed =
     (let (created, n') = createDefaultOperation clk (ed_seed ed)
      in ed\<lparr>ed_operations := ed_operations ed @ [created], ed_selected := op_id created, ed_seed := n'\<rparr>)"

definition clone_condition :: "po_condition \<Rightarrow> json" where
  "clone_condition c = JObj [(''path'', JStr (cond_path c)), (''mode'', JStr (cond_mode c)),
     (''value'', parseLooseValue (cond_value_text c)), (''invert'', JBool (cond_invert c)),
     (''pass_missing_key'', JBool (cond_pass_missing_key c))]"

definition clone_source :: "po_operation \<Rightarrow> json" where
  "clone_source source = JObj [(''description'', JStr (op_description source)),
     (''path'', JStr (op_path source)), (''mode'', JStr (op_mode source)),
     (''value'', parseLooseValue (op_value_text source)),
     (''keep_origin'', JBool (op_keep_origin source)),
     (''from'', JStr (op_from source)), (''to'', JStr (op_to source)),
     (''logic'', JStr (op_logic source)),
     (''conditions'', JArr (map clone_condition (op_conditions source)))]"

text \<open>The clone is an object with no null condition, so normalising it does not raise.\<close>

definition duplicateOperation :: "clock \<Rightarrow> string \<Rightarrow> editor \<Rightarrow> editor" where
  "duplicateOperation clk operationId ed =
     (case index_where (\<lambda>x. op_id x = operationId) (ed_operations ed) of
        None \<Rightarrow> ed
      | Some idx \<Rightarrow>
          (case normalizeOperation clk (ed_seed ed) (clone_source (ed_operations ed ! idx)) of
             None \<Rightarrow> ed
           | Some (cloned, n') \<Rightarrow>
               ed\<lparr>ed_operations := insert_nth (idx + 1) cloned (ed_operations ed),
                  ed_selected := op_id cloned, ed_seed := n'\<rparr>))"

definition removeOperation :: "clock \<Rightarrow> string \<Rightarrow> editor \<Rightarrow> editor" where
  "removeOperation clk operationId ed =
     (if length (ed_operations ed) \<le> 1 then
        (let (created, n') = createDefaultOperation clk (ed_seed ed)
         in ed\<lparr>ed_operations := [created], ed_seed := n'\<rparr>)
      else ed\<lparr>ed_operations := filter (\<lambda>x. op_id x \<noteq> operationId) (ed_operations ed)\<rparr>)"

definition addCondition :: "clock \<Rightarrow> string \<Rightarrow> editor \<Rightarrow> editor" where
  "addCondition clk operationId ed =
     (let (created, n') = createDefaultCondition clk (ed_seed ed)
      in ed\<lparr>ed_operations := map_operation (\<lambda>op. op\<lparr>op_conditions := op_conditions op @ [created]\<rparr>)
              operationId (ed_operations ed),
            ed_expanded := (ed_expanded ed)(cond_id created \<mapsto> True), ed_seed := n'\<rparr>)"

definition updateCondition :: "string \<Rightarrow> string \<Rightarrow> cond_field list \<Rightarrow> editor \<Rightarrow> editor" where
  "updateCondition operationId conditionId patch ed =
     ed\<lparr>ed_operations := map_operation
          (\<lambda>op. op\<lparr>op_conditions :=
             map (\<lambda>c. if cond_id c = conditionId then fold put_cond_field patch c else c) (op_conditions op)\<rparr>)
          operationId (ed_operations ed)\<rparr>"

definition removeCondition :: "string \<Rightarrow> string \<Rightarrow> editor \<Rightarrow> editor" where
  "removeCondition operationId conditionId ed =
     ed\<lparr>ed_operations := map_operation
          (\<lambda>op. op\<lparr>op_conditions := filter (\<lambda>c. cond_id c \<noteq> conditionId) (op_conditions op)\<rparr>)
          operationId (ed_operations ed)\<rparr>"

definition setConditionExpanded :: "string \<Rightarrow> bool \<Rightarrow> editor \<Rightarrow> editor" where
  "setConditionExpanded conditionId expanded ed =
     ed\<lparr>ed_expanded := (ed_expanded ed)(conditionId \<mapsto> expanded)\<rparr>"

definition expandAllConditions :: "editor \<Rightarrow> editor" where
  "expandAllConditions ed = (case selectedOperation ed of
     None \<Rightarrow> ed
   | Some op \<Rightarrow> ed\<lparr>ed_expanded := ed_expanded ed ++ (\<lambda>i. if i \<in> cond_id ` set (op_conditions op) then Some True else None)\<rparr>)"

definition collapseAllConditions :: "editor \<Rightarrow> editor" where
  "collapseAllConditions ed = (case selectedOperation ed of
     None \<Rightarrow> ed
   | Some op \<Rightarrow> ed\<lparr>ed_expanded := ed_expanded ed ++ (\<lambda>i. if i \<in> cond_id ` set (op_conditions op) then Some False else None)\<rparr>)"

section \<open>Drafts\<close>

datatype re_field = SetMessage string | SetStatusCode jsnum | SetCode string | SetType string
  | SetSkipRetry bool | SetReSimple bool

fun put_re_field :: "re_field \<Rightarrow> return_error_draft \<Rightarrow> return_error_draft" where
  "put_re_field (SetMessage s) d = d\<lparr>re_message := s\<rparr>"
| "put_re_field (SetStatusCode x) d = d\<lparr>re_statusCode := x\<rparr>"
| "put_re_field (SetCode s) d = d\<lparr>re_code := s\<rparr>"
| "put_re_field (SetType s) d = d\<lparr>re_type := s\<rparr>"
| "put_re_field (SetSkipRetry b) d = d\<lparr>re_skipRetry := b\<rparr>"
| "put_re_field (SetReSimple b) d = d\<lparr>re_simpleMode := b\<rparr>"

definition updateReturnErrorDraft :: "string \<Rightarrow> re_field list \<Rightarrow> editor \<Rightarrow> editor" where
  "updateReturnErrorDraft operationId draftPatch ed =
     ed\<lparr>ed_operations := map_operation
          (\<lambda>op. op\<lparr>op_value_text := buildReturnErrorValueText
             (fold put_re_field draftPatch (parseReturnErrorDraft (op_value_text op)))\<rparr>)
          operationId (ed_operations ed)\<rparr>"

text \<open>The updater of a prune draft may draw identifiers; it runs once, on the operation with the
  given identifier, of which there is at most one.\<close>

fun update_prune_in ::
  "clock \<Rightarrow> (nat \<Rightarrow> prune_draft \<Rightarrow> prune_draft \<times> nat) \<Rightarrow> string \<Rightarrow> nat \<Rightarrow> po_operation list
     \<Rightarrow> po_operation list \<times> nat" where
  "update_prune_in clk updater operationId n [] = ([], n)"
| "update_prune_in clk updater operationId n (op # ops) =
     (if op_id op \<noteq> operationId then
        (let (ops', n') = update_prune_in clk updater operationId n ops in (op # ops', n'))
      else
        (let (draft, n1) = parsePruneObjectsDraft clk n (op_value_text op);
             (nextDraft, n2) = updater n1 draft;
             (ops', n3) = update_prune_in clk updater operationId n2 ops
         in (op\<lparr>op_value_text := buildPruneObjectsValueText nextDraft\<rparr> # ops', n3)))"

definition updatePruneObjectsDraft ::
  "clock \<Rightarrow> string \<Rightarrow> (nat \<Rightarrow> prune_draft \<Rightarrow> prune_draft \<times> nat) \<Rightarrow> editor \<Rightarrow> editor" where
  "updatePruneObjectsDraft clk operationId updater ed =
     (let (ops, n') = update_prune_in clk updater operationId (ed_seed ed) (ed_operations ed)
      in ed\<lparr>ed_operations := ops, ed_seed := n'\<rparr>)"

datatype pr_field = SetPrSimple bool | SetTypeText string | SetPrLogic string | SetRecursive bool

fun put_pr_field :: "pr_field \<Rightarrow> prune_draft \<Rightarrow> prune_draft" where
  "put_pr_field (SetPrSimple b) d = d\<lparr>pr_simpleMode := b\<rparr>"
| "put_pr_field (SetTypeText s) d = d\<lparr>pr_typeText := s\<rparr>"
| "put_pr_field (SetPrLogic s) d = d\<lparr>pr_logic := s\<rparr>"
| "put_pr_field (SetRecursive b) d = d\<lparr>pr_recursive := b\<rparr>"

definition patchPruneObjectsDraft :: "clock \<Rightarrow> string \<Rightarrow> pr_field list \<Rightarrow> editor \<Rightarrow> editor" where
  "patchPruneObjectsDraft clk operationId patch =
     updatePruneObjectsDraft clk operationId (\<lambda>n draft. (fold put_pr_field patch draft, n))"

definition addPruneRule :: "clock \<Rightarrow> string \<Rightarrow> editor \<Rightarrow> editor" where
  "addPruneRule clk operationId =
     updatePruneObjectsDraft clk operationId (\<lambda>n draft.
       let (rule, n') = normalizePruneRule clk n (JObj [])
       in (draft\<lparr>pr_simpleMode := False, pr_rules := pr_rules draft @ [rule]\<rparr>, n'))"

definition updatePruneRule :: "clock \<Rightarrow> string \<Rightarrow> string \<Rightarrow> cond_field list \<Rightarrow> editor \<Rightarrow> editor" where
  "updatePruneRule clk operationId ruleId patch =
     updatePruneObjectsDraft clk operationId (\<lambda>n draft.
       (draft\<lparr>pr_rules := map (\<lambda>r. if cond_id r = ruleId then fold put_cond_field patch r else r)
          (pr_rules draft)\<rparr>, n))"

definition removePruneRule :: "clock \<Rightarrow> string \<Rightarrow> string \<Rightarrow> editor \<Rightarrow> editor" where
  "removePruneRule clk operationId ruleId =
     updatePruneObjectsDraft clk operationId (\<lambda>n draft.
       (draft\<lparr>pr_rules := filter (\<lambda>r. cond_id r \<noteq> ruleId) (pr_rules draft)\<rparr>, n))"

text \<open>The endpoints of a sync operation: kind or key of the source or of the target.\<close>

definition setSyncFrom :: "string \<Rightarrow> string \<Rightarrow> string \<Rightarrow> editor \<Rightarrow> editor" where
  "setSyncFrom operationId ty key = updateOperation operationId [SetFrom (buildSyncTargetSpec ty key)]"

definition setSyncTo :: "string \<Rightarrow> string \<Rightarrow> string \<Rightarrow> editor \<Rightarrow> editor" where
  "setSyncTo operationId ty key = updateOperation operationId [SetTo (buildSyncTargetSpec ty key)]"

text \<open>The Format button of a value text.\<close>

definition formatValueText :: "po_operation \<Rightarrow> editor \<Rightarrow> editor" where
  "formatValueText operation ed =
     (case json_parse (op_value_text operation) of
        None \<Rightarrow> ed
      | Some parsed \<Rightarrow> updateOperation (op_id operation) [SetValueText (json_pretty parsed)] ed)"

section \<open>Drag and drop\<close>

definition resetDragState :: "editor \<Rightarrow> editor" where
  "resetDragState ed = ed\<lparr>ed_dragged := [], ed_dragOver := [], ed_dragPosition := Before\<rparr>"

definition handleDragStart :: "string \<Rightarrow> editor \<Rightarrow> editor" where
  "handleDragStart operationId ed = ed\<lparr>ed_dragged := operationId, ed_selected := operationId\<rparr>"

text \<open>\<open>lower\<close>: the pointer is in the lower half of the target.\<close>

definition handleDragOver :: "bool \<Rightarrow> string \<Rightarrow> editor \<Rightarrow> editor" where
  "handleDragOver lower operationId ed =
     (if ed_dragged ed = [] \<or> ed_dragged ed = operationId then ed
      else ed\<lparr>ed_dragOver := operationId, ed_dragPosition := (if lower then After else Before)\<rparr>)"

text \<open>\<open>transfer\<close>: the text that the event's data transfer carries.\<close>

definition handleDrop :: "string \<Rightarrow> string \<Rightarrow> editor \<Rightarrow> editor" where
  "handleDrop transfer operationId ed =
     (let sourceId = or_str (ed_dragged ed) transfer;
          position = (if ed_dragOver ed = operationId then ed_dragPosition ed else Before)
      in resetDragState
           (if sourceId \<noteq> [] \<and> operationId \<noteq> [] \<and> sourceId \<noteq> operationId
            then ed\<lparr>ed_operations := reorderOperations (ed_operations ed) sourceId operationId position,
                    ed_selected := sourceId\<rparr>
            else ed))"

section \<open>Modes, templates and saving\<close>

definition toast :: "message \<Rightarrow> editor \<Rightarrow> editor" where
  "toast m ed = ed\<lparr>ed_toasts := ed_toasts ed @ [m]\<rparr>"

definition invalid_json :: message where
  "invalid_json = (''Parameter override must be valid JSON format'', 0)"

definition buildVisualJson :: "editor \<Rightarrow> message + string" where
  "buildVisualJson ed =
     (if ed_visualMode ed = LegacyMode then
        (let trimmed = js_trim (ed_legacyValue ed)
         in if trimmed = [] then Inr []
            else (case json_parse trimmed of
                None \<Rightarrow> Inl invalid_json
              | Some parsed \<Rightarrow>
                  if is_plain_object parsed then Inr (json_pretty parsed)
                  else Inl (''Legacy format must be a JSON object'', 0)))
      else buildOperationsJson (ed_operations ed) True)"

definition switchToJsonMode :: "editor \<Rightarrow> editor" where
  "switchToJsonMode ed =
     (if ed_editMode ed = JsonEdit then ed
      else (case buildVisualJson ed of
          Inr text \<Rightarrow> ed\<lparr>ed_jsonText := text, ed_jsonError := no_message, ed_editMode := JsonEdit\<rparr>
        | Inl message \<Rightarrow>
            (toast message ed)
              \<lparr>ed_jsonText := (if ed_visualMode ed = LegacyMode then ed_legacyValue ed
                 else (case buildOperationsJson (ed_operations ed) False of Inr text \<Rightarrow> text | Inl _ \<Rightarrow> ed_jsonText ed)),
               ed_jsonError := message, ed_editMode := JsonEdit\<rparr>))"

text \<open>None when normalising the operations raises.\<close>

definition switchToVisualMode :: "clock \<Rightarrow> editor \<Rightarrow> editor option" where
  "switchToVisualMode clk ed =
     (if ed_editMode ed = VisualEdit then Some ed
      else
        (let trimmed = js_trim (ed_jsonText ed);
             (fallback, n1) = createDefaultOperation clk (ed_seed ed)
         in if trimmed = [] then
              Some (ed\<lparr>ed_visualMode := OperationsMode, ed_operations := [fallback],
                ed_selected := op_id fallback, ed_legacyValue := [], ed_jsonError := no_message,
                ed_editMode := VisualEdit, ed_seed := n1\<rparr>)
            else (case json_parse trimmed of
                None \<Rightarrow> Some (toast invalid_json ed)
              | Some (JObj kvs) \<Rightarrow>
                  (case obj_get ''operations'' kvs of
                     Some (JArr xs) \<Rightarrow>
                       map_option (\<lambda>(nextOps, n').
                         ed\<lparr>ed_visualMode := OperationsMode, ed_operations := nextOps,
                            ed_selected := first_id nextOps, ed_legacyValue := [],
                            ed_jsonError := no_message, ed_editMode := VisualEdit,
                            ed_presetKey := ''operations_default'', ed_seed := n'\<rparr>)
                         (operations_or_default clk (ed_seed ed) xs)
                   | _ \<Rightarrow>
                       Some (ed\<lparr>ed_visualMode := LegacyMode, ed_legacyValue := json_pretty (JObj kvs),
                         ed_operations := [fallback], ed_selected := op_id fallback,
                         ed_jsonError := no_message, ed_editMode := VisualEdit,
                         ed_presetKey := ''legacy_default'', ed_seed := n1\<rparr>))
              | Some _ \<Rightarrow> Some (toast (''Parameter override must be a valid JSON object'', 0) ed))))"

text \<open>The entries that the spread of a value copies.\<close>

definition spread_entries :: "json \<Rightarrow> (string \<times> json) list" where
  "spread_entries v = (case v of
     JObj kvs \<Rightarrow> kvs
   | JArr xs \<Rightarrow> map (\<lambda>(i, x). (show_nat i, x)) (List.enumerate 0 xs)
   | JStr s \<Rightarrow> map (\<lambda>(i, c). (show_nat i, JStr [c])) (List.enumerate 0 s)
   | _ \<Rightarrow> [])"

definition spread_over :: "(string \<times> json) list \<Rightarrow> json \<Rightarrow> (string \<times> json) list" where
  "spread_over base v = fold (\<lambda>(k, x). obj_set k x) (spread_entries v) base"

datatype fill_mode = Fill | Append

definition selected_preset :: "editor \<Rightarrow> template_preset" where
  "selected_preset ed = (case map_of TEMPLATE_PRESET_CONFIG (ed_presetKey ed) of
     Some preset \<Rightarrow> preset
   | None \<Rightarrow> \<lparr>preset_label = ''New Format Template'', preset_kind = OperationsKind,
       preset_payload = OPERATION_TEMPLATE\<rparr>)"

definition show_legacy :: "clock \<Rightarrow> string \<Rightarrow> editor \<Rightarrow> editor" where
  "show_legacy clk text ed =
     (let (created, n') = createDefaultOperation clk (ed_seed ed)
      in ed\<lparr>ed_visualMode := LegacyMode, ed_legacyValue := text, ed_operations := [created],
            ed_jsonText := text, ed_jsonError := no_message, ed_editMode := VisualEdit, ed_seed := n'\<rparr>)"

definition fillLegacy :: "clock \<Rightarrow> fill_mode \<Rightarrow> (string \<times> json) list \<Rightarrow> editor \<Rightarrow> editor" where
  "fillLegacy clk mode payload ed =
     (if mode = Append \<and> ed_visualMode ed = LegacyMode then
        (let trimmed = js_trim (ed_legacyValue ed)
         in if trimmed = [] then show_legacy clk (json_pretty (JObj payload)) ed
            else (case json_parse trimmed of
                None \<Rightarrow> toast (''Current legacy JSON is invalid, cannot append'', 0) ed
              | Some parsedCurrent \<Rightarrow> show_legacy clk (json_pretty (JObj (spread_over payload parsedCurrent))) ed))
      else show_legacy clk (json_pretty (JObj payload)) ed)"

definition template_operations :: "(string \<times> json) list \<Rightarrow> json list" where
  "template_operations payload = (case obj_get ''operations'' payload of Some (JArr xs) \<Rightarrow> xs | _ \<Rightarrow> [])"

definition fillOperations :: "clock \<Rightarrow> fill_mode \<Rightarrow> json list \<Rightarrow> editor \<Rightarrow> editor option" where
  "fillOperations clk mode operationsPayload ed =
     (if mode = Append then
        map_option (\<lambda>(appended, n').
          let existing = (if ed_visualMode ed = OperationsMode
                then filter (\<lambda>x. \<not> isOperationBlank x) (ed_operations ed) else []);
              nextOps = existing @ appended
          in ed\<lparr>ed_visualMode := OperationsMode, ed_operations := (if nextOps \<noteq> [] then nextOps else appended),
                ed_selected := or_str (first_id nextOps) (first_id appended), ed_legacyValue := [],
                ed_jsonError := no_message, ed_editMode := VisualEdit, ed_jsonText := [], ed_seed := n'\<rparr>)
          (map_ids (normalizeOperation clk) (ed_seed ed) operationsPayload)
      else
        map_option (\<lambda>(finalOps, n').
          ed\<lparr>ed_visualMode := OperationsMode, ed_operations := finalOps, ed_selected := first_id finalOps,
             ed_jsonText := json_pretty (JObj (operations_object operationsPayload)),
             ed_jsonError := no_message, ed_editMode := VisualEdit, ed_seed := n'\<rparr>)
          (operations_or_default clk (ed_seed ed) operationsPayload))"

definition fillTemplate :: "clock \<Rightarrow> fill_mode \<Rightarrow> editor \<Rightarrow> editor option" where
  "fillTemplate clk mode ed =
     (let preset = selected_preset ed
      in if preset_kind preset = LegacyKind then Some (fillLegacy clk mode (preset_payload preset) ed)
         else fillOperations clk mode (template_operations (preset_payload preset)) ed)"

definition resetEditorState :: "clock \<Rightarrow> editor \<Rightarrow> editor" where
  "resetEditorState clk ed =
     (let (fallback, n') = createDefaultOperation clk (ed_seed ed)
      in ed\<lparr>ed_visualMode := OperationsMode, ed_legacyValue := [], ed_operations := [fallback],
            ed_selected := op_id fallback, ed_jsonText := [], ed_jsonError := no_message,
            ed_presetKey := ''operations_default'', ed_editMode := VisualEdit, ed_seed := n'\<rparr>)"

definition handleJsonChange :: "string \<Rightarrow> editor \<Rightarrow> editor" where
  "handleJsonChange nextValue ed =
     ed\<lparr>ed_jsonText := nextValue,
        ed_jsonError := (if js_trim nextValue = [] \<or> verifyJSON (js_trim nextValue) then no_message
           else (''JSON format error'', 0))\<rparr>"

definition formatJson :: "editor \<Rightarrow> editor" where
  "formatJson ed =
     (let trimmed = js_trim (ed_jsonText ed)
      in if trimmed = [] then ed
         else (case json_parse trimmed of
             None \<Rightarrow> toast invalid_json ed
           | Some v \<Rightarrow> ed\<lparr>ed_jsonText := json_pretty v, ed_jsonError := no_message\<rparr>))"

definition visualValidationError :: "editor \<Rightarrow> message" where
  "visualValidationError ed =
     (if ed_editMode ed \<noteq> VisualEdit then no_message
      else (case buildVisualJson ed of Inr _ \<Rightarrow> no_message | Inl message \<Rightarrow> message))"

text \<open>\<open>Inr result\<close>: the result is handed to the caller and the dialog closes; \<open>Inl message\<close>: the
  message is toasted and the dialog stays open.\<close>

definition handleSave :: "editor \<Rightarrow> message + string" where
  "handleSave ed =
     (if ed_editMode ed = JsonEdit then
        (let trimmed = js_trim (ed_jsonText ed)
         in if trimmed = [] then Inr []
            else (case json_parse trimmed of None \<Rightarrow> Inl invalid_json | Some v \<Rightarrow> Inr (json_pretty v)))
      else buildVisualJson ed)"

section \<open>The editor as a transition system\<close>

text \<open>One event and the effect after it. A render may draw identifiers of its own; the values that
  a select offers are the only ones it reports.\<close>

inductive editor_event :: "clock \<Rightarrow> editor \<Rightarrow> editor \<Rightarrow> bool" for clk where
  ev_open: "openDialog clk value ed = Some ed' \<Longrightarrow> editor_event clk ed ed'"
| ev_render: "editor_event clk ed (ed\<lparr>ed_seed := ed_seed ed + k\<rparr>)"
| ev_drafts: "pruneObjectsDraft clk ed = (d, ed') \<Longrightarrow> editor_event clk ed ed'"
| ev_search: "editor_event clk ed (ed\<lparr>ed_search := s\<rparr>)"
| ev_select: "i \<in> op_id ` set (ed_operations ed) \<Longrightarrow> editor_event clk ed (ed\<lparr>ed_selected := i\<rparr>)"
| ev_preset: "editor_event clk ed (ed\<lparr>ed_presetKey := or_str s ''operations_default''\<rparr>)"
| ev_legacy: "editor_event clk ed (ed\<lparr>ed_legacyValue := s\<rparr>)"
| ev_update: "\<forall>m. SetMode m \<in> set patch \<longrightarrow> m \<in> set OPERATION_MODE_VALUES \<Longrightarrow>
    \<forall>l. SetLogic l \<in> set patch \<longrightarrow> l \<in> {''AND'', ''OR''} \<Longrightarrow>
    editor_event clk ed (updateOperation i patch ed)"
| ev_add: "editor_event clk ed (addOperation clk ed)"
| ev_duplicate: "editor_event clk ed (duplicateOperation clk i ed)"
| ev_remove: "editor_event clk ed (removeOperation clk i ed)"
| ev_add_condition: "editor_event clk ed (addCondition clk i ed)"
| ev_update_condition: "\<forall>m. SetCondMode m \<in> set cpatch \<longrightarrow> m \<in> set CONDITION_MODE_VALUES \<Longrightarrow>
    editor_event clk ed (updateCondition i c cpatch ed)"
| ev_remove_condition: "editor_event clk ed (removeCondition i c ed)"
| ev_expand: "editor_event clk ed (setConditionExpanded c b ed)"
| ev_expand_all: "editor_event clk ed (expandAllConditions ed)"
| ev_collapse_all: "editor_event clk ed (collapseAllConditions ed)"
| ev_return_error: "editor_event clk ed (updateReturnErrorDraft i re_patch ed)"
| ev_prune: "editor_event clk ed (patchPruneObjectsDraft clk i pr_patch ed)"
| ev_add_rule: "editor_event clk ed (addPruneRule clk i ed)"
| ev_update_rule: "editor_event clk ed (updatePruneRule clk i r cpatch ed)"
| ev_remove_rule: "editor_event clk ed (removePruneRule clk i r ed)"
| ev_sync_from: "editor_event clk ed (setSyncFrom i ty key ed)"
| ev_sync_to: "editor_event clk ed (setSyncTo i ty key ed)"
| ev_format_value: "editor_event clk ed (formatValueText op ed)"
| ev_drag_reset: "editor_event clk ed (resetDragState ed)"
| ev_drag_start: "i \<in> op_id ` set (ed_operations ed) \<Longrightarrow> editor_event clk ed (handleDragStart i ed)"
| ev_drag_over: "editor_event clk ed (handleDragOver lower i ed)"
| ev_drop: "editor_event clk ed (handleDrop transfer i ed)"
| ev_json_mode: "editor_event clk ed (switchToJsonMode ed)"
| ev_visual_mode: "switchToVisualMode clk ed = Some ed' \<Longrightarrow> editor_event clk ed ed'"
| ev_fill: "fillTemplate clk mode ed = Some ed' \<Longrightarrow> editor_event clk ed ed'"
| ev_reset: "editor_event clk ed (resetEditorState clk ed)"
| ev_json_change: "editor_event clk ed (handleJsonChange s ed)"
| ev_format: "editor_event clk ed (formatJson ed)"

definition initial_editor :: "clock \<Rightarrow> nat \<Rightarrow> editor" where
  "initial_editor clk n =
     (let (created, n') = createDefaultOperation clk n
      in \<lparr>ed_editMode = VisualEdit, ed_visualMode = OperationsMode, ed_legacyValue = [],
          ed_operations = [created], ed_jsonText = [], ed_jsonError = no_message, ed_search = [],
          ed_selected = [], ed_expanded = Map.empty, ed_dragged = [], ed_dragOver = [],
          ed_dragPosition = Before, ed_presetKey = ''operations_default'', ed_seed = n', ed_toasts = []\<rparr>)"

inductive reachable :: "clock \<Rightarrow> editor \<Rightarrow> bool" for clk where
  reach_init: "reachable clk (settle (initial_editor clk n))"
| reach_event: "reachable clk ed \<Longrightarrow> editor_event clk ed ed' \<Longrightarrow> reachable clk (settle ed')"

end
