(* ===== verification/ParamEditorFacts.thy ===== *)
theory ParamEditorFacts
  imports ParamEditor
begin

text \<open>
  The invariant of the parameter override editor over all its reachable states, what its callbacks
  do to what is saved, and the two places where an edit is lost.
\<close>

section \<open>The identifiers of a list of operations\<close>

definition all_ids :: "po_operation \<Rightarrow> string list" where
  "all_ids op = op_id op # map cond_id (op_conditions op)"

definition editor_ids :: "po_operation list \<Rightarrow> string list" where
  "editor_ids ops = concat (map all_ids ops)"

definition known :: "clock \<Rightarrow> nat \<Rightarrow> string \<Rightarrow> bool" where
  "known clk n i \<longleftrightarrow> (\<exists>k < n. i = nextLocalId clk k)"

definition ops_ok :: "clock \<Rightarrow> nat \<Rightarrow> po_operation list \<Rightarrow> bool" where
  "ops_ok clk n ops \<longleftrightarrow> ops \<noteq> [] \<and> distinct (editor_ids ops) \<and> (\<forall>i \<in> set (editor_ids ops). known clk n i)
     \<and> (\<forall>op \<in> set ops. op_modes_ok op)"

lemma editor_ids_simps [simp]: "editor_ids [] = []" "editor_ids (op # ops) = all_ids op @ editor_ids ops"
  "editor_ids (ops @ ops') = editor_ids ops @ editor_ids ops'"
  by (simp_all add: editor_ids_def)

lemma op_id_all_ids [simp]: "op_id op \<in> set (all_ids op)"
  by (simp add: all_ids_def)

lemma op_ids_editor_ids: "op \<in> set ops \<Longrightarrow> op_id op \<in> set (editor_ids ops)"
  by (auto simp: editor_ids_def intro!: bexI [of _ op])

lemma distinct_op_ids: "distinct (editor_ids ops) \<Longrightarrow> distinct (map op_id ops)"
proof (induction ops)
  case (Cons op ops)
  have "op_id op \<notin> op_id ` set ops"
    using Cons.prems op_ids_editor_ids [of _ ops] op_id_all_ids [of op] by fastforce
  then show ?case using Cons by simp
qed simp

lemma distinct_mset_sub:
  assumes "mset xs \<subseteq># mset ys" and "distinct ys"
  shows "distinct xs"
  using assms
proof (induction xs arbitrary: ys)
  case (Cons x xs)
  have "x \<in># mset ys" using set_mset_mono [OF Cons.prems(1)] by simp
  then obtain as bs where ys: "ys = as @ x # bs" by (auto dest: split_list)
  then have sub: "mset xs \<subseteq># mset (as @ bs)" using Cons.prems(1) by simp
  have "distinct xs" by (rule Cons.IH [OF sub]) (use Cons.prems(2) ys in auto)
  moreover have "x \<notin> set xs" using set_mset_mono [OF sub] Cons.prems(2) ys by auto
  ultimately show ?case by simp
qed simp

lemma ops_ok_sub:
  assumes ok: "ops_ok clk n ops" and sub: "mset (editor_ids ops') \<subseteq># mset (editor_ids ops)"
    and "ops' \<noteq> []" and "\<forall>op \<in> set ops'. op_modes_ok op"
  shows "ops_ok clk n ops'"
proof -
  have "set (editor_ids ops') \<subseteq> set (editor_ids ops)"
    using set_mset_mono [OF sub] by simp
  then show ?thesis
    using assms distinct_mset_sub [OF sub] by (auto simp: ops_ok_def)
qed

lemma known_mono: "known clk n i \<Longrightarrow> n \<le> n' \<Longrightarrow> known clk n' i"
  by (auto simp: known_def intro: less_le_trans)

lemma ops_ok_mono: "ops_ok clk n ops \<Longrightarrow> n \<le> n' \<Longrightarrow> ops_ok clk n' ops"
  by (auto simp: ops_ok_def intro: known_mono)

lemma drawn_not_known:
  assumes "drawn clk n is n'" and "i \<in> set is"
  shows "\<not> known clk n i" and "known clk n' i"
  using drawn_ids [OF assms] by (auto simp: known_def nextLocalId_eq)

lemma drawn_le: "drawn clk n is n' \<Longrightarrow> n \<le> n'"
  by (simp add: drawn_def)

lemma ops_ok_add:
  assumes ok: "\<forall>i \<in> set is. known clk n i" "distinct is"
    and new: "drawn clk n js n'" and sub: "mset (editor_ids ops') \<subseteq># mset is + mset js"
    and "ops' \<noteq> []" and "\<forall>op \<in> set ops'. op_modes_ok op"
  shows "ops_ok clk n' ops'"
proof -
  have "distinct (is @ js)"
    using ok drawn_distinct [OF new] drawn_not_known(1) [OF new] by auto
  moreover have "mset (editor_ids ops') \<subseteq># mset (is @ js)" using sub by simp
  ultimately have "distinct (editor_ids ops')" by (rule distinct_mset_sub [rotated])
  moreover have "set (editor_ids ops') \<subseteq> set is \<union> set js"
    using set_mset_mono [OF sub] by simp
  ultimately show ?thesis
    using assms(1,5,6) drawn_not_known(2) [OF new] known_mono [OF _ drawn_le [OF new]]
    by (auto simp: ops_ok_def)
qed

lemma drawn_append: "drawn clk n is m \<Longrightarrow> drawn clk m js n' \<Longrightarrow> drawn clk n (is @ js) n'"
  unfolding drawn_def
  apply (elim conjE exE)
  subgoal for ks ls by (rule conjI, simp, rule exI [of _ "ks @ ls"]) (fastforce simp: sorted_wrt_append)
  done

lemma normalizeOperation_all_drawn:
  assumes "normalizeOperation clk n v = Some (op, n')"
  shows "drawn clk n (all_ids op) n'"
  using normalizeOperation_Some [OF assms] normalizeConditions_drawn
  by (fastforce simp: all_ids_def intro: drawn_Cons)

lemma normalizeOperations_all_drawn:
  "map_ids (normalizeOperation clk) n xs = Some (ops, n') \<Longrightarrow> drawn clk n (editor_ids ops) n'"
proof (induction xs arbitrary: n ops)
  case (Cons x xs)
  then obtain op m ops' where op: "normalizeOperation clk n x = Some (op, m)"
    and ops': "map_ids (normalizeOperation clk) m xs = Some (ops', n')" and ops: "ops = op # ops'"
    by (auto split: option.splits)
  show ?case using drawn_append [OF normalizeOperation_all_drawn [OF op] Cons.IH [OF ops']] by (simp add: ops)
qed simp

lemma normalizeOperations_ok:
  assumes "map_ids (normalizeOperation clk) n xs = Some (ops, n')" and "xs \<noteq> []"
  shows "ops_ok clk n' ops"
proof (rule ops_ok_add [of "[]"])
  show "drawn clk n (editor_ids ops) n'" by (rule normalizeOperations_all_drawn [OF assms(1)])
  show "\<forall>op \<in> set ops. op_modes_ok op" by (rule normalizeOperations_modes [OF assms(1)])
  show "ops \<noteq> []" using map_ids_length [OF assms(1)] assms(2) by auto
qed simp_all

lemma createDefault_drawn: "drawn clk n (all_ids (fst (createDefaultOperation clk n))) (snd (createDefaultOperation clk n))"
  by (rule normalizeOperation_all_drawn [of _ _ "JObj [(''mode'', JStr ''set'')]"]) (simp add: createDefaultOperation_Some)

lemma createDefault_modes: "op_modes_ok (fst (createDefaultOperation clk n))"
  using createDefaultOperation_Some [of clk n] by (metis normalizeOperation_modes prod.collapse)

lemma createDefault_ok: "ops_ok clk (snd (createDefaultOperation clk n)) [fst (createDefaultOperation clk n)]"
  by (rule ops_ok_add [of "[]", OF _ _ createDefault_drawn]) (simp_all add: createDefault_modes)

lemma operations_or_default_ok:
  assumes "operations_or_default clk n xs = Some (ops, n')"
  shows "ops_ok clk n' ops"
proof (cases "xs = []")
  case True
  then show ?thesis using assms createDefault_ok [of clk n] by (auto simp: operations_or_default_def case_prod_beta)
qed (use assms in \<open>auto simp: operations_or_default_def intro: normalizeOperations_ok\<close>)

lemma parseInitialState_ok:
  assumes "parseInitialState clk n value = Some (st, n')"
  shows "ops_ok clk n' (init_operations st)"
proof -
  have d: "init_with clk n em vm l j e = Some (st, n') \<Longrightarrow> ?thesis" for em vm l j e
    using createDefault_ok [of clk n] by (auto simp: init_with_def case_prod_beta)
  show ?thesis
    using assms unfolding parseInitialState_def Let_def
    by (auto split: if_splits option.splits json.splits intro: d operations_or_default_ok)
qed

section \<open>Every event keeps the operations well-formed\<close>

lemma map_operation_simps [simp]:
  "map_operation f i [] = []"
  "map_operation f i (op # ops) = (if op_id op = i then f op else op) # map_operation f i ops"
  by (simp_all add: map_operation_def)

lemma map_operation_eq_Nil [simp]: "map_operation f i ops = [] \<longleftrightarrow> ops = []"
  by (simp add: map_operation_def)

lemma map_operation_sub:
  assumes "\<And>op. mset (all_ids (f op)) \<subseteq># mset (all_ids op)"
  shows "mset (editor_ids (map_operation f i ops)) \<subseteq># mset (editor_ids ops)"
  using assms by (induction ops) (auto intro: subset_mset.add_mono)

lemma map_operation_modes:
  assumes "\<And>op. op_modes_ok op \<Longrightarrow> op_modes_ok (f op)" and "\<forall>op \<in> set ops. op_modes_ok op"
  shows "\<forall>op \<in> set (map_operation f i ops). op_modes_ok op"
  using assms by (auto simp: map_operation_def)

lemma ops_ok_map_operation:
  assumes "ops_ok clk n ops" and "\<And>op. mset (all_ids (f op)) \<subseteq># mset (all_ids op)"
    and "\<And>op. op_modes_ok op \<Longrightarrow> op_modes_ok (f op)"
  shows "ops_ok clk n (map_operation f i ops)"
  using assms by (intro ops_ok_sub [OF assms(1)] map_operation_sub map_operation_modes) (auto simp: ops_ok_def)

lemma put_op_field_ids [simp]: "all_ids (put_op_field p op) = all_ids op"
  by (cases p) (simp_all add: all_ids_def)

lemma fold_put_op_field_ids [simp]: "all_ids (fold put_op_field patch op) = all_ids op"
  by (induction patch arbitrary: op) simp_all

definition patch_ok :: "op_field list \<Rightarrow> bool" where
  "patch_ok patch \<longleftrightarrow> (\<forall>m. SetMode m \<in> set patch \<longrightarrow> m \<in> set OPERATION_MODE_VALUES) \<and>
     (\<forall>l. SetLogic l \<in> set patch \<longrightarrow> l \<in> {''AND'', ''OR''})"

lemma put_op_field_modes: "patch_ok [p] \<Longrightarrow> op_modes_ok op \<Longrightarrow> op_modes_ok (put_op_field p op)"
  by (cases p) (auto simp: op_modes_ok_def patch_ok_def)

lemma fold_put_op_field_modes:
  "patch_ok patch \<Longrightarrow> op_modes_ok op \<Longrightarrow> op_modes_ok (fold put_op_field patch op)"
proof (induction patch arbitrary: op)
  case (Cons p patch)
  then have "patch_ok [p]" "patch_ok patch" by (auto simp: patch_ok_def)
  with Cons show ?case by (auto intro: put_op_field_modes)
qed simp

lemma updateOperation_ok:
  "patch_ok patch \<Longrightarrow> ops_ok clk n (ed_operations ed) \<Longrightarrow> ops_ok clk n (ed_operations (updateOperation i patch ed))"
  by (auto simp: updateOperation_def intro: ops_ok_map_operation fold_put_op_field_modes)

lemma patch_ok_texts [simp]: "patch_ok [SetFrom s]" "patch_ok [SetTo s]" "patch_ok [SetValueText s]"
  by (simp_all add: patch_ok_def)

lemma put_cond_field_id [simp]: "cond_id (put_cond_field p c) = cond_id c"
  by (cases p) simp_all

lemma fold_put_cond_field_id [simp]: "cond_id (fold put_cond_field patch c) = cond_id c"
  by (induction patch arbitrary: c) simp_all

definition cond_patch_ok :: "cond_field list \<Rightarrow> bool" where
  "cond_patch_ok patch \<longleftrightarrow> (\<forall>m. SetCondMode m \<in> set patch \<longrightarrow> m \<in> set CONDITION_MODE_VALUES)"

lemma put_cond_field_modes: "cond_patch_ok [p] \<Longrightarrow> cond_modes_ok c \<Longrightarrow> cond_modes_ok (put_cond_field p c)"
  by (cases p) (auto simp: cond_modes_ok_def cond_patch_ok_def)

lemma fold_put_cond_field_modes:
  "cond_patch_ok patch \<Longrightarrow> cond_modes_ok c \<Longrightarrow> cond_modes_ok (fold put_cond_field patch c)"
proof (induction patch arbitrary: c)
  case (Cons p patch)
  then have "cond_patch_ok [p]" "cond_patch_ok patch" by (auto simp: cond_patch_ok_def)
  with Cons show ?case by (auto intro: put_cond_field_modes)
qed simp

lemma updateCondition_ok:
  assumes "cond_patch_ok patch" and "ops_ok clk n (ed_operations ed)"
  shows "ops_ok clk n (ed_operations (updateCondition i c patch ed))"
  using assms(1) unfolding updateCondition_def
  by simp (rule ops_ok_map_operation [OF assms(2)];
    force simp: all_ids_def comp_def if_distrib op_modes_ok_def intro: fold_put_cond_field_modes cong: if_cong)

lemma removeCondition_ok:
  assumes "ops_ok clk n (ed_operations ed)"
  shows "ops_ok clk n (ed_operations (removeCondition i c ed))"
  unfolding removeCondition_def
  by simp (rule ops_ok_map_operation [OF assms];
    auto simp: all_ids_def op_modes_ok_def image_mset_subseteq_mono multiset_filter_subset)

lemma map_operation_absent: "i \<notin> op_id ` set ops \<Longrightarrow> map_operation f i ops = ops"
  by (induction ops) auto

lemma map_operation_add:
  assumes "\<And>op. mset (all_ids (f op)) = add_mset x (mset (all_ids op))" and "distinct (map op_id ops)"
  shows "mset (editor_ids (map_operation f i ops)) \<subseteq># add_mset x (mset (editor_ids ops))"
  using assms(2)
proof (induction ops)
  case (Cons op ops)
  show ?case
  proof (cases "op_id op = i")
    case True
    then have "map_operation f i ops = ops" using Cons.prems by (intro map_operation_absent) auto
    then show ?thesis using True by (simp add: assms(1))
  next
    case False
    then show ?thesis using Cons by (simp add: subset_mset.add_left_mono)
  qed
qed simp

lemma addCondition_ok:
  assumes ok: "ops_ok clk (ed_seed ed) (ed_operations ed)"
  shows "ops_ok clk (ed_seed (addCondition clk i ed)) (ed_operations (addCondition clk i ed))"
proof -
  obtain c n' where c: "createDefaultCondition clk (ed_seed ed) = (c, n')" by fastforce
  have n: "normalizeCondition clk (ed_seed ed) (JObj []) = Some (c, n')"
    by (simp add: createDefaultCondition_Some c)
  have "drawn clk (ed_seed ed) [cond_id c] n'"
    using normalizeCondition_id [OF n] by (auto intro: drawn_Cons)
  then show ?thesis
    unfolding addCondition_def c
    using ok normalizeCondition_modes [OF n]
    by simp (rule ops_ok_add [of "editor_ids (ed_operations ed)" clk "ed_seed ed" "[cond_id c]"];
      (rule map_operation_modes)?; fastforce simp: ops_ok_def distinct_op_ids op_modes_ok_def all_ids_def
        intro: map_operation_add)
qed

lemma set_value_text_ids: "map (\<lambda>op. all_ids (op\<lparr>op_value_text := t op\<rparr>)) ops = map all_ids ops"
  by (simp add: all_ids_def)

lemma set_value_text_modes [simp]: "op_modes_ok (op\<lparr>op_value_text := s\<rparr>) = op_modes_ok op"
  by (simp add: op_modes_ok_def)

lemma updateReturnErrorDraft_ok:
  "ops_ok clk n (ed_operations ed) \<Longrightarrow> ops_ok clk n (ed_operations (updateReturnErrorDraft i patch ed))"
  by (auto simp: updateReturnErrorDraft_def all_ids_def intro!: ops_ok_map_operation)

text \<open>A prune updater that only moves the counter up changes nothing but value texts.\<close>

lemma parsePruneObjectsDraft_counter: "n \<le> snd (parsePruneObjectsDraft clk n t)"
  by (simp add: parsePruneObjectsDraft_def Let_def case_prod_beta normalize_rules_eq split: option.split json.split)

lemma update_prune_in_texts:
  assumes "\<And>n d. n \<le> snd (updater n d)"
  shows "n \<le> snd (update_prune_in clk updater i n ops) \<and>
    list_all2 (\<lambda>op op'. \<exists>t. op' = op\<lparr>op_value_text := t\<rparr>) ops (fst (update_prune_in clk updater i n ops))"
proof (induction ops arbitrary: n)
  case (Cons op ops)
  have self: "\<exists>t. op = op\<lparr>op_value_text := t\<rparr>" by (rule exI [of _ "op_value_text op"]) simp
  define n1 where "n1 = snd (parsePruneObjectsDraft clk n (op_value_text op))"
  define n2 where "n2 = snd (updater n1 (fst (parsePruneObjectsDraft clk n (op_value_text op))))"
  have "n \<le> n1" "n1 \<le> n2" using assms parsePruneObjectsDraft_counter by (simp_all add: n1_def n2_def)
  with Cons.IH [of n] Cons.IH [of n2] self show ?case
    by (auto simp: case_prod_beta Let_def n1_def [symmetric] n2_def [symmetric])
qed simp

lemma same_texts_ok:
  assumes "list_all2 (\<lambda>op op'. \<exists>t. op' = op\<lparr>op_value_text := t\<rparr>) ops ops'"
  shows "editor_ids ops' = editor_ids ops \<and> (ops' = [] \<longleftrightarrow> ops = [])
    \<and> ((\<forall>op \<in> set ops. op_modes_ok op) \<longrightarrow> (\<forall>op \<in> set ops'. op_modes_ok op))"
  using assms by (induction rule: list_all2_induct) (auto simp: all_ids_def)

lemma updatePruneObjectsDraft_ok:
  assumes "\<And>n d. n \<le> snd (updater n d)" and ok: "ops_ok clk (ed_seed ed) (ed_operations ed)"
  shows "ops_ok clk (ed_seed (updatePruneObjectsDraft clk i updater ed))
    (ed_operations (updatePruneObjectsDraft clk i updater ed))"
proof -
  have u: "ed_seed ed \<le> snd (update_prune_in clk updater i (ed_seed ed) (ed_operations ed)) \<and>
    list_all2 (\<lambda>op op'. \<exists>t. op' = op\<lparr>op_value_text := t\<rparr>) (ed_operations ed)
      (fst (update_prune_in clk updater i (ed_seed ed) (ed_operations ed)))"
    by (rule update_prune_in_texts [OF assms(1)])
  then have "ops_ok clk (ed_seed ed) (fst (update_prune_in clk updater i (ed_seed ed) (ed_operations ed)))"
    using same_texts_ok [OF conjunct2 [OF u]] ok by (simp add: ops_ok_def)
  then show ?thesis using ops_ok_mono u by (fastforce simp: updatePruneObjectsDraft_def case_prod_beta)
qed

lemma addOperation_ok:
  assumes ok: "ops_ok clk (ed_seed ed) (ed_operations ed)"
  shows "ops_ok clk (ed_seed (addOperation clk ed)) (ed_operations (addOperation clk ed))"
proof -
  show ?thesis
    using ok unfolding addOperation_def case_prod_beta Let_def
    by simp (rule ops_ok_add [of "editor_ids (ed_operations ed)", OF _ _ createDefault_drawn];
      auto simp: ops_ok_def createDefault_modes)
qed

lemma insert_nth_ids: "mset (editor_ids (insert_nth i op ops)) = mset (all_ids op) + mset (editor_ids ops)"
proof -
  have "mset (editor_ids (take i ops)) + mset (editor_ids (drop i ops)) = mset (editor_ids ops)"
    by (metis append_take_drop_id editor_ids_simps(3) mset_append)
  then show ?thesis by (simp add: insert_nth_def)
qed

lemma set_insert_nth: "set (insert_nth i x xs) = insert x (set xs)"
  by (metis mset_insert_nth set_mset_add_mset_insert set_mset_mset)

lemma duplicateOperation_ok:
  assumes ok: "ops_ok clk (ed_seed ed) (ed_operations ed)"
  shows "ops_ok clk (ed_seed (duplicateOperation clk i ed)) (ed_operations (duplicateOperation clk i ed))"
proof (cases "duplicateOperation clk i ed = ed")
  case False
  then obtain idx cloned n' v where c: "normalizeOperation clk (ed_seed ed) v = Some (cloned, n')"
    and ed': "duplicateOperation clk i ed = ed\<lparr>ed_operations := insert_nth (idx + 1) cloned (ed_operations ed),
                  ed_selected := op_id cloned, ed_seed := n'\<rparr>"
    by (auto simp: duplicateOperation_def split: option.splits)
  have "ops_ok clk n' (insert_nth (idx + 1) cloned (ed_operations ed))"
    by (rule ops_ok_add [of "editor_ids (ed_operations ed)", OF _ _ normalizeOperation_all_drawn [OF c]])
      (use ok normalizeOperation_modes [OF c] in \<open>auto simp: ops_ok_def insert_nth_ids set_insert_nth, simp_all add: insert_nth_def\<close>)
  then show ?thesis by (simp add: ed')
qed (simp add: ok)

lemma editor_ids_filter: "mset (editor_ids (filter p ops)) \<subseteq># mset (editor_ids ops)"
proof (induction ops)
  case (Cons op ops)
  then show ?case
    using subset_mset.add_increasing [of "mset (all_ids op)" "mset (editor_ids (filter p ops))" "mset (editor_ids ops)"]
    by (simp add: subset_mset.add_left_mono)
qed simp

lemma filter_distinct_ne:
  assumes "distinct (map f xs)" and "1 < length xs"
  shows "filter (\<lambda>x. f x \<noteq> i) xs \<noteq> []"
proof -
  obtain x y zs where xs: "xs = x # y # zs" using assms(2) by (cases xs; cases "tl xs") auto
  then show ?thesis using assms(1) by auto
qed

lemma removeOperation_ok:
  assumes ok: "ops_ok clk (ed_seed ed) (ed_operations ed)"
  shows "ops_ok clk (ed_seed (removeOperation clk i ed)) (ed_operations (removeOperation clk i ed))"
proof (cases "length (ed_operations ed) \<le> 1")
  case True
  then show ?thesis by (simp add: removeOperation_def case_prod_beta createDefault_ok)
next
  case False
  then have "filter (\<lambda>x. op_id x \<noteq> i) (ed_operations ed) \<noteq> []"
    using ok by (intro filter_distinct_ne) (auto simp: ops_ok_def intro: distinct_op_ids)
  then have "ops_ok clk (ed_seed ed) (filter (\<lambda>x. op_id x \<noteq> i) (ed_operations ed))"
    by (rule ops_ok_sub [OF ok editor_ids_filter]) (use ok in \<open>auto simp: ops_ok_def\<close>)
  then show ?thesis using False by (simp add: removeOperation_def)
qed

lemma mset_editor_ids: "mset ops = mset ops' \<Longrightarrow> mset (editor_ids ops) = mset (editor_ids ops')"
proof -
  have "mset (editor_ids xs) = sum_mset (image_mset (\<lambda>op. mset (all_ids op)) (mset xs))" for xs
    by (induction xs) simp_all
  then show "mset ops = mset ops' \<Longrightarrow> ?thesis" by simp
qed

lemma reorder_ok:
  assumes ok: "ops_ok clk n ops"
  shows "ops_ok clk n (reorderOperations ops s t pos)"
proof (rule ops_ok_sub [OF ok])
  show "mset (editor_ids (reorderOperations ops s t pos)) \<subseteq># mset (editor_ids ops)"
    using mset_editor_ids [OF mset_reorder [of ops s t pos]] by simp
  have "set (reorderOperations ops s t pos) = set ops" by (rule mset_eq_setD [OF mset_reorder])
  then show "\<forall>op \<in> set (reorderOperations ops s t pos). op_modes_ok op" "reorderOperations ops s t pos \<noteq> []"
    using ok by (auto simp: ops_ok_def)
qed

lemma handleDrop_ok:
  "ops_ok clk n (ed_operations ed) \<Longrightarrow> ops_ok clk n (ed_operations (handleDrop tr i ed)) \<and> ed_seed (handleDrop tr i ed) = ed_seed ed"
  by (simp add: handleDrop_def Let_def resetDragState_def reorder_ok)

lemma openDialog_ok:
  assumes "openDialog clk value ed = Some ed'"
  shows "ops_ok clk (ed_seed ed') (ed_operations ed')"
  using assms by (auto simp: openDialog_def intro: parseInitialState_ok)

lemma switchToVisualMode_ok:
  assumes "switchToVisualMode clk ed = Some ed'" and "ops_ok clk (ed_seed ed) (ed_operations ed)"
  shows "ops_ok clk (ed_seed ed') (ed_operations ed')"
proof -
  obtain fb n1 where fb: "createDefaultOperation clk (ed_seed ed) = (fb, n1)" by fastforce
  have d: "ops_ok clk n1 [fb]" using createDefault_ok [of clk "ed_seed ed"] by (simp add: fb)
  show ?thesis
    using assms d unfolding switchToVisualMode_def Let_def fb toast_def
    by (auto split: if_splits option.splits json.splits intro: operations_or_default_ok)
qed

lemma show_legacy_ok: "ops_ok clk (ed_seed (show_legacy clk t ed)) (ed_operations (show_legacy clk t ed))"
  using createDefault_ok [of clk "ed_seed ed"] by (simp add: show_legacy_def case_prod_beta)

lemma fillLegacy_ok:
  "ops_ok clk (ed_seed ed) (ed_operations ed) \<Longrightarrow>
    ops_ok clk (ed_seed (fillLegacy clk mode p ed)) (ed_operations (fillLegacy clk mode p ed))"
  by (simp add: fillLegacy_def Let_def show_legacy_ok toast_def split: option.split)

text \<open>The templates.\<close>

lemmas template_defs = TEMPLATE_PRESET_CONFIG_def OPERATION_TEMPLATE_def LEGACY_TEMPLATE_def
  HEADER_PASSTHROUGH_TEMPLATE_def GEMINI_IMAGE_4K_TEMPLATE_def AWS_BEDROCK_ANTHROPIC_COMPAT_TEMPLATE_def
  buildPassHeadersTemplate_def operations_object_def

lemma selected_preset_cases:
  "selected_preset ed \<in> snd ` set TEMPLATE_PRESET_CONFIG"
proof (cases "map_of TEMPLATE_PRESET_CONFIG (ed_presetKey ed)")
  case None
  then show ?thesis by (simp add: selected_preset_def) (simp add: TEMPLATE_PRESET_CONFIG_def)
next
  case (Some p)
  then show ?thesis using map_of_SomeD [OF Some] by (simp add: selected_preset_def rev_image_eqI)
qed

lemma presets_operations:
  "\<forall>p \<in> snd ` set TEMPLATE_PRESET_CONFIG. preset_kind p = OperationsKind \<longrightarrow> template_operations (preset_payload p) \<noteq> []"
  by (simp add: template_defs template_operations_def obj_get_Cons)

lemma fillOperations_ok:
  assumes "fillOperations clk mode xs ed = Some ed'" and ok: "ops_ok clk (ed_seed ed) (ed_operations ed)"
    and "xs \<noteq> []"
  shows "ops_ok clk (ed_seed ed') (ed_operations ed')"
proof (cases "mode = Append")
  case False
  then show ?thesis using assms(1) by (auto simp: fillOperations_def intro: operations_or_default_ok)
next
  case True
  define existing where "existing = (if ed_visualMode ed = OperationsMode
    then filter (\<lambda>x. \<not> isOperationBlank x) (ed_operations ed) else [])"
  from True assms(1) obtain app n' where a: "map_ids (normalizeOperation clk) (ed_seed ed) xs = Some (app, n')"
    and ed': "ed_operations ed' = (if existing @ app \<noteq> [] then existing @ app else app)" "ed_seed ed' = n'"
    by (auto simp: fillOperations_def Let_def existing_def)
  have ne: "app \<noteq> []" using map_ids_length [OF a] assms(3) by auto
  have "mset (editor_ids (existing @ app)) \<subseteq># mset (editor_ids (ed_operations ed)) + mset (editor_ids app)"
    using editor_ids_filter by (auto simp: existing_def subset_mset.add_right_mono)
  moreover have "\<forall>op \<in> set (existing @ app). op_modes_ok op"
    using ok normalizeOperations_modes [OF a] by (auto simp: existing_def ops_ok_def)
  ultimately have "ops_ok clk n' (existing @ app)"
    using ok ne by (intro ops_ok_add [OF _ _ normalizeOperations_all_drawn [OF a]]) (auto simp: ops_ok_def)
  then show ?thesis using ne by (simp add: ed')
qed

lemma fillTemplate_ok:
  assumes "fillTemplate clk mode ed = Some ed'" and "ops_ok clk (ed_seed ed) (ed_operations ed)"
  shows "ops_ok clk (ed_seed ed') (ed_operations ed')"
proof (cases "preset_kind (selected_preset ed)")
  case LegacyKind
  then show ?thesis using assms by (auto simp: fillTemplate_def Let_def intro: fillLegacy_ok)
next
  case OperationsKind
  then have "template_operations (preset_payload (selected_preset ed)) \<noteq> []"
    using presets_operations selected_preset_cases [of ed] by blast
  then show ?thesis using assms OperationsKind
    by (auto simp: fillTemplate_def Let_def intro: fillOperations_ok)
qed

lemma resetEditorState_ok: "ops_ok clk (ed_seed (resetEditorState clk ed)) (ed_operations (resetEditorState clk ed))"
  using createDefault_ok [of clk "ed_seed ed"] by (simp add: resetEditorState_def case_prod_beta)

lemmas quiet_defs = expandAllConditions_def collapseAllConditions_def setConditionExpanded_def
  switchToJsonMode_def handleJsonChange_def formatJson_def toast_def resetDragState_def
  handleDragStart_def handleDragOver_def

lemma quiet_events [simp]:
  "ed_operations (expandAllConditions ed) = ed_operations ed" "ed_seed (expandAllConditions ed) = ed_seed ed"
  "ed_operations (collapseAllConditions ed) = ed_operations ed" "ed_seed (collapseAllConditions ed) = ed_seed ed"
  "ed_operations (setConditionExpanded c b ed) = ed_operations ed" "ed_seed (setConditionExpanded c b ed) = ed_seed ed"
  "ed_operations (switchToJsonMode ed) = ed_operations ed" "ed_seed (switchToJsonMode ed) = ed_seed ed"
  "ed_operations (handleJsonChange s ed) = ed_operations ed" "ed_seed (handleJsonChange s ed) = ed_seed ed"
  "ed_operations (formatJson ed) = ed_operations ed" "ed_seed (formatJson ed) = ed_seed ed"
  "ed_operations (resetDragState ed) = ed_operations ed" "ed_seed (resetDragState ed) = ed_seed ed"
  "ed_operations (handleDragStart i ed) = ed_operations ed" "ed_seed (handleDragStart i ed) = ed_seed ed"
  "ed_operations (handleDragOver b i ed) = ed_operations ed" "ed_seed (handleDragOver b i ed) = ed_seed ed"
  by (simp_all add: quiet_defs Let_def split: option.split sum.split)

lemma same_seed [simp]:
  "ed_seed (updateOperation i patch ed) = ed_seed ed" "ed_seed (updateCondition i c cp ed) = ed_seed ed"
  "ed_seed (removeCondition i c ed) = ed_seed ed" "ed_seed (updateReturnErrorDraft i rp ed) = ed_seed ed"
  "ed_seed (formatValueText op ed) = ed_seed ed"
  by (simp_all add: updateOperation_def updateCondition_def removeCondition_def updateReturnErrorDraft_def
      formatValueText_def split: option.split)

lemma normalizePruneRule_counter: "n \<le> snd (normalizePruneRule clk n v)"
  by (simp add: normalizePruneRule_def)

lemma editor_event_ok:
  assumes "editor_event clk ed ed'" and "ops_ok clk (ed_seed ed) (ed_operations ed)"
  shows "ops_ok clk (ed_seed ed') (ed_operations ed')"
  using assms
proof (cases rule: editor_event.cases)
  case (ev_drafts d)
  then have "ed_operations ed' = ed_operations ed \<and> ed_seed ed \<le> ed_seed ed'"
    using parsePruneObjectsDraft_counter
    by (auto simp: pruneObjectsDraft_def case_prod_beta split: option.splits if_splits)
  then show ?thesis using assms(2) by (auto intro: ops_ok_mono)
next
  case (ev_update patch i)
  then show ?thesis using assms(2) by (simp add: updateOperation_ok patch_ok_def)
next
  case (ev_update_condition cpatch i c)
  then show ?thesis using assms(2) by (simp add: updateCondition_ok cond_patch_ok_def)
next
  case ev_prune
  then show ?thesis using assms(2) unfolding patchPruneObjectsDraft_def
    by simp (rule updatePruneObjectsDraft_ok; simp)
next
  case ev_add_rule
  then show ?thesis using assms(2) unfolding addPruneRule_def
    by simp (rule updatePruneObjectsDraft_ok; simp add: case_prod_beta normalizePruneRule_counter)
next
  case ev_update_rule
  then show ?thesis using assms(2) unfolding updatePruneRule_def
    by simp (rule updatePruneObjectsDraft_ok; simp)
next
  case ev_remove_rule
  then show ?thesis using assms(2) unfolding removePruneRule_def
    by simp (rule updatePruneObjectsDraft_ok; simp)
qed (use assms(2) in \<open>auto simp: ops_ok_mono addOperation_ok duplicateOperation_ok removeOperation_ok
      addCondition_ok removeCondition_ok updateReturnErrorDraft_ok updateOperation_ok
      setSyncFrom_def setSyncTo_def formatValueText_def handleDrop_ok resetEditorState_ok
      intro: openDialog_ok switchToVisualMode_ok fillTemplate_ok
      split: option.split\<close>)

section \<open>Properties\<close>

lemma reachable_ops_ok: "reachable clk ed \<Longrightarrow> ops_ok clk (ed_seed ed) (ed_operations ed)"
proof (induction rule: reachable.induct)
  case (reach_init n)
  then show ?case
    using createDefault_ok [of clk n] by (simp add: initial_editor_def settle_def case_prod_beta)
next
  case (reach_event ed ed')
  have "ed_operations (settle ed') = ed_operations ed'" "ed_seed (settle ed') = ed_seed ed'"
    by (simp_all add: settle_def)
  with editor_event_ok [OF reach_event.hyps(2) reach_event.IH] show ?case by simp
qed

lemma settle_selected:
  "ed_operations ed \<noteq> [] \<Longrightarrow> ed_selected (settle ed) \<in> op_id ` set (ed_operations (settle ed))"
proof (cases "\<exists>x \<in> set (ed_operations ed). op_id x = ed_selected ed")
  case True
  then show ?thesis by (auto simp: settle_def intro: rev_image_eqI)
next
  case False
  then show "ed_operations ed \<noteq> [] \<Longrightarrow> ?thesis"
    by (cases "ed_operations ed") (simp_all add: settle_def first_id_def)
qed

lemma settle_operations [simp]: "ed_operations (settle ed) = ed_operations ed"
  by (simp add: settle_def)

lemma reachable_settled: "reachable clk ed \<Longrightarrow> \<exists>ed'. ed = settle ed'"
  by (induction rule: reachable.induct) blast+

text \<open>
  C4: in every reachable state of the editor there is an operation, the selection is one of the
  operations, all identifiers of operations and conditions differ, the next identifier to be drawn
  is not in use, and every mode and logic is one that the editor offers.
\<close>

theorem editor_invariant:
  assumes "reachable clk ed"
  shows "ed_operations ed \<noteq> [] \<and> ed_selected ed \<in> op_id ` set (ed_operations ed) \<and>
    distinct (editor_ids (ed_operations ed)) \<and>
    nextLocalId clk (ed_seed ed) \<notin> set (editor_ids (ed_operations ed)) \<and>
    list_all op_modes_ok (ed_operations ed)"
proof -
  have ok: "ops_ok clk (ed_seed ed) (ed_operations ed)" by (rule reachable_ops_ok [OF assms])
  moreover have "ed_selected ed \<in> op_id ` set (ed_operations ed)"
  proof -
    obtain ed' where e: "ed = settle ed'" using reachable_settled [OF assms] by blast
    then have "ed_operations ed' \<noteq> []" using ok by (simp add: ops_ok_def)
    then show ?thesis unfolding e by (rule settle_selected)
  qed
  moreover have "\<not> known clk (ed_seed ed) (nextLocalId clk (ed_seed ed))"
    by (simp add: known_def nextLocalId_eq)
  ultimately show ?thesis by (auto simp: ops_ok_def list_all_iff)
qed

lemma editor_invariant_witness:
  "ed_selected (settle (initial_editor (\<lambda>_. 7) 0)) \<in> op_id ` set (ed_operations (settle (initial_editor (\<lambda>_. 7) 0)))"
  using editor_invariant [OF reach_init [of "\<lambda>_. 7" 0]] by blast

lemma parsed_rules_fresh:
  "r \<in> set (pr_rules (fst (parsePruneObjectsDraft clk n t))) \<Longrightarrow> \<exists>k \<ge> n. cond_id r = nextLocalId clk k"
  by (auto simp: parsePruneObjectsDraft_def Let_def case_prod_beta normalize_rules_eq prune_defaults_def
      normalizePruneRule_def split: option.splits json.splits if_splits)
    (blast intro: le_add1)+

lemma update_prune_in_cong:
  assumes "\<And>m t. n \<le> m \<Longrightarrow> u (snd (parsePruneObjectsDraft clk m t)) (fst (parsePruneObjectsDraft clk m t))
      = v (snd (parsePruneObjectsDraft clk m t)) (fst (parsePruneObjectsDraft clk m t))"
    and "\<And>m d. m \<le> snd (u m d)"
  shows "n \<le> m \<Longrightarrow> update_prune_in clk u i m ops = update_prune_in clk v i m ops"
proof (induction ops arbitrary: m)
  case (Cons op ops)
  let ?p = "parsePruneObjectsDraft clk m (op_value_text op)"
  have e: "u (snd ?p) (fst ?p) = v (snd ?p) (fst ?p)" by (rule assms(1) [OF Cons.prems])
  have "m \<le> snd ?p" by (rule parsePruneObjectsDraft_counter)
  moreover have "snd ?p \<le> snd (u (snd ?p) (fst ?p))" by (rule assms(2))
  ultimately have "n \<le> snd (v (snd ?p) (fst ?p))" using Cons.prems e by simp
  then show ?case using Cons.IH Cons.prems by (simp add: case_prod_beta Let_def e)
qed simp

lemma updatePruneObjectsDraft_cong:
  assumes "\<And>m t. ed_seed ed \<le> m \<Longrightarrow> u (snd (parsePruneObjectsDraft clk m t)) (fst (parsePruneObjectsDraft clk m t))
      = v (snd (parsePruneObjectsDraft clk m t)) (fst (parsePruneObjectsDraft clk m t))"
    and "\<And>m d. m \<le> snd (u m d)"
  shows "updatePruneObjectsDraft clk i u ed = updatePruneObjectsDraft clk i v ed"
  using update_prune_in_cong [OF assms, of "ed_seed ed"] by (simp add: updatePruneObjectsDraft_def)

text \<open>
  C5: an edit of a prune rule, or its removal, is lost. The identifier that a row of the form
  carries was drawn when the form was rendered; the callback reads the draft again, under new
  identifiers, so no rule matches and the text is written back as if nothing had been patched.
\<close>

theorem prune_rule_edit_lost:
  assumes "known clk (ed_seed ed) ruleId"
  shows "updatePruneRule clk i ruleId patch ed = patchPruneObjectsDraft clk i [] ed \<and>
    removePruneRule clk i ruleId ed = patchPruneObjectsDraft clk i [] ed"
proof -
  have ne: "cond_id r \<noteq> ruleId" if "ed_seed ed \<le> m" "r \<in> set (pr_rules (fst (parsePruneObjectsDraft clk m t)))" for m t r
    using parsed_rules_fresh [OF that(2)] that(1) assms by (auto simp: known_def nextLocalId_eq)
  have m: "map (\<lambda>r. if cond_id r = ruleId then fold put_cond_field patch r else r)
      (pr_rules (fst (parsePruneObjectsDraft clk m t))) = pr_rules (fst (parsePruneObjectsDraft clk m t))"
    if "ed_seed ed \<le> m" for m t
    using ne [OF that] by (intro map_idI) simp
  have f: "filter (\<lambda>r. cond_id r \<noteq> ruleId) (pr_rules (fst (parsePruneObjectsDraft clk m t)))
      = pr_rules (fst (parsePruneObjectsDraft clk m t))" if "ed_seed ed \<le> m" for m t
    using ne [OF that] by (intro filter_True) simp
  show ?thesis
    unfolding updatePruneRule_def removePruneRule_def patchPruneObjectsDraft_def
    by (intro conjI updatePruneObjectsDraft_cong) (simp_all add: m f)
qed

lemma prune_rule_edit_lost_witness:
  "removePruneRule (\<lambda>_. 7) ''po_7_0'' (nextLocalId (\<lambda>_. 7) 0) (initial_editor (\<lambda>_. 7) 3)
    = patchPruneObjectsDraft (\<lambda>_. 7) ''po_7_0'' [] (initial_editor (\<lambda>_. 7) 3)"
proof -
  have "ed_seed (initial_editor (\<lambda>_. 7) 3) = 4" by code_simp
  then have "known (\<lambda>_. 7) (ed_seed (initial_editor (\<lambda>_. 7) 3)) (nextLocalId (\<lambda>_. 7) 0)"
    unfolding known_def by (intro exI [of _ 0]) simp
  from prune_rule_edit_lost [OF this] show ?thesis by blast
qed

text \<open>What is written does not depend on the identifiers of the rules.\<close>

definition erase_ids :: "prune_draft \<Rightarrow> prune_draft" where
  "erase_ids d = d\<lparr>pr_rules := map (\<lambda>r. r\<lparr>cond_id := []\<rparr>) (pr_rules d)\<rparr>"

lemma build_erase_ids: "buildPruneObjectsValueText (erase_ids d) = buildPruneObjectsValueText d"
proof -
  have "map prune_condition_payload (filter (\<lambda>r. js_trim (cond_path r) \<noteq> []) (map (\<lambda>r. r\<lparr>cond_id := []\<rparr>) rs))
      = map prune_condition_payload (filter (\<lambda>r. js_trim (cond_path r) \<noteq> []) rs)" for rs
    by (induction rs) (simp_all add: prune_condition_payload_def)
  then have "prune_payload (erase_ids d) = prune_payload d"
    by (simp add: erase_ids_def prune_payload_def)
  then show ?thesis by (simp add: buildPruneObjectsValueText_def) (simp add: erase_ids_def)
qed

lemma parse_erase_ids:
  "erase_ids (fst (parsePruneObjectsDraft clk n t)) = erase_ids (fst (parsePruneObjectsDraft clk m t))"
  by (simp add: parsePruneObjectsDraft_def Let_def case_prod_beta normalize_rules_eq erase_ids_def
      normalizePruneRule_def comp_def split: option.split json.split)

lemma update_prune_in_same_texts:
  assumes "\<And>n n' m m' t. buildPruneObjectsValueText (fst (u n (fst (parsePruneObjectsDraft clk n' t))))
      = buildPruneObjectsValueText (fst (v m (fst (parsePruneObjectsDraft clk m' t))))"
  shows "fst (update_prune_in clk u i n ops) = fst (update_prune_in clk v i m ops)"
proof (induction ops arbitrary: n m)
  case (Cons op ops)
  show ?case
  proof (cases "op_id op = i")
    case True
    then show ?thesis using assms by (simp add: case_prod_beta Let_def) (rule Cons.IH)
  next
    case False
    then show ?thesis by (simp add: case_prod_beta Let_def) (rule Cons.IH)
  qed
qed simp

text \<open>
  adding a prune rule in the form does no more than switch the form to its advanced mode: the
  new rule names no path yet, and a rule without a path is not written.
\<close>

theorem added_prune_rule_lost:
  "ed_operations (addPruneRule clk i ed) = ed_operations (patchPruneObjectsDraft clk i [SetPrSimple False] ed)"
proof -
  have blank: "js_trim (cond_path (fst (normalizePruneRule clk n (JObj [])))) = []" for n
    by (simp add: normalizePruneRule_def js_prop_def string_or_empty_def)
  have add: "buildPruneObjectsValueText (d\<lparr>pr_simpleMode := False, pr_rules := pr_rules d @ [fst (normalizePruneRule clk n (JObj []))]\<rparr>)
      = buildPruneObjectsValueText (d\<lparr>pr_simpleMode := False\<rparr>)" for d n
    using blank by (simp add: buildPruneObjectsValueText_def prune_payload_def)
  have "buildPruneObjectsValueText (fst (parsePruneObjectsDraft clk n t)\<lparr>pr_simpleMode := False\<rparr>)
      = buildPruneObjectsValueText (fst (parsePruneObjectsDraft clk m t)\<lparr>pr_simpleMode := False\<rparr>)" for n m t
  proof -
    have e: "erase_ids (d\<lparr>pr_simpleMode := False\<rparr>) = (erase_ids d)\<lparr>pr_simpleMode := False\<rparr>" for d
      by (simp add: erase_ids_def)
    show ?thesis
      by (subst (1 2) build_erase_ids [symmetric]) (simp only: e parse_erase_ids [of clk n t m])
  qed
  then show ?thesis
    unfolding addPruneRule_def patchPruneObjectsDraft_def updatePruneObjectsDraft_def
    by (simp add: case_prod_beta Let_def) (rule update_prune_in_same_texts, simp add: add)
qed

section \<open>Switching, formatting, duplicating\<close>

text \<open>
  the Format button never changes the outcome of a save, whatever the mode.
\<close>

theorem format_keeps_save: "handleSave (formatJson ed) = handleSave ed"
proof (cases "json_parse (js_trim (ed_jsonText ed))")
  case None
  then show ?thesis by (simp add: handleSave_def formatJson_def Let_def toast_def buildVisualJson_def)
next
  case (Some v)
  then have ok: "json_ok v" by (rule pretty.parse_wf)
  then show ?thesis
    using Some pretty.parse_trim_print [OF ok] pretty.print_not_empty [OF ok]
    by (simp add: handleSave_def formatJson_def Let_def buildVisualJson_def json_text_trim)
qed

text \<open>
  switching to the JSON view and back keeps what is saved. From the visual editor with
  accepted, savable operations, a save in the JSON view, and a save after switching back, both
  give the text that a save before gave.
\<close>

theorem json_view_round_trip:
  assumes "ed_editMode ed = VisualEdit" and "ed_visualMode ed = OperationsMode"
    and "list_all savable (ed_operations ed)" and "handleSave ed = Inr txt" and "txt \<noteq> []"
  shows "handleSave (switchToJsonMode ed) = Inr txt \<and>
    (\<exists>ed'. switchToVisualMode clk (switchToJsonMode ed) = Some ed' \<and> handleSave ed' = Inr txt)"
proof -
  have b: "buildOperationsJson (ed_operations ed) True = Inr txt"
    using assms(1,2,4) by (simp add: handleSave_def buildVisualJson_def)
  have s: "\<forall>op \<in> set (ed_operations ed). savable op" using assms(3) by (simp add: list_all_iff)
  from saved_reload [OF s b assms(5), of clk "ed_seed ed"] obtain kept ops' n' where
    k: "kept \<noteq> []" "txt = json_pretty (override_json kept)"
    and l: "map_ids (normalizeOperation clk) (ed_seed ed) (map (\<lambda>op. JObj (operation_payload op)) kept) = Some (ops', n')"
    and again: "buildOperationsJson ops' True = Inr txt" by metis
  have j: "switchToJsonMode ed = ed\<lparr>ed_jsonText := txt, ed_jsonError := no_message, ed_editMode := JsonEdit\<rparr>"
    using assms(1,2) b by (simp add: switchToJsonMode_def buildVisualJson_def)
  have p: "js_trim txt = txt" "json_parse txt = Some (override_json kept)"
    unfolding k(2) by (rule json_text_trim, rule pretty.parse_print [OF override_json_ok])
  have "switchToVisualMode clk (switchToJsonMode ed) = map_option (\<lambda>(nextOps, n').
         ed\<lparr>ed_jsonText := txt, ed_visualMode := OperationsMode, ed_operations := nextOps,
            ed_selected := first_id nextOps, ed_legacyValue := [],
            ed_jsonError := no_message, ed_editMode := VisualEdit,
            ed_presetKey := ''operations_default'', ed_seed := n'\<rparr>)
       (operations_or_default clk (ed_seed ed) (map (\<lambda>op. JObj (operation_payload op)) kept))"
    using p assms(5) by (simp add: switchToVisualMode_def j Let_def case_prod_beta override_json_def obj_get_Cons)
  then show ?thesis
    using k(1) l again p assms(5) by (simp add: operations_or_default_def handleSave_def buildVisualJson_def j k(2) [symmetric])
qed

lemma json_view_round_trip_witness:
  "\<exists>txt. handleSave (switchToJsonMode ((initial_editor (\<lambda>_. 7) 3)\<lparr>ed_operations := [sample_operation]\<rparr>)) = Inr txt"
proof -
  let ?ed = "(initial_editor (\<lambda>_. 7) 3)\<lparr>ed_operations := [sample_operation]\<rparr>"
  have m: "ed_editMode ?ed = VisualEdit" "ed_visualMode ?ed = OperationsMode"
    by (simp_all add: initial_editor_def case_prod_beta)
  have s: "list_all savable (ed_operations ?ed)" by code_simp
  have h: "handleSave ?ed = Inr (json_pretty (override_json [sample_operation]))"
    using sample_built(1) m by (simp add: handleSave_def buildVisualJson_def)
  from json_view_round_trip [OF m s h sample_built(2)] show ?thesis by blast
qed

lemma map_filter_same: "list_all2 (\<lambda>x y. f y = f x) xs ys \<Longrightarrow> List.map_filter f ys = List.map_filter f xs"
  by (induction rule: list_all2_induct) (simp_all add: List.map_filter_simps split: option.split)

lemma clone_condition_payload:
  assumes "normalizeCondition clk n (clone_condition c) = Some (y, n')"
    and "cond_modes_ok c" and "loose_stable (cond_value_text c)"
  shows "buildConditionPayload y = buildConditionPayload c"
  using assms
  by (auto simp: normalizeCondition_def clone_condition_def js_prop_def obj_get_Cons string_or_empty_def
      mode_or_def cond_modes_ok_def buildConditionPayload_def Let_def loose_text)

lemma clone_payload:
  assumes n: "normalizeOperation clk n (clone_source op) = Some (op', n')" and ok: "savable op"
  shows "operation_payload op' = operation_payload op"
proof -
  have m: "op_modes_ok op" and st: "loose_stable (op_value_text op)"
    and cs: "\<forall>c \<in> set (op_conditions op). cond_modes_ok c \<and> loose_stable (cond_value_text c)"
    using ok by (auto simp: savable_def op_modes_ok_def)
  have "conditions_of (clone_source op) = map clone_condition (op_conditions op)"
    by (simp add: conditions_of_def clone_source_def js_prop_def obj_get_Cons)
  then have l: "map_ids (normalizeCondition clk) (Suc n) (map clone_condition (op_conditions op)) = Some (op_conditions op', n')"
    using normalizeOperation_Some [OF n] by simp
  have "list_all2 (\<lambda>x y. \<forall>c \<in> set (op_conditions op). x = clone_condition c \<longrightarrow>
      buildConditionPayload y = buildConditionPayload c) (map clone_condition (op_conditions op)) (op_conditions op')"
    by (rule map_ids_rel [OF l]) (use cs clone_condition_payload in blast)
  then have c: "List.map_filter buildConditionPayload (op_conditions op') = List.map_filter buildConditionPayload (op_conditions op)"
    by (intro map_filter_same) (auto simp: list_all2_conv_all_nth)
  have logic: "op_logic op = ''AND'' \<or> op_logic op = ''OR''" using m by (simp add: op_modes_ok_def)
  have mode: "mode_or OPERATION_MODE_VALUES ''set'' (Some (JStr (op_mode op))) = op_mode op"
    using m by (simp add: mode_or_def op_modes_ok_def)
  note f = normalizeOperation_fields [OF n, unfolded clone_source_def js_prop_def json.case, simplified obj_get_Cons, simplified]
  have "op_logic op' = op_logic op"
    using logic by (auto simp: f js_or_def js_to_string_def char_upper_def lower_letters_def upper_letters_def)
  then show ?thesis
    unfolding operation_payload_def Let_def c
    by (simp add: f string_or_empty_def mode loose_text [OF st])
qed

lemma clone_can_load: "\<not> cannot_load (clone_source op)"
proof -
  have "\<forall>v \<in> set (conditions_of (clone_source op)). v \<noteq> JNull"
    by (auto simp: conditions_of_def clone_source_def js_prop_def obj_get_Cons clone_condition_def)
  then show ?thesis by (auto simp: cannot_load_def clone_source_def js_prop_def obj_get_Cons)
qed

text \<open>
  duplicating an operation puts directly after it, and selects, a copy under a new identifier
  that is saved as exactly the same payload.
\<close>

theorem duplicate_saves_same:
  assumes "ed_operations ed = as @ src # bs" and "op_id src \<notin> op_id ` set as" and "savable src"
  shows "\<exists>cloned. ed_operations (duplicateOperation clk (op_id src) ed) = as @ src # cloned # bs \<and>
    operation_payload cloned = operation_payload src \<and>
    ed_selected (duplicateOperation clk (op_id src) ed) = op_id cloned \<and>
    op_id cloned = nextLocalId clk (ed_seed ed)"
proof -
  have i: "index_where (\<lambda>x. op_id x = op_id src) (ed_operations ed) = Some (length as)"
    unfolding assms(1) using assms(2) by (intro index_where_append) (auto simp: image_iff)
  obtain cloned n' where c: "normalizeOperation clk (ed_seed ed) (clone_source src) = Some (cloned, n')"
    using clone_can_load [of src] normalizeOperation_None [of clk "ed_seed ed" "clone_source src"] by auto
  have "ed_operations ed ! length as = src" by (simp add: assms(1))
  then have "duplicateOperation clk (op_id src) ed = ed\<lparr>ed_operations := insert_nth (length as + 1) cloned (ed_operations ed),
                  ed_selected := op_id cloned, ed_seed := n'\<rparr>"
    by (simp add: duplicateOperation_def i c)
  then show ?thesis
    using clone_payload [OF c assms(3)] normalizeOperation_Some [OF c] by (simp add: assms(1))
qed

lemma duplicate_saves_same_witness:
  "\<exists>cloned. ed_operations (duplicateOperation (\<lambda>_. 7) ''po_1_0''
      ((initial_editor (\<lambda>_. 7) 3)\<lparr>ed_operations := [sample_operation]\<rparr>)) = [sample_operation, cloned]"
proof -
  let ?ed = "(initial_editor (\<lambda>_. 7) 3)\<lparr>ed_operations := [sample_operation]\<rparr>"
  have "savable sample_operation" by code_simp
  from duplicate_saves_same [of ?ed "[]", OF _ _ this, of "[]" "\<lambda>_. 7"] show ?thesis
    by (auto simp: sample_operation_def)
qed

end
