(* ===== verification/StatusCodes.thy ===== *)
theory StatusCodes
  imports JsValue
begin

text \<open>
  HTTP status code rules (lib/http-status-code-rules.ts) and the guard on status code mappings
  (features/channels/lib/status-code-risk-guard.ts). The rules accept a full-width comma, so their
  texts are lists of code units; the guard works on JSON text. The arrow in an invalid entry's
  message is beyond a code unit of \<open>string\<close>, so such an entry is the pair of its two sides.
\<close>

section \<open>Rules\<close>

type_synonym units = "nat list"

abbreviation trim_units :: "units \<Rightarrow> units" where
  "trim_units \<equiv> trim_by ws_unit"

record status_range =
  rng_start :: nat
  rng_end :: nat

record parsed_rules =
  pr_ok :: bool
  pr_ranges :: "status_range list"
  pr_tokens :: "units list"
  pr_normalized :: units
  pr_invalid :: "units list"

definition is_digit_unit :: "nat \<Rightarrow> bool" where
  "is_digit_unit u \<longleftrightarrow> 48 \<le> u \<and> u \<le> 57"

text \<open>\<open>/^\d+$/.test(s)\<close>, for a segment that may be missing.\<close>

definition isNumber :: "units option \<Rightarrow> bool" where
  "isNumber s = (case s of None \<Rightarrow> False | Some t \<Rightarrow> t \<noteq> [] \<and> list_all is_digit_unit t)"

text \<open>\<open>Number.parseInt(s, 10)\<close> on digits.\<close>

definition parse_units :: "units \<Rightarrow> nat" where
  "parse_units t = foldl (\<lambda>a u. 10 * a + (u - 48)) 0 t"

definition show_units :: "nat \<Rightarrow> units" where
  "show_units n = map of_char (show_nat n)"

definition isValidCode :: "nat \<Rightarrow> bool" where
  "isValidCode code \<longleftrightarrow> 100 \<le> code \<and> code \<le> 599"

definition nth_part :: "nat \<Rightarrow> 'a list \<Rightarrow> 'a option" where
  "nth_part i xs = (if i < length xs then Some (xs ! i) else None)"

definition parseToken :: "units \<Rightarrow> status_range option" where
  "parseToken token =
     (let cleaned = filter (\<lambda>u. \<not> ws_unit u) (trim_units token)
      in if cleaned = [] then None
         else if 45 \<in> set cleaned then
           (let parts = js_split 45 cleaned; a = nth_part 0 parts; b = nth_part 1 parts
            in if \<not> isNumber a \<or> \<not> isNumber b then None
               else (let s = parse_units (the a); e = parse_units (the b)
                     in if \<not> isValidCode s \<or> \<not> isValidCode e \<or> s > e then None
                        else Some \<lparr>rng_start = s, rng_end = e\<rparr>))
         else if \<not> isNumber (Some cleaned) then None
         else (let code = parse_units cleaned
               in if \<not> isValidCode code then None else Some \<lparr>rng_start = code, rng_end = code\<rparr>))"

definition range_le :: "status_range \<Rightarrow> status_range \<Rightarrow> bool" where
  "range_le a b \<longleftrightarrow>
     (if rng_start a \<noteq> rng_start b then rng_start a \<le> rng_start b else rng_end a \<le> rng_end b)"

definition merge_step :: "status_range list \<Rightarrow> status_range \<Rightarrow> status_range list" where
  "merge_step merged current =
     (if merged = [] \<or> rng_start current > rng_end (last merged) + 1 then merged @ [current]
      else butlast merged @ [(last merged)\<lparr>rng_end := max (rng_end (last merged)) (rng_end current)\<rparr>])"

definition mergeRanges :: "status_range list \<Rightarrow> status_range list" where
  "mergeRanges ranges = (if ranges = [] then [] else foldl merge_step [] (sort_by range_le ranges))"

definition range_token :: "status_range \<Rightarrow> units" where
  "range_token r = (if rng_start r = rng_end r then show_units (rng_start r)
     else show_units (rng_start r) @ 45 # show_units (rng_end r))"

definition rule_segments :: "units \<Rightarrow> units list" where
  "rule_segments raw =
     filter nonempty (map trim_units (js_split 44 (map (\<lambda>u. if u = 65292 then 44 else u) raw)))"

definition parseHttpStatusCodeRules :: "units \<Rightarrow> parsed_rules" where
  "parseHttpStatusCodeRules input =
     (let raw = trim_units input
      in if raw = [] then
           \<lparr>pr_ok = True, pr_ranges = [], pr_tokens = [], pr_normalized = [], pr_invalid = []\<rparr>
         else
           (let segments = rule_segments raw;
                invalidTokens = filter (\<lambda>s. parseToken s = None) segments;
                ranges = List.map_filter parseToken segments
            in if invalidTokens \<noteq> [] then
                 \<lparr>pr_ok = False, pr_ranges = [], pr_tokens = [], pr_normalized = raw,
                  pr_invalid = invalidTokens\<rparr>
               else
                 (let merged = mergeRanges ranges; tokens = map range_token merged
                  in \<lparr>pr_ok = True, pr_ranges = merged, pr_tokens = tokens,
                      pr_normalized = js_join [44] tokens, pr_invalid = []\<rparr>)))"

section \<open>Facts: merging\<close>

definition covers :: "status_range list \<Rightarrow> nat \<Rightarrow> bool" where
  "covers rs c \<longleftrightarrow> (\<exists>r \<in> set rs. rng_start r \<le> c \<and> c \<le> rng_end r)"

definition range_ok :: "status_range \<Rightarrow> bool" where
  "range_ok r \<longleftrightarrow> 100 \<le> rng_start r \<and> rng_start r \<le> rng_end r \<and> rng_end r \<le> 599"

text \<open>Sorted, disjoint and with a gap between any two.\<close>

definition apart :: "status_range \<Rightarrow> status_range \<Rightarrow> bool" where
  "apart a b \<longleftrightarrow> rng_end a + 1 < rng_start b"

definition canonical :: "status_range list \<Rightarrow> bool" where
  "canonical rs \<longleftrightarrow> list_all range_ok rs \<and> sorted_wrt apart rs"

lemma range_le_total: "range_le a b \<or> range_le b a"
  by (auto simp: range_le_def)

lemma range_le_trans: "range_le a b \<Longrightarrow> range_le b c \<Longrightarrow> range_le a c"
  by (auto simp: range_le_def split: if_splits)

lemma range_le_start: "range_le a b \<Longrightarrow> rng_start a \<le> rng_start b"
  by (auto simp: range_le_def split: if_splits)

lemma covers_append [simp]: "covers (xs @ ys) c \<longleftrightarrow> covers xs c \<or> covers ys c"
  by (auto simp: covers_def)

lemma covers_simps [simp]: "\<not> covers [] c" "covers (r # rs) c \<longleftrightarrow> rng_start r \<le> c \<and> c \<le> rng_end r \<or> covers rs c"
  by (auto simp: covers_def)

lemma merge_step_canonical:
  assumes "canonical m" and "range_ok r" and "\<forall>x \<in> set m. rng_start x \<le> rng_start r"
  shows "canonical (merge_step m r) \<and> (\<forall>c. covers (merge_step m r) c \<longleftrightarrow> covers m c \<or> covers [r] c)
    \<and> (\<forall>x \<in> set (merge_step m r). rng_start x \<le> rng_start r)"
proof (cases m rule: rev_cases)
  case Nil
  then show ?thesis using assms by (simp add: merge_step_def canonical_def)
next
  case (snoc ys y)
  have ys: "\<forall>x \<in> set ys. apart x y" "list_all range_ok ys" "sorted_wrt apart ys" "range_ok y"
    using assms(1) by (auto simp: canonical_def snoc sorted_wrt_append)
  show ?thesis
  proof (cases "rng_start r > rng_end y + 1")
    case True
    have "\<forall>x \<in> set ys. apart x r" using ys(1,4) True by (fastforce simp: apart_def range_ok_def)
    then show ?thesis using True ys assms(2,3)
      by (auto simp: merge_step_def snoc canonical_def sorted_wrt_append apart_def)
  next
    case False
    have y: "rng_start y \<le> rng_start r" using assms(3) by (simp add: snoc)
    show ?thesis using False ys assms(2,3) y
      by (auto simp: merge_step_def snoc canonical_def sorted_wrt_append apart_def range_ok_def max_def)
  qed
qed

lemma foldl_merge_canonical:
  assumes "canonical m" and "list_all range_ok rs" and "sorted_wrt range_le rs"
    and "\<forall>x \<in> set m. \<forall>r \<in> set rs. rng_start x \<le> rng_start r"
  shows "canonical (foldl merge_step m rs) \<and> (\<forall>c. covers (foldl merge_step m rs) c \<longleftrightarrow> covers m c \<or> covers rs c)"
  using assms
proof (induction rs arbitrary: m)
  case (Cons r rs)
  have s: "canonical (merge_step m r) \<and> (\<forall>c. covers (merge_step m r) c \<longleftrightarrow> covers m c \<or> covers [r] c)
      \<and> (\<forall>x \<in> set (merge_step m r). rng_start x \<le> rng_start r)"
    using Cons.prems by (intro merge_step_canonical) auto
  then have "\<forall>x \<in> set (merge_step m r). \<forall>r' \<in> set rs. rng_start x \<le> rng_start r'"
    using Cons.prems(3) by (fastforce dest: range_le_start)
  with Cons.IH [of "merge_step m r"] Cons.prems s show ?case by auto
qed simp

lemma mergeRanges_canonical:
  assumes "list_all range_ok rs"
  shows "canonical (mergeRanges rs)" and "covers (mergeRanges rs) c \<longleftrightarrow> covers rs c"
proof -
  have "sorted_wrt range_le (sort_by range_le rs)"
    by (rule sorted_sort_by [OF range_le_total range_le_trans])
  then have "canonical (foldl merge_step [] (sort_by range_le rs)) \<and>
      (\<forall>c. covers (foldl merge_step [] (sort_by range_le rs)) c \<longleftrightarrow> covers [] c \<or> covers (sort_by range_le rs) c)"
    using assms by (intro foldl_merge_canonical) (auto simp: canonical_def list_all_iff)
  then show "canonical (mergeRanges rs)" "covers (mergeRanges rs) c \<longleftrightarrow> covers rs c"
    by (auto simp: mergeRanges_def canonical_def covers_def)
qed

lemma foldl_merge_id: "canonical (m @ rs) \<Longrightarrow> foldl merge_step m rs = m @ rs"
proof (induction rs arbitrary: m)
  case (Cons r rs)
  have "merge_step m r = m @ [r]"
    using Cons.prems by (cases m rule: rev_cases) (auto simp: merge_step_def canonical_def sorted_wrt_append apart_def)
  then show ?case using Cons by simp
qed simp

lemma mergeRanges_id:
  assumes "canonical rs"
  shows "mergeRanges rs = rs"
proof -
  have "sorted_wrt range_le rs"
  proof (rule sorted_wrt_mono_rel [of _ apart])
    show "sorted_wrt apart rs" using assms by (simp add: canonical_def)
    fix a b assume "a \<in> set rs" "b \<in> set rs" "apart a b"
    then show "range_le a b" using assms by (auto simp: canonical_def list_all_iff range_ok_def apart_def range_le_def)
  qed
  then show ?thesis using foldl_merge_id [of "[]" rs] assms by (simp add: mergeRanges_def sort_by_sorted)
qed

section \<open>Facts: tokens\<close>

lemma show_units_digits: "list_all is_digit_unit (show_units n)"
proof -
  have "is_digit c \<Longrightarrow> is_digit_unit (of_char c)" for c
    by (auto simp: is_digit_def is_digit_unit_def)
  then show ?thesis using show_nat_digits by (auto simp: list_all_iff show_units_def)
qed

lemma show_units_ne [simp]: "show_units n \<noteq> []"
  by (simp add: show_units_def)

lemma parse_show_units [simp]: "parse_units (show_units n) = n"
proof -
  have "foldl (\<lambda>a u. 10 * a + (u - 48)) a (map of_char ds) = foldl (\<lambda>a c. 10 * a + digit_val c) a ds" for a ds
    by (induction ds arbitrary: a) (simp_all add: digit_val_def)
  then show ?thesis
    using nat_of_digits_show_nat [of n] by (simp add: parse_units_def show_units_def nat_of_digits_def)
qed

lemma digit_unit_plain: "is_digit_unit u \<Longrightarrow> \<not> ws_unit u \<and> u \<noteq> 45 \<and> u \<noteq> 44 \<and> u \<noteq> 65292"
  by (auto simp: is_digit_unit_def ws_unit_def)

definition plain_unit :: "nat \<Rightarrow> bool" where
  "plain_unit u \<longleftrightarrow> \<not> ws_unit u \<and> u \<noteq> 44 \<and> u \<noteq> 65292"

lemma range_token_plain: "u \<in> set (range_token r) \<Longrightarrow> plain_unit u"
proof -
  assume "u \<in> set (range_token r)"
  then have "is_digit_unit u \<or> u = 45"
    using show_units_digits [of "rng_start r"] show_units_digits [of "rng_end r"]
    by (auto simp: range_token_def list_all_iff split: if_splits)
  then show "plain_unit u" using digit_unit_plain [of u] by (auto simp: plain_unit_def ws_unit_def)
qed

lemma range_token_ne [simp]: "range_token r \<noteq> []"
  by (simp add: range_token_def)

lemma trim_by_none: "\<forall>x \<in> set xs. \<not> p x \<Longrightarrow> trim_by p xs = xs"
  by (rule trim_by_id) (use hd_in_set last_in_set in blast)

lemma parse_range_token:
  assumes "range_ok r"
  shows "parseToken (range_token r) = Some r"
proof -
  have t: "trim_units (range_token r) = range_token r" "filter (\<lambda>u. \<not> ws_unit u) (range_token r) = range_token r"
    using range_token_plain [of _ r] by (auto simp: plain_unit_def intro: trim_by_none)
  have d: "45 \<notin> set (show_units n)" "\<forall>u \<in> set (show_units n). is_digit_unit u" for n
    using show_units_digits [of n] digit_unit_plain by (auto simp: list_all_iff)
  have num: "isNumber (Some (show_units n))" for n
    by (simp add: isNumber_def show_units_digits)
  have v: "isValidCode (rng_start r)" "isValidCode (rng_end r)" "rng_start r \<le> rng_end r"
    using assms by (auto simp: range_ok_def isValidCode_def)
  show ?thesis
  proof (cases "rng_start r = rng_end r")
    case True
    then show ?thesis using t d v num by (simp add: parseToken_def range_token_def Let_def)
  next
    case False
    have "js_split 45 (show_units (rng_start r) @ 45 # show_units (rng_end r))
        = [show_units (rng_start r), show_units (rng_end r)]"
      using d by (simp add: js_split_append js_split_none)
    then show ?thesis using t d v num False
      by (simp add: parseToken_def range_token_def Let_def nth_part_def)
  qed
qed

lemma parseToken_ok: "parseToken t = Some r \<Longrightarrow> range_ok r"
  by (auto simp: parseToken_def Let_def range_ok_def isValidCode_def split: if_splits)

lemma js_join_ends:
  assumes "xss \<noteq> []" and "\<forall>x \<in> set xss. x \<noteq> [] \<and> (\<forall>u \<in> set x. \<not> p u)" and "\<not> p sep"
  shows "\<forall>u \<in> set (js_join [sep] xss). \<not> p u"
  using assms set_js_join [of "[sep]" xss] by auto

lemma segments_of_tokens:
  assumes "xss \<noteq> []" and "\<forall>x \<in> set xss. x \<noteq> [] \<and> (\<forall>u \<in> set x. plain_unit u)"
  shows "rule_segments (js_join [44] xss) = xss" and "trim_units (js_join [44] xss) = js_join [44] xss"
proof -
  have c: "\<forall>x \<in> set xss. 44 \<notin> set x" using assms(2) by (auto simp: plain_unit_def)
  have "\<forall>u \<in> set (js_join [44] xss). u \<noteq> 65292"
    using set_js_join [of "[44]" xss] assms(2) by (fastforce simp: plain_unit_def)
  then have "map (\<lambda>u. if u = 65292 then 44 else u) (js_join [44] xss) = js_join [44] xss"
    by (intro map_idI) simp
  moreover have "map trim_units xss = xss"
    using assms(2) by (intro map_idI trim_by_none) (auto simp: plain_unit_def)
  ultimately show "rule_segments (js_join [44] xss) = xss"
    using assms js_split_join [OF assms(1) c] by (simp add: rule_segments_def)
  show "trim_units (js_join [44] xss) = js_join [44] xss"
    by (rule trim_by_none, rule js_join_ends [OF assms(1)]) (use assms(2) in \<open>auto simp: plain_unit_def ws_unit_def\<close>)
qed

lemma map_filter_Some: "\<forall>x \<in> set xs. f (g x) = Some x \<Longrightarrow> List.map_filter f (map g xs) = xs"
  by (induction xs) (simp_all add: List.map_filter_simps)

lemma parse_tokens:
  assumes "canonical rs"
  shows "parseHttpStatusCodeRules (js_join [44] (map range_token rs)) =
    \<lparr>pr_ok = True, pr_ranges = rs, pr_tokens = map range_token rs,
     pr_normalized = js_join [44] (map range_token rs), pr_invalid = []\<rparr>"
proof (cases "rs = []")
  case False
  have p: "map range_token rs \<noteq> []" "\<forall>x \<in> set (map range_token rs). x \<noteq> [] \<and> (\<forall>u \<in> set x. plain_unit u)"
    using False range_token_plain by auto
  have "\<forall>r \<in> set rs. parseToken (range_token r) = Some r"
    using assms by (auto simp: canonical_def list_all_iff parse_range_token)
  then have "filter (\<lambda>s. parseToken s = None) (map range_token rs) = []"
    and "List.map_filter parseToken (map range_token rs) = rs"
    by (simp_all add: filter_empty_conv map_filter_Some)
  moreover have "js_join [44] (map range_token rs) \<noteq> []"
    using False by (auto simp: js_join_eq_Nil)
  ultimately show ?thesis
    using segments_of_tokens [OF p] mergeRanges_id [OF assms]
    by (simp add: parseHttpStatusCodeRules_def Let_def)
qed (simp add: parseHttpStatusCodeRules_def)

lemma parsed_ranges_ok: "list_all range_ok (List.map_filter parseToken segs)"
  by (auto simp: list_all_iff List.map_filter_def dest: parseToken_ok)

text \<open>
  C6: the normal form of a rule text stands for it: parsing the normal form gives exactly the
  outcome that the text gave, whether the text was accepted or refused.
\<close>

theorem status_rules_normal_form:
  "parseHttpStatusCodeRules (pr_normalized (parseHttpStatusCodeRules s)) = parseHttpStatusCodeRules s"
proof (cases "trim_units s = [] \<or> filter (\<lambda>t. parseToken t = None) (rule_segments (trim_units s)) \<noteq> []")
  case True
  then show ?thesis by (auto simp: parseHttpStatusCodeRules_def Let_def)
next
  case False
  define rs where "rs = mergeRanges (List.map_filter parseToken (rule_segments (trim_units s)))"
  have "parseHttpStatusCodeRules s = \<lparr>pr_ok = True, pr_ranges = rs, pr_tokens = map range_token rs,
     pr_normalized = js_join [44] (map range_token rs), pr_invalid = []\<rparr>"
    using False by (simp add: parseHttpStatusCodeRules_def Let_def rs_def)
  moreover have "canonical rs" unfolding rs_def by (rule mergeRanges_canonical [OF parsed_ranges_ok])
  ultimately show ?thesis using parse_tokens by simp
qed

text \<open>
  C7: the ranges of an accepted rule text are within 100 to 599, in order and pairwise separated
  by at least one code, and they contain exactly the codes of its segments.
\<close>

theorem status_rules_canonical:
  assumes "pr_ok (parseHttpStatusCodeRules s)"
  shows "canonical (pr_ranges (parseHttpStatusCodeRules s)) \<and>
    (covers (pr_ranges (parseHttpStatusCodeRules s)) c \<longleftrightarrow>
      (\<exists>t r. t \<in> set (rule_segments (trim_units s)) \<and> parseToken t = Some r \<and> rng_start r \<le> c \<and> c \<le> rng_end r))"
proof (cases "trim_units s = []")
  case True
  then show ?thesis
    by (simp add: parseHttpStatusCodeRules_def canonical_def rule_segments_def)
next
  case False
  define rs where "rs = List.map_filter parseToken (rule_segments (trim_units s))"
  have "pr_ranges (parseHttpStatusCodeRules s) = mergeRanges rs"
    using assms False by (auto simp: parseHttpStatusCodeRules_def Let_def rs_def split: if_splits)
  moreover have ok: "list_all range_ok rs" unfolding rs_def by (rule parsed_ranges_ok)
  moreover have "covers rs c \<longleftrightarrow>
      (\<exists>t r. t \<in> set (rule_segments (trim_units s)) \<and> parseToken t = Some r \<and> rng_start r \<le> c \<and> c \<le> rng_end r)"
    by (fastforce simp: covers_def rs_def List.map_filter_def)
  ultimately show ?thesis using mergeRanges_canonical [OF ok] by simp
qed

lemma status_rules_canonical_witness:
  "canonical (pr_ranges (parseHttpStatusCodeRules (range_token \<lparr>rng_start = 500, rng_end = 503\<rparr>)))"
proof -
  have "canonical [\<lparr>rng_start = 500, rng_end = 503\<rparr>]" by (simp add: canonical_def range_ok_def)
  from parse_tokens [OF this] have "pr_ok (parseHttpStatusCodeRules (range_token \<lparr>rng_start = 500, rng_end = 503\<rparr>))"
    by simp
  from status_rules_canonical [OF this] show ?thesis by blast
qed

text \<open>
  a segment with a second dash is accepted and everything after the second part is ignored:
  \<open>400-401-x\<close> reads as the range from 400 to 401.
\<close>

theorem status_rules_ignore_third_part:
  "parseToken (show_units 400 @ 45 # show_units 401 @ 45 # rest) = Some \<lparr>rng_start = 400, rng_end = 401\<rparr>"
  if "\<forall>u \<in> set rest. \<not> ws_unit u" for rest
proof -
  let ?t = "show_units 400 @ 45 # show_units 401 @ 45 # rest"
  have d: "45 \<notin> set (show_units n)" "\<forall>u \<in> set (show_units n). \<not> ws_unit u" for n
    using show_units_digits [of n] digit_unit_plain by (auto simp: list_all_iff)
  have w: "\<forall>u \<in> set ?t. \<not> ws_unit u" using d that by (auto simp: ws_unit_def)
  have "js_split 45 ?t = show_units 400 # show_units 401 # js_split 45 rest"
    using d by (simp add: js_split_append)
  then show ?thesis
    using trim_by_none [OF w] filter_True [OF w]
    by (simp add: parseToken_def Let_def nth_part_def isNumber_def show_units_digits isValidCode_def)
qed

lemma status_rules_ignore_third_part_witness:
  "parseToken (show_units 400 @ 45 # show_units 401 @ 45 # [120]) = Some \<lparr>rng_start = 400, rng_end = 401\<rparr>"
  by (rule status_rules_ignore_third_part) (simp add: ws_unit_def)

section \<open>The guard on status code mappings\<close>

definition NON_REDIRECTABLE_STATUS_CODES :: "nat list" where
  "NON_REDIRECTABLE_STATUS_CODES = [504, 524]"

text \<open>\<open>/^[1-5]\d{2}$/\<close>.\<close>

definition is_status_text :: "string \<Rightarrow> bool" where
  "is_status_text s \<longleftrightarrow> (case s of [a, b, c] \<Rightarrow> a \<in> set ''12345'' \<and> is_digit b \<and> is_digit c | _ \<Rightarrow> False)"

definition parseStatusCodeKey :: "string \<Rightarrow> nat option" where
  "parseStatusCodeKey rawKey =
     (let normalized = js_trim rawKey
      in if \<not> is_status_text normalized then None else Some (nat_of_digits normalized))"

definition parseStatusCodeMappingTarget :: "json \<Rightarrow> nat option" where
  "parseStatusCodeMappingTarget rawValue = (case rawValue of
     JNum (Dec m e) \<Rightarrow> if e = 0 then (if 100 \<le> m \<and> m \<le> 599 then Some (nat m) else None) else None
   | JStr s \<Rightarrow>
       (let normalized = js_trim s
        in if \<not> is_status_text normalized then None
           else (let code = nat_of_digits normalized
                 in if 100 \<le> code \<and> code \<le> 599 then Some code else None))
   | _ \<Rightarrow> None)"

text \<open>The entries of a mapping text; none when it is blank, not JSON or not an object.\<close>

definition mapping_entries :: "string \<Rightarrow> (string \<times> json) list" where
  "mapping_entries s =
     (if js_trim s = [] then []
      else (case json_parse s of Some (JObj kvs) \<Rightarrow> kvs | _ \<Rightarrow> []))"

definition collectInvalidStatusCodeEntries :: "string \<Rightarrow> (string \<times> string) list" where
  "collectInvalidStatusCodeEntries s =
     map (\<lambda>(k, v). (k, json_to_string v))
       (filter (\<lambda>(k, v). parseStatusCodeKey k = None \<or> parseStatusCodeMappingTarget v = None)
         (mapping_entries s))"

definition risky_redirect :: "string \<times> json \<Rightarrow> string option" where
  "risky_redirect entry =
     (case (parseStatusCodeKey (fst entry), parseStatusCodeMappingTarget (snd entry)) of
        (Some fromCode, Some toCode) \<Rightarrow>
          if fromCode \<notin> set NON_REDIRECTABLE_STATUS_CODES then None
          else if fromCode = toCode then None
          else Some (show_nat fromCode @ '' -> '' @ show_nat toCode)
      | _ \<Rightarrow> None)"

definition collectDisallowedStatusCodeRedirects :: "string \<Rightarrow> string list" where
  "collectDisallowedStatusCodeRedirects s =
     sort (js_uniq (List.map_filter risky_redirect (mapping_entries s)))"

definition collectNewDisallowedStatusCodeRedirects :: "string \<Rightarrow> string \<Rightarrow> string list" where
  "collectNewDisallowedStatusCodeRedirects originalStr currentStr =
     (let currentRisky = collectDisallowedStatusCodeRedirects currentStr
      in if currentRisky = [] then []
         else filter (\<lambda>m. m \<notin> set (collectDisallowedStatusCodeRedirects originalStr)) currentRisky)"

lemma set_map_filter: "y \<in> set (List.map_filter f xs) \<longleftrightarrow> (\<exists>x \<in> set xs. f x = Some y)"
  by (force simp: List.map_filter_def)

lemma set_disallowed:
  "set (collectDisallowedStatusCodeRedirects s) = {m. \<exists>e \<in> set (mapping_entries s). risky_redirect e = Some m}"
  by (auto simp: collectDisallowedStatusCodeRedirects_def set_map_filter)

text \<open>
  the redirects to confirm after an edit are, in order and without repetition, exactly the
  moves of 504 or 524 to another valid code that the new mapping makes and the old one did not;
  so saving a mapping unchanged asks for nothing.
\<close>

theorem new_redirects_exact:
  "sorted (collectNewDisallowedStatusCodeRedirects orig cur) \<and>
    distinct (collectNewDisallowedStatusCodeRedirects orig cur) \<and>
    set (collectNewDisallowedStatusCodeRedirects orig cur) =
      {m. \<exists>k v from_code to_code. (k, v) \<in> set (mapping_entries cur) \<and>
          parseStatusCodeKey k = Some from_code \<and> parseStatusCodeMappingTarget v = Some to_code \<and>
          from_code \<in> {504, 524} \<and> to_code \<noteq> from_code \<and>
          m = show_nat from_code @ '' -> '' @ show_nat to_code}
      - set (collectDisallowedStatusCodeRedirects orig)"
proof -
  have new: "collectNewDisallowedStatusCodeRedirects orig cur =
      filter (\<lambda>m. m \<notin> set (collectDisallowedStatusCodeRedirects orig)) (collectDisallowedStatusCodeRedirects cur)"
    by (simp add: collectNewDisallowedStatusCodeRedirects_def Let_def)
  have risky: "risky_redirect (k, v) = Some m \<longleftrightarrow> (\<exists>f t. parseStatusCodeKey k = Some f \<and>
      parseStatusCodeMappingTarget v = Some t \<and> f \<in> {504, 524} \<and> t \<noteq> f \<and> m = show_nat f @ '' -> '' @ show_nat t)"
    for k v m
    by (auto simp: risky_redirect_def NON_REDIRECTABLE_STATUS_CODES_def split: option.splits)
  have "set (collectDisallowedStatusCodeRedirects cur) = {m. \<exists>k v. (k, v) \<in> set (mapping_entries cur) \<and> risky_redirect (k, v) = Some m}"
    unfolding set_disallowed by fastforce
  moreover have "sorted (collectDisallowedStatusCodeRedirects cur)" "distinct (collectDisallowedStatusCodeRedirects cur)"
    by (simp_all add: collectDisallowedStatusCodeRedirects_def)
  ultimately show ?thesis
    unfolding new risky by (auto intro: sorted_filter [of id, simplified])
qed

lemma digit_val_le: "is_digit c \<Longrightarrow> digit_val c \<le> 9"
  by (auto simp: is_digit_def digit_val_def)

lemma first_digit_val: "c \<in> set ''12345'' \<Longrightarrow> 1 \<le> digit_val c \<and> digit_val c \<le> 5"
  by (auto simp: digit_val_def)

lemma status_text_bounds:
  assumes "is_status_text x"
  shows "100 \<le> nat_of_digits x \<and> nat_of_digits x \<le> 599"
proof -
  obtain a b c where x: "x = [a, b, c]" "a \<in> set ''12345''" "is_digit b" "is_digit c"
    using assms by (auto simp: is_status_text_def split: list.splits)
  have "nat_of_digits x = 100 * digit_val a + 10 * digit_val b + digit_val c"
    by (simp add: x(1) nat_of_digits_def)
  then show ?thesis using first_digit_val [OF x(2)] digit_val_le [OF x(3)] digit_val_le [OF x(4)] by linarith
qed

text \<open>
  every entry of a mapping is reported as invalid or has two valid codes, never both; the
  guard on redirects looks at the valid ones only.
\<close>

theorem mapping_entry_classified:
  "(k, v) \<in> set (mapping_entries s) \<and> (k, json_to_string v) \<notin> set (collectInvalidStatusCodeEntries s)
    \<Longrightarrow> \<exists>f t. parseStatusCodeKey k = Some f \<and> parseStatusCodeMappingTarget v = Some t \<and>
        100 \<le> f \<and> f \<le> 599 \<and> 100 \<le> t \<and> t \<le> 599"
proof -
  assume a: "(k, v) \<in> set (mapping_entries s) \<and> (k, json_to_string v) \<notin> set (collectInvalidStatusCodeEntries s)"
  then obtain f t where f: "parseStatusCodeKey k = Some f" and t: "parseStatusCodeMappingTarget v = Some t"
    by (force simp: collectInvalidStatusCodeEntries_def)
  note status_text_bounds
  then have "100 \<le> f \<and> f \<le> 599" using f by (auto simp: parseStatusCodeKey_def Let_def split: if_splits)
  moreover have "100 \<le> t \<and> t \<le> 599"
    using t by (auto simp: parseStatusCodeMappingTarget_def Let_def split: json.splits dec.splits if_splits)
  ultimately show ?thesis using f t by blast
qed

lemma mapping_entry_classified_witness:
  "\<exists>f t. parseStatusCodeKey ''504'' = Some f \<and> parseStatusCodeMappingTarget (JNum (int_dec 500)) = Some t \<and>
        100 \<le> f \<and> f \<le> 599 \<and> 100 \<le> t \<and> t \<le> 599"
proof -
  let ?v = "JObj [(''504'', JNum (int_dec 500))]"
  have "json_ok ?v" by (simp add: obj_ok_def)
  then have p: "mapping_entries (json_stringify ?v) = [(''504'', JNum (int_dec 500))]"
    using compact.parse_print compact.print_not_empty by (simp add: mapping_entries_def json_text_trim del: json_text.simps)
  have "parseStatusCodeKey ''504'' \<noteq> None" "parseStatusCodeMappingTarget (JNum (int_dec 500)) \<noteq> None"
    by code_simp+
  then show ?thesis
    using mapping_entry_classified [of "''504''" "JNum (int_dec 500)" "json_stringify ?v"]
    unfolding p collectInvalidStatusCodeEntries_def by simp
qed

end
