(* ===== verification/TextLists.thy ===== *)
theory TextLists
  imports JsPrelude
begin

text \<open>
  Lists kept in a text: one item per comma or per line, white space around an item and empty items
  ignored. The forms keep models, groups and keys this way. What a client relies on is the locale
  \<open>text_list\<close>; the instances are the comma and the newline.
\<close>

definition sep_list :: "char \<Rightarrow> string \<Rightarrow> string list" where
  "sep_list c s = filter nonempty (map js_trim (js_split c s))"

text \<open>An item that can be kept: not empty, without the separator, trimmed.\<close>

definition item_ok :: "char \<Rightarrow> string \<Rightarrow> bool" where
  "item_ok c x \<longleftrightarrow> x \<noteq> [] \<and> c \<notin> set x \<and> js_trim x = x"

locale text_list =
  fixes read :: "string \<Rightarrow> string list" and join :: "string list \<Rightarrow> string" and ok :: "string \<Rightarrow> bool"
  assumes read_ok: "list_all ok (read s)"
    and read_join: "list_all ok xs \<Longrightarrow> read (join xs) = xs"
    and read_empty: "read [] = []"
begin

text \<open>Writing what was read is a normal form of the text.\<close>

lemma read_join_read [simp]: "read (join (read s)) = read s"
  by (rule read_join [OF read_ok])

lemma join_inj: "list_all ok xs \<Longrightarrow> list_all ok ys \<Longrightarrow> join xs = join ys \<Longrightarrow> xs = ys"
  by (metis read_join)

lemma read_edit:
  assumes "\<And>xs. set (f xs) \<subseteq> set xs"
  shows "read (join (f (read s))) = f (read s)"
  using assms [of "read s"] read_ok [of s] by (intro read_join) (auto simp: list_all_iff)

lemma read_uniq: "read (join (js_uniq (read s))) = js_uniq (read s)"
  by (rule read_edit) simp

lemma join_empty_iff: "list_all ok xs \<Longrightarrow> join xs = [] \<Longrightarrow> xs = []"
  using read_join [of xs] read_empty by simp

end

lemma sep_list_ok: "list_all (item_ok c) (sep_list c s)"
proof -
  have "c \<notin> set (js_trim x)" if "x \<in> set (js_split c s)" for x
    using split_by_no_sep [OF that, of c] set_trim_by by fastforce
  then show ?thesis by (auto simp: list_all_iff sep_list_def item_ok_def)
qed

lemma sep_list_join:
  assumes "list_all (item_ok c) xs"
  shows "sep_list c (js_join [c] xs) = xs"
proof (cases "xs = []")
  case False
  have s: "\<forall>x \<in> set xs. c \<notin> set x" using assms by (auto simp: list_all_iff item_ok_def)
  have "map js_trim xs = xs" using assms by (intro map_idI) (auto simp: list_all_iff item_ok_def)
  moreover have "filter nonempty xs = xs" using assms by (intro filter_True) (auto simp: list_all_iff item_ok_def)
  ultimately show ?thesis using js_split_join [OF False s] by (simp add: sep_list_def)
qed (simp add: sep_list_def)

lemma js_split_join_concat: "xs \<noteq> [] \<Longrightarrow> js_split c (js_join [c] xs) = concat (map (js_split c) xs)"
proof (induction xs)
  case (Cons x xs)
  have app: "js_split c (s @ c # t) = js_split c s @ js_split c t" for s t
    by (induction s) (auto split: list.split)
  show ?case
  proof (cases xs)
    case (Cons y zs)
    then show ?thesis using Cons.IH by (simp add: app)
  qed simp
qed simp

text \<open>Items that contain the separator are taken apart.\<close>

lemma sep_list_join_concat: "sep_list c (js_join [c] xs) = concat (map (sep_list c) xs)"
proof (cases "xs = []")
  case False
  have "filter nonempty (map js_trim (concat (map (js_split c) xs))) = concat (map (sep_list c) xs)"
    by (induction xs) (simp_all add: sep_list_def)
  then show ?thesis by (simp add: sep_list_def js_split_join_concat [OF False])
qed (simp add: sep_list_def)

lemma sep_list_Nil [simp]: "sep_list c [] = []"
  by (simp add: sep_list_def)

interpretation comma: text_list "sep_list CHR '',''" "js_join '',''" "item_ok CHR '',''"
  by unfold_locales (simp_all add: sep_list_ok sep_list_join)

interpretation lines: text_list "sep_list CHR 0x0A" "js_join [CHR 0x0A]" "item_ok CHR 0x0A"
  by unfold_locales (simp_all add: sep_list_ok sep_list_join)

end
