(* ===== verification/Channels.thy ===== *)
theory Channels
  imports JsValue TextLists Complex_Main
begin

text \<open>
  Channels as the console handles them: the constant tables (features/channels/constants.ts and
  lib/channel-type-config.ts), the record of a channel (features/channels/types.ts), and the
  helpers on channels (lib/channel-utils.ts, lib/multi-key-utils.ts). Amounts and averages are
  rational numbers where the code has binary64. A number that the code compares with a constant
  only is an integer when it counts something.
\<close>

section \<open>Tables\<close>

definition CHANNEL_TYPES :: "(nat \<times> string) list" where
  "CHANNEL_TYPES = [(0, ''Unknown''), (1, ''OpenAI''), (3, ''Azure''), (4, ''Ollama''),
     (6, ''OpenAIMax''), (7, ''OhMyGPT''), (8, ''Custom''), (9, ''AILS''), (10, ''AI Proxy''),
     (11, ''PaLM''), (12, ''API2GPT''), (13, ''AIGC2D''), (14, ''Anthropic''), (15, ''Baidu''),
     (16, ''Zhipu''), (17, ''Ali''), (18, ''Xunfei''), (19, ''360''), (20, ''OpenRouter''),
     (21, ''AI Proxy Library''), (22, ''FastGPT''), (23, ''Tencent''), (24, ''Gemini''),
     (25, ''Moonshot''), (26, ''Zhipu V4''), (27, ''Perplexity''), (31, ''LingYiWanWu''),
     (33, ''AWS''), (34, ''Cohere''), (35, ''MiniMax''), (36, ''SunoAPI''), (37, ''Dify''),
     (38, ''Jina''), (39, ''Cloudflare''), (40, ''SiliconFlow''), (41, ''Vertex AI''),
     (42, ''Mistral''), (43, ''DeepSeek''), (44, ''MokaAI''), (45, ''VolcEngine''),
     (46, ''Baidu V2''), (47, ''Xinference''), (48, ''xAI''), (49, ''Coze''), (50, ''Kling''),
     (51, ''Jimeng''), (52, ''Vidu''), (53, ''Submodel''), (54, ''DoubaoVideo''), (55, ''Sora''),
     (56, ''Replicate''), (57, ''Codex'')]"

definition CHANNEL_TYPE_DISPLAY_ORDER :: "nat list" where
  "CHANNEL_TYPE_DISPLAY_ORDER = [1, 14, 33, 24, 43, 3, 41, 48, 42, 34, 20, 4, 40, 27, 25, 17, 26,
     15, 46, 23, 18, 45, 31, 35, 49, 19, 47, 37, 38, 39, 11, 8, 57, 22, 21, 44, 53, 56]"

definition HIDDEN_CHANNEL_TYPES :: "nat list" where
  "HIDDEN_CHANNEL_TYPES = [36, 50, 51, 52, 54, 55]"

text \<open>The two loops that build the options: the display order first, then what it left out. An
  integer key is enumerated in ascending order, which is the order of the table.\<close>

definition ordered_step :: "(nat \<times> string) list \<Rightarrow> nat \<Rightarrow> (nat \<times> string) list" where
  "ordered_step ordered i =
     (if i \<in> set HIDDEN_CHANNEL_TYPES then ordered
      else (case map_of CHANNEL_TYPES i of
          Some label \<Rightarrow> if label \<noteq> [] then ordered @ [(i, label)] else ordered
        | None \<Rightarrow> ordered))"

definition CHANNEL_TYPE_OPTIONS :: "(nat \<times> string) list" where
  "CHANNEL_TYPE_OPTIONS =
     (let ordered = foldl ordered_step [] CHANNEL_TYPE_DISPLAY_ORDER; seen = map fst ordered
      in ordered @ filter (\<lambda>(i, label). i \<noteq> 0 \<and> i \<notin> set HIDDEN_CHANNEL_TYPES \<and> i \<notin> set seen) CHANNEL_TYPES)"

record badge =
  badge_variant :: string
  badge_label :: string

definition CHANNEL_STATUS_CONFIG :: "(int \<times> badge) list" where
  "CHANNEL_STATUS_CONFIG = [
     (0, \<lparr>badge_variant = ''neutral'', badge_label = ''Unknown''\<rparr>),
     (1, \<lparr>badge_variant = ''success'', badge_label = ''Enabled''\<rparr>),
     (2, \<lparr>badge_variant = ''danger'', badge_label = ''Disabled''\<rparr>),
     (3, \<lparr>badge_variant = ''warning'', badge_label = ''Auto Disabled''\<rparr>)]"

definition MULTI_KEY_STATUS_CONFIG :: "(int \<times> badge) list" where
  "MULTI_KEY_STATUS_CONFIG = [
     (1, \<lparr>badge_variant = ''success'', badge_label = ''Enabled''\<rparr>),
     (2, \<lparr>badge_variant = ''neutral'', badge_label = ''Manual Disabled''\<rparr>),
     (3, \<lparr>badge_variant = ''danger'', badge_label = ''Auto Disabled''\<rparr>)]"

definition MODEL_FETCHABLE_TYPES :: "nat list" where
  "MODEL_FETCHABLE_TYPES = [1, 4, 14, 17, 20, 23, 24, 25, 26, 27, 31, 34, 35, 40, 42, 43, 47, 48]"

definition TYPE_TO_KEY_PROMPT :: "(nat \<times> string) list" where
  "TYPE_TO_KEY_PROMPT = [
     (15, ''Format: APIKey|SecretKey''),
     (18, ''Format: APPID|APISecret|APIKey''),
     (22, ''Format: APIKey-AppId, e.g., fastgpt-0sp2gtvfdgyi4k30jwlgwf1i-64f335d84283f05518e9e041''),
     (23, ''Format: AppId|SecretId|SecretKey''),
     (33, ''Format: Ak|Sk|Region''),
     (50, ''Format: AccessKey|SecretKey (or just ApiKey if upstream is New API)''),
     (51, ''Format: Access Key ID|Secret Access Key''),
     (57, ''Paste Codex OAuth JSON credential (access_token / refresh_token / account_id)'')]"

definition RESPONSE_TIME_CONFIG :: "(string \<times> badge) list" where
  "RESPONSE_TIME_CONFIG = [
     (''EXCELLENT'', \<lparr>badge_variant = ''success'', badge_label = ''Excellent''\<rparr>),
     (''GOOD'', \<lparr>badge_variant = ''info'', badge_label = ''Good''\<rparr>),
     (''FAIR'', \<lparr>badge_variant = ''warning'', badge_label = ''Fair''\<rparr>),
     (''POOR'', \<lparr>badge_variant = ''danger'', badge_label = ''Poor''\<rparr>),
     (''UNKNOWN'', \<lparr>badge_variant = ''neutral'', badge_label = ''Not tested''\<rparr>)]"

definition response_config :: "string \<Rightarrow> badge" where
  "response_config k = the (map_of RESPONSE_TIME_CONFIG k)"

section \<open>Configuration per type\<close>

text \<open>The one key format is a prefix.\<close>

record channel_type_config =
  ctc_id :: nat
  ctc_name :: string
  ctc_icon :: string
  ctc_defaultBaseUrl :: "string option"
  ctc_requiresOrganization :: bool
  ctc_requiresRegion :: bool
  ctc_hints :: "(string \<times> string) list"
  ctc_keyPrefix :: "string option"
  ctc_keyMinLength :: "nat option"

definition type_name :: "nat \<Rightarrow> string" where
  "type_name i = or_default (map_of CHANNEL_TYPES i) ''Unknown''"

definition plain_config :: "nat \<Rightarrow> string \<Rightarrow> channel_type_config" where
  "plain_config i icon = \<lparr>ctc_id = i, ctc_name = type_name i, ctc_icon = icon, ctc_defaultBaseUrl = None,
     ctc_requiresOrganization = False, ctc_requiresRegion = False, ctc_hints = [], ctc_keyPrefix = None,
     ctc_keyMinLength = None\<rparr>"

definition CHANNEL_TYPE_CONFIGS :: "(nat \<times> channel_type_config) list" where
  "CHANNEL_TYPE_CONFIGS = [
     (1, (plain_config 1 ''openai'')\<lparr>ctc_defaultBaseUrl := Some ''https://api.openai.com'',
        ctc_requiresOrganization := True,
        ctc_hints := [(''baseUrl'', ''Default: https://api.openai.com''), (''key'', ''Format: sk-...''),
          (''models'', ''gpt-4,gpt-4-turbo,gpt-3.5-turbo'')],
        ctc_keyPrefix := Some ''sk-'', ctc_keyMinLength := Some 20\<rparr>),
     (3, (plain_config 3 ''azure'')\<lparr>ctc_requiresRegion := True,
        ctc_hints := [(''baseUrl'', ''Azure OpenAI Endpoint''), (''key'', ''Azure API Key''),
          (''models'', ''Deployment names'')]\<rparr>),
     (14, (plain_config 14 ''anthropic'')\<lparr>ctc_defaultBaseUrl := Some ''https://api.anthropic.com'',
        ctc_hints := [(''key'', ''Format: sk-ant-...''),
          (''models'', ''claude-3-opus,claude-3-sonnet,claude-3-haiku'')]\<rparr>),
     (24, (plain_config 24 ''google'')\<lparr>
        ctc_hints := [(''key'', ''Google API Key''), (''models'', ''gemini-pro,gemini-pro-vision'')]\<rparr>),
     (41, (plain_config 41 ''google'')\<lparr>ctc_requiresRegion := True,
        ctc_hints := [(''key'', ''Service account JSON or API key''),
          (''models'', ''gemini-pro,gemini-1.5-pro''),
          (''other'', ''Region config: {\"default\": \"us-central1\"}'')]\<rparr>),
     (43, (plain_config 43 ''deepseek'')\<lparr>ctc_defaultBaseUrl := Some ''https://api.deepseek.com'',
        ctc_hints := [(''key'', ''DeepSeek API Key''), (''models'', ''deepseek-chat,deepseek-coder'')]\<rparr>),
     (20, (plain_config 20 ''openrouter'')\<lparr>ctc_defaultBaseUrl := Some ''https://openrouter.ai/api'',
        ctc_hints := [(''key'', ''OpenRouter API Key''), (''models'', ''Use model IDs from OpenRouter'')]\<rparr>),
     (56, (plain_config 56 ''replicate'')\<lparr>ctc_defaultBaseUrl := Some ''https://api.replicate.com'',
        ctc_hints := [(''key'', ''Replicate API Token''), (''models'', ''Replicate model IDs''),
          (''baseUrl'', ''Default: https://api.replicate.com'')]\<rparr>)]"

definition getChannelTypeConfig :: "nat \<Rightarrow> channel_type_config" where
  "getChannelTypeConfig i = (case map_of CHANNEL_TYPE_CONFIGS i of
     Some c \<Rightarrow> c | None \<Rightarrow> plain_config i ''openai'')"

definition requiresOrganization :: "nat \<Rightarrow> bool" where
  "requiresOrganization i = (case map_of CHANNEL_TYPE_CONFIGS i of
     Some c \<Rightarrow> ctc_requiresOrganization c | None \<Rightarrow> False)"

definition requiresRegion :: "nat \<Rightarrow> bool" where
  "requiresRegion i = (case map_of CHANNEL_TYPE_CONFIGS i of
     Some c \<Rightarrow> ctc_requiresRegion c | None \<Rightarrow> False)"

definition getDefaultBaseUrl :: "nat \<Rightarrow> string" where
  "getDefaultBaseUrl i = (case map_of CHANNEL_TYPE_CONFIGS i of
     Some c \<Rightarrow> or_default (ctc_defaultBaseUrl c) [] | None \<Rightarrow> [])"

definition getChannelTypeHints :: "nat \<Rightarrow> (string \<times> string) list" where
  "getChannelTypeHints i = (case map_of CHANNEL_TYPE_CONFIGS i of Some c \<Rightarrow> ctc_hints c | None \<Rightarrow> [])"

definition validateKeyFormat :: "nat \<Rightarrow> string \<Rightarrow> bool" where
  "validateKeyFormat i key = (case map_of CHANNEL_TYPE_CONFIGS i of
     None \<Rightarrow> True
   | Some c \<Rightarrow>
       (case ctc_keyMinLength c of Some n \<Rightarrow> \<not> length key < n | None \<Rightarrow> True) \<and>
       (case ctc_keyPrefix c of Some p \<Rightarrow> prefix p key | None \<Rightarrow> True))"

section \<open>Channels\<close>

record channel_info =
  ci_is_multi_key :: bool
  ci_multi_key_size :: int
  ci_multi_key_status_list :: "(string \<times> int) list option"
  ci_multi_key_disabled_reason :: "(string \<times> string) list option"
  ci_multi_key_disabled_time :: "(string \<times> int) list option"
  ci_multi_key_polling_index :: int
  ci_multi_key_mode :: string

text \<open>A nullish field is an option; \<open>ch_channel_info\<close> is one because the code allows for its
  absence.\<close>

record channel =
  ch_id :: int
  ch_type :: nat
  ch_key :: string
  ch_openai_organization :: "string option"
  ch_test_model :: "string option"
  ch_status :: int
  ch_name :: string
  ch_weight :: "int option"
  ch_created_time :: int
  ch_test_time :: int
  ch_response_time :: rat
  ch_base_url :: "string option"
  ch_other :: string
  ch_balance :: rat
  ch_balance_updated_time :: int
  ch_models :: string
  ch_group :: string
  ch_used_quota :: rat
  ch_model_mapping :: "string option"
  ch_status_code_mapping :: "string option"
  ch_priority :: "int option"
  ch_auto_ban :: "int option"
  ch_other_info :: string
  ch_tag :: "string option"
  ch_setting :: "string option"
  ch_param_override :: "string option"
  ch_header_override :: "string option"
  ch_remark :: string
  ch_max_input_tokens :: int
  ch_channel_info :: "channel_info option"
  ch_settings :: string

section \<open>Labels and badges\<close>

definition getChannelTypeLabel :: "nat \<Rightarrow> string" where
  "getChannelTypeLabel i = or_default (map_of CHANNEL_TYPES i) ''Unknown''"

definition TYPE_TO_ICON :: "(nat \<times> string) list" where
  "TYPE_TO_ICON = [(1, ''OpenAI''), (6, ''OpenAI''), (7, ''OpenAI''), (8, ''OpenAI''), (3, ''Azure''),
     (14, ''Claude''), (24, ''Gemini''), (11, ''Google''), (41, ''Gemini''), (33, ''Aws''),
     (39, ''Cloudflare''), (15, ''Baidu''), (46, ''Baidu''), (16, ''Zhipu''), (26, ''Zhipu''),
     (17, ''Qwen''), (18, ''Spark''), (23, ''Hunyuan''), (19, ''Ai360''), (25, ''Moonshot''),
     (31, ''Yi''), (35, ''Minimax''), (45, ''Volcengine''), (4, ''Ollama''), (27, ''Perplexity''),
     (34, ''Cohere''), (42, ''Mistral''), (43, ''DeepSeek''), (48, ''XAI''), (49, ''Coze''),
     (40, ''SiliconCloud''), (44, ''OpenAI''), (20, ''OpenRouter''), (50, ''Kling''), (51, ''Jimeng''),
     (52, ''Vidu''), (36, ''Suno''), (55, ''OpenAI''), (54, ''Doubao''), (56, ''Replicate''),
     (37, ''Dify''), (38, ''Jina''), (22, ''FastGPT''), (47, ''Xinference''), (53, ''OpenAI''),
     (10, ''OpenAI''), (21, ''OpenAI''), (12, ''OpenAI''), (13, ''OpenAI''), (9, ''OpenAI'')]"

definition getChannelTypeIcon :: "nat \<Rightarrow> string" where
  "getChannelTypeIcon i = or_default (map_of TYPE_TO_ICON i) ''OpenAI''"

definition getChannelStatusBadge :: "int \<Rightarrow> badge" where
  "getChannelStatusBadge status = (case map_of CHANNEL_STATUS_CONFIG status of
     Some b \<Rightarrow> b | None \<Rightarrow> the (map_of CHANNEL_STATUS_CONFIG 0))"

definition getMultiKeyStatusBadge :: "int \<Rightarrow> badge" where
  "getMultiKeyStatusBadge status = (case map_of MULTI_KEY_STATUS_CONFIG status of
     Some b \<Rightarrow> b | None \<Rightarrow> the (map_of MULTI_KEY_STATUS_CONFIG 1))"

definition isChannelEnabled :: "channel \<Rightarrow> bool" where
  "isChannelEnabled channel \<longleftrightarrow> ch_status channel = 1"

definition isMultiKeyChannel :: "channel \<Rightarrow> bool" where
  "isMultiKeyChannel channel = (case ch_channel_info channel of None \<Rightarrow> False | Some i \<Rightarrow> ci_is_multi_key i)"

section \<open>Keys and lists\<close>

definition key_lines :: "string \<Rightarrow> string list" where
  "key_lines key = filter (\<lambda>k. js_trim k \<noteq> []) (js_split newline key)"

definition formatChannelKey :: "string \<Rightarrow> bool \<Rightarrow> string" where
  "formatChannelKey key isMultiKey =
     (if key = [] then []
      else if isMultiKey then show_nat (length (key_lines key)) @ '' keys''
      else if length key \<le> 16 then js_slice 0 4 key @ ''...'' @ js_slice_last 4 key
      else js_slice 0 8 key @ ''...'' @ js_slice_last 8 key)"

definition formatKeyPreview :: "string \<Rightarrow> nat \<Rightarrow> string" where
  "formatKeyPreview key maxLength =
     (if key = [] then []
      else if length key \<le> maxLength then key
      else js_slice 0 maxLength key @ ''...'')"

definition countKeys :: "string \<Rightarrow> nat" where
  "countKeys key = (if key = [] then 0 else length (key_lines key))"

text \<open>\<open>s.split(',').map(trim).filter(nonempty)\<close>, which the code repeats.\<close>

abbreviation comma_list :: "string \<Rightarrow> string list" where
  "comma_list \<equiv> sep_list CHR '',''"

definition parseModelsList :: "string \<Rightarrow> string list" where
  "parseModelsList models = (if models = [] then [] else comma_list models)"

text \<open>\<open>locale_le a b\<close> is \<open>a.localeCompare(b) <= 0\<close> in the browser's locale.\<close>

definition group_le :: "(string \<Rightarrow> string \<Rightarrow> bool) \<Rightarrow> string \<Rightarrow> string \<Rightarrow> bool" where
  "group_le locale_le a b \<longleftrightarrow> (if a = ''default'' then True else if b = ''default'' then False else locale_le a b)"

definition parseGroupsList :: "(string \<Rightarrow> string \<Rightarrow> bool) \<Rightarrow> string \<Rightarrow> string list" where
  "parseGroupsList locale_le groups =
     (if groups = [] then [] else sort_by (group_le locale_le) (comma_list groups))"

definition formatModelsString :: "string list \<Rightarrow> string" where
  "formatModelsString models = js_join '','' models"

definition formatGroupsString :: "string list \<Rightarrow> string" where
  "formatGroupsString groups = js_join '','' groups"

definition parseChannelSettings :: "string option \<Rightarrow> json" where
  "parseChannelSettings settingStr = (case settingStr of
     None \<Rightarrow> JObj []
   | Some s \<Rightarrow> if s = [] then JObj [] else (case json_parse s of Some v \<Rightarrow> v | None \<Rightarrow> JObj []))"

definition parseChannelOtherSettings :: "string option \<Rightarrow> json" where
  "parseChannelOtherSettings settingsStr = (case settingsStr of
     None \<Rightarrow> JObj []
   | Some s \<Rightarrow> if s = [] \<or> s = ''{}'' then JObj [] else (case json_parse s of Some v \<Rightarrow> v | None \<Rightarrow> JObj []))"

definition validateChannelSettings :: "string \<Rightarrow> bool" where
  "validateChannelSettings settings \<longleftrightarrow> settings = [] \<or> js_trim settings = [] \<or> json_parse settings \<noteq> None"

section \<open>Balance, response time, attention\<close>

definition getBalanceVariant :: "rat \<Rightarrow> string" where
  "getBalanceVariant balance =
     (if balance = 0 then ''neutral'' else if balance < 1 then ''danger''
      else if balance < 10 then ''warning'' else ''success'')"

definition getResponseTimeConfig :: "rat \<Rightarrow> badge" where
  "getResponseTimeConfig timeMs =
     (if timeMs = 0 then response_config ''UNKNOWN''
      else if timeMs \<le> 500 then response_config ''EXCELLENT''
      else if timeMs \<le> 1000 then response_config ''GOOD''
      else if timeMs \<le> 2000 then response_config ''FAIR''
      else if timeMs \<le> 5000 then response_config ''POOR''
      else response_config ''POOR'')"

definition getPriorityDisplay :: "int option \<Rightarrow> string" where
  "getPriorityDisplay priority = (case priority of None \<Rightarrow> ''0'' | Some p \<Rightarrow> show_int p)"

definition getWeightDisplay :: "int option \<Rightarrow> string" where
  "getWeightDisplay weight = (case weight of None \<Rightarrow> ''0'' | Some w \<Rightarrow> show_int w)"

definition validateChannelName :: "string \<Rightarrow> bool" where
  "validateChannelName name \<longleftrightarrow> 0 < length (js_trim name)"

definition validateApiKey :: "string \<Rightarrow> bool" where
  "validateApiKey key \<longleftrightarrow> 0 < length (js_trim key)"

definition validateModels :: "string \<Rightarrow> bool" where
  "validateModels models \<longleftrightarrow> 0 < length (parseModelsList models)"

definition validateGroups :: "(string \<Rightarrow> string \<Rightarrow> bool) \<Rightarrow> string \<Rightarrow> bool" where
  "validateGroups locale_le groups \<longleftrightarrow> 0 < length (parseGroupsList locale_le groups)"

definition all_keys_disabled :: "channel \<Rightarrow> bool" where
  "all_keys_disabled channel = (case ch_channel_info channel of
     None \<Rightarrow> False
   | Some i \<Rightarrow> ci_is_multi_key i \<and>
       (case ci_multi_key_status_list i of None \<Rightarrow> False | Some l \<Rightarrow> int (length l) \<ge> ci_multi_key_size i))"

definition channelNeedsAttention :: "channel \<Rightarrow> bool" where
  "channelNeedsAttention channel =
     (if ch_status channel = 3 then True
      else if 0 < ch_balance channel \<and> ch_balance channel < 1 then True
      else if all_keys_disabled channel then True
      else False)"

definition getAttentionReason :: "channel \<Rightarrow> string option" where
  "getAttentionReason channel =
     (if ch_status channel = 3 then Some ''Auto-disabled''
      else if 0 < ch_balance channel \<and> ch_balance channel < 1 then Some ''Low balance''
      else if all_keys_disabled channel then Some ''All keys disabled''
      else None)"

section \<open>Rows per tag\<close>

text \<open>A tag row: the spread of its first channel, the fields that are overwritten, the children.
  \<open>tr_status\<close> starts undefined; \<open>tr_priority\<close> and \<open>tr_weight\<close> start as -1.\<close>

record tag_row =
  tr_base :: channel
  tr_tag :: string
  tr_status :: "int option"
  tr_group :: string
  tr_used_quota :: rat
  tr_response_time :: rat
  tr_priority :: "int option"
  tr_weight :: "int option"
  tr_children :: "channel list"

definition new_tag_row :: "string \<Rightarrow> channel \<Rightarrow> tag_row" where
  "new_tag_row tag channel = \<lparr>tr_base = channel, tr_tag = tag, tr_status = None, tr_group = [],
     tr_used_quota = 0, tr_response_time = 0, tr_priority = Some (-1), tr_weight = Some (-1), tr_children = []\<rparr>"

definition same_or_null :: "int option \<Rightarrow> int option \<Rightarrow> int option" where
  "same_or_null acc x = (if acc = Some (-1) then x else if acc \<noteq> x then None else acc)"

definition merge_groups :: "string \<Rightarrow> string \<Rightarrow> string" where
  "merge_groups acc grp =
     (if acc = [] then grp
      else
        (let existingGroups = filter nonempty (js_split CHR '','' acc);
             newGroups = filter nonempty (js_split CHR '','' grp)
         in foldl (\<lambda>a g. if g \<notin> set existingGroups then a @ '','' @ g else a) acc newGroups))"

definition add_child :: "channel \<Rightarrow> tag_row \<Rightarrow> tag_row" where
  "add_child channel row =
     (let children = tr_children row @ [channel]; childCount = of_nat (length children)
      in row\<lparr>tr_children := children,
         tr_used_quota := tr_used_quota row + ch_used_quota channel,
         tr_response_time := (tr_response_time row * (childCount - 1) + ch_response_time channel) / childCount,
         tr_priority := same_or_null (tr_priority row) (ch_priority channel),
         tr_weight := same_or_null (tr_weight row) (ch_weight channel),
         tr_group := merge_groups (tr_group row) (ch_group channel),
         tr_status := (if ch_status channel = 1 then Some 1
            else if tr_status row = None then Some (ch_status channel) else tr_status row)\<rparr>)"

text \<open>The rows in the order of their creation; the map and the result share them.\<close>

definition tag_of :: "channel \<Rightarrow> string" where
  "tag_of channel = or_default (ch_tag channel) []"

definition aggregate_step :: "tag_row list \<Rightarrow> channel \<Rightarrow> tag_row list" where
  "aggregate_step rows channel =
     (let tag = tag_of channel;
          rows' = (if tag \<in> tr_tag ` set rows then rows else rows @ [new_tag_row tag channel])
      in map (\<lambda>row. if tr_tag row = tag then add_child channel row else row) rows')"

definition aggregateChannelsByTag :: "channel list \<Rightarrow> tag_row list" where
  "aggregateChannelsByTag channels = foldl aggregate_step [] channels"

section \<open>Key management\<close>

record dedup_result =
  dd_text :: string
  dd_beforeCount :: nat
  dd_afterCount :: nat
  dd_removedCount :: int

definition dedup_step :: "string list \<Rightarrow> string \<Rightarrow> string list" where
  "dedup_step acc line =
     (let trimmedLine = js_trim line
      in if trimmedLine \<noteq> [] \<and> trimmedLine \<notin> set acc then acc @ [trimmedLine] else acc)"

definition deduplicateKeys :: "string \<Rightarrow> dedup_result" where
  "deduplicateKeys keysText =
     (if keysText = [] \<or> js_trim keysText = []
      then \<lparr>dd_text = [], dd_beforeCount = 0, dd_afterCount = 0, dd_removedCount = 0\<rparr>
      else
        (let keyLines = js_split newline keysText;
             beforeCount = length keyLines;
             deduplicatedKeys = foldl dedup_step [] keyLines;
             afterCount = length deduplicatedKeys
         in \<lparr>dd_text = js_join [newline] deduplicatedKeys, dd_beforeCount = beforeCount,
             dd_afterCount = afterCount, dd_removedCount = int beforeCount - int afterCount\<rparr>))"

definition getKeyPromptForType :: "nat \<Rightarrow> string" where
  "getKeyPromptForType i = or_default (map_of TYPE_TO_KEY_PROMPT i) ''Enter API key for this channel''"

section \<open>Multi-key actions\<close>

datatype multi_key_action = EnableKey | DisableKey | DeleteKey | EnableAll | DisableAll | DeleteDisabled

definition getMultiKeyStatusConfig :: "int \<Rightarrow> badge" where
  "getMultiKeyStatusConfig status = (case map_of MULTI_KEY_STATUS_CONFIG status of
     Some b \<Rightarrow> b | None \<Rightarrow> \<lparr>badge_variant = ''neutral'', badge_label = ''Unknown''\<rparr>)"

definition getMultiKeyConfirmMessage :: "multi_key_action option \<Rightarrow> string" where
  "getMultiKeyConfirmMessage action = (case action of
     None \<Rightarrow> []
   | Some DeleteKey \<Rightarrow> ''Are you sure you want to delete this key? This action cannot be undone.''
   | Some EnableKey \<Rightarrow> ''Enable this key?''
   | Some DisableKey \<Rightarrow> ''Disable this key?''
   | Some EnableAll \<Rightarrow> ''Are you sure you want to enable all keys?''
   | Some DisableAll \<Rightarrow> ''Are you sure you want to disable all enabled keys?''
   | Some DeleteDisabled \<Rightarrow>
       ''Are you sure you want to delete all auto-disabled keys? This action cannot be undone.'')"

definition isDestructiveAction :: "multi_key_action option \<Rightarrow> bool" where
  "isDestructiveAction action = (case action of
     None \<Rightarrow> False | Some a \<Rightarrow> a = DeleteKey \<or> a = DeleteDisabled \<or> a = DisableAll)"

end
