(* ===== verification/ChannelsFacts.thy ===== *)
theory ChannelsFacts
  imports Channels
begin

text \<open>
  What the channel helpers guarantee: tag rows partition the channels and sum and average what
  they should, keys are deduplicated to a normal form, lists of models survive being edited.
\<close>

section \<open>Rows per tag\<close>

definition tagged :: "string \<Rightarrow> channel list \<Rightarrow> channel list" where
  "tagged t cs = filter (\<lambda>c. tag_of c = t) cs"

definition row_of :: "string \<Rightarrow> channel list \<Rightarrow> tag_row" where
  "row_of t cs = foldl (\<lambda>row c. add_child c row) (new_tag_row t (hd cs)) cs"

lemma tr_tag_add_child [simp]: "tr_tag (add_child c row) = tr_tag row"
  by (simp add: add_child_def Let_def)

lemma tr_tag_foldl [simp]: "tr_tag (foldl (\<lambda>row c. add_child c row) row cs) = tr_tag row"
  by (induction cs arbitrary: row) simp_all

lemma tr_tag_row_of [simp]: "tr_tag (row_of t cs) = t"
  by (simp add: row_of_def new_tag_row_def)

lemma js_uniq_snoc: "js_uniq (xs @ [x]) = set_add x (js_uniq xs)"
  by (simp add: js_uniq_def)

lemma row_of_snoc: "cs \<noteq> [] \<Longrightarrow> row_of t (cs @ [c]) = add_child c (row_of t cs)"
  by (simp add: row_of_def)

lemma row_of_single: "row_of t [c] = add_child c (new_tag_row t c)"
  by (simp add: row_of_def)

lemma tagged_snoc: "tagged t (cs @ [c]) = (if tag_of c = t then tagged t cs @ [c] else tagged t cs)"
  by (simp add: tagged_def)

lemma tagged_Nil_iff: "tagged t cs = [] \<longleftrightarrow> t \<notin> tag_of ` set cs"
  by (auto simp: tagged_def filter_empty_conv)

text \<open>The loop, as one row per tag in the order of the first appearances.\<close>

lemma aggregate_rows: "aggregateChannelsByTag cs = map (\<lambda>t. row_of t (tagged t cs)) (js_uniq (map tag_of cs))"
proof (induction cs rule: rev_induct)
  case (snoc c cs)
  let ?t = "tag_of c"
  have step: "aggregateChannelsByTag (cs @ [c]) = aggregate_step (aggregateChannelsByTag cs) c"
    by (simp add: aggregateChannelsByTag_def)
  have tags: "tr_tag ` set (aggregateChannelsByTag cs) = tag_of ` set cs"
    by (simp add: snoc.IH image_image)
  have old: "(if t = ?t then add_child c (row_of t (tagged t cs)) else row_of t (tagged t cs)) = row_of t (tagged t (cs @ [c]))"
    if "t \<in> tag_of ` set cs" for t
  proof -
    have "tagged t cs \<noteq> []" using that by (simp add: tagged_Nil_iff)
    then show ?thesis by (cases "t = ?t") (simp_all add: tagged_snoc row_of_snoc)
  qed
  show ?case
  proof (cases "?t \<in> tag_of ` set cs")
    case True
    then have "js_uniq (map tag_of (cs @ [c])) = js_uniq (map tag_of cs)"
      by (simp add: js_uniq_snoc set_add_def)
    then show ?thesis
      using True tags old by (simp add: step aggregate_step_def Let_def snoc.IH cong: map_cong)
  next
    case False
    then have u: "js_uniq (map tag_of cs @ [?t]) = js_uniq (map tag_of cs) @ [?t]"
      by (simp add: js_uniq_snoc set_add_def)
    have new: "add_child c (new_tag_row ?t c) = row_of ?t (tagged ?t (cs @ [c]))"
      using False by (simp add: tagged_snoc row_of_single tagged_Nil_iff [THEN iffD2])
    have tn: "tr_tag (new_tag_row ?t c) = ?t" by (simp add: new_tag_row_def)
    show ?thesis
      using False tags old
      by (simp add: step aggregate_step_def Let_def u new tn) (simp add: snoc.IH cong: map_cong)
  qed
qed (simp add: aggregateChannelsByTag_def)

lemma row_children: "tr_children (row_of t cs) = cs"
proof -
  have "tr_children (foldl (\<lambda>row c. add_child c row) row cs) = tr_children row @ cs" for row
    by (induction cs arbitrary: row) (simp_all add: add_child_def Let_def)
  then show ?thesis by (simp add: row_of_def new_tag_row_def)
qed

lemma row_used_quota: "tr_used_quota (row_of t cs) = sum_list (map ch_used_quota cs)"
proof -
  have "tr_used_quota (foldl (\<lambda>row c. add_child c row) row cs) = tr_used_quota row + sum_list (map ch_used_quota cs)" for row
    by (induction cs arbitrary: row) (simp_all add: add_child_def Let_def)
  then show ?thesis by (simp add: row_of_def new_tag_row_def)
qed

text \<open>The running average: multiplied by the number of children it is their sum.\<close>

lemma row_response_time: "tr_response_time (row_of t cs) * of_nat (length cs) = sum_list (map ch_response_time cs)"
proof -
  have "tr_response_time (foldl (\<lambda>row c. add_child c row) row cs) * of_nat (length (tr_children row) + length cs)
      = tr_response_time row * of_nat (length (tr_children row)) + sum_list (map ch_response_time cs)" for row
  proof (induction cs arbitrary: row)
    case (Cons c cs)
    have l: "length (tr_children (add_child c row)) = Suc (length (tr_children row))"
      by (simp add: add_child_def Let_def)
    have r: "tr_response_time (add_child c row) * of_nat (Suc (length (tr_children row)))
        = tr_response_time row * of_nat (length (tr_children row)) + ch_response_time c"
      by (simp add: add_child_def Let_def field_simps del: of_nat_Suc) (simp add: algebra_simps)
    show ?case using Cons.IH [of "add_child c row"] by (simp only: l r foldl_Cons list.size add_Suc_right add_Suc) (simp add: algebra_simps r)
  qed simp
  from this [of "new_tag_row t (hd cs)"] show ?thesis by (simp add: row_of_def new_tag_row_def)
qed

lemma row_status: "tr_status (row_of t cs) = Some 1 \<longleftrightarrow> (\<exists>c \<in> set cs. ch_status c = 1)"
proof -
  have "tr_status (foldl (\<lambda>row c. add_child c row) row cs) = Some 1 \<longleftrightarrow>
      tr_status row = Some 1 \<or> (\<exists>c \<in> set cs. ch_status c = 1)" for row
    by (induction cs arbitrary: row) (auto simp: add_child_def Let_def)
  then show ?thesis by (simp add: row_of_def new_tag_row_def)
qed

text \<open>
  the tag view has one row per tag, in the order of the tags' first appearance. A row's
  children are exactly the channels of its tag, in order; its quota is the sum of theirs, its
  response time the average, and it is enabled exactly when one of them is.
\<close>

theorem aggregate_by_tag:
  "map tr_tag (aggregateChannelsByTag cs) = js_uniq (map tag_of cs) \<and>
    list_all (\<lambda>row. tr_children row = filter (\<lambda>c. tag_of c = tr_tag row) cs \<and> tr_children row \<noteq> [] \<and>
       tr_used_quota row = sum_list (map ch_used_quota (tr_children row)) \<and>
       tr_response_time row * of_nat (length (tr_children row)) = sum_list (map ch_response_time (tr_children row)) \<and>
       (tr_status row = Some 1 \<longleftrightarrow> (\<exists>c \<in> set (tr_children row). ch_status c = 1)))
      (aggregateChannelsByTag cs)"
proof -
  have "tagged t cs \<noteq> []" if "t \<in> set (js_uniq (map tag_of cs))" for t
    using that by (simp add: tagged_Nil_iff)
  then show ?thesis
    by (auto simp: aggregate_rows comp_def list_all_iff row_children row_used_quota row_response_time row_status
        tagged_def [symmetric])
qed

lemma same_or_null_fold:
  assumes "\<forall>c \<in> set (d # cs). f c \<noteq> Some (-1)"
  shows "foldl (\<lambda>a c. same_or_null a (f c)) (Some (-1)) (d # cs) = (if \<forall>c \<in> set cs. f c = f d then f d else None)"
proof -
  have "foldl (\<lambda>a c. same_or_null a (f c)) None cs = None" if "\<forall>c \<in> set cs. f c \<noteq> Some (-1)" for cs
    using that by (induction cs) (simp_all add: same_or_null_def)
  then have "foldl (\<lambda>a c. same_or_null a (f c)) a cs = (if \<forall>c \<in> set cs. f c = a then a else None)"
    if "a \<noteq> Some (-1)" "\<forall>c \<in> set cs. f c \<noteq> Some (-1)" for a cs
    using that by (induction cs) (auto simp: same_or_null_def)
  then show ?thesis using assms by (simp add: same_or_null_def)
qed

lemma row_priority: "tr_priority (row_of t cs) = foldl (\<lambda>a c. same_or_null a (ch_priority c)) (Some (-1)) cs"
proof -
  have "tr_priority (foldl (\<lambda>row c. add_child c row) row cs) = foldl (\<lambda>a c. same_or_null a (ch_priority c)) (tr_priority row) cs" for row
    by (induction cs arbitrary: row) (simp_all add: add_child_def Let_def)
  then show ?thesis by (simp add: row_of_def new_tag_row_def)
qed

text \<open>
  when no channel has the priority -1, a row shows the priority that all its children share,
  and null when two of them differ.
\<close>

theorem aggregate_priority:
  assumes "\<forall>c \<in> set cs. ch_priority c \<noteq> Some (-1)"
  shows "list_all (\<lambda>row. tr_priority row =
      (if \<forall>c \<in> set (tr_children row). ch_priority c = ch_priority (hd (tr_children row))
       then ch_priority (hd (tr_children row)) else None)) (aggregateChannelsByTag cs)"
proof -
  have row: "tr_priority (row_of t ds) = (if \<forall>c \<in> set ds. ch_priority c = ch_priority (hd ds) then ch_priority (hd ds) else None)"
    if "ds \<noteq> []" "\<forall>c \<in> set ds. ch_priority c \<noteq> Some (-1)" for t ds
  proof -
    obtain d es where ds: "ds = d # es" using \<open>ds \<noteq> []\<close> by (cases ds) simp_all
    have "\<forall>c \<in> set (d # es). ch_priority c \<noteq> Some (-1)" using that ds by simp
    from same_or_null_fold [OF this] show ?thesis unfolding row_priority ds by simp
  qed
  have "tr_priority (row_of t (tagged t cs)) =
      (if \<forall>c \<in> set (tagged t cs). ch_priority c = ch_priority (hd (tagged t cs)) then ch_priority (hd (tagged t cs)) else None)"
    if "t \<in> set (js_uniq (map tag_of cs))" for t
  proof (rule row)
    show "tagged t cs \<noteq> []" using that by (simp add: tagged_Nil_iff)
    show "\<forall>c \<in> set (tagged t cs). ch_priority c \<noteq> Some (-1)" using assms by (simp add: tagged_def)
  qed
  then show ?thesis unfolding aggregate_rows list_all_iff by (simp add: row_children del: set_js_uniq)
qed

text \<open>
  the start value -1 is also a priority a channel can have: of two channels under one tag,
  the first with priority -1, the row shows the priority of the second.
\<close>

theorem aggregate_priority_sentinel:
  "ch_priority c = Some (-1) \<and> tag_of d = tag_of c \<Longrightarrow>
    map tr_priority (aggregateChannelsByTag [c, d]) = [ch_priority d]"
  by (simp add: aggregate_rows js_uniq_def set_add_def tagged_def row_priority same_or_null_def)

definition sample_channel :: channel where
  "sample_channel = \<lparr>ch_id = 1, ch_type = 1, ch_key = [], ch_openai_organization = None, ch_test_model = None,
     ch_status = 1, ch_name = ''a'', ch_weight = None, ch_created_time = 0, ch_test_time = 0,
     ch_response_time = 100, ch_base_url = None, ch_other = [], ch_balance = 0, ch_balance_updated_time = 0,
     ch_models = [], ch_group = ''default'', ch_used_quota = 5, ch_model_mapping = None,
     ch_status_code_mapping = None, ch_priority = Some (-1), ch_auto_ban = None, ch_other_info = [],
     ch_tag = Some ''t'', ch_setting = None, ch_param_override = None, ch_header_override = None,
     ch_remark = [], ch_max_input_tokens = 0, ch_channel_info = None, ch_settings = ''{}''\<rparr>"

lemma aggregate_priority_sentinel_witness:
  "map tr_priority (aggregateChannelsByTag [sample_channel, sample_channel\<lparr>ch_priority := Some 7\<rparr>]) = [Some 7]"
  using aggregate_priority_sentinel [of sample_channel "sample_channel\<lparr>ch_priority := Some 7\<rparr>"]
  by (simp add: sample_channel_def tag_of_def)

lemma aggregate_priority_witness:
  "list_all (\<lambda>row. tr_priority row =
      (if \<forall>c \<in> set (tr_children row). ch_priority c = ch_priority (hd (tr_children row))
       then ch_priority (hd (tr_children row)) else None))
    (aggregateChannelsByTag [sample_channel\<lparr>ch_priority := Some 3\<rparr>, sample_channel\<lparr>ch_priority := None\<rparr>])"
  by (rule aggregate_priority) (simp add: sample_channel_def)

section \<open>Keys\<close>

lemma foldl_dedup_step: "foldl dedup_step acc ls = fold set_add (filter nonempty (map js_trim ls)) acc"
  by (induction ls arbitrary: acc) (simp_all add: dedup_step_def set_add_def Let_def)

text \<open>The distinct keys of a text.\<close>

definition distinct_keys :: "string \<Rightarrow> string list" where
  "distinct_keys t = js_uniq (sep_list newline t)"

lemma dedup_keys_eq:
  "dd_text (deduplicateKeys t) = js_join [newline] (distinct_keys t)"
  "dd_afterCount (deduplicateKeys t) = length (distinct_keys t)"
proof -
  have e: "distinct_keys t = []" if "js_trim t = []"
  proof -
    have "js_trim x = []" if x: "x \<in> set (js_split newline t)" for x
      using split_by_subset [OF x] \<open>js_trim t = []\<close> by (auto simp: trim_by_empty_iff)
    then show ?thesis by (simp add: distinct_keys_def sep_list_def filter_empty_conv)
  qed
  have d: "foldl dedup_step [] (js_split newline t) = distinct_keys t"
    by (simp add: foldl_dedup_step distinct_keys_def sep_list_def js_uniq_def)
  show "dd_text (deduplicateKeys t) = js_join [newline] (distinct_keys t)"
    "dd_afterCount (deduplicateKeys t) = length (distinct_keys t)"
    using e by (auto simp: deduplicateKeys_def Let_def d)
qed

text \<open>
  deduplicating keys keeps the trimmed, non-empty lines, each once, in the order of their
  first appearance; one key per line is counted, and doing it again removes nothing.
\<close>

theorem dedup_keys_normal:
  "dd_text (deduplicateKeys t) = js_join [newline] (js_uniq (sep_list newline t)) \<and>
    countKeys (dd_text (deduplicateKeys t)) = dd_afterCount (deduplicateKeys t) \<and>
    dd_text (deduplicateKeys (dd_text (deduplicateKeys t))) = dd_text (deduplicateKeys t) \<and>
    dd_removedCount (deduplicateKeys (dd_text (deduplicateKeys t))) = 0"
proof -
  let ?ks = "distinct_keys t"
  have ok: "list_all (item_ok newline) ?ks"
    using lines.read_ok [of t] by (simp add: distinct_keys_def list_all_iff)
  have again: "distinct_keys (js_join [newline] ?ks) = ?ks"
    using lines.read_join [OF ok] by (simp add: distinct_keys_def)
  have count: "countKeys (js_join [newline] ?ks) = length ?ks" if "?ks \<noteq> []"
  proof -
    have "js_split newline (js_join [newline] ?ks) = ?ks"
      using that ok by (intro js_split_join) (auto simp: list_all_iff item_ok_def)
    moreover have "filter (\<lambda>k. js_trim k \<noteq> []) ?ks = ?ks"
      using ok by (intro filter_True) (auto simp: list_all_iff item_ok_def)
    moreover have "js_join [newline] ?ks \<noteq> []" using lines.join_empty_iff [OF ok] that by blast
    ultimately show ?thesis by (simp add: countKeys_def key_lines_def)
  qed
  have removed: "dd_removedCount (deduplicateKeys (js_join [newline] ?ks)) = 0"
  proof (cases "?ks = []")
    case False
    have "js_split newline (js_join [newline] ?ks) = ?ks"
      using False ok by (intro js_split_join) (auto simp: list_all_iff item_ok_def)
    moreover have "foldl dedup_step [] ?ks = ?ks"
    proof -
      have "filter nonempty (map js_trim ?ks) = ?ks"
        using ok by (subst map_idI) (auto simp: list_all_iff item_ok_def intro: filter_True)
      then show ?thesis by (simp add: foldl_dedup_step distinct_keys_def js_uniq_def [symmetric])
    qed
    ultimately show ?thesis by (simp add: deduplicateKeys_def Let_def)
  qed (simp add: deduplicateKeys_def)
  show ?thesis
    using again count removed
    by (cases "?ks = []") (simp_all add: dedup_keys_eq distinct_keys_def [symmetric] countKeys_def)
qed

text \<open>
  the mask of a key of 4 to 8 characters hides nothing: the key can be read off the shown
  text.
\<close>

theorem short_key_revealed:
  "4 \<le> length key \<and> length key \<le> 8 \<Longrightarrow>
    \<exists>shown_start shown_end. formatChannelKey key False = shown_start @ ''...'' @ shown_end \<and>
      key = take (length key - 4) shown_start @ shown_end"
proof -
  assume l: "4 \<le> length key \<and> length key \<le> 8"
  have "formatChannelKey key False = js_slice 0 4 key @ ''...'' @ js_slice_last 4 key"
    using l by (auto simp: formatChannelKey_def)
  moreover have "key = take (length key - 4) (js_slice 0 4 key) @ js_slice_last 4 key"
  proof -
    have "min (length key - 4) 4 = length key - 4" using l by arith
    then show ?thesis by (simp add: js_slice_def js_slice_last_def)
  qed
  ultimately show ?thesis by blast
qed

lemma short_key_revealed_witness:
  "\<exists>shown_start shown_end. formatChannelKey ''sk-12345'' False = shown_start @ ''...'' @ shown_end \<and>
      ''sk-12345'' = take 4 shown_start @ shown_end"
  using short_key_revealed [of "''sk-12345''"] by (simp add: numeral_eq_Suc)

lemma long_key_masked:
  assumes "16 < length key"
  shows "length (formatChannelKey key False) = 19"
  using assms by (auto simp: formatChannelKey_def js_slice_def js_slice_last_def)

section \<open>Lists and types\<close>

text \<open>Rewriting a list of models from what was read leaves it as it was read.\<close>

lemma models_round_trip: "parseModelsList (formatModelsString (parseModelsList s)) = parseModelsList s"
proof -
  have "parseModelsList x = comma_list x" for x by (simp add: parseModelsList_def)
  then show ?thesis by (simp add: formatModelsString_def)
qed

lemma type_options:
  "distinct (map fst CHANNEL_TYPE_OPTIONS) \<and>
    set CHANNEL_TYPE_OPTIONS = {p \<in> set CHANNEL_TYPES. fst p \<noteq> 0 \<and> fst p \<notin> set HIDDEN_CHANNEL_TYPES}"
proof -
  have "distinct (map fst CHANNEL_TYPE_OPTIONS)" by code_simp
  moreover have "list_all (\<lambda>p. p \<in> set CHANNEL_TYPE_OPTIONS \<longleftrightarrow> fst p \<noteq> 0 \<and> fst p \<notin> set HIDDEN_CHANNEL_TYPES) CHANNEL_TYPES"
    "list_all (\<lambda>p. p \<in> set CHANNEL_TYPES) CHANNEL_TYPE_OPTIONS"
    by code_simp+
  ultimately show ?thesis by (auto simp: list_all_iff)
qed

lemma attention_reason: "channelNeedsAttention channel \<longleftrightarrow> getAttentionReason channel \<noteq> None"
  by (simp add: channelNeedsAttention_def getAttentionReason_def)

end
