(* ===== verification/ChannelForm.thy ===== *)
theory ChannelForm
  imports Channels
begin

text \<open>
  The form of a channel (features/channels/lib/channel-form.ts): its validators, its default
  values, how it is filled from a channel, and the payloads it is sent as. An optional field is an
  option. A field that is filled with \<open>parsed.x || d\<close> from stored JSON may hold any JSON value
  and is a \<open>jsval\<close>. The zod schema is the list of the issues of the single fields and the list of
  those across fields.
\<close>

section \<open>Validators\<close>

text \<open>None: JSON.parse raises; Some None: undefined.\<close>

definition parseOptionalJson :: "string option \<Rightarrow> json option option" where
  "parseOptionalJson value = (case value of
     None \<Rightarrow> Some None
   | Some s \<Rightarrow> if js_trim s = [] then Some None else map_option Some (json_parse s))"

definition isOptionalJsonObject :: "string option \<Rightarrow> bool" where
  "isOptionalJsonObject value = (case parseOptionalJson value of
     None \<Rightarrow> False | Some None \<Rightarrow> True | Some (Some parsed) \<Rightarrow> is_plain_object parsed)"

definition isOptionalModelMapping :: "string option \<Rightarrow> bool" where
  "isOptionalModelMapping value = (case parseOptionalJson value of
     None \<Rightarrow> False
   | Some None \<Rightarrow> True
   | Some (Some (JObj kvs)) \<Rightarrow> list_all (\<lambda>p. is_string (Some (snd p))) kvs
   | Some (Some _) \<Rightarrow> False)"

definition is_http_status :: "jsnum \<Rightarrow> bool" where
  "is_http_status x \<longleftrightarrow> num_is_integer x \<and> num_le (Num (int_dec 100)) x \<and> num_le x (Num (int_dec 599))"

definition isOptionalStatusCodeMapping :: "string option \<Rightarrow> bool" where
  "isOptionalStatusCodeMapping value = (case parseOptionalJson value of
     None \<Rightarrow> False
   | Some None \<Rightarrow> True
   | Some (Some (JObj kvs)) \<Rightarrow>
       list_all (\<lambda>p. is_http_status (js_number (fst p)) \<and> is_http_status (json_to_number (snd p))) kvs
   | Some (Some _) \<Rightarrow> False)"

definition has_nonblank :: "(string \<times> json) list \<Rightarrow> string \<Rightarrow> bool" where
  "has_nonblank kvs k = (case obj_get k kvs of Some (JStr s) \<Rightarrow> 0 < length (js_trim s) | _ \<Rightarrow> False)"

definition isCodexCredential :: "string option \<Rightarrow> bool" where
  "isCodexCredential value = (case parseOptionalJson value of
     None \<Rightarrow> False
   | Some None \<Rightarrow> True
   | Some (Some (JObj kvs)) \<Rightarrow> has_nonblank kvs ''access_token'' \<and> has_nonblank kvs ''account_id''
   | Some (Some _) \<Rightarrow> False)"

definition isVertexJsonKey :: "string option \<Rightarrow> bool" where
  "isVertexJsonKey value = (case parseOptionalJson value of
     None \<Rightarrow> False
   | Some None \<Rightarrow> True
   | Some (Some (JArr xs)) \<Rightarrow> list_all is_plain_object xs
   | Some (Some v) \<Rightarrow> is_plain_object v)"

section \<open>The form\<close>

record channel_form =
  fo_name :: string
  fo_type :: nat
  fo_base_url :: "string option"
  fo_key :: string
  fo_openai_organization :: "string option"
  fo_models :: string
  fo_group :: "string list"
  fo_model_mapping :: "string option"
  fo_priority :: "int option"
  fo_weight :: "int option"
  fo_test_model :: "string option"
  fo_auto_ban :: "int option"
  fo_status :: int
  fo_status_code_mapping :: "string option"
  fo_tag :: "string option"
  fo_remark :: "string option"
  fo_setting :: "string option"
  fo_param_override :: "string option"
  fo_header_override :: "string option"
  fo_settings :: "string option"
  fo_other :: "string option"
  fo_multi_key_mode :: "string option"
  fo_multi_key_type :: "string option"
  fo_batch_add_set_key_prefix_2_name :: "bool option"
  fo_key_mode :: "string option"
  fo_force_format :: jsval
  fo_thinking_to_content :: jsval
  fo_proxy :: jsval
  fo_pass_through_body_enabled :: jsval
  fo_system_prompt :: jsval
  fo_system_prompt_override :: jsval
  fo_is_enterprise_account :: "bool option"
  fo_vertex_key_type :: jsval
  fo_aws_key_type :: jsval
  fo_azure_responses_version :: jsval
  fo_allow_service_tier :: "bool option"
  fo_disable_store :: "bool option"
  fo_allow_safety_identifier :: "bool option"
  fo_allow_include_obfuscation :: "bool option"
  fo_allow_inference_geo :: "bool option"
  fo_allow_speed :: "bool option"
  fo_claude_beta_query :: "bool option"
  fo_upstream_model_update_check_enabled :: "bool option"
  fo_upstream_model_update_auto_sync_enabled :: "bool option"
  fo_upstream_model_update_ignored_models :: "string option"

type_synonym issue = "string \<times> string"

definition issue_unless :: "bool \<Rightarrow> string \<Rightarrow> string \<Rightarrow> issue list" where
  "issue_unless b path message = (if b then [] else [(path, message)])"

text \<open>The fields whose value the schema's type or enumeration refuses (the library words these
  messages); the fields that may hold stored JSON of any shape are the ones that can.\<close>

definition opt_bool :: "jsval \<Rightarrow> bool" where
  "opt_bool v = (case v of None \<Rightarrow> True | Some (JBool _) \<Rightarrow> True | Some _ \<Rightarrow> False)"

definition opt_string :: "jsval \<Rightarrow> bool" where
  "opt_string v = (case v of None \<Rightarrow> True | Some (JStr _) \<Rightarrow> True | Some _ \<Rightarrow> False)"

definition opt_enum :: "string list \<Rightarrow> jsval \<Rightarrow> bool" where
  "opt_enum options v = (case v of None \<Rightarrow> True | Some (JStr s) \<Rightarrow> s \<in> set options | Some _ \<Rightarrow> False)"

definition type_issues :: "channel_form \<Rightarrow> string list" where
  "type_issues f = map fst (filter (\<lambda>(_, ok). \<not> ok) [
     (''multi_key_mode'', opt_enum [''single'', ''batch'', ''multi_to_single''] (map_option JStr (fo_multi_key_mode f))),
     (''multi_key_type'', opt_enum [''random'', ''polling''] (map_option JStr (fo_multi_key_type f))),
     (''key_mode'', opt_enum [''append'', ''replace''] (map_option JStr (fo_key_mode f))),
     (''force_format'', opt_bool (fo_force_format f)),
     (''thinking_to_content'', opt_bool (fo_thinking_to_content f)),
     (''proxy'', opt_string (fo_proxy f)),
     (''pass_through_body_enabled'', opt_bool (fo_pass_through_body_enabled f)),
     (''system_prompt'', opt_string (fo_system_prompt f)),
     (''system_prompt_override'', opt_bool (fo_system_prompt_override f)),
     (''vertex_key_type'', opt_enum [''json'', ''api_key''] (fo_vertex_key_type f)),
     (''aws_key_type'', opt_enum [''ak_sk'', ''api_key''] (fo_aws_key_type f)),
     (''azure_responses_version'', opt_string (fo_azure_responses_version f))])"

definition field_issues :: "channel_form \<Rightarrow> issue list" where
  "field_issues f =
     issue_unless (1 \<le> length (fo_name f)) ''name'' ''Channel name is required''
     @ issue_unless (1 \<le> length (fo_models f)) ''models'' ''Models are required''
     @ issue_unless (1 \<le> length (fo_group f)) ''group'' ''Group is required''
     @ issue_unless (isOptionalModelMapping (fo_model_mapping f)) ''model_mapping''
         ''Model mapping must be a JSON object with string values''
     @ issue_unless (isOptionalStatusCodeMapping (fo_status_code_mapping f)) ''status_code_mapping''
         ''Status code mapping must use valid HTTP status codes''
     @ issue_unless (case fo_remark f of None \<Rightarrow> True | Some s \<Rightarrow> length s \<le> 255) ''remark''
         ''Remark must be less than 255 characters''
     @ issue_unless (isOptionalJsonObject (fo_setting f)) ''setting'' ''Invalid JSON format''
     @ issue_unless (isOptionalJsonObject (fo_param_override f)) ''param_override'' ''Invalid JSON format''
     @ issue_unless (isOptionalJsonObject (fo_header_override f)) ''header_override'' ''Invalid JSON format''
     @ issue_unless (isOptionalJsonObject (fo_settings f)) ''settings'' ''Invalid JSON format''"

definition blank_opt :: "string option \<Rightarrow> bool" where
  "blank_opt s = (case s of None \<Rightarrow> True | Some t \<Rightarrow> js_trim t = [])"

definition not_single :: "string option \<Rightarrow> bool" where
  "not_single mode = (case mode of None \<Rightarrow> False | Some m \<Rightarrow> m \<noteq> [] \<and> m \<noteq> ''single'')"

definition cross_issues :: "channel_form \<Rightarrow> issue list" where
  "cross_issues f =
     issue_unless (\<not> (fo_type f \<in> {3, 8, 36, 45} \<and> blank_opt (fo_base_url f))) ''base_url''
       ''Base URL is required for this channel type''
     @ issue_unless (\<not> (fo_type f \<in> {3, 18, 21, 39, 41, 49} \<and> blank_opt (fo_other f))) ''other''
       ''This channel type requires additional configuration''
     @ issue_unless (\<not> (fo_type f = 57 \<and> not_single (fo_multi_key_mode f))) ''multi_key_mode''
       ''Codex channels do not support batch creation''
     @ issue_unless (\<not> (fo_type f = 57 \<and> js_trim (fo_key f) \<noteq> [] \<and> \<not> isCodexCredential (Some (fo_key f)))) ''key''
       ''Codex credential must be a JSON object with access_token and account_id''
     @ issue_unless (\<not> (fo_type f = 41 \<and> fo_vertex_key_type f = Some (JStr ''json'') \<and> js_trim (fo_key f) \<noteq> []
         \<and> \<not> isVertexJsonKey (Some (fo_key f)))) ''key''
       ''Vertex AI service account key must be valid JSON''
     @ issue_unless (\<not> (fo_type f = 41 \<and> fo_vertex_key_type f = Some (JStr ''api_key'')
         \<and> not_single (fo_multi_key_mode f))) ''multi_key_mode''
       ''Vertex AI API Key mode does not support batch creation''"

definition form_valid :: "channel_form \<Rightarrow> bool" where
  "form_valid f \<longleftrightarrow> type_issues f = [] \<and> field_issues f = [] \<and> cross_issues f = []"

definition CHANNEL_FORM_DEFAULT_VALUES :: channel_form where
  "CHANNEL_FORM_DEFAULT_VALUES = \<lparr>
     fo_name = [], fo_type = 1, fo_base_url = Some [], fo_key = [], fo_openai_organization = Some [],
     fo_models = [], fo_group = [''default''], fo_model_mapping = Some [], fo_priority = Some 0,
     fo_weight = Some 0, fo_test_model = Some [], fo_auto_ban = Some 1, fo_status = 1,
     fo_status_code_mapping = Some [], fo_tag = Some [], fo_remark = Some [], fo_setting = Some [],
     fo_param_override = Some [], fo_header_override = Some [], fo_settings = Some ''{}'',
     fo_other = Some [], fo_multi_key_mode = Some ''single'', fo_multi_key_type = Some ''random'',
     fo_batch_add_set_key_prefix_2_name = Some False, fo_key_mode = Some ''append'',
     fo_force_format = Some (JBool False), fo_thinking_to_content = Some (JBool False),
     fo_proxy = Some (JStr []), fo_pass_through_body_enabled = Some (JBool False),
     fo_system_prompt = Some (JStr []), fo_system_prompt_override = Some (JBool False),
     fo_is_enterprise_account = Some False, fo_vertex_key_type = Some (JStr ''json''),
     fo_aws_key_type = Some (JStr ''ak_sk''), fo_azure_responses_version = Some (JStr []),
     fo_allow_service_tier = Some False, fo_disable_store = Some False,
     fo_allow_safety_identifier = Some False, fo_allow_include_obfuscation = Some False,
     fo_allow_inference_geo = Some False, fo_allow_speed = Some False, fo_claude_beta_query = Some False,
     fo_upstream_model_update_check_enabled = Some False,
     fo_upstream_model_update_auto_sync_enabled = Some False,
     fo_upstream_model_update_ignored_models = Some []\<rparr>"

section \<open>From a channel to the form\<close>

text \<open>Property access on what was parsed raises on null only, and is caught: every field then has
  its default, which is also what an absent property gives.\<close>

definition stored_json :: "string option \<Rightarrow> json" where
  "stored_json s = (case s of None \<Rightarrow> JObj [] | Some t \<Rightarrow>
     (if t = [] then JObj [] else (case json_parse t of Some v \<Rightarrow> v | None \<Rightarrow> JObj [])))"

definition stored_or :: "json \<Rightarrow> string \<Rightarrow> json \<Rightarrow> jsval" where
  "stored_or parsed k d = js_or (js_prop parsed k) (Some d)"

definition stored_true :: "json \<Rightarrow> string \<Rightarrow> bool option" where
  "stored_true parsed k = Some (is_true (js_prop parsed k))"

definition parseGroups :: "string \<Rightarrow> string list" where
  "parseGroups groups = (if groups = [] then [] else comma_list groups)"

definition parseModels :: "string \<Rightarrow> string list" where
  "parseModels models = (if models = [] then [] else comma_list models)"

definition formatModels :: "string list \<Rightarrow> string" where
  "formatModels models = js_join '','' models"

definition formatGroups :: "string list \<Rightarrow> string" where
  "formatGroups groups = js_join '','' groups"

definition or_zero :: "int option \<Rightarrow> int option" where
  "or_zero n = Some (case n of None \<Rightarrow> 0 | Some x \<Rightarrow> x)"

definition text_or :: "string option \<Rightarrow> string \<Rightarrow> string option" where
  "text_or s d = Some (or_default s d)"

text \<open>None when the channel has no \<open>channel_info\<close>.\<close>

definition transformChannelToFormDefaults :: "channel \<Rightarrow> channel_form option" where
  "transformChannelToFormDefaults channel =
     (let extra = stored_json (ch_setting channel);
          parsed = stored_json (Some (ch_settings channel))
      in case ch_channel_info channel of
           None \<Rightarrow> None
         | Some info \<Rightarrow> Some \<lparr>
             fo_name = ch_name channel,
             fo_type = ch_type channel,
             fo_base_url = text_or (ch_base_url channel) [],
             fo_key = [],
             fo_openai_organization = text_or (ch_openai_organization channel) [],
             fo_models = ch_models channel,
             fo_group = parseGroups (or_str (ch_group channel) ''default''),
             fo_model_mapping = text_or (ch_model_mapping channel) [],
             fo_priority = or_zero (ch_priority channel),
             fo_weight = or_zero (ch_weight channel),
             fo_test_model = text_or (ch_test_model channel) [],
             fo_auto_ban = Some (case ch_auto_ban channel of None \<Rightarrow> 1 | Some x \<Rightarrow> x),
             fo_status = ch_status channel,
             fo_status_code_mapping = text_or (ch_status_code_mapping channel) [],
             fo_tag = text_or (ch_tag channel) [],
             fo_remark = text_or (Some (ch_remark channel)) [],
             fo_setting = text_or (ch_setting channel) [],
             fo_param_override = text_or (ch_param_override channel) [],
             fo_header_override = text_or (ch_header_override channel) [],
             fo_settings = text_or (Some (ch_settings channel)) ''{}'',
             fo_other = text_or (Some (ch_other channel)) [],
             fo_multi_key_mode = Some ''single'',
             fo_multi_key_type = text_or (Some (ci_multi_key_mode info)) ''random'',
             fo_batch_add_set_key_prefix_2_name = Some False,
             fo_key_mode = Some ''append'',
             fo_force_format = stored_or extra ''force_format'' (JBool False),
             fo_thinking_to_content = stored_or extra ''thinking_to_content'' (JBool False),
             fo_proxy = stored_or extra ''proxy'' (JStr []),
             fo_pass_through_body_enabled = stored_or extra ''pass_through_body_enabled'' (JBool False),
             fo_system_prompt = stored_or extra ''system_prompt'' (JStr []),
             fo_system_prompt_override = stored_or extra ''system_prompt_override'' (JBool False),
             fo_is_enterprise_account = stored_true parsed ''openrouter_enterprise'',
             fo_vertex_key_type = stored_or parsed ''vertex_key_type'' (JStr ''json''),
             fo_aws_key_type = stored_or parsed ''aws_key_type'' (JStr ''ak_sk''),
             fo_azure_responses_version = stored_or parsed ''azure_responses_version'' (JStr []),
             fo_allow_service_tier = stored_true parsed ''allow_service_tier'',
             fo_disable_store = stored_true parsed ''disable_store'',
             fo_allow_safety_identifier = stored_true parsed ''allow_safety_identifier'',
             fo_allow_include_obfuscation = stored_true parsed ''allow_include_obfuscation'',
             fo_allow_inference_geo = stored_true parsed ''allow_inference_geo'',
             fo_allow_speed = stored_true parsed ''allow_speed'',
             fo_claude_beta_query = stored_true parsed ''claude_beta_query'',
             fo_upstream_model_update_check_enabled = stored_true parsed ''upstream_model_update_check_enabled'',
             fo_upstream_model_update_auto_sync_enabled =
               stored_true parsed ''upstream_model_update_auto_sync_enabled'',
             fo_upstream_model_update_ignored_models = Some
               (case js_prop parsed ''upstream_model_update_ignored_models'' of
                  Some (JArr xs) \<Rightarrow> json_to_string (JArr xs) | _ \<Rightarrow> [])\<rparr>)"

section \<open>From the form to the payloads\<close>

text \<open>\<open>formData.x || d\<close> as a JSON value.\<close>

definition json_or :: "jsval \<Rightarrow> json \<Rightarrow> json" where
  "json_or v d = (case v of Some j \<Rightarrow> if json_truthy j then j else d | None \<Rightarrow> d)"

definition setting_object :: "channel_form \<Rightarrow> (string \<times> json) list" where
  "setting_object f = [
     (''force_format'', json_or (fo_force_format f) (JBool False)),
     (''thinking_to_content'', json_or (fo_thinking_to_content f) (JBool False)),
     (''proxy'', json_or (fo_proxy f) (JStr [])),
     (''pass_through_body_enabled'', json_or (fo_pass_through_body_enabled f) (JBool False)),
     (''system_prompt'', json_or (fo_system_prompt f) (JStr [])),
     (''system_prompt_override'', json_or (fo_system_prompt_override f) (JBool False))]"

definition buildSettingJSON :: "channel_form \<Rightarrow> string" where
  "buildSettingJSON f = json_stringify (JObj (setting_object f))"

definition put_or_delete :: "bool \<Rightarrow> string \<Rightarrow> json \<Rightarrow> (string \<times> json) list \<Rightarrow> (string \<times> json) list" where
  "put_or_delete b k v kvs = (if b then obj_set k v kvs else obj_delete k kvs)"

definition flag :: "bool option \<Rightarrow> json" where
  "flag b = JBool (b = Some True)"

definition ignored_models :: "channel_form \<Rightarrow> json" where
  "ignored_models f = JArr (map JStr (js_uniq (comma_list (or_default (fo_upstream_model_update_ignored_models f) []))))"

definition upstream_settings :: "channel_form \<Rightarrow> (string \<times> json) list \<Rightarrow> (string \<times> json) list" where
  "upstream_settings f s0 =
     (let check = (fo_upstream_model_update_check_enabled f = Some True);
          s1 = obj_set ''upstream_model_update_check_enabled'' (JBool check) s0;
          s2 = obj_set ''upstream_model_update_auto_sync_enabled''
                 (JBool (check \<and> fo_upstream_model_update_auto_sync_enabled f = Some True)) s1;
          s3 = obj_set ''upstream_model_update_ignored_models'' (ignored_models f) s2;
          s4 = (if (\<exists>xs. obj_get ''upstream_model_update_last_detected_models'' s3 = Some (JArr xs)) \<and> check
                then s3 else obj_set ''upstream_model_update_last_detected_models'' (JArr []) s3)
      in (if (\<exists>d. obj_get ''upstream_model_update_last_check_time'' s4 = Some (JNum d)) then s4
          else obj_set ''upstream_model_update_last_check_time'' (JNum (int_dec 0)) s4))"

definition settings_object :: "channel_form \<Rightarrow> (string \<times> json) list \<Rightarrow> (string \<times> json) list" where
  "settings_object f s0 =
     (let ty = fo_type f;
          s1 = put_or_delete (ty = 41) ''vertex_key_type'' (json_or (fo_vertex_key_type f) (JStr ''json'')) s0;
          s2 = put_or_delete (ty = 3 \<and> js_truthy (fo_azure_responses_version f)) ''azure_responses_version''
                 (json_or (fo_azure_responses_version f) (JStr [])) s1;
          s3 = put_or_delete (ty = 20) ''openrouter_enterprise'' (flag (fo_is_enterprise_account f)) s2;
          s4 = put_or_delete (ty = 33) ''aws_key_type'' (json_or (fo_aws_key_type f) (JStr ''ak_sk'')) s3;
          s5 = put_or_delete (ty = 1 \<or> ty = 14) ''allow_service_tier'' (flag (fo_allow_service_tier f)) s4;
          s6 = put_or_delete (ty = 1) ''disable_store'' (flag (fo_disable_store f)) s5;
          s7 = put_or_delete (ty = 1) ''allow_safety_identifier'' (flag (fo_allow_safety_identifier f)) s6;
          s8 = put_or_delete (ty = 1) ''allow_include_obfuscation'' (flag (fo_allow_include_obfuscation f)) s7;
          s9 = put_or_delete (ty = 1 \<or> ty = 14) ''allow_inference_geo'' (flag (fo_allow_inference_geo f)) s8;
          s10 = put_or_delete (ty = 14) ''allow_speed'' (flag (fo_allow_speed f)) s9;
          s11 = put_or_delete (ty = 14) ''claude_beta_query'' (flag (fo_claude_beta_query f)) s10
      in if ty \<in> set MODEL_FETCHABLE_TYPES then upstream_settings f s11 else s11)"

text \<open>The existing settings the build starts from; a primitive value makes the key tests raise, and
  properties set on an array are not printed.\<close>

definition existing_settings :: "channel_form \<Rightarrow> json" where
  "existing_settings f = (case fo_settings f of
     None \<Rightarrow> JObj []
   | Some s \<Rightarrow> if s = [] \<or> s = ''{}'' then JObj [] else (case json_parse s of Some v \<Rightarrow> v | None \<Rightarrow> JObj []))"

definition buildSettingsJSON :: "channel_form \<Rightarrow> string option" where
  "buildSettingsJSON f = (case existing_settings f of
     JObj kvs \<Rightarrow> Some (json_stringify (JObj (settings_object f kvs)))
   | JArr xs \<Rightarrow> Some (json_stringify (JArr xs))
   | _ \<Rightarrow> None)"

definition drop_last_slashes :: "string \<Rightarrow> string" where
  "drop_last_slashes s = rev (dropWhile (\<lambda>c. c = CHR ''/'') (rev s))"

definition normalizeBaseUrl :: "string option \<Rightarrow> string" where
  "normalizeBaseUrl value = drop_last_slashes (js_trim (or_default value []))"

definition text_or_null :: "string option \<Rightarrow> json" where
  "text_or_null s = (case s of None \<Rightarrow> JNull | Some t \<Rightarrow> if t = [] then JNull else JStr t)"

definition int_or_null :: "int option \<Rightarrow> json" where
  "int_or_null n = (case n of None \<Rightarrow> JNull | Some x \<Rightarrow> if x = 0 then JNull else JNum (int_dec x))"

definition int_or :: "int option \<Rightarrow> int \<Rightarrow> json" where
  "int_or n d = JNum (int_dec (case n of None \<Rightarrow> d | Some x \<Rightarrow> x))"

text \<open>The clean-up of empty strings.\<close>

definition null_empty :: "(string \<times> json) list \<Rightarrow> (string \<times> json) list" where
  "null_empty kvs = map (\<lambda>(k, v). (k, if v = JStr [] then JNull else v)) kvs"

record create_payload =
  cp_mode :: string
  cp_multi_key_mode :: "string option"
  cp_batch_add_set_key_prefix_2_name :: "bool option"
  cp_channel :: "(string \<times> json) list"

definition transformFormDataToCreatePayload :: "channel_form \<Rightarrow> create_payload option" where
  "transformFormDataToCreatePayload f =
     (let mode = or_default (fo_multi_key_mode f) ''single''
      in map_option (\<lambda>settings.
           let channel = [
             (''name'', JStr (fo_name f)),
             (''type'', JNum (int_dec (int (fo_type f)))),
             (''base_url'', text_or_null (Some (normalizeBaseUrl (fo_base_url f)))),
             (''key'', JStr (fo_key f)),
             (''openai_organization'', text_or_null (fo_openai_organization f)),
             (''models'', JStr (fo_models f)),
             (''group'', JStr (formatGroups (fo_group f))),
             (''model_mapping'', text_or_null (fo_model_mapping f)),
             (''priority'', int_or_null (fo_priority f)),
             (''weight'', int_or_null (fo_weight f)),
             (''test_model'', text_or_null (fo_test_model f)),
             (''auto_ban'', int_or (fo_auto_ban f) 1),
             (''status'', JNum (int_dec (fo_status f))),
             (''status_code_mapping'', text_or_null (fo_status_code_mapping f)),
             (''tag'', text_or_null (fo_tag f)),
             (''remark'', JStr (or_default (fo_remark f) [])),
             (''setting'', JStr (buildSettingJSON f)),
             (''param_override'', text_or_null (fo_param_override f)),
             (''header_override'', text_or_null (fo_header_override f)),
             (''settings'', JStr settings),
             (''other'', JStr (or_default (fo_other f) []))]
           in \<lparr>cp_mode = mode,
               cp_multi_key_mode = (if mode = ''multi_to_single'' then fo_multi_key_type f else None),
               cp_batch_add_set_key_prefix_2_name =
                 (if mode = ''batch'' then fo_batch_add_set_key_prefix_2_name f else None),
               cp_channel = null_empty channel\<rparr>)
         (buildSettingsJSON f))"

definition transformFormDataToUpdatePayload :: "channel_form \<Rightarrow> int \<Rightarrow> (string \<times> json) list option" where
  "transformFormDataToUpdatePayload f channelId =
     map_option (\<lambda>settings.
       let payload = [
             (''id'', JNum (int_dec channelId)),
             (''name'', JStr (fo_name f)),
             (''type'', JNum (int_dec (int (fo_type f)))),
             (''base_url'', text_or_null (Some (normalizeBaseUrl (fo_base_url f)))),
             (''openai_organization'', text_or_null (fo_openai_organization f)),
             (''models'', JStr (fo_models f)),
             (''group'', JStr (formatGroups (fo_group f))),
             (''model_mapping'', text_or_null (fo_model_mapping f)),
             (''priority'', int_or (fo_priority f) 0),
             (''weight'', int_or (fo_weight f) 0),
             (''test_model'', text_or_null (fo_test_model f)),
             (''auto_ban'', int_or (fo_auto_ban f) 1),
             (''status'', JNum (int_dec (fo_status f))),
             (''status_code_mapping'', text_or_null (fo_status_code_mapping f)),
             (''tag'', text_or_null (fo_tag f)),
             (''remark'', JStr (or_default (fo_remark f) [])),
             (''setting'', JStr (buildSettingJSON f)),
             (''param_override'', text_or_null (fo_param_override f)),
             (''header_override'', text_or_null (fo_header_override f)),
             (''settings'', JStr settings),
             (''other'', JStr (or_default (fo_other f) []))];
           with_key = (if js_trim (fo_key f) \<noteq> [] then payload @ [(''key'', JStr (fo_key f))] else payload);
           cleaned = null_empty with_key;
           put_text = (\<lambda>k v. obj_set k (JStr v))
       in put_text ''header_override'' (or_default (fo_header_override f) [])
           (put_text ''param_override'' (or_default (fo_param_override f) [])
            (put_text ''status_code_mapping'' (or_default (fo_status_code_mapping f) [])
             (put_text ''model_mapping'' (or_default (fo_model_mapping f) [])
              (put_text ''remark'' (or_default (fo_remark f) [])
               (put_text ''tag'' (or_default (fo_tag f) [])
                (put_text ''test_model'' (or_default (fo_test_model f) [])
                 (put_text ''openai_organization'' (or_default (fo_openai_organization f) [])
                  (put_text ''base_url'' (normalizeBaseUrl (fo_base_url f)) cleaned)))))))))
      (buildSettingsJSON f)"

definition validateJSON :: "string \<Rightarrow> bool" where
  "validateJSON value \<longleftrightarrow> value = [] \<or> js_trim value = [] \<or> json_parse value \<noteq> None"

definition validateModelMapping :: "string \<Rightarrow> bool" where
  "validateModelMapping value \<longleftrightarrow> value = [] \<or> js_trim value = [] \<or> validateJSON value"

section \<open>Which errors open the advanced section\<close>

definition ADVANCED_SETTINGS_FIELDS :: "string list" where
  "ADVANCED_SETTINGS_FIELDS = [''priority'', ''weight'', ''test_model'', ''auto_ban'', ''tag'', ''remark'',
     ''param_override'', ''header_override'', ''status_code_mapping'', ''force_format'',
     ''thinking_to_content'', ''pass_through_body_enabled'', ''proxy'', ''system_prompt'',
     ''system_prompt_override'', ''allow_service_tier'', ''disable_store'', ''allow_safety_identifier'',
     ''allow_include_obfuscation'', ''allow_inference_geo'', ''allow_speed'', ''claude_beta_query'',
     ''upstream_model_update_check_enabled'', ''upstream_model_update_auto_sync_enabled'',
     ''upstream_model_update_ignored_models'']"

definition isAdvancedSettingsField :: "string \<Rightarrow> bool" where
  "isAdvancedSettingsField fieldName \<longleftrightarrow> fieldName \<in> set ADVANCED_SETTINGS_FIELDS"

definition hasAdvancedSettingsErrors :: "issue list \<Rightarrow> bool" where
  "hasAdvancedSettingsErrors errors \<longleftrightarrow> list_ex (\<lambda>p. isAdvancedSettingsField (fst p)) errors"

end
