(* ===== verification/ChannelFormFacts.thy ===== *)
theory ChannelFormFacts
  imports ChannelForm ChannelsFacts
begin

text \<open>
  What the channel form guarantees: the settings that are sent hold exactly the keys that belong to
  the channel's type and keep every key the form does not manage; saving, opening and saving again
  changes nothing; a key is sent only when one was typed.
\<close>

section \<open>Objects\<close>

lemma obj_set_same:
  assumes "obj_ok kvs" and "obj_get k kvs = Some v"
  shows "obj_set k v kvs = kvs"
proof -
  have k: "k \<in> fst ` set kvs" using assms(2) by (force simp: obj_get_def dest: map_of_SomeD)
  have "(if fst p = k then (k, v) else p) = p" if p: "p \<in> set kvs" for p
  proof (cases "fst p = k")
    case True
    have "map_of kvs (fst p) = Some (snd p)" using p obj_ok_distinct [OF assms(1)] by (simp add: map_of_eq_Some_iff)
    then show ?thesis using assms(2) True by (cases p) (auto simp: obj_get_def)
  qed simp
  then show ?thesis using k by (simp add: obj_set_def map_idI)
qed

lemma obj_delete_absent: "obj_get k kvs = None \<Longrightarrow> obj_delete k kvs = kvs"
  by (auto simp: obj_get_def obj_delete_def map_of_eq_None_iff filter_id_conv intro: rev_image_eqI)

lemma put_or_delete_get [simp]:
  "obj_get k' (put_or_delete b k v kvs) = (if k' = k then (if b then Some v else None) else obj_get k' kvs)"
  by (simp add: put_or_delete_def)

lemma put_or_delete_ok: "obj_ok kvs \<Longrightarrow> obj_ok (put_or_delete b k v kvs)"
  by (simp add: put_or_delete_def obj_ok_set obj_ok_delete)

lemma put_or_delete_values:
  "\<forall>p \<in> set kvs. json_ok (snd p) \<Longrightarrow> (b \<Longrightarrow> json_ok v) \<Longrightarrow> \<forall>p \<in> set (put_or_delete b k v kvs). json_ok (snd p)"
  by (auto simp: put_or_delete_def dest: obj_set_values obj_delete_values)

lemma put_or_delete_same:
  "obj_ok kvs \<Longrightarrow> obj_get k kvs = (if b then Some v else None) \<Longrightarrow> put_or_delete b k v kvs = kvs"
  by (cases b) (simp_all add: put_or_delete_def obj_set_same obj_delete_absent)

section \<open>The settings object\<close>

definition MANAGED_SETTINGS :: "string list" where
  "MANAGED_SETTINGS = [''vertex_key_type'', ''azure_responses_version'', ''openrouter_enterprise'', ''aws_key_type'',
     ''allow_service_tier'', ''disable_store'', ''allow_safety_identifier'', ''allow_include_obfuscation'',
     ''allow_inference_geo'', ''allow_speed'', ''claude_beta_query'', ''upstream_model_update_check_enabled'',
     ''upstream_model_update_auto_sync_enabled'', ''upstream_model_update_ignored_models'',
     ''upstream_model_update_last_detected_models'', ''upstream_model_update_last_check_time'']"

lemma upstream_gets:
  "obj_get ''upstream_model_update_check_enabled'' (upstream_settings f s0) =
     Some (JBool (fo_upstream_model_update_check_enabled f = Some True))"
  "obj_get ''upstream_model_update_auto_sync_enabled'' (upstream_settings f s0) =
     Some (JBool (fo_upstream_model_update_check_enabled f = Some True \<and>
       fo_upstream_model_update_auto_sync_enabled f = Some True))"
  "obj_get ''upstream_model_update_ignored_models'' (upstream_settings f s0) = Some (ignored_models f)"
  "\<exists>xs. obj_get ''upstream_model_update_last_detected_models'' (upstream_settings f s0) = Some (JArr xs) \<and>
     (fo_upstream_model_update_check_enabled f = Some True \<or> xs = [])"
  "\<exists>d. obj_get ''upstream_model_update_last_check_time'' (upstream_settings f s0) = Some (JNum d)"
  by (auto simp: upstream_settings_def Let_def)

lemma upstream_other: "k \<notin> set MANAGED_SETTINGS \<Longrightarrow> obj_get k (upstream_settings f s0) = obj_get k s0"
  by (simp add: upstream_settings_def Let_def MANAGED_SETTINGS_def)

lemma upstream_typed:
  "k \<notin> {''upstream_model_update_check_enabled'', ''upstream_model_update_auto_sync_enabled'',
     ''upstream_model_update_ignored_models'', ''upstream_model_update_last_detected_models'',
     ''upstream_model_update_last_check_time''} \<Longrightarrow> obj_get k (upstream_settings f s0) = obj_get k s0"
  by (simp add: upstream_settings_def Let_def)

lemma settings_gets:
  "obj_get ''vertex_key_type'' (settings_object f s0) =
     (if fo_type f = 41 then Some (json_or (fo_vertex_key_type f) (JStr ''json'')) else None)"
  "obj_get ''azure_responses_version'' (settings_object f s0) =
     (if fo_type f = 3 \<and> js_truthy (fo_azure_responses_version f)
      then Some (json_or (fo_azure_responses_version f) (JStr [])) else None)"
  "obj_get ''openrouter_enterprise'' (settings_object f s0) =
     (if fo_type f = 20 then Some (flag (fo_is_enterprise_account f)) else None)"
  "obj_get ''aws_key_type'' (settings_object f s0) =
     (if fo_type f = 33 then Some (json_or (fo_aws_key_type f) (JStr ''ak_sk'')) else None)"
  "obj_get ''allow_service_tier'' (settings_object f s0) =
     (if fo_type f = 1 \<or> fo_type f = 14 then Some (flag (fo_allow_service_tier f)) else None)"
  "obj_get ''disable_store'' (settings_object f s0) =
     (if fo_type f = 1 then Some (flag (fo_disable_store f)) else None)"
  "obj_get ''allow_safety_identifier'' (settings_object f s0) =
     (if fo_type f = 1 then Some (flag (fo_allow_safety_identifier f)) else None)"
  "obj_get ''allow_include_obfuscation'' (settings_object f s0) =
     (if fo_type f = 1 then Some (flag (fo_allow_include_obfuscation f)) else None)"
  "obj_get ''allow_inference_geo'' (settings_object f s0) =
     (if fo_type f = 1 \<or> fo_type f = 14 then Some (flag (fo_allow_inference_geo f)) else None)"
  "obj_get ''allow_speed'' (settings_object f s0) =
     (if fo_type f = 14 then Some (flag (fo_allow_speed f)) else None)"
  "obj_get ''claude_beta_query'' (settings_object f s0) =
     (if fo_type f = 14 then Some (flag (fo_claude_beta_query f)) else None)"
  by (simp_all add: settings_object_def Let_def upstream_typed)

lemma settings_other: "k \<notin> set MANAGED_SETTINGS \<Longrightarrow> obj_get k (settings_object f s0) = obj_get k s0"
  by (simp add: settings_object_def Let_def upstream_other) (simp add: MANAGED_SETTINGS_def)

text \<open>The JSON values a form holds are well-formed.\<close>

definition jsval_ok :: "jsval \<Rightarrow> bool" where
  "jsval_ok v = (case v of None \<Rightarrow> True | Some j \<Rightarrow> json_ok j)"

definition form_json_ok :: "channel_form \<Rightarrow> bool" where
  "form_json_ok f \<longleftrightarrow> jsval_ok (fo_force_format f) \<and> jsval_ok (fo_thinking_to_content f) \<and> jsval_ok (fo_proxy f)
     \<and> jsval_ok (fo_pass_through_body_enabled f) \<and> jsval_ok (fo_system_prompt f)
     \<and> jsval_ok (fo_system_prompt_override f) \<and> jsval_ok (fo_vertex_key_type f) \<and> jsval_ok (fo_aws_key_type f)
     \<and> jsval_ok (fo_azure_responses_version f)"

lemma json_or_ok: "jsval_ok v \<Longrightarrow> json_ok d \<Longrightarrow> json_ok (json_or v d)"
  by (auto simp: json_or_def jsval_ok_def split: option.splits)

lemma ignored_models_ok: "json_ok (ignored_models f)"
  by (simp add: ignored_models_def)

lemma obj_set_all: "\<forall>p \<in> set kvs. json_ok (snd p) \<Longrightarrow> json_ok v \<Longrightarrow> \<forall>p \<in> set (obj_set k v kvs). json_ok (snd p)"
  by (auto dest: obj_set_values)

lemma obj_set_json_ok: "json_ok (JObj s) \<Longrightarrow> json_ok v \<Longrightarrow> json_ok (JObj (obj_set k v s))"
  using obj_set_all [of s v k] by (simp add: obj_ok_set)

lemma obj_set_unless_ok:
  "json_ok (JObj s) \<Longrightarrow> json_ok v \<Longrightarrow> json_ok (JObj (if b then s else obj_set k v s))"
  using obj_set_json_ok by simp

lemma upstream_ok: "json_ok (JObj s0) \<Longrightarrow> json_ok (JObj (upstream_settings f s0))"
  unfolding upstream_settings_def Let_def
  by (rule obj_set_unless_ok, rule obj_set_unless_ok, (rule obj_set_json_ok)+, assumption)
    (simp_all add: ignored_models_ok)

lemma put_or_delete_json_ok:
  "json_ok (JObj s) \<Longrightarrow> (b \<Longrightarrow> json_ok v) \<Longrightarrow> json_ok (JObj (put_or_delete b k v s))"
  using put_or_delete_values [of s b v k] by (simp add: put_or_delete_ok)

lemma form_values_ok:
  assumes "form_json_ok f"
  shows "json_ok (json_or (fo_vertex_key_type f) (JStr ''json''))" "json_ok (json_or (fo_aws_key_type f) (JStr ''ak_sk''))"
    "json_ok (json_or (fo_azure_responses_version f) (JStr []))"
  using assms by (simp_all add: json_or_ok form_json_ok_def)

lemma flag_ok: "json_ok (flag b)"
  by (simp add: flag_def)

lemma upstream_if_ok: "json_ok (JObj s) \<Longrightarrow> json_ok (JObj (if b then upstream_settings f s else s))"
  using upstream_ok by simp

lemma settings_object_ok:
  assumes "json_ok (JObj s0)" and "form_json_ok f"
  shows "json_ok (JObj (settings_object f s0))"
  unfolding settings_object_def Let_def
  by (rule upstream_if_ok, (rule put_or_delete_json_ok)+, rule assms(1))
    (rule form_values_ok [OF assms(2)] flag_ok)+

lemma existing_settings_ok: "existing_settings f = JObj kvs \<Longrightarrow> json_ok (JObj kvs)"
proof -
  assume e: "existing_settings f = JObj kvs"
  show ?thesis
  proof (cases "\<exists>s. json_parse s = Some (JObj kvs)")
    case True
    then show ?thesis using json_parse_ok by blast
  next
    case False
    then have "kvs = []" using e by (auto simp: existing_settings_def split: option.splits if_splits)
    then show ?thesis by simp
  qed
qed

text \<open>
  the settings text that a form sends holds the keys of its channel type and no key of another
  type, with the values of the form, and keeps every stored key that the form does not manage.
\<close>

theorem settings_match_type:
  assumes "existing_settings f = JObj kvs" and "form_json_ok f"
  shows "\<exists>text sent. buildSettingsJSON f = Some text \<and> json_parse text = Some (JObj sent) \<and>
    (obj_get ''vertex_key_type'' sent \<noteq> None \<longleftrightarrow> fo_type f = 41) \<and>
    (obj_get ''openrouter_enterprise'' sent \<noteq> None \<longleftrightarrow> fo_type f = 20) \<and>
    (obj_get ''aws_key_type'' sent \<noteq> None \<longleftrightarrow> fo_type f = 33) \<and>
    (obj_get ''azure_responses_version'' sent \<noteq> None \<longleftrightarrow> fo_type f = 3 \<and> js_truthy (fo_azure_responses_version f)) \<and>
    (obj_get ''allow_service_tier'' sent = (if fo_type f \<in> {1, 14} then Some (flag (fo_allow_service_tier f)) else None)) \<and>
    (obj_get ''disable_store'' sent = (if fo_type f = 1 then Some (flag (fo_disable_store f)) else None)) \<and>
    (obj_get ''claude_beta_query'' sent = (if fo_type f = 14 then Some (flag (fo_claude_beta_query f)) else None)) \<and>
    list_all (\<lambda>k. k \<in> set MANAGED_SETTINGS \<or> obj_get k sent = obj_get k kvs) (map fst kvs)"
proof -
  have ok: "json_ok (JObj (settings_object f kvs))"
    by (rule settings_object_ok [OF existing_settings_ok [OF assms(1)] assms(2)])
  have b: "buildSettingsJSON f = Some (json_stringify (JObj (settings_object f kvs)))"
    using assms(1) by (simp add: buildSettingsJSON_def)
  have k: "list_all (\<lambda>k. k \<in> set MANAGED_SETTINGS \<or> obj_get k (settings_object f kvs) = obj_get k kvs) (map fst kvs)"
    using settings_other by (auto simp: list_all_iff)
  show ?thesis
    by (rule exI, rule exI [of _ "settings_object f kvs"], intro conjI, rule b, rule compact.parse_print [OF ok])
      (simp_all add: settings_gets k)
qed

lemma settings_match_type_witness:
  "\<exists>text sent. buildSettingsJSON (CHANNEL_FORM_DEFAULT_VALUES\<lparr>fo_type := 41\<rparr>) = Some text \<and>
    json_parse text = Some (JObj sent) \<and> obj_get ''vertex_key_type'' sent \<noteq> None"
proof -
  have "existing_settings (CHANNEL_FORM_DEFAULT_VALUES\<lparr>fo_type := 41\<rparr>) = JObj []"
    "form_json_ok (CHANNEL_FORM_DEFAULT_VALUES\<lparr>fo_type := 41\<rparr>)"
    by (simp_all add: existing_settings_def form_json_ok_def jsval_ok_def CHANNEL_FORM_DEFAULT_VALUES_def)
  from settings_match_type [OF this] show ?thesis by (auto simp: CHANNEL_FORM_DEFAULT_VALUES_def)
qed

section \<open>Opening what was saved\<close>

lemma put_or_delete_id:
  "obj_ok o' \<Longrightarrow> obj_get k o' = (if b then Some v else None) \<Longrightarrow> put_or_delete b k v o' = o'"
  by (rule put_or_delete_same)

text \<open>What the form holds after it was filled from a settings object.\<close>

definition filled_from :: "channel_form \<Rightarrow> (string \<times> json) list \<Rightarrow> bool" where
  "filled_from g sent \<longleftrightarrow>
     fo_is_enterprise_account g = stored_true (JObj sent) ''openrouter_enterprise'' \<and>
     fo_vertex_key_type g = stored_or (JObj sent) ''vertex_key_type'' (JStr ''json'') \<and>
     fo_aws_key_type g = stored_or (JObj sent) ''aws_key_type'' (JStr ''ak_sk'') \<and>
     fo_azure_responses_version g = stored_or (JObj sent) ''azure_responses_version'' (JStr []) \<and>
     fo_allow_service_tier g = stored_true (JObj sent) ''allow_service_tier'' \<and>
     fo_disable_store g = stored_true (JObj sent) ''disable_store'' \<and>
     fo_allow_safety_identifier g = stored_true (JObj sent) ''allow_safety_identifier'' \<and>
     fo_allow_include_obfuscation g = stored_true (JObj sent) ''allow_include_obfuscation'' \<and>
     fo_allow_inference_geo g = stored_true (JObj sent) ''allow_inference_geo'' \<and>
     fo_allow_speed g = stored_true (JObj sent) ''allow_speed'' \<and>
     fo_claude_beta_query g = stored_true (JObj sent) ''claude_beta_query'' \<and>
     fo_upstream_model_update_check_enabled g = stored_true (JObj sent) ''upstream_model_update_check_enabled'' \<and>
     fo_upstream_model_update_auto_sync_enabled g = stored_true (JObj sent) ''upstream_model_update_auto_sync_enabled'' \<and>
     (\<forall>xs. obj_get ''upstream_model_update_ignored_models'' sent = Some (JArr xs) \<longrightarrow>
        fo_upstream_model_update_ignored_models g = Some (json_to_string (JArr xs)))"

lemma json_or_truthy: "json_truthy d \<Longrightarrow> json_truthy (json_or v d)"
  by (simp add: json_or_def split: option.split)

lemma json_or_stored: "js_prop j k = Some (json_or v d) \<Longrightarrow> json_or (stored_or j k d) d = json_or v d"
  by (auto simp: stored_or_def js_or_def json_or_def js_truthy_def split: option.split)

lemma flag_stored: "js_prop j k = Some (flag b) \<Longrightarrow> flag (stored_true j k) = flag b"
  by (cases "b = Some True") (simp_all add: stored_true_def flag_def)

lemma json_to_string_strings: "json_to_string (JArr (map JStr xs)) = js_join '','' xs"
  by (simp add: comp_def)

lemma filled_json:
  "filled_from g sent \<Longrightarrow> obj_ok sent \<Longrightarrow> obj_get k sent = (if b then Some (json_or w d) else None) \<Longrightarrow>
    v = stored_or (JObj sent) k d \<Longrightarrow> put_or_delete b k (json_or v d) sent = sent"
  by (rule put_or_delete_id) (simp_all add: json_or_stored js_prop_def)

lemma filled_flag:
  "obj_ok sent \<Longrightarrow> obj_get k sent = (if b then Some (flag w) else None) \<Longrightarrow>
    v = stored_true (JObj sent) k \<Longrightarrow> put_or_delete b k (flag v) sent = sent"
  by (rule put_or_delete_id) (simp_all add: flag_stored js_prop_def)

lemma filled_truthy:
  assumes "obj_ok sent" and "obj_get k sent = (if c \<and> js_truthy w then Some (json_or w (JStr [])) else None)"
    and "v = stored_or (JObj sent) k (JStr [])"
  shows "put_or_delete (c \<and> js_truthy v) k (json_or v (JStr [])) sent = sent"
proof (cases "c \<and> js_truthy w")
  case True
  then obtain j where j: "w = Some j" "json_truthy j" by (cases w) (auto simp: js_truthy_def)
  then have "obj_get k sent = Some j" using assms(2) True by (simp add: json_or_def)
  then show ?thesis
    using assms(1,3) True j by (intro put_or_delete_id) (simp_all add: stored_or_def js_prop_def js_or_def js_truthy_def json_or_def)
next
  case False
  then have n: "obj_get k sent = None" using assms(2) by simp
  then have "v = Some (JStr [])" using assms(3) by (simp add: stored_or_def js_prop_def js_or_def js_truthy_def)
  then show ?thesis using assms(1) n by (intro put_or_delete_id) (simp_all add: js_truthy_def)
qed

lemma filled_models:
  "filled_from g sent \<Longrightarrow> obj_get ''upstream_model_update_ignored_models'' sent = Some (JArr xs) \<Longrightarrow>
    fo_upstream_model_update_ignored_models g = Some (json_to_string (JArr xs))"
  unfolding filled_from_def by (elim conjE) (drule spec, drule mp)

lemma upstream_again:
  assumes oo: "obj_ok sent" and s: "sent = upstream_settings f s0" and g: "filled_from g sent"
  shows "upstream_settings g sent = sent"
proof -
  note u = upstream_gets [of f s0, folded s]
  let ?c = "fo_upstream_model_update_check_enabled f = Some True"
  have p: "js_prop (JObj sent) k = obj_get k sent" for k by (simp add: js_prop_def)
  have c: "fo_upstream_model_update_check_enabled g = Some True \<longleftrightarrow> ?c"
    "fo_upstream_model_update_auto_sync_enabled g = Some True \<longleftrightarrow> ?c \<and> fo_upstream_model_update_auto_sync_enabled f = Some True"
    using g u(1,2) unfolding filled_from_def stored_true_def p by simp_all
  then have c2: "?c \<and> fo_upstream_model_update_auto_sync_enabled g = Some True \<longleftrightarrow>
      ?c \<and> fo_upstream_model_update_auto_sync_enabled f = Some True" by blast
  let ?xs = "js_uniq (comma_list (or_default (fo_upstream_model_update_ignored_models f) []))"
  have "fo_upstream_model_update_ignored_models g = Some (js_join '','' ?xs)"
    unfolding filled_models [OF g u(3) [unfolded ignored_models_def]] json_to_string_strings by (rule refl)
  then have m: "ignored_models g = ignored_models f"
    by (simp add: ignored_models_def or_default_def or_str_def comma.read_uniq)
  obtain xs where xs: "obj_get ''upstream_model_update_last_detected_models'' sent = Some (JArr xs)" "?c \<or> xs = []"
    using u(4) by blast
  obtain d where d: "obj_get ''upstream_model_update_last_check_time'' sent = Some (JNum d)" using u(5) by blast
  have same: "obj_set k v sent = sent" if "obj_get k sent = Some v" for k v by (rule obj_set_same [OF oo that])
  have s4: "(if (\<exists>xs. obj_get ''upstream_model_update_last_detected_models'' sent = Some (JArr xs)) \<and> ?c
      then sent else obj_set ''upstream_model_update_last_detected_models'' (JArr []) sent) = sent"
    using xs by (cases ?c) (simp_all add: same)
  show ?thesis
    unfolding upstream_settings_def Let_def c(1) unfolding c2 m same [OF u(1)] unfolding same [OF u(2)]
    unfolding same [OF u(3)] unfolding s4 using d by (simp only: if_True) (rule if_P, blast)
qed

lemma settings_upstream: "fo_type f \<in> set MODEL_FETCHABLE_TYPES \<Longrightarrow> \<exists>s. settings_object f s0 = upstream_settings f s"
  unfolding settings_object_def Let_def by (simp only: if_True) blast

lemma settings_of_filled:
  assumes ok: "json_ok (JObj s0)" "form_json_ok f" and g: "filled_from g sent" "fo_type g = fo_type f"
    and s: "sent = settings_object f s0"
  shows "settings_object g sent = sent"
proof -
  have oo: "obj_ok sent" using settings_object_ok [OF ok] by (simp add: s)
  note gets = settings_gets [of f s0, folded s]
  note js = filled_json [OF g(1) oo] and fl = filled_flag [OF oo] and tr = filled_truthy [OF oo]
  have i1: "put_or_delete (fo_type f = 41) ''vertex_key_type'' (json_or (fo_vertex_key_type g) (JStr ''json'')) sent = sent"
    by (rule js, rule gets) (use g(1) in \<open>simp only: filled_from_def\<close>)
  have i2: "put_or_delete (fo_type f = 3 \<and> js_truthy (fo_azure_responses_version g)) ''azure_responses_version''
      (json_or (fo_azure_responses_version g) (JStr [])) sent = sent"
    by (rule tr, rule gets) (use g(1) in \<open>simp only: filled_from_def\<close>)
  have i3: "put_or_delete (fo_type f = 20) ''openrouter_enterprise'' (flag (fo_is_enterprise_account g)) sent = sent"
    by (rule fl, rule gets) (use g(1) in \<open>simp only: filled_from_def\<close>)
  have i4: "put_or_delete (fo_type f = 33) ''aws_key_type'' (json_or (fo_aws_key_type g) (JStr ''ak_sk'')) sent = sent"
    by (rule js, rule gets) (use g(1) in \<open>simp only: filled_from_def\<close>)
  have i5: "put_or_delete (fo_type f = 1 \<or> fo_type f = 14) ''allow_service_tier'' (flag (fo_allow_service_tier g)) sent = sent"
    by (rule fl, rule gets) (use g(1) in \<open>simp only: filled_from_def\<close>)
  have i6: "put_or_delete (fo_type f = 1) ''disable_store'' (flag (fo_disable_store g)) sent = sent"
    by (rule fl, rule gets) (use g(1) in \<open>simp only: filled_from_def\<close>)
  have i7: "put_or_delete (fo_type f = 1) ''allow_safety_identifier'' (flag (fo_allow_safety_identifier g)) sent = sent"
    by (rule fl, rule gets) (use g(1) in \<open>simp only: filled_from_def\<close>)
  have i8: "put_or_delete (fo_type f = 1) ''allow_include_obfuscation'' (flag (fo_allow_include_obfuscation g)) sent = sent"
    by (rule fl, rule gets) (use g(1) in \<open>simp only: filled_from_def\<close>)
  have i9: "put_or_delete (fo_type f = 1 \<or> fo_type f = 14) ''allow_inference_geo'' (flag (fo_allow_inference_geo g)) sent = sent"
    by (rule fl, rule gets) (use g(1) in \<open>simp only: filled_from_def\<close>)
  have i10: "put_or_delete (fo_type f = 14) ''allow_speed'' (flag (fo_allow_speed g)) sent = sent"
    by (rule fl, rule gets) (use g(1) in \<open>simp only: filled_from_def\<close>)
  have i11: "put_or_delete (fo_type f = 14) ''claude_beta_query'' (flag (fo_claude_beta_query g)) sent = sent"
    by (rule fl, rule gets) (use g(1) in \<open>simp only: filled_from_def\<close>)
  have up: "(if fo_type f \<in> set MODEL_FETCHABLE_TYPES then upstream_settings g sent else sent) = sent"
  proof (cases "fo_type f \<in> set MODEL_FETCHABLE_TYPES")
    case True
    from settings_upstream [OF True, of s0] obtain s11 where "sent = upstream_settings f s11" unfolding s by blast
    from upstream_again [OF oo this g(1)] show ?thesis by (simp only: if_cancel)
  qed simp
  show ?thesis
    unfolding settings_object_def [of g] Let_def g(2) i1 i2 i3 i4 i5 i6 i7 i8 i9 i10 i11 up by (rule refl)
qed

lemma setting_keys_plain:
  "array_index ''force_format'' = None" "array_index ''thinking_to_content'' = None" "array_index ''proxy'' = None"
  "array_index ''pass_through_body_enabled'' = None" "array_index ''system_prompt'' = None"
  "array_index ''system_prompt_override'' = None"
  by (simp_all add: array_index_def is_digit_def)

lemma setting_object_ok: "form_json_ok f \<Longrightarrow> json_ok (JObj (setting_object f))"
  by (simp add: setting_object_def form_json_ok_def json_or_ok obj_ok_def key_before_def setting_keys_plain)

lemma stored_json_print:
  assumes "json_ok (JObj kvs)"
  shows "stored_json (Some (json_stringify (JObj kvs))) = JObj kvs"
  using compact.parse_print [OF assms] by (cases "json_stringify (JObj kvs) = []") (auto simp: stored_json_def)

lemma setting_object_again:
  assumes "json_ok (JObj (setting_object f))"
    and "fo_force_format g = stored_or (JObj (setting_object f)) ''force_format'' (JBool False)"
    and "fo_thinking_to_content g = stored_or (JObj (setting_object f)) ''thinking_to_content'' (JBool False)"
    and "fo_proxy g = stored_or (JObj (setting_object f)) ''proxy'' (JStr [])"
    and "fo_pass_through_body_enabled g = stored_or (JObj (setting_object f)) ''pass_through_body_enabled'' (JBool False)"
    and "fo_system_prompt g = stored_or (JObj (setting_object f)) ''system_prompt'' (JStr [])"
    and "fo_system_prompt_override g = stored_or (JObj (setting_object f)) ''system_prompt_override'' (JBool False)"
  shows "setting_object g = setting_object f"
proof -
  show ?thesis
    unfolding setting_object_def [of g] assms(2-)
    unfolding setting_object_def [of f]
    by (simp add: json_or_stored js_prop_def obj_get_def)
qed

lemma existing_settings_print:
  assumes ok: "json_ok (JObj kvs)" and s: "fo_settings f = Some (json_stringify (JObj kvs))"
  shows "existing_settings f = JObj kvs"
proof -
  note parse = compact.parse_print [OF ok]
  have ne: "json_stringify (JObj kvs) \<noteq> []" using parse by auto
  show ?thesis
  proof (cases "json_stringify (JObj kvs) = ''{}''")
    case True
    have "json_parse ''{}'' = Some (JObj [])" by code_simp
    then have "kvs = []" using parse True by simp
    then show ?thesis using True by (simp only: existing_settings_def s option.case simp_thms if_True)
  next
    case False
    then show ?thesis using ne by (simp only: existing_settings_def s option.case parse simp_thms if_False)
  qed
qed

text \<open>The fields of the form that the settings fill, read off the code's record.\<close>

lemma transform_fields:
  assumes "transformChannelToFormDefaults channel = Some g"
  shows "fo_type g = ch_type channel" "fo_key g = []" "fo_settings g = text_or (Some (ch_settings channel)) ''{}''"
    "stored_json (Some (ch_settings channel)) = JObj sent \<Longrightarrow> filled_from g sent"
    "stored_json (ch_setting channel) = JObj extra \<Longrightarrow>
      fo_force_format g = stored_or (JObj extra) ''force_format'' (JBool False) \<and>
      fo_thinking_to_content g = stored_or (JObj extra) ''thinking_to_content'' (JBool False) \<and>
      fo_proxy g = stored_or (JObj extra) ''proxy'' (JStr []) \<and>
      fo_pass_through_body_enabled g = stored_or (JObj extra) ''pass_through_body_enabled'' (JBool False) \<and>
      fo_system_prompt g = stored_or (JObj extra) ''system_prompt'' (JStr []) \<and>
      fo_system_prompt_override g = stored_or (JObj extra) ''system_prompt_override'' (JBool False)"
proof -
  obtain info where "ch_channel_info channel = Some info"
    using assms by (cases "ch_channel_info channel") (simp_all add: transformChannelToFormDefaults_def)
  note g = assms [unfolded transformChannelToFormDefaults_def Let_def this option.case option.inject, symmetric]
  show "fo_type g = ch_type channel" "fo_key g = []" "fo_settings g = text_or (Some (ch_settings channel)) ''{}''"
    by (simp_all add: g)
  show "filled_from g sent" if "stored_json (Some (ch_settings channel)) = JObj sent"
    unfolding filled_from_def g that by (simp add: js_prop_def)
  show "fo_force_format g = stored_or (JObj extra) ''force_format'' (JBool False) \<and>
      fo_thinking_to_content g = stored_or (JObj extra) ''thinking_to_content'' (JBool False) \<and>
      fo_proxy g = stored_or (JObj extra) ''proxy'' (JStr []) \<and>
      fo_pass_through_body_enabled g = stored_or (JObj extra) ''pass_through_body_enabled'' (JBool False) \<and>
      fo_system_prompt g = stored_or (JObj extra) ''system_prompt'' (JStr []) \<and>
      fo_system_prompt_override g = stored_or (JObj extra) ''system_prompt_override'' (JBool False)"
    if "stored_json (ch_setting channel) = JObj extra"
    unfolding g that by simp
qed

text \<open>
  C8: when a channel was stored with the two settings texts that a form sends, the form that opens
  from it sends the same two texts again: saving a reopened channel changes no setting.
\<close>

theorem settings_save_reopen_save:
  assumes kvs: "existing_settings f = JObj kvs" and ok: "form_json_ok f"
    and sent: "buildSettingsJSON f = Some stored"
    and channel: "ch_type channel = fo_type f" "ch_settings channel = stored" "ch_setting channel = Some (buildSettingJSON f)"
    and opened: "transformChannelToFormDefaults channel = Some g"
  shows "buildSettingsJSON g = Some stored \<and> buildSettingJSON g = buildSettingJSON f"
proof
  note g = transform_fields [OF opened, unfolded channel]
  have obj: "json_ok (JObj (settings_object f kvs))" by (rule settings_object_ok [OF existing_settings_ok [OF kvs] ok])
  have stored: "stored = json_stringify (JObj (settings_object f kvs))" using kvs sent by (simp add: buildSettingsJSON_def)
  have "stored \<noteq> []" using compact.parse_print [OF obj] by (auto simp: stored)
  then have "fo_settings g = Some stored" using g(3) by (simp add: text_or_def or_default_def or_str_def)
  then have e: "existing_settings g = JObj (settings_object f kvs)"
    unfolding stored by (rule existing_settings_print [OF obj])
  have "settings_object g (settings_object f kvs) = settings_object f kvs"
    using settings_of_filled [OF existing_settings_ok [OF kvs] ok g(4) g(1) refl] stored_json_print [OF obj]
    by (simp only: stored)
  then show "buildSettingsJSON g = Some stored" by (simp only: buildSettingsJSON_def e json.case stored)
  have obj2: "json_ok (JObj (setting_object f))" by (rule setting_object_ok [OF ok])
  have "stored_json (Some (buildSettingJSON f)) = JObj (setting_object f)"
    unfolding buildSettingJSON_def by (rule stored_json_print [OF obj2])
  note fields = g(5) [OF this]
  have "setting_object g = setting_object f"
    by (rule setting_object_again [OF obj2]) (use fields in blast)+
  then show "buildSettingJSON g = buildSettingJSON f" by (simp only: buildSettingJSON_def)
qed

definition sample_form :: channel_form where
  "sample_form = CHANNEL_FORM_DEFAULT_VALUES\<lparr>fo_type := 41\<rparr>"

lemma sample_form_ok: "existing_settings sample_form = JObj []" "form_json_ok sample_form"
  by (simp_all add: sample_form_def existing_settings_def form_json_ok_def jsval_ok_def CHANNEL_FORM_DEFAULT_VALUES_def)

definition sample_info :: channel_info where
  "sample_info = \<lparr>ci_is_multi_key = False, ci_multi_key_size = 0, ci_multi_key_status_list = None,
     ci_multi_key_disabled_reason = None, ci_multi_key_disabled_time = None, ci_multi_key_polling_index = 0,
     ci_multi_key_mode = ''random''\<rparr>"

definition sample_stored :: channel where
  "sample_stored = sample_channel\<lparr>ch_type := 41,
     ch_settings := (case buildSettingsJSON sample_form of None \<Rightarrow> [] | Some t \<Rightarrow> t),
     ch_setting := Some (buildSettingJSON sample_form), ch_channel_info := Some sample_info\<rparr>"

lemma settings_save_reopen_save_witness:
  "\<exists>stored g. buildSettingsJSON sample_form = Some stored \<and> transformChannelToFormDefaults sample_stored = Some g \<and>
    buildSettingsJSON g = Some stored \<and> buildSettingJSON g = buildSettingJSON sample_form"
proof -
  obtain stored where stored: "buildSettingsJSON sample_form = Some stored"
    using sample_form_ok(1) by (simp add: buildSettingsJSON_def)
  obtain g where g: "transformChannelToFormDefaults sample_stored = Some g"
    using that by (simp add: transformChannelToFormDefaults_def sample_stored_def Let_def)
  have c: "ch_type sample_stored = fo_type sample_form" "ch_settings sample_stored = stored"
    "ch_setting sample_stored = Some (buildSettingJSON sample_form)"
    using stored by (simp_all add: sample_stored_def) (simp add: sample_form_def)
  from settings_save_reopen_save [OF sample_form_ok stored c g] stored g show ?thesis by blast
qed

section \<open>What an update sends\<close>

definition CLEARABLE :: "string list" where
  "CLEARABLE = [''base_url'', ''openai_organization'', ''test_model'', ''tag'', ''remark'', ''model_mapping'',
     ''status_code_mapping'', ''param_override'', ''header_override'']"

definition entered_text :: "channel_form \<Rightarrow> string \<Rightarrow> string" where
  "entered_text f k =
     (if k = ''base_url'' then normalizeBaseUrl (fo_base_url f)
      else or_default
        (if k = ''openai_organization'' then fo_openai_organization f else if k = ''test_model'' then fo_test_model f
         else if k = ''tag'' then fo_tag f else if k = ''remark'' then fo_remark f
         else if k = ''model_mapping'' then fo_model_mapping f
         else if k = ''status_code_mapping'' then fo_status_code_mapping f
         else if k = ''param_override'' then fo_param_override f else fo_header_override f) [])"

lemma obj_get_null_empty:
  "obj_get k (null_empty kvs) = map_option (\<lambda>v. if v = JStr [] then JNull else v) (obj_get k kvs)"
  by (simp add: obj_get_def null_empty_def map_of_map)

definition put_texts :: "channel_form \<Rightarrow> (string \<times> json) list \<Rightarrow> (string \<times> json) list" where
  "put_texts f kvs = foldl (\<lambda>kvs k. obj_set k (JStr (entered_text f k)) kvs) kvs CLEARABLE"

lemma foldl_set_get:
  "obj_get k (foldl (\<lambda>kvs k. obj_set k (h k) kvs) kvs ks) = (if k \<in> set ks then Some (h k) else obj_get k kvs)"
  by (induction ks arbitrary: kvs) auto

lemma put_texts_key: "obj_get ''key'' (put_texts f kvs) = obj_get ''key'' kvs"
proof -
  have "''key'' \<notin> set CLEARABLE" by (simp add: CLEARABLE_def)
  then show ?thesis by (simp only: put_texts_def foldl_set_get [of _ "\<lambda>k. JStr (entered_text f k)"] if_False)
qed

lemma put_texts_clearable: "list_all (\<lambda>k. obj_get k (put_texts f kvs) = Some (JStr (entered_text f k))) CLEARABLE"
  by (simp add: put_texts_def foldl_set_get [of _ "\<lambda>k. JStr (entered_text f k)"] list_all_iff)

lemma entered_texts:
  "entered_text f ''base_url'' = normalizeBaseUrl (fo_base_url f)"
  "entered_text f ''openai_organization'' = or_default (fo_openai_organization f) []"
  "entered_text f ''test_model'' = or_default (fo_test_model f) []" "entered_text f ''tag'' = or_default (fo_tag f) []"
  "entered_text f ''remark'' = or_default (fo_remark f) []"
  "entered_text f ''model_mapping'' = or_default (fo_model_mapping f) []"
  "entered_text f ''status_code_mapping'' = or_default (fo_status_code_mapping f) []"
  "entered_text f ''param_override'' = or_default (fo_param_override f) []"
  "entered_text f ''header_override'' = or_default (fo_header_override f) []"
  by (simp_all add: entered_text_def)

lemma update_shape:
  assumes "transformFormDataToUpdatePayload f channelId = Some payload"
  shows "\<exists>base extra. payload = put_texts f (null_empty (base @ extra)) \<and> ''key'' \<notin> fst ` set base \<and>
    extra = (if js_trim (fo_key f) \<noteq> [] then [(''key'', JStr (fo_key f))] else [])"
proof -
  obtain settings where s: "buildSettingsJSON f = Some settings"
    using assms by (cases "buildSettingsJSON f") (simp_all add: transformFormDataToUpdatePayload_def)
  have app: "(if b then xs @ ys else xs) = xs @ (if b then ys else [])" for b and xs ys :: "(string \<times> json) list" by simp
  note p = assms [unfolded transformFormDataToUpdatePayload_def Let_def s option.map option.inject app, symmetric]
  show ?thesis
    by (rule exI, rule exI, rule conjI, unfold put_texts_def CLEARABLE_def foldl.simps entered_texts, rule p) simp
qed

text \<open>
  an update sends the key only when one was typed, and every text that may be cleared as the
  text in the form, the empty one included (never null, which the backend would ignore).
\<close>

theorem update_key_and_clears:
  assumes "transformFormDataToUpdatePayload f channelId = Some payload"
  shows "obj_get ''key'' payload = (if js_trim (fo_key f) = [] then None else Some (JStr (fo_key f))) \<and>
    list_all (\<lambda>k. obj_get k payload = Some (JStr (entered_text f k))) CLEARABLE"
proof -
  from update_shape [OF assms] obtain base extra where
    p: "payload = put_texts f (null_empty (base @ extra))" and b: "''key'' \<notin> fst ` set base"
    and e: "extra = (if js_trim (fo_key f) \<noteq> [] then [(''key'', JStr (fo_key f))] else [])" by blast
  have "obj_get ''key'' payload = (if js_trim (fo_key f) = [] then None else Some (JStr (fo_key f)))"
  proof (cases "js_trim (fo_key f) = []")
    case True
    then show ?thesis using b by (simp add: p e put_texts_key obj_get_null_empty) (simp add: obj_get_def map_of_eq_None_iff)
  next
    case False
    then have n: "fo_key f \<noteq> []" by auto
    have "map_of base ''key'' = None" using b by (simp add: map_of_eq_None_iff)
    then have "obj_get ''key'' (base @ extra) = Some (JStr (fo_key f))"
      using False by (simp add: e obj_get_def map_add_def)
    then show ?thesis using n False by (simp add: p put_texts_key obj_get_null_empty)
  qed
  then show ?thesis using put_texts_clearable by (simp only: p simp_thms)
qed

lemma update_key_and_clears_witness:
  "\<exists>payload. transformFormDataToUpdatePayload (sample_form\<lparr>fo_key := ''sk-1''\<rparr>) 7 = Some payload \<and>
    obj_get ''key'' payload = Some (JStr ''sk-1'') \<and> obj_get ''tag'' payload = Some (JStr [])"
proof -
  obtain payload where p: "transformFormDataToUpdatePayload (sample_form\<lparr>fo_key := ''sk-1''\<rparr>) 7 = Some payload"
    by (simp add: transformFormDataToUpdatePayload_def buildSettingsJSON_def existing_settings_def sample_form_def
        CHANNEL_FORM_DEFAULT_VALUES_def)
  have "js_trim ''sk-1'' = ''sk-1''" by code_simp
  with update_key_and_clears [OF p] p show ?thesis
    by (simp add: CLEARABLE_def entered_text_def sample_form_def CHANNEL_FORM_DEFAULT_VALUES_def or_default_def or_str_def)
qed

section \<open>A valid form can be sent\<close>

lemma typed_json_ok:
  "opt_bool v \<Longrightarrow> jsval_ok v" "opt_string v \<Longrightarrow> jsval_ok v" "opt_enum xs v \<Longrightarrow> jsval_ok v"
  by (auto simp: opt_bool_def opt_string_def opt_enum_def jsval_ok_def split: option.splits json.splits)

lemma type_issues_none:
  assumes "type_issues f = []"
  shows "form_json_ok f"
proof -
  note issues = assms [unfolded type_issues_def map_is_Nil_conv filter_empty_conv list.set]
  have "opt_bool (fo_force_format f)" "opt_bool (fo_thinking_to_content f)" "opt_string (fo_proxy f)"
    "opt_bool (fo_pass_through_body_enabled f)" "opt_string (fo_system_prompt f)"
    "opt_bool (fo_system_prompt_override f)" "opt_enum [''json'', ''api_key''] (fo_vertex_key_type f)"
    "opt_enum [''ak_sk'', ''api_key''] (fo_aws_key_type f)" "opt_string (fo_azure_responses_version f)"
    using issues by simp_all
  then show ?thesis by (simp only: form_json_ok_def typed_json_ok simp_thms)
qed

lemma valid_existing:
  assumes "isOptionalJsonObject (fo_settings f)"
  shows "\<exists>kvs. existing_settings f = JObj kvs"
proof (cases "fo_settings f")
  case (Some s)
  show ?thesis
  proof (cases "json_parse s")
    case None
    then show ?thesis using Some by (auto simp: existing_settings_def)
  next
    case (Some v)
    have "js_trim s \<noteq> []" using Some json_parse_blank by auto
    then have "is_plain_object v" using assms \<open>fo_settings f = _\<close> Some
      by (simp add: isOptionalJsonObject_def parseOptionalJson_def)
    then show ?thesis using \<open>fo_settings f = _\<close> Some
      by (cases v) (auto simp: existing_settings_def is_plain_object_def)
  qed
qed (simp add: existing_settings_def)

lemma issue_unless_none: "issue_unless b p m = [] \<longleftrightarrow> b"
  by (simp add: issue_unless_def)

text \<open>
  sending a form that the schema accepts never raises: both payloads are built, and the stored
  settings are read back from the sent text as an object.
\<close>

theorem valid_form_sends:
  assumes "form_valid f"
  shows "\<exists>created updated text sent. transformFormDataToCreatePayload f = Some created \<and>
    transformFormDataToUpdatePayload f channelId = Some updated \<and> buildSettingsJSON f = Some text \<and>
    json_parse text = Some (JObj sent) \<and> json_parse (buildSettingJSON f) = Some (JObj (setting_object f))"
proof -
  have j: "form_json_ok f" using assms type_issues_none by (simp add: form_valid_def)
  have "field_issues f = []" using assms by (simp add: form_valid_def)
  then have "isOptionalJsonObject (fo_settings f)" by (simp only: field_issues_def append_is_Nil_conv issue_unless_none)
  then obtain kvs where e: "existing_settings f = JObj kvs" using valid_existing by blast
  from settings_object_ok [OF existing_settings_ok [OF e] j] have ok: "json_ok (JObj (settings_object f kvs))" .
  have b: "buildSettingsJSON f = Some (json_stringify (JObj (settings_object f kvs)))"
    using e by (simp only: buildSettingsJSON_def json.case)
  have "json_parse (buildSettingJSON f) = Some (JObj (setting_object f))"
    unfolding buildSettingJSON_def by (rule compact.parse_print [OF setting_object_ok [OF j]])
  then show ?thesis
    using b compact.parse_print [OF ok]
    unfolding transformFormDataToCreatePayload_def transformFormDataToUpdatePayload_def Let_def b option.map by blast
qed

lemma valid_form_sends_witness:
  "\<exists>created. transformFormDataToCreatePayload
     (CHANNEL_FORM_DEFAULT_VALUES\<lparr>fo_name := ''a'', fo_models := ''m''\<rparr>) = Some created"
proof -
  have "form_valid (CHANNEL_FORM_DEFAULT_VALUES\<lparr>fo_name := ''a'', fo_models := ''m''\<rparr>)"
    by code_simp
  from valid_form_sends [OF this] show ?thesis by blast
qed

end
