(* ===== verification/ModelMapping.thy ===== *)
theory ModelMapping
  imports JsValue TextLists
begin

text \<open>
  The model mapping of a channel, a JSON object from requested to served models
  (features/channels/lib/model-mapping-validation.ts), and the record of detected upstream changes
  (features/channels/lib/upstream-update-utils.ts). A set that the code returns is the list of its
  elements in insertion order.
\<close>

section \<open>The list of models\<close>

definition parseModelsString :: "string \<Rightarrow> string list" where
  "parseModelsString modelsStr = (if modelsStr = [] then [] else sep_list CHR '','' modelsStr)"

definition formatModelsArray :: "string list \<Rightarrow> string" where
  "formatModelsArray models = js_join '','' (js_uniq models)"

definition normalizeModelName :: "string \<Rightarrow> string" where
  "normalizeModelName model = js_trim model"

section \<open>Reading the mapping\<close>

text \<open>\<open>!parsed || typeof parsed !== 'object' || Array.isArray(parsed)\<close> fails on objects only.\<close>

definition parsed_object :: "string \<Rightarrow> (string \<times> json) list option" where
  "parsed_object s = (case json_parse s of Some (JObj kvs) \<Rightarrow> Some kvs | _ \<Rightarrow> None)"

definition extractMappingSourceModels :: "string \<Rightarrow> string list" where
  "extractMappingSourceModels modelMapping =
     (let trimmed = js_trim modelMapping
      in if trimmed = [] then []
         else case parsed_object trimmed of
           None \<Rightarrow> []
         | Some kvs \<Rightarrow> js_uniq (filter nonempty (map (\<lambda>p. js_trim (fst p)) kvs)))"

definition string_target :: "json \<Rightarrow> string option" where
  "string_target v = (case v of JStr s \<Rightarrow> if js_trim s = [] then None else Some (js_trim s) | _ \<Rightarrow> None)"

definition extractRedirectModels :: "string \<Rightarrow> string list" where
  "extractRedirectModels modelMapping =
     (let trimmed = js_trim modelMapping
      in if trimmed = [] then []
         else case parsed_object trimmed of
           None \<Rightarrow> []
         | Some kvs \<Rightarrow> js_uniq (List.map_filter (\<lambda>p. string_target (snd p)) kvs))"

definition hasModelConfigChanged :: "string list \<Rightarrow> string \<Rightarrow> string list \<Rightarrow> string \<Rightarrow> bool" where
  "hasModelConfigChanged currentModels currentModelMapping initialModels initialModelMapping =
     (if length initialModels = 0 \<and> initialModelMapping = [] then True
      else if length currentModels \<noteq> length initialModels then True
      else if list_ex (\<lambda>i. currentModels ! i \<noteq> initialModels ! i) [0..<length currentModels] then True
      else js_trim currentModelMapping \<noteq> js_trim initialModelMapping)"

definition findMissingModelsInMapping :: "string \<Rightarrow> string list \<Rightarrow> string list" where
  "findMissingModelsInMapping modelMapping currentModels =
     (if modelMapping = [] \<or> js_trim modelMapping = [] then []
      else case parsed_object modelMapping of
        None \<Rightarrow> []
      | Some kvs \<Rightarrow>
          let modelSet = set (map normalizeModelName currentModels);
              missingModels = filter (\<lambda>key. key \<noteq> [] \<and> key \<notin> modelSet) (map (\<lambda>p. normalizeModelName (fst p)) kvs)
          in js_uniq missingModels)"

text \<open>None: valid; Some: the error.\<close>

definition validateModelMappingJson :: "string \<Rightarrow> string option" where
  "validateModelMappingJson modelMapping =
     (if modelMapping = [] \<or> js_trim modelMapping = [] then None
      else case json_parse modelMapping of
        None \<Rightarrow> Some ''Model mapping must be valid JSON format''
      | Some (JObj kvs) \<Rightarrow>
          if list_ex (\<lambda>p. \<not> is_string (Some (snd p))) kvs then Some ''Model mapping values must be strings'' else None
      | Some _ \<Rightarrow> Some ''Model mapping must be a valid JSON object'')"

definition findExposedTargetModels :: "string \<Rightarrow> string list \<Rightarrow> string list" where
  "findExposedTargetModels modelMapping currentModels =
     (let redirectModels = extractRedirectModels modelMapping
      in if redirectModels = [] then []
         else filter (\<lambda>m. normalizeModelName m \<in> set (map normalizeModelName currentModels)) redirectModels)"

record categories =
  normalizedCurrentModels :: "string list"
  normalizedRedirectModels :: "string list"
  classificationSet :: "string list"
  redirectOnlySet :: "string list"

definition categorizeModelsWithRedirect :: "string list \<Rightarrow> string list \<Rightarrow> categories" where
  "categorizeModelsWithRedirect currentModels redirectModels =
     (let cur = js_uniq (filter nonempty (map normalizeModelName currentModels));
          red = js_uniq (filter nonempty (map normalizeModelName redirectModels))
      in \<lparr>normalizedCurrentModels = cur, normalizedRedirectModels = red,
          classificationSet = js_uniq (cur @ red), redirectOnlySet = filter (\<lambda>m. m \<notin> set cur) red\<rparr>)"

section \<open>Detected upstream changes\<close>

text \<open>\<open>models || []\<close> is iterated with \<open>map\<close>: None when it is neither falsy nor an array.\<close>

definition normalizeModelList :: "jsval \<Rightarrow> string list option" where
  "normalizeModelList models =
     (if \<not> js_truthy models then Some []
      else case models of
        Some (JArr xs) \<Rightarrow>
          Some (js_uniq (filter nonempty (map (\<lambda>m. js_trim (if json_truthy m then json_to_string m else [])) xs)))
      | _ \<Rightarrow> None)"

record upstream_meta =
  um_enabled :: bool
  um_pendingAddModels :: "string list"
  um_pendingRemoveModels :: "string list"

definition parseUpstreamUpdateMeta :: "jsval \<Rightarrow> upstream_meta option" where
  "parseUpstreamUpdateMeta settings =
     (let parsed = (case settings of
            Some (JObj kvs) \<Rightarrow> Some (JObj kvs)
          | Some (JStr s) \<Rightarrow> json_parse s
          | _ \<Rightarrow> None);
          disabled = \<lparr>um_enabled = False, um_pendingAddModels = [], um_pendingRemoveModels = []\<rparr>;
          read = (\<lambda>v. case (normalizeModelList (js_prop v ''upstream_model_update_last_detected_models''),
              normalizeModelList (js_prop v ''upstream_model_update_last_removed_models'')) of
            (Some added, Some removed) \<Rightarrow>
              Some \<lparr>um_enabled = is_true (js_prop v ''upstream_model_update_check_enabled''),
                um_pendingAddModels = added, um_pendingRemoveModels = removed\<rparr>
          | _ \<Rightarrow> None)
      in case parsed of
           Some (JObj kvs) \<Rightarrow> read (JObj kvs)
         | Some (JArr xs) \<Rightarrow> read (JArr xs)
         | _ \<Rightarrow> Some disabled)"

section \<open>Missing and exposed models\<close>

text \<open>The models of a mapping: its trimmed, non-empty keys.\<close>

definition mapping_models :: "string \<Rightarrow> string set" where
  "mapping_models s = (case parsed_object s of None \<Rightarrow> {} | Some kvs \<Rightarrow> {m. m \<noteq> [] \<and> (\<exists>k \<in> fst ` set kvs. m = js_trim k)})"

lemma parsed_object_blank: "js_trim s = [] \<Longrightarrow> parsed_object s = None"
  by (simp add: parsed_object_def json_parse_blank)

lemma set_missing:
  "set (findMissingModelsInMapping s ms) = mapping_models s - set (map js_trim ms)"
  by (auto simp: findMissingModelsInMapping_def mapping_models_def normalizeModelName_def Let_def
      parsed_object_blank split: option.split)

lemma mapping_models_ne: "m \<in> mapping_models s \<Longrightarrow> m \<noteq> []"
  by (simp add: mapping_models_def split: option.splits)

lemma mapping_models_trim: "m \<in> mapping_models s \<Longrightarrow> js_trim m = m"
  by (auto simp: mapping_models_def split: option.splits)

lemma parseModelsString_eq: "parseModelsString s = sep_list CHR '','' s"
  by (simp add: parseModelsString_def)

lemma parse_format_models:
  "set (parseModelsString (formatModelsArray xs)) = (\<Union>x \<in> set xs. set (sep_list CHR '','' x))"
  by (simp add: parseModelsString_eq formatModelsArray_def sep_list_join_concat)

text \<open>
  when the models that a mapping names and the list lacks are added to the list, exactly
  those whose name contains a comma are still missing in the list as it is stored: one comma makes
  a name impossible to list, and otherwise nothing is missing any more.
\<close>

theorem missing_after_adding:
  "set (findMissingModelsInMapping mapping (parseModelsString (formatModelsArray
       (js_uniq (parseModelsString models @ findMissingModelsInMapping mapping (parseModelsString models)))))) =
   {m \<in> set (findMissingModelsInMapping mapping (parseModelsString models)). CHR '','' \<in> set m}"
proof -
  let ?ms = "parseModelsString models"
  let ?missing = "findMissingModelsInMapping mapping ?ms"
  have trimmed: "js_trim ` set (sep_list CHR '','' t) = set (sep_list CHR '','' t)" for t
    using comma.read_ok [of t] by (force simp: list_all_iff item_ok_def)
  have missing: "set ?missing = mapping_models mapping - set ?ms"
    unfolding set_missing set_map parseModelsString_eq trimmed by (rule refl)
  let ?xs = "js_uniq (?ms @ ?missing)"
  have listed: "set (map js_trim (parseModelsString (formatModelsArray ?xs))) = (\<Union>x \<in> set ?ms \<union> set ?missing. set (sep_list CHR '','' x))"
    unfolding set_map parse_format_models image_UN trimmed by simp
  have no_comma: "m \<in> set (sep_list CHR '','' t) \<Longrightarrow> CHR '','' \<notin> set m" for m t
    using comma.read_ok [of t] by (auto simp: list_all_iff item_ok_def)
  have self: "sep_list CHR '','' m = [m]" if "m \<in> mapping_models mapping" "CHR '','' \<notin> set m" for m
    using comma.read_join [of "[m]"] that mapping_models_trim [of m] mapping_models_ne [of m] by (simp add: item_ok_def)
  show ?thesis
  proof (intro set_eqI iffI)
    fix m assume m: "m \<in> set (findMissingModelsInMapping mapping (parseModelsString (formatModelsArray ?xs)))"
    then have mm: "m \<in> mapping_models mapping" and nl: "\<forall>x \<in> set ?ms \<union> set ?missing. m \<notin> set (sep_list CHR '','' x)"
      unfolding set_missing listed by auto
    have "CHR '','' \<in> set m"
    proof (rule ccontr)
      assume "CHR '','' \<notin> set m"
      with self [OF mm] have "set (sep_list CHR '','' m) = {m}" by simp
      with nl have "m \<notin> set ?ms \<union> set ?missing" by blast
      then show False using mm missing by blast
    qed
    moreover from this have "m \<notin> set ?ms" using no_comma unfolding parseModelsString_eq by blast
    ultimately show "m \<in> {m \<in> set ?missing. CHR '','' \<in> set m}" using mm missing by blast
  next
    fix m assume "m \<in> {m \<in> set ?missing. CHR '','' \<in> set m}"
    then show "m \<in> set (findMissingModelsInMapping mapping (parseModelsString (formatModelsArray ?xs)))"
      unfolding set_missing listed using missing no_comma by blast
  qed
qed

lemma categories_split:
  "set (classificationSet (categorizeModelsWithRedirect cur red)) =
     set (normalizedCurrentModels (categorizeModelsWithRedirect cur red)) \<union>
     set (redirectOnlySet (categorizeModelsWithRedirect cur red))"
  "set (normalizedCurrentModels (categorizeModelsWithRedirect cur red)) \<inter>
     set (redirectOnlySet (categorizeModelsWithRedirect cur red)) = {}"
  by (auto simp: categorizeModelsWithRedirect_def Let_def)

end
