(* ===== verification/ChannelSubmit.thy ===== *)
theory ChannelSubmit
  imports ChannelForm ModelMapping StatusCodes
begin

text \<open>
  The drawer that creates or edits a channel
  (features/channels/components/drawers/channel-mutate-drawer.tsx and
  features/channels/hooks/use-channel-mutate-form.ts): what it holds when it opens, and the submit,
  which may stop, may ask whether risky redirects are meant, may ask what to do with models that
  the mapping names and the list lacks, and ends in a request. The two dialogs suspend the submit,
  so it is a step relation whose steps are the button and the answers. The form's library calls
  the submit when the schema accepts the values and \<open>onInvalid\<close> otherwise.
\<close>

section \<open>Opening the drawer\<close>

record drawer =
  dr_row :: "int option"
  dr_multi_key :: bool
  dr_form :: channel_form
  dr_advanced :: bool
  dr_initialModels :: "string list"
  dr_initialModelMapping :: string
  dr_initialStatusCodeMapping :: string

text \<open>The disjuncts of \<open>hasAdvancedSettingsValues\<close> in order, up to the first that is truthy.
  \<open>values.proxy?.trim()\<close> raises (None) on a value that is neither nullish nor a string.\<close>

definition trim_text :: "string option \<Rightarrow> bool option" where
  "trim_text s = Some (case s of None \<Rightarrow> False | Some t \<Rightarrow> js_trim t \<noteq> [])"

definition trim_value :: "jsval \<Rightarrow> bool option" where
  "trim_value v = (case v of
     None \<Rightarrow> Some False | Some JNull \<Rightarrow> Some False | Some (JStr s) \<Rightarrow> Some (js_trim s \<noteq> []) | Some _ \<Rightarrow> None)"

fun first_truthy :: "bool option list \<Rightarrow> bool option" where
  "first_truthy [] = Some False"
| "first_truthy (None # _) = None"
| "first_truthy (Some True # _) = Some True"
| "first_truthy (Some False # bs) = first_truthy bs"

definition nonzero :: "int option \<Rightarrow> bool" where
  "nonzero n = (case n of None \<Rightarrow> False | Some x \<Rightarrow> x \<noteq> 0)"

definition hasAdvancedSettingsValues :: "channel_form \<Rightarrow> bool option" where
  "hasAdvancedSettingsValues f = first_truthy [
     trim_text (fo_param_override f), trim_text (fo_header_override f), trim_text (fo_status_code_mapping f),
     trim_text (fo_tag f), trim_text (fo_remark f),
     Some (nonzero (fo_priority f)), Some (nonzero (fo_weight f)),
     trim_value (fo_proxy f), trim_value (fo_system_prompt f),
     Some (js_truthy (fo_force_format f)), Some (js_truthy (fo_thinking_to_content f)),
     Some (js_truthy (fo_pass_through_body_enabled f)), Some (js_truthy (fo_system_prompt_override f)),
     Some (fo_claude_beta_query f = Some True),
     Some (fo_upstream_model_update_check_enabled f = Some True),
     Some (fo_upstream_model_update_auto_sync_enabled f = Some True),
     trim_text (fo_upstream_model_update_ignored_models f)]"

text \<open>\<open>pref\<close> is the stored preference that keeps the advanced section open. None: the effect
  raises.\<close>

definition open_edit :: "bool \<Rightarrow> int \<Rightarrow> channel \<Rightarrow> drawer option" where
  "open_edit pref row channel = (case transformChannelToFormDefaults channel of
     None \<Rightarrow> None
   | Some defaults \<Rightarrow>
       map_option (\<lambda>advanced.
         \<lparr>dr_row = Some row,
          dr_multi_key = (case ch_channel_info channel of None \<Rightarrow> False | Some info \<Rightarrow> ci_is_multi_key info),
          dr_form = defaults, dr_advanced = advanced,
          dr_initialModels = parseModelsString (or_str (ch_models channel) []),
          dr_initialModelMapping = or_default (ch_model_mapping channel) [],
          dr_initialStatusCodeMapping = or_default (ch_status_code_mapping channel) []\<rparr>)
         (if pref then Some True else hasAdvancedSettingsValues defaults))"

definition open_create :: drawer where
  "open_create = \<lparr>dr_row = None, dr_multi_key = False, dr_form = CHANNEL_FORM_DEFAULT_VALUES, dr_advanced = False,
     dr_initialModels = [], dr_initialModelMapping = [], dr_initialStatusCodeMapping = []\<rparr>"

text \<open>The defaults that choosing a type fills in when a channel is created.\<close>

definition type_chosen :: "drawer \<Rightarrow> drawer" where
  "type_chosen d =
     (let f = dr_form d
      in if dr_row d \<noteq> None then d
         else if fo_type f = 45 then
           (if or_default (fo_base_url f) [] = [] then d\<lparr>dr_form := f\<lparr>fo_base_url := Some ''https://ark.cn-beijing.volces.com''\<rparr>\<rparr> else d)
         else if fo_type f = 18 then
           (if or_default (fo_other f) [] = [] then d\<lparr>dr_form := f\<lparr>fo_other := Some ''v2.1''\<rparr>\<rparr> else d)
         else d)"

definition handleDeduplicateKeys :: "drawer \<Rightarrow> drawer" where
  "handleDeduplicateKeys d =
     (let currentKey = fo_key (dr_form d)
      in if currentKey = [] \<or> js_trim currentKey = [] then d
         else let result = deduplicateKeys currentKey
              in if dd_removedCount result = 0 then d
                 else d\<lparr>dr_form := (dr_form d)\<lparr>fo_key := dd_text result\<rparr>\<rparr>)"

definition updateModels :: "drawer \<Rightarrow> string list \<Rightarrow> bool \<Rightarrow> drawer" where
  "updateModels d newModels merge =
     (let finalModels = (if merge then formatModelsArray (parseModelsString (fo_models (dr_form d)) @ newModels)
                         else formatModelsArray newModels)
      in d\<lparr>dr_form := (dr_form d)\<lparr>fo_models := finalModels\<rparr>\<rparr>)"

section \<open>The request\<close>

datatype request =
    CreateChannel create_payload
  | UpdateChannel int "(string \<times> json) list"

text \<open>None: building the payload raises, which the mutation reports.\<close>

definition mutate :: "drawer \<Rightarrow> channel_form \<Rightarrow> request option" where
  "mutate d data = (case dr_row d of
     Some row \<Rightarrow>
       map_option (\<lambda>payload. UpdateChannel row
         (if dr_multi_key d \<and> or_default (fo_key_mode data) [] \<noteq> []
          then obj_set ''key_mode'' (JStr (or_default (fo_key_mode data) [])) payload else payload))
         (transformFormDataToUpdatePayload data row)
   | None \<Rightarrow> map_option CreateChannel (transformFormDataToCreatePayload data))"

section \<open>The submit\<close>

datatype missing_action = Cancel | SubmitAnyway | AddMissing

datatype stop =
    InvalidFields
  | KeyRequired
  | InvalidEntries "(string \<times> string) list"
  | RiskDeclined
  | BadMapping string
  | MissingCancelled

datatype submit_state =
    Ready channel_form
  | AskRisk channel_form "string list"
  | AskMissing channel_form "string list"
  | Sent channel_form request
  | Failed
  | Stopped stop

definition send :: "drawer \<Rightarrow> channel_form \<Rightarrow> submit_state" where
  "send d data = (case mutate d data of None \<Rightarrow> Failed | Some r \<Rightarrow> Sent data r)"

definition has_text :: "string option \<Rightarrow> bool" where
  "has_text s = (case s of None \<Rightarrow> False | Some t \<Rightarrow> js_trim t \<noteq> [])"

definition text_of :: "string option \<Rightarrow> string" where
  "text_of s = (case s of None \<Rightarrow> [] | Some t \<Rightarrow> t)"

definition check_models :: "drawer \<Rightarrow> channel_form \<Rightarrow> submit_state" where
  "check_models d data =
     (if \<not> has_text (fo_model_mapping data) then send d data
      else case validateModelMappingJson (text_of (fo_model_mapping data)) of
        Some error \<Rightarrow> Stopped (BadMapping error)
      | None \<Rightarrow>
          let normalizedModels = parseModelsString (or_str (fo_models data) []);
              missingModels = findMissingModelsInMapping (text_of (fo_model_mapping data)) normalizedModels
          in if 0 < length missingModels
                \<and> hasModelConfigChanged normalizedModels (or_default (fo_model_mapping data) [])
                    (dr_initialModels d) (dr_initialModelMapping d)
             then AskMissing data missingModels
             else send d data)"

definition onSubmit :: "drawer \<Rightarrow> channel_form \<Rightarrow> submit_state" where
  "onSubmit d data =
     (if dr_row d = None \<and> js_trim (fo_key data) = [] then Stopped KeyRequired
      else if has_text (fo_status_code_mapping data) then
        (let invalidEntries = collectInvalidStatusCodeEntries (text_of (fo_status_code_mapping data))
         in if 0 < length invalidEntries then Stopped (InvalidEntries invalidEntries)
            else let riskyRedirects = collectNewDisallowedStatusCodeRedirects (dr_initialStatusCodeMapping d)
                       (text_of (fo_status_code_mapping data))
                 in if 0 < length riskyRedirects then AskRisk data riskyRedirects else check_models d data)
      else check_models d data)"

definition answer_risk :: "drawer \<Rightarrow> channel_form \<Rightarrow> bool \<Rightarrow> submit_state" where
  "answer_risk d data confirmed = (if \<not> confirmed then Stopped RiskDeclined else check_models d data)"

definition with_missing :: "channel_form \<Rightarrow> string list \<Rightarrow> channel_form" where
  "with_missing data missingModels =
     (let updatedModels = js_uniq (parseModelsString (or_str (fo_models data) []) @ missingModels)
      in data\<lparr>fo_models := formatModelsArray updatedModels\<rparr>)"

definition answer_missing :: "drawer \<Rightarrow> channel_form \<Rightarrow> string list \<Rightarrow> missing_action \<Rightarrow> submit_state" where
  "answer_missing d data missingModels action = (case action of
     Cancel \<Rightarrow> Stopped MissingCancelled
   | AddMissing \<Rightarrow> send d (with_missing data missingModels)
   | SubmitAnyway \<Rightarrow> send d data)"

definition press_submit :: "drawer \<Rightarrow> channel_form \<Rightarrow> submit_state" where
  "press_submit d data = (if form_valid data then onSubmit d data else Stopped InvalidFields)"

text \<open>The advanced section opens when one of its fields has an error.\<close>

definition onInvalid :: "drawer \<Rightarrow> issue list \<Rightarrow> drawer" where
  "onInvalid d errors = (if hasAdvancedSettingsErrors errors then d\<lparr>dr_advanced := True\<rparr> else d)"

datatype user_input = Press | AnswerRisk bool | AnswerMissing missing_action

inductive submit_step :: "drawer \<Rightarrow> submit_state \<Rightarrow> user_input \<Rightarrow> submit_state \<Rightarrow> bool" for d where
  pressed: "submit_step d (Ready data) Press (press_submit d data)"
| risk_answered: "submit_step d (AskRisk data risky) (AnswerRisk confirmed) (answer_risk d data confirmed)"
| missing_answered: "submit_step d (AskMissing data missing) (AnswerMissing action) (answer_missing d data missing action)"

inductive_simps submit_step_simps:
  "submit_step d (Ready data) i s" "submit_step d (AskRisk data risky) i s" "submit_step d (AskMissing data missing) i s"
  "submit_step d (Sent data r) i s" "submit_step d Failed i s" "submit_step d (Stopped why) i s"

code_pred submit_step .

text \<open>A sequence of inputs, one step for each.\<close>

inductive submit_run :: "drawer \<Rightarrow> submit_state \<Rightarrow> user_input list \<Rightarrow> submit_state \<Rightarrow> bool" for d where
  no_input: "submit_run d s [] s"
| next_input: "submit_step d s i t \<Longrightarrow> submit_run d t is u \<Longrightarrow> submit_run d s (i # is) u"

inductive_simps submit_run_simps: "submit_run d s [] u" "submit_run d s (i # is) u"

code_pred submit_run .

end
