(* ===== verification/ChannelSubmitFacts.thy ===== *)
theory ChannelSubmitFacts
  imports ChannelSubmit ChannelFormFacts
begin

text \<open>
  What a submit guarantees: what every sequence of answers ends in, that a request leaves exactly
  when every check passed and every question was answered with yes, that an unchanged channel is
  saved without a question, and how the three validators of the two mappings relate.
\<close>

section \<open>What is checked\<close>

definition key_missing :: "drawer \<Rightarrow> channel_form \<Rightarrow> bool" where
  "key_missing d f \<longleftrightarrow> dr_row d = None \<and> js_trim (fo_key f) = []"

definition invalid_entries :: "channel_form \<Rightarrow> (string \<times> string) list" where
  "invalid_entries f = (if has_text (fo_status_code_mapping f)
     then collectInvalidStatusCodeEntries (text_of (fo_status_code_mapping f)) else [])"

definition new_redirects :: "drawer \<Rightarrow> channel_form \<Rightarrow> string list" where
  "new_redirects d g = (if has_text (fo_status_code_mapping g)
     then collectNewDisallowedStatusCodeRedirects (dr_initialStatusCodeMapping d) (text_of (fo_status_code_mapping g)) else [])"

definition models_of :: "channel_form \<Rightarrow> string list" where
  "models_of g = parseModelsString (or_str (fo_models g) [])"

definition missing_of :: "channel_form \<Rightarrow> string list" where
  "missing_of g = findMissingModelsInMapping (text_of (fo_model_mapping g)) (models_of g)"

definition mapping_ok :: "channel_form \<Rightarrow> bool" where
  "mapping_ok g \<longleftrightarrow> \<not> has_text (fo_model_mapping g) \<or> validateModelMappingJson (text_of (fo_model_mapping g)) = None"

text \<open>Every check that asks nothing: the schema accepts the form, a new channel has a key, and no
  entry of the status code mapping is invalid.\<close>

definition passed :: "drawer \<Rightarrow> channel_form \<Rightarrow> bool" where
  "passed d f \<longleftrightarrow> form_valid f \<and> \<not> key_missing d f \<and> invalid_entries f = []"

text \<open>When the dialog of missing models opens.\<close>

definition asks_missing :: "drawer \<Rightarrow> channel_form \<Rightarrow> bool" where
  "asks_missing d f \<longleftrightarrow> has_text (fo_model_mapping f) \<and> missing_of f \<noteq> [] \<and>
     hasModelConfigChanged (models_of f) (or_default (fo_model_mapping f) []) (dr_initialModels d) (dr_initialModelMapping d)"

text \<open>The inputs that get past the question about risky redirects, if it is asked.\<close>

definition pressed_and_confirmed :: "drawer \<Rightarrow> channel_form \<Rightarrow> user_input list" where
  "pressed_and_confirmed d f = Press # (if new_redirects d f = [] then [] else [AnswerRisk True])"

text \<open>The form that the inputs let through to the request.\<close>

definition submitted :: "drawer \<Rightarrow> channel_form \<Rightarrow> user_input list \<Rightarrow> channel_form \<Rightarrow> bool" where
  "submitted d f inputs g \<longleftrightarrow> passed d f \<and>
     (if asks_missing d f
      then inputs = pressed_and_confirmed d f @ [AnswerMissing SubmitAnyway] \<and> g = f
        \<or> inputs = pressed_and_confirmed d f @ [AnswerMissing AddMissing] \<and> g = with_missing f (missing_of f)
      else inputs = pressed_and_confirmed d f \<and> g = f)"

lemma mapping_validators_agree: "isOptionalModelMapping (Some s) \<longleftrightarrow> validateModelMappingJson s = None"
proof (cases "js_trim s = []")
  case False
  then show ?thesis
    by (auto simp: isOptionalModelMapping_def parseOptionalJson_def validateModelMappingJson_def list_all_iff list_ex_iff
        split: option.splits json.splits)
qed (simp add: isOptionalModelMapping_def parseOptionalJson_def validateModelMappingJson_def)

lemma valid_mapping_ok:
  assumes "form_valid f"
  shows "mapping_ok f"
proof -
  have "isOptionalModelMapping (fo_model_mapping f)"
    using assms by (simp only: form_valid_def field_issues_def append_is_Nil_conv issue_unless_none)
  with mapping_validators_agree show ?thesis
    by (auto simp: mapping_ok_def has_text_def text_of_def split: option.splits)
qed

section \<open>Every step written out\<close>

fun ended :: "submit_state \<Rightarrow> bool" where
  "ended (Ready _) = False"
| "ended (AskRisk _ _) = False"
| "ended (AskMissing _ _) = False"
| "ended _ = True"

lemma ended_send [simp]: "ended (send d data)"
  by (simp add: send_def split: option.split)

lemma ended_answer_missing [simp]: "ended (answer_missing d f ms a)"
  by (cases a) (simp_all add: answer_missing_def)

lemma send_sent: "send d f = Sent g r \<longleftrightarrow> g = f \<and> mutate d f = Some r"
  by (auto simp: send_def split: option.split)

lemma send_failed: "send d f = Failed \<longleftrightarrow> mutate d f = None"
  by (simp add: send_def split: option.split)

lemma send_not_stopped [simp]: "send d f \<noteq> Stopped w"
  by (simp add: send_def split: option.split)

lemma press_submit_eq:
  "press_submit d f =
     (if \<not> form_valid f then Stopped InvalidFields
      else if key_missing d f then Stopped KeyRequired
      else if invalid_entries f \<noteq> [] then Stopped (InvalidEntries (invalid_entries f))
      else if new_redirects d f \<noteq> [] then AskRisk f (new_redirects d f)
      else check_models d f)"
  by (simp add: press_submit_def onSubmit_def key_missing_def invalid_entries_def new_redirects_def Let_def)

lemma check_models_eq:
  assumes "mapping_ok f"
  shows "check_models d f = (if asks_missing d f then AskMissing f (missing_of f) else send d f)"
  using assms by (auto simp: check_models_def asks_missing_def missing_of_def models_of_def mapping_ok_def Let_def)

lemma run_ended: "ended s \<Longrightarrow> submit_run d s inputs t \<longleftrightarrow> inputs = [] \<and> t = s"
  by (cases s; cases inputs) (auto simp: submit_run_simps submit_step_simps)

lemma run_ask_missing:
  "submit_run d (AskMissing f ms) inputs t \<longleftrightarrow> inputs = [] \<and> t = AskMissing f ms
     \<or> (\<exists>a. inputs = [AnswerMissing a] \<and> t = answer_missing d f ms a)"
  by (cases inputs) (auto simp: submit_run_simps submit_step_simps run_ended)

lemma run_ask_risk:
  "submit_run d (AskRisk f rs) inputs t \<longleftrightarrow> inputs = [] \<and> t = AskRisk f rs
     \<or> (\<exists>c rest. inputs = AnswerRisk c # rest \<and> submit_run d (answer_risk d f c) rest t)"
  by (cases inputs) (auto simp: submit_run_simps submit_step_simps)

lemma run_ready:
  "submit_run d (Ready f) inputs t \<longleftrightarrow> inputs = [] \<and> t = Ready f
     \<or> (\<exists>rest. inputs = Press # rest \<and> submit_run d (press_submit d f) rest t)"
  by (cases inputs) (auto simp: submit_run_simps submit_step_simps)

text \<open>What follows once nothing about redirects is left to ask.\<close>

lemma run_checked:
  assumes "mapping_ok f" "ended t"
  shows "submit_run d (check_models d f) inputs t \<longleftrightarrow>
    (if asks_missing d f then (\<exists>a. inputs = [AnswerMissing a] \<and> t = answer_missing d f (missing_of f) a)
     else inputs = [] \<and> t = send d f)"
  using assms by (auto simp: check_models_eq run_ask_missing run_ended)

lemma run_declined: "submit_run d (answer_risk d f False) inputs t \<longleftrightarrow> inputs = [] \<and> t = Stopped RiskDeclined"
  by (simp add: answer_risk_def run_ended)

lemma run_confirmed: "submit_run d (answer_risk d f True) inputs t \<longleftrightarrow> submit_run d (check_models d f) inputs t"
  by (simp add: answer_risk_def)

text \<open>The whole submit, for every sequence of inputs that ends.\<close>

lemma run_stopped:
  assumes "\<not> passed d f" "ended t"
  shows "submit_run d (Ready f) inputs t \<longleftrightarrow> inputs = [Press] \<and>
    t = (if \<not> form_valid f then Stopped InvalidFields else if key_missing d f then Stopped KeyRequired
         else Stopped (InvalidEntries (invalid_entries f)))"
  using assms by (auto simp: run_ready press_submit_eq passed_def run_ended)

lemma run_passed:
  assumes p: "passed d f" and e: "ended t"
  shows "submit_run d (Ready f) inputs t \<longleftrightarrow>
    new_redirects d f \<noteq> [] \<and> inputs = [Press, AnswerRisk False] \<and> t = Stopped RiskDeclined \<or>
    (if asks_missing d f
     then (\<exists>a. inputs = pressed_and_confirmed d f @ [AnswerMissing a] \<and> t = answer_missing d f (missing_of f) a)
     else inputs = pressed_and_confirmed d f \<and> t = send d f)"
proof -
  have m: "mapping_ok f" using p valid_mapping_ok by (simp add: passed_def)
  show ?thesis
  proof (cases "new_redirects d f = []")
    case True
    then have "press_submit d f = check_models d f" using p by (simp add: press_submit_eq passed_def)
    with True e show ?thesis by (auto simp: run_ready run_checked [OF m e] pressed_and_confirmed_def)
  next
    case False
    then have "press_submit d f = AskRisk f (new_redirects d f)" using p by (simp add: press_submit_eq passed_def)
    with False e show ?thesis
      by (auto simp: run_ready run_ask_risk run_declined run_confirmed run_checked [OF m e] pressed_and_confirmed_def
          ex_bool_eq)
  qed
qed

lemma answer_missing_stopped: "answer_missing d f ms a = Stopped w \<longleftrightarrow> a = Cancel \<and> w = MissingCancelled"
  by (cases a) (auto simp: answer_missing_def)

lemma submitted_passed: "submitted d f inputs g \<Longrightarrow> passed d f"
  by (simp add: submitted_def)

lemma run_sends:
  assumes "ended t" "\<And>w. t \<noteq> Stopped w"
  shows "submit_run d (Ready f) inputs t \<longleftrightarrow> (\<exists>g. submitted d f inputs g \<and> t = send d g)"
proof (cases "passed d f")
  case False
  with assms show ?thesis by (auto simp: run_stopped submitted_def split: if_splits)
next
  case True
  have a: "t = answer_missing d f ms a \<longleftrightarrow> a = SubmitAnyway \<and> t = send d f \<or> a = AddMissing \<and> t = send d (with_missing f ms)"
    for a ms using assms(2) by (cases a) (auto simp: answer_missing_def)
  show ?thesis
    using assms(2) unfolding run_passed [OF True assms(1)] a submitted_def by (auto simp: True)
qed

lemma run_length:
  assumes "submit_run d (Ready f) inputs s"
  shows "length inputs \<le> 3"
proof -
  have c: "length is \<le> 1" if "submit_run d (check_models d f) is s" for "is"
  proof -
    have "ended (check_models d f) \<or> (\<exists>ms. check_models d f = AskMissing f ms)"
      by (auto simp: check_models_def Let_def split: option.split)
    with that show ?thesis by (auto simp: run_ended run_ask_missing)
  qed
  have "length is \<le> 2" if "submit_run d (press_submit d f) is s" for "is"
    using that c by (auto simp: press_submit_eq run_ended run_ask_risk answer_risk_def split: if_splits) fastforce+
  with assms show ?thesis by (auto simp: run_ready)
qed

section \<open>What a submit does\<close>

text \<open>
  C9: a submit stops in exactly these cases: the form is invalid; a new channel has no key; entries
  of the status code mapping are invalid, and these are reported; the new risky redirects were
  asked about and declined; the missing models were asked about and the dialog was cancelled. It
  fails exactly when the payload of what it lets through cannot be built. And it never takes more
  than two answers.
\<close>

theorem submit_outcomes:
  "(submit_run d (Ready f) inputs (Stopped why) \<longleftrightarrow>
      why = InvalidFields \<and> \<not> form_valid f \<and> inputs = [Press] \<or>
      why = KeyRequired \<and> form_valid f \<and> key_missing d f \<and> inputs = [Press] \<or>
      why = InvalidEntries (invalid_entries f) \<and> form_valid f \<and> \<not> key_missing d f \<and> invalid_entries f \<noteq> [] \<and> inputs = [Press] \<or>
      why = RiskDeclined \<and> passed d f \<and> new_redirects d f \<noteq> [] \<and> inputs = [Press, AnswerRisk False] \<or>
      why = MissingCancelled \<and> passed d f \<and> asks_missing d f
        \<and> inputs = pressed_and_confirmed d f @ [AnswerMissing Cancel]) \<and>
   (submit_run d (Ready f) inputs Failed \<longleftrightarrow> (\<exists>g. submitted d f inputs g \<and> mutate d g = None)) \<and>
   (submit_run d (Ready f) inputs s \<longrightarrow> length inputs \<le> 3 \<and> (ended s \<or> (\<exists>i t. submit_step d s i t)))"
proof (intro conjI impI)
  have "submit_run d (Ready f) inputs (Stopped why) \<longleftrightarrow>
      (if passed d f then
         new_redirects d f \<noteq> [] \<and> inputs = [Press, AnswerRisk False] \<and> why = RiskDeclined \<or>
         asks_missing d f \<and> inputs = pressed_and_confirmed d f @ [AnswerMissing Cancel] \<and> why = MissingCancelled
       else inputs = [Press] \<and>
         why = (if \<not> form_valid f then InvalidFields else if key_missing d f then KeyRequired else InvalidEntries (invalid_entries f)))"
    by (auto simp: run_passed run_stopped answer_missing_stopped eq_commute [of "Stopped why"])
  then show "submit_run d (Ready f) inputs (Stopped why) \<longleftrightarrow>
      why = InvalidFields \<and> \<not> form_valid f \<and> inputs = [Press] \<or>
      why = KeyRequired \<and> form_valid f \<and> key_missing d f \<and> inputs = [Press] \<or>
      why = InvalidEntries (invalid_entries f) \<and> form_valid f \<and> \<not> key_missing d f \<and> invalid_entries f \<noteq> [] \<and> inputs = [Press] \<or>
      why = RiskDeclined \<and> passed d f \<and> new_redirects d f \<noteq> [] \<and> inputs = [Press, AnswerRisk False] \<or>
      why = MissingCancelled \<and> passed d f \<and> asks_missing d f
        \<and> inputs = pressed_and_confirmed d f @ [AnswerMissing Cancel]"
    by (auto simp: passed_def)
  show "submit_run d (Ready f) inputs Failed \<longleftrightarrow> (\<exists>g. submitted d f inputs g \<and> mutate d g = None)"
    by (simp add: run_sends eq_commute [of Failed] send_failed)
next
  assume "submit_run d (Ready f) inputs s"
  then show "length inputs \<le> 3" by (rule run_length)
next
  show "ended s \<or> (\<exists>i t. submit_step d s i t)" by (cases s) (auto simp: submit_step_simps)
qed

lemma submit_outcomes_witness:
  "\<not> form_valid CHANNEL_FORM_DEFAULT_VALUES \<and>
    submit_run open_create (Ready CHANNEL_FORM_DEFAULT_VALUES) [Press] (Stopped InvalidFields) \<and> length [Press] \<le> 3"
proof -
  have v: "\<not> form_valid CHANNEL_FORM_DEFAULT_VALUES" by code_simp
  then have r: "submit_run open_create (Ready CHANNEL_FORM_DEFAULT_VALUES) [Press] (Stopped InvalidFields)"
    using submit_outcomes [of open_create CHANNEL_FORM_DEFAULT_VALUES "[Press]" InvalidFields] by blast
  with v submit_outcomes [of open_create CHANNEL_FORM_DEFAULT_VALUES "[Press]" InvalidFields "Stopped InvalidFields"]
  show ?thesis by blast
qed

text \<open>
  C10: a request leaves exactly when the schema accepted the form, a new channel has a key, every
  status code entry is valid, risky redirects that are new were confirmed, the model mapping is
  well-formed, and the dialog of missing models, where it is due, was answered with submitting anyway
  or with adding the models; what is sent is the request for the form, or for the form with the
  missing models added to its list.
\<close>

theorem submit_sends_checked:
  "submit_run d (Ready f) inputs (Sent g r) \<longleftrightarrow> passed d f \<and> mapping_ok f \<and> mutate d g = Some r \<and>
     (if asks_missing d f
      then inputs = pressed_and_confirmed d f @ [AnswerMissing SubmitAnyway] \<and> g = f
        \<or> inputs = pressed_and_confirmed d f @ [AnswerMissing AddMissing] \<and> g = with_missing f (missing_of f)
      else inputs = pressed_and_confirmed d f \<and> g = f)"
proof -
  have "submit_run d (Ready f) inputs (Sent g r) \<longleftrightarrow> submitted d f inputs g \<and> mutate d g = Some r"
    by (auto simp: run_sends eq_commute [of "Sent g r"] send_sent)
  then show ?thesis using valid_mapping_ok by (auto simp: submitted_def passed_def)
qed

text \<open>A new channel with a mapping to a model that is not listed.\<close>

definition mapped_form :: channel_form where
  "mapped_form = CHANNEL_FORM_DEFAULT_VALUES\<lparr>fo_name := ''a'', fo_models := ''m'', fo_key := ''k'',
     fo_model_mapping := Some ''{\"x\":\"y\"}''\<rparr>"

lemma create_built: "dr_row d = None \<Longrightarrow> existing_settings f = JObj [] \<Longrightarrow> \<exists>r. mutate d f = Some r"
  by (simp only: mutate_def option.case transformFormDataToCreatePayload_def Let_def option.map buildSettingsJSON_def)
    simp

lemma mutate_mapped: "\<exists>r. mutate open_create (with_missing mapped_form ms) = Some r"
proof (rule create_built)
  show "existing_settings (with_missing mapped_form ms) = JObj []"
    by (simp add: existing_settings_def with_missing_def Let_def mapped_form_def CHANNEL_FORM_DEFAULT_VALUES_def)
qed (simp add: open_create_def)

lemma mapped_valid: "form_valid mapped_form"
  by code_simp

lemma mapped_key: "\<not> key_missing open_create mapped_form"
  by code_simp

lemma mapped_entries: "invalid_entries mapped_form = []"
  by (simp add: invalid_entries_def has_text_def mapped_form_def CHANNEL_FORM_DEFAULT_VALUES_def)

lemma mapped_redirects: "new_redirects open_create mapped_form = []"
  by (simp add: new_redirects_def has_text_def mapped_form_def CHANNEL_FORM_DEFAULT_VALUES_def)

lemma mapped_missing: "missing_of mapped_form = [''x'']"
  by code_simp

lemma mapped_asks: "asks_missing open_create mapped_form"
  by (simp only: asks_missing_def mapped_missing) code_simp

lemma submit_sends_checked_witness:
  "\<exists>r. submit_run open_create (Ready mapped_form) [Press, AnswerMissing AddMissing]
     (Sent (with_missing mapped_form [''x'']) r)"
proof -
  obtain r where r: "mutate open_create (with_missing mapped_form [''x'']) = Some r" using mutate_mapped by blast
  have p: "passed open_create mapped_form" by (simp add: passed_def mapped_valid mapped_key mapped_entries)
  have c: "pressed_and_confirmed open_create mapped_form = [Press]"
    by (simp add: pressed_and_confirmed_def mapped_redirects)
  show ?thesis
    by (rule exI [of _ r], subst submit_sends_checked)
      (simp add: p r c mapped_asks mapped_missing valid_mapping_ok [OF mapped_valid])
qed

section \<open>Saving an unchanged channel\<close>

lemma opened_fields:
  assumes "open_edit pref row channel = Some d"
  shows "dr_row d = Some row" "dr_initialModels d = parseModelsString (ch_models channel)"
    "dr_initialModelMapping d = or_default (ch_model_mapping channel) []"
    "dr_initialStatusCodeMapping d = or_default (ch_status_code_mapping channel) []"
    "transformChannelToFormDefaults channel = Some (dr_form d)"
  using assms by (auto simp: open_edit_def or_str_def split: option.splits if_splits)

lemma transform_texts:
  assumes "transformChannelToFormDefaults channel = Some g"
  shows "fo_models g = ch_models channel" "fo_model_mapping g = text_or (ch_model_mapping channel) []"
    "fo_status_code_mapping g = text_or (ch_status_code_mapping channel) []"
proof -
  obtain info where "ch_channel_info channel = Some info"
    using assms by (cases "ch_channel_info channel") (simp_all add: transformChannelToFormDefaults_def)
  note g = assms [unfolded transformChannelToFormDefaults_def Let_def this option.case option.inject, symmetric]
  show "fo_models g = ch_models channel" "fo_model_mapping g = text_or (ch_model_mapping channel) []"
    "fo_status_code_mapping g = text_or (ch_status_code_mapping channel) []"
    by (simp_all add: g)
qed

lemma no_new_redirects: "collectNewDisallowedStatusCodeRedirects s s = []"
  by (simp add: collectNewDisallowedStatusCodeRedirects_def Let_def)

lemma unchanged_config: "\<not> (length ms = 0 \<and> m = []) \<Longrightarrow> \<not> hasModelConfigChanged ms m ms m"
  by (simp add: hasModelConfigChanged_def list_ex_iff)

text \<open>
  saving a channel as it was opened never asks anything: no redirect is new and no missing
  model is reported, whatever is stored; pressing the button decides the submit at once.
\<close>

theorem unchanged_save_asks_nothing:
  assumes "open_edit pref row channel = Some d"
  shows "submit_run d (Ready (dr_form d)) [Press] s \<longleftrightarrow> s = press_submit d (dr_form d)" "ended (press_submit d (dr_form d))"
proof -
  note opened = opened_fields [OF assms]
  note t = transform_texts [OF opened(5)]
  have texts: "text_of (fo_model_mapping (dr_form d)) = dr_initialModelMapping d"
    "text_of (fo_status_code_mapping (dr_form d)) = dr_initialStatusCodeMapping d"
    "or_default (fo_model_mapping (dr_form d)) [] = dr_initialModelMapping d" "models_of (dr_form d) = dr_initialModels d"
    using opened t by (simp_all add: text_or_def text_of_def or_default_def or_str_def models_of_def)
  have no_risk: "new_redirects d (dr_form d) = []"
    by (simp add: new_redirects_def texts no_new_redirects)
  have "dr_initialModelMapping d \<noteq> []" if "has_text (fo_model_mapping (dr_form d))"
    using that texts(1) by (auto simp: has_text_def text_of_def split: option.splits)
  then have "\<not> asks_missing d (dr_form d)"
    using texts unchanged_config unfolding asks_missing_def by metis
  then have "ended (check_models d (dr_form d))" if "form_valid (dr_form d)"
    using valid_mapping_ok [OF that] by (simp add: check_models_eq)
  then show "ended (press_submit d (dr_form d))" using no_risk by (simp add: press_submit_eq)
  show "submit_run d (Ready (dr_form d)) [Press] s \<longleftrightarrow> s = press_submit d (dr_form d)"
    by (auto simp: submit_run_simps submit_step_simps)
qed

lemma unchanged_save_asks_nothing_witness:
  "\<exists>d. open_edit True 7 sample_stored = Some d \<and> ended (press_submit d (dr_form d))"
proof -
  obtain d where "open_edit True 7 sample_stored = Some d"
    by (simp add: open_edit_def transformChannelToFormDefaults_def sample_stored_def Let_def)
  with unchanged_save_asks_nothing [OF this] show ?thesis by blast
qed

section \<open>The two validators of a model mapping\<close>

text \<open>
  the schema's validator of a model mapping and the one that the submit uses accept the same
  texts, so a submit never stops at its own check of the mapping.
\<close>

theorem mapping_check_redundant:
  "(isOptionalModelMapping (Some m) \<longleftrightarrow> validateModelMappingJson m = None) \<and>
    \<not> submit_run d (Ready f) inputs (Stopped (BadMapping e))"
proof (cases "passed d f")
  case True
  then show ?thesis using mapping_validators_agree
    by (auto simp: run_passed eq_commute [of "Stopped (BadMapping e)"] answer_missing_stopped)
qed (use mapping_validators_agree in \<open>auto simp: run_stopped split: if_splits\<close>)

section \<open>The two validators of a status code mapping\<close>

lemma digits_js_number:
  assumes s: "js_trim s = c # t" and d: "list_all is_digit (c # t)" and c: "c \<noteq> CHR ''0''"
  shows "js_number s = Num (int_dec (int (nat_of_digits (js_trim s))))"
proof -
  have p: "c \<noteq> CHR ''-''" "c \<noteq> CHR ''+''" "c \<noteq> CHR ''I''" using d by (auto simp: is_digit_def)
  have t: "takeWhile is_digit t = t" "dropWhile is_digit t = []"
    using d by (simp_all add: list_all_iff takeWhile_eq_all_conv dropWhile_eq_Nil_conv)
  have "is_digit c" using d by simp
  then show ?thesis
    unfolding js_number_def Let_def s using p c by (simp add: t parse_exponent_def scale_dec_def)
qed

lemma status_text_number:
  assumes "is_status_text (js_trim s)"
  shows "is_http_status (js_number s)"
proof -
  obtain a b c where t: "js_trim s = [a, b, c]" "a \<in> set ''12345''" "is_digit b" "is_digit c"
    using assms by (auto simp: is_status_text_def split: list.splits)
  have "is_digit a" "a \<noteq> CHR ''0''" using t(2) by (auto simp: is_digit_def)
  with digits_js_number [OF t(1)] t have "js_number s = Num (int_dec (int (nat_of_digits (js_trim s))))" by simp
  then show ?thesis using status_text_bounds [OF assms] by (simp add: is_http_status_def)
qed

text \<open>
  the guard is stricter than the schema: a mapping without an entry that the guard reports is
  accepted by the schema.
\<close>

theorem status_guard_stricter:
  assumes "json_parse s = Some (JObj kvs)" and "collectInvalidStatusCodeEntries s = []"
  shows "isOptionalStatusCodeMapping (Some s)"
proof -
  have ne: "js_trim s \<noteq> []" using assms(1) json_parse_blank by auto
  have "is_http_status (js_number k) \<and> is_http_status (json_to_number v)" if "(k, v) \<in> set kvs" for k v
  proof -
    have kv: "parseStatusCodeKey k \<noteq> None" "parseStatusCodeMappingTarget v \<noteq> None"
      using assms that ne by (auto simp: collectInvalidStatusCodeEntries_def mapping_entries_def filter_empty_conv)
    then have "is_http_status (js_number k)"
      by (intro status_text_number) (auto simp: parseStatusCodeKey_def Let_def split: if_splits)
    moreover have "is_http_status (json_to_number v)"
    proof (cases v)
      case (JNum d)
      then show ?thesis using kv(2)
        by (cases d) (auto simp: parseStatusCodeMappingTarget_def is_http_status_def split: if_splits)
    next
      case (JStr t)
      then have "is_status_text (js_trim t)" using kv(2)
        by (auto simp: parseStatusCodeMappingTarget_def Let_def split: if_splits)
      from status_text_number [OF this] show ?thesis by (simp add: JStr)
    qed (use kv(2) in \<open>simp_all add: parseStatusCodeMappingTarget_def\<close>)
    ultimately show ?thesis ..
  qed
  then show ?thesis
    using assms(1) ne by (auto simp: isOptionalStatusCodeMapping_def parseOptionalJson_def list_all_iff)
qed

definition exponent_mapping :: string where
  "exponent_mapping = json_stringify (JObj [(''404'', JStr ''5e2'')])"

lemma exponent_parsed: "json_parse exponent_mapping = Some (JObj [(''404'', JStr ''5e2'')])"
  unfolding exponent_mapping_def by (rule compact.parse_print) (simp add: obj_ok_def)

lemma exponent_text: "js_trim exponent_mapping \<noteq> []"
  using exponent_parsed json_parse_blank by force

lemma status_guard_stricter_witness:
  "isOptionalStatusCodeMapping (Some (json_stringify (JObj [(''404'', JNum (int_dec 500))])))"
proof -
  have p: "json_parse (json_stringify (JObj [(''404'', JNum (int_dec 500))])) = Some (JObj [(''404'', JNum (int_dec 500))])"
    by (rule compact.parse_print) (simp add: obj_ok_def)
  then have "js_trim (json_stringify (JObj [(''404'', JNum (int_dec 500))])) \<noteq> []" using json_parse_blank by force
  moreover have "parseStatusCodeKey ''404'' = Some 404" "parseStatusCodeMappingTarget (JNum (int_dec 500)) = Some 500" by code_simp+
  ultimately have "collectInvalidStatusCodeEntries (json_stringify (JObj [(''404'', JNum (int_dec 500))])) = []"
    unfolding collectInvalidStatusCodeEntries_def mapping_entries_def p by simp
  from status_guard_stricter [OF p this] show ?thesis .
qed

text \<open>
  the schema accepts the code 5e2 as a target and the guard reports the same entry, so the
  form shows no error and the submit still refuses it.
\<close>

theorem exponent_accepted_then_reported:
  "isOptionalStatusCodeMapping (Some exponent_mapping) \<and>
    collectInvalidStatusCodeEntries exponent_mapping = [(''404'', ''5e2'')]"
proof
  have "is_http_status (js_number ''404'')" "is_http_status (json_to_number (JStr ''5e2''))" by code_simp+
  then show "isOptionalStatusCodeMapping (Some exponent_mapping)"
    by (simp add: isOptionalStatusCodeMapping_def parseOptionalJson_def exponent_parsed exponent_text)
  have "parseStatusCodeMappingTarget (JStr ''5e2'') = None" by code_simp
  then show "collectInvalidStatusCodeEntries exponent_mapping = [(''404'', ''5e2'')]"
    by (simp add: collectInvalidStatusCodeEntries_def mapping_entries_def exponent_parsed exponent_text)
qed

section \<open>When opening fails\<close>

lemma first_truthy_None:
  "first_truthy (b # bs) = None \<longleftrightarrow> b = None \<or> b = Some False \<and> first_truthy bs = None"
  by (cases "(b # bs)" rule: first_truthy.cases) auto

lemma trim_text_not_None [simp]: "trim_text s \<noteq> None"
  by (simp add: trim_text_def)

lemma hasAdvanced_raises:
  "hasAdvancedSettingsValues f = None \<longleftrightarrow>
    list_all (\<lambda>s. \<not> has_text s) [fo_param_override f, fo_header_override f, fo_status_code_mapping f, fo_tag f, fo_remark f] \<and>
    \<not> nonzero (fo_priority f) \<and> \<not> nonzero (fo_weight f) \<and>
    (trim_value (fo_proxy f) = None \<or> trim_value (fo_proxy f) = Some False \<and> trim_value (fo_system_prompt f) = None)"
proof -
  have t: "trim_text s = Some False \<longleftrightarrow> \<not> has_text s" for s
    by (simp add: trim_text_def has_text_def split: option.split)
  show ?thesis
    unfolding hasAdvancedSettingsValues_def first_truthy_None t by auto
qed

text \<open>A truthy value of the stored settings that is no string.\<close>

definition stored_no_text :: "channel \<Rightarrow> string \<Rightarrow> bool" where
  "stored_no_text channel k =
     (case js_prop (stored_json (ch_setting channel)) k of Some j \<Rightarrow> json_truthy j \<and> \<not> is_string (Some j) | None \<Rightarrow> False)"

definition stored_text :: "channel \<Rightarrow> string \<Rightarrow> string" where
  "stored_text channel k = string_or_empty (js_prop (stored_json (ch_setting channel)) k)"

lemma trim_stored:
  "trim_value (stored_or (stored_json (ch_setting channel)) k (JStr [])) =
    (if stored_no_text channel k then None else Some (js_trim (stored_text channel k) \<noteq> []))"
proof (cases "js_prop (stored_json (ch_setting channel)) k")
  case (Some j)
  then show ?thesis
    by (cases j) (simp_all add: stored_or_def js_or_def js_truthy_def trim_value_def stored_no_text_def stored_text_def
        is_string_def string_or_empty_def split: if_splits)
qed (simp add: stored_or_def js_or_def js_truthy_def trim_value_def stored_no_text_def stored_text_def string_or_empty_def)

lemma has_text_or: "has_text (text_or s []) = has_text s"
  by (auto simp: has_text_def text_or_def or_default_def or_str_def split: option.split)

lemma nonzero_or: "nonzero (or_zero n) = nonzero n"
  by (simp add: nonzero_def or_zero_def split: option.split)

text \<open>
  opening a channel raises exactly when it has no channel info, or when the advanced section
  is not kept open, no advanced text, priority or weight is set, and the stored proxy (or, without
  one, the stored system prompt) is a truthy JSON value other than a string.
\<close>

theorem open_edit_raises:
  "open_edit pref row channel = None \<longleftrightarrow> ch_channel_info channel = None \<or>
    \<not> pref \<and>
    list_all (\<lambda>s. \<not> has_text s) [ch_param_override channel, ch_header_override channel,
      ch_status_code_mapping channel, ch_tag channel, Some (ch_remark channel)] \<and>
    \<not> nonzero (ch_priority channel) \<and> \<not> nonzero (ch_weight channel) \<and>
    (stored_no_text channel ''proxy'' \<or>
     js_trim (stored_text channel ''proxy'') = [] \<and> stored_no_text channel ''system_prompt'')"
proof (cases "ch_channel_info channel")
  case (Some info)
  obtain g where t: "transformChannelToFormDefaults channel = Some g"
    using Some by (simp add: transformChannelToFormDefaults_def Let_def)
  note g = t [unfolded transformChannelToFormDefaults_def Let_def Some option.case option.inject, symmetric]
  have f: "fo_param_override g = text_or (ch_param_override channel) []"
    "fo_header_override g = text_or (ch_header_override channel) []"
    "fo_status_code_mapping g = text_or (ch_status_code_mapping channel) []"
    "fo_tag g = text_or (ch_tag channel) []" "fo_remark g = text_or (Some (ch_remark channel)) []"
    "fo_priority g = or_zero (ch_priority channel)" "fo_weight g = or_zero (ch_weight channel)"
    "fo_proxy g = stored_or (stored_json (ch_setting channel)) ''proxy'' (JStr [])"
    "fo_system_prompt g = stored_or (stored_json (ch_setting channel)) ''system_prompt'' (JStr [])"
    by (simp_all add: g)
  have "open_edit pref row channel = None \<longleftrightarrow> \<not> pref \<and> hasAdvancedSettingsValues g = None"
    by (simp add: open_edit_def t)
  moreover have "stored_no_text channel ''proxy'' \<Longrightarrow> js_trim (stored_text channel ''proxy'') = []"
    by (auto simp: stored_no_text_def stored_text_def string_or_empty_def is_string_def split: option.splits json.splits)
  ultimately show ?thesis
    unfolding hasAdvanced_raises f has_text_or nonzero_or list.pred_inject trim_stored using Some by auto
qed (simp add: open_edit_def transformChannelToFormDefaults_def Let_def)

end
