(* ===== verification/Regex.thy ===== *)
theory Regex
  imports JsPrelude
begin

text \<open>
  Regular expressions as a JavaScript engine runs them: by backtracking, the results of a pattern at
  a position listed in the order in which they are tried. Greedy repetition stops at an iteration
  that consumes nothing. The patterns of the program have no group inside a repetition, so the
  reset of groups at an iteration does not show.
\<close>

datatype re =
    Cls "char \<Rightarrow> bool"
  | Nothing
  | Cat re re
  | Either re re
  | Star re
  | Grp nat re
  | Back nat
  | AtEnd
  | WordBound

text \<open>A position: the unit before it, the text after it and the groups captured so far.\<close>

type_synonym pos = "char option \<times> string \<times> (nat \<rightharpoonup> string)"

abbreviation pos_rest :: "pos \<Rightarrow> string" where
  "pos_rest x \<equiv> fst (snd x)"

definition is_word :: "char option \<Rightarrow> bool" where
  "is_word c = (case c of None \<Rightarrow> False
     | Some c \<Rightarrow> is_digit c \<or> c \<in> set ''abcdefghijklmnopqrstuvwxyzABCDEFGHIJKLMNOPQRSTUVWXYZ_'')"

definition first_char :: "string \<Rightarrow> char option" where
  "first_char s = (case s of [] \<Rightarrow> None | c # _ \<Rightarrow> Some c)"

text \<open>The unit before the position after \<open>w\<close>.\<close>

definition after_text :: "string \<Rightarrow> char option \<Rightarrow> char option" where
  "after_text w q = (if w = [] then q else Some (last w))"

primrec repeat_greedy :: "nat \<Rightarrow> (pos \<Rightarrow> pos list) \<Rightarrow> pos \<Rightarrow> pos list" where
  "repeat_greedy 0 m x = [x]"
| "repeat_greedy (Suc n) m x =
     concat (map (repeat_greedy n m) (filter (\<lambda>y. length (pos_rest y) < length (pos_rest x)) (m x))) @ [x]"

primrec run :: "re \<Rightarrow> pos \<Rightarrow> pos list" where
  "run (Cls p) x = (case pos_rest x of [] \<Rightarrow> [] | c # t \<Rightarrow> if p c then [(Some c, t, snd (snd x))] else [])"
| "run Nothing x = [x]"
| "run (Cat a b) x = concat (map (run b) (run a x))"
| "run (Either a b) x = run a x @ run b x"
| "run (Star a) x = repeat_greedy (length (pos_rest x)) (run a) x"
| "run (Grp i a) x = map (\<lambda>y. (fst y, pos_rest y,
     (snd (snd y))(i \<mapsto> take (length (pos_rest x) - length (pos_rest y)) (pos_rest x)))) (run a x)"
| "run (Back i) x = (case snd (snd x) i of
     None \<Rightarrow> [x]
   | Some w \<Rightarrow> if prefix w (pos_rest x)
       then [(after_text w (fst x), drop (length w) (pos_rest x), snd (snd x))] else [])"
| "run AtEnd x = (if pos_rest x = [] then [x] else [])"
| "run WordBound x = (if is_word (fst x) \<noteq> is_word (first_char (pos_rest x)) then [x] else [])"

section \<open>Derived patterns\<close>

definition lit :: "string \<Rightarrow> re" where
  "lit w = foldr (\<lambda>c. Cat (Cls ((=) c))) w Nothing"

fun lits :: "string list \<Rightarrow> re" where
  "lits [] = Cls (\<lambda>_. False)"
| "lits [w] = lit w"
| "lits (w # v # ws) = Either (lit w) (lits (v # ws))"

definition many :: "(char \<Rightarrow> bool) \<Rightarrow> re" where
  "many p = Star (Cls p)"

definition some_of :: "(char \<Rightarrow> bool) \<Rightarrow> re" where
  "some_of p = Cat (Cls p) (many p)"

definition opt :: "re \<Rightarrow> re" where
  "opt r = Either r Nothing"

definition seq :: "re list \<Rightarrow> re" where
  "seq rs = foldr Cat rs Nothing"

abbreviation spaces :: re where
  "spaces \<equiv> many is_ws"

text \<open>The dot excludes line terminators unless the flag s is given.\<close>

definition no_newline :: "char \<Rightarrow> bool" where
  "no_newline c \<longleftrightarrow> c \<noteq> CHR 0x0A \<and> c \<noteq> CHR 0x0D"

section \<open>Matching\<close>

text \<open>\<open>s.match(/^...$/)\<close>: the groups of the first result.\<close>

definition match_full :: "re list \<Rightarrow> string \<Rightarrow> (nat \<rightharpoonup> string) option" where
  "match_full rs s = (case run (seq (rs @ [AtEnd])) (None, s, Map.empty) of [] \<Rightarrow> None | y # _ \<Rightarrow> Some (snd (snd y)))"

definition grp :: "(nat \<rightharpoonup> string) \<Rightarrow> nat \<Rightarrow> string" where
  "grp m i = (case m i of None \<Rightarrow> [] | Some w \<Rightarrow> w)"

text \<open>The next match from a position on: the text skipped, and the position after it.\<close>

fun search :: "re \<Rightarrow> char option \<Rightarrow> string \<Rightarrow> (string \<times> pos) option" where
  "search r q s = (case run r (q, s, Map.empty) of
     y # _ \<Rightarrow> Some ([], y)
   | [] \<Rightarrow> (case s of [] \<Rightarrow> None | c # t \<Rightarrow> map_option (\<lambda>(w, y). (c # w, y)) (search r (Some c) t)))"

declare search.simps [simp del]

text \<open>\<open>while ((m = re.exec(s)) !== null)\<close> with the flag g. The patterns match no empty text; an empty
  match, after which the code would loop for ever, ends the list here.\<close>

lemma search_shorter: "search r q s = Some (w, y) \<Longrightarrow> length w \<le> length s"
proof (induction s arbitrary: q w y)
  case (Cons c s)
  then show ?case by (subst (asm) search.simps) (auto split: list.splits)
qed (subst (asm) search.simps, auto split: list.splits)

function exec_all :: "re \<Rightarrow> char option \<Rightarrow> string \<Rightarrow> pos list" where
  "exec_all r q s = (case search r q s of
     None \<Rightarrow> []
   | Some (w, y) \<Rightarrow> if length (pos_rest y) < length s then y # exec_all r (fst y) (pos_rest y) else [y])"
  by pat_completeness auto
termination by (relation "measure (\<lambda>(r, q, s). length s)") auto

declare exec_all.simps [simp del]

text \<open>\<open>s.split(/.../)\<close> for a pattern that matches no empty text.\<close>

function split_re :: "re \<Rightarrow> char option \<Rightarrow> string \<Rightarrow> string list" where
  "split_re r q s = (case search r q s of
     None \<Rightarrow> [s]
   | Some (w, y) \<Rightarrow> if length (pos_rest y) < length s then w # split_re r (fst y) (pos_rest y) else [s])"
  by pat_completeness auto
termination by (relation "measure (\<lambda>(r, q, s). length s)") auto

declare split_re.simps [simp del]

section \<open>Facts\<close>

lemma after_text_simps [simp]: "after_text [] q = q" "after_text (c # w) q = after_text w (Some c)"
  by (simp_all add: after_text_def)

lemma run_Cls [simp]:
  "run (Cls p) (q, [], m) = []" "run (Cls p) (q, c # t, m) = (if p c then [(Some c, t, m)] else [])"
  by simp_all

lemma run_lit: "run (lit w) (q, s, m) = (if prefix w s then [(after_text w q, drop (length w) s, m)] else [])"
proof (induction w arbitrary: q s)
  case (Cons c w)
  have "lit (c # w) = Cat (Cls ((=) c)) (lit w)" by (simp add: lit_def)
  then show ?case by (cases s) (simp_all add: Cons.IH)
qed (simp add: lit_def)

text \<open>A run of a class: every way to stop, longest first.\<close>

definition stops :: "char option \<Rightarrow> string \<Rightarrow> (nat \<rightharpoonup> string) \<Rightarrow> nat \<Rightarrow> pos" where
  "stops q s m i = (after_text (take i s) q, drop i s, m)"

lemma stops_Suc: "stops q (c # s) m (Suc i) = stops (Some c) s m i"
  by (simp add: stops_def)

lemma stops_0 [simp]: "stops q s m 0 = (q, s, m)"
  by (simp add: stops_def)

lemma upt_zero_Suc: "[0..<Suc n] = 0 # map Suc [0..<n]"
  by (simp only: map_Suc_upt upt_conv_Cons zero_less_Suc)

lemma repeat_class:
  "length s \<le> n \<Longrightarrow> repeat_greedy n (run (Cls p)) (q, s, m) =
     map (stops q s m) (rev [0..<Suc (length (takeWhile p s))])"
proof (induction n arbitrary: q s)
  case (Suc n)
  show ?case
  proof (cases s)
    case (Cons c t)
    have "map (stops (Some c) t m) (rev [0..<Suc k]) @ [(q, c # t, m)] = map (stops q (c # t) m) (rev [0..<Suc (Suc k)])" for k
      unfolding upt_zero_Suc [of "Suc k"] rev.simps map_append rev_map by (simp add: stops_Suc del: upt_Suc)
    with Cons Suc show ?thesis by (cases "p c") (simp_all del: upt_Suc, simp)
  qed simp
qed simp

lemma run_many: "run (many p) (q, s, m) = map (stops q s m) (rev [0..<Suc (length (takeWhile p s))])"
  by (simp add: many_def repeat_class del: upt_Suc)

lemma run_some:
  "run (some_of p) (q, s, m) = map (stops q s m) (rev [1..<Suc (length (takeWhile p s))])"
proof (cases s)
  case (Cons c t)
  show ?thesis
  proof (cases "p c")
    case True
    have "map (stops (Some c) t m) (rev [0..<Suc k]) = map (stops q (c # t) m) (rev [Suc 0..<Suc (Suc k)])" for k
      unfolding map_Suc_upt [symmetric, of 0] by (simp add: rev_map stops_Suc comp_def)
    then show ?thesis using True by (simp add: some_of_def Cons run_many del: upt_Suc)
  qed (simp add: some_of_def Cons)
qed (simp add: some_of_def)

text \<open>What follows a run rejects every unit of the class: then the run is as long as it can be.\<close>

definition rejects :: "re \<Rightarrow> (char \<Rightarrow> bool) \<Rightarrow> bool" where
  "rejects r p \<longleftrightarrow> (\<forall>q c t m. p c \<longrightarrow> run r (q, c # t, m) = [])"

lemma rejects_Cls [simp]: "rejects (Cls d) p \<longleftrightarrow> (\<forall>c. p c \<longrightarrow> \<not> d c)"
  by (auto simp: rejects_def)

lemma rejects_AtEnd [simp]: "rejects AtEnd p"
  by (simp add: rejects_def)

lemma rejects_Cat: "rejects a p \<Longrightarrow> rejects (Cat a b) p"
  by (simp add: rejects_def)

lemma rejects_Grp [simp]: "rejects (Grp i a) p = rejects a p"
  by (simp add: rejects_def)

lemma rejects_Either [simp]: "rejects (Either a b) p \<longleftrightarrow> rejects a p \<and> rejects b p"
  by (auto simp: rejects_def)

lemma rejects_lit [simp]: "rejects (lit (c # w)) p \<longleftrightarrow> \<not> p c"
  by (auto simp: rejects_def run_lit)

lemma rejects_lits: "ws \<noteq> [] \<Longrightarrow> \<forall>w \<in> set ws. w \<noteq> [] \<and> \<not> p (hd w) \<Longrightarrow> rejects (lits ws) p"
proof (induction ws rule: lits.induct)
  case (2 w)
  then show ?case by (cases w) simp_all
next
  case (3 w v ws)
  then show ?case by (cases w) simp_all
qed simp

lemma rejects_some [simp]: "rejects (some_of d) p \<longleftrightarrow> (\<forall>c. p c \<longrightarrow> \<not> d c)"
  by (auto simp: rejects_def some_of_def run_many)

lemma seq_simps [simp]: "seq [] = Nothing" "seq (r # rs) = Cat r (seq rs)"
  by (simp_all add: seq_def)

lemma rejects_seq: "rejects r p \<Longrightarrow> rejects (seq (r # rs)) p"
  by (simp add: rejects_Cat)

lemma rejects_text: "rejects r p \<Longrightarrow> rejects r (\<lambda>c. c \<in> set (takeWhile p s))"
  unfolding rejects_def using set_takeWhileD by metis

lemma stops_last:
  assumes "rejects r (\<lambda>c. c \<in> set (takeWhile p s))"
  shows "concat (map (\<lambda>i. run r (after_text (take i s) q, drop i s, f i)) (rev [k..<Suc (length (takeWhile p s))])) =
    (if length (takeWhile p s) < k then []
     else run r (after_text (takeWhile p s) q, dropWhile p s, f (length (takeWhile p s))))"
proof (cases "length (takeWhile p s) < k")
  case False
  let ?n = "length (takeWhile p s)" and ?g = "\<lambda>i. run r (after_text (take i s) q, drop i s, f i)"
  have "?g i = []" if "i \<in> set (rev [k..<?n])" for i
  proof -
    have i: "i < ?n" using that by simp
    then have "drop i s = s ! i # drop (Suc i) s"
      by (metis Cons_nth_drop_Suc length_takeWhile_le less_le_trans)
    moreover have "s ! i \<in> set (takeWhile p s)" using i by (metis nth_mem takeWhile_nth)
    ultimately show ?thesis using assms by (simp add: rejects_def)
  qed
  then have "concat (map ?g (rev [k..<Suc ?n])) = ?g ?n" using False by simp
  moreover have "take ?n s = takeWhile p s" "drop ?n s = dropWhile p s"
    by (metis append_eq_conv_conj takeWhile_dropWhile_id)+
  ultimately show ?thesis using False by simp
qed simp

lemma run_many_seq:
  "rejects (seq rs) p \<Longrightarrow> run (seq (many p # rs)) (q, s, m) =
     run (seq rs) (after_text (takeWhile p s) q, dropWhile p s, m)"
  unfolding seq_simps run.simps(3) run_many using stops_last [of "seq rs" p s q "\<lambda>_. m" 0, OF rejects_text]
  by (simp add: comp_def stops_def del: upt_Suc)

lemma run_some_seq:
  "rejects (seq rs) p \<Longrightarrow> run (seq (some_of p # rs)) (q, s, m) =
     (if takeWhile p s = [] then [] else run (seq rs) (after_text (takeWhile p s) q, dropWhile p s, m))"
  unfolding seq_simps run.simps(3) run_some using stops_last [of "seq rs" p s q "\<lambda>_. m" 1, OF rejects_text]
  by (simp add: comp_def stops_def del: upt_Suc)

lemma run_grp_some_text:
  assumes "rejects (seq rs) (\<lambda>c. c \<in> set (takeWhile p s))"
  shows "run (seq (Grp i (some_of p) # rs)) (q, s, m) =
     (if takeWhile p s = [] then []
      else run (seq rs) (after_text (takeWhile p s) q, dropWhile p s, m(i \<mapsto> takeWhile p s)))"
proof -
  let ?n = "length (takeWhile p s)"
  have le: "?n \<le> length s" by (rule length_takeWhile_le)
  have "run (Grp i (some_of p)) (q, s, m) =
      map (\<lambda>k. (after_text (take k s) q, drop k s, m(i \<mapsto> take k s))) (rev [1..<Suc ?n])"
    using le by (auto simp: run_some stops_def simp del: upt_Suc)
  moreover have "take ?n s = takeWhile p s" by (metis append_eq_conv_conj takeWhile_dropWhile_id)
  ultimately show ?thesis
    unfolding seq_simps run.simps(3) using stops_last [OF assms, of q "\<lambda>k. m(i \<mapsto> take k s)" 1]
    by (simp add: comp_def del: upt_Suc)
qed

lemma run_grp_some_seq:
  "rejects (seq rs) p \<Longrightarrow> run (seq (Grp i (some_of p) # rs)) (q, s, m) =
     (if takeWhile p s = [] then []
      else run (seq rs) (after_text (takeWhile p s) q, dropWhile p s, m(i \<mapsto> takeWhile p s)))"
  by (rule run_grp_some_text [OF rejects_text])

lemma run_grp_many_seq:
  assumes "rejects (seq rs) p"
  shows "run (seq (Grp i (many p) # rs)) (q, s, m) =
     run (seq rs) (after_text (takeWhile p s) q, dropWhile p s, m(i \<mapsto> takeWhile p s))"
proof -
  let ?n = "length (takeWhile p s)"
  have le: "?n \<le> length s" by (rule length_takeWhile_le)
  have "run (Grp i (many p)) (q, s, m) =
      map (\<lambda>k. (after_text (take k s) q, drop k s, m(i \<mapsto> take k s))) (rev [0..<Suc ?n])"
    using le by (auto simp: run_many stops_def simp del: upt_Suc)
  moreover have "take ?n s = takeWhile p s" by (metis append_eq_conv_conj takeWhile_dropWhile_id)
  ultimately show ?thesis
    unfolding seq_simps run.simps(3) using stops_last [OF rejects_text [OF assms], of s q "\<lambda>k. m(i \<mapsto> take k s)" 0]
    by (simp add: comp_def del: upt_Suc)
qed

lemma run_lit_seq:
  "run (seq (lit w # rs)) (q, s, m) = (if prefix w s then run (seq rs) (after_text w q, drop (length w) s, m) else [])"
  by (simp add: run_lit)

lemma run_grp_lit_seq:
  "run (seq (Grp i (lit w) # rs)) (q, s, m) =
     (if prefix w s then run (seq rs) (after_text w q, drop (length w) s, m(i \<mapsto> w)) else [])"
  by (auto simp: run_lit prefix_def)

lemma run_grp_either_seq:
  "run (seq (Grp i (Either a b) # rs)) x = run (seq (Grp i a # rs)) x @ run (seq (Grp i b # rs)) x"
  by simp

lemma run_grp_lits_seq:
  "ws \<noteq> [] \<Longrightarrow> run (seq (Grp i (lits ws) # rs)) x = concat (map (\<lambda>w. run (seq (Grp i (lit w) # rs)) x) ws)"
proof (induction ws)
  case (Cons w ws)
  show ?case
  proof (cases ws)
    case Nil
    show ?thesis unfolding Nil lits.simps list.map concat.simps append_Nil2 by (rule refl)
  next
    case (Cons v vs)
    have "run (seq (Grp i (lits (w # ws)) # rs)) x =
        run (seq (Grp i (lit w) # rs)) x @ run (seq (Grp i (lits ws) # rs)) x"
      unfolding Cons lits.simps by (rule run_grp_either_seq)
    also have "run (seq (Grp i (lits ws) # rs)) x = concat (map (\<lambda>w. run (seq (Grp i (lit w) # rs)) x) ws)"
      using Cons Cons.IH by blast
    finally show ?thesis unfolding list.map concat.simps .
  qed
qed blast

lemma run_back_seq:
  "m i = Some w \<Longrightarrow> run (seq (Back i # rs)) (q, s, m) =
     (if prefix w s then run (seq rs) (after_text w q, drop (length w) s, m) else [])"
  by simp

lemma run_end_seq: "run (seq [AtEnd]) (q, s, m) = (if s = [] then [(q, s, m)] else [])"
  by simp

text \<open>What a result consumed.\<close>

primrec over :: "(char \<Rightarrow> bool) \<Rightarrow> re \<Rightarrow> bool" where
  "over p (Cls d) \<longleftrightarrow> (\<forall>c. d c \<longrightarrow> p c)"
| "over p Nothing \<longleftrightarrow> True"
| "over p (Cat a b) \<longleftrightarrow> over p a \<and> over p b"
| "over p (Either a b) \<longleftrightarrow> over p a \<and> over p b"
| "over p (Star a) \<longleftrightarrow> over p a"
| "over p (Grp i a) \<longleftrightarrow> over p a"
| "over p (Back i) \<longleftrightarrow> False"
| "over p AtEnd \<longleftrightarrow> True"
| "over p WordBound \<longleftrightarrow> True"

definition consumes :: "(char \<Rightarrow> bool) \<Rightarrow> pos \<Rightarrow> pos \<Rightarrow> bool" where
  "consumes p x y \<longleftrightarrow> (\<exists>w. pos_rest x = w @ pos_rest y \<and> fst y = after_text w (fst x) \<and> list_all p w)"

lemma after_text_append: "after_text (v @ w) q = after_text w (after_text v q)"
  by (simp add: after_text_def)

lemma consumes_refl [simp]: "consumes p x x"
  by (auto simp: consumes_def)

lemma consumes_trans: "consumes p x y \<Longrightarrow> consumes p y z \<Longrightarrow> consumes p x z"
proof -
  assume "consumes p x y" "consumes p y z"
  then obtain v w where "pos_rest x = v @ pos_rest y" "fst y = after_text v (fst x)" "list_all p v"
    "pos_rest y = w @ pos_rest z" "fst z = after_text w (fst y)" "list_all p w" by (auto simp: consumes_def)
  then show ?thesis unfolding consumes_def by (intro exI [of _ "v @ w"]) (simp add: after_text_append)
qed

lemma repeat_consumes:
  assumes "\<And>x y. y \<in> set (m x) \<Longrightarrow> consumes p x y"
  shows "y \<in> set (repeat_greedy n m x) \<Longrightarrow> consumes p x y"
  by (induction n arbitrary: x) (auto dest: assms intro: consumes_trans)

lemma run_consumes: "over p r \<Longrightarrow> y \<in> set (run r x) \<Longrightarrow> consumes p x y"
proof (induction r arbitrary: x y)
  case (Cls d)
  then obtain c t where "pos_rest x = c # t" "d c" "y = (Some c, t, snd (snd x))"
    by (cases "pos_rest x") (auto split: if_splits)
  with Cls show ?case by (auto simp: consumes_def intro!: exI [of _ "[c]"])
next
  case (Star r)
  have "over p r" using Star.prems(1) by simp
  then have "consumes p x y" if "y \<in> set (run r x)" for x y using Star.IH that by blast
  from repeat_consumes [OF this] Star.prems(2) show ?case by simp
next
  case (Grp i r)
  from Grp.prems(2) obtain z where z: "z \<in> set (run r x)" "pos_rest y = pos_rest z" "fst y = fst z" by auto
  have "consumes p x z" using Grp.IH z(1) Grp.prems(1) by simp
  with z(2,3) show ?case by (simp add: consumes_def)
next
  case (Cat a b)
  from Cat.prems(2) obtain z where z: "z \<in> set (run a x)" "y \<in> set (run b z)" by auto
  show ?case by (rule consumes_trans [OF Cat.IH(1) [OF _ z(1)] Cat.IH(2) [OF _ z(2)]]) (use Cat.prems(1) in simp_all)
qed (auto split: if_splits)

lemma match_full_over:
  assumes "match_full rs s \<noteq> None" and "list_all (over p) rs"
  shows "list_all p s"
proof -
  obtain y where y: "y \<in> set (run (seq (rs @ [AtEnd])) (None, s, Map.empty))"
    using assms(1) by (cases "run (seq (rs @ [AtEnd])) (None, s, Map.empty)") (auto simp: match_full_def)
  have o: "over p (seq rs)" using assms(2) by (induction rs) simp_all
  have "\<exists>z. z \<in> set (run (seq rs) x) \<and> pos_rest z = []" if "y \<in> set (run (seq (rs @ [AtEnd])) x)" for x
    using that by (induction rs arbitrary: x) (auto split: if_splits, blast)
  from this [OF y] obtain z where "z \<in> set (run (seq rs) (None, s, Map.empty))" "pos_rest z = []" by blast
  with run_consumes [OF o this(1)] show ?thesis by (auto simp: consumes_def)
qed

text \<open>Patterns that capture nothing keep the groups.\<close>

primrec no_groups :: "re \<Rightarrow> bool" where
  "no_groups (Cls d) \<longleftrightarrow> True"
| "no_groups Nothing \<longleftrightarrow> True"
| "no_groups (Cat a b) \<longleftrightarrow> no_groups a \<and> no_groups b"
| "no_groups (Either a b) \<longleftrightarrow> no_groups a \<and> no_groups b"
| "no_groups (Star a) \<longleftrightarrow> no_groups a"
| "no_groups (Grp i a) \<longleftrightarrow> False"
| "no_groups (Back i) \<longleftrightarrow> True"
| "no_groups AtEnd \<longleftrightarrow> True"
| "no_groups WordBound \<longleftrightarrow> True"

lemma repeat_invariant:
  assumes "\<And>x y. P x \<Longrightarrow> y \<in> set (m x) \<Longrightarrow> P y"
  shows "P x \<Longrightarrow> y \<in> set (repeat_greedy n m x) \<Longrightarrow> P y"
proof (induction n arbitrary: x)
  case (Suc n)
  have "y = x \<or> (\<exists>z. z \<in> set (m x) \<and> y \<in> set (repeat_greedy n m z))"
    using Suc.prems(2) by (auto simp del: split_paired_Ex)
  then show ?case using Suc.IH assms Suc.prems(1) by blast
qed simp

lemma run_no_groups: "no_groups r \<Longrightarrow> y \<in> set (run r x) \<Longrightarrow> snd (snd y) = snd (snd x)"
proof (induction r arbitrary: x y)
  case (Star r)
  have g: "no_groups r" using Star.prems(1) by simp
  have step: "\<And>z y. snd (snd z) = snd (snd x) \<Longrightarrow> y \<in> set (run r z) \<Longrightarrow> snd (snd y) = snd (snd x)"
    by (rule trans [OF Star.IH [OF g]])
  show ?case
    by (rule repeat_invariant [of "\<lambda>z. snd (snd z) = snd (snd x)" "run r", OF step refl Star.prems(2) [unfolded run.simps]])
next
  case (Cat a b)
  from Cat.prems(2) obtain z where z: "z \<in> set (run a x)" "y \<in> set (run b z)" by auto
  have "snd (snd z) = snd (snd x)" by (rule Cat.IH(1)) (use Cat.prems(1) z(1) in simp_all)
  moreover have "snd (snd y) = snd (snd z)" by (rule Cat.IH(2)) (use Cat.prems(1) z(2) in simp_all)
  ultimately show ?case by simp
next
  case (Cls d)
  then show ?case by (cases "pos_rest x") (auto split: if_splits)
next
  case (Back i)
  then show ?case by (cases "snd (snd x) i") (auto split: if_splits)
next
  case (Either a b)
  have g: "no_groups a" "no_groups b" using Either.prems(1) by simp_all
  from Either.prems(2) have "y \<in> set (run a x) \<or> y \<in> set (run b x)" by simp
  then show ?case using Either.IH(1) [OF g(1)] Either.IH(2) [OF g(2)] by blast
qed (simp_all split: if_splits)

text \<open>Results of a sequence and of a repetition.\<close>

lemma in_seq: "z \<in> set (run r x) \<Longrightarrow> y \<in> set (run (seq rs) z) \<Longrightarrow> y \<in> set (run (seq (r # rs)) x)"
  by (auto simp: seq_simps)

lemma repeat_enough:
  "length (pos_rest x) \<le> n \<Longrightarrow> repeat_greedy n f x = repeat_greedy (length (pos_rest x)) f x"
proof (induction n arbitrary: x rule: less_induct)
  case (less n)
  show ?case
  proof (cases n)
    case (Suc k)
    show ?thesis
    proof (cases "length (pos_rest x) = n")
      case False
      then obtain l where l: "length (pos_rest x) = l" "l \<le> k" using less.prems Suc by auto
      show ?thesis
      proof (cases l)
        case 0
        then show ?thesis using l Suc by simp
      next
        case (Suc j)
        have "repeat_greedy k f y = repeat_greedy j f y" if "length (pos_rest y) < length (pos_rest x)" for y
        proof -
          have y: "length (pos_rest y) \<le> j" using that l Suc by simp
          have "repeat_greedy k f y = repeat_greedy (length (pos_rest y)) f y"
            by (rule less.IH) (use \<open>n = Suc k\<close> y Suc l in auto)
          moreover have "repeat_greedy j f y = repeat_greedy (length (pos_rest y)) f y"
            by (rule less.IH) (use \<open>n = Suc k\<close> y Suc l in auto)
          ultimately show ?thesis by simp
        qed
        then have "map (repeat_greedy k f) (filter (\<lambda>y. length (pos_rest y) < length (pos_rest x)) (f x)) =
            map (repeat_greedy j f) (filter (\<lambda>y. length (pos_rest y) < length (pos_rest x)) (f x))"
          by (intro map_cong refl) simp
        then show ?thesis by (simp only: \<open>n = Suc k\<close> l(1) Suc repeat_greedy.simps)
      qed
    qed simp
  qed (use less in simp)
qed

lemma star_none: "x \<in> set (run (Star r) x)"
  by (cases "length (pos_rest x)") simp_all

lemma star_step:
  assumes "y \<in> set (run r x)" "length (pos_rest y) < length (pos_rest x)" "z \<in> set (run (Star r) y)"
  shows "z \<in> set (run (Star r) x)"
proof -
  obtain n where n: "length (pos_rest x) = Suc n" using assms(2) by (cases "length (pos_rest x)") auto
  have "repeat_greedy n (run r) y = repeat_greedy (length (pos_rest y)) (run r) y"
    by (rule repeat_enough) (use assms(2) n in simp)
  then have z: "z \<in> set (repeat_greedy n (run r) y)" using assms(3) by simp
  have "y \<in> set (filter (\<lambda>y. length (pos_rest y) < length (pos_rest x)) (run r x))" using assms(1,2) by simp
  then show ?thesis unfolding run.simps n repeat_greedy.simps set_append set_concat set_map using z n by blast
qed

text \<open>Stepping through a pattern, part by part.\<close>

named_theorems regex_run

declare seq_simps [simp del]

declare lits.simps [simp del]

lemma rejects_seq_simp [regex_run]: "rejects r p \<Longrightarrow> rejects (seq (r # rs)) p"
  by (rule rejects_seq)

lemmas regex_steps [regex_run] = run_lit_seq run_grp_lit_seq run_grp_some_seq run_some_seq run_back_seq run_end_seq
  run_grp_lits_seq

lemma prefix_lit_append [regex_run]: "prefix (xs @ ys) (xs @ zs) = prefix ys zs"
  by simp

lemma takeWhile_stop: "list_all p w \<Longrightarrow> \<not> p c \<Longrightarrow> takeWhile p (w @ c # t) = w \<and> dropWhile p (w @ c # t) = c # t"
  by (induction w) auto

lemma takeWhile_end: "list_all p w \<Longrightarrow> takeWhile p w = w \<and> dropWhile p w = []"
  by (induction w) auto

lemma match_full_run: "run (seq (rs @ [AtEnd])) (None, s, Map.empty) = [y] \<Longrightarrow> match_full rs s = Some (snd (snd y))"
  by (simp add: match_full_def)

lemma match_full_none: "run (seq (rs @ [AtEnd])) (None, s, Map.empty) = [] \<Longrightarrow> match_full rs s = None"
  by (simp add: match_full_def)

end
