(* ===== verification/BillingExpr.thy ===== *)
theory BillingExpr
  imports JsValue Regex
begin

text \<open>
  Billing expressions (lib/billing-expr.ts): the registry of price variables, the reader of tiers,
  the reader and the builder of request rules, and how a price expression and its rules are joined
  and taken apart. A pattern is written down as the list of its parts.
\<close>

section \<open>The registry\<close>

datatype var_side = InputSide | OutputSide | ConditionSide

record billing_var =
  bv_key :: string
  bv_field :: "string option"
  bv_tierField :: "string option"
  bv_label :: string
  bv_shortLabel :: string
  bv_side :: var_side
  bv_isBase :: bool
  bv_isConditionOnly :: bool
  bv_group :: "string option"

definition price_var :: "string \<Rightarrow> string \<Rightarrow> string \<Rightarrow> string \<Rightarrow> string \<Rightarrow> var_side \<Rightarrow> bool \<Rightarrow> string option \<Rightarrow> billing_var" where
  "price_var key field tierField label shortLabel side isBase g =
     \<lparr>bv_key = key, bv_field = Some field, bv_tierField = Some tierField, bv_label = label, bv_shortLabel = shortLabel,
      bv_side = side, bv_isBase = isBase, bv_isConditionOnly = False, bv_group = g\<rparr>"

definition BILLING_VARS :: "billing_var list" where
  "BILLING_VARS = [
     price_var ''p'' ''inputPrice'' ''input_unit_cost'' ''Input price'' ''Input'' InputSide True None,
     price_var ''c'' ''outputPrice'' ''output_unit_cost'' ''Completion price'' ''Output'' OutputSide True None,
     \<lparr>bv_key = ''len'', bv_field = None, bv_tierField = None, bv_label = ''Input length'', bv_shortLabel = ''Length'',
      bv_side = ConditionSide, bv_isBase = False, bv_isConditionOnly = True, bv_group = None\<rparr>,
     price_var ''cr'' ''cacheReadPrice'' ''cache_read_unit_cost'' ''Cache read price'' ''Cache Read'' InputSide False (Some ''cache''),
     price_var ''cc'' ''cacheCreatePrice'' ''cache_create_unit_cost'' ''Cache create price'' ''Cache Write'' InputSide False (Some ''cache''),
     price_var ''cc1h'' ''cacheCreate1hPrice'' ''cache_create_1h_unit_cost'' ''Cache create (1h) price'' ''Cache Write (1h)'' InputSide False (Some ''cache''),
     price_var ''img'' ''imagePrice'' ''image_unit_cost'' ''Image input price'' ''Image In'' InputSide False (Some ''media''),
     price_var ''img_o'' ''imageOutputPrice'' ''image_output_unit_cost'' ''Image output price'' ''Image Out'' OutputSide False (Some ''media''),
     price_var ''ai'' ''audioInputPrice'' ''audio_input_unit_cost'' ''Audio input price'' ''Audio In'' InputSide False (Some ''media''),
     price_var ''ao'' ''audioOutputPrice'' ''audio_output_unit_cost'' ''Audio output price'' ''Audio Out'' OutputSide False (Some ''media'')]"

definition BILLING_PRICING_VARS :: "billing_var list" where
  "BILLING_PRICING_VARS = filter (\<lambda>v. \<not> bv_isConditionOnly v) BILLING_VARS"

definition BILLING_CONDITION_VARS :: "string list" where
  "BILLING_CONDITION_VARS = map bv_key (filter (\<lambda>v. bv_isBase v \<or> bv_isConditionOnly v) BILLING_VARS)"

definition BILLING_VAR_KEY_TO_FIELD :: "(string \<times> string) list" where
  "BILLING_VAR_KEY_TO_FIELD = map (\<lambda>v. (bv_key v, or_default (bv_field v) [])) BILLING_PRICING_VARS"

definition BILLING_EXTRA_VARS :: "billing_var list" where
  "BILLING_EXTRA_VARS = filter (\<lambda>v. \<not> bv_isBase v \<and> \<not> bv_isConditionOnly v) BILLING_VARS"

text \<open>Pairs of the field of a tier and the variable.\<close>

definition BILLING_CACHE_VAR_MAP :: "(string \<times> string) list" where
  "BILLING_CACHE_VAR_MAP = map (\<lambda>v. (or_default (bv_tierField v) [], bv_key v)) BILLING_EXTRA_VARS"

text \<open>\<open>[\d.eE+-]\<close> and \<open>[\d.eE+]\<close>.\<close>

definition num_char :: "char \<Rightarrow> bool" where
  "num_char c \<longleftrightarrow> is_digit c \<or> c \<in> set ''.eE+-''"

definition bound_char :: "char \<Rightarrow> bool" where
  "bound_char c \<longleftrightarrow> is_digit c \<or> c \<in> set ''.eE+''"

definition BILLING_VAR_REGEX :: re where
  "BILLING_VAR_REGEX = seq [WordBound, Grp 1 (lits (map bv_key BILLING_PRICING_VARS)), spaces, lit ''*'', spaces,
     Grp 2 (some_of num_char)]"

section \<open>Constants of the request rules\<close>

definition TIME_FUNCS :: "string list" where
  "TIME_FUNCS = [''hour'', ''minute'', ''weekday'', ''month'', ''day'']"

text \<open>Pairs of the value and the label.\<close>

definition COMMON_TIMEZONES :: "(string \<times> string) list" where
  "COMMON_TIMEZONES = [
     (''Asia/Shanghai'', ''UTC+8 Shanghai (Asia/Shanghai)''),
     (''UTC'', ''UTC''),
     (''America/New_York'', ''UTC-5 New York (America/New_York)''),
     (''America/Los_Angeles'', ''UTC-8 Los Angeles (America/Los_Angeles)''),
     (''America/Chicago'', ''UTC-6 Chicago (America/Chicago)''),
     (''Europe/London'', ''UTC+0 London (Europe/London)''),
     (''Europe/Berlin'', ''UTC+1 Berlin (Europe/Berlin)''),
     (''Asia/Tokyo'', ''UTC+9 Tokyo (Asia/Tokyo)''),
     (''Asia/Singapore'', ''UTC+8 Singapore (Asia/Singapore)''),
     (''Asia/Seoul'', ''UTC+9 Seoul (Asia/Seoul)''),
     (''Australia/Sydney'', ''UTC+10 Sydney (Australia/Sydney)'')]"

text \<open>\<open>/^-?(?:\d+\.?\d*|\.\d+)(?:[eE][+-]?\d+)?$/\<close>.\<close>

definition NUMERIC_LITERAL_REGEX :: "re list" where
  "NUMERIC_LITERAL_REGEX = [opt (lit ''-''),
     Either (seq [some_of is_digit, opt (lit ''.''), many is_digit]) (seq [lit ''.'', some_of is_digit]),
     opt (seq [Cls (\<lambda>c. c \<in> set ''eE''), opt (Cls (\<lambda>c. c \<in> set ''+-'')), some_of is_digit])]"

definition is_numeric :: "string \<Rightarrow> bool" where
  "is_numeric s \<longleftrightarrow> match_full NUMERIC_LITERAL_REGEX s \<noteq> None"

record time_condition =
  tm_timeFunc :: string
  tm_timezone :: string
  tm_mode :: string
  tm_value :: string
  tm_rangeStart :: string
  tm_rangeEnd :: string

record param_header_condition =
  sc_source :: string
  sc_path :: string
  sc_mode :: string
  sc_value :: string

datatype request_condition = TimeC time_condition | SourceC param_header_condition

record rule_group =
  rg_conditions :: "request_condition list"
  rg_multiplier :: string

section \<open>The reader of tiers\<close>

record tier_condition =
  tc_var :: string
  tc_op :: string
  tc_value :: jsnum

record parsed_tier =
  pt_label :: string
  pt_conditions :: "tier_condition list"
  pt_prices :: "(string \<times> jsnum) list"

definition VERSION_REGEX :: "re list" where
  "VERSION_REGEX = [lit ''v'', Grp 1 (some_of is_digit), lit '':'', Grp 2 (many (\<lambda>_. True))]"

definition stripExprVersion :: "string \<Rightarrow> jsnum \<times> string" where
  "stripExprVersion exprStr =
     (if exprStr = [] then (Num (int_dec 1), [])
      else case match_full VERSION_REGEX exprStr of
        Some m \<Rightarrow> (js_number (grp m 1), grp m 2)
      | None \<Rightarrow> (Num (int_dec 1), exprStr))"

text \<open>\<open>n || 0\<close>.\<close>

definition num_or_zero :: "jsnum \<Rightarrow> jsnum" where
  "num_or_zero n = (case n of NaN \<Rightarrow> Num (int_dec 0) | _ \<Rightarrow> n)"

definition pos_caps :: "pos \<Rightarrow> (nat \<rightharpoonup> string)" where
  "pos_caps y = snd (snd y)"

definition body_coeffs :: "string \<Rightarrow> (string \<times> jsnum) list" where
  "body_coeffs bodyStr =
     foldl (\<lambda>coeffs y. if map_of coeffs (grp (pos_caps y) 1) = None
         then coeffs @ [(grp (pos_caps y) 1, js_number (grp (pos_caps y) 2))] else coeffs)
       [] (exec_all BILLING_VAR_REGEX None bodyStr)"

definition parseTierBody :: "string \<Rightarrow> (string \<times> jsnum) list" where
  "parseTierBody bodyStr =
     (let coeffs = body_coeffs bodyStr
      in map (\<lambda>(varName, field). (field,
           case map_of coeffs varName of None \<Rightarrow> Num (int_dec 0) | Some n \<Rightarrow> num_or_zero n))
         BILLING_VAR_KEY_TO_FIELD)"

definition cond_vars :: re where
  "cond_vars = lits [''p'', ''c'', ''len'']"

definition cond_ops :: re where
  "cond_ops = lits [''<'', ''<='', ''>'', ''>='']"

definition COND_GROUP :: re where
  "COND_GROUP = seq [cond_vars, spaces, cond_ops, spaces, some_of bound_char,
     Star (seq [spaces, lit ''&&'', spaces, cond_vars, spaces, cond_ops, spaces, some_of bound_char])]"

definition TIER_REGEX :: re where
  "TIER_REGEX = seq [opt (seq [Grp 1 COND_GROUP, spaces, lit ''?'', spaces]),
     lit (''tier('' @ [quote_char]), Grp 2 (many (\<lambda>c. c \<noteq> quote_char)), lit [quote_char, CHR '',''], spaces,
     Grp 3 (some_of (\<lambda>c. c \<noteq> CHR '')'')), lit '')'']"

definition AND_REGEX :: re where
  "AND_REGEX = seq [spaces, lit ''&&'', spaces]"

definition TIER_COND_REGEX :: "re list" where
  "TIER_COND_REGEX = [Grp 1 cond_vars, spaces, Grp 2 cond_ops, spaces, Grp 3 (some_of bound_char)]"

definition read_tier_conditions :: "string \<Rightarrow> tier_condition list" where
  "read_tier_conditions condStr =
     (if condStr = [] then []
      else List.map_filter (\<lambda>cp. map_option
          (\<lambda>m. \<lparr>tc_var = grp m 1, tc_op = grp m 2, tc_value = js_number (grp m 3)\<rparr>)
          (match_full TIER_COND_REGEX (js_trim cp)))
        (split_re AND_REGEX None condStr))"

definition parseTiersFromExpr :: "string \<Rightarrow> parsed_tier list" where
  "parseTiersFromExpr exprStr =
     (if exprStr = [] then []
      else map (\<lambda>y. \<lparr>pt_label = grp (pos_caps y) 2,
             pt_conditions = read_tier_conditions (grp (pos_caps y) 1),
             pt_prices = parseTierBody (grp (pos_caps y) 3)\<rparr>)
        (exec_all TIER_REGEX None (snd (stripExprVersion exprStr))))"

section \<open>The reader of request rules\<close>

text \<open>What a reader may do: JSON.parse of a quoted text may raise.\<close>

datatype 'a reading = Raised | NoMatch | Found 'a

text \<open>The parts of an expression between the separators at depth 0 of the parentheses; \<open>part\<close> is the
  part begun.\<close>

fun split_top :: "string \<Rightarrow> int \<Rightarrow> string \<Rightarrow> string \<Rightarrow> string list" where
  "split_top sep depth part [] = [part]"
| "split_top sep depth part (c # t) =
     (let d = depth + (if c = CHR ''('' then 1 else 0) - (if c = CHR '')'' then 1 else 0)
      in if d = 0 \<and> sep \<noteq> [] \<and> prefix sep (c # t) then part # split_top sep d [] (drop (length sep - 1) t)
         else split_top sep d (part @ [c]) t)"

definition split_parts :: "string \<Rightarrow> string \<Rightarrow> string list" where
  "split_parts sep expr = filter nonempty (map js_trim (split_top sep 0 [] expr))"

definition splitTopLevelMultiply :: "string \<Rightarrow> string list" where
  "splitTopLevelMultiply expr = split_parts '' * '' expr"

definition splitTopLevelAnd :: "string \<Rightarrow> string list" where
  "splitTopLevelAnd expr = split_parts '' && '' expr"

text \<open>None: null.\<close>

definition parseExprLiteral :: "string \<Rightarrow> json option" where
  "parseExprLiteral raw =
     (let t = js_trim raw
      in if t = ''true'' \<or> t = ''false'' then Some (JStr t)
         else if is_numeric t then Some (JStr t)
         else case json_parse t of None \<Rightarrow> None | Some JNull \<Rightarrow> None | Some v \<Rightarrow> Some v)"

definition not_quote :: "char \<Rightarrow> bool" where
  "not_quote c \<longleftrightarrow> c \<noteq> quote_char"

text \<open>\<open>f("z")\<close>, with the name and the argument captured.\<close>

definition call_parts :: "re \<Rightarrow> nat \<Rightarrow> nat \<Rightarrow> re list" where
  "call_parts f i j = [Grp i f, lit [CHR ''('', quote_char], Grp j (some_of not_quote), lit [quote_char, CHR '')'']]"

definition RANGE_BODY :: "re list" where
  "RANGE_BODY = call_parts (lits TIME_FUNCS) 1 2 @
     [lit '' >= '', Grp 3 (some_of num_char), lit '' || '', Back 1, lit [CHR ''('', quote_char], Back 2,
      lit ([quote_char] @ '') < ''), Grp 4 (some_of num_char)]"

definition TIME_REGEX :: "re list" where
  "TIME_REGEX = call_parts (lits TIME_FUNCS) 1 2 @ [lit '' '', Grp 3 (lits [''=='', ''>='', ''<'']), lit '' '', Grp 4 (some_of num_char)]"

definition range_condition :: "(nat \<rightharpoonup> string) \<Rightarrow> request_condition" where
  "range_condition m = TimeC \<lparr>tm_timeFunc = grp m 1, tm_timezone = grp m 2, tm_mode = ''range'', tm_value = [],
     tm_rangeStart = grp m 3, tm_rangeEnd = grp m 4\<rparr>"

definition TIME_OPS :: "(string \<times> string) list" where
  "TIME_OPS = [(''=='', ''eq''), (''>='', ''gte''), (''<'', ''lt'')]"

definition tryParseTimeCondition :: "string \<Rightarrow> request_condition option" where
  "tryParseTimeCondition expr = (case match_full RANGE_BODY expr of
     Some m \<Rightarrow> Some (range_condition m)
   | None \<Rightarrow> (case match_full ([lit ''(''] @ RANGE_BODY @ [lit '')'']) expr of
       Some m \<Rightarrow> Some (range_condition m)
     | None \<Rightarrow> (case match_full TIME_REGEX expr of
         Some m \<Rightarrow> Some (TimeC \<lparr>tm_timeFunc = grp m 1, tm_timezone = grp m 2,
           tm_mode = or_default (map_of TIME_OPS (grp m 3)) ''eq'', tm_value = grp m 4,
           tm_rangeStart = [], tm_rangeEnd = []\<rparr>)
       | None \<Rightarrow> None)))"

text \<open>\<open>name("path")\<close> with the path captured.\<close>

definition source_parts :: "string \<Rightarrow> nat \<Rightarrow> re list" where
  "source_parts name i = [lit (name @ [CHR ''('', quote_char]), Grp i (some_of not_quote), lit [quote_char, CHR '')'']]"

definition QUOTED :: re where
  "QUOTED = seq [lit [quote_char],
     Star (Either (Cls (\<lambda>c. c \<noteq> quote_char \<and> c \<noteq> backslash)) (seq [lit [backslash], Cls no_newline])), lit [quote_char]]"

definition HEADER_EXISTS :: "re list" where
  "HEADER_EXISTS = source_parts ''header'' 1 @ [lit ('' != '' @ [quote_char, quote_char])]"

definition PARAM_EXISTS :: "re list" where
  "PARAM_EXISTS = source_parts ''param'' 1 @ [lit '' != nil'']"

definition HEADER_HAS :: "re list" where
  "HEADER_HAS = [lit ''has(''] @ source_parts ''header'' 1 @ [lit '', '', Grp 2 QUOTED, lit '')'']"

definition PARAM_HAS :: "re list" where
  "PARAM_HAS = source_parts ''param'' 1 @ [lit '' != nil && has(''] @ source_parts ''param'' 2 @
     [lit '', '', Grp 3 QUOTED, lit '')'']"

definition PARAM_COMPARE :: "re list" where
  "PARAM_COMPARE = source_parts ''param'' 1 @ [lit '' != nil && ''] @ source_parts ''param'' 2 @
     [lit '' '', Grp 3 (lits [''>'', ''>='', ''<'', ''<='']), lit '' '', Grp 4 (some_of num_char)]"

definition SOURCE_EQUALS :: "re list" where
  "SOURCE_EQUALS = call_parts (lits [''param'', ''header'']) 1 2 @ [lit '' == '', Grp 3 (some_of no_newline)]"

definition source_condition :: "string \<Rightarrow> string \<Rightarrow> string \<Rightarrow> string \<Rightarrow> request_condition" where
  "source_condition source path mode v = SourceC \<lparr>sc_source = source, sc_path = path, sc_mode = mode, sc_value = v\<rparr>"

definition COMPARE_OPS :: "(string \<times> string) list" where
  "COMPARE_OPS = [(''>'', ''gt''), (''>='', ''gte''), (''<'', ''lt''), (''<='', ''lte'')]"

definition has_condition :: "string \<Rightarrow> string \<Rightarrow> string \<Rightarrow> request_condition reading" where
  "has_condition source path quoted = (case json_parse quoted of
     None \<Rightarrow> Raised | Some v \<Rightarrow> Found (source_condition source path ''contains'' (json_to_string v)))"

definition read_equals :: "string \<Rightarrow> request_condition reading" where
  "read_equals expr = (case match_full SOURCE_EQUALS expr of
     None \<Rightarrow> NoMatch
   | Some m \<Rightarrow> (case parseExprLiteral (grp m 3) of
       None \<Rightarrow> NoMatch | Some v \<Rightarrow> Found (source_condition (grp m 1) (grp m 2) ''eq'' (json_to_string v))))"

definition read_compare :: "string \<Rightarrow> request_condition reading" where
  "read_compare expr = (case match_full PARAM_COMPARE expr of
     Some m \<Rightarrow> if grp m 1 = grp m 2
       then Found (source_condition ''param'' (grp m 1) (or_default (map_of COMPARE_OPS (grp m 3)) []) (grp m 4))
       else read_equals expr
   | None \<Rightarrow> read_equals expr)"

definition read_param_has :: "string \<Rightarrow> request_condition reading" where
  "read_param_has expr = (case match_full PARAM_HAS expr of
     Some m \<Rightarrow> if grp m 1 = grp m 2 then has_condition ''param'' (grp m 1) (grp m 3) else read_compare expr
   | None \<Rightarrow> read_compare expr)"

definition tryParseRequestCondition :: "string \<Rightarrow> request_condition reading" where
  "tryParseRequestCondition expr = (case tryParseTimeCondition expr of
     Some c \<Rightarrow> Found c
   | None \<Rightarrow> (case match_full HEADER_EXISTS expr of
       Some m \<Rightarrow> Found (source_condition ''header'' (grp m 1) ''exists'' [])
     | None \<Rightarrow> (case match_full PARAM_EXISTS expr of
         Some m \<Rightarrow> Found (source_condition ''param'' (grp m 1) ''exists'' [])
       | None \<Rightarrow> (case match_full HEADER_HAS expr of
           Some m \<Rightarrow> has_condition ''header'' (grp m 1) (grp m 2)
         | None \<Rightarrow> read_param_has expr))))"

fun read_all :: "('a \<Rightarrow> 'b reading) \<Rightarrow> 'a list \<Rightarrow> 'b list reading" where
  "read_all f [] = Found []"
| "read_all f (x # xs) = (case f x of
     Raised \<Rightarrow> Raised
   | NoMatch \<Rightarrow> NoMatch
   | Found y \<Rightarrow> (case read_all f xs of Raised \<Rightarrow> Raised | NoMatch \<Rightarrow> NoMatch | Found ys \<Rightarrow> Found (y # ys)))"

definition FACTOR_REGEX :: "re list" where
  "FACTOR_REGEX = [lit ''('', Grp 1 (some_of (\<lambda>_. True)), lit '' ? '', Grp 2 (some_of num_char), lit '' : 1)'']"

definition tryParseRuleGroupFactor :: "string \<Rightarrow> rule_group reading" where
  "tryParseRuleGroupFactor part = (case match_full FACTOR_REGEX part of
     None \<Rightarrow> NoMatch
   | Some m \<Rightarrow> (case read_all (\<lambda>ap. tryParseRequestCondition (js_trim ap)) (splitTopLevelAnd (grp m 1)) of
       Raised \<Rightarrow> Raised
     | NoMatch \<Rightarrow> NoMatch
     | Found conditions \<Rightarrow>
         if conditions = [] then NoMatch
         else Found \<lparr>rg_conditions = conditions, rg_multiplier = grp m 2\<rparr>))"

definition tryParseRequestRuleExpr :: "string \<Rightarrow> rule_group list reading" where
  "tryParseRequestRuleExpr expr =
     (let trimmed = js_trim expr
      in if trimmed = [] then Found []
         else read_all tryParseRuleGroupFactor (splitTopLevelMultiply trimmed))"

section \<open>Joining and taking apart\<close>

text \<open>The depth after each unit.\<close>

definition depth_step :: "int \<Rightarrow> char \<Rightarrow> int" where
  "depth_step d c = d + (if c = CHR ''('' then 1 else 0) - (if c = CHR '')'' then 1 else 0)"

fun closes_last :: "int \<Rightarrow> string \<Rightarrow> bool" where
  "closes_last d [] \<longleftrightarrow> d = 0"
| "closes_last d (c # t) \<longleftrightarrow>
     (if depth_step d c = 0 \<and> t \<noteq> [] then False else closes_last (depth_step d c) t)"

definition hasFullOuterParens :: "string \<Rightarrow> bool" where
  "hasFullOuterParens expr \<longleftrightarrow>
     (if \<not> (expr \<noteq> [] \<and> hd expr = CHR ''('' \<and> last expr = CHR '')'') then False else closes_last 0 expr)"

lemma length_trim: "length (trim_by p s) \<le> length s"
  using length_dropWhile_le [of p "rev (dropWhile p s)"] length_dropWhile_le [of p s] by (simp add: trim_by_def)

function unwrap_loop :: "string \<Rightarrow> string" where
  "unwrap_loop current =
     (if hasFullOuterParens current then unwrap_loop (js_trim (butlast (tl current))) else current)"
  by pat_completeness auto
termination
proof (relation "measure length")
  fix current assume "hasFullOuterParens current"
  then have "current \<noteq> []" by (auto simp: hasFullOuterParens_def)
  then have "length (butlast (tl current)) < length current" by (cases current) auto
  with length_trim [of is_ws "butlast (tl current)"] show "(js_trim (butlast (tl current)), current) \<in> measure length"
    by simp
qed simp

declare unwrap_loop.simps [simp del]

definition unwrapOuterParens :: "string \<Rightarrow> string" where
  "unwrapOuterParens expr = unwrap_loop (js_trim expr)"

record split_result =
  sr_billingExpr :: string
  sr_requestRuleExpr :: string

definition is_rule_part :: "rule_group list reading \<Rightarrow> bool" where
  "is_rule_part r = (case r of Found gs \<Rightarrow> 0 < length gs | _ \<Rightarrow> False)"

text \<open>None: a reader raised.\<close>

definition splitBillingExprAndRequestRules :: "string \<Rightarrow> split_result option" where
  "splitBillingExprAndRequestRules expr =
     (let trimmed = js_trim expr; parts = splitTopLevelMultiply trimmed
      in if trimmed = [] then Some \<lparr>sr_billingExpr = [], sr_requestRuleExpr = []\<rparr>
         else if length parts \<le> 1 then Some \<lparr>sr_billingExpr = trimmed, sr_requestRuleExpr = []\<rparr>
         else if \<exists>part \<in> set parts. tryParseRequestRuleExpr part = Raised then None
         else (let ruleParts = filter (\<lambda>part. is_rule_part (tryParseRequestRuleExpr part)) parts;
                   baseParts = filter (\<lambda>part. \<not> is_rule_part (tryParseRequestRuleExpr part)) parts
               in if ruleParts = [] \<or> length baseParts \<noteq> 1
                  then Some \<lparr>sr_billingExpr = trimmed, sr_requestRuleExpr = []\<rparr>
                  else Some \<lparr>sr_billingExpr = unwrapOuterParens (hd baseParts),
                    sr_requestRuleExpr = js_join '' * '' ruleParts\<rparr>))"

definition combineBillingExpr :: "string \<Rightarrow> string \<Rightarrow> string" where
  "combineBillingExpr baseExpr requestRuleExpr =
     (let base = js_trim baseExpr; rules = js_trim requestRuleExpr
      in if base = [] then [] else if rules = [] then base else ''('' @ base @ '') * '' @ rules)"

section \<open>The editor of rules\<close>

definition createEmptyCondition :: request_condition where
  "createEmptyCondition = SourceC \<lparr>sc_source = ''param'', sc_path = [], sc_mode = ''eq'', sc_value = []\<rparr>"

definition createEmptyTimeCondition :: request_condition where
  "createEmptyTimeCondition = TimeC \<lparr>tm_timeFunc = ''hour'', tm_timezone = ''Asia/Shanghai'', tm_mode = ''gte'',
     tm_value = [], tm_rangeStart = [], tm_rangeEnd = []\<rparr>"

definition createEmptyRuleGroup :: rule_group where
  "createEmptyRuleGroup = \<lparr>rg_conditions = [createEmptyCondition], rg_multiplier = []\<rparr>"

definition createEmptyTimeRuleGroup :: rule_group where
  "createEmptyTimeRuleGroup = \<lparr>rg_conditions = [createEmptyTimeCondition], rg_multiplier = []\<rparr>"

text \<open>Pairs of the value and the label.\<close>

definition getRequestRuleMatchOptions :: "string \<Rightarrow> (string \<times> string) list" where
  "getRequestRuleMatchOptions source =
     (if source = ''time'' then
        [(''eq'', ''Equals''), (''gte'', ''Greater than or equal''), (''lt'', ''Less than''), (''range'', ''Overnight range'')]
      else (let base = [(''eq'', ''Equals''), (''contains'', ''Contains''), (''exists'', ''Exists'')]
            in if source = ''header'' then base
               else base @ [(''gt'', ''Greater than''), (''gte'', ''Greater than or equal''),
                 (''lt'', ''Less than''), (''lte'', ''Less than or equal'')]))"

definition isTimeFunc :: "string \<Rightarrow> bool" where
  "isTimeFunc v \<longleftrightarrow> v \<in> set TIME_FUNCS"

text \<open>On the conditions that the editor holds, whose fields are all strings.\<close>

fun normalizeRequestCondition :: "request_condition \<Rightarrow> request_condition" where
  "normalizeRequestCondition (TimeC c) = TimeC \<lparr>
     tm_timeFunc = (if isTimeFunc (tm_timeFunc c) then tm_timeFunc c else ''hour''),
     tm_timezone = or_str (tm_timezone c) ''Asia/Shanghai'',
     tm_mode = (if tm_mode c \<in> set (map fst (getRequestRuleMatchOptions ''time'')) then tm_mode c else ''gte''),
     tm_value = tm_value c, tm_rangeStart = tm_rangeStart c, tm_rangeEnd = tm_rangeEnd c\<rparr>"
| "normalizeRequestCondition (SourceC c) =
     (let source = (if sc_source c = ''header'' then ''header'' else ''param'')
      in SourceC \<lparr>sc_source = source, sc_path = sc_path c,
           sc_mode = (if sc_mode c \<in> set (map fst (getRequestRuleMatchOptions source)) then sc_mode c else ''eq''),
           sc_value = sc_value c\<rparr>)"

definition show_json_string :: "string \<Rightarrow> string" where
  "show_json_string s = json_stringify (JStr s)"

definition buildExprLiteral :: "string \<Rightarrow> string \<Rightarrow> string" where
  "buildExprLiteral mode v =
     (let t = js_trim v
      in if mode = ''contains'' then show_json_string t
         else if t = ''true'' \<or> t = ''false'' then t
         else if is_numeric t then t
         else show_json_string t)"

definition time_op :: "string \<Rightarrow> string" where
  "time_op mode = or_default (map_of [(''eq'', ''==''), (''gte'', ''>=''), (''lt'', ''<'')] mode) ''==''"

definition build_time :: "time_condition \<Rightarrow> string" where
  "build_time n =
     (let fn = tm_timeFunc n @ ''('' @ show_json_string (tm_timezone n) @ '')''
      in if tm_mode n = ''range'' then
           (let s = js_trim (tm_rangeStart n); e = js_trim (tm_rangeEnd n)
            in if \<not> is_numeric s \<or> \<not> is_numeric e then []
               else fn @ '' >= '' @ s @ '' || '' @ fn @ '' < '' @ e)
         else (let v = js_trim (tm_value n)
               in if \<not> is_numeric v then [] else fn @ '' '' @ time_op (tm_mode n) @ '' '' @ v))"

definition compare_op :: "string \<Rightarrow> string" where
  "compare_op mode = or_default (map_of [(''gt'', ''>''), (''gte'', ''>=''), (''lt'', ''<''), (''lte'', ''<='')] mode) []"

definition build_source :: "param_header_condition \<Rightarrow> string" where
  "build_source n =
     (let path = js_trim (sc_path n);
          sourceExpr = (if sc_source n = ''header'' then ''header('' else ''param('') @ show_json_string path @ '')''
      in if path = [] then []
         else if sc_mode n = ''exists'' then
           (if sc_source n = ''header'' then sourceExpr @ '' != '' @ [quote_char, quote_char] else sourceExpr @ '' != nil'')
         else if sc_mode n = ''contains'' then
           (if sc_source n = ''header'' then ''has('' @ sourceExpr @ '', '' @ buildExprLiteral (sc_mode n) (sc_value n) @ '')''
            else sourceExpr @ '' != nil && has('' @ sourceExpr @ '', '' @ buildExprLiteral (sc_mode n) (sc_value n) @ '')'')
         else if sc_mode n \<in> {''gt'', ''gte'', ''lt'', ''lte''} then
           (let numText = js_trim (sc_value n)
            in if \<not> is_numeric numText then []
               else sourceExpr @ '' != nil && '' @ sourceExpr @ '' '' @ compare_op (sc_mode n) @ '' '' @ numText)
         else sourceExpr @ '' == '' @ buildExprLiteral (sc_mode n) (sc_value n))"

definition buildRequestConditionExpr :: "request_condition \<Rightarrow> string" where
  "buildRequestConditionExpr cond = (case normalizeRequestCondition cond of
     TimeC n \<Rightarrow> build_time n | SourceC n \<Rightarrow> build_source n)"

definition wrap_or :: "string \<Rightarrow> string" where
  "wrap_or e = (if js_includes e '' || '' then ''('' @ e @ '')'' else e)"

definition buildRuleGroupFactor :: "rule_group \<Rightarrow> string" where
  "buildRuleGroupFactor g =
     (let multiplier = js_trim (rg_multiplier g)
      in if \<not> is_numeric multiplier then []
         else let condExprs = filter nonempty (map buildRequestConditionExpr (rg_conditions g))
              in if condExprs = [] then []
                 else let combined = (if length condExprs = 1 then hd condExprs
                        else js_join '' && '' (map wrap_or condExprs))
                      in ''('' @ combined @ '' ? '' @ multiplier @ '' : 1)'')"

definition buildRequestRuleExpr :: "rule_group list \<Rightarrow> string" where
  "buildRequestRuleExpr groups = js_join '' * '' (filter nonempty (map buildRuleGroupFactor groups))"

end
