(* ===== verification/BillingExprFacts.thy ===== *)
theory BillingExprFacts
  imports BillingExpr
begin

text \<open>
  What the request rules of a billing expression keep: a condition that was built is read back; a
  group of rules is read back unless one of its conditions contains a conjunction itself, and then
  never; joining a price expression and its rules is undone by taking them apart.
\<close>

section \<open>Plain texts\<close>

text \<open>Units that JSON.stringify leaves alone and that no reader takes for structure.\<close>

definition plain_char :: "char \<Rightarrow> bool" where
  "plain_char c \<longleftrightarrow> 32 \<le> (of_char c :: nat) \<and> c \<noteq> quote_char \<and> c \<noteq> backslash \<and> c \<notin> set ''()&*|''"

definition plain_text :: "string \<Rightarrow> bool" where
  "plain_text s \<longleftrightarrow> s \<noteq> [] \<and> js_trim s = s \<and> list_all plain_char s"

lemma plain_not_quote: "plain_char c \<Longrightarrow> not_quote c"
  by (simp add: plain_char_def not_quote_def)

lemma plain_esc: "plain_char c \<Longrightarrow> esc_char c = [c]"
proof -
  assume p: "plain_char c"
  then have ge: "32 \<le> (of_char c :: nat)" by (simp add: plain_char_def)
  have "c \<noteq> d" if "(of_char d :: nat) < 32" for d using ge that by force
  then have "c \<noteq> CHR 0x08" "c \<noteq> CHR 0x09" "c \<noteq> CHR 0x0A" "c \<noteq> CHR 0x0C" "c \<noteq> CHR 0x0D" by simp_all
  moreover have "c \<noteq> quote_char" "c \<noteq> backslash" using p by (simp_all add: plain_char_def)
  ultimately have "map_of short_escapes c = None" by (simp only: short_escapes_def map_of.simps fst_conv snd_conv fun_upd_apply if_False)
  then show ?thesis using ge by (simp add: esc_char_def)
qed

lemma show_plain: "list_all plain_char s \<Longrightarrow> show_json_string s = quote_char # s @ [quote_char]"
proof -
  assume "list_all plain_char s"
  then have "concat (map esc_char s) = s" by (induction s) (simp_all add: plain_esc)
  then show ?thesis by (simp add: show_json_string_def show_jstr_def)
qed

lemma plain_no_newline: "plain_char c \<Longrightarrow> no_newline c"
proof -
  assume p: "plain_char c"
  have "c \<noteq> d" if "(of_char d :: nat) < 32" for d using p that by (force simp: plain_char_def)
  then have "c \<noteq> CHR 0x0A" "c \<noteq> CHR 0x0D" by simp_all
  then show ?thesis by (simp add: no_newline_def)
qed

lemma list_all_not_quote: "list_all plain_char s \<Longrightarrow> list_all not_quote s"
  by (auto simp: list_all_iff plain_not_quote)

section \<open>Numbers\<close>

lemma over_lit [simp]: "over p (lit w) \<longleftrightarrow> list_all p w"
  by (induction w) (auto simp: lit_def)

lemma over_seq [simp]: "over p (seq rs) \<longleftrightarrow> list_all (over p) rs"
  by (induction rs) (simp_all add: seq_simps)

lemma over_class [simp]: "over p (many d) \<longleftrightarrow> (\<forall>c. d c \<longrightarrow> p c)" "over p (some_of d) \<longleftrightarrow> (\<forall>c. d c \<longrightarrow> p c)"
  "over p (opt r) \<longleftrightarrow> over p r"
  by (simp_all add: many_def some_of_def opt_def)

lemma numeric_chars: "is_numeric s \<Longrightarrow> list_all num_char s"
  unfolding is_numeric_def
  by (erule match_full_over) (auto simp: NUMERIC_LITERAL_REGEX_def num_char_def)

lemma numeric_not_empty: "is_numeric s \<Longrightarrow> s \<noteq> []"
proof
  assume "is_numeric s" "s = []"
  moreover have "match_full NUMERIC_LITERAL_REGEX [] = None" by code_simp
  ultimately show False by (simp add: is_numeric_def)
qed

lemma num_char_plain: "num_char c \<Longrightarrow> \<not> is_ws c \<and> c \<notin> set ''()&|?: ''"
  by (auto simp: num_char_def is_digit_def is_ws_def)

section \<open>Reading a condition\<close>

text \<open>A text of the form \<open>name("path")rest\<close>, without the name.\<close>

definition call_text :: "string \<Rightarrow> string \<Rightarrow> string" where
  "call_text path rest = CHR ''('' # quote_char # path @ quote_char # CHR '')'' # rest"

lemma not_quote_run [regex_run]:
  "list_all not_quote w \<Longrightarrow> takeWhile not_quote (w @ quote_char # t) = w"
  "list_all not_quote w \<Longrightarrow> dropWhile not_quote (w @ quote_char # t) = quote_char # t"
  using takeWhile_stop [of not_quote w quote_char t] by (simp_all add: not_quote_def)

lemma num_char_run [regex_run]:
  "list_all num_char w \<Longrightarrow> takeWhile num_char (w @ CHR '' '' # t) = w"
  "list_all num_char w \<Longrightarrow> dropWhile num_char (w @ CHR '' '' # t) = CHR '' '' # t"
  "list_all num_char w \<Longrightarrow> takeWhile num_char (w @ CHR '')'' # t) = w"
  "list_all num_char w \<Longrightarrow> dropWhile num_char (w @ CHR '')'' # t) = CHR '')'' # t"
  "list_all num_char w \<Longrightarrow> takeWhile num_char w = w"
  "list_all num_char w \<Longrightarrow> dropWhile num_char w = []"
  using takeWhile_stop [of num_char w "CHR '' ''" t] takeWhile_stop [of num_char w "CHR '')''" t] takeWhile_end [of num_char w]
  by (simp_all add: num_char_def is_digit_def)

lemma not_num_char [regex_run]: "\<not> num_char CHR '' ''" "\<not> num_char CHR '')''" "\<not> num_char quote_char"
  "\<not> num_char CHR 0x0A" "\<not> num_char CHR 0x0D"
  by (simp_all add: num_char_def is_digit_def)

lemma time_needs_name:
  assumes "\<forall>w \<in> set TIME_FUNCS. \<not> prefix w s" and "s \<noteq> [] \<and> hd s \<noteq> CHR ''(''"
  shows "tryParseTimeCondition s = None"
proof -
  have "run (seq ((RANGE_BODY) @ [AtEnd])) (None, s, Map.empty) = []"
    using assms(1) by (simp add: RANGE_BODY_def call_parts_def regex_run concat_eq_Nil_conv TIME_FUNCS_def)
  moreover have "run (seq (([lit ''(''] @ RANGE_BODY @ [lit '')'']) @ [AtEnd])) (None, s, Map.empty) = []"
    using assms(2) by (cases s) (simp_all add: regex_run)
  moreover have "run (seq (TIME_REGEX @ [AtEnd])) (None, s, Map.empty) = []"
    using assms(1) by (simp add: TIME_REGEX_def call_parts_def regex_run concat_eq_Nil_conv TIME_FUNCS_def)
  ultimately show ?thesis by (simp add: tryParseTimeCondition_def match_full_none)
qed

lemma header_call: "''header'' @ call_text path rest = ''header('' @ quote_char # path @ quote_char # CHR '')'' # rest"
  "''param'' @ call_text path rest = ''param('' @ quote_char # path @ quote_char # CHR '')'' # rest"
  by (simp_all add: call_text_def)

definition quoted :: "string \<Rightarrow> string" where
  "quoted v = quote_char # v @ [quote_char]"

lemma repeat_same:
  assumes "\<And>x. P x \<Longrightarrow> f x = g x" and "\<And>x y. P x \<Longrightarrow> y \<in> set (g x) \<Longrightarrow> P y"
  shows "P x \<Longrightarrow> repeat_greedy n f x = repeat_greedy n g x"
proof (induction n arbitrary: x)
  case (Suc n)
  have "map (repeat_greedy n f) (filter Q (g x)) = map (repeat_greedy n g) (filter Q (g x))" for Q
    by (rule map_cong [OF refl], rule Suc.IH, rule assms(2) [OF Suc.prems]) (meson filter_is_subset subsetD)
  then show ?case unfolding repeat_greedy.simps assms(1) [OF Suc.prems] by (rule arg_cong)
qed simp

lemma quoted_run:
  assumes "list_all plain_char v"
  shows "run QUOTED (q, quote_char # v @ quote_char # t, m) = [(Some quote_char, t, m)]"
proof -
  let ?p = "\<lambda>c. c \<noteq> quote_char \<and> c \<noteq> backslash" and ?esc = "seq [lit [backslash], Cls no_newline]"
  have p: "list_all ?p v" using assms by (auto simp: list_all_iff plain_char_def)
  have esc: "run ?esc (q, c # t, m) = []" if "?p c \<or> c = quote_char" for q c t m
    using that by (auto simp: run_lit_seq)
  let ?P = "\<lambda>x. \<exists>q w. x = (q, w @ quote_char # t, m) \<and> list_all ?p w"
  have same: "run (Either (Cls ?p) ?esc) x = run (Cls ?p) x" if "?P x" for x
  proof -
    from that obtain q w where x: "x = (q, w @ quote_char # t, m)" "list_all ?p w" by blast
    then have "run ?esc x = []" using esc by (cases w) simp_all
    then show ?thesis by simp
  qed
  have closed: "?P y" if "?P x" "y \<in> set (run (Cls ?p) x)" for x y
  proof -
    from that(1) obtain q w where x: "x = (q, w @ quote_char # t, m)" "list_all ?p w" by blast
    with that(2) show ?thesis by (cases w) auto
  qed
  have star: "run (Star (Either (Cls ?p) ?esc)) (Some quote_char, v @ quote_char # t, m) =
      run (many ?p) (Some quote_char, v @ quote_char # t, m)"
    unfolding many_def run.simps(5) by (rule repeat_same [of ?P, OF same closed]) (use p in blast)+
  have tw: "takeWhile ?p (v @ quote_char # t) = v" "dropWhile ?p (v @ quote_char # t) = quote_char # t"
    using takeWhile_stop [OF p, of quote_char t] by simp_all
  have "run (seq [many ?p, lit [quote_char]]) (Some quote_char, v @ quote_char # t, m) = [(Some quote_char, t, m)]"
    by (subst run_many_seq) (simp_all add: regex_run tw, simp add: seq_simps)
  then show ?thesis unfolding QUOTED_def run_lit_seq using star by (simp add: seq_simps)
qed

lemma grp_quoted_run:
  assumes "list_all plain_char v"
  shows "run (seq (Grp i QUOTED # rs)) (q, quoted v @ t, m) =
    run (seq rs) (Some quote_char, t, m(i \<mapsto> quoted v))"
  using quoted_run [OF assms, of q t m] by (simp add: seq_simps quoted_def)

lemma no_newline_run [regex_run]:
  "list_all no_newline w \<Longrightarrow> takeWhile no_newline w = w" "list_all no_newline w \<Longrightarrow> dropWhile no_newline w = []"
  using takeWhile_end [of no_newline w] by simp_all

lemmas call_defs = HEADER_EXISTS_def PARAM_EXISTS_def HEADER_HAS_def PARAM_HAS_def PARAM_COMPARE_def SOURCE_EQUALS_def
  source_parts_def call_parts_def call_text_def

lemma header_no_match:
  assumes "list_all not_quote path" and "path \<noteq> []"
  shows "match_full PARAM_EXISTS (''header'' @ call_text path rest) = None"
    "match_full HEADER_HAS (''header'' @ call_text path rest) = None"
    "match_full PARAM_HAS (''header'' @ call_text path rest) = None"
    "match_full PARAM_COMPARE (''header'' @ call_text path rest) = None"
    "match_full HEADER_EXISTS (''header'' @ call_text path ('' == '' @ rest)) = None"
    "tryParseTimeCondition (''header'' @ call_text path rest) = None"
proof -
  show "tryParseTimeCondition (''header'' @ call_text path rest) = None"
    by (rule time_needs_name) (simp_all add: TIME_FUNCS_def)
qed (rule match_full_none, use assms in \<open>simp add: call_defs regex_run not_quote_def\<close>)+

lemma param_no_match:
  assumes "list_all not_quote path" and "path \<noteq> []"
  shows "match_full HEADER_EXISTS (''param'' @ call_text path rest) = None"
    "match_full HEADER_HAS (''param'' @ call_text path rest) = None"
    "match_full PARAM_EXISTS (''param'' @ call_text path ('' == '' @ rest)) = None"
    "match_full PARAM_HAS (''param'' @ call_text path ('' == '' @ rest)) = None"
    "match_full PARAM_COMPARE (''param'' @ call_text path ('' == '' @ rest)) = None"
    "tryParseTimeCondition (''param'' @ call_text path rest) = None"
proof -
  show "tryParseTimeCondition (''param'' @ call_text path rest) = None"
    by (rule time_needs_name) (simp_all add: TIME_FUNCS_def)
qed (rule match_full_none, use assms in \<open>simp add: call_defs regex_run not_quote_def\<close>)+

lemma exists_match:
  assumes "list_all not_quote path" and "path \<noteq> []"
  shows "match_full HEADER_EXISTS (''header'' @ call_text path ('' != '' @ [quote_char, quote_char])) = Some [1 \<mapsto> path]"
    "match_full PARAM_EXISTS (''param'' @ call_text path '' != nil'') = Some [1 \<mapsto> path]"
proof -
  have "run (seq (HEADER_EXISTS @ [AtEnd])) (None, ''header'' @ call_text path ('' != '' @ [quote_char, quote_char]), Map.empty) =
      [(Some quote_char, [], [1 \<mapsto> path])]"
    using assms by (simp add: call_defs regex_run not_quote_def)
  from match_full_run [OF this] show "match_full HEADER_EXISTS (''header'' @ call_text path ('' != '' @ [quote_char, quote_char])) = Some [1 \<mapsto> path]"
    by simp
  have "run (seq (PARAM_EXISTS @ [AtEnd])) (None, ''param'' @ call_text path '' != nil'', Map.empty) =
      [(Some CHR ''l'', [], [1 \<mapsto> path])]"
    using assms by (simp add: call_defs regex_run not_quote_def)
  from match_full_run [OF this] show "match_full PARAM_EXISTS (''param'' @ call_text path '' != nil'') = Some [1 \<mapsto> path]"
    by simp
qed

lemma equals_match:
  assumes "list_all not_quote path" "path \<noteq> []" "list_all no_newline v" "v \<noteq> []"
  shows "\<exists>m. match_full SOURCE_EQUALS (''header'' @ call_text path ('' == '' @ v)) = Some m \<and>
      grp m 1 = ''header'' \<and> grp m 2 = path \<and> grp m 3 = v"
    "\<exists>m. match_full SOURCE_EQUALS (''param'' @ call_text path ('' == '' @ v)) = Some m \<and>
      grp m 1 = ''param'' \<and> grp m 2 = path \<and> grp m 3 = v"
proof -
  have "run (seq (SOURCE_EQUALS @ [AtEnd])) (None, ''header'' @ call_text path ('' == '' @ v), Map.empty) =
      [(after_text v (Some CHR '' ''), [], [1 \<mapsto> ''header'', 2 \<mapsto> path, 3 \<mapsto> v])]"
    using assms by (simp add: call_defs regex_run not_quote_def)
  from match_full_run [OF this] show "\<exists>m. match_full SOURCE_EQUALS (''header'' @ call_text path ('' == '' @ v)) = Some m \<and>
      grp m 1 = ''header'' \<and> grp m 2 = path \<and> grp m 3 = v" by (simp add: grp_def)
  have "run (seq (SOURCE_EQUALS @ [AtEnd])) (None, ''param'' @ call_text path ('' == '' @ v), Map.empty) =
      [(after_text v (Some CHR '' ''), [], [1 \<mapsto> ''param'', 2 \<mapsto> path, 3 \<mapsto> v])]"
    using assms by (simp add: call_defs regex_run not_quote_def)
  from match_full_run [OF this] show "\<exists>m. match_full SOURCE_EQUALS (''param'' @ call_text path ('' == '' @ v)) = Some m \<and>
      grp m 1 = ''param'' \<and> grp m 2 = path \<and> grp m 3 = v" by (simp add: grp_def)
qed

lemma has_match:
  assumes "list_all plain_char path" "path \<noteq> []" "list_all plain_char v"
  shows "\<exists>m. match_full HEADER_HAS (''has('' @ ''header'' @ call_text path ('', '' @ quoted v @ '')'')) = Some m \<and>
      grp m 1 = path \<and> grp m 2 = quoted v"
    "\<exists>m. match_full PARAM_HAS (''param'' @ call_text path ('' != nil && has(param'' @ call_text path ('', '' @ quoted v @ '')''))) = Some m \<and>
      grp m 1 = path \<and> grp m 2 = path \<and> grp m 3 = quoted v"
proof -
  have nq: "list_all not_quote path" by (rule list_all_not_quote [OF assms(1)])
  have "run (seq (HEADER_HAS @ [AtEnd])) (None, ''has('' @ ''header'' @ call_text path ('', '' @ quoted v @ '')''), Map.empty) =
      [(Some CHR '')'', [], [1 \<mapsto> path, 2 \<mapsto> quoted v])]"
    using assms nq by (simp add: call_defs regex_run grp_quoted_run not_quote_def)
  from match_full_run [OF this] show "\<exists>m. match_full HEADER_HAS (''has('' @ ''header'' @ call_text path ('', '' @ quoted v @ '')'')) = Some m \<and>
      grp m 1 = path \<and> grp m 2 = quoted v" by (simp add: grp_def)
  have "run (seq (PARAM_HAS @ [AtEnd])) (None, ''param'' @ call_text path ('' != nil && has(param'' @ call_text path ('', '' @ quoted v @ '')'')), Map.empty) =
      [(Some CHR '')'', [], [1 \<mapsto> path, 2 \<mapsto> path, 3 \<mapsto> quoted v])]"
    using assms nq by (simp add: call_defs regex_run grp_quoted_run not_quote_def)
  from match_full_run [OF this] show "\<exists>m. match_full PARAM_HAS (''param'' @ call_text path ('' != nil && has(param'' @ call_text path ('', '' @ quoted v @ '')''))) = Some m \<and>
      grp m 1 = path \<and> grp m 2 = path \<and> grp m 3 = quoted v" by (simp add: grp_def)
qed

lemma compare_match:
  assumes "list_all not_quote path" "path \<noteq> []" "list_all num_char v" "v \<noteq> []" and mode: "mode \<in> {''gt'', ''gte'', ''lt'', ''lte''}"
  shows "\<exists>m. match_full PARAM_COMPARE (''param'' @ call_text path ('' != nil && param'' @ call_text path ('' '' @ compare_op mode @ '' '' @ v))) = Some m \<and>
      grp m 1 = path \<and> grp m 2 = path \<and> grp m 3 = compare_op mode \<and> grp m 4 = v"
    "match_full PARAM_EXISTS (''param'' @ call_text path ('' != nil && param'' @ call_text path ('' '' @ compare_op mode @ '' '' @ v))) = None"
    "match_full PARAM_HAS (''param'' @ call_text path ('' != nil && param'' @ call_text path ('' '' @ compare_op mode @ '' '' @ v))) = None"
proof -
  have op: "compare_op mode \<in> {''>'', ''>='', ''<'', ''<=''}"
    using mode by (auto simp: compare_op_def or_default_def or_str_def)
  have "run (seq (PARAM_COMPARE @ [AtEnd])) (None, ''param'' @ call_text path ('' != nil && param'' @ call_text path ('' '' @ compare_op mode @ '' '' @ v)), Map.empty) =
      [(after_text v (Some CHR '' ''), [], [1 \<mapsto> path, 2 \<mapsto> path, 3 \<mapsto> compare_op mode, 4 \<mapsto> v])]"
    using op assms(1-4) by (elim insertE emptyE) (simp_all add: call_defs regex_run not_quote_def)
  from match_full_run [OF this] show "\<exists>m. match_full PARAM_COMPARE (''param'' @ call_text path ('' != nil && param'' @ call_text path ('' '' @ compare_op mode @ '' '' @ v))) = Some m \<and>
      grp m 1 = path \<and> grp m 2 = path \<and> grp m 3 = compare_op mode \<and> grp m 4 = v" by (simp add: grp_def)
qed (rule match_full_none, use assms in \<open>simp add: call_defs regex_run not_quote_def\<close>)+

lemmas time_defs = RANGE_BODY_def TIME_REGEX_def call_parts_def call_text_def

definition range_text :: "string \<Rightarrow> string \<Rightarrow> string \<Rightarrow> string \<Rightarrow> string" where
  "range_text tf tz a b = tf @ call_text tz ('' >= '' @ a @ '' || '' @ tf @ call_text tz ('' < '' @ b))"

lemma in_time_funcs: "tf \<in> set TIME_FUNCS \<longleftrightarrow> tf \<in> {''hour'', ''minute'', ''weekday'', ''month'', ''day''}"
  by (simp add: TIME_FUNCS_def)

lemma range_match:
  assumes "tf \<in> set TIME_FUNCS" "list_all not_quote tz" "tz \<noteq> []" "list_all num_char a" "a \<noteq> []" "list_all num_char b" "b \<noteq> []"
  shows "\<exists>m. match_full RANGE_BODY (range_text tf tz a b) = Some m \<and> grp m 1 = tf \<and> grp m 2 = tz \<and> grp m 3 = a \<and> grp m 4 = b"
    "\<exists>m. match_full ([lit ''(''] @ RANGE_BODY @ [lit '')'']) (''('' @ range_text tf tz a b @ '')'') = Some m \<and>
      grp m 1 = tf \<and> grp m 2 = tz \<and> grp m 3 = a \<and> grp m 4 = b"
    "match_full RANGE_BODY (''('' @ range_text tf tz a b @ '')'') = None"
proof -
  have "run (seq (RANGE_BODY @ [AtEnd])) (None, range_text tf tz a b, Map.empty) =
      [(after_text b (Some CHR '' ''), [], [1 \<mapsto> tf, 2 \<mapsto> tz, 3 \<mapsto> a, 4 \<mapsto> b])]"
    using assms(1) [unfolded in_time_funcs] assms(2-)
    by (elim insertE emptyE) (simp_all add: time_defs range_text_def TIME_FUNCS_def regex_run not_quote_def)
  from match_full_run [OF this] show "\<exists>m. match_full RANGE_BODY (range_text tf tz a b) = Some m \<and> grp m 1 = tf \<and> grp m 2 = tz \<and> grp m 3 = a \<and> grp m 4 = b"
    by (simp add: grp_def)
  have "run (seq (([lit ''(''] @ RANGE_BODY @ [lit '')'']) @ [AtEnd])) (None, ''('' @ range_text tf tz a b @ '')'', Map.empty) =
      [(Some CHR '')'', [], [1 \<mapsto> tf, 2 \<mapsto> tz, 3 \<mapsto> a, 4 \<mapsto> b])]"
    using assms(1) [unfolded in_time_funcs] assms(2-)
    by (elim insertE emptyE) (simp_all add: time_defs range_text_def TIME_FUNCS_def regex_run not_quote_def)
  from match_full_run [OF this] show "\<exists>m. match_full ([lit ''(''] @ RANGE_BODY @ [lit '')'']) (''('' @ range_text tf tz a b @ '')'') = Some m \<and>
      grp m 1 = tf \<and> grp m 2 = tz \<and> grp m 3 = a \<and> grp m 4 = b"
    by (simp add: grp_def)
  show "match_full RANGE_BODY (''('' @ range_text tf tz a b @ '')'') = None"
    by (rule match_full_none) (simp add: time_defs TIME_FUNCS_def regex_run)
qed

lemma time_match:
  assumes "tf \<in> set TIME_FUNCS" "list_all not_quote tz" "tz \<noteq> []" "list_all num_char v" "v \<noteq> []" and op: "op \<in> {''=='', ''>='', ''<''}"
  shows "\<exists>m. match_full TIME_REGEX (tf @ call_text tz ('' '' @ op @ '' '' @ v)) = Some m \<and> grp m 1 = tf \<and> grp m 2 = tz \<and> grp m 3 = op \<and> grp m 4 = v"
    "match_full RANGE_BODY (tf @ call_text tz ('' '' @ op @ '' '' @ v)) = None"
    "match_full ([lit ''(''] @ RANGE_BODY @ [lit '')'']) (tf @ call_text tz ('' '' @ op @ '' '' @ v)) = None"
proof -
  have "run (seq (TIME_REGEX @ [AtEnd])) (None, tf @ call_text tz ('' '' @ op @ '' '' @ v), Map.empty) =
      [(after_text v (Some CHR '' ''), [], [1 \<mapsto> tf, 2 \<mapsto> tz, 3 \<mapsto> op, 4 \<mapsto> v])]"
    using assms(1) [unfolded in_time_funcs] op assms(2-5)
    by (elim insertE emptyE) (simp_all add: time_defs TIME_FUNCS_def regex_run not_quote_def)
  from match_full_run [OF this] show "\<exists>m. match_full TIME_REGEX (tf @ call_text tz ('' '' @ op @ '' '' @ v)) = Some m \<and> grp m 1 = tf \<and> grp m 2 = tz \<and> grp m 3 = op \<and> grp m 4 = v"
    by (simp add: grp_def)
  show "match_full RANGE_BODY (tf @ call_text tz ('' '' @ op @ '' '' @ v)) = None"
    by (rule match_full_none, use assms(1) [unfolded in_time_funcs] op assms(2-5) in \<open>elim insertE emptyE\<close>)
      (simp_all add: time_defs TIME_FUNCS_def regex_run not_quote_def)
  show "match_full ([lit ''(''] @ RANGE_BODY @ [lit '')'']) (tf @ call_text tz ('' '' @ op @ '' '' @ v)) = None"
    by (rule match_full_none, use assms(1) [unfolded in_time_funcs] in \<open>elim insertE emptyE\<close>) (simp_all add: regex_run)
qed

section \<open>A built condition is read back\<close>

text \<open>Conditions as the editor keeps them once normalised, with plain texts: a path or time zone that is
  not empty, a value that is trimmed, and a number where one is needed.\<close>

definition plain_value :: "string \<Rightarrow> bool" where
  "plain_value v \<longleftrightarrow> js_trim v = v \<and> list_all plain_char v"

fun cond_ok :: "request_condition \<Rightarrow> bool" where
  "cond_ok (TimeC c) \<longleftrightarrow> tm_timeFunc c \<in> set TIME_FUNCS \<and> tm_timezone c \<noteq> [] \<and> list_all plain_char (tm_timezone c) \<and>
     (if tm_mode c = ''range'' then is_numeric (tm_rangeStart c) \<and> is_numeric (tm_rangeEnd c) \<and> tm_value c = []
      else tm_mode c \<in> {''eq'', ''gte'', ''lt''} \<and> is_numeric (tm_value c) \<and> tm_rangeStart c = [] \<and> tm_rangeEnd c = [])"
| "cond_ok (SourceC c) \<longleftrightarrow> sc_source c \<in> {''param'', ''header''} \<and> sc_path c \<noteq> [] \<and> plain_value (sc_path c) \<and>
     (if sc_mode c = ''exists'' then sc_value c = []
      else if sc_mode c \<in> {''gt'', ''gte'', ''lt'', ''lte''} then sc_source c = ''param'' \<and> is_numeric (sc_value c)
      else sc_mode c \<in> {''eq'', ''contains''} \<and> plain_value (sc_value c))"

lemma cond_ok_normal: "cond_ok c \<Longrightarrow> normalizeRequestCondition c = c"
proof (cases c)
  case (TimeC t)
  assume "cond_ok c"
  then show ?thesis using TimeC
    by (cases t) (auto simp: isTimeFunc_def or_str_def getRequestRuleMatchOptions_def split: if_splits)
next
  case (SourceC t)
  assume "cond_ok c"
  then show ?thesis using SourceC
    by (cases t) (auto simp: getRequestRuleMatchOptions_def Let_def split: if_splits)
qed

lemma numeric_trim: "is_numeric v \<Longrightarrow> js_trim v = v"
proof -
  assume n: "is_numeric v"
  have "\<not> is_ws (hd v)" "\<not> is_ws (last v)"
    using numeric_chars [OF n] numeric_not_empty [OF n] num_char_plain by (auto simp: list_all_iff)
  then show ?thesis by (simp add: trim_by_eq_iff)
qed

lemma quoted_show: "list_all plain_char v \<Longrightarrow> show_json_string v = quoted v"
  by (simp add: show_plain quoted_def)

lemma quoted_parse: "list_all plain_char v \<Longrightarrow> json_parse (quoted v) = Some (JStr v)"
proof -
  assume p: "list_all plain_char v"
  have "json_parse (json_stringify (JStr v)) = Some (JStr v)" by (rule compact.parse_print) simp
  then show ?thesis using quoted_show [OF p] by (simp only: show_json_string_def)
qed

lemma quoted_facts:
  assumes "list_all plain_char v"
  shows "quoted v \<noteq> []" "js_trim (quoted v) = quoted v" "\<not> is_numeric (quoted v)" "list_all no_newline (quoted v)"
    "quoted v \<noteq> ''true''" "quoted v \<noteq> ''false''"
proof -
  show "js_trim (quoted v) = quoted v" by (rule trim_by_id) (simp add: quoted_def is_ws_def)
  show "\<not> is_numeric (quoted v)" using numeric_chars [of "quoted v"] not_num_char(3) by (auto simp: quoted_def)
  have "no_newline quote_char" by (simp add: no_newline_def)
  then show "list_all no_newline (quoted v)" using assms plain_no_newline by (simp add: quoted_def list_all_iff)
qed (simp_all add: quoted_def)

lemma num_no_newline: "list_all num_char v \<Longrightarrow> list_all no_newline v"
  using not_num_char(4,5) by (auto simp: list_all_iff no_newline_def)

lemma literal_read:
  assumes "plain_value v"
  shows "parseExprLiteral (buildExprLiteral ''eq'' v) = Some (JStr v)" "list_all no_newline (buildExprLiteral ''eq'' v)"
    "buildExprLiteral ''eq'' v \<noteq> []"
proof -
  have t: "js_trim v = v" and p: "list_all plain_char v" using assms by (simp_all add: plain_value_def)
  have b: "buildExprLiteral ''eq'' v = (if v = ''true'' \<or> v = ''false'' \<or> is_numeric v then v else quoted v)"
    by (simp add: buildExprLiteral_def t quoted_show [OF p])
  have tf: "js_trim ''true'' = ''true''" "js_trim ''false'' = ''false''" by code_simp+
  note q = quoted_facts [OF p] quoted_parse [OF p]
  show "parseExprLiteral (buildExprLiteral ''eq'' v) = Some (JStr v)"
    unfolding b by (auto simp: parseExprLiteral_def Let_def t tf q)
  have "list_all no_newline v" using p plain_no_newline by (simp add: list_all_iff)
  then show "list_all no_newline (buildExprLiteral ''eq'' v)" using q(4) unfolding b by simp
  show "buildExprLiteral ''eq'' v \<noteq> []" unfolding b using q(1) numeric_not_empty by auto
qed

lemma build_time_text:
  assumes "cond_ok (TimeC c)"
  shows "buildRequestConditionExpr (TimeC c) =
    (if tm_mode c = ''range'' then range_text (tm_timeFunc c) (tm_timezone c) (tm_rangeStart c) (tm_rangeEnd c)
     else tm_timeFunc c @ call_text (tm_timezone c) ('' '' @ time_op (tm_mode c) @ '' '' @ tm_value c))"
proof -
  have q: "show_json_string (tm_timezone c) = quoted (tm_timezone c)" using assms by (simp add: quoted_show)
  have "buildRequestConditionExpr (TimeC c) = build_time c"
    unfolding buildRequestConditionExpr_def cond_ok_normal [OF assms] by simp
  then show ?thesis using assms
    by (auto simp: build_time_def Let_def q range_text_def call_text_def quoted_def numeric_trim split: if_splits)
qed

lemma read_time:
  assumes ok: "cond_ok (TimeC c)"
  shows "tryParseTimeCondition (buildRequestConditionExpr (TimeC c)) = Some (TimeC c)"
    and "tm_mode c = ''range'' \<Longrightarrow> tryParseTimeCondition (''('' @ buildRequestConditionExpr (TimeC c) @ '')'') = Some (TimeC c)"
proof -
  have tz: "tm_timeFunc c \<in> set TIME_FUNCS" "list_all not_quote (tm_timezone c)" "tm_timezone c \<noteq> []"
    using ok by (auto intro: list_all_not_quote)
  have "tryParseTimeCondition (buildRequestConditionExpr (TimeC c)) = Some (TimeC c) \<and>
      tryParseTimeCondition (''('' @ buildRequestConditionExpr (TimeC c) @ '')'') = Some (TimeC c)" if "tm_mode c = ''range''"
  proof -
    have n: "list_all num_char (tm_rangeStart c)" "tm_rangeStart c \<noteq> []" "list_all num_char (tm_rangeEnd c)" "tm_rangeEnd c \<noteq> []"
      using ok that by (auto simp: numeric_chars numeric_not_empty)
    note r = range_match [OF tz n]
    have b: "buildRequestConditionExpr (TimeC c) = range_text (tm_timeFunc c) (tm_timezone c) (tm_rangeStart c) (tm_rangeEnd c)"
      by (simp only: build_time_text [OF ok] that if_True simp_thms)
    show ?thesis
      using r that ok unfolding b tryParseTimeCondition_def by (cases c) (auto simp: range_condition_def)
  qed
  moreover have "tryParseTimeCondition (buildRequestConditionExpr (TimeC c)) = Some (TimeC c)" if "tm_mode c \<noteq> ''range''"
  proof -
    have n: "list_all num_char (tm_value c)" "tm_value c \<noteq> []" using ok that by (auto simp: numeric_chars numeric_not_empty)
    have m: "tm_mode c \<in> {''eq'', ''gte'', ''lt''}" using ok that by (simp split: if_splits)
    then have op: "time_op (tm_mode c) \<in> {''=='', ''>='', ''<''}" "or_default (map_of TIME_OPS (time_op (tm_mode c))) ''eq'' = tm_mode c"
      by (auto simp: time_op_def TIME_OPS_def or_default_def or_str_def)
    note r = time_match [OF tz n op(1)]
    have b: "buildRequestConditionExpr (TimeC c) = tm_timeFunc c @ call_text (tm_timezone c) ('' '' @ time_op (tm_mode c) @ '' '' @ tm_value c)"
      by (simp only: build_time_text [OF ok] that if_False simp_thms)
    show ?thesis
      using r that ok op(2) unfolding b tryParseTimeCondition_def by (cases c) auto
  qed
  ultimately show "tryParseTimeCondition (buildRequestConditionExpr (TimeC c)) = Some (TimeC c)"
    "tm_mode c = ''range'' \<Longrightarrow> tryParseTimeCondition (''('' @ buildRequestConditionExpr (TimeC c) @ '')'') = Some (TimeC c)"
    by blast+
qed

lemma build_source_text:
  assumes "cond_ok (SourceC c)"
  shows "buildRequestConditionExpr (SourceC c) =
    (let s = sc_source c; path = sc_path c; v = sc_value c; mode = sc_mode c
     in if mode = ''exists'' then s @ call_text path (if s = ''header'' then '' != '' @ [quote_char, quote_char] else '' != nil'')
        else if mode = ''contains'' then
          (if s = ''header'' then ''has('' @ s @ call_text path ('', '' @ quoted v @ '')'')
           else s @ call_text path ('' != nil && has(param'' @ call_text path ('', '' @ quoted v @ '')'')))
        else if mode = ''eq'' then s @ call_text path ('' == '' @ buildExprLiteral ''eq'' v)
        else s @ call_text path ('' != nil && param'' @ call_text path ('' '' @ compare_op mode @ '' '' @ v)))"
proof -
  have path: "js_trim (sc_path c) = sc_path c" "show_json_string (sc_path c) = quoted (sc_path c)" "sc_path c \<noteq> []"
    using assms by (auto simp: plain_value_def quoted_show)
  have v: "buildExprLiteral ''contains'' (sc_value c) = quoted (sc_value c)" if "sc_mode c = ''contains''"
    using assms that by (auto simp: plain_value_def buildExprLiteral_def quoted_show)
  have "buildRequestConditionExpr (SourceC c) = build_source c"
    unfolding buildRequestConditionExpr_def cond_ok_normal [OF assms] by simp
  then show ?thesis using assms v
    by (auto simp: build_source_def Let_def path call_text_def quoted_def numeric_trim split: if_splits)
qed

lemma exists_param_has:
  assumes "list_all not_quote path" and "path \<noteq> []"
  shows "match_full PARAM_EXISTS (''param'' @ call_text path ('' != nil && has(param'' @ rest)) = None"
  by (rule match_full_none) (use assms in \<open>simp add: call_defs regex_run not_quote_def\<close>)

lemma has_header_no_match:
  "tryParseTimeCondition (''has('' @ rest) = None" "match_full HEADER_EXISTS (''has('' @ rest) = None"
  "match_full PARAM_EXISTS (''has('' @ rest) = None"
proof -
  show "tryParseTimeCondition (''has('' @ rest) = None" by (rule time_needs_name) (simp_all add: TIME_FUNCS_def)
qed (rule match_full_none, simp add: call_defs regex_run)+

lemma source_modes:
  assumes "cond_ok (SourceC c)"
  shows "list_all plain_char (sc_path c)" "sc_path c \<noteq> []" "sc_source c = ''header'' \<or> sc_source c = ''param''"
    "(sc_mode c = ''exists'' \<and> sc_value c = []) \<or> (sc_mode c = ''contains'' \<and> list_all plain_char (sc_value c)) \<or>
     (sc_mode c = ''eq'' \<and> plain_value (sc_value c)) \<or>
     (sc_mode c \<in> {''gt'', ''gte'', ''lt'', ''lte''} \<and> sc_source c = ''param'' \<and> is_numeric (sc_value c))"
proof -
  note ok = assms [unfolded cond_ok.simps]
  show "list_all plain_char (sc_path c)" "sc_path c \<noteq> []" using ok by (simp_all add: plain_value_def)
  show "sc_source c = ''header'' \<or> sc_source c = ''param''" using ok by blast
  from ok have m: "if sc_mode c = ''exists'' then sc_value c = []
      else if sc_mode c \<in> {''gt'', ''gte'', ''lt'', ''lte''} then sc_source c = ''param'' \<and> is_numeric (sc_value c)
      else sc_mode c \<in> {''eq'', ''contains''} \<and> plain_value (sc_value c)" by (elim conjE)
  show "(sc_mode c = ''exists'' \<and> sc_value c = []) \<or> (sc_mode c = ''contains'' \<and> list_all plain_char (sc_value c)) \<or>
     (sc_mode c = ''eq'' \<and> plain_value (sc_value c)) \<or>
     (sc_mode c \<in> {''gt'', ''gte'', ''lt'', ''lte''} \<and> sc_source c = ''param'' \<and> is_numeric (sc_value c))"
  proof (cases "sc_mode c = ''exists''")
    case False
    note m1 = m [unfolded if_not_P [OF False]]
    show ?thesis
    proof (cases "sc_mode c \<in> {''gt'', ''gte'', ''lt'', ''lte''}")
      case True
      show ?thesis using m1 [unfolded if_P [OF True]] True by blast
    next
      case F: False
      show ?thesis using m1 [unfolded if_not_P [OF F]] unfolding plain_value_def by blast
    qed
  qed (use m in simp)
qed

lemma read_source:
  assumes ok: "cond_ok (SourceC c)"
  shows "tryParseRequestCondition (buildRequestConditionExpr (SourceC c)) = Found (SourceC c)"
proof -
  obtain s path mode v where c: "c = \<lparr>sc_source = s, sc_path = path, sc_mode = mode, sc_value = v\<rparr>" by (cases c)
  note modes = source_modes [OF ok, unfolded c param_header_condition.simps]
  note p = modes(1,2) and s = modes(3)
  have nq: "list_all not_quote path" by (rule list_all_not_quote [OF p(1)])
  note h = header_no_match [OF nq p(2)] and q = param_no_match [OF nq p(2)] and build = build_source_text [OF ok]
  consider (exists) "mode = ''exists''" "v = []" | (contains) "mode = ''contains''" "list_all plain_char v"
    | (eq) "mode = ''eq''" "plain_value v"
    | (compare) "mode \<in> {''gt'', ''gte'', ''lt'', ''lte''}" "s = ''param''" "is_numeric v"
    using modes(4) by (elim disjE conjE)
  then show ?thesis
  proof cases
    case exists
    note m = exists_match [OF nq p(2)] and grp1 = grp_def [of "[1 \<mapsto> path]" 1]
    from s show ?thesis
    proof
      assume s: "s = ''header''"
      have b: "buildRequestConditionExpr (SourceC c) = ''header'' @ call_text path ('' != '' @ [quote_char, quote_char])"
        unfolding build by (simp add: c exists s)
      show ?thesis unfolding b tryParseRequestCondition_def h(6) m(1) option.case
        by (simp add: grp_def source_condition_def c s exists)
    next
      assume s: "s = ''param''"
      have b: "buildRequestConditionExpr (SourceC c) = ''param'' @ call_text path '' != nil''"
        unfolding build by (simp add: c exists s)
      show ?thesis unfolding b tryParseRequestCondition_def q(1,6) m(2) option.case
        by (simp add: grp_def source_condition_def c s exists)
    qed
  next
    case contains
    note m = has_match [OF p contains(2)] and js = quoted_parse [OF contains(2)]
    from s show ?thesis
    proof
      assume s: "s = ''header''"
      have b: "buildRequestConditionExpr (SourceC c) = ''has('' @ ''header'' @ call_text path ('', '' @ quoted v @ '')'')"
        unfolding build by (simp add: c contains(1) s)
      from m(1) obtain g where g: "match_full HEADER_HAS (''has('' @ ''header'' @ call_text path ('', '' @ quoted v @ '')'')) = Some g"
        "grp g 1 = path" "grp g 2 = quoted v" by blast
      show ?thesis unfolding b tryParseRequestCondition_def has_header_no_match g has_condition_def js option.case
        by (simp add: source_condition_def contains(1) s c)
    next
      assume s: "s = ''param''"
      have b: "buildRequestConditionExpr (SourceC c) =
          ''param'' @ call_text path ('' != nil && has(param'' @ call_text path ('', '' @ quoted v @ '')''))"
        unfolding build by (simp add: c contains(1) s)
      from m(2) obtain g where g: "match_full PARAM_HAS (''param'' @ call_text path ('' != nil && has(param'' @ call_text path ('', '' @ quoted v @ '')''))) = Some g"
        "grp g 1 = path" "grp g 2 = path" "grp g 3 = quoted v" by blast
      show ?thesis
        unfolding b tryParseRequestCondition_def read_param_has_def q(1,2,6) exists_param_has [OF nq p(2)] g
          has_condition_def js option.case
        by (simp add: source_condition_def contains(1) s c)
    qed
  next
    case eq
    note l = literal_read [OF eq(2)] and m = equals_match [OF nq p(2) literal_read(2,3) [OF eq(2)]]
    have b: "buildRequestConditionExpr (SourceC c) = s @ call_text path ('' == '' @ buildExprLiteral ''eq'' v)"
      unfolding build by (simp add: c eq(1))
    from s show ?thesis
    proof
      assume s: "s = ''header''"
      from m(1) obtain g where g: "match_full SOURCE_EQUALS (''header'' @ call_text path ('' == '' @ buildExprLiteral ''eq'' v)) = Some g"
        "grp g 1 = ''header''" "grp g 2 = path" "grp g 3 = buildExprLiteral ''eq'' v" by blast
      show ?thesis
        unfolding b s tryParseRequestCondition_def read_param_has_def read_compare_def read_equals_def h g l(1) option.case
        by (simp add: source_condition_def c s eq(1))
    next
      assume s: "s = ''param''"
      from m(2) obtain g where g: "match_full SOURCE_EQUALS (''param'' @ call_text path ('' == '' @ buildExprLiteral ''eq'' v)) = Some g"
        "grp g 1 = ''param''" "grp g 2 = path" "grp g 3 = buildExprLiteral ''eq'' v" by blast
      show ?thesis
        unfolding b s tryParseRequestCondition_def read_param_has_def read_compare_def read_equals_def q g l(1) option.case
        by (simp add: source_condition_def c s eq(1))
    qed
  next
    case compare
    have n: "list_all num_char v" "v \<noteq> []" using compare(3) by (simp_all add: numeric_chars numeric_not_empty)
    note m = compare_match [OF nq p(2) n compare(1)]
    have ne: "mode \<noteq> ''exists''" "mode \<noteq> ''contains''" "mode \<noteq> ''eq''" using compare(1) by auto
    have b: "buildRequestConditionExpr (SourceC c) =
        ''param'' @ call_text path ('' != nil && param'' @ call_text path ('' '' @ compare_op mode @ '' '' @ v))"
      unfolding build by (simp add: c compare(2) ne)
    have op: "or_default (map_of COMPARE_OPS (compare_op mode)) [] = mode"
      using compare(1) by (auto simp: compare_op_def COMPARE_OPS_def or_default_def or_str_def)
    from m(1) obtain g where g: "match_full PARAM_COMPARE (''param'' @ call_text path ('' != nil && param'' @ call_text path ('' '' @ compare_op mode @ '' '' @ v))) = Some g"
      "grp g 1 = path" "grp g 2 = path" "grp g 3 = compare_op mode" "grp g 4 = v" by blast
    show ?thesis
      unfolding b tryParseRequestCondition_def read_param_has_def read_compare_def q(1,2,6) m(2,3) g op option.case
      by (simp add: source_condition_def compare(2) c)
  qed
qed

lemma condition_read:
  assumes "cond_ok c"
  shows "tryParseRequestCondition (buildRequestConditionExpr c) = Found c"
  using assms read_time(1) read_source by (cases c) (auto simp: tryParseRequestCondition_def)

end
