(* ===== verification/BillingRules.thy ===== *)
theory BillingRules
  imports BillingExprFacts
begin

text \<open>
  Request rules as texts: what the reader makes of the rules that the editor built, and what taking a
  billing expression apart makes of a price expression joined with them.
\<close>

section \<open>Splitting at the top level\<close>

definition bal :: "string \<Rightarrow> int" where
  "bal s = foldl depth_step 0 s"

lemma foldl_depth: "foldl depth_step d s = d + bal s"
proof (induction s arbitrary: d)
  case (Cons c s)
  have "foldl depth_step d (c # s) = depth_step d c + bal s" using Cons.IH [of "depth_step d c"] by simp
  moreover have "bal (c # s) = depth_step 0 c + bal s" using Cons.IH [of "depth_step 0 c"] by (simp add: bal_def)
  moreover have "depth_step d c = d + depth_step 0 c" by (simp add: depth_step_def)
  ultimately show ?case by simp
qed (simp add: bal_def)

lemma bal_append [simp]: "bal (s @ t) = bal s + bal t"
  by (metis bal_def foldl_append foldl_depth)

lemma bal_Nil [simp]: "bal [] = 0"
  by (simp add: bal_def)

lemma bal_Cons: "bal (c # s) = depth_step 0 c + bal s"
  using bal_append [of "[c]" s] by (simp add: bal_def)

text \<open>A text in which no separator \<open> x...\<close> begins.\<close>

lemma split_top_skip:
  assumes "sep = CHR '' '' # x # sep'" and "x \<notin> set e" and "e = [] \<or> last e \<noteq> CHR '' ''"
  shows "split_top sep d part (e @ t) = split_top sep (d + bal e) (part @ e) t"
  using assms(2,3)
proof (induction e arbitrary: d part)
  case (Cons c e)
  have "\<not> prefix sep (c # e @ t)" using Cons.prems assms(1) by (cases e) auto
  then have "split_top sep d part ((c # e) @ t) = split_top sep (depth_step d c) (part @ [c]) (e @ t)"
    by (simp add: depth_step_def)
  also have "\<dots> = split_top sep (depth_step d c + bal e) (part @ c # e) t"
    using Cons.IH [of "depth_step d c" "part @ [c]"] Cons.prems by (auto split: if_splits)
  also have "depth_step d c + bal e = d + bal (c # e)" by (simp add: bal_Cons depth_step_def)
  finally show ?case .
qed simp

lemma split_top_sep:
  assumes "sep = CHR '' '' # x # sep'"
  shows "split_top sep 0 part (sep @ t) = part # split_top sep 0 [] t"
  by (simp add: assms)

lemma split_top_join:
  assumes sep: "sep = CHR '' '' # x # sep'" and "es \<noteq> []"
    and "\<forall>e \<in> set es. x \<notin> set e \<and> (e = [] \<or> last e \<noteq> CHR '' '') \<and> bal e = 0"
  shows "split_top sep 0 [] (js_join sep es) = es"
  using assms(2,3)
proof (induction es)
  case (Cons e es)
  have e: "split_top sep 0 [] (e @ t) = split_top sep 0 e t" for t
    using split_top_skip [OF sep, of e 0 "[]" t] Cons.prems by simp
  show ?case
  proof (cases es)
    case Nil
    then show ?thesis using e [of "[]"] by simp
  next
    case (Cons f fs)
    then have "js_join sep (e # es) = e @ sep @ js_join sep es" by simp
    then show ?thesis using Cons.IH Cons.prems Cons by (simp only: e split_top_sep [OF sep]) simp
  qed
qed simp

lemma split_parts_join:
  assumes "sep = CHR '' '' # x # sep'" and "es \<noteq> []"
    and "\<forall>e \<in> set es. x \<notin> set e \<and> bal e = 0 \<and> e \<noteq> [] \<and> js_trim e = e"
  shows "split_parts sep (js_join sep es) = es"
proof -
  have "last e \<noteq> CHR '' ''" if "e \<in> set es" for e
  proof -
    have "\<not> is_ws (last e)" using assms(3) that trim_by_eq_iff [of is_ws e] by blast
    then show ?thesis by (auto simp: is_ws_def)
  qed
  then have "split_top sep 0 [] (js_join sep es) = es" using assms by (intro split_top_join) auto
  moreover have "map js_trim es = es" using assms(3) by (simp add: map_idI)
  moreover have "filter nonempty es = es" using assms(3) by (simp add: filter_id_conv)
  ultimately show ?thesis by (simp add: split_parts_def)
qed

lemma js_join_concat:
  "\<forall>xs \<in> set xss. xs \<noteq> [] \<Longrightarrow> js_join sep (map (js_join sep) xss) = js_join sep (concat xss)"
proof (induction xss)
  case (Cons xs xss)
  have app: "ys \<noteq> [] \<Longrightarrow> xs \<noteq> [] \<Longrightarrow> js_join sep (xs @ ys) = js_join sep xs @ sep @ js_join sep ys" for xs ys :: "'a list list"
    by (induction xs) (simp_all add: js_join_Cons)
  show ?case
  proof (cases "xss = []")
    case False
    then have "concat xss \<noteq> []" using Cons.prems by (cases xss) auto
    with False Cons show ?thesis by (simp add: js_join_Cons [of sep "js_join sep xs"] app)
  qed simp
qed simp

section \<open>Texts without separators\<close>

definition text_ok :: "string \<Rightarrow> bool" where
  "text_ok s \<longleftrightarrow> CHR ''&'' \<notin> set s \<and> CHR ''*'' \<notin> set s \<and> bal s = 0"

lemma text_ok_append: "text_ok s \<Longrightarrow> text_ok t \<Longrightarrow> text_ok (s @ t)"
  by (simp add: text_ok_def)

lemma bal_none: "CHR ''('' \<notin> set s \<Longrightarrow> CHR '')'' \<notin> set s \<Longrightarrow> bal s = 0"
  by (induction s) (auto simp: bal_Cons depth_step_def)

lemma text_ok_plain: "list_all plain_char v \<Longrightarrow> text_ok v"
proof -
  assume "list_all plain_char v"
  then have "d \<notin> set v" if "d \<in> set ''()&*|''" for d using that by (auto simp: list_all_iff plain_char_def)
  then show ?thesis by (simp add: text_ok_def bal_none)
qed

lemma num_char_not: "\<not> num_char CHR ''('' \<and> \<not> num_char CHR '')'' \<and> \<not> num_char CHR ''&'' \<and> \<not> num_char CHR ''*'' \<and> \<not> num_char CHR ''|''"
  by (simp add: num_char_def is_digit_def)

lemma text_ok_num: "list_all num_char v \<Longrightarrow> text_ok v"
  using num_char_not by (auto simp: text_ok_def list_all_iff intro!: bal_none)

lemma text_ok_call: "list_all plain_char v \<Longrightarrow> text_ok t \<Longrightarrow> text_ok (call_text v t)"
proof -
  assume "list_all plain_char v" "text_ok t"
  moreover have "call_text v t = [CHR ''('', quote_char] @ v @ [quote_char, CHR '')''] @ t" by (simp add: call_text_def)
  ultimately show ?thesis using text_ok_plain [of v] by (simp add: text_ok_def bal_Cons depth_step_def)
qed

lemma text_ok_quoted: "list_all plain_char v \<Longrightarrow> text_ok (quoted v)"
  using text_ok_plain [of v] by (simp add: text_ok_def quoted_def bal_Cons depth_step_def)

lemma text_ok_lit:
  "text_ok '' != nil''" "text_ok '' == ''" "text_ok ('' != '' @ [quote_char, quote_char])" "text_ok '', ''" "text_ok '' || ''"
  "text_ok '' >= ''" "text_ok '' < ''" "text_ok '' ''" "text_ok ''header''" "text_ok ''param''" "text_ok []"
  by (simp_all add: text_ok_def bal_Cons depth_step_def TIME_FUNCS_def)

lemma text_ok_op: "op \<in> {''=='', ''>='', ''<'', ''>'', ''<=''} \<Longrightarrow> text_ok op"
  by (auto simp: text_ok_def bal_Cons depth_step_def)

lemma text_ok_fn: "tf \<in> set TIME_FUNCS \<Longrightarrow> text_ok tf"
  by (auto simp: text_ok_def bal_Cons depth_step_def TIME_FUNCS_def)

lemma text_ok_paren: "text_ok s \<Longrightarrow> text_ok (''('' @ s @ '')'')"
  by (simp add: text_ok_def bal_Cons depth_step_def)

lemma text_ok_has: "text_ok s \<Longrightarrow> text_ok (''has('' @ s @ '')'')"
  by (simp add: text_ok_def bal_Cons depth_step_def)

section \<open>The conjuncts of a condition\<close>

text \<open>Conditions whose text is no conjunction. A number is compared, and a parameter searched, only
  where the parameter is there, and that test is a conjunct of its own.\<close>

fun readable :: "request_condition \<Rightarrow> bool" where
  "readable (TimeC c) \<longleftrightarrow> True"
| "readable (SourceC c) \<longleftrightarrow> \<not> (sc_source c = ''param'' \<and> sc_mode c \<in> {''contains'', ''gt'', ''gte'', ''lt'', ''lte''})"

fun conjuncts :: "request_condition \<Rightarrow> string list" where
  "conjuncts (TimeC c) = [wrap_or (buildRequestConditionExpr (TimeC c))]"
| "conjuncts (SourceC c) =
     (if readable (SourceC c) then [buildRequestConditionExpr (SourceC c)]
      else [''param'' @ call_text (sc_path c) '' != nil'',
        if sc_mode c = ''contains'' then ''has('' @ (''param'' @ call_text (sc_path c) ('', '' @ quoted (sc_value c))) @ '')''
        else ''param'' @ call_text (sc_path c) ('' '' @ compare_op (sc_mode c) @ '' '' @ sc_value c)])"

declare conjuncts.simps [simp del]

definition part_ok :: "string \<Rightarrow> bool" where
  "part_ok s \<longleftrightarrow> text_ok s \<and> s \<noteq> [] \<and> \<not> is_ws (hd s) \<and> \<not> is_ws (last s)"

lemma part_trim: "part_ok s \<Longrightarrow> js_trim s = s"
  by (simp add: part_ok_def trim_by_eq_iff)

lemma num_last: "list_all num_char v \<Longrightarrow> v \<noteq> [] \<Longrightarrow> \<not> is_ws (last v)"
  using num_char_plain by (auto simp: list_all_iff)

lemma no_bar:
  assumes "CHR ''|'' \<notin> set s" shows "wrap_or s = s"
proof -
  have "\<not> js_includes s '' || ''" using assms
  proof (induction s)
    case (Cons c s)
    then have "\<not> prefix '' || '' (c # s)" by (auto simp: prefix_def)
    with Cons show ?case by simp
  qed simp
  then show ?thesis by (simp add: wrap_or_def)
qed

lemma time_part:
  assumes "cond_ok (TimeC c)"
  shows "part_ok (buildRequestConditionExpr (TimeC c))" "tm_mode c \<noteq> ''range'' \<Longrightarrow> CHR ''|'' \<notin> set (buildRequestConditionExpr (TimeC c))"
proof -
  have tz: "list_all plain_char (tm_timezone c)" and tf: "tm_timeFunc c \<in> set TIME_FUNCS" using assms by auto
  have hd: "tm_timeFunc c \<noteq> []" "\<not> is_ws (hd (tm_timeFunc c))" "CHR ''|'' \<notin> set (tm_timeFunc c)"
    using tf by (auto simp: TIME_FUNCS_def is_ws_def)
  have b: "CHR ''|'' \<notin> set (tm_timezone c)" using tz by (auto simp: plain_char_def list_all_iff)
  have "part_ok (buildRequestConditionExpr (TimeC c)) \<and>
      (tm_mode c \<noteq> ''range'' \<longrightarrow> CHR ''|'' \<notin> set (buildRequestConditionExpr (TimeC c)))"
  proof (cases "tm_mode c = ''range''")
    case True
    have n: "list_all num_char (tm_rangeStart c)" "list_all num_char (tm_rangeEnd c)" "tm_rangeEnd c \<noteq> []"
      using assms True by (auto simp: numeric_chars numeric_not_empty)
    have "text_ok (buildRequestConditionExpr (TimeC c))"
      unfolding build_time_text [OF assms] if_P [OF True] range_text_def
      by (intro text_ok_append text_ok_call tz text_ok_fn [OF tf] text_ok_lit text_ok_num [OF n(1)] text_ok_num [OF n(2)])
    then show ?thesis using hd n num_last [OF n(2,3)] True
      by (simp add: build_time_text [OF assms] part_ok_def range_text_def call_text_def)
  next
    case False
    have n: "list_all num_char (tm_value c)" "tm_value c \<noteq> []"
      using assms False by (auto simp: numeric_chars numeric_not_empty)
    have op: "time_op (tm_mode c) \<in> {''=='', ''>='', ''<'', ''>'', ''<=''}"
      using assms False by (auto simp: time_op_def or_default_def or_str_def)
    have "text_ok (buildRequestConditionExpr (TimeC c))"
      unfolding build_time_text [OF assms] if_not_P [OF False]
      by (intro text_ok_append text_ok_call tz text_ok_fn [OF tf] text_ok_lit text_ok_num [OF n(1)] text_ok_op [OF op])
    moreover have "CHR ''|'' \<notin> set (time_op (tm_mode c))" using op by auto
    moreover have "CHR ''|'' \<notin> set (tm_value c)" using n num_char_not by (auto simp: list_all_iff)
    ultimately show ?thesis using hd b n num_last [OF n] False
      by (simp add: build_time_text [OF assms] part_ok_def call_text_def)
  qed
  then show "part_ok (buildRequestConditionExpr (TimeC c))"
    "tm_mode c \<noteq> ''range'' \<Longrightarrow> CHR ''|'' \<notin> set (buildRequestConditionExpr (TimeC c))" by blast+
qed

lemma literal_text:
  assumes "plain_value v"
  shows "list_all plain_char v \<and> buildExprLiteral ''eq'' v \<in> {v, quoted v}" "part_ok (buildExprLiteral ''eq'' v)"
    "CHR ''|'' \<notin> set (buildExprLiteral ''eq'' v)"
proof -
  have t: "js_trim v = v" and p: "list_all plain_char v" using assms by (simp_all add: plain_value_def)
  show l: "list_all plain_char v \<and> buildExprLiteral ''eq'' v \<in> {v, quoted v}"
    using p by (auto simp: buildExprLiteral_def Let_def t quoted_show)
  have ends: "\<not> is_ws quote_char" by (simp add: is_ws_def)
  have v: "part_ok v" if "v \<noteq> []"
    using t that trim_by_eq_iff [of is_ws v] text_ok_plain [OF p] unfolding part_ok_def by blast
  have q: "part_ok (quoted v)"
    using text_ok_quoted [OF p] ends by (simp add: part_ok_def quoted_def)
  show "part_ok (buildExprLiteral ''eq'' v)"
    using l literal_read(3) [OF assms] v q by (elim conjE insertE emptyE) simp_all
  have "CHR ''|'' \<notin> set v" using p by (auto simp: list_all_iff plain_char_def)
  then have "CHR ''|'' \<notin> set (quoted v)" by (simp add: quoted_def)
  with \<open>CHR ''|'' \<notin> set v\<close> show "CHR ''|'' \<notin> set (buildExprLiteral ''eq'' v)"
    using l by (elim conjE insertE emptyE) simp_all
qed

lemma source_start:
  assumes "s = ''header'' \<or> s = ''param''" and "text_ok (s @ t)" and "t \<noteq> []" and "\<not> is_ws (last t)"
  shows "part_ok (s @ t)"
  using assms by (auto simp: part_ok_def is_ws_def)


definition clean :: "string \<Rightarrow> bool" where
  "clean p \<longleftrightarrow> part_ok p \<and> CHR ''|'' \<notin> set p"

lemma not_ws_ends: "\<not> is_ws CHR '')''" "\<not> is_ws quote_char" "\<not> is_ws CHR ''l''" "\<not> is_ws CHR ''h''" "\<not> is_ws CHR ''p''"
  by (simp_all add: is_ws_def)

lemma call_clean:
  assumes s: "s = ''header'' \<or> s = ''param''" and path: "list_all plain_char path"
    and t: "text_ok t" "t \<noteq> []" "\<not> is_ws (last t)" "CHR ''|'' \<notin> set t"
  shows "clean (s @ call_text path t)"
proof -
  have "text_ok s" "s \<noteq> []" "\<not> is_ws (hd s)" "CHR ''|'' \<notin> set s" using s text_ok_lit not_ws_ends by auto
  moreover have "CHR ''|'' \<notin> set path" using path by (auto simp: list_all_iff plain_char_def)
  moreover have "last (s @ call_text path t) = last t" using t(2) by (simp add: call_text_def)
  moreover have "text_ok (s @ call_text path t)" by (intro text_ok_append text_ok_call path t(1) calculation(1))
  ultimately show ?thesis using t by (simp add: clean_def part_ok_def call_text_def)
qed

lemma exists_clean:
  assumes "list_all plain_char path"
  shows "clean (''param'' @ call_text path '' != nil'')" "clean (''header'' @ call_text path ('' != '' @ [quote_char, quote_char]))"
  using call_clean [OF _ assms text_ok_lit(1), of "''param''"] call_clean [OF _ assms text_ok_lit(3), of "''header''"] not_ws_ends
  by simp_all

lemma equals_clean:
  assumes "s = ''header'' \<or> s = ''param''" and "list_all plain_char path" and "plain_value v"
  shows "clean (s @ call_text path ('' == '' @ buildExprLiteral ''eq'' v))"
proof -
  note l = literal_text [OF assms(3)]
  have t: "text_ok (buildExprLiteral ''eq'' v)" "buildExprLiteral ''eq'' v \<noteq> []" "\<not> is_ws (last (buildExprLiteral ''eq'' v))"
    using l(2) by (simp_all add: part_ok_def)
  show ?thesis by (rule call_clean [OF assms(1,2) text_ok_append [OF text_ok_lit(2) t(1)]]) (use t l(3) in simp_all)
qed

lemma compare_clean:
  assumes "list_all plain_char path" and "list_all num_char v" "v \<noteq> []" and op: "op \<in> {''=='', ''>='', ''<'', ''>'', ''<=''}"
  shows "clean (''param'' @ call_text path ('' '' @ op @ '' '' @ v))"
proof -
  have "CHR ''|'' \<notin> set op" "CHR ''|'' \<notin> set v" using op assms(2) num_char_not by (auto simp: list_all_iff)
  moreover have "text_ok ('' '' @ op @ '' '' @ v)" by (intro text_ok_append text_ok_lit text_ok_op [OF op] text_ok_num [OF assms(2)])
  ultimately show ?thesis using num_last [OF assms(2,3)] assms(3) by (intro call_clean assms(1)) simp_all
qed

lemma has_clean:
  assumes s: "s = ''header'' \<or> s = ''param''" and "list_all plain_char path" and "list_all plain_char v"
  shows "clean (''has('' @ (s @ call_text path ('', '' @ quoted v)) @ '')'')"
proof -
  have q: "text_ok ('', '' @ quoted v)" by (intro text_ok_append text_ok_lit text_ok_quoted assms(3))
  have "CHR ''|'' \<notin> set v" using assms(3) by (auto simp: list_all_iff plain_char_def)
  then have "clean (s @ call_text path ('', '' @ quoted v))"
    using not_ws_ends by (intro call_clean assms(1,2) q) (simp_all add: quoted_def)
  then have "text_ok (s @ call_text path ('', '' @ quoted v))" "CHR ''|'' \<notin> set (s @ call_text path ('', '' @ quoted v))"
    by (simp_all add: clean_def part_ok_def)
  then show ?thesis using text_ok_has [of "s @ call_text path ('', '' @ quoted v)"] not_ws_ends by (simp add: clean_def part_ok_def)
qed

lemma exists_conjuncts:
  assumes "cond_ok (SourceC c)" and "sc_mode c = ''exists''"
  shows "conjuncts (SourceC c) = [if sc_source c = ''header'' then ''header'' @ call_text (sc_path c) ('' != '' @ [quote_char, quote_char])
      else ''param'' @ call_text (sc_path c) '' != nil'']"
    "buildRequestConditionExpr (SourceC c) = hd (conjuncts (SourceC c))"
  using source_modes(3) [OF assms(1)] assms(2)
  by (auto simp: conjuncts.simps build_source_text [OF assms(1)])

lemma contains_conjuncts:
  assumes "cond_ok (SourceC c)" and "sc_mode c = ''contains''"
  shows "sc_source c = ''header'' \<Longrightarrow> conjuncts (SourceC c) =
      [''has('' @ (''header'' @ call_text (sc_path c) ('', '' @ quoted (sc_value c))) @ '')'']"
    "sc_source c = ''param'' \<Longrightarrow> conjuncts (SourceC c) = [''param'' @ call_text (sc_path c) '' != nil'',
      ''has('' @ (''param'' @ call_text (sc_path c) ('', '' @ quoted (sc_value c))) @ '')'']"
    "buildRequestConditionExpr (SourceC c) = js_join '' && '' (conjuncts (SourceC c))"
  using source_modes(3) [OF assms(1)] assms(2)
  by (auto simp: conjuncts.simps build_source_text [OF assms(1)] call_text_def Let_def)

lemma eq_conjuncts:
  assumes "cond_ok (SourceC c)" and "sc_mode c = ''eq''"
  shows "conjuncts (SourceC c) = [sc_source c @ call_text (sc_path c) ('' == '' @ buildExprLiteral ''eq'' (sc_value c))]"
    "buildRequestConditionExpr (SourceC c) = hd (conjuncts (SourceC c))"
  using assms(2) by (simp_all add: conjuncts.simps build_source_text [OF assms(1)])

lemma compare_conjuncts:
  assumes "cond_ok (SourceC c)" and mode: "sc_mode c \<in> {''gt'', ''gte'', ''lt'', ''lte''}" and p: "sc_source c = ''param''"
  shows "conjuncts (SourceC c) = [''param'' @ call_text (sc_path c) '' != nil'',
      ''param'' @ call_text (sc_path c) ('' '' @ compare_op (sc_mode c) @ '' '' @ sc_value c)]"
    "buildRequestConditionExpr (SourceC c) = js_join '' && '' (conjuncts (SourceC c))"
proof -
  have ne: "sc_mode c \<noteq> ''exists''" "sc_mode c \<noteq> ''contains''" "sc_mode c \<noteq> ''eq''" using mode by auto
  have r: "\<not> readable (SourceC c)" using mode p by simp
  show conj: "conjuncts (SourceC c) = [''param'' @ call_text (sc_path c) '' != nil'',
      ''param'' @ call_text (sc_path c) ('' '' @ compare_op (sc_mode c) @ '' '' @ sc_value c)]"
    unfolding conjuncts.simps if_not_P [OF r] if_not_P [OF ne(2)] by (rule refl)
  show "buildRequestConditionExpr (SourceC c) = js_join '' && '' (conjuncts (SourceC c))"
    unfolding conj build_source_text [OF assms(1)] by (simp add: ne p call_text_def Let_def)
qed

lemma compare_op_known: "mode \<in> {''gt'', ''gte'', ''lt'', ''lte''} \<Longrightarrow> compare_op mode \<in> {''=='', ''>='', ''<'', ''>'', ''<=''}"
  by (auto simp: compare_op_def or_default_def or_str_def)

lemma source_conjuncts:
  assumes ok: "cond_ok (SourceC c)"
  shows "(\<forall>p \<in> set (conjuncts (SourceC c)). clean p) \<and>
    buildRequestConditionExpr (SourceC c) = js_join '' && '' (conjuncts (SourceC c))"
proof -
  note m = source_modes [OF ok] and e = exists_clean [OF source_modes(1) [OF ok]]
  from m(4) consider (exists) "sc_mode c = ''exists''" | (contains) "sc_mode c = ''contains''" "list_all plain_char (sc_value c)"
    | (eq) "sc_mode c = ''eq''" "plain_value (sc_value c)"
    | (compare) "sc_mode c \<in> {''gt'', ''gte'', ''lt'', ''lte''}" "sc_source c = ''param''" "is_numeric (sc_value c)"
    by (elim disjE conjE)
  then show ?thesis
  proof cases
    case exists
    show ?thesis unfolding exists_conjuncts [OF ok exists] using e by simp
  next
    case contains
    show ?thesis using m(3) contains_conjuncts [OF ok contains(1)] has_clean [OF m(3,1) contains(2)] e by auto
  next
    case eq
    show ?thesis unfolding eq_conjuncts [OF ok eq(1)] using equals_clean [OF m(3,1) eq(2)] by simp
  next
    case compare
    have n: "list_all num_char (sc_value c)" "sc_value c \<noteq> []" using compare(3) by (simp_all add: numeric_chars numeric_not_empty)
    show ?thesis using compare_conjuncts [OF ok compare(1,2)] compare_clean [OF m(1) n compare_op_known [OF compare(1)]] e by simp
  qed
qed

lemma has_param_no_match:
  assumes "list_all plain_char path" and "path \<noteq> []"
  shows "tryParseRequestCondition (''has('' @ (''param'' @ call_text path ('', '' @ quoted v)) @ '')'') = NoMatch"
proof -
  have nq: "list_all not_quote path" by (rule list_all_not_quote [OF assms(1)])
  have "match_full HEADER_HAS (''has('' @ (''param'' @ call_text path ('', '' @ quoted v)) @ '')'') = None"
    "match_full PARAM_HAS (''has('' @ (''param'' @ call_text path ('', '' @ quoted v)) @ '')'') = None"
    "match_full PARAM_COMPARE (''has('' @ (''param'' @ call_text path ('', '' @ quoted v)) @ '')'') = None"
    "match_full SOURCE_EQUALS (''has('' @ (''param'' @ call_text path ('', '' @ quoted v)) @ '')'') = None"
    by (rule match_full_none, use nq assms(2) in \<open>simp add: call_defs regex_run\<close>)+
  then show ?thesis
    unfolding tryParseRequestCondition_def has_header_no_match read_param_has_def read_compare_def read_equals_def
    by (simp del: append.simps)
qed

lemma compare_alone_no_match:
  assumes "list_all plain_char path" and "path \<noteq> []" and op: "op \<in> {''>='', ''<'', ''>'', ''<=''}"
  shows "tryParseRequestCondition (''param'' @ call_text path ('' '' @ op @ '' '' @ v)) = NoMatch"
proof -
  have nq: "list_all not_quote path" by (rule list_all_not_quote [OF assms(1)])
  note q = param_no_match [OF nq assms(2)]
  have "match_full PARAM_EXISTS (''param'' @ call_text path ('' '' @ op @ '' '' @ v)) = None"
    "match_full PARAM_HAS (''param'' @ call_text path ('' '' @ op @ '' '' @ v)) = None"
    "match_full PARAM_COMPARE (''param'' @ call_text path ('' '' @ op @ '' '' @ v)) = None"
    "match_full SOURCE_EQUALS (''param'' @ call_text path ('' '' @ op @ '' '' @ v)) = None"
    by (rule match_full_none, use op nq assms(2) in \<open>elim insertE emptyE; simp add: call_defs regex_run not_quote_def\<close>)+
  then show ?thesis
    unfolding tryParseRequestCondition_def q read_param_has_def read_compare_def read_equals_def
    by (simp del: append.simps)
qed

abbreviation read_part :: "string \<Rightarrow> request_condition reading" where
  "read_part ap \<equiv> tryParseRequestCondition (js_trim ap)"

lemma clean_trim: "clean p \<Longrightarrow> js_trim p = p"
  by (simp add: clean_def part_trim)

lemma source_read_conjuncts:
  assumes ok: "cond_ok (SourceC c)"
  shows "read_all read_part (conjuncts (SourceC c)) = (if readable (SourceC c) then Found [SourceC c] else NoMatch)"
proof -
  have clean: "\<forall>p \<in> set (conjuncts (SourceC c)). js_trim p = p" using source_conjuncts [OF ok] clean_trim by blast
  show ?thesis
  proof (cases "readable (SourceC c)")
    case True
    have conj: "conjuncts (SourceC c) = [buildRequestConditionExpr (SourceC c)]"
      unfolding conjuncts.simps if_P [OF True] by (rule refl)
    have "js_trim (buildRequestConditionExpr (SourceC c)) = buildRequestConditionExpr (SourceC c)"
      using clean unfolding conj by simp
    then show ?thesis using True condition_read [OF ok] by (simp add: conj)
  next
    case False
    have p: "sc_source c = ''param''" using False by simp
    note m = source_modes [OF ok]
    have nq: "list_all not_quote (sc_path c)" by (rule list_all_not_quote [OF m(1)])
    have ex: "tryParseRequestCondition (''param'' @ call_text (sc_path c) '' != nil'') = Found (source_condition ''param'' (sc_path c) ''exists'' [])"
      unfolding tryParseRequestCondition_def param_no_match(6,1) [OF nq m(2)] exists_match(2) [OF nq m(2)] option.case
      by (simp add: grp_def)
    have "sc_mode c = ''contains'' \<or> sc_mode c \<in> {''gt'', ''gte'', ''lt'', ''lte''}" using False by simp
    then obtain B where conj: "conjuncts (SourceC c) = [''param'' @ call_text (sc_path c) '' != nil'', B]"
      and B: "tryParseRequestCondition B = NoMatch"
    proof
      assume c: "sc_mode c = ''contains''"
      show thesis by (rule that [OF contains_conjuncts(2) [OF ok c p] has_param_no_match [OF m(1,2)]])
    next
      assume c: "sc_mode c \<in> {''gt'', ''gte'', ''lt'', ''lte''}"
      then have op: "compare_op (sc_mode c) \<in> {''>='', ''<'', ''>'', ''<=''}"
        by (auto simp: compare_op_def or_default_def or_str_def)
      show thesis by (rule that [OF compare_conjuncts(1) [OF ok c p] compare_alone_no_match [OF m(1,2) op]])
    qed
    have "read_all read_part (conjuncts (SourceC c)) = NoMatch"
      using clean unfolding conj by (simp add: ex B del: append.simps)
    then show ?thesis using False by simp
  qed
qed

text \<open>A text is the conjunction of parts that are read, or not, as the condition.\<close>

definition reads_as :: "request_condition \<Rightarrow> string list \<Rightarrow> bool" where
  "reads_as c ps \<longleftrightarrow> ps \<noteq> [] \<and> (\<forall>p \<in> set ps. part_ok p) \<and>
     read_all read_part ps = (if readable c then Found [c] else NoMatch)"

lemma time_reads:
  assumes t: "cond_ok (TimeC t)"
  shows "reads_as (TimeC t) [buildRequestConditionExpr (TimeC t)]" "reads_as (TimeC t) [wrap_or (buildRequestConditionExpr (TimeC t))]"
proof -
  let ?e = "buildRequestConditionExpr (TimeC t)"
  have e: "part_ok ?e" by (rule time_part(1) [OF t])
  then show "reads_as (TimeC t) [?e]" using condition_read [OF t] part_trim [OF e] by (simp add: reads_as_def)
  have pe: "part_ok (''('' @ ?e @ '')'')" using text_ok_paren [of ?e] e by (simp add: part_ok_def is_ws_def)
  have p: "part_ok (wrap_or ?e)" using e pe by (simp add: wrap_or_def)
  have "tryParseRequestCondition (wrap_or ?e) = Found (TimeC t)"
  proof (cases "tm_mode t = ''range''")
    case True
    then show ?thesis using read_time [OF t] by (auto simp: wrap_or_def tryParseRequestCondition_def)
  next
    case False
    show ?thesis unfolding no_bar [OF time_part(2) [OF t False]] by (rule condition_read [OF t])
  qed
  then show "reads_as (TimeC t) [wrap_or ?e]" using p part_trim [OF p] by (simp add: reads_as_def)
qed

lemma condition_reads:
  assumes "cond_ok c"
  shows "\<exists>ps. reads_as c ps \<and> buildRequestConditionExpr c = js_join '' && '' ps"
    "\<exists>ps. reads_as c ps \<and> wrap_or (buildRequestConditionExpr c) = js_join '' && '' ps"
proof -
  have "(\<exists>ps. reads_as c ps \<and> buildRequestConditionExpr c = js_join '' && '' ps) \<and>
    (\<exists>ps. reads_as c ps \<and> wrap_or (buildRequestConditionExpr c) = js_join '' && '' ps)"
  proof (cases c)
    case (TimeC t)
    show ?thesis using time_reads [OF assms [unfolded TimeC]] unfolding TimeC by (metis js_join.simps(2))
  next
    case (SourceC s)
    note k = source_conjuncts [OF assms [unfolded SourceC]]
    have r: "reads_as c (conjuncts c)"
      using source_read_conjuncts [OF assms [unfolded SourceC]] k by (simp add: SourceC reads_as_def clean_def conjuncts.simps(2))
    have "CHR ''|'' \<notin> set (buildRequestConditionExpr c)"
      using k set_js_join [of "'' && ''" "conjuncts c"] by (force simp: SourceC clean_def)
    then show ?thesis using r k no_bar unfolding SourceC by metis
  qed
  then show "\<exists>ps. reads_as c ps \<and> buildRequestConditionExpr c = js_join '' && '' ps"
    "\<exists>ps. reads_as c ps \<and> wrap_or (buildRequestConditionExpr c) = js_join '' && '' ps" by blast+
qed

section \<open>Groups of rules\<close>

lemma read_all_append:
  "read_all f xs = Found us \<Longrightarrow> read_all f (xs @ ys) =
     (case read_all f ys of Raised \<Rightarrow> Raised | NoMatch \<Rightarrow> NoMatch | Found vs \<Rightarrow> Found (us @ vs))"
  "read_all f xs = NoMatch \<Longrightarrow> read_all f (xs @ ys) = NoMatch"
  by (induction xs arbitrary: us) (auto split: reading.splits)

lemma read_all_concat:
  "list_all2 reads_as cs pss \<Longrightarrow>
     read_all read_part (concat pss) = (if list_all readable cs then Found cs else NoMatch)"
proof (induction rule: list_all2_induct)
  case (Cons c cs ps pss)
  then show ?case by (cases "readable c") (simp_all add: reads_as_def read_all_append)
qed simp

lemma join_not_empty: "ps \<noteq> [] \<Longrightarrow> \<forall>p \<in> set ps. p \<noteq> [] \<Longrightarrow> js_join sep ps \<noteq> []"
  by (cases ps) (auto simp: js_join_Cons)

definition rule_ok :: "rule_group \<Rightarrow> bool" where
  "rule_ok g \<longleftrightarrow> is_numeric (rg_multiplier g) \<and> rg_conditions g \<noteq> [] \<and> list_all cond_ok (rg_conditions g)"

definition factor_text :: "string \<Rightarrow> string \<Rightarrow> string" where
  "factor_text combined multiplier = ''('' @ combined @ '' ? '' @ multiplier @ '' : 1)''"

lemma build_not_empty: "cond_ok c \<Longrightarrow> buildRequestConditionExpr c \<noteq> []"
  using condition_reads(1) [of c] join_not_empty [of _ "'' && ''"] by (fastforce simp: reads_as_def part_ok_def)

lemma factor_parts:
  assumes "rule_ok g"
  shows "\<exists>ps. buildRuleGroupFactor g = factor_text (js_join '' && '' ps) (rg_multiplier g) \<and> ps \<noteq> [] \<and>
    (\<forall>p \<in> set ps. part_ok p) \<and>
    read_all read_part ps = (if list_all readable (rg_conditions g) then Found (rg_conditions g) else NoMatch)"
proof -
  let ?cs = "rg_conditions g" and ?m = "rg_multiplier g"
  have m: "is_numeric ?m" "js_trim ?m = ?m" and cs: "?cs \<noteq> []" "\<forall>c \<in> set ?cs. cond_ok c"
    using assms numeric_trim by (auto simp: rule_ok_def list_all_iff)
  have ne: "filter nonempty (map buildRequestConditionExpr ?cs) = map buildRequestConditionExpr ?cs"
    using cs(2) build_not_empty by (simp add: filter_id_conv)
  have "\<exists>pss. list_all2 reads_as ?cs pss \<and>
      buildRuleGroupFactor g = factor_text (js_join '' && '' (map (js_join '' && '') pss)) ?m"
  proof (cases "length ?cs = 1")
    case True
    then obtain c where c: "?cs = [c]" by (cases ?cs) auto
    obtain ps where ps: "reads_as c ps" "buildRequestConditionExpr c = js_join '' && '' ps"
      using condition_reads(1) cs(2) c by auto
    have "buildRuleGroupFactor g = factor_text (buildRequestConditionExpr c) ?m"
      unfolding buildRuleGroupFactor_def Let_def ne m(2) using m(1) by (simp add: c factor_text_def)
    with ps show ?thesis by (intro exI [of _ "[ps]"]) (simp add: c)
  next
    case False
    have "\<forall>c \<in> set ?cs. \<exists>ps. reads_as c ps \<and> wrap_or (buildRequestConditionExpr c) = js_join '' && '' ps"
      using condition_reads(2) cs(2) by blast
    then obtain parts where parts: "\<And>c. c \<in> set ?cs \<Longrightarrow>
        reads_as c (parts c) \<and> wrap_or (buildRequestConditionExpr c) = js_join '' && '' (parts c)"
      by metis
    have "map wrap_or (map buildRequestConditionExpr ?cs) = map (js_join '' && '') (map parts ?cs)"
      using parts by simp
    moreover have "buildRuleGroupFactor g = factor_text (js_join '' && '' (map wrap_or (map buildRequestConditionExpr ?cs))) ?m"
      unfolding buildRuleGroupFactor_def Let_def ne m(2) using m(1) cs(1) False by (simp add: factor_text_def)
    moreover have "list_all2 reads_as ?cs (map parts ?cs)" using parts by (simp add: list_all2_map2 list.rel_refl_strong)
    ultimately show ?thesis by metis
  qed
  then obtain pss where pss: "list_all2 reads_as ?cs pss"
    "buildRuleGroupFactor g = factor_text (js_join '' && '' (map (js_join '' && '') pss)) ?m" by blast
  have each: "ps \<noteq> [] \<and> (\<forall>p \<in> set ps. part_ok p)" if "ps \<in> set pss" for ps
    using pss(1) that by (auto simp: list_all2_conv_all_nth in_set_conv_nth reads_as_def)
  have "pss \<noteq> []" using pss(1) cs(1) by auto
  then have "concat pss \<noteq> []" using each by (cases pss) auto
  moreover have "js_join '' && '' (map (js_join '' && '') pss) = js_join '' && '' (concat pss)"
    using each by (intro js_join_concat) blast
  ultimately show ?thesis using pss(2) read_all_concat [OF pss(1)] each by (intro exI [of _ "concat pss"]) auto
qed

lemma run_grp_all_seq:
  "run (seq (Grp i (some_of (\<lambda>_. True)) # rs)) (q, s, m) =
     concat (map (\<lambda>k. run (seq rs) (after_text (take k s) q, drop k s, m(i \<mapsto> take k s))) (rev [1..<Suc (length s)]))"
proof -
  have tw: "length (takeWhile (\<lambda>_. True) s) = length s" by (induction s) simp_all
  have "run (Grp i (some_of (\<lambda>_. True))) (q, s, m) =
      map (\<lambda>k. (after_text (take k s) q, drop k s, m(i \<mapsto> take k s))) (rev [1..<Suc (length s)])"
    by (auto simp: run_some stops_def tw simp del: upt_Suc)
  then show ?thesis unfolding seq_simps run.simps(3) by (simp add: comp_def del: upt_Suc)
qed

lemma match_full_unique:
  assumes "y \<in> set (run (seq (rs @ [AtEnd])) (None, s, Map.empty))"
    and "\<And>z. z \<in> set (run (seq (rs @ [AtEnd])) (None, s, Map.empty)) \<Longrightarrow> snd (snd z) = g"
  shows "match_full rs s = Some g"
  using assms by (cases "run (seq (rs @ [AtEnd])) (None, s, Map.empty)") (auto simp: match_full_def)

lemma last_space:
  assumes "a @ CHR '' '' # n = b @ CHR '' '' # m" and "CHR '' '' \<notin> set n" "CHR '' '' \<notin> set m"
  shows "a = b \<and> n = m"
proof -
  have tw: "takeWhile (\<lambda>c. c \<noteq> CHR '' '') (rev (a @ CHR '' '' # n)) = rev n" if "CHR '' '' \<notin> set n" for a n
  proof -
    have "takeWhile (\<lambda>c. c \<noteq> CHR '' '') (rev n @ CHR '' '' # rev a) = rev n"
      using that takeWhile_stop [of "\<lambda>c. c \<noteq> CHR '' ''" "rev n" "CHR '' ''" "rev a"] by (auto simp: list_all_iff)
    then show ?thesis by simp
  qed
  have "n = m" using tw [OF assms(2), of a] tw [OF assms(3), of b] assms(1) by simp
  with assms(1) show ?thesis by simp
qed

lemma factor_tail:
  assumes "y \<in> set (run (seq [lit '' ? '', Grp 2 (some_of num_char), lit '' : 1)'', AtEnd]) (q, t, g))"
  shows "\<exists>n. t = '' ? '' @ n @ '' : 1)'' \<and> list_all num_char n \<and> snd (snd y) = g(2 \<mapsto> n)"
proof -
  from assms have "prefix '' ? '' t" by (auto simp: regex_run split: if_splits)
  then obtain u where t: "t = '' ? '' @ u" by (auto simp: prefix_def)
  have "prefix '' : 1)'' (dropWhile num_char u)" "drop 5 (dropWhile num_char u) = []" "snd (snd y) = g(2 \<mapsto> takeWhile num_char u)"
    using assms by (auto simp: t regex_run split: if_splits)
  then have "dropWhile num_char u = '' : 1)''" by (auto simp: prefix_def)
  then have "u = takeWhile num_char u @ '' : 1)''" by (metis takeWhile_dropWhile_id)
  moreover have "list_all num_char (takeWhile num_char u)" by (auto simp: list_all_iff dest: set_takeWhileD)
  ultimately show ?thesis using t \<open>snd (snd y) = _\<close> by metis
qed

lemma factor_match:
  assumes "combined \<noteq> []" and "list_all num_char m" "m \<noteq> []"
  shows "match_full FACTOR_REGEX (factor_text combined m) = Some [1 \<mapsto> combined, 2 \<mapsto> m]"
proof (rule match_full_unique)
  let ?tail = "[lit '' ? '', Grp 2 (some_of num_char), lit '' : 1)'', AtEnd]"
  define s where "s = combined @ '' ? '' @ m @ '' : 1)''"
  have run: "run (seq (FACTOR_REGEX @ [AtEnd])) (None, factor_text combined m, Map.empty) =
      concat (map (\<lambda>k. run (seq ?tail) (after_text (take k s) (Some CHR ''(''), drop k s, [1 \<mapsto> take k s])) (rev [1..<Suc (length s)]))"
  proof -
    have "factor_text combined m = ''('' @ s" by (simp add: factor_text_def s_def)
    then show ?thesis by (simp add: FACTOR_REGEX_def run_lit_seq run_grp_all_seq del: upt_Suc)
  qed
  have no_space: "CHR '' '' \<notin> set n" if "list_all num_char n" for n using that not_num_char(1) by (auto simp: list_all_iff)
  show "snd (snd z) = [1 \<mapsto> combined, 2 \<mapsto> m]"
    if z: "z \<in> set (run (seq (FACTOR_REGEX @ [AtEnd])) (None, factor_text combined m, Map.empty))" for z
  proof -
    from z [unfolded run] obtain k where "z \<in> set (run (seq ?tail) (after_text (take k s) (Some CHR ''(''), drop k s, [1 \<mapsto> take k s]))"
      by (auto simp del: upt_Suc)
    from factor_tail [OF this] obtain n where n: "drop k s = '' ? '' @ n @ '' : 1)''" "list_all num_char n"
      "snd (snd z) = [1 \<mapsto> take k s, 2 \<mapsto> n]" by blast
    have "take k s @ '' ? '' @ n @ '' : 1)'' = combined @ '' ? '' @ m @ '' : 1)''"
      using append_take_drop_id [of k s] unfolding n(1) by (simp add: s_def)
    then have "(take k s @ '' ?'') @ CHR '' '' # n = (combined @ '' ?'') @ CHR '' '' # m" by simp
    from last_space [OF this no_space no_space] n(2,3) assms(2) show ?thesis by simp
  qed
  have "(Some CHR '')'', [], [1 \<mapsto> combined, 2 \<mapsto> m]) \<in> set (run (seq ?tail) (after_text combined (Some CHR ''(''), '' ? '' @ m @ '' : 1)'', [1 \<mapsto> combined]))"
    using assms by (simp add: regex_run)
  then show "(Some CHR '')'', [], [1 \<mapsto> combined, 2 \<mapsto> m]) \<in> set (run (seq (FACTOR_REGEX @ [AtEnd])) (None, factor_text combined m, Map.empty))"
    unfolding run using assms(1) by (auto simp: s_def Suc_le_eq simp del: upt_Suc intro!: bexI [of _ "length combined"])
qed

text \<open>Joined conjuncts have no \<open>*\<close> and are balanced.\<close>

lemma star_free_join:
  assumes "\<forall>p \<in> set ps. part_ok p"
  shows "CHR ''*'' \<notin> set (js_join '' && '' ps)" "bal (js_join '' && '' ps) = 0"
proof -
  have each: "CHR ''*'' \<notin> set p \<and> bal p = 0" if "p \<in> set ps" for p using assms that by (auto simp: part_ok_def text_ok_def)
  show "CHR ''*'' \<notin> set (js_join '' && '' ps)" using each set_js_join [of "'' && ''" ps] by fastforce
  from each show "bal (js_join '' && '' ps) = 0"
    by (induction ps) (simp_all add: js_join_Cons bal_Cons depth_step_def)
qed

lemma factor_shape:
  assumes "rule_ok g"
  shows "CHR ''*'' \<notin> set (buildRuleGroupFactor g)" "bal (buildRuleGroupFactor g) = 0" "buildRuleGroupFactor g \<noteq> []"
    "hd (buildRuleGroupFactor g) = CHR ''(''" "last (buildRuleGroupFactor g) = CHR '')''" "js_trim (buildRuleGroupFactor g) = buildRuleGroupFactor g"
proof -
  obtain ps where ps: "buildRuleGroupFactor g = factor_text (js_join '' && '' ps) (rg_multiplier g)" "\<forall>p \<in> set ps. part_ok p"
    using factor_parts [OF assms] by blast
  note j = star_free_join [OF ps(2)]
  have m: "CHR ''*'' \<notin> set (rg_multiplier g)" "bal (rg_multiplier g) = 0"
    using text_ok_num [of "rg_multiplier g"] assms by (simp_all add: rule_ok_def numeric_chars text_ok_def)
  show "CHR ''*'' \<notin> set (buildRuleGroupFactor g)" using j m by (simp add: ps factor_text_def)
  show "bal (buildRuleGroupFactor g) = 0" using j m by (simp add: ps factor_text_def bal_Cons depth_step_def)
  show f: "buildRuleGroupFactor g \<noteq> []" "hd (buildRuleGroupFactor g) = CHR ''(''" "last (buildRuleGroupFactor g) = CHR '')''"
    by (simp_all add: ps factor_text_def)
  show "js_trim (buildRuleGroupFactor g) = buildRuleGroupFactor g" using f by (simp add: trim_by_eq_iff is_ws_def)
qed

lemma factor_reads:
  assumes "rule_ok g"
  shows "tryParseRuleGroupFactor (buildRuleGroupFactor g) = (if list_all readable (rg_conditions g) then Found g else NoMatch)"
proof -
  obtain ps where ps: "buildRuleGroupFactor g = factor_text (js_join '' && '' ps) (rg_multiplier g)" "ps \<noteq> []" "\<forall>p \<in> set ps. part_ok p"
    "read_all read_part ps = (if list_all readable (rg_conditions g) then Found (rg_conditions g) else NoMatch)"
    using factor_parts [OF assms] by blast
  have p: "\<forall>p \<in> set ps. CHR ''&'' \<notin> set p \<and> bal p = 0 \<and> p \<noteq> [] \<and> js_trim p = p"
    using ps(3) part_trim by (simp add: part_ok_def text_ok_def)
  have split: "splitTopLevelAnd (js_join '' && '' ps) = ps"
    unfolding splitTopLevelAnd_def by (rule split_parts_join [OF _ ps(2) p]) simp
  have ne: "js_join '' && '' ps \<noteq> []" using p join_not_empty [OF ps(2)] by blast
  have m: "list_all num_char (rg_multiplier g)" "rg_multiplier g \<noteq> []" "rg_conditions g \<noteq> []"
    using assms by (simp_all add: rule_ok_def numeric_chars numeric_not_empty)
  have g: "grp [1 \<mapsto> js_join '' && '' ps, 2 \<mapsto> rg_multiplier g] 1 = js_join '' && '' ps"
    "grp [1 \<mapsto> js_join '' && '' ps, 2 \<mapsto> rg_multiplier g] 2 = rg_multiplier g" by (simp_all add: grp_def)
  show ?thesis
    unfolding ps(1) tryParseRuleGroupFactor_def factor_match [OF ne m(1,2)] option.case g split ps(4)
    using m(3) by (cases g) simp
qed

lemma rules_text:
  assumes "list_all rule_ok groups"
  shows "buildRequestRuleExpr groups = js_join '' * '' (map buildRuleGroupFactor groups)"
    "js_trim (buildRequestRuleExpr groups) = buildRequestRuleExpr groups"
    "splitTopLevelMultiply (buildRequestRuleExpr groups) = map buildRuleGroupFactor groups \<or> groups = []"
    "groups \<noteq> [] \<Longrightarrow> buildRequestRuleExpr groups \<noteq> []"
proof -
  have g: "rule_ok g" if "g \<in> set groups" for g using assms that by (auto simp: list_all_iff)
  have "filter nonempty (map buildRuleGroupFactor groups) = map buildRuleGroupFactor groups"
    using factor_shape(3) [OF g] by (simp add: filter_id_conv)
  then show b: "buildRequestRuleExpr groups = js_join '' * '' (map buildRuleGroupFactor groups)"
    by (simp add: buildRequestRuleExpr_def)
  show "splitTopLevelMultiply (buildRequestRuleExpr groups) = map buildRuleGroupFactor groups \<or> groups = []"
    using factor_shape [OF g] unfolding b splitTopLevelMultiply_def
    by (cases "groups = []") (simp_all add: split_parts_join [of _ "CHR ''*''" "'' ''"])
  show ne: "buildRequestRuleExpr groups \<noteq> []" if "groups \<noteq> []"
    using that factor_shape(3) [OF g] unfolding b by (intro join_not_empty) auto
  have ends: "xs \<noteq> [] \<Longrightarrow> \<forall>x \<in> set xs. x \<noteq> [] \<and> hd x = CHR ''('' \<and> last x = CHR '')'' \<Longrightarrow>
      hd (js_join '' * '' xs) = CHR ''('' \<and> last (js_join '' * '' xs) = CHR '')''" for xs
    by (induction xs) (auto simp: js_join_Cons join_not_empty hd_append)
  show "js_trim (buildRequestRuleExpr groups) = buildRequestRuleExpr groups"
  proof (cases "groups = []")
    case False
    then show ?thesis using ends [of "map buildRuleGroupFactor groups"] factor_shape [OF g]
      unfolding trim_by_eq_iff b by (simp add: is_ws_def)
  qed (simp add: buildRequestRuleExpr_def)
qed

lemma read_all_groups:
  "list_all rule_ok groups \<Longrightarrow> read_all tryParseRuleGroupFactor (map buildRuleGroupFactor groups) =
     (if list_all (\<lambda>g. list_all readable (rg_conditions g)) groups then Found groups else NoMatch)"
  by (induction groups) (auto simp: factor_reads)

lemma rules_read:
  assumes "list_all rule_ok groups"
  shows "tryParseRequestRuleExpr (buildRequestRuleExpr groups) =
    (if list_all (\<lambda>g. list_all readable (rg_conditions g)) groups then Found groups else NoMatch)"
proof (cases "groups = []")
  case False
  then show ?thesis using rules_text [OF assms] read_all_groups [OF assms] by (simp add: tryParseRequestRuleExpr_def)
qed (use rules_text [OF assms] in \<open>simp add: tryParseRequestRuleExpr_def\<close>)

section \<open>Joining and taking apart\<close>

text \<open>Every parenthesis closes, and none closes that was not opened.\<close>

fun nested :: "int \<Rightarrow> string \<Rightarrow> bool" where
  "nested d [] \<longleftrightarrow> d = 0"
| "nested d (c # t) \<longleftrightarrow> 0 \<le> depth_step d c \<and> nested (depth_step d c) t"

lemma split_top_nested:
  "nested d s \<Longrightarrow> split_top sep (d + 1) part (s @ t) = split_top sep 1 (part @ s) t"
proof (induction s arbitrary: d part)
  case (Cons c s)
  have step: "depth_step (d + 1) c = depth_step d c + 1" by (simp add: depth_step_def)
  have "split_top sep (d + 1) part ((c # s) @ t) = split_top sep (depth_step (d + 1) c) (part @ [c]) (s @ t)"
    using Cons.prems step by (simp add: depth_step_def)
  also have "\<dots> = split_top sep 1 ((part @ [c]) @ s) t" unfolding step using Cons.IH Cons.prems by simp
  finally show ?case by simp
qed simp

lemma split_top_parens:
  assumes "nested 0 base" and sep: "sep = CHR '' '' # sep'"
  shows "split_top sep 0 [] ((''('' @ base @ '')'') @ t) = split_top sep 0 (''('' @ base @ '')'') t"
  using split_top_nested [OF assms(1), of sep "''(''" "CHR '')'' # t"] by (simp add: sep)

lemma closes_nested: "nested d base \<Longrightarrow> closes_last (d + 1) (base @ '')'')"
proof (induction base arbitrary: d)
  case (Cons c base)
  have "depth_step (d + 1) c = depth_step d c + 1" by (simp add: depth_step_def)
  with Cons show ?case by simp
qed (simp add: depth_step_def)

lemma unwrap_parens:
  assumes "nested 0 (js_trim base)"
  shows "unwrapOuterParens (''('' @ js_trim base @ '')'') = unwrapOuterParens base"
proof -
  let ?e = "''('' @ js_trim base @ '')''"
  have trim: "js_trim ?e = ?e" by (simp add: trim_by_eq_iff is_ws_def)
  have "hasFullOuterParens ?e"
    using closes_nested [OF assms] by (simp add: hasFullOuterParens_def depth_step_def)
  then have "unwrap_loop ?e = unwrap_loop (js_trim (js_trim base))" by (subst unwrap_loop.simps) (simp add: butlast_append)
  then show ?thesis unfolding unwrapOuterParens_def trim by simp
qed

lemma factor_needs_end:
  assumes "\<not> suffix '' : 1'' base"
  shows "match_full FACTOR_REGEX (''('' @ base @ '')'') = None"
proof (rule match_full_none)
  let ?tail = "[lit '' ? '', Grp 2 (some_of num_char), lit '' : 1)'', AtEnd]"
  let ?s = "base @ '')''"
  have none: "run (seq ?tail) (q, drop k ?s, g) = []" for q k g
  proof (rule ccontr)
    assume "run (seq ?tail) (q, drop k ?s, g) \<noteq> []"
    then obtain y where "y \<in> set (run (seq ?tail) (q, drop k ?s, g))" by (metis list.set_intros(1) neq_Nil_conv)
    from factor_tail [OF this] obtain n where "drop k ?s = '' ? '' @ n @ '' : 1)''" by blast
    then have "?s = ((take k ?s @ '' ? '' @ n) @ '' : 1'') @ '')''" by (metis append_take_drop_id append.assoc append_Cons append_Nil)
    then have "base = (take k ?s @ '' ? '' @ n) @ '' : 1''" by (metis append_same_eq)
    with assms show False by (metis suffixI)
  qed
  have all: "run (seq (Grp 1 (some_of (\<lambda>_. True)) # ?tail)) (q, ?s, m) = []" for q m
    unfolding run_grp_all_seq none by (simp del: upt_Suc)
  show "run (seq (FACTOR_REGEX @ [AtEnd])) (None, ''('' @ base @ '')'', Map.empty) = []"
    using all unfolding FACTOR_REGEX_def append.simps run_lit_seq by simp
qed

lemma base_part:
  assumes "nested 0 base" and "\<not> suffix '' : 1'' base"
  shows "tryParseRequestRuleExpr (''('' @ base @ '')'') = NoMatch"
proof -
  let ?e = "''('' @ base @ '')''"
  have trim: "js_trim ?e = ?e" by (simp add: trim_by_eq_iff is_ws_def)
  have "split_top '' * '' 0 [] ?e = [?e]" using split_top_parens [OF assms(1), of "'' * ''" "''* ''" "[]"] by simp
  then have "splitTopLevelMultiply ?e = [?e]" using trim by (simp add: splitTopLevelMultiply_def split_parts_def)
  moreover have "tryParseRuleGroupFactor ?e = NoMatch"
    unfolding tryParseRuleGroupFactor_def factor_needs_end [OF assms(2)] by simp
  ultimately show ?thesis unfolding tryParseRequestRuleExpr_def Let_def trim by simp
qed

lemma combined_parts:
  assumes ok: "list_all rule_ok groups" "groups \<noteq> []" and base: "nested 0 base"
  shows "splitTopLevelMultiply (''('' @ base @ '') * '' @ buildRequestRuleExpr groups) =
      (''('' @ base @ '')'') # map buildRuleGroupFactor groups"
    "js_trim (''('' @ base @ '') * '' @ buildRequestRuleExpr groups) = ''('' @ base @ '') * '' @ buildRequestRuleExpr groups"
proof -
  let ?e = "''('' @ base @ '')''" and ?fs = "map buildRuleGroupFactor groups"
  have g: "rule_ok g" if "g \<in> set groups" for g using ok(1) that by (auto simp: list_all_iff)
  note t = rules_text [OF ok(1)]
  have fs: "\<forall>e \<in> set ?fs. CHR ''*'' \<notin> set e \<and> (e = [] \<or> last e \<noteq> CHR '' '') \<and> bal e = 0"
    using factor_shape [OF g] by simp
  have "split_top '' * '' 0 [] (?e @ '' * '' @ js_join '' * '' ?fs) = ?e # ?fs"
    unfolding split_top_parens [OF base refl] split_top_sep [OF refl]
    using split_top_join [OF refl, of ?fs "CHR ''*''" "'' ''"] fs ok(2) by simp
  moreover have trim: "js_trim ?e = ?e" by (simp add: trim_by_eq_iff is_ws_def)
  moreover have "map js_trim ?fs = ?fs" "filter nonempty ?fs = ?fs"
    using factor_shape [OF g] by (simp_all add: map_idI filter_id_conv)
  ultimately have "splitTopLevelMultiply (?e @ '' * '' @ js_join '' * '' ?fs) = ?e # ?fs"
    unfolding splitTopLevelMultiply_def split_parts_def by (simp del: map_map)
  then show "splitTopLevelMultiply (''('' @ base @ '') * '' @ buildRequestRuleExpr groups) = ?e # ?fs"
    by (simp add: t(1))
  have ne: "buildRequestRuleExpr groups \<noteq> []" by (rule t(4) [OF ok(2)])
  then have "\<not> is_ws (last (buildRequestRuleExpr groups))" using t(2) trim_by_eq_iff by blast
  then show "js_trim (''('' @ base @ '') * '' @ buildRequestRuleExpr groups) = ''('' @ base @ '') * '' @ buildRequestRuleExpr groups"
    using ne by (simp add: trim_by_eq_iff is_ws_def)
qed

lemma factor_is_rule:
  assumes "rule_ok g"
  shows "tryParseRequestRuleExpr (buildRuleGroupFactor g) = (if list_all readable (rg_conditions g) then Found [g] else NoMatch)"
proof -
  have "buildRequestRuleExpr [g] = buildRuleGroupFactor g" using factor_shape(3) [OF assms] by (simp add: buildRequestRuleExpr_def)
  then show ?thesis using rules_read [of "[g]"] assms by simp
qed

lemma split_combined:
  assumes ok: "list_all rule_ok groups" "groups \<noteq> []"
    and base: "js_trim base \<noteq> []" "nested 0 (js_trim base)" "\<not> suffix '' : 1'' (js_trim base)"
  shows "splitBillingExprAndRequestRules (combineBillingExpr base (buildRequestRuleExpr groups)) =
    Some (if list_all (\<lambda>g. list_all readable (rg_conditions g)) groups
      then \<lparr>sr_billingExpr = unwrapOuterParens base, sr_requestRuleExpr = buildRequestRuleExpr groups\<rparr>
      else \<lparr>sr_billingExpr = combineBillingExpr base (buildRequestRuleExpr groups), sr_requestRuleExpr = []\<rparr>)"
proof -
  let ?b = "js_trim base" and ?fs = "map buildRuleGroupFactor groups"
  let ?e = "''('' @ ?b @ '')''" and ?all = "''('' @ ?b @ '') * '' @ buildRequestRuleExpr groups"
  let ?rule = "\<lambda>part. is_rule_part (tryParseRequestRuleExpr part)"
  have g: "rule_ok g" if "g \<in> set groups" for g using ok(1) that by (auto simp: list_all_iff)
  note t = rules_text [OF ok(1)] and p = combined_parts [OF ok base(2)] and b = base_part [OF base(2,3)]
  have comb: "combineBillingExpr base (buildRequestRuleExpr groups) = ?all"
    using base(1) t(2) t(4) [OF ok(2)] by (simp add: combineBillingExpr_def Let_def)
  have rule: "?rule (buildRuleGroupFactor g) = list_all readable (rg_conditions g)" if "g \<in> set groups" for g
    using factor_is_rule [OF g [OF that]] by (simp add: is_rule_part_def)
  have raise: "\<not> (\<exists>part \<in> set (?e # ?fs). tryParseRequestRuleExpr part = Raised)"
    using b factor_is_rule [OF g] by (simp del: append.simps)
  have "\<not> ?rule ?e" unfolding b by (simp add: is_rule_part_def)
  then have filters: "filter ?rule (?e # ?fs) = filter ?rule ?fs" "filter (\<lambda>part. \<not> ?rule part) (?e # ?fs) = ?e # filter (\<lambda>part. \<not> ?rule part) ?fs"
    by (simp_all del: append.simps)
  have len: "\<not> length (?e # ?fs) \<le> 1" using ok(2) by simp
  show ?thesis
  proof (cases "list_all (\<lambda>g. list_all readable (rg_conditions g)) groups")
    case True
    then have "filter ?rule ?fs = ?fs" "filter (\<lambda>part. \<not> ?rule part) ?fs = []"
      using rule by (auto simp: filter_id_conv filter_empty_conv list_all_iff)
    then show ?thesis
      unfolding comb splitBillingExprAndRequestRules_def Let_def p if_not_P [OF raise] if_not_P [OF len] filters
      using True ok(2) unwrap_parens [OF base(2)] t(1) by simp
  next
    case False
    then obtain h where "h \<in> set groups" "\<not> ?rule (buildRuleGroupFactor h)" using rule by (auto simp: list_all_iff)
    then have "filter (\<lambda>part. \<not> ?rule part) ?fs \<noteq> []" by (auto simp: filter_empty_conv)
    then have c: "filter ?rule ?fs = [] \<or> length (?e # filter (\<lambda>part. \<not> ?rule part) ?fs) \<noteq> 1"
      unfolding list.size by (metis One_nat_def Suc_inject add.commute length_0_conv plus_1_eq_Suc)
    show ?thesis
      unfolding comb splitBillingExprAndRequestRules_def Let_def p if_not_P [OF raise] if_not_P [OF len] filters if_P [OF c]
      using False by simp
  qed
qed

section \<open>Samples\<close>

lemma digits_numeric:
  assumes d: "list_all is_digit s" "s \<noteq> []"
  shows "is_numeric s"
proof -
  let ?out = "(after_text s None, [], Map.empty)"
  have tw: "length (takeWhile is_digit s) = length s" by (simp only: conjunct1 [OF takeWhile_end [OF d(1)]])
  have some: "?out \<in> set (run (some_of is_digit) (None, s, Map.empty))"
    using d(2) by (auto simp: run_some stops_def Suc_le_eq tw simp del: upt_Suc intro!: image_eqI [of _ _ "length s"])
  have self: "?out \<in> set (run (many is_digit) ?out)" "?out \<in> set (run (opt r) ?out)" "?out \<in> set (run (seq [])  ?out)" for r
    by (simp_all add: run_many opt_def seq_simps)
  have "?out \<in> set (run (seq [some_of is_digit, opt (lit ''.''), many is_digit]) (None, s, Map.empty))"
    by (intro in_seq [OF some] in_seq [OF self(2)] in_seq [OF self(1)] self(3))
  then have e: "?out \<in> set (run (Either (seq [some_of is_digit, opt (lit ''.''), many is_digit]) (seq [lit ''.'', some_of is_digit])) (None, s, Map.empty))"
    by simp
  have start: "(None, s, Map.empty) \<in> set (run (opt (lit ''-'')) (None, s, Map.empty))" by (simp add: opt_def)
  have fin: "?out \<in> set (run (seq [AtEnd]) ?out)" by (simp add: seq_simps)
  have "?out \<in> set (run (seq (NUMERIC_LITERAL_REGEX @ [AtEnd])) (None, s, Map.empty))"
    unfolding NUMERIC_LITERAL_REGEX_def append.simps by (intro in_seq [OF start] in_seq [OF e] in_seq [OF self(2)] fin)
  then show ?thesis by (auto simp: is_numeric_def match_full_def split: list.splits)
qed

definition sample_time :: request_condition where
  "sample_time = TimeC \<lparr>tm_timeFunc = ''hour'', tm_timezone = ''UTC'', tm_mode = ''range'', tm_value = [],
     tm_rangeStart = ''20'', tm_rangeEnd = ''6''\<rparr>"

definition sample_header :: request_condition where
  "sample_header = SourceC \<lparr>sc_source = ''header'', sc_path = ''x-plan'', sc_mode = ''eq'', sc_value = ''pro''\<rparr>"

definition sample_compare_source :: param_header_condition where
  "sample_compare_source = \<lparr>sc_source = ''param'', sc_path = ''n'', sc_mode = ''gt'', sc_value = ''1''\<rparr>"

definition sample_compare :: request_condition where
  "sample_compare = SourceC sample_compare_source"

lemma sample_texts: "list_all plain_char ''x-plan''" "list_all plain_char ''pro''" "list_all plain_char ''n''" "list_all plain_char ''UTC''"
  by (simp_all add: plain_char_def)

lemma samples_ok: "cond_ok sample_time" "cond_ok sample_header" "cond_ok sample_compare"
proof -
  have n: "is_numeric ''20''" "is_numeric ''6''" "is_numeric ''1''" by (rule digits_numeric; simp add: is_digit_def)+
  show "cond_ok sample_time" using n sample_texts(4) by (simp add: sample_time_def TIME_FUNCS_def)
  have w: "\<not> is_ws CHR ''x''" "\<not> is_ws CHR ''n''" "\<not> is_ws CHR ''p''" "\<not> is_ws CHR ''o''" by (simp_all add: is_ws_def)
  have v: "plain_value ''x-plan''" "plain_value ''pro''" "plain_value ''n''"
    using sample_texts w by (simp_all add: plain_value_def trim_by_eq_iff)
  show "cond_ok sample_header" "cond_ok sample_compare" using v n by (simp_all add: sample_header_def sample_compare_def sample_compare_source_def)
qed

definition sample_group :: rule_group where
  "sample_group = \<lparr>rg_conditions = [sample_time, sample_header], rg_multiplier = ''2''\<rparr>"

definition sample_compare_group :: rule_group where
  "sample_compare_group = \<lparr>rg_conditions = [sample_compare], rg_multiplier = ''3''\<rparr>"

lemma sample_groups_ok: "rule_ok sample_group" "rule_ok sample_compare_group"
proof -
  have "is_numeric ''2''" "is_numeric ''3''" by (rule digits_numeric; simp add: is_digit_def)+
  then show "rule_ok sample_group" "rule_ok sample_compare_group"
    using samples_ok by (simp_all add: rule_ok_def sample_group_def sample_compare_group_def)
qed

section \<open>Properties\<close>

text \<open>
  a condition that was built is read back as it was, for every source, mode and plain text.
\<close>

theorem condition_round_trip:
  assumes "cond_ok c"
  shows "tryParseRequestCondition (buildRequestConditionExpr c) = Found c"
  using assms by (rule condition_read)

lemma condition_round_trip_witness:
  "tryParseRequestCondition (buildRequestConditionExpr sample_compare) = Found sample_compare"
  by (rule condition_round_trip [OF samples_ok(3)])

text \<open>
  C12: Rules whose conditions are on the time, a header, an equal or an existing parameter, any number of
  them to a rule, are read back from the text that is built of them, in order and with their multipliers,
  when their texts have none of the characters of the syntax. It holds for these rules only: of rules with
  a comparison or a search of a parameter nothing is read back (compare_rule_not_read).
\<close>

theorem rules_round_trip:
  assumes "list_all rule_ok groups" and "\<forall>g \<in> set groups. \<forall>c \<in> set (rg_conditions g). readable c"
  shows "tryParseRequestRuleExpr (buildRequestRuleExpr groups) = Found groups"
  using rules_read [OF assms(1)] assms(2) by (simp add: list_all_iff)

lemma rules_round_trip_witness:
  "tryParseRequestRuleExpr (buildRequestRuleExpr [sample_group, sample_group]) = Found [sample_group, sample_group]"
  by (rule rules_round_trip) (use sample_groups_ok in \<open>simp_all add: sample_group_def sample_time_def sample_header_def\<close>)

text \<open>
  one condition that compares a parameter with a number, or searches it, is enough for the whole text
  of rules not to be read back, whatever the other rules are.
\<close>

theorem compare_rule_not_read:
  assumes "list_all rule_ok groups" and "g \<in> set groups" and "SourceC c \<in> set (rg_conditions g)"
    and "sc_source c = ''param''" and "sc_mode c \<in> {''contains'', ''gt'', ''gte'', ''lt'', ''lte''}"
  shows "tryParseRequestRuleExpr (buildRequestRuleExpr groups) = NoMatch"
proof -
  have "\<not> readable (SourceC c)" using assms(4,5) by simp
  then have "\<not> list_all (\<lambda>g. list_all readable (rg_conditions g)) groups" using assms(2,3)
    unfolding list_all_iff by blast
  then show ?thesis using rules_read [OF assms(1)] by simp
qed

lemma compare_rule_not_read_witness:
  "tryParseRequestRuleExpr (buildRequestRuleExpr [sample_group, sample_compare_group]) = NoMatch"
  by (rule compare_rule_not_read [of _ sample_compare_group sample_compare_source])
    (use sample_groups_ok in \<open>simp_all add: sample_compare_group_def sample_compare_def sample_compare_source_def\<close>)

text \<open>
  C11: a price expression and its rules, joined for the server, are taken apart again into the price
  expression, without parentheses around it, and the rules; when a rule is one that is not read
  back, the whole text is taken for the price expression and the rules are empty.
\<close>

theorem split_undoes_combine:
  assumes "list_all rule_ok groups" and "groups \<noteq> []"
    and "js_trim base \<noteq> []" and "nested 0 (js_trim base)" and "\<not> suffix '' : 1'' (js_trim base)"
  shows "splitBillingExprAndRequestRules (combineBillingExpr base (buildRequestRuleExpr groups)) =
    Some (if list_all (\<lambda>g. list_all readable (rg_conditions g)) groups
      then \<lparr>sr_billingExpr = unwrapOuterParens base, sr_requestRuleExpr = buildRequestRuleExpr groups\<rparr>
      else \<lparr>sr_billingExpr = combineBillingExpr base (buildRequestRuleExpr groups), sr_requestRuleExpr = []\<rparr>)"
  by (rule split_combined [OF assms])

lemma split_undoes_combine_witness:
  "splitBillingExprAndRequestRules (combineBillingExpr ''p * 3'' (buildRequestRuleExpr [sample_group])) =
     Some \<lparr>sr_billingExpr = ''p * 3'', sr_requestRuleExpr = buildRequestRuleExpr [sample_group]\<rparr>"
proof -
  have "js_trim ''p * 3'' = ''p * 3''" by (simp add: trim_by_eq_iff is_ws_def)
  moreover have "unwrap_loop ''p * 3'' = ''p * 3''" by (subst unwrap_loop.simps) (simp add: hasFullOuterParens_def)
  moreover have "nested 0 ''p * 3''" by (simp add: depth_step_def)
  ultimately show ?thesis
    using split_undoes_combine [of "[sample_group]" "''p * 3''"] sample_groups_ok
    by (simp add: unwrapOuterParens_def suffix_def sample_group_def sample_time_def sample_header_def)
qed

end
