(* ===== verification/TierExpr.thy ===== *)
theory TierExpr
  imports BillingExpr
begin

text \<open>
  Tiers of a billing expression as the visual editor holds them (lib/tier-expr.ts): normalisation,
  the expression written for them and the reader of such expressions. The costs of a tier are a map
  from the name of the field to a number; a field that is not in it is undefined.
\<close>

datatype cache_mode = Timed | Generic

text \<open>The bound of a condition: a number, or what was typed.\<close>

datatype bound_value = BoundNum jsnum | BoundText string

record tier_input =
  ti_var :: string
  ti_op :: string
  ti_value :: bound_value

type_synonym costs = "string \<rightharpoonup> jsnum"

record visual_tier =
  vt_label :: string
  vt_conditions :: "tier_input list"
  vt_cache_mode :: cache_mode
  vt_costs :: costs

text \<open>\<open>Partial<VisualTier>\<close>: any part may be missing.\<close>

record partial_tier =
  pl_label :: "string option"
  pl_conditions :: "tier_input list option"
  pl_cache_mode :: "cache_mode option"
  pl_costs :: costs

record visual_config =
  vc_tiers :: "visual_tier list"

definition num_cost :: "costs \<Rightarrow> string \<Rightarrow> jsnum" where
  "num_cost costs f = (case costs f of None \<Rightarrow> NaN | Some n \<Rightarrow> n)"

definition getTierCacheMode :: "partial_tier \<Rightarrow> cache_mode" where
  "getTierCacheMode tier = (case pl_cache_mode tier of
     Some m \<Rightarrow> m
   | None \<Rightarrow> if num_lt (Num (int_dec 0)) (num_cost (pl_costs tier) ''cache_create_1h_unit_cost'') then Timed else Generic)"

definition COST_FIELDS :: "string list" where
  "COST_FIELDS = [''input_unit_cost'', ''output_unit_cost'', ''cache_read_unit_cost'', ''cache_create_unit_cost'',
     ''cache_create_1h_unit_cost'', ''image_unit_cost'', ''image_output_unit_cost'', ''audio_input_unit_cost'',
     ''audio_output_unit_cost'']"

definition normalizeVisualTier :: "partial_tier \<Rightarrow> visual_tier" where
  "normalizeVisualTier tier =
     \<lparr>vt_label = (case pl_label tier of None \<Rightarrow> [] | Some l \<Rightarrow> l),
      vt_conditions = (case pl_conditions tier of None \<Rightarrow> [] | Some cs \<Rightarrow> cs),
      vt_cache_mode = getTierCacheMode tier,
      vt_costs = (\<lambda>f. if f \<in> set COST_FIELDS then Some (num_or_zero (num_cost (pl_costs tier) f)) else pl_costs tier f)\<rparr>"

text \<open>A tier as a partial tier.\<close>

definition as_partial :: "visual_tier \<Rightarrow> partial_tier" where
  "as_partial t = \<lparr>pl_label = Some (vt_label t), pl_conditions = Some (vt_conditions t),
     pl_cache_mode = Some (vt_cache_mode t), pl_costs = vt_costs t\<rparr>"

definition createDefaultVisualConfig :: visual_config where
  "createDefaultVisualConfig = \<lparr>vc_tiers = [normalizeVisualTier
     \<lparr>pl_label = Some ''base'', pl_conditions = Some [], pl_cache_mode = Some Generic,
      pl_costs = [''input_unit_cost'' \<mapsto> Num (int_dec 0), ''output_unit_cost'' \<mapsto> Num (int_dec 0)]\<rparr>]\<rparr>"

definition normalizeVisualConfig :: "visual_config option \<Rightarrow> visual_config" where
  "normalizeVisualConfig config = (case config of
     None \<Rightarrow> createDefaultVisualConfig
   | Some c \<Rightarrow> if vc_tiers c = [] then createDefaultVisualConfig
       else \<lparr>vc_tiers = map (\<lambda>t. normalizeVisualTier (as_partial t)) (vc_tiers c)\<rparr>)"

section \<open>The expression of a configuration\<close>

fun show_bound :: "bound_value \<Rightarrow> string" where
  "show_bound (BoundNum n) = show_num n"
| "show_bound (BoundText s) = s"

definition usable_condition :: "tier_input \<Rightarrow> bool" where
  "usable_condition c \<longleftrightarrow> ti_var c \<noteq> [] \<and> ti_op c \<noteq> [] \<and> ti_value c \<noteq> BoundText []"

definition buildConditionStr :: "tier_input list \<Rightarrow> string" where
  "buildConditionStr conditions =
     js_join '' && '' (map (\<lambda>c. ti_var c @ '' '' @ ti_op c @ '' '' @ show_bound (ti_value c)) (filter usable_condition conditions))"

definition coeff_text :: "string \<Rightarrow> jsnum \<Rightarrow> string" where
  "coeff_text var n = var @ '' * '' @ show_num n"

definition cost_of :: "visual_tier \<Rightarrow> string \<Rightarrow> jsnum" where
  "cost_of tier f = num_or_zero (num_cost (vt_costs tier) f)"

definition buildTierBodyExpr :: "visual_tier \<Rightarrow> string" where
  "buildTierBodyExpr tier =
     js_join '' + '' (coeff_text ''p'' (cost_of tier ''input_unit_cost'') # coeff_text ''c'' (cost_of tier ''output_unit_cost'') #
       map (\<lambda>(f, v). coeff_text v (cost_of tier f)) (filter (\<lambda>(f, v). cost_of tier f \<noteq> Num (int_dec 0)) BILLING_CACHE_VAR_MAP))"

definition tier_text :: "string \<Rightarrow> visual_tier \<Rightarrow> string" where
  "tier_text label tier = ''tier('' @ [quote_char] @ label @ [quote_char] @ '', '' @ buildTierBodyExpr tier @ '')''"

text \<open>The tiers from the \<open>i\<close>th on; a tier without a usable condition ends the chain.\<close>

fun tier_parts :: "nat \<Rightarrow> visual_tier list \<Rightarrow> string list" where
  "tier_parts i [] = []"
| "tier_parts i (tier # tiers) =
     (let body = tier_text (or_str (vt_label tier) (''tier_'' @ show_nat (i + 1))) tier;
          cond = (if tiers = [] then [] else buildConditionStr (vt_conditions tier))
      in if cond \<noteq> [] then (cond @ '' ? '' @ body) # tier_parts (i + 1) tiers else [body])"

definition ZERO_EXPR :: string where
  "ZERO_EXPR = ''p * 0 + c * 0''"

definition generateExprFromVisualConfig :: "visual_config option \<Rightarrow> string" where
  "generateExprFromVisualConfig config = (case config of
     None \<Rightarrow> ZERO_EXPR
   | Some c \<Rightarrow> (case vc_tiers c of
       [] \<Rightarrow> ZERO_EXPR
     | [tier] \<Rightarrow>
         (let body = tier_text (or_str (vt_label tier) ''default'') tier; cond = buildConditionStr (vt_conditions tier)
          in if cond \<noteq> [] then cond @ '' ? '' @ body @ '' : '' @ ZERO_EXPR else body)
     | tiers \<Rightarrow> js_join '' : '' (tier_parts 0 tiers)))"

section \<open>The reader\<close>

definition VERSION_PREFIX :: "re list" where
  "VERSION_PREFIX = [lit ''v'', some_of is_digit, lit '':'', Grp 1 (many (\<lambda>_. True))]"

text \<open>\<open>v * n\<close> with the number captured.\<close>

definition COEFF :: "string \<Rightarrow> nat \<Rightarrow> re list" where
  "COEFF var i = [lit var, spaces, lit ''*'', spaces, Grp i (some_of num_char)]"

definition summand :: "string \<Rightarrow> nat \<Rightarrow> re list" where
  "summand v i = [spaces, lit ''+'', spaces] @ COEFF v i"

fun extra_coeffs :: "nat \<Rightarrow> string list \<Rightarrow> re list" where
  "extra_coeffs i [] = []"
| "extra_coeffs i (v # vs) = opt (seq (summand v i)) # extra_coeffs (i + 1) vs"

text \<open>The groups of the two prices are \<open>i\<close> and \<open>i + 1\<close>.\<close>

definition BODY_PAT :: "nat \<Rightarrow> re list" where
  "BODY_PAT i = COEFF ''p'' i @ summand ''c'' (i + 1) @
     extra_coeffs (i + 2) (map snd BILLING_CACHE_VAR_MAP)"

definition TIER_HEAD :: "nat \<Rightarrow> re list" where
  "TIER_HEAD i = [lit (''tier('' @ [quote_char]), Grp i (many not_quote), lit [quote_char, CHR '',''], spaces]"

definition SINGLE_TIER :: "re list" where
  "SINGLE_TIER = TIER_HEAD 1 @ BODY_PAT 2 @ [lit '')'']"

definition CHAIN_TIER :: re where
  "CHAIN_TIER = seq ([opt (seq [Grp 1 COND_GROUP, spaces, lit ''?'', spaces])] @ TIER_HEAD 2 @ BODY_PAT 3 @ [lit '')''])"

definition read_costs :: "(nat \<rightharpoonup> string) \<Rightarrow> nat \<Rightarrow> costs" where
  "read_costs m i = (\<lambda>f. if f = ''input_unit_cost'' then Some (js_number (grp m i))
     else if f = ''output_unit_cost'' then Some (js_number (grp m (i + 1)))
     else (case map_of (zip (map fst BILLING_CACHE_VAR_MAP) [i + 2..<i + 9]) f of
         None \<Rightarrow> None | Some j \<Rightarrow> map_option js_number (m j)))"

definition read_input :: "tier_condition \<Rightarrow> tier_input" where
  "read_input c = \<lparr>ti_var = tc_var c, ti_op = tc_op c, ti_value = BoundNum (tc_value c)\<rparr>"

text \<open>The tier of a match whose label is group \<open>i\<close>.\<close>

definition read_tier :: "tier_condition list \<Rightarrow> (nat \<rightharpoonup> string) \<Rightarrow> nat \<Rightarrow> visual_tier" where
  "read_tier conditions m i = normalizeVisualTier
     \<lparr>pl_label = Some (grp m i), pl_conditions = Some (map read_input conditions), pl_cache_mode = None,
      pl_costs = read_costs m (i + 1)\<rparr>"

definition no_spaces :: "string \<Rightarrow> string" where
  "no_spaces s = filter (\<lambda>c. \<not> is_ws c) s"

definition expr_body :: "string \<Rightarrow> string" where
  "expr_body exprStr = (case match_full VERSION_PREFIX exprStr of Some m \<Rightarrow> grp m 1 | None \<Rightarrow> exprStr)"

definition chain_tiers :: "string \<Rightarrow> visual_tier list" where
  "chain_tiers body = map (\<lambda>y. read_tier (read_tier_conditions (grp (pos_caps y) 1)) (pos_caps y) 2) (exec_all CHAIN_TIER None body)"

definition tryParseVisualConfig :: "string \<Rightarrow> visual_config option" where
  "tryParseVisualConfig exprStr =
     (if exprStr = [] then None
      else let body = expr_body exprStr
           in case match_full SINGLE_TIER body of
             Some m \<Rightarrow> Some (normalizeVisualConfig (Some \<lparr>vc_tiers = [read_tier [] m 1]\<rparr>))
           | None \<Rightarrow>
               (let tiers = chain_tiers body; cfg = normalizeVisualConfig (Some \<lparr>vc_tiers = tiers\<rparr>)
                in if tiers = [] then None
                   else if no_spaces (generateExprFromVisualConfig (Some cfg)) \<noteq> no_spaces body then None
                   else Some cfg))"

section \<open>The estimator\<close>

definition ESTIMATOR_VARS :: "(string \<times> string) list" where
  "ESTIMATOR_VARS = [(''cr'', ''cacheReadTokens''), (''cc'', ''cacheCreateTokens''), (''cc1h'', ''cacheCreate1hTokens''),
     (''img'', ''imageTokens''), (''img_o'', ''imageOutputTokens''), (''ai'', ''audioInputTokens''), (''ao'', ''audioOutputTokens'')]"

definition exprUsesExtraVars :: "string \<Rightarrow> bool" where
  "exprUsesExtraVars exprStr \<longleftrightarrow> exprStr \<noteq> [] \<and>
     search (seq [WordBound, Grp 1 (lits (map fst ESTIMATOR_VARS)), WordBound]) None exprStr \<noteq> None"

end
