(* ===== verification/TierExprFacts.thy ===== *)
theory TierExprFacts
  imports TierExpr BillingExprFacts
begin

text \<open>
  What the expression of a configuration of tiers keeps: the reader gives the tiers back, with the
  cache mode told from the price of a cache write of one hour.
\<close>

section \<open>Numbers as texts\<close>

lemma js_number_show:
  assumes ok: "dec_ok d"
  shows "js_number (show_dec d) = Num d"
proof (cases d)
  case (Dec m e)
  define k where "k = nat \<bar>m\<bar>"
  define ds where "ds = show_nat (k div 10 ^ e)"
  define fs where "fs = frac_digits e k"
  define tail where "tail = (if e = 0 then [] else ''.'' @ fs)"
  define s1 where "s1 = ds @ tail"
  have s: "show_dec d = (if m < 0 then ''-'' else []) @ s1"
    by (simp add: Dec k_def ds_def fs_def tail_def s1_def)
  have dig: "\<forall>c \<in> set ds. is_digit c" "\<forall>c \<in> set fs. is_digit c"
    by (auto simp: ds_def fs_def dest: show_nat_digits frac_digits_digits)
  have tl: "tail = [] \<or> \<not> is_digit (hd tail)" by (auto simp: tail_def)
  have tw: "takeWhile is_digit s1 = ds" "dropWhile is_digit s1 = tail"
    unfolding s1_def
    by (rule takeWhile_digits [OF dig(1) tl], rule dropWhile_digits [OF dig(1) tl])
  have ne: "ds \<noteq> []" and lz: "\<not> (1 < length ds \<and> hd ds = CHR ''0'')"
    unfolding ds_def by (simp, rule show_nat_no_leading_zero)
  have hd1: "is_digit (hd s1)" "s1 \<noteq> []"
    using ne hd_show_nat_digit [of "k div 10 ^ e"] by (simp_all add: s1_def ds_def)
  have nd: "hd s1 \<noteq> CHR ''-''" "hd s1 \<noteq> CHR ''+''" "hd s1 \<noteq> CHR ''I''" using hd1 by (auto simp: is_digit_def)
  have ws: "\<not> is_ws c" if "is_digit c \<or> c = CHR ''.'' \<or> c = CHR ''-''" for c using that by (auto simp: is_digit_def is_ws_def)
  have "\<not> is_ws (hd (show_dec d))" using ws hd1 unfolding s by (auto simp: hd_append)
  moreover have "\<not> is_ws (last (show_dec d))"
  proof -
    have "last (show_dec d) \<in> set s1" using hd1(2) unfolding s by (simp add: last_append)
    then have "is_digit (last (show_dec d)) \<or> last (show_dec d) = CHR ''.''" using dig by (auto simp: s1_def tail_def split: if_splits)
    with ws show ?thesis by blast
  qed
  ultimately have trim: "js_trim (show_dec d) = show_dec d" by (simp add: trim_by_eq_iff)
  have shown: "show_dec d \<noteq> []" unfolding s using hd1 by simp
  have signed: "(show_dec d \<noteq> [] \<and> (hd (show_dec d) = CHR ''-'' \<or> hd (show_dec d) = CHR ''+'')) = (m < 0)"
    unfolding s using hd1 nd by simp
  have neg: "((m < 0) \<and> hd (show_dec d) = CHR ''-'') = (m < 0)" unfolding s by simp
  have s1': "(if m < 0 then tl (show_dec d) else show_dec d) = s1" unfolding s by simp
  have k: "nat_of_digits (ds @ fs) = k" by (simp add: ds_def fs_def nat_of_digits_frac)
  have fs0: "fs = [] \<longleftrightarrow> e = 0" and len: "length fs = e"
    by (simp_all add: fs_def flip: length_0_conv)
  have dot: "(tail \<noteq> [] \<and> hd tail = CHR ''.'') = (e \<noteq> 0)" by (auto simp: tail_def)
  have frac: "(if e \<noteq> 0 then takeWhile is_digit (tl tail) else []) = fs"
    "(if e \<noteq> 0 then dropWhile is_digit (tl tail) else tail) = []"
    using dig(2) fs0 by (auto simp: tail_def takeWhile_eq_all_conv dropWhile_eq_Nil_conv)
  have radix: "\<not> (\<not> m < 0 \<and> 2 < length (show_dec d) \<and> hd (show_dec d) = CHR ''0'' \<and> radix_digits (show_dec d ! 1) \<noteq> [])"
  proof
    assume a: "\<not> m < 0 \<and> 2 < length (show_dec d) \<and> hd (show_dec d) = CHR ''0'' \<and> radix_digits (show_dec d ! 1) \<noteq> []"
    then have t: "show_dec d = ds @ tail" by (simp add: s s1_def)
    then have "hd ds = CHR ''0''" using a ne by simp
    then have "ds = ''0''" using lz ne by (cases ds) (auto simp: Suc_lessI)
    then show False using a t by (auto simp: tail_def radix_digits_def split: if_splits)
  qed
  have inf: "s1 \<noteq> ''Infinity''" using nd by auto
  have km: "(if m < 0 then - int k else int k) = m" by (simp add: k_def)
  have sc: "scale_dec m (- int e) = d"
    using ok norm_dec_ok [of m e] by (auto simp: scale_dec_def Dec)
  show ?thesis
    unfolding js_number_def Let_def trim signed neg s1' tw dot frac k if_not_P [OF shown] if_not_P [OF inf] if_not_P [OF radix]
    using ne sc by (simp add: parse_exponent_def km len)
qed

text \<open>The units of a number as it is written.\<close>

definition plain_num :: "char \<Rightarrow> bool" where
  "plain_num c \<longleftrightarrow> is_digit c \<or> c = CHR ''.'' \<or> c = CHR ''-''"

lemma show_dec_chars: "list_all plain_num (show_dec d)" "show_dec d \<noteq> []"
proof -
  obtain m e where d: "d = Dec m e" by (cases d)
  show "list_all plain_num (show_dec d)"
    unfolding d by (auto simp: list_all_iff plain_num_def dest: show_nat_digits frac_digits_digits split: if_splits)
  show "show_dec d \<noteq> []" unfolding d by simp
qed

lemma show_dec_positive: "\<not> d < int_dec 0 \<Longrightarrow> list_all bound_char (show_dec d)"
proof -
  assume p: "\<not> d < int_dec 0"
  obtain m e where d: "d = Dec m e" by (cases d)
  have "\<not> m < 0" using p by (simp add: d)
  then show ?thesis
    unfolding d by (auto simp: list_all_iff bound_char_def dest: show_nat_digits frac_digits_digits)
qed

lemma plain_num_facts: "plain_num c \<Longrightarrow> num_char c \<and> \<not> is_ws c \<and> c \<notin> set ''+*:?&)''"
  by (auto simp: plain_num_def num_char_def is_digit_def is_ws_def)

section \<open>Patterns\<close>

lemma run_seq_append: "run (seq (as @ bs)) x = concat (map (run (seq bs)) (run (seq as) x))"
proof (induction as arbitrary: x)
  case (Cons a as)
  have "concat (map (\<lambda>y. concat (f y)) zs) = concat (concat (map f zs))" for f :: "pos \<Rightarrow> pos list list" and zs
    by (induction zs) simp_all
  then show ?case by (simp add: seq_simps Cons.IH [abs_def] map_concat comp_def)
qed (simp add: seq_simps)

lemma run_opt_seq: "run (seq (opt (seq as) # bs)) x = run (seq (as @ bs)) x @ run (seq bs) x"
  by (simp add: run_seq_append opt_def seq_simps)

lemma rejects_many_seq: "\<forall>c. p c \<longrightarrow> \<not> d c \<Longrightarrow> rejects (seq rs) p \<Longrightarrow> rejects (seq (many d # rs)) p"
  by (auto simp: rejects_def seq_simps run_many)

lemma rejects_opt_seq: "rejects (seq as) p \<Longrightarrow> rejects (seq bs) p \<Longrightarrow> rejects (seq (opt (seq as) # bs)) p"
  by (simp add: rejects_def opt_def seq_simps)

lemma run_spaces_none: "s \<noteq> [] \<Longrightarrow> \<not> is_ws (hd s) \<Longrightarrow> run (seq (spaces # rs)) (q, s, m) = run (seq rs) (q, s, m)"
  by (cases s) (simp_all add: seq_simps run_many)

lemma run_spaces_one:
  assumes "rejects (seq rs) is_ws" and "s \<noteq> []" and "\<not> is_ws (hd s)"
  shows "run (seq (spaces # rs)) (q, CHR '' '' # s, m) = run (seq rs) (Some CHR '' '', s, m)"
proof -
  have "takeWhile is_ws (CHR '' '' # s) = '' ''" "dropWhile is_ws (CHR '' '' # s) = s"
    using assms(2,3) by (cases s; simp add: is_ws_def)+
  then show ?thesis unfolding run_many_seq [OF assms(1)] by simp
qed

section \<open>Coefficients\<close>

abbreviation plain_number :: "string \<Rightarrow> bool" where
  "plain_number w \<equiv> list_all plain_num w \<and> w \<noteq> []"

definition stops_number :: "string \<Rightarrow> bool" where
  "stops_number t \<longleftrightarrow> t \<noteq> [] \<and> \<not> num_char (hd t)"

lemma number_run:
  assumes "plain_number w" and "stops_number t" and "rejects (seq rs) plain_num"
  shows "run (seq (Grp i (some_of num_char) # rs)) (q, w @ t, m) = run (seq rs) (after_text w q, t, m(i \<mapsto> w))"
proof -
  have n: "list_all num_char w" using assms(1) plain_num_facts by (auto simp: list_all_iff)
  have tw: "takeWhile num_char (w @ t) = w" "dropWhile num_char (w @ t) = t"
    using takeWhile_stop [OF n, of "hd t" "tl t"] assms(2) by (simp_all add: stops_number_def)
  have "rejects (seq rs) (\<lambda>c. c \<in> set (takeWhile num_char (w @ t)))"
    using assms(1,3) unfolding tw rejects_def list_all_iff by blast
  then show ?thesis using run_grp_some_text [of rs num_char "w @ t" i q m] assms(1) by (simp add: tw)
qed

definition var_name :: "string \<Rightarrow> bool" where
  "var_name v \<longleftrightarrow> v \<noteq> [] \<and> (\<forall>c \<in> set v. \<not> is_ws c \<and> c \<noteq> CHR ''*'' \<and> c \<noteq> CHR ''+'')"

text \<open>\<open>var * w\<close>.\<close>

definition product :: "string \<Rightarrow> string \<Rightarrow> string" where
  "product var w = var @ '' * '' @ w"

lemma plain_num_hd: "plain_number w \<Longrightarrow> w @ t \<noteq> [] \<and> \<not> is_ws (hd (w @ t))"
  using plain_num_facts by (cases w) auto

lemma not_ws_ops: "\<not> is_ws CHR ''*''" "\<not> is_ws CHR ''+''" "is_ws CHR '' ''"
  by (simp_all add: is_ws_def)

lemma coeff_prefix:
  assumes "x \<noteq> []" "\<not> is_ws (hd x)"
  shows "run (seq (COEFF v i @ rs)) (q, product v x, m) = run (seq (Grp i (some_of num_char) # rs)) (Some CHR '' '', x, m)"
proof -
  have r: "rejects (seq (Grp i (some_of num_char) # rs)) is_ws"
    using num_char_plain by (intro rejects_seq) auto
  have "run (seq (COEFF v i @ rs)) (q, product v x, m) =
      run (seq (spaces # lit ''*'' # spaces # Grp i (some_of num_char) # rs)) (after_text v q, CHR '' '' # CHR ''*'' # CHR '' '' # x, m)"
    by (simp add: COEFF_def product_def run_lit_seq)
  also have "\<dots> = run (seq (spaces # Grp i (some_of num_char) # rs)) (Some CHR ''*'', CHR '' '' # x, m)"
    using not_ws_ops by (subst run_spaces_one) (simp_all add: rejects_seq run_lit_seq)
  also have "\<dots> = run (seq (Grp i (some_of num_char) # rs)) (Some CHR '' '', x, m)"
    by (rule run_spaces_one [OF r assms])
  finally show ?thesis .
qed

lemma coeff_run:
  assumes w: "plain_number w" and "stops_number t" and "rejects (seq rs) plain_num"
  shows "run (seq (COEFF v i @ rs)) (q, product v w @ t, m) = run (seq rs) (after_text w (Some CHR '' ''), t, m(i \<mapsto> w))"
proof -
  have "run (seq (COEFF v i @ rs)) (q, product v (w @ t), m) = run (seq (Grp i (some_of num_char) # rs)) (Some CHR '' '', w @ t, m)"
    by (rule coeff_prefix) (use plain_num_hd [OF w] in blast)+
  then show ?thesis unfolding number_run [OF assms] by (simp add: product_def)
qed

lemma coeff_other:
  assumes "var_name v" "var_name v'" "v \<noteq> v'"
  shows "run (seq (COEFF v i @ rs)) (q, product v' w @ t, m) = []"
proof (cases "prefix v (product v' w @ t)")
  case True
  have "v = v' \<or> (\<exists>c u. v' = v @ c # u)"
  proof (cases "length v \<le> length v'")
    case le: True
    then have "prefix v v'" using True prefix_length_prefix [of v _ v'] by (auto simp: product_def)
    then obtain u where "v' = v @ u" by (auto simp: prefix_def)
    then show ?thesis by (cases u) auto
  next
    case False
    then obtain u where "v = v' @ u" "u \<noteq> []" "prefix u ('' * '' @ w @ t)"
      using True by (auto simp: product_def prefix_def append_eq_append_conv2)
    then have "CHR '' '' \<in> set v" by (cases u) auto
    with assms(1) not_ws_ops show ?thesis by (auto simp: var_name_def)
  qed
  with assms(3) obtain c u where c: "v' = v @ c # u" by blast
  then have n: "\<not> is_ws c" "c \<noteq> CHR ''*''" using assms(2) by (auto simp: var_name_def)
  have "run (seq (COEFF v i @ rs)) (q, product v' w @ t, m) =
      run (seq (spaces # lit ''*'' # spaces # Grp i (some_of num_char) # rs)) (after_text v q, c # u @ '' * '' @ w @ t, m)"
    by (simp add: COEFF_def product_def run_lit_seq c)
  also have "\<dots> = []" using n by (subst run_spaces_none) (simp_all add: run_lit_seq)
  finally show ?thesis .
qed (simp add: COEFF_def run_lit_seq)

text \<open>The further summands: the variables with the number of each, where it has one.\<close>

fun extras_text :: "(string \<times> string option) list \<Rightarrow> string" where
  "extras_text [] = []"
| "extras_text ((v, None) # vws) = extras_text vws"
| "extras_text ((v, Some w) # vws) = '' + '' @ product v w @ extras_text vws"

fun extras_caps :: "nat \<Rightarrow> (string \<times> string option) list \<Rightarrow> (nat \<rightharpoonup> string) \<Rightarrow> (nat \<rightharpoonup> string)" where
  "extras_caps i [] m = m"
| "extras_caps i ((v, None) # vws) m = extras_caps (i + 1) vws m"
| "extras_caps i ((v, Some w) # vws) m = extras_caps (i + 1) vws (m(i \<mapsto> w))"

lemma summand_rejects:
  assumes "\<forall>c. p c \<longrightarrow> \<not> is_ws c \<and> c \<noteq> CHR ''+''"
  shows "rejects (seq (summand v i @ rs)) p"
proof -
  have "rejects (seq (lit ''+'' # spaces # COEFF v i @ rs)) p" by (rule rejects_seq) (use assms in auto)
  then show ?thesis unfolding summand_def append.simps append_assoc by (intro rejects_many_seq) (use assms in blast)+
qed

lemma summand_rejects_alone:
  assumes "\<forall>c. p c \<longrightarrow> \<not> is_ws c \<and> c \<noteq> CHR ''+''"
  shows "rejects (seq (summand v i)) p"
  using summand_rejects [OF assms, of v i "[]"] by simp

lemma extra_coeffs_rejects:
  assumes "\<forall>c. p c \<longrightarrow> \<not> is_ws c \<and> c \<noteq> CHR ''+''" and "rejects (seq rs) p"
  shows "rejects (seq (extra_coeffs i vs @ rs)) p"
proof (induction vs arbitrary: i)
  case (Cons v vs)
  show ?case unfolding extra_coeffs.simps append.simps(2)
    by (rule rejects_opt_seq [OF summand_rejects_alone [OF assms(1)] Cons])
qed (use assms in simp)

lemma product_hd: "var_name v \<Longrightarrow> product v w @ t \<noteq> [] \<and> \<not> is_ws (hd (product v w @ t))"
  by (cases v) (auto simp: var_name_def product_def)

lemma coeff_rejects_ws: "var_name v \<Longrightarrow> rejects (seq (COEFF v i @ rs)) is_ws"
proof -
  assume "var_name v"
  then obtain c u where "v = c # u" "\<not> is_ws c" by (cases v) (auto simp: var_name_def)
  then have "rejects (lit v) is_ws" by simp
  then show ?thesis unfolding COEFF_def append.simps(2) by (rule rejects_seq)
qed

lemma summand_run:
  assumes "var_name v" "var_name v'"
  shows "run (seq (summand v i @ rs)) (q, '' + '' @ product v' w @ t, m) =
    run (seq (COEFF v i @ rs)) (Some CHR '' '', product v' w @ t, m)"
proof -
  have "run (seq (summand v i @ rs)) (q, '' + '' @ product v' w @ t, m) =
      run (seq (lit ''+'' # spaces # COEFF v i @ rs)) (Some CHR '' '', CHR ''+'' # CHR '' '' # product v' w @ t, m)"
    using run_spaces_one [of "lit ''+'' # spaces # COEFF v i @ rs" "CHR ''+'' # CHR '' '' # product v' w @ t" q m] not_ws_ops
    by (simp add: rejects_seq summand_def)
  also have "\<dots> = run (seq (spaces # COEFF v i @ rs)) (Some CHR ''+'', CHR '' '' # product v' w @ t, m)"
    by (simp add: run_lit_seq)
  also have "\<dots> = run (seq (COEFF v i @ rs)) (Some CHR '' '', product v' w @ t, m)"
    by (rule run_spaces_one [OF coeff_rejects_ws [OF assms(1)]]) (use product_hd [OF assms(2)] in blast)+
  finally show ?thesis .
qed

lemma extras_skip:
  assumes "var_name v'" "\<forall>v \<in> set vs. var_name v" "v' \<notin> set vs"
  shows "run (seq (extra_coeffs i vs @ lit '')'' # rs)) (q, '' + '' @ product v' w @ t, m) = []"
  using assms(2,3)
proof (induction vs arbitrary: i)
  case (Cons v vs)
  then have "run (seq (summand v i @ extra_coeffs (i + 1) vs @ lit '')'' # rs)) (q, '' + '' @ product v' w @ t, m) = []"
    using summand_run [of v v'] coeff_other [of v v'] assms(1) by auto
  with Cons show ?case unfolding extra_coeffs.simps append.simps(2) run_opt_seq by simp
qed (simp add: run_lit_seq)

lemma extras_closed:
  "run (seq (summand v i @ rs)) (q, CHR '')'' # t, m) = []"
proof -
  have "\<not> is_ws CHR '')''" by (simp add: is_ws_def)
  then show ?thesis by (simp add: run_spaces_none run_lit_seq summand_def)
qed

lemma extras_stop: "stops_number (extras_text vws @ CHR '')'' # t)"
proof (induction vws rule: extras_text.induct)
  case (3 v w vws)
  show ?case by (simp add: stops_number_def not_num_char)
qed (simp_all add: stops_number_def not_num_char)

lemma extras_shape:
  "(\<exists>v w u. v \<in> set (map fst vws) \<and> extras_text vws @ t = '' + '' @ product v w @ u) \<or> extras_text vws = []"
  by (induction vws rule: extras_text.induct) auto

lemma extras_run:
  assumes "distinct (map fst vws)" "\<forall>v \<in> set (map fst vws). var_name v" "\<forall>w. Some w \<in> snd ` set vws \<longrightarrow> plain_number w"
  shows "\<exists>q'. run (seq (extra_coeffs i (map fst vws) @ lit '')'' # rs)) (q, extras_text vws @ CHR '')'' # t, m) =
    run (seq (lit '')'' # rs)) (q', CHR '')'' # t, extras_caps i vws m)"
  using assms
proof (induction vws arbitrary: i q m rule: extras_text.induct)
  case 1
  then show ?case by auto
next
  case (2 v vws)
  let ?s = "extras_text vws @ CHR '')'' # t"
  have none: "run (seq (summand v i @ extra_coeffs (i + 1) (map fst vws) @ lit '')'' # rs)) (q, ?s, m) = []"
  proof (cases "extras_text vws = []")
    case True
    then show ?thesis using extras_closed by simp
  next
    case False
    then obtain v' w u where u: "v' \<in> set (map fst vws)" "?s = '' + '' @ product v' w @ u"
      using extras_shape [of vws "CHR '')'' # t"] by blast
    then have "v' \<noteq> v" "var_name v'" "var_name v" using 2(2,3) by auto
    then show ?thesis unfolding u(2) using summand_run coeff_other by (simp del: append.simps)
  qed
  obtain q' where "run (seq (extra_coeffs (i + 1) (map fst vws) @ lit '')'' # rs)) (q, ?s, m) =
      run (seq (lit '')'' # rs)) (q', CHR '')'' # t, extras_caps (i + 1) vws m)"
    using 2(1) [of "i + 1" q m] 2(2-) by auto
  then show ?case using none unfolding list.map fst_conv extra_coeffs.simps append.simps(2) run_opt_seq by auto
next
  case (3 v w vws)
  let ?s = "extras_text vws @ CHR '')'' # t" and ?rest = "extra_coeffs (i + 1) (map fst vws) @ lit '')'' # rs"
  have v: "var_name v" "v \<notin> set (map fst vws)" "\<forall>v \<in> set (map fst vws). var_name v" and w: "plain_number w" using 3(2-) by auto
  have rej: "rejects (seq ?rest) plain_num"
    using plain_num_facts by (intro extra_coeffs_rejects rejects_seq) (auto simp: plain_num_def)
  have "run (seq (summand v i @ ?rest)) (q, '' + '' @ product v w @ ?s, m) = run (seq ?rest) (after_text w (Some CHR '' ''), ?s, m(i \<mapsto> w))"
    unfolding summand_run [OF v(1) v(1)] by (rule coeff_run [OF w extras_stop rej])
  moreover have "run (seq ?rest) (q, '' + '' @ product v w @ ?s, m) = []" using v extras_skip by blast
  moreover have "distinct (map fst vws)" "\<forall>w. Some w \<in> snd ` set vws \<longrightarrow> plain_number w" using 3(2,4) by auto
  then obtain q' where "run (seq ?rest) (after_text w (Some CHR '' ''), ?s, m(i \<mapsto> w)) =
      run (seq (lit '')'' # rs)) (q', CHR '')'' # t, extras_caps (i + 1) vws (m(i \<mapsto> w)))"
    using 3(1) [of "i + 1" "after_text w (Some CHR '' '')" "m(i \<mapsto> w)"] v(3) by blast
  ultimately show ?case unfolding list.map fst_conv extra_coeffs.simps append.simps(2) run_opt_seq extras_text.simps by auto
qed

section \<open>A tier\<close>

text \<open>Groups of the further summands, the \<open>i\<close>th on.\<close>

lemma extras_caps_at:
  "extras_caps i vws m j = (if i \<le> j \<and> j < i + length vws
     then (case snd (vws ! (j - i)) of None \<Rightarrow> m j | Some w \<Rightarrow> Some w) else m j)"
proof (induction i vws m rule: extras_caps.induct)
  case (2 i v vws m)
  then show ?case by (auto simp: nth_Cons' split: option.splits)
next
  case (3 i v w vws m)
  show ?case
  proof (cases "j = i")
    case False
    then have "(m(i \<mapsto> w)) j = m j" by simp
    then show ?thesis using 3 False unfolding extras_caps.simps by (auto simp: nth_Cons' simp del: fun_upd_apply split: option.splits)
  next
    case True
    have "(m(i \<mapsto> w)) i = Some w" by simp
    then show ?thesis using 3 True unfolding extras_caps.simps by (simp del: fun_upd_apply)
  qed
qed auto

definition cost_ok :: "jsnum \<Rightarrow> bool" where
  "cost_ok n \<longleftrightarrow> (case n of Num d \<Rightarrow> dec_ok d | _ \<Rightarrow> False)"

definition tier_ok :: "visual_tier \<Rightarrow> bool" where
  "tier_ok t \<longleftrightarrow> vt_label t \<noteq> [] \<and> list_all not_quote (vt_label t) \<and> dom (vt_costs t) = set COST_FIELDS \<and>
     (\<forall>f \<in> set COST_FIELDS. cost_ok (cost_of t f) \<and> vt_costs t f = Some (cost_of t f))"

lemma cost_text: "cost_ok n \<Longrightarrow> plain_number (show_num n) \<and> js_number (show_num n) = n \<and> num_or_zero n = n"
  using show_dec_chars js_number_show by (cases n) (simp_all add: cost_ok_def num_or_zero_def)

definition extra_numbers :: "visual_tier \<Rightarrow> (string \<times> string option) list" where
  "extra_numbers t = map (\<lambda>(f, v). (v, if cost_of t f \<noteq> Num (int_dec 0) then Some (show_num (cost_of t f)) else None)) BILLING_CACHE_VAR_MAP"

lemma join_first: "js_join sep (x # ys) = x @ concat (map ((@) sep) ys)"
  by (induction ys arbitrary: x) simp_all

lemma extras_text_filter:
  "extras_text (map (\<lambda>(f, v). (v, if P f then Some (s f) else None)) L) =
     concat (map ((@) '' + '') (map (\<lambda>(f, v). product v (s f)) (filter (\<lambda>(f, v). P f) L)))"
  by (induction L) auto

lemma body_text:
  "buildTierBodyExpr t = product ''p'' (show_num (cost_of t ''input_unit_cost'')) @ '' + '' @
     product ''c'' (show_num (cost_of t ''output_unit_cost'')) @ extras_text (extra_numbers t)"
  unfolding buildTierBodyExpr_def join_first extra_numbers_def extras_text_filter
  by (simp add: coeff_text_def [abs_def] product_def [abs_def])

lemma extra_names: "map fst (extra_numbers t) = map snd BILLING_CACHE_VAR_MAP"
  by (simp add: extra_numbers_def comp_def case_prod_beta)

lemma cache_vars: "map snd BILLING_CACHE_VAR_MAP = [''cr'', ''cc'', ''cc1h'', ''img'', ''img_o'', ''ai'', ''ao'']"
  "map fst BILLING_CACHE_VAR_MAP = [''cache_read_unit_cost'', ''cache_create_unit_cost'', ''cache_create_1h_unit_cost'',
     ''image_unit_cost'', ''image_output_unit_cost'', ''audio_input_unit_cost'', ''audio_output_unit_cost'']"
  by code_simp+

lemma cache_vars_ok: "distinct (map snd BILLING_CACHE_VAR_MAP)" "\<forall>v \<in> set (map snd BILLING_CACHE_VAR_MAP). var_name v"
  unfolding cache_vars by (simp_all add: var_name_def is_ws_def)

lemma extra_numbers_ok:
  assumes "tier_ok t"
  shows "\<forall>w. Some w \<in> snd ` set (extra_numbers t) \<longrightarrow> plain_number w"
proof -
  have "snd e = None \<or> (\<exists>f \<in> set (map fst L). snd e = Some (show_num (cost_of t f)))"
    if "e \<in> set (map (\<lambda>(f, v). (v, if cost_of t f \<noteq> Num (int_dec 0) then Some (show_num (cost_of t f)) else None)) L)" for e and L :: "(string \<times> string) list"
    using that by (fastforce split: if_splits)
  then have "snd e = None \<or> (\<exists>f \<in> set (map fst BILLING_CACHE_VAR_MAP). snd e = Some (show_num (cost_of t f)))" if "e \<in> set (extra_numbers t)" for e
    using that unfolding extra_numbers_def by blast
  moreover have "set (map fst BILLING_CACHE_VAR_MAP) \<subseteq> set COST_FIELDS" unfolding cache_vars COST_FIELDS_def by auto
  moreover have "plain_number (show_num (cost_of t f))" if "f \<in> set COST_FIELDS" for f
    using assms cost_text that unfolding tier_ok_def by blast
  ultimately show ?thesis by (metis (no_types, opaque_lifting) imageE option.distinct(1) option.inject subsetD)
qed

lemma body_run:
  assumes "tier_ok t"
  shows "\<exists>q'. run (seq (BODY_PAT i @ lit '')'' # rs)) (q, buildTierBodyExpr t @ CHR '')'' # u, m) =
    run (seq (lit '')'' # rs)) (q', CHR '')'' # u, extras_caps (i + 2) (extra_numbers t)
      (m(i \<mapsto> show_num (cost_of t ''input_unit_cost''), i + 1 \<mapsto> show_num (cost_of t ''output_unit_cost''))))"
proof -
  let ?p = "show_num (cost_of t ''input_unit_cost'')" and ?c = "show_num (cost_of t ''output_unit_cost'')"
  let ?x = "extras_text (extra_numbers t) @ CHR '')'' # u" and ?vs = "map snd BILLING_CACHE_VAR_MAP"
  let ?rest = "extra_coeffs (i + 2) ?vs @ lit '')'' # rs"
  have n: "plain_number ?p" "plain_number ?c"
    using assms cost_text by (simp_all add: tier_ok_def COST_FIELDS_def)
  have c: "var_name ''c''" by (simp add: var_name_def is_ws_def)
  have rej: "rejects (seq ?rest) plain_num"
    using plain_num_facts by (intro extra_coeffs_rejects rejects_seq) (auto simp: plain_num_def)
  have rej2: "rejects (seq (summand ''c'' (i + 1) @ ?rest)) plain_num"
    using plain_num_facts by (intro summand_rejects) auto
  have "run (seq (BODY_PAT i @ lit '')'' # rs)) (q, buildTierBodyExpr t @ CHR '')'' # u, m) =
      run (seq (COEFF ''p'' i @ summand ''c'' (i + 1) @ ?rest)) (q, product ''p'' ?p @ ('' + '' @ product ''c'' ?c @ ?x), m)"
    by (simp add: BODY_PAT_def body_text)
  also have "\<dots> = run (seq (summand ''c'' (i + 1) @ ?rest)) (after_text ?p (Some CHR '' ''), '' + '' @ product ''c'' ?c @ ?x, m(i \<mapsto> ?p))"
    by (rule coeff_run [OF n(1) _ rej2]) (simp add: stops_number_def not_num_char)
  also have "\<dots> = run (seq (COEFF ''c'' (i + 1) @ ?rest)) (Some CHR '' '', product ''c'' ?c @ ?x, m(i \<mapsto> ?p))"
    by (rule summand_run [OF c c])
  also have "\<dots> = run (seq ?rest) (after_text ?c (Some CHR '' ''), ?x, m(i \<mapsto> ?p, i + 1 \<mapsto> ?c))"
    by (rule coeff_run [OF n(2) extras_stop rej])
  finally show ?thesis
    using extras_run [of "extra_numbers t" "i + 2" rs "after_text ?c (Some CHR '' '')" u "m(i \<mapsto> ?p, i + 1 \<mapsto> ?c)"]
      cache_vars_ok extra_numbers_ok [OF assms] by (simp only: extra_names)
qed

text \<open>The groups of a tier, the label at \<open>i\<close>.\<close>

definition tier_caps :: "nat \<Rightarrow> visual_tier \<Rightarrow> (nat \<rightharpoonup> string) \<Rightarrow> (nat \<rightharpoonup> string)" where
  "tier_caps i t m = extras_caps (i + 3) (extra_numbers t)
     (m(i \<mapsto> vt_label t, i + 1 \<mapsto> show_num (cost_of t ''input_unit_cost''), i + 2 \<mapsto> show_num (cost_of t ''output_unit_cost'')))"

lemma body_starts: "buildTierBodyExpr t = CHR ''p'' # tl (buildTierBodyExpr t)"
  by (simp add: body_text product_def)

lemma coeff_p_rejects: "rejects (seq (BODY_PAT i @ rs)) is_ws"
  using coeff_rejects_ws [of "''p''"] by (simp add: BODY_PAT_def var_name_def is_ws_def)

lemma tier_run:
  assumes "tier_ok t"
  shows "run (seq (TIER_HEAD i @ BODY_PAT (i + 1) @ lit '')'' # rs)) (q, tier_text (vt_label t) t @ u, m) =
    run (seq rs) (Some CHR '')'', u, tier_caps i t m)"
proof -
  let ?l = "vt_label t" and ?body = "buildTierBodyExpr t @ CHR '')'' # u" and ?rs = "BODY_PAT (i + 1) @ lit '')'' # rs"
  have l: "list_all not_quote ?l" using assms by (simp add: tier_ok_def)
  have tw: "takeWhile not_quote (?l @ quote_char # w) = ?l" "dropWhile not_quote (?l @ quote_char # w) = quote_char # w" for w
    using takeWhile_stop [OF l, of quote_char w] by (simp_all add: not_quote_def)
  have shape: "tier_text ?l t @ u = (''tier('' @ [quote_char]) @ ?l @ quote_char # '', '' @ ?body"
    by (simp add: tier_text_def)
  have "run (seq (TIER_HEAD i @ ?rs)) (q, tier_text ?l t @ u, m) =
      run (seq (Grp i (many not_quote) # lit [quote_char, CHR '',''] # spaces # ?rs)) (Some quote_char, ?l @ quote_char # '', '' @ ?body, m)"
    unfolding shape TIER_HEAD_def append.simps by (simp add: run_lit_seq)
  also have "\<dots> = run (seq (lit [quote_char, CHR '',''] # spaces # ?rs)) (after_text ?l (Some quote_char), quote_char # '', '' @ ?body, m(i \<mapsto> ?l))"
    by (subst run_grp_many_seq) (simp_all add: rejects_seq not_quote_def tw)
  also have "\<dots> = run (seq (spaces # ?rs)) (Some CHR '','', CHR '' '' # ?body, m(i \<mapsto> ?l))"
    by (simp add: run_lit_seq)
  also have "\<dots> = run (seq ?rs) (Some CHR '' '', ?body, m(i \<mapsto> ?l))"
    by (rule run_spaces_one [OF coeff_p_rejects]) (subst body_starts, simp add: is_ws_def)+
  finally show ?thesis
    using body_run [OF assms, of "i + 1" rs "Some CHR '' ''" u "m(i \<mapsto> ?l)"]
    by (auto simp: tier_caps_def run_lit_seq add.commute add.left_commute numeral_3_eq_3 numeral_2_eq_2)
qed

definition reread :: "visual_tier \<Rightarrow> visual_tier" where
  "reread t = t\<lparr>vt_cache_mode := (if num_lt (Num (int_dec 0)) (cost_of t ''cache_create_1h_unit_cost'') then Timed else Generic)\<rparr>"

lemma tier_caps_head:
  "tier_caps i t m i = Some (vt_label t)" "tier_caps i t m (i + 1) = Some (show_num (cost_of t ''input_unit_cost''))"
  "tier_caps i t m (i + 2) = Some (show_num (cost_of t ''output_unit_cost''))" "j < i \<Longrightarrow> tier_caps i t m j = m j"
  by (simp_all add: tier_caps_def extras_caps_at)

abbreviation cache_fields :: "string list" where
  "cache_fields \<equiv> map fst BILLING_CACHE_VAR_MAP"

lemma cost_fields: "COST_FIELDS = ''input_unit_cost'' # ''output_unit_cost'' # cache_fields" "distinct COST_FIELDS" "length cache_fields = 7"
  unfolding cache_vars COST_FIELDS_def by simp_all

lemma extra_number_at:
  assumes "k < 7"
  shows "snd (extra_numbers t ! k) =
    (if cost_of t (cache_fields ! k) \<noteq> Num (int_dec 0) then Some (show_num (cost_of t (cache_fields ! k))) else None)"
    "length (extra_numbers t) = 7"
proof -
  have len: "length BILLING_CACHE_VAR_MAP = 7" using cost_fields(3) by simp
  show "length (extra_numbers t) = 7" by (simp add: extra_numbers_def len)
  show "snd (extra_numbers t ! k) =
    (if cost_of t (cache_fields ! k) \<noteq> Num (int_dec 0) then Some (show_num (cost_of t (cache_fields ! k))) else None)"
    using assms len unfolding extra_numbers_def by (simp add: case_prod_beta)
qed

lemma read_cost:
  assumes t: "tier_ok t" and m: "\<forall>j \<ge> i. m j = None"
  shows "f \<in> set COST_FIELDS \<Longrightarrow> num_or_zero (num_cost (read_costs (tier_caps i t m) (i + 1)) f) = cost_of t f"
    "f \<notin> set COST_FIELDS \<Longrightarrow> read_costs (tier_caps i t m) (i + 1) f = None"
    "num_lt (Num (int_dec 0)) (num_cost (read_costs (tier_caps i t m) (i + 1)) ''cache_create_1h_unit_cost'') =
       num_lt (Num (int_dec 0)) (cost_of t ''cache_create_1h_unit_cost'')"
proof -
  note head = tier_caps_head(1-3) [of i t m]
  have ok: "js_number (show_num (cost_of t f)) = cost_of t f" "num_or_zero (cost_of t f) = cost_of t f" if "f \<in> set COST_FIELDS" for f
    using t cost_text that by (simp_all add: tier_ok_def)
  have len: "length cache_fields = length [i + 1 + 2..<i + 1 + 9]" using cost_fields(3) by simp
  have cache: "read_costs (tier_caps i t m) (i + 1) (cache_fields ! k) =
      (if cost_of t (cache_fields ! k) \<noteq> Num (int_dec 0) then Some (cost_of t (cache_fields ! k)) else None)" if k: "k < 7" for k
  proof -
    have mem: "cache_fields ! k \<in> set cache_fields" using k cost_fields(3) by (intro nth_mem) simp
    then have ne: "cache_fields ! k \<noteq> ''input_unit_cost''" "cache_fields ! k \<noteq> ''output_unit_cost''"
      using cost_fields(2) unfolding cost_fields(1) by (metis distinct.simps(2) list.set_intros(2))+
    have dist: "distinct cache_fields" using cost_fields(2) unfolding cost_fields(1) by simp
    have "map_of (zip cache_fields [i + 1 + 2..<i + 1 + 9]) (cache_fields ! k) = Some ([i + 1 + 2..<i + 1 + 9] ! k)"
      by (rule map_of_zip_nth [OF len dist]) (use k in simp)
    then have look: "map_of (zip cache_fields [i + 1 + 2..<i + 1 + 9]) (cache_fields ! k) = Some (i + 3 + k)"
      using k by (simp add: nth_upt del: upt_Suc)
    have "tier_caps i t m (i + 3 + k) = snd (extra_numbers t ! k)"
      using k m extra_number_at(2) [OF k, of t] by (simp add: tier_caps_def extras_caps_at split: option.splits)
    moreover have "cache_fields ! k \<in> set COST_FIELDS" using mem unfolding cost_fields(1) by (metis list.set_intros(2))
    ultimately show ?thesis
      using extra_number_at(1) [OF k, of t] ok(1)
      unfolding read_costs_def if_not_P [OF ne(1)] if_not_P [OF ne(2)] look option.case by simp
  qed
  have cost: "num_or_zero (num_cost (read_costs (tier_caps i t m) (i + 1)) f) = cost_of t f" if f: "f \<in> set COST_FIELDS" for f
  proof -
    consider "f = ''input_unit_cost''" | "f = ''output_unit_cost''" | "f \<in> set cache_fields" using f unfolding cost_fields(1) by auto
    then show ?thesis
    proof cases
      case 3
      then obtain k where "k < 7" "f = cache_fields ! k" unfolding in_set_conv_nth cost_fields(3) by blast
      moreover have "num_or_zero NaN = Num (int_dec 0)" by (simp add: num_or_zero_def)
      ultimately show ?thesis using cache ok(2) [OF f] by (simp add: num_cost_def)
    qed (use f ok head in \<open>simp_all add: num_cost_def read_costs_def grp_def\<close>)
  qed
  then show "f \<in> set COST_FIELDS \<Longrightarrow> num_or_zero (num_cost (read_costs (tier_caps i t m) (i + 1)) f) = cost_of t f" .
  show "f \<notin> set COST_FIELDS \<Longrightarrow> read_costs (tier_caps i t m) (i + 1) f = None"
  proof -
    assume "f \<notin> set COST_FIELDS"
    then have f: "f \<noteq> ''input_unit_cost''" "f \<noteq> ''output_unit_cost''" "f \<notin> set cache_fields" unfolding cost_fields(1) by auto
    then have "map_of (zip cache_fields [i + 1 + 2..<i + 1 + 9]) f = None"
      using len by (metis map_of_zip_is_None)
    then show ?thesis unfolding read_costs_def if_not_P [OF f(1)] if_not_P [OF f(2)] by simp
  qed
  have "cache_fields ! 2 = ''cache_create_1h_unit_cost''" unfolding cache_vars by simp
  with cache [of 2] show "num_lt (Num (int_dec 0)) (num_cost (read_costs (tier_caps i t m) (i + 1)) ''cache_create_1h_unit_cost'') =
       num_lt (Num (int_dec 0)) (cost_of t ''cache_create_1h_unit_cost'')"
    by (simp add: num_cost_def num_lt_def)
qed

lemma read_tier_caps:
  assumes t: "tier_ok t" and m: "\<forall>j \<ge> i. m j = None"
  shows "read_tier conds (tier_caps i t m) i = (reread t)\<lparr>vt_conditions := map read_input conds\<rparr>"
proof -
  have "(\<lambda>f. if f \<in> set COST_FIELDS then Some (num_or_zero (num_cost (read_costs (tier_caps i t m) (i + 1)) f))
      else read_costs (tier_caps i t m) (i + 1) f) = vt_costs t"
  proof
    fix f
    have "f \<notin> set COST_FIELDS \<Longrightarrow> vt_costs t f = None" "f \<in> set COST_FIELDS \<Longrightarrow> vt_costs t f = Some (cost_of t f)"
      using t unfolding tier_ok_def by blast+
    then show "(if f \<in> set COST_FIELDS then Some (num_or_zero (num_cost (read_costs (tier_caps i t m) (i + 1)) f))
      else read_costs (tier_caps i t m) (i + 1) f) = vt_costs t f"
      using read_cost(1,2) [OF t m] by simp
  qed
  then have "vt_costs (read_tier conds (tier_caps i t m) i) = vt_costs t"
    unfolding read_tier_def normalizeVisualTier_def visual_tier.select_convs partial_tier.select_convs .
  then show ?thesis
    using read_cost(3) [OF t m] tier_caps_head(1) [of i t m]
    by (intro visual_tier.equality) (simp_all add: read_tier_def normalizeVisualTier_def getTierCacheMode_def reread_def grp_def)
qed

end
