(* ===== verification/TierChain.thy ===== *)
theory TierChain
  imports TierExprFacts
begin

text \<open>
  A chain of tiers with conditions: the expression that is written for it is read back as the same
  tiers.
\<close>

section \<open>A condition\<close>

definition input_ok :: "tier_input \<Rightarrow> bool" where
  "input_ok c \<longleftrightarrow> ti_var c \<in> set [''p'', ''c'', ''len''] \<and> ti_op c \<in> set [''<'', ''<='', ''>'', ''>=''] \<and>
     (case ti_value c of BoundNum (Num d) \<Rightarrow> dec_ok d \<and> \<not> d < int_dec 0 | _ \<Rightarrow> False)"

definition input_text :: "tier_input \<Rightarrow> string" where
  "input_text c = ti_var c @ '' '' @ ti_op c @ '' '' @ show_bound (ti_value c)"

lemma input_number:
  assumes "input_ok c"
  shows "list_all bound_char (show_bound (ti_value c))" "show_bound (ti_value c) \<noteq> []"
    "BoundNum (js_number (show_bound (ti_value c))) = ti_value c"
  using assms show_dec_positive show_dec_chars(2) js_number_show
  by (auto simp: input_ok_def split: bound_value.splits jsnum.splits)

lemma usable_input: "input_ok c \<Longrightarrow> usable_condition c"
  by (auto simp: input_ok_def usable_condition_def split: bound_value.splits)

lemma condition_text: "list_all input_ok cs \<Longrightarrow> buildConditionStr cs = js_join '' && '' (map input_text cs)"
proof -
  assume "list_all input_ok cs"
  then have "filter usable_condition cs = cs" using usable_input by (simp add: filter_id_conv list_all_iff)
  then show ?thesis by (simp add: buildConditionStr_def input_text_def [abs_def])
qed

lemma in_lits: "w \<in> set ws \<Longrightarrow> (after_text w q, u, m) \<in> set (run (lits ws) (q, w @ u, m))"
  by (induction ws rule: lits.induct) (auto simp: run_lit lits.simps)

lemma in_space: "(Some CHR '' '', s, m) \<in> set (run spaces (q, CHR '' '' # s, m))"
proof -
  have "length (takeWhile is_ws (CHR '' '' # s)) \<ge> 1" by (simp add: is_ws_def)
  moreover have "stops q (CHR '' '' # s) m 1 = (Some CHR '' '', s, m)" by (simp add: stops_def)
  ultimately show ?thesis unfolding run_many set_map set_rev set_upt by (intro image_eqI [of _ _ 1]) (simp_all add: is_ws_def)
qed

lemma in_some: "list_all p w \<Longrightarrow> w \<noteq> [] \<Longrightarrow> (after_text w q, u, m) \<in> set (run (some_of p) (q, w @ u, m))"
proof -
  assume w: "list_all p w" "w \<noteq> []"
  have "length w \<le> length (takeWhile p (w @ u))" using w(1) by (simp add: takeWhile_append list_all_iff takeWhile_eq_all_conv)
  moreover have "stops q (w @ u) m (length w) = (after_text w q, u, m)" by (simp add: stops_def)
  ultimately show ?thesis using w(2) unfolding run_some set_map set_rev set_upt
    by (intro image_eqI [of _ _ "length w"]) (simp_all add: Suc_le_eq)
qed

lemma in_nil: "x \<in> set (run (seq []) x)"
  by (simp add: seq_simps)

lemma in_lit: "(after_text w q, u, m) \<in> set (run (lit w) (q, w @ u, m))"
  by (simp add: run_lit)

lemma in_append: "z \<in> set (run (seq as) x) \<Longrightarrow> y \<in> set (run (seq bs) z) \<Longrightarrow> y \<in> set (run (seq (as @ bs)) x)"
  by (auto simp: run_seq_append)

lemma condition_found:
  assumes "input_ok c"
  shows "\<exists>q'. (q', u, m) \<in> set (run (seq [cond_vars, spaces, cond_ops, spaces, some_of bound_char]) (q, input_text c @ u, m))"
proof -
  let ?w = "show_bound (ti_value c)"
  have v: "ti_var c \<in> set [''p'', ''c'', ''len'']" and o': "ti_op c \<in> set [''<'', ''<='', ''>'', ''>='']"
    using assms by (simp_all add: input_ok_def)
  have "(after_text ?w (Some CHR '' ''), u, m) \<in> set (run (seq [some_of bound_char]) (Some CHR '' '', ?w @ u, m))"
    by (rule in_seq [OF in_some in_nil]) (rule input_number [OF assms])+
  from in_seq [OF in_lits [OF v, folded cond_vars_def] in_seq [OF in_space in_seq [OF in_lits [OF o', folded cond_ops_def]
      in_seq [OF in_space this]]]]
  show ?thesis by (auto simp: input_text_def)
qed

section \<open>The conditions of a tier\<close>

definition conds_text :: "tier_input list \<Rightarrow> string" where
  "conds_text cs = js_join '' && '' (map input_text cs)"

definition cond_one :: "re list" where
  "cond_one = [cond_vars, spaces, cond_ops, spaces, some_of bound_char]"

definition cond_more :: re where
  "cond_more = seq ([spaces, lit ''&&'', spaces] @ cond_one)"

lemma cond_group: "COND_GROUP = seq (cond_one @ [Star cond_more])"
  by (simp add: COND_GROUP_def cond_one_def cond_more_def)

lemma more_found:
  assumes "input_ok c"
  shows "\<exists>q'. (q', u, m) \<in> set (run cond_more (q, '' && '' @ input_text c @ u, m))"
proof -
  obtain q1 where "(q1, u, m) \<in> set (run (seq cond_one) (Some CHR '' '', input_text c @ u, m))"
    using condition_found [OF assms, folded cond_one_def] by blast
  from in_seq [OF in_space [of _ _ q] in_seq [OF in_lit [of "''&&''"] in_seq [OF in_space this]]]
  show ?thesis by (auto simp: cond_more_def)
qed

definition more_text :: "tier_input list \<Rightarrow> string" where
  "more_text cs = concat (map (\<lambda>c. '' && '' @ input_text c) cs)"

lemma star_found:
  "list_all input_ok cs \<Longrightarrow> \<exists>q'. (q', u, m) \<in> set (run (Star cond_more) (q, more_text cs @ u, m))"
proof (induction cs arbitrary: q)
  case Nil
  have t: "more_text [] @ u = u" by (simp add: more_text_def)
  show ?case unfolding t by (rule exI [of _ q], rule star_none)
next
  case (Cons d cs)
  have ok: "input_ok d" "list_all input_ok cs" using Cons.prems by simp_all
  have shape: "more_text (d # cs) @ u = '' && '' @ input_text d @ more_text cs @ u" by (simp add: more_text_def)
  obtain q1 where one: "(q1, more_text cs @ u, m) \<in> set (run cond_more (q, '' && '' @ input_text d @ more_text cs @ u, m))"
    using more_found [OF ok(1), of "more_text cs @ u" m q] by blast
  obtain q2 where two: "(q2, u, m) \<in> set (run (Star cond_more) (q1, more_text cs @ u, m))"
    using Cons.IH [OF ok(2), of q1] by blast
  have "length (more_text cs @ u) < length ('' && '' @ input_text d @ more_text cs @ u)" by simp
  then have "(q2, u, m) \<in> set (run (Star cond_more) (q, '' && '' @ input_text d @ more_text cs @ u, m))"
    by (rule star_step [OF one _ two, unfolded fst_conv snd_conv])
  then show ?case unfolding shape by (rule exI [of _ q2])
qed

lemma conds_found:
  assumes "list_all input_ok (c # cs)"
  shows "\<exists>q'. (q', u, m) \<in> set (run COND_GROUP (q, conds_text (c # cs) @ u, m))"
proof -
  have ok: "input_ok c" "list_all input_ok cs" using assms by simp_all
  have shape: "conds_text (c # cs) @ u = input_text c @ more_text cs @ u"
    by (simp add: conds_text_def more_text_def join_first comp_def)
  obtain q1 where one: "(q1, more_text cs @ u, m) \<in> set (run (seq cond_one) (q, input_text c @ more_text cs @ u, m))"
    using condition_found [OF ok(1), of "more_text cs @ u" m q, folded cond_one_def] by blast
  from ok(2) obtain q2 where "(q2, u, m) \<in> set (run (Star cond_more) (q1, more_text cs @ u, m))" using star_found by blast
  then have "(q2, u, m) \<in> set (run (seq [Star cond_more]) (q1, more_text cs @ u, m))" by (rule in_seq [OF _ in_nil])
  from in_append [OF one this] show ?thesis unfolding cond_group shape by (rule exI [of _ q2])
qed

section \<open>Every reading of the conditions\<close>

lemma cond_group_over: "over (\<lambda>c. c \<noteq> CHR ''?'') COND_GROUP" "no_groups COND_GROUP"
proof -
  have o: "over (\<lambda>c. c \<noteq> CHR ''?'') cond_vars" "over (\<lambda>c. c \<noteq> CHR ''?'') cond_ops" "no_groups cond_vars" "no_groups cond_ops"
    by (simp_all add: cond_vars_def cond_ops_def lits.simps) (simp_all add: lit_def)
  show "over (\<lambda>c. c \<noteq> CHR ''?'') COND_GROUP"
    using o by (auto simp: COND_GROUP_def many_def some_of_def is_ws_def bound_char_def is_digit_def)
  show "no_groups COND_GROUP"
    using o by (simp add: COND_GROUP_def many_def some_of_def seq_simps) (simp add: lit_def)
qed

definition after_bound :: "pos \<Rightarrow> bool" where
  "after_bound y \<longleftrightarrow> (\<exists>c. fst y = Some c \<and> bound_char c)"

lemma some_bound_after: "y \<in> set (run (some_of bound_char) x) \<Longrightarrow> after_bound y"
proof -
  assume y: "y \<in> set (run (some_of bound_char) x)"
  obtain q s m where x: "x = (q, s, m)" by (cases x) auto
  from y obtain i where i: "1 \<le> i" "i \<le> length (takeWhile bound_char s)" "y = stops q s m i"
    unfolding x run_some by (auto simp del: upt_Suc)
  have le: "i \<le> length s" using i(2) length_takeWhile_le [of bound_char s] by simp
  have ne: "take i s \<noteq> []" using i(1) le by auto
  have "last (take i s) = s ! (i - 1)" using i(1) le by (subst last_conv_nth [OF ne]) (simp add: min_def)
  moreover have "bound_char (s ! (i - 1))"
    using i by (metis One_nat_def Suc_le_lessD Suc_pred' le_simps(1) less_le_trans nth_mem set_takeWhileD takeWhile_nth zero_less_one)
  ultimately show ?thesis using ne unfolding i(3) after_bound_def stops_def after_text_def by simp
qed

lemma seq_last: "y \<in> set (run (seq (rs @ [r])) x) \<Longrightarrow> \<exists>z. y \<in> set (run r z)"
  by (auto simp: run_seq_append seq_simps)

lemma cond_group_after:
  assumes "y \<in> set (run COND_GROUP x)"
  shows "after_bound y"
proof -
  have one: "after_bound z" if "z \<in> set (run (seq cond_one) x)" for z x
    using seq_last [of z "[cond_vars, spaces, cond_ops, spaces]" "some_of bound_char" x] that some_bound_after
    unfolding cond_one_def append.simps by blast
  have more: "after_bound z" if "z \<in> set (run cond_more x)" for z x
    using seq_last [of z "[spaces, lit ''&&'', spaces, cond_vars, spaces, cond_ops, spaces]" "some_of bound_char" x] that some_bound_after
    unfolding cond_more_def cond_one_def append.simps by blast
  from assms obtain z where z: "z \<in> set (run (seq cond_one) x)" "y \<in> set (run (seq [Star cond_more]) z)"
    unfolding cond_group run_seq_append by auto
  then have "y \<in> set (repeat_greedy (length (pos_rest z)) (run cond_more) z)" by (simp add: seq_simps)
  then show ?thesis using repeat_invariant [of after_bound "run cond_more" z y] more one [OF z(1)] by blast
qed

text \<open>What the first group of the pattern is: the text up to the question mark, without the space.\<close>

lemma strip_spaces:
  assumes "w @ u = v @ '' ''" "\<forall>c \<in> set u. is_ws c" "\<not> is_ws (last w)" "w \<noteq> []" "\<not> is_ws (last v)" "v \<noteq> []"
  shows "w = v"
proof -
  have drop: "dropWhile is_ws (rev (w @ u)) = rev w" if "\<forall>c \<in> set u. is_ws c" "\<not> is_ws (last w)" "w \<noteq> []" for w u
    using that by (simp add: dropWhile_append hd_rev dropWhile_eq_self_iff dropWhile_eq_Nil_conv)
  have "rev w = rev v"
    using drop [OF assms(2,3,4)] drop [of "'' ''" v] assms(1,5,6) by (simp add: is_ws_def)
  then show ?thesis by simp
qed

lemma cond_group_unique:
  assumes y: "y \<in> set (run COND_GROUP (q, s @ '' ? '' @ t, m))" and s: "CHR ''?'' \<notin> set s" "s \<noteq> []" "\<not> is_ws (hd s)" "\<not> is_ws (last s)"
    and next_: "run (seq (spaces # lit ''?'' # rs)) y' \<noteq> []" "pos_rest y' = pos_rest y"
  shows "\<exists>q'. y = (q', '' ? '' @ t, m)"
proof -
  obtain q1 u m1 where y1: "y = (q1, u, m1)" by (rule prod_cases3)
  obtain q2 u2 m2 where "y' = (q2, u2, m2)" by (rule prod_cases3)
  then have y2: "y' = (q2, u, m2)" using next_(2) y1 by simp
  have "m1 = m" using run_no_groups [OF cond_group_over(2) y] by (simp add: y1)
  obtain w where w: "s @ '' ? '' @ t = w @ u" "q1 = after_text w q" "list_all (\<lambda>c. c \<noteq> CHR ''?'') w"
    using run_consumes [OF cond_group_over(1) y] unfolding consumes_def y1 fst_conv snd_conv by blast
  obtain c where c: "q1 = Some c" "bound_char c" using cond_group_after [OF y] unfolding after_bound_def y1 fst_conv by blast
  have rej: "rejects (seq (lit ''?'' # rs)) is_ws" by (rule rejects_seq) (simp add: is_ws_def)
  have "prefix ''?'' (dropWhile is_ws u)"
    using next_(1) unfolding y2 run_many_seq [OF rej] run_lit_seq by (rule contrapos_np) simp
  then obtain r where r: "dropWhile is_ws u = CHR ''?'' # r" by (auto simp: prefix_def)
  define sp where "sp = takeWhile is_ws u"
  have u: "u = sp @ CHR ''?'' # r" using r takeWhile_dropWhile_id [of is_ws u] by (simp add: sp_def)
  have ws: "\<forall>c \<in> set sp. is_ws c" using set_takeWhileD by (fastforce simp: sp_def)
  have "\<not> is_ws CHR ''?''" by (simp add: is_ws_def)
  with ws have nq: "CHR ''?'' \<notin> set sp" by blast
  have split: "takeWhile (\<lambda>c. c \<noteq> CHR ''?'') (a @ CHR ''?'' # b) = a" if "CHR ''?'' \<notin> set a" for a b
  proof -
    have "list_all (\<lambda>c. c \<noteq> CHR ''?'') a" using that unfolding list_all_iff by blast
    from takeWhile_stop [OF this] show ?thesis by simp
  qed
  have eq: "(s @ '' '') @ CHR ''?'' # ('' '' @ t) = (w @ sp) @ CHR ''?'' # r" using w(1) by (simp add: u)
  have "takeWhile (\<lambda>c. c \<noteq> CHR ''?'') ((s @ '' '') @ CHR ''?'' # ('' '' @ t)) = s @ '' ''" by (rule split) (use s in simp)
  moreover have "takeWhile (\<lambda>c. c \<noteq> CHR ''?'') ((w @ sp) @ CHR ''?'' # r) = w @ sp"
    by (rule split) (use w(3) nq in \<open>auto simp: list_all_iff\<close>)
  ultimately have ws_eq: "w @ sp = s @ '' ''" using eq by simp
  have "w \<noteq> []"
  proof
    assume "w = []"
    then have "s @ '' '' = sp" using ws_eq by simp
    then have "hd s \<in> set sp" using s(2) by (metis Un_iff hd_in_set set_append)
    with ws s(3) show False by blast
  qed
  moreover have "\<not> is_ws c" using c(2) by (auto simp: bound_char_def is_ws_def is_digit_def)
  then have "\<not> is_ws (last w)" using w(2) c(1) \<open>w \<noteq> []\<close> by (simp add: after_text_def)
  ultimately have "w = s" using strip_spaces [OF ws_eq ws _ _ s(4,2)] by blast
  then show ?thesis using w(1) y1 \<open>m1 = m\<close> by auto
qed

section \<open>One tier of a chain\<close>

definition tier_tail :: "re list" where
  "tier_tail = TIER_HEAD 2 @ BODY_PAT 3 @ [lit '')'']"

lemma tier_tail_run:
  assumes "tier_ok t"
  shows "run (seq tier_tail) (q, tier_text (vt_label t) t @ u, m) = [(Some CHR '')'', u, tier_caps 2 t m)]"
proof -
  have "run (seq (TIER_HEAD 2 @ BODY_PAT (2 + 1) @ lit '')'' # [])) (q, tier_text (vt_label t) t @ u, m) =
      run (seq []) (Some CHR '')'', u, tier_caps 2 t m)" by (rule tier_run [OF assms])
  then show ?thesis by (simp add: tier_tail_def seq_simps(1))
qed

lemma tier_tail_other: "w \<noteq> [] \<Longrightarrow> hd w \<noteq> CHR ''t'' \<Longrightarrow> run (seq tier_tail) (q, w, m) = []"
  by (cases w) (simp_all add: tier_tail_def TIER_HEAD_def run_lit_seq)

lemma cond_vars_other: "w \<noteq> [] \<Longrightarrow> hd w \<notin> set ''pcl'' \<Longrightarrow> run cond_vars (q, w, m) = []"
  by (cases w) (auto simp: cond_vars_def lits.simps run_lit)

lemma cond_group_other: "w \<noteq> [] \<Longrightarrow> hd w \<notin> set ''pcl'' \<Longrightarrow> run COND_GROUP (q, w, m) = []"
  by (simp add: COND_GROUP_def seq_simps(2) cond_vars_other del: run.simps(5))

lemma chain_tier: "CHAIN_TIER = seq (opt (seq [Grp 1 COND_GROUP, spaces, lit ''?'', spaces]) # tier_tail)"
  by (simp add: CHAIN_TIER_def tier_tail_def)

lemma chain_run: "run CHAIN_TIER x = run (seq (Grp 1 COND_GROUP # spaces # lit ''?'' # spaces # tier_tail)) x @ run (seq tier_tail) x"
  unfolding chain_tier run_opt_seq by simp

lemma chain_other: "w \<noteq> [] \<Longrightarrow> hd w \<notin> set ''pclt'' \<Longrightarrow> run CHAIN_TIER (q, w, m) = []"
  unfolding chain_run by (simp add: tier_tail_other cond_group_other seq_simps(2))

lemma tier_text_hd: "tier_text l t @ u \<noteq> [] \<and> hd (tier_text l t @ u) = CHR ''t''"
  by (simp add: tier_text_def)

lemma chain_plain:
  assumes "tier_ok t"
  shows "run CHAIN_TIER (q, tier_text (vt_label t) t @ u, m) = [(Some CHR '')'', u, tier_caps 2 t m)]"
proof -
  have "run COND_GROUP (q, tier_text (vt_label t) t @ u, m) = []"
    using tier_text_hd by (intro cond_group_other) simp_all
  then show ?thesis unfolding chain_run tier_tail_run [OF assms] by (simp add: seq_simps(2))
qed

lemma after_condition:
  assumes "tier_ok t"
  shows "run (seq (spaces # lit ''?'' # spaces # tier_tail)) (q, '' ? '' @ tier_text (vt_label t) t @ u, m) =
    [(Some CHR '')'', u, tier_caps 2 t m)]"
proof -
  let ?w = "tier_text (vt_label t) t @ u"
  have ws: "\<not> is_ws CHR ''?''" "\<not> is_ws CHR ''t''" by (simp_all add: is_ws_def)
  have r1: "rejects (seq (lit ''?'' # spaces # tier_tail)) is_ws" by (rule rejects_seq) (simp add: ws)
  have r2: "rejects (seq tier_tail) is_ws" unfolding tier_tail_def TIER_HEAD_def append.simps by (rule rejects_seq) (simp add: ws)
  have "run (seq (spaces # lit ''?'' # spaces # tier_tail)) (q, CHR '' '' # ''? '' @ ?w, m) =
      run (seq (lit ''?'' # spaces # tier_tail)) (Some CHR '' '', ''? '' @ ?w, m)"
    by (rule run_spaces_one [OF r1]) (simp_all add: ws)
  also have "\<dots> = run (seq (spaces # tier_tail)) (Some CHR ''?'', CHR '' '' # ?w, m)" by (simp add: run_lit_seq)
  also have "\<dots> = run (seq tier_tail) (Some CHR '' '', ?w, m)"
    by (rule run_spaces_one [OF r2]) (use tier_text_hd [of "vt_label t" t u] ws in simp_all)
  finally show ?thesis using tier_tail_run [OF assms] by simp
qed

definition proper_conds :: "tier_input list \<Rightarrow> bool" where
  "proper_conds cs \<longleftrightarrow> cs \<noteq> [] \<and> list_all input_ok cs"

lemma input_shape:
  assumes "input_ok c"
  shows "CHR ''?'' \<notin> set (input_text c)" "input_text c \<noteq> []" "hd (input_text c) \<in> set ''pcl''" "\<not> is_ws (last (input_text c))"
    "CHR ''&'' \<notin> set (input_text c)"
proof -
  let ?w = "show_bound (ti_value c)"
  have v: "ti_var c \<in> {''p'', ''c'', ''len''}" and op: "ti_op c \<in> {''<'', ''<='', ''>'', ''>=''}"
    using assms by (simp_all add: input_ok_def)
  have w: "list_all bound_char ?w" "?w \<noteq> []" using input_number [OF assms] by simp_all
  have bc: "\<not> bound_char CHR ''?''" "\<not> bound_char CHR ''&''" by (simp_all add: bound_char_def is_digit_def)
  then have nw: "CHR ''?'' \<notin> set ?w" "CHR ''&'' \<notin> set ?w" using w(1) unfolding list_all_iff by blast+
  have vn: "CHR ''?'' \<notin> set (ti_var c)" "CHR ''&'' \<notin> set (ti_var c)" "ti_var c \<noteq> []" "hd (ti_var c) \<in> set ''pcl''"
    using v by auto
  have on: "CHR ''?'' \<notin> set (ti_op c)" "CHR ''&'' \<notin> set (ti_op c)" using op by auto
  show "CHR ''?'' \<notin> set (input_text c)" "CHR ''&'' \<notin> set (input_text c)" "input_text c \<noteq> []" "hd (input_text c) \<in> set ''pcl''"
    using nw vn on by (simp_all add: input_text_def)
  have "last (input_text c) \<in> set ?w" using w(2) by (simp add: input_text_def)
  then have "bound_char (last (input_text c))" using w(1) unfolding list_all_iff by blast
  then show "\<not> is_ws (last (input_text c))" by (auto simp: bound_char_def is_digit_def is_ws_def)
qed

lemma conds_shape:
  assumes "proper_conds cs"
  shows "CHR ''?'' \<notin> set (conds_text cs)" "conds_text cs \<noteq> []" "hd (conds_text cs) \<in> set ''pcl''" "\<not> is_ws (last (conds_text cs))"
proof -
  have ok: "list_all input_ok cs" "cs \<noteq> []" using assms by (simp_all add: proper_conds_def)
  then have "CHR ''?'' \<notin> set (conds_text cs) \<and> conds_text cs \<noteq> [] \<and> hd (conds_text cs) \<in> set ''pcl'' \<and> \<not> is_ws (last (conds_text cs))"
  proof (induction cs)
    case (Cons c cs)
    have c: "input_ok c" using Cons.prems by simp
    note s = input_shape [OF c]
    show ?case
    proof (cases "cs = []")
      case False
      have t: "conds_text (c # cs) = input_text c @ '' && '' @ conds_text cs" using False by (simp add: conds_text_def js_join_Cons)
      have "hd (conds_text (c # cs)) = hd (input_text c)" unfolding t using s(2) by simp
      then show ?thesis using Cons False s unfolding t by simp
    qed (use s in \<open>simp add: conds_text_def\<close>)
  qed simp
  then show "CHR ''?'' \<notin> set (conds_text cs)" "conds_text cs \<noteq> []" "hd (conds_text cs) \<in> set ''pcl''" "\<not> is_ws (last (conds_text cs))"
    by blast+
qed

lemma chain_conds:
  assumes t: "tier_ok t" and cs: "proper_conds cs"
  shows "\<exists>zs. run CHAIN_TIER (q, conds_text cs @ '' ? '' @ tier_text (vt_label t) t @ u, m) =
    (Some CHR '')'', u, tier_caps 2 t (m(1 \<mapsto> conds_text cs))) # zs"
proof -
  let ?s = "conds_text cs" and ?w = "tier_text (vt_label t) t @ u"
  let ?x = "(q, ?s @ '' ? '' @ ?w, m)" and ?R = "spaces # lit ''?'' # spaces # tier_tail"
  let ?y = "(Some CHR '')'', u, tier_caps 2 t (m(1 \<mapsto> ?s)))"
  note s = conds_shape [OF cs]
  have hd: "\<not> is_ws (hd ?s)" using s(3) by (auto simp: is_ws_def)
  have none: "run (seq tier_tail) ?x = []" using s(2,3) by (intro tier_tail_other) auto
  have grp: "run (Grp 1 COND_GROUP) ?x = map (\<lambda>y. (fst y, pos_rest y, (snd (snd y))(1 \<mapsto> take (length (?s @ '' ? '' @ ?w) - length (pos_rest y)) (?s @ '' ? '' @ ?w)))) (run COND_GROUP ?x)"
    by simp
  have all: "z = ?y" if z: "z \<in> set (run (seq (Grp 1 COND_GROUP # ?R)) ?x)" for z
  proof -
    from z obtain y where y: "y \<in> set (run COND_GROUP ?x)"
      "z \<in> set (run (seq ?R) (fst y, pos_rest y, (snd (snd y))(1 \<mapsto> take (length (?s @ '' ? '' @ ?w) - length (pos_rest y)) (?s @ '' ? '' @ ?w))))"
      unfolding seq_simps(2) [of "Grp 1 COND_GROUP"] run.simps(3) grp by auto
    from y(2) have "run (seq ?R) (fst y, pos_rest y, (snd (snd y))(1 \<mapsto> take (length (?s @ '' ? '' @ ?w) - length (pos_rest y)) (?s @ '' ? '' @ ?w))) \<noteq> []"
      by force
    from cond_group_unique [OF y(1) s(1,2) hd s(4) this] obtain q' where q': "y = (q', '' ? '' @ ?w, m)" by auto
    have "take (length (?s @ '' ? '' @ ?w) - length ('' ? '' @ ?w)) (?s @ '' ? '' @ ?w) = ?s" by simp
    then show ?thesis using y(2) unfolding q' fst_conv snd_conv after_condition [OF t] by simp
  qed
  obtain c cs' where "cs = c # cs'" "list_all input_ok (c # cs')" using cs by (cases cs) (auto simp: proper_conds_def)
  then obtain q' where q': "(q', '' ? '' @ ?w, m) \<in> set (run COND_GROUP ?x)" using conds_found [of c cs' "'' ? '' @ ?w" m q] by auto
  have "(q', '' ? '' @ ?w, m(1 \<mapsto> ?s)) \<in> set (run (Grp 1 COND_GROUP) ?x)" unfolding grp using q' by force
  then have "?y \<in> set (run (seq (Grp 1 COND_GROUP # ?R)) ?x)"
    by (rule in_seq) (simp only: after_condition [OF t] list.set insert_iff simp_thms)
  then obtain z zs where z: "run (seq (Grp 1 COND_GROUP # ?R)) ?x = z # zs" by (cases "run (seq (Grp 1 COND_GROUP # ?R)) ?x") auto
  have "z = ?y" by (rule all) (simp only: z list.set insert_iff simp_thms)
  then show ?thesis unfolding chain_run none append_Nil2 z by (intro exI [of _ zs]) (simp only:)
qed

section \<open>Reading the conditions\<close>

lemma bound_tail:
  assumes w: "list_all bound_char w" "w \<noteq> []"
  shows "run (seq [spaces, Grp 3 (some_of bound_char), AtEnd]) (q, CHR '' '' # w, m) = [(after_text w (Some CHR '' ''), [], m(3 \<mapsto> w))]"
    "run (seq [spaces, Grp 3 (some_of bound_char), AtEnd]) (q, CHR ''='' # rest, m) = []"
proof -
  have tw: "takeWhile bound_char w = w" "dropWhile bound_char w = []" using takeWhile_end [OF w(1)] by simp_all
  have rb: "rejects (seq [Grp 3 (some_of bound_char), AtEnd]) is_ws"
    by (rule rejects_seq) (auto simp: bound_char_def is_digit_def is_ws_def)
  have ra: "rejects (seq [AtEnd]) bound_char" by (rule rejects_seq) simp
  have "bound_char (hd w)" using w by (cases w) simp_all
  then have "\<not> is_ws (hd w)" by (auto simp: bound_char_def is_digit_def is_ws_def)
  then show "run (seq [spaces, Grp 3 (some_of bound_char), AtEnd]) (q, CHR '' '' # w, m) = [(after_text w (Some CHR '' ''), [], m(3 \<mapsto> w))]"
    using w(2) by (simp add: run_spaces_one [OF rb] run_grp_some_seq [OF ra] tw run_end_seq)
  have "\<not> is_ws CHR ''=''" "\<not> bound_char CHR ''=''" by (simp_all add: is_ws_def bound_char_def is_digit_def)
  then show "run (seq [spaces, Grp 3 (some_of bound_char), AtEnd]) (q, CHR ''='' # rest, m) = []"
    by (simp add: run_spaces_none run_grp_some_seq [OF ra])
qed

lemma op_tail:
  assumes op: "op \<in> {''<'', ''<='', ''>'', ''>=''}" and w: "list_all bound_char w" "w \<noteq> []"
  shows "run (seq [Grp 2 cond_ops, spaces, Grp 3 (some_of bound_char), AtEnd]) (q, op @ CHR '' '' # w, m) =
    [(after_text w (Some CHR '' ''), [], m(2 \<mapsto> op, 3 \<mapsto> w))]"
proof -
  note tail = bound_tail [OF w]
  have "run (seq [Grp 2 cond_ops, spaces, Grp 3 (some_of bound_char), AtEnd]) (q, op @ CHR '' '' # w, m) =
      concat (map (\<lambda>v. run (seq [Grp 2 (lit v), spaces, Grp 3 (some_of bound_char), AtEnd]) (q, op @ CHR '' '' # w, m)) [''<'', ''<='', ''>'', ''>=''])"
    unfolding cond_ops_def by (rule run_grp_lits_seq) simp
  also have "\<dots> = [(after_text w (Some CHR '' ''), [], m(2 \<mapsto> op, 3 \<mapsto> w))]"
    using op by (elim insertE emptyE) (simp_all add: run_grp_lit_seq tail)
  finally show ?thesis .
qed

lemma condition_match:
  assumes "input_ok c"
  shows "\<exists>g. match_full TIER_COND_REGEX (input_text c) = Some g \<and>
    read_input \<lparr>tc_var = grp g 1, tc_op = grp g 2, tc_value = js_number (grp g 3)\<rparr> = c"
proof -
  let ?w = "show_bound (ti_value c)" and ?tail = "[Grp 2 cond_ops, spaces, Grp 3 (some_of bound_char), AtEnd]"
  note n = input_number [OF assms]
  have v: "ti_var c \<in> {''p'', ''c'', ''len''}" and op: "ti_op c \<in> {''<'', ''<='', ''>'', ''>=''}"
    using assms by (simp_all add: input_ok_def)
  have r: "rejects (seq ?tail) is_ws"
    unfolding cond_ops_def by (intro rejects_seq) (simp add: rejects_lits is_ws_def)
  have hd: "ti_op c @ CHR '' '' # ?w \<noteq> []" "\<not> is_ws (hd (ti_op c @ CHR '' '' # ?w))" using op by (auto simp: is_ws_def)
  let ?g = "[1 \<mapsto> ti_var c, 2 \<mapsto> ti_op c, 3 \<mapsto> ?w]"
  have tail: "run (seq (spaces # ?tail)) (q, CHR '' '' # ti_op c @ CHR '' '' # ?w, m) = [(after_text ?w (Some CHR '' ''), [], m(2 \<mapsto> ti_op c, 3 \<mapsto> ?w))]" for q m
    unfolding run_spaces_one [OF r hd] by (rule op_tail [OF op n(1,2)])
  have "run (seq (Grp 1 cond_vars # spaces # ?tail)) (None, ti_var c @ CHR '' '' # ti_op c @ CHR '' '' # ?w, Map.empty) =
      concat (map (\<lambda>v. run (seq (Grp 1 (lit v) # spaces # ?tail)) (None, ti_var c @ CHR '' '' # ti_op c @ CHR '' '' # ?w, Map.empty)) [''p'', ''c'', ''len''])"
    unfolding cond_vars_def by (rule run_grp_lits_seq) simp
  also have "\<dots> = [(after_text ?w (Some CHR '' ''), [], ?g)]"
    using v by (elim insertE emptyE) (simp_all add: run_grp_lit_seq tail)
  finally have "run (seq (TIER_COND_REGEX @ [AtEnd])) (None, input_text c, Map.empty) = [(after_text ?w (Some CHR '' ''), [], ?g)]"
    by (simp add: TIER_COND_REGEX_def input_text_def)
  from match_full_run [OF this] n(3) show ?thesis by (cases c) (simp add: grp_def read_input_def)
qed

lemma and_rejects: "rejects (seq [lit ''&&'', spaces]) is_ws"
  by (rule rejects_seq) (simp add: is_ws_def)

lemma and_none:
  assumes "\<not> prefix ''&&'' (dropWhile is_ws s)" shows "run AND_REGEX (q, s, m) = []"
  unfolding AND_REGEX_def run_many_seq [OF and_rejects] run_lit_seq using assms by simp

lemma seq_single: "run (seq [r]) x = run r x"
proof -
  have "concat (map (run Nothing) ys) = ys" for ys by (induction ys) simp_all
  then show ?thesis by (simp add: seq_simps)
qed

lemma and_here:
  assumes "t \<noteq> []" "\<not> is_ws (hd t)"
  shows "\<exists>zs. run AND_REGEX (q, '' && '' @ t, m) = (Some CHR '' '', t, m) # zs"
proof -
  have tw: "takeWhile is_ws (CHR '' '' # t) = '' ''" using assms by (cases t) (simp_all add: is_ws_def)
  have "run AND_REGEX (q, CHR '' '' # ''&& '' @ t, m) = run (seq [lit ''&&'', spaces]) (Some CHR '' '', ''&& '' @ t, m)"
    unfolding AND_REGEX_def by (rule run_spaces_one [OF and_rejects]) (simp_all add: is_ws_def)
  also have "\<dots> = run spaces (Some CHR ''&'', CHR '' '' # t, m)" by (simp add: run_lit_seq seq_single)
  also have "\<dots> = [(Some CHR '' '', t, m), (Some CHR ''&'', CHR '' '' # t, m)]"
    unfolding run_many tw by (simp add: stops_def)
  finally show ?thesis by simp
qed

definition no_and :: "string \<Rightarrow> bool" where
  "no_and w \<longleftrightarrow> CHR ''&'' \<notin> set w \<and> (w = [] \<or> \<not> is_ws (last w))"

lemma no_and_tail: "no_and (c # w) \<Longrightarrow> no_and w"
  by (auto simp: no_and_def split: if_splits)

lemma no_and_here:
  assumes "no_and w" "w \<noteq> []" shows "run AND_REGEX (q, w @ t, m) = []"
proof (rule and_none)
  have "\<not> (\<forall>x \<in> set w. is_ws x)" using assms by (auto simp: no_and_def)
  then obtain c u where d: "dropWhile is_ws w = c # u" by (metis dropWhile_eq_Nil_conv neq_Nil_conv)
  then have "c \<in> set w" by (metis list.set_intros(1) set_dropWhileD)
  then have "c \<noteq> CHR ''&''" using assms(1) by (auto simp: no_and_def)
  moreover have "dropWhile is_ws (w @ t) = c # u @ t"
    using d \<open>\<not> (\<forall>x \<in> set w. is_ws x)\<close> by (auto simp: dropWhile_append)
  ultimately show "\<not> prefix ''&&'' (dropWhile is_ws (w @ t))" by simp
qed

lemma search_and:
  assumes "t \<noteq> []" "\<not> is_ws (hd t)"
  shows "no_and w \<Longrightarrow> search AND_REGEX q (w @ '' && '' @ t) = Some (w, (Some CHR '' '', t, Map.empty))"
proof (induction w arbitrary: q)
  case Nil
  obtain zs where "run AND_REGEX (q, '' && '' @ t, Map.empty) = (Some CHR '' '', t, Map.empty) # zs" using and_here [OF assms] by blast
  then show ?case by (subst search.simps) simp
next
  case (Cons c w)
  have "run AND_REGEX (q, (c # w) @ '' && '' @ t, Map.empty) = []" by (rule no_and_here [OF Cons.prems]) simp
  then show ?case using Cons.IH no_and_tail [OF Cons.prems] by (subst search.simps) simp
qed

lemma search_and_none: "no_and w \<Longrightarrow> search AND_REGEX q w = None"
proof (induction w arbitrary: q)
  case Nil
  have "run AND_REGEX (q, [], Map.empty) = []" by (rule and_none) simp
  then show ?case by (subst search.simps) simp
next
  case (Cons c w)
  have "run AND_REGEX (q, (c # w) @ [], Map.empty) = []" by (rule no_and_here [OF Cons.prems]) simp
  then show ?case using Cons.IH no_and_tail [OF Cons.prems] by (subst search.simps) simp
qed

lemma split_conds:
  "cs \<noteq> [] \<Longrightarrow> list_all input_ok cs \<Longrightarrow> split_re AND_REGEX q (conds_text cs) = map input_text cs"
proof (induction cs arbitrary: q)
  case (Cons c cs)
  have c: "input_ok c" and cs: "list_all input_ok cs" using Cons.prems(2) by simp_all
  have na: "no_and (input_text c)" using input_shape [OF c] by (simp add: no_and_def)
  show ?case
  proof (cases "cs = []")
    case True
    then show ?thesis using search_and_none [OF na] by (subst split_re.simps) (simp add: conds_text_def)
  next
    case False
    have p: "proper_conds cs" using False cs by (simp add: proper_conds_def)
    have t: "conds_text (c # cs) = input_text c @ '' && '' @ conds_text cs" using False by (simp add: conds_text_def js_join_Cons)
    have hd: "\<not> is_ws (hd (conds_text cs))" using conds_shape(3) [OF p] by (auto simp: is_ws_def)
    have "search AND_REGEX q (input_text c @ '' && '' @ conds_text cs) = Some (input_text c, (Some CHR '' '', conds_text cs, Map.empty))"
      by (rule search_and [OF conds_shape(2) [OF p] hd na])
    then show ?thesis unfolding t using Cons.IH [OF False cs] by (subst split_re.simps) simp
  qed
qed simp

lemma read_conds:
  assumes "proper_conds cs"
  shows "map read_input (read_tier_conditions (conds_text cs)) = cs"
proof -
  have ok: "cs \<noteq> []" "list_all input_ok cs" using assms by (simp_all add: proper_conds_def)
  let ?read = "\<lambda>cp. map_option (\<lambda>m. \<lparr>tc_var = grp m 1, tc_op = grp m 2, tc_value = js_number (grp m 3)\<rparr>) (match_full TIER_COND_REGEX (js_trim cp))"
  have "map read_input (List.map_filter ?read (map input_text cs)) = cs" using ok(2)
  proof (induction cs)
    case (Cons c cs)
    then have c: "input_ok c" by simp
    have "js_trim (input_text c) = input_text c"
      using input_shape(3,4) [OF c] by (intro trim_by_id) (auto simp: is_ws_def)
    moreover obtain g where "match_full TIER_COND_REGEX (input_text c) = Some g"
      "read_input \<lparr>tc_var = grp g 1, tc_op = grp g 2, tc_value = js_number (grp g 3)\<rparr> = c" using condition_match [OF c] by blast
    ultimately show ?case using Cons by (simp add: List.map_filter_simps)
  qed (simp add: List.map_filter_simps)
  then show ?thesis using split_conds [OF ok] conds_shape(2) [OF assms] by (simp add: read_tier_conditions_def)
qed

section \<open>The whole chain\<close>

fun chain_text :: "visual_tier list \<Rightarrow> string" where
  "chain_text [] = []"
| "chain_text [t] = tier_text (vt_label t) t"
| "chain_text (t # t' # ts) = conds_text (vt_conditions t) @ '' ? '' @ tier_text (vt_label t) t @ '' : '' @ chain_text (t' # ts)"

fun chain_ok :: "visual_tier list \<Rightarrow> bool" where
  "chain_ok [] \<longleftrightarrow> False"
| "chain_ok [t] \<longleftrightarrow> tier_ok t \<and> vt_conditions t = []"
| "chain_ok (t # t' # ts) \<longleftrightarrow> tier_ok t \<and> proper_conds (vt_conditions t) \<and> chain_ok (t' # ts)"

lemma exec_at:
  assumes "run r (q, s, Map.empty) = y # zs" "length (pos_rest y) < length s"
  shows "exec_all r q s = y # exec_all r (fst y) (pos_rest y)"
proof -
  have "search r q s = Some ([], y)" using assms(1) by (subst search.simps) simp
  then show ?thesis using assms(2) by (subst exec_all.simps) simp
qed

lemma exec_colon:
  assumes "run CHAIN_TIER (Some CHR '' '', s, Map.empty) = y # zs" "length (pos_rest y) < length s"
  shows "exec_all CHAIN_TIER q ('' : '' @ s) = y # exec_all CHAIN_TIER (fst y) (pos_rest y)"
proof -
  have none: "run CHAIN_TIER (p, c # w, Map.empty) = []" if "c = CHR '' '' \<or> c = CHR '':''" for p c w
    using that by (intro chain_other) auto
  have "search CHAIN_TIER (Some CHR '' '') s = Some ([], y)" using assms(1) by (subst search.simps) simp
  then have "search CHAIN_TIER q (CHR '' '' # CHR '':'' # CHR '' '' # s) = Some ('' : '', y)"
    by (subst search.simps, simp add: none, subst search.simps, simp add: none, subst search.simps, simp add: none, cases y, simp)
  then show ?thesis using assms(2) by (subst exec_all.simps) simp
qed

lemma exec_end: "exec_all CHAIN_TIER q [] = []"
proof -
  have "run CHAIN_TIER (q, [], m) = []" for m
    unfolding chain_run by (simp add: seq_simps(2) COND_GROUP_def cond_vars_def lits.simps run_lit tier_tail_def TIER_HEAD_def del: run.simps(5))
  then have "search CHAIN_TIER q [] = None" by (subst search.simps) simp
  then show ?thesis by (subst exec_all.simps) simp
qed

text \<open>The first match of a chain, and where it stops.\<close>

definition chain_rest :: "visual_tier list \<Rightarrow> string" where
  "chain_rest ts = (if length ts \<le> 1 then [] else '' : '' @ chain_text (tl ts))"

definition chain_caps :: "visual_tier list \<Rightarrow> (nat \<rightharpoonup> string)" where
  "chain_caps ts = tier_caps 2 (hd ts) (if length ts \<le> 1 then Map.empty else [1 \<mapsto> conds_text (vt_conditions (hd ts))])"

lemma chain_first:
  assumes "chain_ok ts"
  shows "\<exists>zs. run CHAIN_TIER (q, chain_text ts, Map.empty) = (Some CHR '')'', chain_rest ts, chain_caps ts) # zs"
    "length (chain_rest ts) < length (chain_text ts)"
proof -
  show "length (chain_rest ts) < length (chain_text ts)"
    using assms by (cases ts rule: chain_text.cases) (simp_all add: chain_rest_def tier_text_def)
  show "\<exists>zs. run CHAIN_TIER (q, chain_text ts, Map.empty) = (Some CHR '')'', chain_rest ts, chain_caps ts) # zs"
  proof (cases ts rule: chain_text.cases)
    case 1
    with assms show ?thesis by simp
  next
    case (2 t)
    then show ?thesis using chain_plain [of t q "[]"] assms by (simp add: chain_rest_def chain_caps_def)
  next
    case (3 t t' ts')
    then have t: "tier_ok t" "proper_conds (vt_conditions t)" using assms by simp_all
    have "chain_text ts = conds_text (vt_conditions t) @ '' ? '' @ tier_text (vt_label t) t @ chain_rest ts"
      by (simp add: 3 chain_rest_def)
    moreover have "chain_caps ts = tier_caps 2 t [1 \<mapsto> conds_text (vt_conditions t)]" by (simp add: 3 chain_caps_def)
    ultimately show ?thesis using chain_conds [OF t, of q "chain_rest ts" Map.empty] by simp
  qed
qed

abbreviation tier_of :: "pos \<Rightarrow> visual_tier" where
  "tier_of y \<equiv> read_tier (read_tier_conditions (grp (pos_caps y) 1)) (pos_caps y) 2"

lemma reread_conditions: "(reread t)\<lparr>vt_conditions := vt_conditions t\<rparr> = reread t"
  by (simp add: reread_def)

lemma tier_of_chain:
  assumes "chain_ok ts"
  shows "tier_of (Some CHR '')'', chain_rest ts, chain_caps ts) = reread (hd ts)"
proof (cases ts rule: chain_text.cases)
  case 1
  with assms show ?thesis by simp
next
  case (2 t)
  then have t: "tier_ok t" "vt_conditions t = []" using assms by simp_all
  have "grp (tier_caps 2 t Map.empty) 1 = []" using tier_caps_head(4) [of 1 2 t Map.empty] by (simp add: grp_def)
  then show ?thesis using read_tier_caps [OF t(1), of 2 Map.empty "[]"] t(2) reread_conditions [of t]
    by (simp add: 2 chain_caps_def pos_caps_def read_tier_conditions_def)
next
  case (3 t t' ts')
  then have t: "tier_ok t" "proper_conds (vt_conditions t)" using assms by simp_all
  let ?m = "[1 \<mapsto> conds_text (vt_conditions t)]"
  have "grp (tier_caps 2 t ?m) 1 = conds_text (vt_conditions t)" using tier_caps_head(4) [of 1 2 t ?m] by (simp add: grp_def)
  then show ?thesis using read_tier_caps [OF t(1), of 2 ?m] read_conds [OF t(2)] reread_conditions [of t]
    by (simp add: 3 chain_caps_def pos_caps_def)
qed

lemma chain_exec:
  "chain_ok ts \<Longrightarrow> map tier_of (exec_all CHAIN_TIER q (chain_text ts)) = map reread ts \<and>
     map tier_of (exec_all CHAIN_TIER q ('' : '' @ chain_text ts)) = map reread ts"
proof (induction ts arbitrary: q rule: chain_text.induct)
  case (2 t)
  let ?y = "(Some CHR '')'', chain_rest [t], chain_caps [t])"
  have "chain_rest [t] = []" by (simp add: chain_rest_def)
  moreover have "exec_all CHAIN_TIER q (chain_text [t]) = ?y # exec_all CHAIN_TIER (fst ?y) (pos_rest ?y)"
    using chain_first(1) [OF 2, of q] chain_first(2) [OF 2] exec_at by fastforce
  moreover have "exec_all CHAIN_TIER q ('' : '' @ chain_text [t]) = ?y # exec_all CHAIN_TIER (fst ?y) (pos_rest ?y)"
    using chain_first(1) [OF 2, of "Some CHR '' ''"] chain_first(2) [OF 2] exec_colon by fastforce
  ultimately show ?case using tier_of_chain [OF 2] by (simp add: exec_end)
next
  case (3 t t' ts)
  let ?ts = "t # t' # ts"
  let ?y = "(Some CHR '')'', chain_rest ?ts, chain_caps ?ts)"
  have rest: "chain_rest ?ts = '' : '' @ chain_text (t' # ts)" by (simp add: chain_rest_def)
  have ok: "chain_ok (t' # ts)" using 3(2) by simp
  have "exec_all CHAIN_TIER q (chain_text ?ts) = ?y # exec_all CHAIN_TIER (fst ?y) (pos_rest ?y)"
    using chain_first(1) [OF 3(2), of q] chain_first(2) [OF 3(2)] exec_at by fastforce
  moreover have "exec_all CHAIN_TIER q ('' : '' @ chain_text ?ts) = ?y # exec_all CHAIN_TIER (fst ?y) (pos_rest ?y)"
    using chain_first(1) [OF 3(2), of "Some CHR '' ''"] chain_first(2) [OF 3(2)] exec_colon by fastforce
  moreover have "map tier_of (exec_all CHAIN_TIER (fst ?y) (pos_rest ?y)) = map reread (t' # ts)"
    unfolding rest fst_conv snd_conv using 3(1) [OF ok] by blast
  ultimately show ?case using tier_of_chain [OF 3(2)] by simp
qed simp

section \<open>A single tier with conditions\<close>

lemma product_not_cond:
  assumes "v = ''p'' \<or> v = ''c''"
  shows "run CHAIN_TIER (q, v @ '' * '' @ w, m) = []"
proof -
  let ?rest = "[spaces, some_of bound_char, Star cond_more]"
  have r: "rejects (seq (cond_ops # ?rest)) is_ws"
    unfolding cond_ops_def by (intro rejects_seq) (simp add: rejects_lits is_ws_def)
  have "run (seq (cond_ops # ?rest)) (q, ''* '' @ w, m) = []" for q m
    by (simp add: seq_simps(2) cond_ops_def lits.simps run_lit)
  then have t: "run (seq (spaces # cond_ops # ?rest)) (q, '' * '' @ w, m) = []" for q m
    using run_spaces_one [OF r, of "''* '' @ w" q m] by (simp add: is_ws_def)
  have "run cond_vars (q, v @ '' * '' @ w, m) = [(after_text v q, '' * '' @ w, m)]"
    using assms by (auto simp: cond_vars_def lits.simps run_lit)
  then have "run COND_GROUP (q, v @ '' * '' @ w, m) = []"
    unfolding cond_group cond_one_def append.simps seq_simps(2) [of cond_vars] run.simps(3) using t by simp
  then have "run (seq (Grp 1 COND_GROUP # rs)) (q, v @ '' * '' @ w, m) = []" for rs
    unfolding seq_simps(2) run.simps(3,6) by simp
  moreover have "run (seq tier_tail) (q, v @ '' * '' @ w, m) = []" by (rule tier_tail_other) (use assms in auto)
  ultimately show ?thesis unfolding chain_run by simp
qed

lemma chain_skip:
  "c \<in> set '' :*0+'' \<Longrightarrow> search CHAIN_TIER p (c # w) = map_option (\<lambda>(v, y). (c # v, y)) (search CHAIN_TIER (Some c) w)"
proof -
  assume c: "c \<in> set '' :*0+''"
  have "run CHAIN_TIER (p, c # w, Map.empty) = []" using c by (intro chain_other) auto
  then show ?thesis by (subst search.simps) simp
qed

lemma zero_search: "search CHAIN_TIER p ZERO_EXPR = None"
proof -
  have p: "search CHAIN_TIER p (CHR ''p'' # '' * '' @ w) = map_option (\<lambda>(v, y). (CHR ''p'' # v, y)) (search CHAIN_TIER (Some CHR ''p'') ('' * '' @ w))" for p w
    using product_not_cond [of "''p''" p w Map.empty] by (subst search.simps) simp
  have c: "search CHAIN_TIER p (CHR ''c'' # '' * '' @ w) = map_option (\<lambda>(v, y). (CHR ''c'' # v, y)) (search CHAIN_TIER (Some CHR ''c'') ('' * '' @ w))" for p w
    using product_not_cond [of "''c''" p w Map.empty] by (subst search.simps) simp
  have e: "search CHAIN_TIER p [] = None" for p using exec_end [of p] by (subst (asm) exec_all.simps) (auto split: option.splits if_splits)
  show ?thesis using p [of _ "''0 + c * 0''"] c [of _ "''0''"] by (simp add: ZERO_EXPR_def chain_skip e)
qed

lemma zero_end: "exec_all CHAIN_TIER q ('' : '' @ ZERO_EXPR) = []"
proof -
  have "search CHAIN_TIER q ('' : '' @ ZERO_EXPR) = None" by (simp add: chain_skip zero_search)
  then show ?thesis by (subst exec_all.simps) simp
qed

text \<open>Configurations as the editor writes them: a chain, or a single tier with conditions.\<close>

definition config_ok :: "visual_tier list \<Rightarrow> bool" where
  "config_ok ts \<longleftrightarrow> chain_ok ts \<or> (\<exists>t. ts = [t] \<and> tier_ok t \<and> proper_conds (vt_conditions t))"

definition guarded_text :: "visual_tier \<Rightarrow> string" where
  "guarded_text t = conds_text (vt_conditions t) @ '' ? '' @ tier_text (vt_label t) t @ '' : '' @ ZERO_EXPR"

lemma guarded_exec:
  assumes t: "tier_ok t" "proper_conds (vt_conditions t)"
  shows "map tier_of (exec_all CHAIN_TIER q (guarded_text t)) = [reread t]"
proof -
  let ?m = "[1 \<mapsto> conds_text (vt_conditions t)]" and ?rest = "'' : '' @ ZERO_EXPR"
  obtain zs where "run CHAIN_TIER (q, guarded_text t, Map.empty) = (Some CHR '')'', ?rest, tier_caps 2 t ?m) # zs"
    using chain_conds [OF t, of q ?rest Map.empty] by (auto simp: guarded_text_def)
  moreover have "length ?rest < length (guarded_text t)" by (simp add: guarded_text_def)
  ultimately have "exec_all CHAIN_TIER q (guarded_text t) = [(Some CHR '')'', ?rest, tier_caps 2 t ?m)]"
    using exec_at [of CHAIN_TIER q "guarded_text t"] zero_end by fastforce
  moreover have "grp (tier_caps 2 t ?m) 1 = conds_text (vt_conditions t)" using tier_caps_head(4) [of 1 2 t ?m] by (simp add: grp_def)
  ultimately show ?thesis using read_tier_caps [OF t(1), of 2 ?m] read_conds [OF t(2)] reread_conditions [of t] by (simp add: pos_caps_def)
qed

section \<open>The texts that are written\<close>

lemma tier_label: "tier_ok t \<Longrightarrow> or_str (vt_label t) d = vt_label t"
  by (simp add: tier_ok_def or_str_def)

lemma written_conds: "proper_conds cs \<Longrightarrow> buildConditionStr cs = conds_text cs \<and> conds_text cs \<noteq> []"
  using condition_text conds_shape(2) by (simp add: proper_conds_def conds_text_def)

lemma parts_text: "chain_ok ts \<Longrightarrow> js_join '' : '' (tier_parts i ts) = chain_text ts \<and> tier_parts i ts \<noteq> []"
proof (induction ts arbitrary: i rule: chain_text.induct)
  case (2 t)
  then show ?case by (simp add: tier_label Let_def)
next
  case (3 t t' ts)
  then have t: "tier_ok t" "proper_conds (vt_conditions t)" and ok: "chain_ok (t' # ts)" by simp_all
  from 3(1) [OF ok, of "i + 1"] show ?case
    using written_conds [OF t(2)] tier_label [OF t(1)] unfolding tier_parts.simps(2) [of i t] Let_def
    by (simp add: js_join_Cons del: tier_parts.simps)
qed simp

lemma written_chain: "chain_ok ts \<Longrightarrow> generateExprFromVisualConfig (Some \<lparr>vc_tiers = ts\<rparr>) = chain_text ts"
  using parts_text [of ts 0] tier_label
  by (cases ts rule: chain_text.cases) (simp_all add: generateExprFromVisualConfig_def Let_def buildConditionStr_def)

lemma written_guarded:
  assumes "tier_ok t" "proper_conds (vt_conditions t)"
  shows "generateExprFromVisualConfig (Some \<lparr>vc_tiers = [t]\<rparr>) = guarded_text t"
  using written_conds [OF assms(2)] tier_label [OF assms(1)]
  by (simp add: generateExprFromVisualConfig_def guarded_text_def Let_def)

lemma reread_ok: "tier_ok t \<Longrightarrow> tier_ok (reread t)" "vt_conditions (reread t) = vt_conditions t"
  "tier_text l (reread t) = tier_text l t" "vt_label (reread t) = vt_label t"
  by (simp_all add: reread_def tier_ok_def cost_of_def tier_text_def buildTierBodyExpr_def)

lemma reread_chain: "chain_ok ts \<Longrightarrow> chain_ok (map reread ts) \<and> chain_text (map reread ts) = chain_text ts"
  by (induction ts rule: chain_text.induct) (simp_all add: reread_ok)

lemma normal_again: "tier_ok t \<Longrightarrow> normalizeVisualTier (as_partial t) = t"
proof -
  assume t: "tier_ok t"
  have "(\<lambda>f. if f \<in> set COST_FIELDS then Some (num_or_zero (num_cost (vt_costs t) f)) else vt_costs t f) = vt_costs t"
    using t by (auto simp: fun_eq_iff tier_ok_def cost_of_def)
  then have "vt_costs (normalizeVisualTier (as_partial t)) = vt_costs t"
    unfolding normalizeVisualTier_def as_partial_def visual_tier.select_convs partial_tier.select_convs .
  then show ?thesis
    by (intro visual_tier.equality) (simp_all add: normalizeVisualTier_def as_partial_def getTierCacheMode_def)
qed

lemma normal_config: "ts \<noteq> [] \<Longrightarrow> list_all tier_ok ts \<Longrightarrow> normalizeVisualConfig (Some \<lparr>vc_tiers = ts\<rparr>) = \<lparr>vc_tiers = ts\<rparr>"
  using normal_again by (simp add: normalizeVisualConfig_def list_all_iff map_idI)

lemma config_tiers: "config_ok ts \<Longrightarrow> ts \<noteq> [] \<and> list_all tier_ok ts"
proof -
  have "chain_ok ts \<Longrightarrow> ts \<noteq> [] \<and> list_all tier_ok ts" by (induction ts rule: chain_text.induct) simp_all
  then show "config_ok ts \<Longrightarrow> ts \<noteq> [] \<and> list_all tier_ok ts" by (auto simp: config_ok_def)
qed

section \<open>The round trip\<close>

lemma body_same: "s \<noteq> [] \<Longrightarrow> hd s \<noteq> CHR ''v'' \<Longrightarrow> expr_body s = s"
proof -
  assume s: "s \<noteq> []" "hd s \<noteq> CHR ''v''"
  have "match_full VERSION_PREFIX s = None"
    by (rule match_full_none) (use s in \<open>cases s; simp add: VERSION_PREFIX_def run_lit_seq\<close>)
  then show ?thesis by (simp add: expr_body_def)
qed

lemma single_none: "s \<noteq> [] \<Longrightarrow> hd s \<noteq> CHR ''t'' \<Longrightarrow> match_full SINGLE_TIER s = None"
  by (rule match_full_none) (cases s; simp add: SINGLE_TIER_def TIER_HEAD_def run_lit_seq)

lemma single_found:
  assumes "tier_ok t"
  shows "match_full SINGLE_TIER (tier_text (vt_label t) t) = Some (tier_caps 1 t Map.empty)"
proof -
  have "run (seq (TIER_HEAD 1 @ BODY_PAT (1 + 1) @ lit '')'' # [AtEnd])) (None, tier_text (vt_label t) t @ [], Map.empty) =
      run (seq [AtEnd]) (Some CHR '')'', [], tier_caps 1 t Map.empty)" by (rule tier_run [OF assms])
  then have "run (seq (SINGLE_TIER @ [AtEnd])) (None, tier_text (vt_label t) t, Map.empty) = [(Some CHR '')'', [], tier_caps 1 t Map.empty)]"
    by (simp add: SINGLE_TIER_def run_end_seq numeral_2_eq_2)
  from match_full_run [OF this] show ?thesis by simp
qed

lemma read_chain:
  assumes made: "s = generateExprFromVisualConfig (Some \<lparr>vc_tiers = ts\<rparr>)" "s = generateExprFromVisualConfig (Some \<lparr>vc_tiers = map reread ts\<rparr>)"
    and s: "s \<noteq> []" "hd s \<in> set ''pcl''" and ts: "ts \<noteq> []" "list_all tier_ok (map reread ts)"
    and exec: "map tier_of (exec_all CHAIN_TIER None s) = map reread ts"
  shows "tryParseVisualConfig s = Some \<lparr>vc_tiers = map reread ts\<rparr>"
proof -
  have "expr_body s = s" "match_full SINGLE_TIER s = None" using s by (auto intro: body_same single_none)
  moreover have "chain_tiers s = map reread ts" using exec by (simp add: chain_tiers_def)
  moreover have "normalizeVisualConfig (Some \<lparr>vc_tiers = map reread ts\<rparr>) = \<lparr>vc_tiers = map reread ts\<rparr>"
    by (rule normal_config [OF _ ts(2)]) (use ts(1) in simp)
  ultimately show ?thesis using s(1) ts(1) made(2) by (simp add: tryParseVisualConfig_def Let_def)
qed

lemma config_read:
  assumes "config_ok ts"
  shows "tryParseVisualConfig (generateExprFromVisualConfig (Some \<lparr>vc_tiers = ts\<rparr>)) = Some \<lparr>vc_tiers = map reread ts\<rparr>"
proof -
  have ts: "ts \<noteq> []" "list_all tier_ok ts" using config_tiers [OF assms] by simp_all
  then have rs: "list_all tier_ok (map reread ts)" using reread_ok(1) by (simp add: list_all_iff)
  consider (one) t where "ts = [t]" "tier_ok t" "vt_conditions t = []"
    | (guarded) t where "ts = [t]" "tier_ok t" "proper_conds (vt_conditions t)"
    | (more) t t' ts' where "ts = t # t' # ts'" "chain_ok ts"
    using assms unfolding config_ok_def by (cases ts rule: chain_text.cases) auto
  then show ?thesis
  proof cases
    case one
    let ?s = "tier_text (vt_label t) t"
    have made: "generateExprFromVisualConfig (Some \<lparr>vc_tiers = ts\<rparr>) = ?s" using written_chain [of ts] one by simp
    have s: "?s \<noteq> []" "hd ?s = CHR ''t''" using tier_text_hd [of _ t "[]"] by simp_all
    have "read_tier [] (tier_caps 1 t Map.empty) 1 = reread t"
      using read_tier_caps [OF one(2), of 1 Map.empty "[]"] reread_conditions [of t] one(3) by simp
    then show ?thesis
      using s body_same [OF s(1)] single_found [OF one(2)] normal_config [of "[reread t]"] rs
      unfolding made by (simp add: tryParseVisualConfig_def Let_def one(1))
  next
    case guarded
    have g: "tier_ok (reread t)" "proper_conds (vt_conditions (reread t))" using guarded reread_ok by simp_all
    note made = written_guarded [OF guarded(2,3)] written_guarded [OF g]
    have same: "guarded_text (reread t) = guarded_text t" by (simp add: guarded_text_def reread_ok)
    note c = conds_shape [OF guarded(3)]
    have "guarded_text t \<noteq> []" "hd (guarded_text t) \<in> set ''pcl''" using c(2,3) by (simp_all add: guarded_text_def)
    then have "tryParseVisualConfig (guarded_text t) = Some \<lparr>vc_tiers = map reread ts\<rparr>"
      using made same guarded_exec [OF guarded(2,3)] rs ts by (intro read_chain) (simp_all add: guarded(1))
    then show ?thesis by (simp add: guarded(1) made)
  next
    case more
    have made: "generateExprFromVisualConfig (Some \<lparr>vc_tiers = ts\<rparr>) = chain_text ts"
      "generateExprFromVisualConfig (Some \<lparr>vc_tiers = map reread ts\<rparr>) = chain_text ts"
      using written_chain more(2) reread_chain by auto
    have "proper_conds (vt_conditions t)" using more by simp
    note c = conds_shape [OF this]
    have "chain_text ts \<noteq> []" "hd (chain_text ts) \<in> set ''pcl''" using c(2,3) by (simp_all add: more(1))
    then have "tryParseVisualConfig (chain_text ts) = Some \<lparr>vc_tiers = map reread ts\<rparr>"
      using made chain_exec [OF more(2)] rs ts by (intro read_chain) simp_all
    then show ?thesis by (simp add: made)
  qed
qed

section \<open>A sum as a price\<close>

lemma run_grp_some_first:
  assumes "takeWhile p s = w" "dropWhile p s = t" "w \<noteq> []"
  shows "\<exists>zs. run (seq (Grp i (some_of p) # rs)) (q, s, m) = run (seq rs) (after_text w q, t, m(i \<mapsto> w)) @ zs"
proof -
  let ?n = "length (takeWhile p s)"
  have le: "?n \<le> length s" by (rule length_takeWhile_le)
  have "take ?n s = w" "drop ?n s = t" using assms(1,2) by (metis append_eq_conv_conj takeWhile_dropWhile_id)+
  moreover have "run (Grp i (some_of p)) (q, s, m) =
      map (\<lambda>k. (after_text (take k s) q, drop k s, m(i \<mapsto> take k s))) (rev [1..<Suc ?n])"
    using le by (auto simp: run_some stops_def simp del: upt_Suc)
  moreover have "rev [1..<Suc ?n] = ?n # rev [1..<?n]" using assms(1,3) by (cases w) auto
  ultimately show ?thesis unfolding seq_simps(2) run.simps(3) by simp
qed

lemma digit_not_ws: "is_digit c \<Longrightarrow> \<not> is_ws c"
  by (auto simp: is_digit_def is_ws_def)

lemma sum_not_number:
  assumes a: "list_all is_digit a" "a \<noteq> []" and b: "list_all is_digit b" "b \<noteq> []"
  shows "js_number (a @ ''+'' @ b) = NaN"
proof -
  let ?s = "a @ ''+'' @ b"
  note ws = digit_not_ws
  have "is_digit (hd a)" "is_digit (last b)" using a b by (auto simp: list_all_iff)
  then have trim: "js_trim ?s = ?s" using ws a(2) b(2) by (intro trim_by_id) simp
  have hd: "hd ?s \<noteq> CHR ''-''" "hd ?s \<noteq> CHR ''+''" using a(2) \<open>is_digit (hd a)\<close> by (auto simp: is_digit_def)
  have tw: "takeWhile is_digit ?s = a" "dropWhile is_digit ?s = ''+'' @ b"
    using takeWhile_stop [OF a(1), of "CHR ''+''" b] by simp_all
  have "is_digit (?s ! 1) \<or> ?s ! 1 = CHR ''+''"
    using a by (cases a; cases "tl a") (auto simp: list_all_iff)
  then have radix: "radix_digits (?s ! 1) = []" by (auto simp: radix_digits_def is_digit_def)
  have inf: "?s \<noteq> ''Infinity''" using \<open>is_digit (hd a)\<close> a(2) by (cases a) (auto simp: is_digit_def)
  show ?thesis
    unfolding js_number_def Let_def trim using hd a(2) inf radix tw by (simp add: parse_exponent_def)
qed

text \<open>A tier with a sum as its input price.\<close>

definition sum_text :: "string \<Rightarrow> string \<Rightarrow> string \<Rightarrow> string \<Rightarrow> string" where
  "sum_text label a b d = ''tier('' @ [quote_char] @ label @ [quote_char] @ '', p * '' @ a @ ''+'' @ b @ '' + c * '' @ d @ '')''"

lemma extras_none: "extras_text (map (\<lambda>v. (v, None)) vs) = []" "map fst (map (\<lambda>v. (v, None)) vs) = vs"
  by (induction vs) (simp_all add: comp_def)

lemma sum_match:
  assumes label: "list_all not_quote label" and a: "list_all is_digit a" "a \<noteq> []" and b: "list_all is_digit b" "b \<noteq> []" and d: "plain_number d"
  shows "\<exists>g. match_full SINGLE_TIER (sum_text label a b d) = Some g \<and> grp g 2 = a @ ''+'' @ b"
proof -
  let ?w = "a @ ''+'' @ b" and ?vs = "map snd BILLING_CACHE_VAR_MAP"
  let ?xs = "map (\<lambda>v. (v, None :: string option)) ?vs"
  let ?R2 = "extra_coeffs 4 ?vs @ [lit '')'', AtEnd]"
  let ?R = "summand ''c'' 3 @ ?R2"
  let ?tail = "'' + '' @ product ''c'' d @ '')''"
  let ?m = "[1 \<mapsto> label]"
  have c: "var_name ''c''" by (simp add: var_name_def is_ws_def)
  have num: "list_all num_char ?w" using a b by (auto simp: list_all_iff num_char_def)
  have tw: "takeWhile num_char (?w @ ?tail) = ?w" "dropWhile num_char (?w @ ?tail) = ?tail"
    using takeWhile_stop [OF num, of "CHR '' ''" "''+ '' @ product ''c'' d @ '')''"] not_num_char(1) by simp_all
  obtain zs where zs: "run (seq (Grp 2 (some_of num_char) # ?R)) (Some CHR '' '', ?w @ ?tail, ?m) = run (seq ?R) (after_text ?w (Some CHR '' ''), ?tail, ?m(2 \<mapsto> ?w)) @ zs"
    using run_grp_some_first [OF tw, of 2 ?R "Some CHR '' ''" ?m] a by auto
  have rej: "rejects (seq ?R2) plain_num"
    using plain_num_facts by (intro extra_coeffs_rejects rejects_seq) (auto simp: plain_num_def)
  have "run (seq ?R) (q, ?tail, m) = run (seq ?R2) (after_text d (Some CHR '' ''), '')'', m(3 \<mapsto> d))" for q m
    unfolding summand_run [OF c c] by (rule coeff_run [OF d _ rej]) (simp add: stops_number_def not_num_char)
  moreover have "\<exists>q'. run (seq (extra_coeffs 4 (map fst ?xs) @ lit '')'' # [AtEnd])) (after_text d (Some CHR '' ''), extras_text ?xs @ CHR '')'' # [], ?m(2 \<mapsto> ?w, 3 \<mapsto> d)) =
      run (seq (lit '')'' # [AtEnd])) (q', CHR '')'' # [], extras_caps 4 ?xs (?m(2 \<mapsto> ?w, 3 \<mapsto> d)))"
    by (rule extras_run) (use cache_vars_ok in \<open>auto simp: comp_def\<close>)
  then obtain q' where "run (seq ?R2) (after_text d (Some CHR '' ''), '')'', ?m(2 \<mapsto> ?w, 3 \<mapsto> d)) = run (seq [lit '')'', AtEnd]) (q', '')'', extras_caps 4 ?xs (?m(2 \<mapsto> ?w, 3 \<mapsto> d)))"
    unfolding extras_none append.simps by (elim exE)
  ultimately have R: "run (seq ?R) (after_text ?w (Some CHR '' ''), ?tail, ?m(2 \<mapsto> ?w)) = [(Some CHR '')'', [], extras_caps 4 ?xs (?m(2 \<mapsto> ?w, 3 \<mapsto> d)))]"
    by (simp add: run_lit_seq run_end_seq)
  let ?rs = "BODY_PAT 2 @ [lit '')'', AtEnd]"
  let ?body = "''p * '' @ ?w @ ?tail"
  have l: "takeWhile not_quote (label @ quote_char # w) = label" "dropWhile not_quote (label @ quote_char # w) = quote_char # w" for w
    using takeWhile_stop [OF label, of quote_char w] by (simp_all add: not_quote_def)
  have shape: "sum_text label a b d = (''tier('' @ [quote_char]) @ label @ quote_char # '', '' @ ?body"
    by (simp add: sum_text_def product_def)
  have price_step: "run (seq ?rs) (Some CHR '' '', ?body, ?m) = run (seq (Grp 2 (some_of num_char) # ?R)) (Some CHR '' '', ?w @ ?tail, ?m)"
    using coeff_prefix [of "?w @ ?tail" "''p''" 2 ?R "Some CHR '' ''" ?m] a digit_not_ws
    by (auto simp: BODY_PAT_def product_def list_all_iff)
  have "run (seq (TIER_HEAD 1 @ ?rs)) (None, sum_text label a b d, Map.empty) =
      run (seq (Grp 1 (many not_quote) # lit [quote_char, CHR '',''] # spaces # ?rs)) (Some quote_char, label @ quote_char # '', '' @ ?body, Map.empty)"
    unfolding shape TIER_HEAD_def append.simps by (simp add: run_lit_seq)
  also have "\<dots> = run (seq (lit [quote_char, CHR '',''] # spaces # ?rs)) (after_text label (Some quote_char), quote_char # '', '' @ ?body, ?m)"
    by (subst run_grp_many_seq) (simp_all add: rejects_seq not_quote_def l)
  also have "\<dots> = run (seq (spaces # ?rs)) (Some CHR '','', CHR '' '' # ?body, ?m)"
    by (simp add: run_lit_seq)
  also have "\<dots> = run (seq ?rs) (Some CHR '' '', ?body, ?m)"
    by (rule run_spaces_one [OF coeff_p_rejects]) (simp_all add: is_ws_def)
  also have "\<dots> = run (seq (Grp 2 (some_of num_char) # ?R)) (Some CHR '' '', ?w @ ?tail, ?m)"
    using price_step by simp
  finally have "run (seq (SINGLE_TIER @ [AtEnd])) (None, sum_text label a b d, Map.empty) =
      (Some CHR '')'', [], extras_caps 4 ?xs (?m(2 \<mapsto> ?w, 3 \<mapsto> d))) # zs"
    unfolding zs R SINGLE_TIER_def by simp
  then show ?thesis by (simp add: match_full_def grp_def extras_caps_at)
qed

lemma written_again:
  assumes "config_ok ts"
  shows "generateExprFromVisualConfig (Some \<lparr>vc_tiers = map reread ts\<rparr>) = generateExprFromVisualConfig (Some \<lparr>vc_tiers = ts\<rparr>)"
proof (cases "chain_ok ts")
  case True
  then show ?thesis using reread_chain written_chain by metis
next
  case False
  then obtain t where t: "ts = [t]" "tier_ok t" "proper_conds (vt_conditions t)" using assms by (auto simp: config_ok_def)
  then have "guarded_text (reread t) = guarded_text t" by (simp add: guarded_text_def reread_ok)
  then show ?thesis using t written_guarded reread_ok by simp
qed

section \<open>The claims\<close>


definition sample_tier :: "string \<Rightarrow> tier_input list \<Rightarrow> int \<Rightarrow> visual_tier" where
  "sample_tier label conds price = normalizeVisualTier
     \<lparr>pl_label = Some label, pl_conditions = Some conds, pl_cache_mode = Some Generic,
      pl_costs = [''input_unit_cost'' \<mapsto> Num (int_dec price), ''output_unit_cost'' \<mapsto> Num (int_dec (2 * price)),
        ''cache_read_unit_cost'' \<mapsto> Num (Dec 5 1)]\<rparr>"

definition sample_tiers :: "visual_tier list" where
  "sample_tiers = [sample_tier ''short'' [\<lparr>ti_var = ''len'', ti_op = ''<'', ti_value = BoundNum (Num (int_dec 200))\<rparr>] 1,
     sample_tier ''rest'' [] 2]"

lemma sample_tier_ok:
  assumes "label \<noteq> []" "list_all not_quote label"
  shows "tier_ok (sample_tier label conds price)"
  using assms by (auto simp: tier_ok_def sample_tier_def normalizeVisualTier_def cost_of_def num_cost_def num_or_zero_def COST_FIELDS_def cost_ok_def dom_def)

lemma sample_tier_conditions: "vt_conditions (sample_tier label conds price) = conds"
  by (simp add: sample_tier_def normalizeVisualTier_def)

lemma sample_tiers_ok: "config_ok sample_tiers"
  by (simp add: config_ok_def sample_tiers_def proper_conds_def input_ok_def not_quote_def sample_tier_ok sample_tier_conditions)


text \<open>
  The reader of single tiers takes a price that is a sum of two numbers for the number 0. The
  expression \<open>p * 1+2 + c * 3\<close> of one tier, a text the raw editor accepts, matches the pattern for one
  tier; its input price is not a number, which the normalisation turns into 0, and the check that the
  configuration writes the same text again is only made for chains.
\<close>
theorem sum_price_read_as_zero:
  assumes "list_all not_quote label" "list_all is_digit a" "a \<noteq> []" "list_all is_digit b" "b \<noteq> []" "plain_number d"
  shows "\<exists>t. tryParseVisualConfig (sum_text label a b d) = Some \<lparr>vc_tiers = [t]\<rparr> \<and> cost_of t ''input_unit_cost'' = Num (int_dec 0)"
proof -
  obtain g where g: "match_full SINGLE_TIER (sum_text label a b d) = Some g" "grp g 2 = a @ ''+'' @ b"
    using sum_match [OF assms] by blast
  have "cost_of (read_tier [] g 1) ''input_unit_cost'' = Num (int_dec 0)"
    using sum_not_number [OF assms(2-5)] g(2)
    by (simp add: read_tier_def normalizeVisualTier_def cost_of_def num_cost_def read_costs_def COST_FIELDS_def num_or_zero_def numeral_2_eq_2)
  then show ?thesis
    using g body_same [of "sum_text label a b d"]
    by (simp add: sum_text_def tryParseVisualConfig_def Let_def normalizeVisualConfig_def normalizeVisualTier_def as_partial_def
        cost_of_def num_cost_def COST_FIELDS_def num_or_zero_def)
qed

lemma sum_price_read_as_zero_witness:
  "\<exists>t. tryParseVisualConfig (sum_text ''base'' ''1'' ''2'' ''3'') = Some \<lparr>vc_tiers = [t]\<rparr> \<and> cost_of t ''input_unit_cost'' = Num (int_dec 0)"
  by (rule sum_price_read_as_zero) (simp_all add: not_quote_def is_digit_def plain_num_def)

end
