(* ===== verification/Tally.thy ===== *)
theory Tally
  imports JsPrelude "HOL-Library.AList"
begin

text \<open>
  Sums by key. The charts collect their figures in JavaScript Maps: look the key up, take zero when it
  is missing, store the sum. The interface \<open>sums\<close> states what such a collection promises, \<open>tally\<close>
  adds the order of its keys; the provider here is the association list, whose update keeps the place
  of a key, as \<open>Map.set\<close> does.
\<close>

lemma sum_by_key: "distinct ks \<Longrightarrow> key ` set xs \<subseteq> set ks \<Longrightarrow>
  (\<Sum>k\<leftarrow>ks. \<Sum>x\<leftarrow>filter (\<lambda>x. key x = k) xs. val x) = (\<Sum>x\<leftarrow>xs. val x :: 'v::comm_monoid_add)"
proof (induction xs)
  case (Cons x xs)
  have "(\<Sum>k\<leftarrow>ks. \<Sum>y\<leftarrow>filter (\<lambda>y. key y = k) (x # xs). val y) =
      (\<Sum>k\<leftarrow>ks. (if key x = k then val x else 0) + (\<Sum>y\<leftarrow>filter (\<lambda>y. key y = k) xs. val y))"
    by (intro arg_cong [of _ _ sum_list] map_cong) auto
  also have "\<dots> = (\<Sum>k\<leftarrow>ks. if key x = k then val x else 0) + (\<Sum>y\<leftarrow>xs. val y)"
    using Cons by (simp add: sum_list_addf)
  also have "(\<Sum>k\<leftarrow>ks. if key x = k then val x else 0) = val x"
    using Cons.prems by (simp add: sum_list_distinct_conv_sum_set sum.delta')
  finally show ?case by simp
qed (simp add: sum_list_0)

locale sums =
  fixes none :: 'm
    and add :: "'k \<Rightarrow> 'v::comm_monoid_add \<Rightarrow> 'm \<Rightarrow> 'm"
    and get :: "'m \<Rightarrow> 'k \<Rightarrow> 'v"
  assumes get_none: "get none k = 0"
    and get_add: "get (add k v m) l = (if l = k then get m k + v else get m l)"
begin

definition collect :: "('x \<Rightarrow> 'k) \<Rightarrow> ('x \<Rightarrow> 'v) \<Rightarrow> 'x list \<Rightarrow> 'm" where
  "collect key val xs = fold (\<lambda>x. add (key x) (val x)) xs none"

lemma get_fold: "get (fold (\<lambda>x. add (key x) (val x)) xs m) k = get m k + (\<Sum>x\<leftarrow>filter (\<lambda>x. key x = k) xs. val x)"
  by (induction xs arbitrary: m) (auto simp: get_add add.assoc)

lemma get_collect: "get (collect key val xs) k = (\<Sum>x\<leftarrow>filter (\<lambda>x. key x = k) xs. val x)"
  by (simp add: collect_def get_fold get_none)

end

text \<open>A tally also lists its keys, in the order in which they came.\<close>

locale tally = sums none add get
  for none :: 'm and add :: "'k \<Rightarrow> 'v::comm_monoid_add \<Rightarrow> 'm \<Rightarrow> 'm" and get :: "'m \<Rightarrow> 'k \<Rightarrow> 'v" +
  fixes keys :: "'m \<Rightarrow> 'k list"
  assumes keys_none: "keys none = []"
    and keys_add: "keys (add k v m) = set_add k (keys m)"
begin

lemma keys_fold: "keys (fold (\<lambda>x. add (key x) (val x)) xs m) = fold set_add (map key xs) (keys m)"
  by (induction xs arbitrary: m) (simp_all add: keys_add)

lemma keys_collect: "keys (collect key val xs) = js_uniq (map key xs)"
  by (simp add: collect_def keys_fold keys_none js_uniq_def)

text \<open>Nothing is lost and nothing is counted twice.\<close>

lemma total_collect: "(\<Sum>k\<leftarrow>keys (collect key val xs). get (collect key val xs) k) = (\<Sum>x\<leftarrow>xs. val x)"
  unfolding get_collect by (rule sum_by_key) (auto simp: keys_collect)

end

section \<open>Maps as association lists\<close>

definition map_at :: "('k \<times> 'v) list \<Rightarrow> 'k \<Rightarrow> 'v::zero" where
  "map_at m k = (case map_of m k of None \<Rightarrow> 0 | Some v \<Rightarrow> v)"

definition map_add_at :: "'k \<Rightarrow> 'v \<Rightarrow> ('k \<times> 'v::comm_monoid_add) list \<Rightarrow> ('k \<times> 'v) list" where
  "map_add_at k v m = AList.update k (map_at m k + v) m"

lemma keys_update: "map fst (AList.update k v m) = set_add k (map fst m)"
  by (induction m) (auto simp: set_add_def)

interpretation assoc: tally "[]" map_add_at map_at "map fst"
  by unfold_locales (auto simp: map_at_def map_add_at_def update_conv keys_update)

lemma map_at_entries: "distinct (map fst m) \<Longrightarrow> map snd m = map (map_at m) (map fst m)"
  by (auto simp: map_at_def)

lemma distinct_collect: "distinct (map fst (assoc.collect key val xs))"
  by (simp add: assoc.keys_collect)

lemma total_entries: "sum_list (map snd (assoc.collect key val xs)) = (\<Sum>x\<leftarrow>xs. val x)"
  unfolding map_at_entries [OF distinct_collect] by (rule assoc.total_collect)

end
