(* ===== verification/UsageModels.thy ===== *)
theory UsageModels
  imports Tally "HOL-Library.Word"
begin

unbundle bit_operations_syntax

text \<open>
  Usage by model (features/dashboard/lib/hit-model-group.ts): the sums of the usage rows by the model
  that was called, and the colours of the slices, which hang on a hash of the name (FNV-1a on 32 bit
  words) with linear probing. The rows' figures are whole numbers, and strings have code units below
  256. The order of \<open>localeCompare\<close> is a parameter.
\<close>

record QuotaDataItem =
  qd_username :: "string option"
  qd_strategy :: "string option"
  qd_model_group :: "string option"
  qd_created_at :: int
  qd_token_used :: "int option"
  qd_count :: "int option"
  qd_quota :: "int option"

text \<open>\<open>Number(x) || 0\<close> on a figure that may be missing.\<close>

definition num0 :: "int option \<Rightarrow> int" where
  "num0 x = (case x of None \<Rightarrow> 0 | Some n \<Rightarrow> n)"

text \<open>\<open>a || b || c\<close> on two optional strings and a string.\<close>

definition or_string :: "string option \<Rightarrow> string option \<Rightarrow> string \<Rightarrow> string" where
  "or_string a b c = (case a of Some (x # xs) \<Rightarrow> x # xs | _ \<Rightarrow> (case b of Some (x # xs) \<Rightarrow> x # xs | _ \<Rightarrow> c))"

section \<open>Sums of figures\<close>

datatype stats = Stats (st_quota: int) (st_count: int) (st_tokens: int)

instantiation stats :: comm_monoid_add
begin

definition zero_stats :: stats where
  "zero_stats = Stats 0 0 0"

fun plus_stats :: "stats \<Rightarrow> stats \<Rightarrow> stats" where
  "plus_stats (Stats q c t) (Stats q' c' t') = Stats (q + q') (c + c') (t + t')"

instance
proof
  fix a b c :: stats
  show "a + b + c = a + (b + c)" by (cases a; cases b; cases c) (simp add: add.assoc)
  show "a + b = b + a" by (cases a; cases b) (simp add: add.commute)
  show "0 + a = a" by (cases a) (simp add: zero_stats_def)
qed

end

lemma stats_zero [simp]: "st_quota 0 = 0" "st_count 0 = 0" "st_tokens 0 = 0"
  by (simp_all add: zero_stats_def)

lemma stats_plus [simp]: "st_quota (a + b) = st_quota a + st_quota b" "st_count (a + b) = st_count a + st_count b"
  "st_tokens (a + b) = st_tokens a + st_tokens b"
  by (cases a; cases b; simp)+

lemma stats_sum_list: "st_quota (sum_list xs) = (\<Sum>x\<leftarrow>xs. st_quota x)" "st_count (sum_list xs) = (\<Sum>x\<leftarrow>xs. st_count x)"
  "st_tokens (sum_list xs) = (\<Sum>x\<leftarrow>xs. st_tokens x)"
  by (induction xs) simp_all

definition row_stats :: "QuotaDataItem \<Rightarrow> stats" where
  "row_stats row = Stats (num0 (qd_quota row)) (num0 (qd_count row)) (num0 (qd_token_used row))"

section \<open>Slices\<close>

definition EXCLUDED_APPLIANCE_USAGE_MODELS :: "string list" where
  "EXCLUDED_APPLIANCE_USAGE_MODELS = [''gpt-5.6-luna'']"

definition isVisibleApplianceUsageRow :: "QuotaDataItem \<Rightarrow> bool" where
  "isVisibleApplianceUsageRow row \<longleftrightarrow>
     \<not> list_ex (\<lambda>name. name \<in> set EXCLUDED_APPLIANCE_USAGE_MODELS)
       (map (\<lambda>name. js_lower (js_trim name)) (map the (filter (\<lambda>x. x \<noteq> None) [qd_model_group row, qd_strategy row])))"

record HitModelGroupSlice =
  sl_name :: string
  sl_count :: int
  sl_quota :: int
  sl_tokens :: int

definition slice_name :: "QuotaDataItem \<Rightarrow> string" where
  "slice_name row = js_trim (or_string (qd_model_group row) (qd_strategy row) [])"

text \<open>The map of the slices: each key is the name of its slice.\<close>

fun add_slice :: "string \<Rightarrow> stats \<Rightarrow> HitModelGroupSlice list \<Rightarrow> HitModelGroupSlice list" where
  "add_slice name v [] = [\<lparr>sl_name = name, sl_count = st_count v, sl_quota = st_quota v, sl_tokens = st_tokens v\<rparr>]"
| "add_slice name v (s # ss) =
     (if sl_name s = name
      then s\<lparr>sl_count := sl_count s + st_count v, sl_quota := sl_quota s + st_quota v, sl_tokens := sl_tokens s + st_tokens v\<rparr> # ss
      else s # add_slice name v ss)"

definition slice_step :: "HitModelGroupSlice list \<Rightarrow> QuotaDataItem \<Rightarrow> HitModelGroupSlice list" where
  "slice_step acc row =
     (if \<not> isVisibleApplianceUsageRow row then acc
      else let name = slice_name row in if name = [] then acc else add_slice name (row_stats row) acc)"

definition aggregateByHitModelGroup :: "QuotaDataItem list \<Rightarrow> HitModelGroupSlice list" where
  "aggregateByHitModelGroup rows = sort_by (\<lambda>a b. sl_count b \<le> sl_count a) (foldl slice_step [] rows)"

section \<open>Colours\<close>

definition PALETTE_SLOTS :: nat where
  "PALETTE_SLOTS = 8"

definition TAIL_NEUTRAL :: string where
  "TAIL_NEUTRAL = ''#898781''"

text \<open>
  One step of the hash. The exclusive or and \<open>Math.imul\<close> work on 32 bits, and \<open>>>> 0\<close> reads the
  product as unsigned, so the number kept is a word.
\<close>

definition fnv_step :: "32 word \<Rightarrow> char \<Rightarrow> 32 word" where
  "fnv_step h c = (h XOR word_of_nat (of_char c)) * 0x01000193"

definition fnv_hash :: "string \<Rightarrow> 32 word" where
  "fnv_hash name = foldl fnv_step 0x811c9dc5 name"

definition hashSlot :: "string \<Rightarrow> nat \<Rightarrow> nat" where
  "hashSlot name slots = unat (fnv_hash name) mod slots"

text \<open>The first free slot from the preferred one on.\<close>

definition find_slot :: "nat \<Rightarrow> bool list \<Rightarrow> nat \<Rightarrow> nat option" where
  "find_slot preferred taken usable =
     List.find (\<lambda>candidate. \<not> taken ! candidate) (map (\<lambda>step. (preferred + step) mod usable) [0..<usable])"

definition color_step :: "string list \<Rightarrow> nat \<Rightarrow> bool list \<times> (string \<times> string) list \<Rightarrow> string \<Rightarrow> bool list \<times> (string \<times> string) list" where
  "color_step palette usable = (\<lambda>(taken, colorByName) name.
     case find_slot (hashSlot name usable) taken usable of
       None \<Rightarrow> (taken, AList.update name TAIL_NEUTRAL colorByName)
     | Some slot \<Rightarrow> (taken[slot := True], AList.update name (palette ! slot) colorByName))"

record color_scale =
  cs_domain :: "string list"
  cs_range :: "string list"

definition buildHitModelGroupColor ::
    "(string \<Rightarrow> string \<Rightarrow> bool) \<Rightarrow> HitModelGroupSlice list \<Rightarrow> string list \<Rightarrow> string list \<Rightarrow> color_scale" where
  "buildHitModelGroupColor locale_le slices themeColors fallbackColors =
     (let palette = (if 0 < length themeColors then themeColors else fallbackColors);
          usable = min (length palette) PALETTE_SLOTS;
          names = sort_by locale_le (map sl_name slices);
          colorByName = snd (foldl (color_step palette usable) (replicate usable False, []) names)
      in \<lparr>cs_domain = names,
          cs_range = map (\<lambda>name. case map_of colorByName name of None \<Rightarrow> TAIL_NEUTRAL | Some c \<Rightarrow> c) names\<rparr>)"

end
