(* ===== verification/UsageModelsFacts.thy ===== *)
theory UsageModelsFacts
  imports UsageModels
begin

text \<open>
  Facts about the usage by model: the slices add up to the rows that are kept, and the colours are
  told apart as long as there are slots, do not hang on the order of the slices, and are shared by
  the tail.
\<close>

section \<open>The slices are a tally\<close>

definition slice_stats :: "HitModelGroupSlice \<Rightarrow> stats" where
  "slice_stats s = Stats (sl_quota s) (sl_count s) (sl_tokens s)"

definition slice_at :: "HitModelGroupSlice list \<Rightarrow> string \<Rightarrow> stats" where
  "slice_at ss name = (case List.find (\<lambda>s. sl_name s = name) ss of None \<Rightarrow> 0 | Some s \<Rightarrow> slice_stats s)"

lemma slice_at_simps [simp]: "slice_at [] n = 0" "slice_at (s # ss) n = (if sl_name s = n then slice_stats s else slice_at ss n)"
  by (simp_all add: slice_at_def)

lemma slice_at_add: "slice_at (add_slice n v ss) k = (if k = n then slice_at ss n + v else slice_at ss k)"
  by (induction ss) (cases v; auto simp: slice_stats_def)+

lemma slice_names_add: "map sl_name (add_slice n v ss) = set_add n (map sl_name ss)"
  by (induction ss) (auto simp: set_add_def)

interpretation slices: tally "[]" add_slice slice_at "map sl_name"
  by unfold_locales (auto simp: slice_at_add slice_names_add)

text \<open>The rows that are counted.\<close>

definition counted :: "QuotaDataItem \<Rightarrow> bool" where
  "counted row \<longleftrightarrow> isVisibleApplianceUsageRow row \<and> slice_name row \<noteq> []"

definition kept_rows :: "QuotaDataItem list \<Rightarrow> QuotaDataItem list" where
  "kept_rows rows = filter counted rows"

lemma slices_collect: "foldl slice_step [] rows = slices.collect slice_name row_stats (kept_rows rows)"
proof -
  have "foldl slice_step acc rows = fold (\<lambda>x. add_slice (slice_name x) (row_stats x)) (filter counted rows) acc" for acc
    by (induction rows arbitrary: acc) (simp_all add: slice_step_def counted_def Let_def)
  then show ?thesis by (simp add: slices.collect_def kept_rows_def)
qed

lemma slice_at_own: "distinct (map sl_name ss) \<Longrightarrow> s \<in> set ss \<Longrightarrow> slice_at ss (sl_name s) = slice_stats s"
  by (induction ss) (auto simp: image_iff)

lemma slice_entries: "distinct (map sl_name ss) \<Longrightarrow> map slice_stats ss = map (slice_at ss) (map sl_name ss)"
  by (simp add: slice_at_own)

text \<open>
  A row that no model group was chosen for is counted under the name its request had, although the comment
  of the function says that such rows are dropped.
\<close>

theorem unrouted_row_counted:
  assumes "row \<in> set rows" "isVisibleApplianceUsageRow row" "qd_model_group row \<in> {None, Some []}"
    "qd_strategy row = Some name" "js_trim name \<noteq> []"
  shows "\<exists>s \<in> set (aggregateByHitModelGroup rows). sl_name s = js_trim name \<and>
    slice_stats s = (\<Sum>row'\<leftarrow>filter (\<lambda>row'. counted row' \<and> slice_name row' = js_trim name) rows. row_stats row')"
proof -
  let ?ss = "slices.collect slice_name row_stats (kept_rows rows)"
  have "name \<noteq> []" using assms(5) by (auto simp: trim_by_def)
  then have n: "slice_name row = js_trim name" using assms(3,4) by (auto simp: slice_name_def or_string_def split: list.splits)
  then have "js_trim name \<in> set (map sl_name ?ss)"
    using assms(1,2,5) unfolding slices.keys_collect set_js_uniq set_map by (intro image_eqI [of _ _ row]) (auto simp: kept_rows_def counted_def)
  then obtain s where s: "s \<in> set ?ss" "sl_name s = js_trim name" by auto
  have "distinct (map sl_name ?ss)" unfolding slices.keys_collect by simp
  from slice_at_own [OF this s(1)] have "slice_stats s = (\<Sum>row'\<leftarrow>filter (\<lambda>row'. slice_name row' = js_trim name) (kept_rows rows). row_stats row')"
    unfolding s(2) slices.get_collect by simp
  then show ?thesis using s
    by (intro bexI [of _ s]) (simp_all add: aggregateByHitModelGroup_def slices_collect kept_rows_def conj_commute)
qed

lemma unrouted_row_counted_witness:
  "\<exists>s \<in> set (aggregateByHitModelGroup [\<lparr>qd_username = None, qd_strategy = Some ''gpt'', qd_model_group = Some [], qd_created_at = 0,
      qd_token_used = None, qd_count = Some 1, qd_quota = Some 3\<rparr>]). sl_name s = ''gpt''"
  (is "\<exists>s \<in> set (aggregateByHitModelGroup [?row]). _")
proof -
  have "isVisibleApplianceUsageRow ?row" "js_trim ''gpt'' = ''gpt''" by code_simp+
  then show ?thesis using unrouted_row_counted [of ?row "[?row]" "''gpt''"] by auto
qed

text \<open>
  C27: Usage by model adds up. The slices have different names, are in order of falling call count, and
  each holds exactly the sums of the rows of its name; all together they hold the sums of all rows
  that are not excluded and name a model. The name of a row is its model group or, where that is empty,
  the name its request had (the field strategy); rows that have neither are left out of the sums. This is
  what the code does; the comments of the module say that a row without a model group is dropped.
\<close>
theorem usage_by_model:
  "distinct (map sl_name (aggregateByHitModelGroup rows)) \<and>
    sorted_wrt (\<lambda>a b. sl_count b \<le> sl_count a) (aggregateByHitModelGroup rows) \<and>
    set (map sl_name (aggregateByHitModelGroup rows)) = slice_name ` set (kept_rows rows) \<and>
    map slice_stats (aggregateByHitModelGroup rows) =
      map (\<lambda>s. \<Sum>row\<leftarrow>filter (\<lambda>row. slice_name row = sl_name s) (kept_rows rows). row_stats row) (aggregateByHitModelGroup rows) \<and>
    sum_list (map slice_stats (aggregateByHitModelGroup rows)) = sum_list (map row_stats (kept_rows rows))"
proof -
  let ?ss = "slices.collect slice_name row_stats (kept_rows rows)" and ?le = "\<lambda>a b. sl_count b \<le> sl_count a"
  have out: "aggregateByHitModelGroup rows = sort_by ?le ?ss"
    by (simp add: aggregateByHitModelGroup_def slices_collect)
  have names: "map sl_name ?ss = js_uniq (map slice_name (kept_rows rows))" by (rule slices.keys_collect)
  then have d: "distinct (map sl_name ?ss)" by simp
  have m: "mset (map f (sort_by ?le ?ss)) = mset (map f ?ss)" for f :: "HitModelGroupSlice \<Rightarrow> 'b" by simp
  have "distinct (map sl_name (sort_by ?le ?ss))" using d m [of sl_name] by (metis mset_eq_imp_distinct_iff)
  moreover have "set (map sl_name (sort_by ?le ?ss)) = slice_name ` set (kept_rows rows)"
    using names by (metis set_js_uniq set_map set_sort_by)
  moreover have "sorted_wrt ?le (sort_by ?le ?ss)" by (rule sorted_sort_by) (auto simp: transp_def totalp_on_def)
  moreover have "slice_stats s = (\<Sum>row\<leftarrow>filter (\<lambda>row. slice_name row = sl_name s) (kept_rows rows). row_stats row)" if "s \<in> set ?ss" for s
    using slice_at_own [OF d that] slices.get_collect by metis
  moreover have "sum_list (map slice_stats (sort_by ?le ?ss)) = sum_list (map slice_stats ?ss)"
    using m [of slice_stats] by (metis sum_mset_sum_list)
  moreover have "sum_list (map slice_stats ?ss) = sum_list (map row_stats (kept_rows rows))"
    unfolding slice_entries [OF d] by (rule slices.total_collect)
  ultimately show ?thesis unfolding out by auto
qed

section \<open>The hash\<close>

lemma hash_slot_bound: "0 < slots \<Longrightarrow> hashSlot name slots < slots"
  by (simp add: hashSlot_def)

text \<open>The hash on whole numbers, as the published FNV-1a states it.\<close>

definition fnv_spec :: "string \<Rightarrow> nat" where
  "fnv_spec name = foldl (\<lambda>h c. ((h XOR of_char c) * 16777619) mod 2 ^ 32) 2166136261 name"

lemma of_char_small: "(of_char c :: nat) < 256"
  using of_char_mod_256 [of c, where ?'a = nat] by (metis mod_less_divisor zero_less_numeral)

lemma fnv_step_spec: "unat (fnv_step h c) = ((unat h XOR of_char c) * 16777619) mod 2 ^ 32"
proof -
  have "unat (word_of_nat (of_char c) :: 32 word) = of_char c"
    using less_trans [OF of_char_small [of c], of "2 ^ 32"] by (simp add: unat_of_nat)
  then show ?thesis by (simp add: fnv_step_def unat_word_ariths unsigned_xor_eq)
qed

lemma fnv_hash_spec: "unat (fnv_hash name) = fnv_spec name"
proof -
  have "unat (foldl fnv_step h name) = foldl (\<lambda>h c. ((h XOR of_char c) * 16777619) mod 2 ^ 32) (unat h) name" for h
    by (induction name arbitrary: h) (simp_all add: fnv_step_spec)
  then show ?thesis by (simp add: fnv_hash_def fnv_spec_def)
qed

text \<open>
  C28: The slot of a name is in range and is the FNV-1a hash of the name, computed on whole numbers and
  reduced modulo 2 to the 32 in every step, modulo the number of slots: the signed intermediate
  results of the 32 bit operations do not show.
\<close>
theorem hash_slot:
  "hashSlot name (Suc n) \<le> n \<and> hashSlot name (Suc n) = fnv_spec name mod Suc n \<and> fnv_spec name < 2 ^ 32"
  using hash_slot_bound [of "Suc n" name] unsigned_less [of "fnv_hash name"]
  by (simp add: hashSlot_def flip: fnv_hash_spec) 

section \<open>Probing\<close>

lemma probe_all: "(preferred :: nat) < usable \<Longrightarrow> (\<lambda>step. (preferred + step) mod usable) ` {0..<usable} = {0..<usable}"
proof -
  assume p: "preferred < usable"
  have "\<exists>step \<in> {0..<usable}. i = (preferred + step) mod usable" if "i < usable" for i
  proof (cases "preferred \<le> i")
    case True
    then show ?thesis using that by (intro bexI [of _ "i - preferred"]) auto
  next
    case False
    then have "(preferred + (usable + i - preferred)) mod usable = i" using p that by simp
    then show ?thesis using False p by (intro bexI [of _ "usable + i - preferred"]) auto
  qed
  then show ?thesis using p by (auto simp: image_iff)
qed

text \<open>The probe ends at a free slot, and fails only when there is none.\<close>

lemma find_slot_Some: "find_slot p taken usable = Some i \<Longrightarrow> i < usable \<and> \<not> taken ! i"
  by (auto simp: find_slot_def find_Some_iff)

lemma find_slot_None:
  assumes "p < usable"
  shows "find_slot p taken usable = None \<longleftrightarrow> (\<forall>i < usable. taken ! i)"
  using probe_all [OF assms] unfolding find_slot_def find_None_iff by fastforce

section \<open>Colours\<close>

text \<open>
  What the loop over the names keeps: the names so far that got a slot are told apart by it, the taken
  slots are exactly theirs, and a name without one means that none is left.
\<close>

definition slotted :: "nat \<Rightarrow> string list \<Rightarrow> (string \<Rightarrow> nat) \<Rightarrow> string set" where
  "slotted usable seen slot = {n \<in> set seen. slot n < usable}"

definition colors_inv :: "string list \<Rightarrow> nat \<Rightarrow> string list \<Rightarrow> (string \<Rightarrow> nat) \<Rightarrow> bool list \<times> (string \<times> string) list \<Rightarrow> bool" where
  "colors_inv palette usable seen slot = (\<lambda>(taken, m). length taken = usable \<and>
     inj_on slot (slotted usable seen slot) \<and>
     slot ` slotted usable seen slot = {i. i < usable \<and> taken ! i} \<and>
     (\<forall>n \<in> set seen. map_of m n = Some (if slot n < usable then palette ! slot n else TAIL_NEUTRAL)) \<and>
     (slotted usable seen slot = set seen \<or> (\<forall>i < usable. taken ! i)))"

lemma slotted_new:
  assumes "name \<notin> set seen"
  shows "slotted usable (seen @ [name]) (slot(name := i)) = (if i < usable then insert name (slotted usable seen slot) else slotted usable seen slot)"
  using assms by (auto simp: slotted_def)

lemma color_none:
  assumes inv: "colors_inv palette usable seen slot (taken, m)" and new: "name \<notin> set seen"
    and none: "find_slot (hashSlot name usable) taken usable = None"
  shows "colors_inv palette usable (seen @ [name]) (slot(name := usable)) (color_step palette usable (taken, m) name)"
proof -
  have all: "\<forall>i < usable. taken ! i"
  proof (cases "usable = 0")
    case False
    then show ?thesis using none find_slot_None [OF hash_slot_bound] by simp
  qed simp
  have same: "slot(name := usable) ` slotted usable seen slot = slot ` slotted usable seen slot"
    "inj_on (slot(name := usable)) (slotted usable seen slot) = inj_on slot (slotted usable seen slot)"
    using new by (auto simp: slotted_def inj_on_def)
  have "\<forall>n \<in> set (seen @ [name]). map_of (AList.update name TAIL_NEUTRAL m) n =
      Some (if (slot(name := usable)) n < usable then palette ! (slot(name := usable)) n else TAIL_NEUTRAL)"
    using inv new by (auto simp: colors_inv_def update_conv)
  then show ?thesis
    using inv all unfolding color_step_def colors_inv_def prod.case none option.case slotted_new [OF new]
    by (simp only: same if_False less_irrefl simp_thms) blast
qed

lemma color_some:
  assumes inv: "colors_inv palette usable seen slot (taken, m)" and new: "name \<notin> set seen"
    and some: "find_slot (hashSlot name usable) taken usable = Some i"
  shows "colors_inv palette usable (seen @ [name]) (slot(name := i)) (color_step palette usable (taken, m) name)"
proof -
  let ?slot = "slot(name := i)" and ?S = "slotted usable seen slot"
  have i: "i < usable" "\<not> taken ! i" using find_slot_Some [OF some] by auto
  have name: "name \<notin> ?S" using new by (simp add: slotted_def)
  have img: "slot ` ?S = {i. i < usable \<and> taken ! i}" using inv by (simp add: colors_inv_def)
  have same: "?slot ` ?S = slot ` ?S" "inj_on ?slot ?S = inj_on slot ?S"
    using name by (auto simp: inj_on_def)
  have "?slot ` insert name ?S = insert i (slot ` ?S)" by (simp only: image_insert same) simp
  also have "\<dots> = {j. j < usable \<and> taken[i := True] ! j}"
    using i inv img by (auto simp: colors_inv_def nth_list_update)
  finally have img': "?slot ` insert name ?S = {j. j < usable \<and> taken[i := True] ! j}" .
  have "i \<notin> slot ` ?S" using img i by simp
  then have inj: "inj_on ?slot (insert name ?S)"
    using inv name same by (simp only: inj_on_insert Diff_insert0 Diff_empty) (simp add: colors_inv_def)
  have col: "\<forall>n \<in> set (seen @ [name]). map_of (AList.update name (palette ! i) m) n =
      Some (if ?slot n < usable then palette ! ?slot n else TAIL_NEUTRAL)"
    using inv new i by (auto simp: colors_inv_def update_conv)
  have "?S = set seen \<or> (\<forall>j < usable. taken ! j)" using inv by (simp add: colors_inv_def)
  then have "insert name ?S = set (seen @ [name])" using i by auto
  then show ?thesis
    using inv i(1) img' inj col
    unfolding color_step_def colors_inv_def prod.case some option.case slotted_new [OF new] by simp
qed

lemma colors_fold:
  assumes "distinct (seen @ names)" "colors_inv palette usable seen slot st"
  shows "\<exists>slot'. colors_inv palette usable (seen @ names) slot' (foldl (color_step palette usable) st names)"
  using assms
proof (induction names arbitrary: seen slot st)
  case Nil
  then show ?case by auto
next
  case (Cons name names)
  obtain taken m where st: "st = (taken, m)" by (cases st)
  have new: "name \<notin> set seen" using Cons.prems by simp
  have "\<exists>slot'. colors_inv palette usable (seen @ [name]) slot' (color_step palette usable st name)"
    using color_none [OF _ new] color_some [OF _ new] Cons.prems(2) unfolding st
    by (cases "find_slot (hashSlot name usable) taken usable") blast+
  then obtain slot' where "colors_inv palette usable (seen @ [name]) slot' (color_step palette usable st name)" ..
  from Cons.IH [OF _ this] Cons.prems(1) show ?case by simp
qed

definition palette_of :: "string list \<Rightarrow> string list \<Rightarrow> string list" where
  "palette_of theme fallback = take PALETTE_SLOTS (if 0 < length theme then theme else fallback)"

lemma slots_found:
  assumes "distinct names"
  shows "\<exists>slot. colors_inv palette usable names slot (foldl (color_step palette usable) (replicate usable False, []) names)"
  using colors_fold [of "[]" names palette usable "\<lambda>_. usable" "(replicate usable False, [])"] assms
  by (simp add: colors_inv_def slotted_def)

lemma card_slotted:
  assumes inv: "colors_inv palette usable names slot (taken, m)" and names: "distinct names"
  shows "card (slotted usable names slot) = min (length names) usable"
proof -
  have img: "slot ` slotted usable names slot = {i. i < usable \<and> taken ! i}" "inj_on slot (slotted usable names slot)"
    using inv by (simp_all add: colors_inv_def)
  then have card: "card (slotted usable names slot) = card {i. i < usable \<and> taken ! i}" using card_image by metis
  have le: "card (slotted usable names slot) \<le> length names"
    using card_mono [of "set names" "slotted usable names slot"] distinct_card [OF names] by (auto simp: slotted_def)
  have "card {i. i < usable \<and> taken ! i} \<le> card {..<usable}" by (rule card_mono) auto
  moreover consider "slotted usable names slot = set names" | "{i. i < usable \<and> taken ! i} = {..<usable}"
    using inv by (auto simp: colors_inv_def)
  then have "card (slotted usable names slot) = length names \<or> card {i. i < usable \<and> taken ! i} = usable"
    by cases (simp_all add: distinct_card [OF names])
  ultimately show ?thesis using card le by auto
qed

text \<open>
  The colours tell the models apart. For slices with different names, as the aggregation makes
  them, and a palette of different colours without the neutral grey, the slices that are not grey all
  have different colours of the palette, and there are as many of them as slices or as slots,
  whichever is less: up to eight models have eight colours, and the rest is grey, never a colour that
  is in use.
\<close>
theorem colors_told_apart:
  assumes "distinct (map sl_name slices)" "distinct (palette_of theme fallback)" "TAIL_NEUTRAL \<notin> set (palette_of theme fallback)"
  shows "let scale = buildHitModelGroupColor locale_le slices theme fallback; colored = filter (\<lambda>c. c \<noteq> TAIL_NEUTRAL) (cs_range scale)
    in length (cs_range scale) = length slices \<and> distinct colored \<and> set colored \<subseteq> set (palette_of theme fallback) \<and>
       length colored = min (length slices) (length (palette_of theme fallback))"
proof -
  let ?p = "if 0 < length theme then theme else fallback"
  let ?u = "min (length ?p) PALETTE_SLOTS" and ?names = "sort_by locale_le (map sl_name slices)"
  let ?out = "foldl (color_step ?p ?u) (replicate ?u False, []) ?names"
  have u: "length (palette_of theme fallback) = ?u" "palette_of theme fallback = take ?u ?p" by (auto simp: palette_of_def min_def)
  have d: "distinct ?names" using assms(1) by simp
  obtain slot taken m where out: "?out = (taken, m)" and inv: "colors_inv ?p ?u ?names slot (taken, m)"
    using slots_found [OF d, of ?p ?u] by (metis surj_pair)
  let ?S = "slotted ?u ?names slot"
  let ?color = "\<lambda>n. if slot n < ?u then ?p ! slot n else TAIL_NEUTRAL"
  have range: "cs_range (buildHitModelGroupColor locale_le slices theme fallback) = map ?color ?names"
    using inv unfolding buildHitModelGroupColor_def Let_def out by (simp add: colors_inv_def del: set_sort_by)
  have in_p: "?p ! i = palette_of theme fallback ! i" if "i < ?u" for i using that u(2) by simp
  have fil: "filter (\<lambda>c. c \<noteq> TAIL_NEUTRAL) (map ?color ?names) = map (\<lambda>n. palette_of theme fallback ! slot n) (filter (\<lambda>n. slot n < ?u) ?names)"
  proof -
    have "\<forall>n \<in> set ?names. (?color n \<noteq> TAIL_NEUTRAL) = (slot n < ?u)"
      using in_p nth_mem [of _ "palette_of theme fallback"] assms(3) u(1) by metis
    then have "filter (\<lambda>n. ?color n \<noteq> TAIL_NEUTRAL) ?names = filter (\<lambda>n. slot n < ?u) ?names" by (intro filter_cong) auto
    then show ?thesis using in_p by (auto simp: filter_map comp_def)
  qed
  have S: "set (filter (\<lambda>n. slot n < ?u) ?names) = ?S" by (simp add: slotted_def)
  have "inj_on (\<lambda>n. palette_of theme fallback ! slot n) ?S"
    using inv assms(2) u(1) by (auto simp: inj_on_def colors_inv_def slotted_def nth_eq_iff_index_eq)
  then have "distinct (map (\<lambda>n. palette_of theme fallback ! slot n) (filter (\<lambda>n. slot n < ?u) ?names))"
    using d S by (simp add: distinct_map del: set_filter)
  moreover have "length (filter (\<lambda>n. slot n < ?u) ?names) = min (length slices) ?u"
    using card_slotted [OF inv d] d distinct_card [of "filter (\<lambda>n. slot n < ?u) ?names"] S by simp
  moreover have "(\<lambda>n. palette_of theme fallback ! slot n) ` ?S \<subseteq> set (palette_of theme fallback)"
    using u(1) by (auto simp: slotted_def)
  ultimately show ?thesis unfolding Let_def range fil using S u(1) by (simp del: set_filter)
qed

lemma colors_told_apart_witness:
  "let scale = buildHitModelGroupColor (\<le>) (map (\<lambda>n. \<lparr>sl_name = n, sl_count = 1, sl_quota = 1, sl_tokens = 1\<rparr>) [''a'', ''b'', ''c'']) [''red'', ''blue''] [];
       colored = filter (\<lambda>c. c \<noteq> TAIL_NEUTRAL) (cs_range scale)
   in length (cs_range scale) = 3 \<and> distinct colored \<and> length colored = 2"
  using colors_told_apart [of "map (\<lambda>n. \<lparr>sl_name = n, sl_count = 1, sl_quota = 1, sl_tokens = 1\<rparr>) [''a'', ''b'', ''c'']" "[''red'', ''blue'']" "[]" "(\<le>)"]
  by (simp add: palette_of_def PALETTE_SLOTS_def TAIL_NEUTRAL_def Let_def)

lemma sort_by_unique:
  assumes "\<And>a b. le a b \<or> le b a" "\<And>a b c. le a b \<Longrightarrow> le b c \<Longrightarrow> le a c" "\<And>a b. le a b \<Longrightarrow> le b a \<Longrightarrow> a = b"
    and "mset xs = mset ys"
  shows "sort_by le xs = sort_by le ys"
proof -
  have s: "sorted_wrt le (sort_by le zs)" for zs using assms(1,2) by (rule sorted_sort_by)
  have "xs = ys" if "sorted_wrt le xs" "sorted_wrt le ys" "mset xs = mset ys" for xs ys
    using that
  proof (induction xs arbitrary: ys)
    case (Cons x xs)
    then obtain y ys' where ys: "ys = y # ys'" by (cases ys) auto
    have "x \<in> set ys" "y \<in> set (x # xs)" using Cons.prems(3) ys by (metis list.set_intros(1) mset_eq_setD)+
    then have "x = y" using Cons.prems(1,2) assms(3) ys by auto
    then show ?case using Cons ys by simp
  qed simp
  then show ?thesis using s assms(4) by (metis mset_sort_by)
qed

text \<open>
  The colours do not hang on the call counts or on the order of the slices: two lists of slices with
  the same names have the same scale, for any order of names that is total and tells different names
  apart.
\<close>
theorem colors_by_name_only:
  assumes "\<And>a b. locale_le a b \<or> locale_le b a" "\<And>a b c. locale_le a b \<Longrightarrow> locale_le b c \<Longrightarrow> locale_le a c"
    "\<And>a b. locale_le a b \<Longrightarrow> locale_le b a \<Longrightarrow> a = b" "mset (map sl_name slices) = mset (map sl_name slices')"
  shows "buildHitModelGroupColor locale_le slices theme fallback = buildHitModelGroupColor locale_le slices' theme fallback"
  using sort_by_unique [of locale_le, OF assms] by (simp add: buildHitModelGroupColor_def)

definition plain_slice :: "string \<Rightarrow> int \<Rightarrow> HitModelGroupSlice" where
  "plain_slice name n = \<lparr>sl_name = name, sl_count = n, sl_quota = n, sl_tokens = n\<rparr>"

lemma colors_by_name_only_witness:
  "buildHitModelGroupColor (\<le>) [plain_slice ''kimi'' 9, plain_slice ''glm'' 2] [''red'', ''blue''] [] =
   buildHitModelGroupColor (\<le>) [plain_slice ''glm'' 7, plain_slice ''kimi'' 1] [''red'', ''blue''] []"
  by (rule colors_by_name_only) (auto simp: plain_slice_def)

text \<open>
  A model can change its colour when one with another hash goes. With gemini and llama, which share
  slot 6, llama is moved on to slot 7, the slot of mistral, which is moved on to slot 0; without gemini,
  llama has slot 6 and mistral slot 7. The comment on the function says that only a model that
  shares the slot makes one change its colour.
\<close>
theorem color_of_others_changes:
  assumes "8 \<le> length theme"
  shows "hashSlot ''gemini'' 8 \<noteq> hashSlot ''mistral'' 8 \<and>
    cs_range (buildHitModelGroupColor (\<le>) (map (\<lambda>n. plain_slice n 1) [''gemini'', ''llama'', ''mistral'']) theme fallback) = [theme ! 6, theme ! 7, theme ! 0] \<and>
    cs_range (buildHitModelGroupColor (\<le>) (map (\<lambda>n. plain_slice n 1) [''llama'', ''mistral'']) theme fallback) = [theme ! 6, theme ! 7]"
proof -
  have h: "hashSlot ''gemini'' 8 = 6" "hashSlot ''llama'' 8 = 6" "hashSlot ''mistral'' 8 = 7"
    by (simp_all add: hashSlot_def fnv_hash_def fnv_step_def)
  have s: "sort_by (\<le>) [''gemini'', ''llama'', ''mistral''] = [''gemini'', ''llama'', ''mistral'']"
    "sort_by (\<le>) [''llama'', ''mistral''] = [''llama'', ''mistral'']"
    by (simp_all add: sort_by_sorted)
  have u: "min (length theme) PALETTE_SLOTS = 8" "0 < length theme" using assms by (auto simp: PALETTE_SLOTS_def)
  have f: "find_slot 6 (replicate 8 False) 8 = Some 6" "find_slot 6 ((replicate 8 False)[6 := True]) 8 = Some 7"
    "find_slot 7 ((replicate 8 False)[6 := True, 7 := True]) 8 = Some 0" "find_slot 7 ((replicate 8 False)[6 := True]) 8 = Some 7"
    by code_simp+
  show ?thesis
    using u(2) by (simp add: buildHitModelGroupColor_def Let_def s u(1) color_step_def h f plain_slice_def)
qed

lemma color_of_others_changes_witness:
  "cs_range (buildHitModelGroupColor (\<le>) (map (\<lambda>n. plain_slice n 1) [''gemini'', ''llama'', ''mistral'']) [''c0'', ''c1'', ''c2'', ''c3'', ''c4'', ''c5'', ''c6'', ''c7''] []) =
   [''c6'', ''c7'', ''c0''] \<and>
   cs_range (buildHitModelGroupColor (\<le>) (map (\<lambda>n. plain_slice n 1) [''llama'', ''mistral'']) [''c0'', ''c1'', ''c2'', ''c3'', ''c4'', ''c5'', ''c6'', ''c7''] []) = [''c6'', ''c7'']"
  using color_of_others_changes [of "[''c0'', ''c1'', ''c2'', ''c3'', ''c4'', ''c5'', ''c6'', ''c7'']" "[]"] by simp

end
