(* ===== verification/UsageCharts.thy ===== *)
theory UsageCharts
  imports UsageModels Complex_Main
begin

text \<open>
  The figures of the usage charts (features/dashboard/lib/charts.ts and stats.ts): sums by time and
  model, padding of the time axis, the series of the charts with the bucket for the rest, the ranking
  and the trend of users, the rows of a tooltip. The chart specifications around the figures (types,
  fields, styles, titles) are not modelled. Parameters are \<open>formatChartTime\<close>, which is dayjs, the order of
  \<open>localeCompare\<close> and the formatter of money. Quotients are rational numbers.
\<close>

datatype granularity = Hour | Day | Week

definition GRANULARITY_SECONDS :: "granularity \<Rightarrow> int" where
  "GRANULARITY_SECONDS g = (case g of Hour \<Rightarrow> 3600 | Day \<Rightarrow> 86400 | Week \<Rightarrow> 604800)"

type_synonym time_format = "int \<Rightarrow> granularity \<Rightarrow> string"

definition buildContiguousTimePoints :: "time_format \<Rightarrow> string list \<Rightarrow> int list \<Rightarrow> granularity \<Rightarrow> int \<Rightarrow> string list" where
  "buildContiguousTimePoints fmt observedKeys timestamps granularity maxPoints =
     (let valid = filter (\<lambda>t. t > 0) timestamps
      in if valid = [] then sort_by (\<le>) observedKeys
         else let step = GRANULARITY_SECONDS granularity;
                first = Min (set valid); last = Max (set valid);
                steps = (last - first) div step + 1
              in if steps \<le> 0 \<or> steps > maxPoints then sort_by (\<le>) observedKeys
                 else let keys = foldl (\<lambda>keys i. set_add (fmt (first + int i * step) granularity) keys) [] [0..<nat steps]
                      in sort_by (\<le>) (keys @ filter (\<lambda>key. key \<notin> set keys) observedKeys))"

section \<open>Sums by time and model\<close>

definition chart_model :: "bool \<Rightarrow> QuotaDataItem \<Rightarrow> string" where
  "chart_model normalizeModelKey item =
     (let raw = or_string (qd_model_group item) (qd_strategy item) ''Unknown'' in if normalizeModelKey then js_lower raw else raw)"

type_synonym time_model_map = "(string \<times> (string \<times> stats) list) list"

definition add_time_model :: "string \<times> string \<Rightarrow> stats \<Rightarrow> time_model_map \<Rightarrow> time_model_map" where
  "add_time_model = (\<lambda>(timeKey, model) v m.
     let modelMap = (case map_of m timeKey of None \<Rightarrow> [] | Some mm \<Rightarrow> mm)
     in AList.update timeKey (map_add_at model v modelMap) m)"

definition stats_at :: "time_model_map \<Rightarrow> string \<times> string \<Rightarrow> stats" where
  "stats_at m = (\<lambda>(time, model). case map_of m time of None \<Rightarrow> 0 | Some mm \<Rightarrow> map_at mm model)"

definition sum_step ::
    "time_format \<Rightarrow> granularity \<Rightarrow> bool \<Rightarrow> time_model_map \<times> (string \<times> stats) list \<Rightarrow> QuotaDataItem \<Rightarrow> time_model_map \<times> (string \<times> stats) list" where
  "sum_step fmt g lower = (\<lambda>(timeModelMap, modelTotalsMap) item.
     let timeKey = fmt (qd_created_at item) g; model = chart_model lower item
     in (add_time_model (timeKey, model) (row_stats item) timeModelMap, map_add_at model (row_stats item) modelTotalsMap))"

definition MAX_CHART_TREND_POINTS :: nat where
  "MAX_CHART_TREND_POINTS = 7"

definition fillTimePoints :: "time_format \<Rightarrow> granularity \<Rightarrow> QuotaDataItem list \<Rightarrow> string list \<Rightarrow> string list" where
  "fillTimePoints fmt g data ts =
     (if length ts \<ge> MAX_CHART_TREND_POINTS then ts
      else let lastTime = Max (set (map qd_created_at data));
               intervalSec = (case g of Week \<Rightarrow> 604800 | Day \<Rightarrow> 86400 | Hour \<Rightarrow> 3600)
           in map (\<lambda>i. fmt (lastTime - int (MAX_CHART_TREND_POINTS - 1 - i) * intervalSec) g) [0..<MAX_CHART_TREND_POINTS])"

section \<open>Series\<close>

text \<open>\<open>Number(x.toFixed(4))\<close>: four digits, halves away from zero.\<close>

definition to_fixed4 :: "rat \<Rightarrow> rat" where
  "to_fixed4 x = (if x < 0 then - (rat_of_int \<lfloor>- x * 10000 + 1 / 2\<rfloor> / 10000) else rat_of_int \<lfloor>x * 10000 + 1 / 2\<rfloor> / 10000)"

definition usage_of :: "int \<Rightarrow> int \<Rightarrow> rat" where
  "usage_of quotaPerUnit rawQuota = (let usd = (if rawQuota = 0 then 0 else rat_of_int rawQuota / rat_of_int quotaPerUnit)
     in if usd = 0 then 0 else to_fixed4 usd)"

record usage_value =
  uv_time :: string
  uv_model :: string
  uv_raw :: int
  uv_usage :: rat
  uv_sum :: int

record count_value =
  cv_time :: string
  cv_model :: string
  cv_count :: int

definition line_values :: "int \<Rightarrow> string list \<Rightarrow> time_model_map \<Rightarrow> string \<Rightarrow> usage_value list" where
  "line_values quotaPerUnit sortedModels timeModelMap time =
     (let timeData = map (\<lambda>model. let rawQuota = st_quota (stats_at timeModelMap (time, model))
            in \<lparr>uv_time = time, uv_model = model, uv_raw = rawQuota, uv_usage = usage_of quotaPerUnit rawQuota, uv_sum = 0\<rparr>) sortedModels;
          timeSum = (\<Sum>item\<leftarrow>timeData. uv_raw item)
      in map (\<lambda>item. item\<lparr>uv_sum := timeSum\<rparr>) (sort_by (\<lambda>a b. uv_raw b \<le> uv_raw a) timeData))"

definition MAX_AREA_MODELS :: nat where
  "MAX_AREA_MODELS = 15"

definition ranked :: "(stats \<Rightarrow> int) \<Rightarrow> (string \<times> stats) list \<Rightarrow> (string \<times> int) list" where
  "ranked f totals = sort_by (\<lambda>a b. snd b \<le> snd a) (map (\<lambda>(model, s). (model, f s)) totals)"

definition bucket_step ::
    "int \<Rightarrow> string list \<Rightarrow> string \<Rightarrow> time_model_map \<Rightarrow> string \<Rightarrow> (string \<times> (int \<times> rat)) list \<times> int \<Rightarrow> string \<Rightarrow> (string \<times> (int \<times> rat)) list \<times> int" where
  "bucket_step quotaPerUnit topAreaModels otherLabel timeModelMap time = (\<lambda>(buckets, timeSum) model.
     let rawQuota = st_quota (stats_at timeModelMap (time, model));
         usage = usage_of quotaPerUnit rawQuota;
         key = (if model \<in> set topAreaModels then model else otherLabel);
         prev = (case map_of buckets key of None \<Rightarrow> (0, 0) | Some v \<Rightarrow> v)
     in (AList.update key (fst prev + rawQuota, to_fixed4 (snd prev + usage)) buckets, timeSum + rawQuota))"

definition area_values :: "int \<Rightarrow> string list \<Rightarrow> string \<Rightarrow> string list \<Rightarrow> time_model_map \<Rightarrow> string \<Rightarrow> usage_value list" where
  "area_values quotaPerUnit topAreaModels otherLabel sortedModels timeModelMap time =
     (let (buckets, timeSum) = foldl (bucket_step quotaPerUnit topAreaModels otherLabel timeModelMap time) ([], 0) sortedModels
      in map (\<lambda>(model, raw, usage). \<lparr>uv_time = time, uv_model = model, uv_raw = raw, uv_usage = usage, uv_sum = timeSum\<rparr>) buckets)"

definition MAX_TREND_MODELS :: nat where
  "MAX_TREND_MODELS = 20"

definition trend_values :: "string list \<Rightarrow> string list \<Rightarrow> string \<Rightarrow> time_model_map \<Rightarrow> string \<Rightarrow> count_value list" where
  "trend_values topTrendModels otherTrendModels otherLabel timeModelMap time =
     map (\<lambda>model. \<lparr>cv_time = time, cv_model = model, cv_count = st_count (stats_at timeModelMap (time, model))\<rparr>) topTrendModels @
     (if 0 < length otherTrendModels
      then [\<lparr>cv_time = time, cv_model = otherLabel, cv_count = (\<Sum>model\<leftarrow>otherTrendModels. st_count (stats_at timeModelMap (time, model)))\<rparr>]
      else [])"

definition MAX_RANK_MODELS :: nat where
  "MAX_RANK_MODELS = 20"

definition rank_values :: "string \<Rightarrow> (string \<times> int) list \<Rightarrow> (string \<times> int) list" where
  "rank_values otherLabel allRankValues =
     (if length allRankValues > MAX_RANK_MODELS
      then take MAX_RANK_MODELS allRankValues @ [(otherLabel, \<Sum>item\<leftarrow>drop MAX_RANK_MODELS allRankValues. snd item)]
      else allRankValues)"

record chart_data =
  cd_pie :: "(string \<times> int) list"
  cd_line :: "usage_value list"
  cd_area :: "usage_value list"
  cd_trend :: "count_value list"
  cd_rank :: "(string \<times> int) list"
  cd_color_domain :: "string list"
  cd_total_quota :: int
  cd_total_count :: int

definition no_data :: chart_data where
  "no_data = \<lparr>cd_pie = [], cd_line = [], cd_area = [], cd_trend = [], cd_rank = [], cd_color_domain = [], cd_total_quota = 0, cd_total_count = 0\<rparr>"

definition processChartData ::
    "time_format \<Rightarrow> (string \<Rightarrow> string \<Rightarrow> bool) \<Rightarrow> int \<Rightarrow> string \<Rightarrow> QuotaDataItem list \<Rightarrow> granularity \<Rightarrow> bool \<Rightarrow> chart_data" where
  "processChartData fmt locale_le quotaPerUnit otherLabel data g normalizeModelKey =
     (if data = [] then no_data
      else let (timeModelMap, modelTotalsMap) = foldl (sum_step fmt g normalizeModelKey) ([], []) data;
               allModels = map fst modelTotalsMap;
               sortedTimes = sort_by (\<le>) (map fst timeModelMap);
               sortedModels = sort_by (\<le>) allModels;
               chartTimes = fillTimePoints fmt g data sortedTimes;
               topAreaModels = map fst (take MAX_AREA_MODELS (ranked st_quota modelTotalsMap));
               rankedTrendModels = map fst (ranked st_count modelTotalsMap)
           in \<lparr>cd_pie = ranked st_count modelTotalsMap,
               cd_line = sort_by (\<lambda>a b. locale_le (uv_time a) (uv_time b))
                 (concat (map (line_values quotaPerUnit sortedModels timeModelMap) chartTimes)),
               cd_area = sort_by (\<lambda>a b. locale_le (uv_time a) (uv_time b))
                 (concat (map (area_values quotaPerUnit topAreaModels otherLabel sortedModels timeModelMap) chartTimes)),
               cd_trend = sort_by (\<lambda>a b. locale_le (cv_time a) (cv_time b))
                 (concat (map (trend_values (take MAX_TREND_MODELS rankedTrendModels) (drop MAX_TREND_MODELS rankedTrendModels) otherLabel timeModelMap) chartTimes)),
               cd_rank = rank_values otherLabel (ranked st_count modelTotalsMap),
               cd_color_domain = js_uniq (sortedModels @ [otherLabel]),
               cd_total_quota = (\<Sum>x\<leftarrow>map snd modelTotalsMap. st_quota x),
               cd_total_count = (\<Sum>x\<leftarrow>map snd modelTotalsMap. st_count x)\<rparr>)"

text \<open>The totals above the charts (stats.ts).\<close>

definition calculateDashboardStats :: "QuotaDataItem list \<Rightarrow> stats" where
  "calculateDashboardStats data = foldl (\<lambda>acc item. acc + row_stats item) 0 data"

section \<open>The rows of a tooltip\<close>

record tooltip_item =
  tt_key :: string
  tt_value :: int
  tt_time_sum :: "int option"
  tt_raw :: "int option"

definition MAX_TOOLTIP_MODELS :: nat where
  "MAX_TOOLTIP_MODELS = 15"

text \<open>The sum of the last row that has one which is not zero.\<close>

definition tooltip_sum :: "tooltip_item list \<Rightarrow> int" where
  "tooltip_sum items = foldl (\<lambda>sum item. case tt_time_sum item of None \<Rightarrow> sum | Some n \<Rightarrow> if n = 0 then sum else n) 0 items"

definition tooltip_rows ::
    "(int \<Rightarrow> string) \<Rightarrow> string \<Rightarrow> string \<Rightarrow> bool \<Rightarrow> tooltip_item list \<Rightarrow> (string \<times> string) list" where
  "tooltip_rows formatQuotaValue otherLabel totalLabel collapseOverflow items =
     (let isOther = (\<lambda>item. tt_key item = ''Other'' \<or> tt_key item = otherLabel);
          modelItems = sort_by (\<lambda>a b. tt_value b \<le> tt_value a) (filter (\<lambda>item. \<not> isOther item) items);
          otherItems = filter isOther items;
          array = modelItems @ otherItems;
          row = (\<lambda>item. (tt_key item, formatQuotaValue (tt_value item)));
          rows = (if collapseOverflow \<and> length array > MAX_TOOLTIP_MODELS
            then map row (take MAX_TOOLTIP_MODELS modelItems) @
              [(otherLabel, formatQuotaValue (\<Sum>item\<leftarrow>drop MAX_TOOLTIP_MODELS modelItems @ otherItems. num0 (tt_raw item)))]
            else map row array)
      in (totalLabel, formatQuotaValue (tooltip_sum array)) # rows)"

section \<open>Users\<close>

definition user_name :: "QuotaDataItem \<Rightarrow> string" where
  "user_name item = or_default (qd_username item) ''unknown''"

definition user_tokens :: "QuotaDataItem \<Rightarrow> int" where
  "user_tokens item = num0 (qd_token_used item)"

definition ranked_users :: "QuotaDataItem list \<Rightarrow> (string \<times> int) list" where
  "ranked_users data =
     (let userTokenTotal = foldl (\<lambda>m item. map_add_at (user_name item) (user_tokens item) m) [] data
      in sort_by (\<lambda>a b. snd b \<le> snd a) (filter (\<lambda>(_, tokens). tokens > 0) userTokenTotal))"

type_synonym time_user_map = "(string \<times> (string \<times> int) list) list"

definition user_step :: "time_format \<Rightarrow> granularity \<Rightarrow> string list \<Rightarrow> time_user_map \<times> string list \<Rightarrow> QuotaDataItem \<Rightarrow> time_user_map \<times> string list" where
  "user_step fmt g topUsers = (\<lambda>(timeUserMap, allTimePoints) item.
     let timeKey = fmt (qd_created_at item) g; user = user_name item
     in (if user \<notin> set topUsers then timeUserMap
         else let m = (case map_of timeUserMap timeKey of None \<Rightarrow> [] | Some mm \<Rightarrow> mm)
              in AList.update timeKey (map_add_at user (user_tokens item) m) timeUserMap,
         set_add timeKey allTimePoints))"

definition tokens_at :: "time_user_map \<Rightarrow> string \<times> string \<Rightarrow> int" where
  "tokens_at m = (\<lambda>(time, user). case map_of m time of None \<Rightarrow> 0 | Some mm \<Rightarrow> map_at mm user)"

record token_value =
  tv_time :: string
  tv_user :: string
  tv_tokens :: int

record user_chart_data =
  ud_rank :: "(string \<times> int) list"
  ud_trend :: "token_value list"
  ud_total :: int
  ud_colors :: "(string \<times> string) list"

text \<open>The colours of the theme, repeated to the length needed, or a fixed list.\<close>

definition cycle_colors :: "nat \<Rightarrow> string list \<Rightarrow> string list" where
  "cycle_colors n themeColors = map (\<lambda>i. themeColors ! (i mod length themeColors)) [0..<max n (length themeColors)]"

definition USER_COLOR_FALLBACKS :: "string list" where
  "USER_COLOR_FALLBACKS = [''#5B8FF9'', ''#5AD8A6'', ''#F6BD16'', ''#E8684A'', ''#6DC8EC'', ''#9270CA'', ''#FF9D4D'', ''#269A99'',
     ''#FF99C3'', ''#5D7092'']"

definition user_color_range :: "nat \<Rightarrow> string list \<Rightarrow> string list" where
  "user_color_range limit themeColors = (if 0 < length themeColors then cycle_colors limit themeColors else USER_COLOR_FALLBACKS)"

definition processUserChartData :: "time_format \<Rightarrow> string list \<Rightarrow> QuotaDataItem list \<Rightarrow> granularity \<Rightarrow> nat \<Rightarrow> user_chart_data option" where
  "processUserChartData fmt themeColors data g limit =
     (let userColorRange = user_color_range limit themeColors;
          sorted = ranked_users data
      in if data = [] \<or> sorted = [] then None
         else let topUsers = map fst (take limit sorted);
                  (timeUserMap, allTimePoints) = foldl (user_step fmt g topUsers) ([], []) data;
                  points = buildContiguousTimePoints fmt allTimePoints (map qd_created_at data) g 400
              in Some \<lparr>ud_rank = take limit sorted,
                   ud_trend = concat (map (\<lambda>time. map (\<lambda>user. \<lparr>tv_time = time, tv_user = user, tv_tokens = tokens_at timeUserMap (time, user)\<rparr>) topUsers) points),
                   ud_total = (\<Sum>x\<leftarrow>take limit sorted. snd x),
                   ud_colors = map (\<lambda>(i, user). (user, userColorRange ! (i mod length userColorRange))) (zip [0..<length topUsers] topUsers)\<rparr>)"

end
