(* ===== verification/UsageChartsFacts.thy ===== *)
theory UsageChartsFacts
  imports UsageCharts JsNumber
begin

text \<open>
  Facts about the figures of the usage charts: what the axis shows adds up, at every point and over
  all; the bucket for the rest loses nothing; the rows that the padded axis leaves out; the trend of
  a user adds up to his place in the ranking.
\<close>

section \<open>The nested map holds sums\<close>

interpretation timeModel: sums "[]" add_time_model stats_at
  by unfold_locales
    (auto simp: stats_at_def add_time_model_def update_conv assoc.get_add map_at_def [of "[]"] Let_def split: prod.splits option.splits)

definition row_time :: "time_format \<Rightarrow> granularity \<Rightarrow> QuotaDataItem \<Rightarrow> string" where
  "row_time fmt g row = fmt (qd_created_at row) g"

definition rows_at :: "time_format \<Rightarrow> granularity \<Rightarrow> QuotaDataItem list \<Rightarrow> string \<Rightarrow> QuotaDataItem list" where
  "rows_at fmt g data t = filter (\<lambda>row. row_time fmt g row = t) data"

abbreviation tm_map :: "time_format \<Rightarrow> granularity \<Rightarrow> bool \<Rightarrow> QuotaDataItem list \<Rightarrow> time_model_map" where
  "tm_map fmt g lower data \<equiv> timeModel.collect (\<lambda>row. (row_time fmt g row, chart_model lower row)) row_stats data"

abbreviation totals_map :: "bool \<Rightarrow> QuotaDataItem list \<Rightarrow> (string \<times> stats) list" where
  "totals_map lower data \<equiv> assoc.collect (chart_model lower) row_stats data"

lemma sum_steps: "foldl (sum_step fmt g lower) ([], []) data = (tm_map fmt g lower data, totals_map lower data)"
proof -
  have "foldl (sum_step fmt g lower) (a, b) data =
      (fold (\<lambda>row. add_time_model (row_time fmt g row, chart_model lower row) (row_stats row)) data a,
       fold (\<lambda>row. map_add_at (chart_model lower row) (row_stats row)) data b)" for a b
    by (induction data arbitrary: a b) (simp_all add: sum_step_def row_time_def Let_def)
  then show ?thesis by (simp add: timeModel.collect_def assoc.collect_def)
qed

lemma tm_keys: "map fst (tm_map fmt g lower data) = js_uniq (map (row_time fmt g) data)"
proof -
  have "map fst (fold (\<lambda>row. add_time_model (row_time fmt g row, chart_model lower row) (row_stats row)) data a) =
      fold set_add (map (row_time fmt g) data) (map fst a)" for a
    by (induction data arbitrary: a) (simp_all add: add_time_model_def keys_update Let_def)
  then show ?thesis by (simp add: timeModel.collect_def js_uniq_def)
qed

text \<open>The figures of one point in time, over any order of the models.\<close>

lemma time_sum:
  assumes "mset models = mset (map fst (totals_map lower data))"
  shows "(\<Sum>model\<leftarrow>models. stats_at (tm_map fmt g lower data) (t, model)) = (\<Sum>row\<leftarrow>rows_at fmt g data t. row_stats row)"
proof -
  have d: "distinct models" using assms distinct_collect by (metis mset_eq_imp_distinct_iff)
  have "set models = chart_model lower ` set data"
    using assms assoc.keys_collect [of "chart_model lower" row_stats data] by (metis mset_eq_setD set_js_uniq set_map)
  moreover have "stats_at (tm_map fmt g lower data) (t, model) =
      (\<Sum>row\<leftarrow>filter (\<lambda>row. chart_model lower row = model) (rows_at fmt g data t). row_stats row)" for model
    by (simp add: timeModel.get_collect rows_at_def conj_commute)
  ultimately show ?thesis using sum_by_key [OF d, of "chart_model lower" "rows_at fmt g data t" row_stats] by (auto simp: rows_at_def)
qed

section \<open>Series\<close>

lemma sum_sort_by: "(\<Sum>x\<leftarrow>sort_by le xs. f x) = (\<Sum>x\<leftarrow>xs. f x :: 'b::comm_monoid_add)"
  unfolding sum_mset_sum_list [symmetric] mset_map mset_sort_by ..

lemma line_values_sum: "(\<Sum>v\<leftarrow>line_values q models m t. uv_raw v) = (\<Sum>model\<leftarrow>models. st_quota (stats_at m (t, model)))"
  "\<forall>v \<in> set (line_values q models m t). uv_time v = t \<and> uv_sum v = (\<Sum>model\<leftarrow>models. st_quota (stats_at m (t, model)))"
proof -
  let ?item = "\<lambda>model. let rawQuota = st_quota (stats_at m (t, model))
    in \<lparr>uv_time = t, uv_model = model, uv_raw = rawQuota, uv_usage = usage_of q rawQuota, uv_sum = 0\<rparr>"
  have raw: "map uv_raw (map ?item models) = map (\<lambda>model. st_quota (stats_at m (t, model))) models" by (simp add: Let_def)
  have "(\<Sum>v\<leftarrow>line_values q models m t. uv_raw v) = sum_list (map uv_raw (sort_by (\<lambda>a b. uv_raw b \<le> uv_raw a) (map ?item models)))"
    by (simp add: line_values_def Let_def comp_def)
  also have "\<dots> = sum_list (map uv_raw (map ?item models))" by (rule sum_sort_by)
  finally show "(\<Sum>v\<leftarrow>line_values q models m t. uv_raw v) = (\<Sum>model\<leftarrow>models. st_quota (stats_at m (t, model)))"
    unfolding raw .
  show "\<forall>v \<in> set (line_values q models m t). uv_time v = t \<and> uv_sum v = (\<Sum>model\<leftarrow>models. st_quota (stats_at m (t, model)))"
    by (auto simp: line_values_def Let_def comp_def)
qed

lemma project_update: "map (\<lambda>(k, v). (k, f v)) (AList.update k v m) = AList.update k (f v) (map (\<lambda>(k, v). (k, f v)) m)"
  by (induction m) auto

lemma project_at: "map_of (map (\<lambda>(k, v). (k, f v)) m) k = map_option f (map_of m k)"
  by (induction m) auto

abbreviation raw_buckets :: "(string \<times> (int \<times> rat)) list \<Rightarrow> (string \<times> int) list" where
  "raw_buckets bs \<equiv> map (\<lambda>(k, v). (k, fst v)) bs"

lemma bucket_step_raw:
  "raw_buckets (fst (bucket_step q best other m t st model)) =
    map_add_at (if model \<in> set best then model else other) (st_quota (stats_at m (t, model))) (raw_buckets (fst st))"
  "snd (bucket_step q best other m t st model) = snd st + st_quota (stats_at m (t, model))"
proof -
  obtain bs n where st: "st = (bs, n)" by (cases st)
  define k where "k = (if model \<in> set best then model else other)"
  have "map_at (raw_buckets bs) k = fst (case map_of bs k of None \<Rightarrow> (0, 0 :: rat) | Some v \<Rightarrow> v)"
    unfolding map_at_def project_at by (cases "map_of bs k") simp_all
  then show "raw_buckets (fst (bucket_step q best other m t st model)) =
      map_add_at (if model \<in> set best then model else other) (st_quota (stats_at m (t, model))) (raw_buckets (fst st))"
    unfolding st bucket_step_def prod.case Let_def fst_conv project_update k_def [symmetric] map_add_at_def by simp
  show "snd (bucket_step q best other m t st model) = snd st + st_quota (stats_at m (t, model))"
    by (simp add: st bucket_step_def Let_def)
qed

lemma buckets_collect:
  "raw_buckets (fst (foldl (bucket_step q best other m t) st models)) =
      fold (\<lambda>model. map_add_at (if model \<in> set best then model else other) (st_quota (stats_at m (t, model)))) models (raw_buckets (fst st))"
  "snd (foldl (bucket_step q best other m t) st models) = snd st + (\<Sum>model\<leftarrow>models. st_quota (stats_at m (t, model)))"
  by (induction models arbitrary: st) (simp_all only: foldl.simps fold_simps comp_apply bucket_step_raw list.map sum_list_simps add.assoc add_0_right)

lemma area_values_sum: "(\<Sum>v\<leftarrow>area_values q best other models m t. uv_raw v) = (\<Sum>model\<leftarrow>models. st_quota (stats_at m (t, model)))"
  "\<forall>v \<in> set (area_values q best other models m t). uv_time v = t \<and> uv_sum v = (\<Sum>model\<leftarrow>models. st_quota (stats_at m (t, model)))"
proof -
  obtain bs n where st: "foldl (bucket_step q best other m t) ([], 0) models = (bs, n)" by (metis surj_pair)
  let ?key = "\<lambda>model. if model \<in> set best then model else other" and ?val = "\<lambda>model. st_quota (stats_at m (t, model))"
  have b: "map (\<lambda>(k, v). (k, fst v)) bs = assoc.collect ?key ?val models" and n: "n = (\<Sum>model\<leftarrow>models. ?val model)"
    using buckets_collect [of q best other m t "([], 0)" models] unfolding st by (simp_all add: assoc.collect_def)
  have "map uv_raw (area_values q best other models m t) = map snd (map (\<lambda>(k, v). (k, fst v)) bs)"
    by (auto simp: area_values_def st split: prod.splits)
  then show "(\<Sum>v\<leftarrow>area_values q best other models m t. uv_raw v) = (\<Sum>model\<leftarrow>models. ?val model)"
    using total_entries [of ?key ?val models] unfolding b by simp
  show "\<forall>v \<in> set (area_values q best other models m t). uv_time v = t \<and> uv_sum v = (\<Sum>model\<leftarrow>models. ?val model)"
    by (auto simp: area_values_def st n)
qed

text \<open>The plotted usage: numbers with four digits, which rounding leaves alone when they are added.\<close>

definition on_grid :: "rat \<Rightarrow> bool" where
  "on_grid x \<longleftrightarrow> (\<exists>k. x = rat_of_int k / 10000)"

lemma on_grid_zero [simp]: "on_grid 0"
  unfolding on_grid_def by (rule exI [of _ 0]) simp

lemma on_grid_add: "on_grid x \<Longrightarrow> on_grid y \<Longrightarrow> on_grid (x + y)"
  unfolding on_grid_def by (elim exE, rule_tac x = "k + ka" in exI) (simp add: add_divide_distrib)

lemma on_grid_to_fixed4: "on_grid (to_fixed4 x)"
  unfolding on_grid_def to_fixed4_def
  by (cases "x < 0") (auto intro: exI [of _ "- \<lfloor>- x * 10000 + 1 / 2\<rfloor>"])

lemma on_grid_usage [simp]: "on_grid (usage_of q n)"
  by (simp add: usage_of_def Let_def on_grid_to_fixed4)

lemma floor_half: "\<lfloor>rat_of_int k + 1 / 2\<rfloor> = k"
  by (simp add: floor_eq_iff)

lemma to_fixed4_grid: "on_grid x \<Longrightarrow> to_fixed4 x = x"
proof -
  assume "on_grid x"
  then obtain k where k: "x = rat_of_int k / 10000" by (auto simp: on_grid_def)
  have "- x * 10000 = rat_of_int (- k)" "x * 10000 = rat_of_int k" using k by simp_all
  then show ?thesis unfolding to_fixed4_def using floor_half [of k] floor_half [of "- k"] k by simp
qed

lemma to_fixed4_error: "\<bar>to_fixed4 x - x\<bar> \<le> 1 / 20000"
proof -
  have "\<bar>rat_of_int \<lfloor>y * 10000 + 1 / 2\<rfloor> / 10000 - y\<bar> \<le> 1 / 20000" for y
    using floor_correct [of "y * 10000 + 1 / 2"] unfolding abs_le_iff by linarith
  from this [of x] this [of "- x"] show ?thesis unfolding to_fixed4_def abs_le_iff by (cases "x < 0") (simp_all only: if_True if_False, linarith+)
qed

lemma usage_error: "\<bar>usage_of q n - rat_of_int n / rat_of_int q\<bar> \<le> 1 / 20000"
  using to_fixed4_error [of "rat_of_int n / rat_of_int q"] by (auto simp: usage_of_def Let_def)

abbreviation usage_buckets :: "(string \<times> (int \<times> rat)) list \<Rightarrow> (string \<times> rat) list" where
  "usage_buckets bs \<equiv> map (\<lambda>(k, v). (k, snd v)) bs"

lemma bucket_step_usage:
  assumes "\<forall>k. on_grid (map_at (usage_buckets (fst st)) k)"
  shows "usage_buckets (fst (bucket_step q best other m t st model)) =
    map_add_at (if model \<in> set best then model else other) (usage_of q (st_quota (stats_at m (t, model)))) (usage_buckets (fst st))"
proof -
  obtain bs n where st: "st = (bs, n)" by (cases st)
  define k where "k = (if model \<in> set best then model else other)"
  have prev: "map_at (usage_buckets bs) k = snd (case map_of bs k of None \<Rightarrow> (0, 0 :: rat) | Some v \<Rightarrow> v)"
    unfolding map_at_def project_at by (cases "map_of bs k") simp_all
  have "to_fixed4 (map_at (usage_buckets bs) k + usage_of q n) = map_at (usage_buckets bs) k + usage_of q n" for n
    using assms unfolding st fst_conv by (intro to_fixed4_grid on_grid_add) simp_all
  then show ?thesis
    unfolding st bucket_step_def prod.case Let_def fst_conv snd_conv project_update k_def [symmetric] map_add_at_def
      prev [symmetric] by simp
qed

lemma usage_collect:
  assumes "\<forall>k. on_grid (map_at (usage_buckets (fst st)) k)"
  shows "usage_buckets (fst (foldl (bucket_step q best other m t) st models)) =
    fold (\<lambda>model. map_add_at (if model \<in> set best then model else other) (usage_of q (st_quota (stats_at m (t, model))))) models
      (usage_buckets (fst st))"
  using assms
proof (induction models arbitrary: st)
  case (Cons model models)
  have "\<forall>k. on_grid (map_at (usage_buckets (fst (bucket_step q best other m t st model))) k)"
    using Cons.prems unfolding bucket_step_usage [OF Cons.prems] by (simp add: assoc.get_add on_grid_add)
  from Cons.IH [OF this] show ?case by (simp add: bucket_step_usage [OF Cons.prems])
qed simp

lemma area_values_usage:
  "(\<Sum>v\<leftarrow>area_values q best other models m t. uv_usage v) = (\<Sum>model\<leftarrow>models. usage_of q (st_quota (stats_at m (t, model))))"
proof -
  obtain bs n where st: "foldl (bucket_step q best other m t) ([], 0) models = (bs, n)" by (metis surj_pair)
  let ?key = "\<lambda>model. if model \<in> set best then model else other" and ?val = "\<lambda>model. usage_of q (st_quota (stats_at m (t, model)))"
  have "usage_buckets bs = assoc.collect ?key ?val models"
    using usage_collect [of "([], 0)" q best other m t models] unfolding st by (simp add: assoc.collect_def map_at_def)
  moreover have "map uv_usage (area_values q best other models m t) = map snd (usage_buckets bs)"
    by (auto simp: area_values_def st split: prod.splits)
  ultimately show ?thesis using total_entries [of ?key ?val models] by simp
qed

text \<open>The bars at one point: one for each model, with the quota of the model and its usage.\<close>

lemma line_values_bars:
  "mset (line_values q models m t) = mset (map (\<lambda>model. \<lparr>uv_time = t, uv_model = model, uv_raw = st_quota (stats_at m (t, model)),
     uv_usage = usage_of q (st_quota (stats_at m (t, model))), uv_sum = (\<Sum>model\<leftarrow>models. st_quota (stats_at m (t, model)))\<rparr>) models)"
  by (simp add: line_values_def Let_def comp_def multiset.map_comp)

lemma trend_values_sum: "(\<Sum>v\<leftarrow>trend_values best rest other m t. cv_count v) = (\<Sum>model\<leftarrow>best @ rest. st_count (stats_at m (t, model)))"
  "\<forall>v \<in> set (trend_values best rest other m t). cv_time v = t"
  by (auto simp: trend_values_def comp_def)

section \<open>Whole charts\<close>

definition chart_times :: "time_format \<Rightarrow> granularity \<Rightarrow> QuotaDataItem list \<Rightarrow> string list" where
  "chart_times fmt g data = (if data = [] then [] else fillTimePoints fmt g data (sort_by (\<le>) (js_uniq (map (row_time fmt g) data))))"

lemma sum_concat: "(\<Sum>x\<leftarrow>concat (map h ts). f x) = (\<Sum>t\<leftarrow>ts. \<Sum>x\<leftarrow>h t. f x :: 'b::comm_monoid_add)"
  by (induction ts) simp_all

text \<open>Each point of the axis has its own values.\<close>

lemma values_at_point:
  assumes "\<And>t v. v \<in> set (h t) \<Longrightarrow> time v = t" "distinct ts" "t \<in> set ts"
  shows "filter (\<lambda>v. time v = t) (concat (map h ts)) = h t"
  using assms(2,3)
proof (induction ts)
  case (Cons u ts)
  have "filter (\<lambda>v. time v = t) (h u) = (if u = t then h t else [])"
    using assms(1) [of _ u] by (auto simp: filter_empty_conv intro: filter_True)
  moreover have "filter (\<lambda>v. time v = t) (concat (map h ts)) = []" if "t \<notin> set ts"
    using that assms(1) by (auto simp: filter_empty_conv)
  ultimately show ?case using Cons by auto
qed simp

lemma sorted_at_point:
  assumes "\<And>t v. v \<in> set (h t) \<Longrightarrow> time v = t" "distinct ts" "t \<in> set ts"
  shows "mset (filter (\<lambda>v. time v = t) (sort_by le (concat (map h ts)))) = mset (h t)"
  by (simp only: mset_filter mset_sort_by) (simp only: mset_filter [symmetric] values_at_point [OF assms])

lemma sum_of_mset: "mset xs = mset ys \<Longrightarrow> (\<Sum>x\<leftarrow>xs. f x) = (\<Sum>x\<leftarrow>ys. f x :: 'b::comm_monoid_add)"
  unfolding sum_mset_sum_list [symmetric] mset_map by simp

abbreviation model_list :: "bool \<Rightarrow> QuotaDataItem list \<Rightarrow> string list" where
  "model_list lower data \<equiv> sort_by (\<le>) (map fst (totals_map lower data))"

lemma chart_figures:
  assumes "data \<noteq> []"
  shows "\<exists>best best' rest.
    processChartData fmt locale_le q other data g lower =
      \<lparr>cd_pie = ranked st_count (totals_map lower data),
       cd_line = sort_by (\<lambda>a b. locale_le (uv_time a) (uv_time b)) (concat (map (line_values q (model_list lower data) (tm_map fmt g lower data)) (chart_times fmt g data))),
       cd_area = sort_by (\<lambda>a b. locale_le (uv_time a) (uv_time b)) (concat (map (area_values q best other (model_list lower data) (tm_map fmt g lower data)) (chart_times fmt g data))),
       cd_trend = sort_by (\<lambda>a b. locale_le (cv_time a) (cv_time b)) (concat (map (trend_values best' rest other (tm_map fmt g lower data)) (chart_times fmt g data))),
       cd_rank = rank_values other (ranked st_count (totals_map lower data)),
       cd_color_domain = js_uniq (model_list lower data @ [other]),
       cd_total_quota = (\<Sum>x\<leftarrow>map snd (totals_map lower data). st_quota x),
       cd_total_count = (\<Sum>x\<leftarrow>map snd (totals_map lower data). st_count x)\<rparr> \<and>
    mset (best' @ rest) = mset (map fst (totals_map lower data))"
proof -
  let ?r = "map fst (ranked st_count (totals_map lower data))"
  have "mset ?r = mset (map fst (totals_map lower data))" by (simp add: ranked_def multiset.map_comp comp_def case_prod_unfold)
  then have m: "mset (take n ?r @ drop n ?r) = mset (map fst (totals_map lower data))" for n by (simp only: append_take_drop_id)
  show ?thesis
    using assms(1) m [of MAX_TREND_MODELS]
    unfolding processChartData_def sum_steps Let_def prod.case tm_keys chart_times_def
    by (intro exI conjI) (simp_all only: if_False take_map drop_map)
qed

lemma chart_series:
  assumes "data \<noteq> []"
  obtains best best' rest where
    "cd_line (processChartData fmt locale_le q other data g lower) =
      sort_by (\<lambda>a b. locale_le (uv_time a) (uv_time b)) (concat (map (line_values q (model_list lower data) (tm_map fmt g lower data)) (chart_times fmt g data)))"
    "cd_area (processChartData fmt locale_le q other data g lower) =
      sort_by (\<lambda>a b. locale_le (uv_time a) (uv_time b)) (concat (map (area_values q best other (model_list lower data) (tm_map fmt g lower data)) (chart_times fmt g data)))"
    "cd_trend (processChartData fmt locale_le q other data g lower) =
      sort_by (\<lambda>a b. locale_le (cv_time a) (cv_time b)) (concat (map (trend_values best' rest other (tm_map fmt g lower data)) (chart_times fmt g data)))"
    "mset (best' @ rest) = mset (map fst (totals_map lower data))"
  using chart_figures [OF assms, of fmt locale_le q other g lower]
  by (elim exE conjE) (erule meta_mp [rotated], simp only: chart_data.select_convs)

lemma chart_tables:
  assumes "data \<noteq> []"
  shows "cd_pie (processChartData fmt locale_le q other data g lower) = ranked st_count (totals_map lower data)"
    "cd_rank (processChartData fmt locale_le q other data g lower) = rank_values other (ranked st_count (totals_map lower data))"
    "cd_total_quota (processChartData fmt locale_le q other data g lower) = (\<Sum>x\<leftarrow>map snd (totals_map lower data). st_quota x)"
    "cd_total_count (processChartData fmt locale_le q other data g lower) = (\<Sum>x\<leftarrow>map snd (totals_map lower data). st_count x)"
  using chart_figures [OF assms, of fmt locale_le q other g lower]
  by (elim exE conjE, simp only: chart_data.select_convs)+

lemma rank_sum: "sum_list (map snd (rank_values other xs)) = sum_list (map snd xs)"
proof -
  have "sum_list (map snd (take n xs)) + sum_list (map snd (drop n xs)) = sum_list (map snd xs)" for n
    unfolding sum_list_append [symmetric] map_append [symmetric] append_take_drop_id ..
  then show ?thesis by (simp add: rank_values_def)
qed

lemma ranked_sum: "sum_list (map snd (ranked f m)) = (\<Sum>x\<leftarrow>map snd m. f x)"
  by (simp add: ranked_def sum_sort_by comp_def case_prod_unfold)

lemma sum_foldl: "foldl (\<lambda>acc item. acc + f item) a xs = a + (\<Sum>x\<leftarrow>xs. f x :: 'b::comm_monoid_add)"
  by (induction xs arbitrary: a) (simp_all add: add.assoc)

text \<open>
  The totals of the usage charts. The shares of the pie, the bars of the ranking with its bucket for
  the rest, and the two numbers shown above add up to the sums over all rows; they are the totals that
  calculateDashboardStats computes for the cards.
\<close>
theorem chart_totals:
  "let d = processChartData fmt locale_le q other data g lower; s = calculateDashboardStats data
   in cd_total_count d = st_count s \<and> cd_total_quota d = st_quota s \<and>
      (\<Sum>x\<leftarrow>cd_pie d. snd x) = st_count s \<and> (\<Sum>x\<leftarrow>cd_rank d. snd x) = st_count s \<and>
      length (cd_rank d) \<le> 21 \<and> s = (\<Sum>row\<leftarrow>data. row_stats row)"
proof -
  have s: "calculateDashboardStats data = (\<Sum>row\<leftarrow>data. row_stats row)"
    using sum_foldl [where a = 0] by (simp add: calculateDashboardStats_def)
  show ?thesis
  proof (cases "data = []")
    case True
    then show ?thesis by (simp add: calculateDashboardStats_def processChartData_def no_data_def Let_def rank_sum)
  next
    case False
    have t: "(\<Sum>x\<leftarrow>map snd (totals_map lower data). f x) = f (\<Sum>row\<leftarrow>data. row_stats row)" if "f = st_count \<or> f = st_quota" for f
    proof -
      have "(\<Sum>x\<leftarrow>map snd (totals_map lower data). f x) = f (sum_list (map snd (totals_map lower data)))"
        using that stats_sum_list(1,2) by (elim disjE) (simp_all only:)
      then show ?thesis by (simp only: total_entries)
    qed
    show ?thesis
      unfolding Let_def chart_tables [OF False] rank_sum ranked_sum using t s
      by (simp del: map_map add: rank_values_def MAX_RANK_MODELS_def)
  qed
qed

text \<open>
  C29: What is plotted at a point of the axis is the usage of the rows of that time. There is exactly
  one bar for every model, with the quota of its rows; the height of a bar is its quota in units, up
  to half of the fourth digit; the heights of the area chart with its bucket for the rest add up to
  those of the bars, and so to the usage of the rows, up to half of the fourth digit for every
  model; the calls of the trend with its bucket add up to those of the rows; the sum kept with each
  value for the tooltip is the quota of the time. The labels of the axis are assumed to differ.
\<close>
theorem chart_points:
  assumes "distinct (chart_times fmt g data)" "t \<in> set (chart_times fmt g data)" "0 < q"
  shows "let d = processChartData fmt locale_le q other data g lower; rows = rows_at fmt g data t;
      line = filter (\<lambda>v. uv_time v = t) (cd_line d); area = filter (\<lambda>v. uv_time v = t) (cd_area d);
      trend = filter (\<lambda>v. cv_time v = t) (cd_trend d); models = js_uniq (map (chart_model lower) data);
      quota = (\<Sum>row\<leftarrow>rows. num0 (qd_quota row))
    in mset (map (\<lambda>v. (uv_model v, uv_raw v)) line) =
         mset (map (\<lambda>model. (model, \<Sum>row\<leftarrow>filter (\<lambda>row. chart_model lower row = model) rows. num0 (qd_quota row))) models) \<and>
       list_all (\<lambda>v. \<bar>uv_usage v - rat_of_int (uv_raw v) / rat_of_int q\<bar> \<le> 1 / 20000) line \<and>
       (\<Sum>v\<leftarrow>area. uv_usage v) = (\<Sum>v\<leftarrow>line. uv_usage v) \<and>
       \<bar>(\<Sum>v\<leftarrow>area. uv_usage v) - rat_of_int quota / rat_of_int q\<bar> \<le> rat_of_nat (length models) / 20000 \<and>
       (\<Sum>v\<leftarrow>area. uv_raw v) = quota \<and>
       (\<Sum>v\<leftarrow>trend. cv_count v) = (\<Sum>row\<leftarrow>rows. num0 (qd_count row)) \<and>
       set (map uv_sum (line @ area)) \<subseteq> {quota}"
proof -
  let ?d = "processChartData fmt locale_le q other data g lower" and ?rows = "rows_at fmt g data t"
  let ?m = "tm_map fmt g lower data" and ?ms = "model_list lower data" and ?ts = "chart_times fmt g data"
  let ?val = "\<lambda>model. st_quota (stats_at ?m (t, model))" and ?quota = "\<Sum>row\<leftarrow>rows_at fmt g data t. num0 (qd_quota row)"
  have ne: "data \<noteq> []" using assms(2) by (auto simp: chart_times_def)
  obtain best best' rest where fig: "cd_line ?d = sort_by (\<lambda>a b. locale_le (uv_time a) (uv_time b)) (concat (map (line_values q ?ms ?m) ?ts))"
      "cd_area ?d = sort_by (\<lambda>a b. locale_le (uv_time a) (uv_time b)) (concat (map (area_values q best other ?ms ?m) ?ts))"
      "cd_trend ?d = sort_by (\<lambda>a b. locale_le (cv_time a) (cv_time b)) (concat (map (trend_values best' rest other ?m) ?ts))"
    and best: "mset (best' @ rest) = mset (map fst (totals_map lower data))"
    by (rule chart_series [OF ne, of fmt locale_le q other g lower])
  let ?line = "filter (\<lambda>v. uv_time v = t) (cd_line ?d)" and ?area = "filter (\<lambda>v. uv_time v = t) (cd_area ?d)"
    and ?trend = "filter (\<lambda>v. cv_time v = t) (cd_trend ?d)"
  have line: "mset ?line = mset (line_values q ?ms ?m t)"
    unfolding fig by (rule sorted_at_point) (use line_values_sum(2) assms in blast)+
  have area: "mset ?area = mset (area_values q best other ?ms ?m t)"
    unfolding fig by (rule sorted_at_point) (use area_values_sum(2) assms in blast)+
  have trend: "mset ?trend = mset (trend_values best' rest other ?m t)"
    unfolding fig by (rule sorted_at_point) (use trend_values_sum(2) assms in blast)+
  have ms: "mset ?ms = mset (js_uniq (map (chart_model lower) data))" by (simp add: assoc.keys_collect)
  have val: "?val model = (\<Sum>row\<leftarrow>filter (\<lambda>row. chart_model lower row = model) ?rows. num0 (qd_quota row))" for model
    by (simp add: timeModel.get_collect rows_at_def conj_commute stats_sum_list comp_def row_stats_def)
  have quota: "(\<Sum>model\<leftarrow>?ms. ?val model) = ?quota"
    using arg_cong [OF time_sum [of ?ms lower data fmt g t], of st_quota] by (simp add: stats_sum_list comp_def row_stats_def)
  have calls: "(\<Sum>model\<leftarrow>best' @ rest. st_count (stats_at ?m (t, model))) = (\<Sum>row\<leftarrow>?rows. num0 (qd_count row))"
    using arg_cong [OF time_sum [OF best, of fmt g t], of st_count] by (simp add: stats_sum_list comp_def row_stats_def)
  have bars: "mset (map (\<lambda>v. (uv_model v, uv_raw v)) ?line) =
      mset (map (\<lambda>model. (model, \<Sum>row\<leftarrow>filter (\<lambda>row. chart_model lower row = model) ?rows. num0 (qd_quota row)))
        (js_uniq (map (chart_model lower) data)))"
    unfolding val [symmetric] mset_map line line_values_bars ms by (simp add: multiset.map_comp comp_def)
  have usage: "(\<Sum>v\<leftarrow>?line. uv_usage v) = (\<Sum>model\<leftarrow>?ms. usage_of q (?val model))"
    unfolding sum_of_mset [OF line] sum_of_mset [OF line_values_bars] by (simp add: comp_def)
  have area_usage: "(\<Sum>v\<leftarrow>?area. uv_usage v) = (\<Sum>model\<leftarrow>?ms. usage_of q (?val model))"
    unfolding sum_of_mset [OF area] area_values_usage ..
  have heights: "list_all (\<lambda>v. \<bar>uv_usage v - rat_of_int (uv_raw v) / rat_of_int q\<bar> \<le> 1 / 20000) ?line"
    using mset_eq_setD [OF line] mset_eq_setD [OF line_values_bars [of q ?ms ?m t]] usage_error [of q]
    by (auto simp: list_all_iff)
  have "\<bar>(\<Sum>model\<leftarrow>xs. usage_of q (f model)) - rat_of_int (\<Sum>model\<leftarrow>xs. f model) / rat_of_int q\<bar> \<le> rat_of_nat (length xs) / 20000"
    for f and xs :: "string list"
  proof (induction xs)
    case (Cons x xs)
    have "\<bar>usage_of q (f x) + (\<Sum>model\<leftarrow>xs. usage_of q (f model)) - (rat_of_int (f x) / rat_of_int q + rat_of_int (\<Sum>model\<leftarrow>xs. f model) / rat_of_int q)\<bar>
        \<le> 1 / 20000 + rat_of_nat (length xs) / 20000"
      by (rule order_trans [OF abs_diff_triangle_ineq]) (rule add_mono [OF usage_error Cons.IH])
    then show ?case by (simp only: list.map sum_list.Cons of_int_add add_divide_distrib list.size of_nat_add of_nat_Suc add_ac)
  qed simp
  from this [of ?val ?ms] have total: "\<bar>(\<Sum>v\<leftarrow>?area. uv_usage v) - rat_of_int ?quota / rat_of_int q\<bar>
      \<le> rat_of_nat (length (js_uniq (map (chart_model lower) data))) / 20000"
    unfolding area_usage quota mset_eq_length [OF ms] .
  have raw: "(\<Sum>v\<leftarrow>?area. uv_raw v) = ?quota" unfolding sum_of_mset [OF area] area_values_sum(1) quota ..
  have count: "(\<Sum>v\<leftarrow>?trend. cv_count v) = (\<Sum>row\<leftarrow>?rows. num0 (qd_count row))"
    unfolding sum_of_mset [OF trend] trend_values_sum(1) calls ..
  have sums: "set (map uv_sum (?line @ ?area)) \<subseteq> {?quota}"
    using mset_eq_setD [OF line] mset_eq_setD [OF area] line_values_sum(2) [of q ?ms ?m t] area_values_sum(2) [of q best other ?ms ?m t]
    unfolding quota by auto
  show ?thesis
    unfolding Let_def using bars heights usage area_usage total raw count sums by (intro conjI) simp_all
qed

text \<open>
  Rows off the padded axis are not drawn. When the rows have fewer than seven times, the axis is the
  seven steps up to the last row; a row older than that has its share in the totals of the chart but
  no value in its series.
\<close>
theorem sparse_rows_dropped:
  assumes "row \<in> set data" "length (js_uniq (map (row_time fmt g) data)) < 7"
    "\<forall>i < 7. fmt (Max (set (map qd_created_at data)) - int i * GRANULARITY_SECONDS g) g \<noteq> row_time fmt g row"
  shows "let d = processChartData fmt locale_le q other data g lower; t = row_time fmt g row
    in filter (\<lambda>v. uv_time v = t) (cd_line d @ cd_area d) = [] \<and> filter (\<lambda>v. cv_time v = t) (cd_trend d) = []"
proof -
  have ne: "data \<noteq> []" using assms(1) by auto
  let ?m = "tm_map fmt g lower data" and ?ms = "model_list lower data" and ?ts = "chart_times fmt g data"
  have "?ts = map (\<lambda>i. fmt (Max (set (map qd_created_at data)) - int (6 - i) * GRANULARITY_SECONDS g) g) [0..<7]"
    using assms(2) ne by (cases g) (simp_all add: chart_times_def fillTimePoints_def MAX_CHART_TREND_POINTS_def GRANULARITY_SECONDS_def)
  moreover have "fmt (Max (set (map qd_created_at data)) - int (6 - i) * GRANULARITY_SECONDS g) g \<noteq> row_time fmt g row" for i
    using assms(3) by (metis diff_le_self le_imp_less_Suc eval_nat_numeral(3) semiring_norm(28))
  ultimately have off: "row_time fmt g row \<notin> set ?ts" by (metis (no_types, lifting) imageE set_map)
  obtain best best' rest where fig: "cd_line (processChartData fmt locale_le q other data g lower) =
        sort_by (\<lambda>a b. locale_le (uv_time a) (uv_time b)) (concat (map (line_values q ?ms ?m) ?ts))"
      "cd_area (processChartData fmt locale_le q other data g lower) =
        sort_by (\<lambda>a b. locale_le (uv_time a) (uv_time b)) (concat (map (area_values q best other ?ms ?m) ?ts))"
      "cd_trend (processChartData fmt locale_le q other data g lower) =
        sort_by (\<lambda>a b. locale_le (cv_time a) (cv_time b)) (concat (map (trend_values best' rest other ?m) ?ts))"
    by (rule chart_series [OF ne, of fmt locale_le q other g lower])
  show ?thesis
    using off line_values_sum(2) area_values_sum(2) trend_values_sum(2)
    unfolding Let_def fig filter_append by (auto simp: filter_empty_conv)
qed

definition day_format :: time_format where
  "day_format t g = replicate (nat (t div GRANULARITY_SECONDS g)) CHR ''I''"

definition sample_row :: "int \<Rightarrow> string \<Rightarrow> int \<Rightarrow> QuotaDataItem" where
  "sample_row t who n = \<lparr>qd_username = Some who, qd_strategy = Some ''auto'', qd_model_group = None, qd_created_at = t,
     qd_token_used = Some n, qd_count = Some 1, qd_quota = Some n\<rparr>"

lemma day_labels: "chart_times day_format Day [sample_row 1728000 ''ann'' 5, sample_row 1728000 ''bob'' 3] =
    map (\<lambda>n. replicate n CHR ''I'') [14, 15, 16, 17, 18, 19, 20]"
  by (simp add: chart_times_def fillTimePoints_def MAX_CHART_TREND_POINTS_def row_time_def sample_row_def js_uniq_def
      set_add_def day_format_def GRANULARITY_SECONDS_def upt_rec numeral_eq_Suc)

lemma chart_points_witness:
  "let d = processChartData day_format (\<le>) 500000 ''Other'' [sample_row 1728000 ''ann'' 5, sample_row 1728000 ''bob'' 3] Day False;
       line = filter (\<lambda>v. uv_time v = replicate 20 CHR ''I'') (cd_line d)
   in mset (map (\<lambda>v. (uv_model v, uv_raw v)) line) = {# (''auto'', 8) #}"
proof -
  let ?data = "[sample_row 1728000 ''ann'' 5, sample_row 1728000 ''bob'' 3]" and ?t = "replicate 20 CHR ''I''"
  have "distinct (chart_times day_format Day ?data)" unfolding day_labels by (simp add: replicate_eq_replicate)
  moreover have "?t \<in> set (chart_times day_format Day ?data)" unfolding day_labels by simp
  ultimately have "let d = processChartData day_format (\<le>) 500000 ''Other'' ?data Day False;
      line = filter (\<lambda>v. uv_time v = ?t) (cd_line d)
    in mset (map (\<lambda>v. (uv_model v, uv_raw v)) line) =
      mset (map (\<lambda>model. (model, \<Sum>row\<leftarrow>filter (\<lambda>row. chart_model False row = model) (rows_at day_format Day ?data ?t). num0 (qd_quota row)))
        (js_uniq (map (chart_model False) ?data)))"
    using chart_points [of day_format Day ?data ?t 500000 "(\<le>)" "''Other''" False] unfolding Let_def by simp
  then show ?thesis
    by (simp add: Let_def rows_at_def row_time_def sample_row_def day_format_def GRANULARITY_SECONDS_def chart_model_def
        or_string_def js_uniq_def set_add_def num0_def)
qed

lemma sparse_rows_dropped_witness:
  "let d = processChartData day_format (\<le>) 500000 ''Other'' [sample_row 86400 ''ann'' 5, sample_row 1728000 ''bob'' 3] Day False; t = row_time day_format Day (sample_row 86400 ''ann'' 5)
   in filter (\<lambda>v. uv_time v = t) (cd_line d @ cd_area d) = [] \<and> filter (\<lambda>v. cv_time v = t) (cd_trend d) = []"
proof (rule sparse_rows_dropped)
  have "day_format (1728000 - int i * 86400) Day \<noteq> day_format 86400 Day" if "i < 7" for i
  proof -
    have "1728000 - int i * 86400 = (20 - int i) * 86400" by simp
    then have "(1728000 - int i * 86400) div 86400 = 20 - int i" by (metis nonzero_mult_div_cancel_right zero_neq_numeral)
    then have "length (day_format (1728000 - int i * 86400) Day) \<noteq> length (day_format 86400 Day)"
      using that by (simp add: day_format_def GRANULARITY_SECONDS_def)
    then show ?thesis by metis
  qed
  then show "\<forall>i < 7. day_format (Max (set (map qd_created_at [sample_row 86400 ''ann'' 5, sample_row 1728000 ''bob'' 3])) - int i * GRANULARITY_SECONDS Day) Day \<noteq>
      row_time day_format Day (sample_row 86400 ''ann'' 5)"
    by (simp add: sample_row_def row_time_def GRANULARITY_SECONDS_def)
qed (simp_all add: js_uniq_def set_add_def)

section \<open>The axis without gaps\<close>

lemma fold_push: "foldl (\<lambda>keys i. set_add (h i) keys) keys xs = fold set_add (map h xs) keys"
  by (induction xs arbitrary: keys) simp_all

lemma points_facts:
  assumes "distinct observed" "0 \<le> maxPoints"
  shows "let points = buildContiguousTimePoints fmt observed stamps g maxPoints
    in set observed \<subseteq> set points \<and> distinct points \<and> sorted points \<and> length points \<le> nat maxPoints + length observed"
proof -
  have s: "sorted (sort_by (\<le>) xs)" for xs :: "string list" by (intro sorted_sort_by) auto
  define first where "first = Min (set (filter (\<lambda>t. t > 0) stamps))"
  define steps where "steps = (Max (set (filter (\<lambda>t. t > 0) stamps)) - first) div GRANULARITY_SECONDS g + 1"
  define keys where "keys = fold set_add (map (\<lambda>i. fmt (first + int i * GRANULARITY_SECONDS g) g) [0..<nat steps]) []"
  have k: "distinct keys" "length keys \<le> nat steps"
    unfolding keys_def using distinct_fold_set_add [of "[]"] length_fold_set_add [of "map (\<lambda>i. fmt (first + int i * GRANULARITY_SECONDS g) g) [0..<nat steps]" "[]"] by simp_all
  have new: "distinct (keys @ filter (\<lambda>key. key \<notin> set keys) observed)" using k assms(1) by auto
  have len: "length (keys @ filter (\<lambda>key. key \<notin> set keys) observed) \<le> nat maxPoints + length observed" if "steps \<le> maxPoints"
    using add_mono [OF order_trans [OF k(2) nat_mono [OF that]] length_filter_le [of "\<lambda>key. key \<notin> set keys" observed]] by simp
  consider (plain) "buildContiguousTimePoints fmt observed stamps g maxPoints = sort_by (\<le>) observed"
    | (walked) "buildContiguousTimePoints fmt observed stamps g maxPoints = sort_by (\<le>) (keys @ filter (\<lambda>key. key \<notin> set keys) observed)" "steps \<le> maxPoints"
    unfolding buildContiguousTimePoints_def Let_def fold_push first_def [symmetric] steps_def [symmetric] keys_def [symmetric]
    by (cases "filter (\<lambda>t. t > 0) stamps = []"; cases "steps \<le> 0 \<or> steps > maxPoints") auto
  then show ?thesis
  proof cases
    case plain
    then show ?thesis using assms s by (simp add: Let_def)
  next
    case walked
    then show ?thesis using s new len by (auto simp: Let_def)
  qed
qed

text \<open>
  The axis without gaps. Walking the span at a fixed step ends after at most the given number of
  points; the axis has every label of the rows, each label once, in order.
\<close>
theorem contiguous_points:
  assumes "distinct observed" "0 \<le> maxPoints"
  shows "let points = buildContiguousTimePoints fmt observed stamps g maxPoints
    in set observed \<subseteq> set points \<and> distinct points \<and> sorted points \<and> length points \<le> nat maxPoints + length observed"
  using assms by (rule points_facts)

lemma contiguous_points_witness:
  "let points = buildContiguousTimePoints day_format [''1'', ''4''] [86400, 345600] Day 400
   in {''1'', ''4''} \<subseteq> set points \<and> distinct points"
  using contiguous_points [of "[''1'', ''4'']" 400 day_format "[86400, 345600]" Day] by (simp add: Let_def)

section \<open>Users\<close>

lemma ranked_users_collect: "ranked_users data = sort_by (\<lambda>a b. snd b \<le> snd a) (filter (\<lambda>(_, tokens). tokens > 0) (assoc.collect user_name user_tokens data))"
proof -
  have "foldl (\<lambda>m item. map_add_at (user_name item) (user_tokens item) m) a data = fold (\<lambda>x. map_add_at (user_name x) (user_tokens x)) data a" for a
    by (induction data arbitrary: a) simp_all
  then show ?thesis by (simp add: ranked_users_def assoc.collect_def)
qed

interpretation timeUser: sums "[]" "\<lambda>(time, user) v m. AList.update time (map_add_at user v (case map_of m time of None \<Rightarrow> [] | Some mm \<Rightarrow> mm)) m" tokens_at
  by unfold_locales
    (auto simp: tokens_at_def update_conv assoc.get_add map_at_def [of "[]"] split: prod.splits option.splits)

lemma user_steps: "foldl (user_step fmt g best) ([], []) data =
    (timeUser.collect (\<lambda>row. (row_time fmt g row, user_name row)) user_tokens (filter (\<lambda>row. user_name row \<in> set best) data),
     js_uniq (map (row_time fmt g) data))"
proof -
  let ?add = "\<lambda>(time, user) v m. AList.update time (map_add_at user v (case map_of m time of None \<Rightarrow> [] | Some mm \<Rightarrow> mm)) m"
  have "foldl (user_step fmt g best) (m, ts) data =
      (fold (\<lambda>row. ?add (row_time fmt g row, user_name row) (user_tokens row)) (filter (\<lambda>row. user_name row \<in> set best) data) m,
       fold set_add (map (row_time fmt g) data) ts)" for m ts
    by (induction data arbitrary: m ts) (simp_all add: user_step_def row_time_def Let_def)
  then show ?thesis by (simp add: timeUser.collect_def js_uniq_def)
qed

text \<open>The values of one user over an axis.\<close>

lemma user_values:
  assumes "distinct us" "u \<in> set us"
  shows "(\<Sum>v\<leftarrow>filter (\<lambda>v. tv_user v = u) (concat (map (\<lambda>time. map (\<lambda>user. \<lparr>tv_time = time, tv_user = user, tv_tokens = f (time, user)\<rparr>) us) ts)). tv_tokens v) =
    (\<Sum>time\<leftarrow>ts. f (time, u))"
proof (induction ts)
  case (Cons t ts)
  have "filter (\<lambda>user. user = u) us = [u]"
    using assms by (induction us) (auto simp: filter_empty_conv)
  then have "map tv_tokens (filter (\<lambda>v. tv_user v = u) (map (\<lambda>user. \<lparr>tv_time = t, tv_user = user, tv_tokens = f (t, user)\<rparr>) us)) = [f (t, u)]"
    by (simp add: filter_map comp_def)
  then show ?case using Cons by (simp del: filter_map)
qed simp

text \<open>
  The trend of a user adds up to the ranking. The ranking of users has each user once, at most as
  many as the limit, in order of falling tokens, all with more than none; the values of the trend of
  each of them, over the axis without gaps, sum up to his tokens in the ranking, and the total in
  the subtitle is the sum of the ranking. This needs nothing of the time format.
\<close>
theorem user_trend_adds_up:
  assumes "processUserChartData fmt colors data g limit = Some d"
  shows "map (\<lambda>(user, _). \<Sum>v\<leftarrow>filter (\<lambda>v. tv_user v = user) (ud_trend d). tv_tokens v) (ud_rank d) = map snd (ud_rank d) \<and>
    distinct (map fst (ud_rank d)) \<and> length (ud_rank d) \<le> limit \<and> sorted_wrt (\<lambda>a b. snd b \<le> snd a) (ud_rank d) \<and>
    list_all (\<lambda>(_, tokens). 0 < tokens) (ud_rank d) \<and> ud_total d = (\<Sum>x\<leftarrow>ud_rank d. snd x) \<and> map fst (ud_colors d) = map fst (ud_rank d)"
proof -
  let ?best = "map fst (take limit (ranked_users data))"
  let ?m = "timeUser.collect (\<lambda>row. (row_time fmt g row, user_name row)) user_tokens (filter (\<lambda>row. user_name row \<in> set ?best) data)"
  let ?observed = "js_uniq (map (row_time fmt g) data)"
  let ?points = "buildContiguousTimePoints fmt ?observed (map qd_created_at data) g 400"
  have d: "ud_rank d = take limit (ranked_users data)" "ud_total d = (\<Sum>x\<leftarrow>take limit (ranked_users data). snd x)"
    "ud_trend d = concat (map (\<lambda>time. map (\<lambda>user. \<lparr>tv_time = time, tv_user = user, tv_tokens = tokens_at ?m (time, user)\<rparr>) ?best) ?points)"
    "map fst (ud_colors d) = ?best"
    using assms unfolding processUserChartData_def Let_def user_steps prod.case
    by (auto split: if_splits simp: comp_def case_prod_unfold simp flip: take_map)
  let ?all = "assoc.collect user_name user_tokens data"
  have sub: "mset (ranked_users data) \<subseteq># mset ?all" unfolding ranked_users_collect by (simp add: multiset_filter_subset)
  have dist: "distinct (map fst (ranked_users data))"
    using distinct_collect [of user_name user_tokens data] unfolding ranked_users_collect
    by (metis distinct_map_filter mset_eq_imp_distinct_iff mset_map mset_sort_by)
  then have best: "distinct ?best" by (simp add: take_map [symmetric])
  have sorted: "sorted_wrt (\<lambda>a b. snd b \<le> snd a) (ranked_users data)"
    unfolding ranked_users_collect by (rule sorted_sort_by) auto
  have pos: "0 < tokens \<and> tokens = map_at ?all user" if "(user, tokens) \<in> set (ranked_users data)" for user tokens
    using that map_of_is_SomeI [OF distinct_collect [of user_name user_tokens data], of user tokens]
    by (auto simp: ranked_users_collect map_at_def)
  have "(\<Sum>v\<leftarrow>filter (\<lambda>v. tv_user v = user) (ud_trend d). tv_tokens v) = tokens" if "(user, tokens) \<in> set (take limit (ranked_users data))" for user tokens
  proof -
    have user: "user \<in> set ?best" using that by force
    have pts: "set ?observed \<subseteq> set ?points" "distinct ?points"
      using points_facts [of ?observed 400 fmt "map qd_created_at data" g] by (simp_all add: Let_def)
    have "tokens_at ?m (time, user) = (\<Sum>row\<leftarrow>filter (\<lambda>row. row_time fmt g row = time) (filter (\<lambda>row. user_name row = user) data). user_tokens row)" for time
      using user by (simp add: timeUser.get_collect) (intro arg_cong [of _ _ sum_list] arg_cong [of _ _ "map user_tokens"] filter_cong, auto)
    then have "(\<Sum>time\<leftarrow>?points. tokens_at ?m (time, user)) = (\<Sum>row\<leftarrow>filter (\<lambda>row. user_name row = user) data. user_tokens row)"
      using sum_by_key [OF pts(2), of "row_time fmt g" "filter (\<lambda>row. user_name row = user) data" user_tokens] pts(1) by auto
    also have "\<dots> = map_at ?all user" by (simp add: assoc.get_collect)
    also have "\<dots> = tokens" using pos in_set_takeD [OF that] by simp
    finally show ?thesis unfolding d(3) user_values [OF best user] .
  qed
  then have "map (\<lambda>(user, _). \<Sum>v\<leftarrow>filter (\<lambda>v. tv_user v = user) (ud_trend d). tv_tokens v) (ud_rank d) = map snd (ud_rank d)"
    by (auto simp: d(1))
  moreover have "list_all (\<lambda>(_, tokens). 0 < tokens) (ud_rank d)"
    using pos in_set_takeD by (fastforce simp: d(1) list_all_iff)
  ultimately show ?thesis
    using best sorted_wrt_take [OF sorted] by (simp add: d)
qed

definition sample_users :: "QuotaDataItem list" where
  "sample_users = [sample_row 86400 ''ann'' 5, sample_row 345600 ''bob'' 9, sample_row 345600 ''ann'' 2]"

lemma sample_ranking: "ranked_users sample_users = [(''bob'', 9), (''ann'', 7)]"
  by (simp add: ranked_users_def sample_users_def sample_row_def user_name_def user_tokens_def or_default_def or_str_def map_add_at_def map_at_def num0_def sort_by_def)

lemma user_trend_adds_up_witness:
  "\<exists>d. processUserChartData day_format [] sample_users Day 10 = Some d \<and>
     map (\<lambda>(user, _). \<Sum>v\<leftarrow>filter (\<lambda>v. tv_user v = user) (ud_trend d). tv_tokens v) (ud_rank d) = map snd (ud_rank d)"
proof -
  have "processUserChartData day_format [] sample_users Day 10 \<noteq> None"
    by (simp add: processUserChartData_def sample_ranking Let_def split: prod.splits) (simp add: sample_users_def)
  then obtain d where "processUserChartData day_format [] sample_users Day 10 = Some d" by blast
  then show ?thesis using user_trend_adds_up by blast
qed

section \<open>Tooltips\<close>

text \<open>
  The rows of a tooltip hold all of the items: collapsed to at most fifteen, a bucket for the rest and
  the total, they show amounts that add up to those of the items.
\<close>

lemma tooltip_rows_add_up:
  assumes "\<forall>item \<in> set items. tt_raw item = Some (tt_value item)"
  shows "\<exists>ns. map snd (tooltip_rows show_quota other ttl collapse items) = map show_quota ns \<and> sum_list (tl ns) = (\<Sum>item\<leftarrow>items. tt_value item)"
    and "collapse \<Longrightarrow> length (tooltip_rows show_quota other ttl collapse items) \<le> 17"
proof -
  let ?other = "\<lambda>item. tt_key item = ''Other'' \<or> tt_key item = other"
  define ms where "ms = sort_by (\<lambda>a b. tt_value b \<le> tt_value a) (filter (\<lambda>item. \<not> ?other item) items)"
  define os where "os = filter ?other items"
  have "mset (ms @ os) = mset items" unfolding ms_def os_def mset_append mset_sort_by by (induction items) auto
  then have sum: "(\<Sum>item\<leftarrow>ms @ os. tt_value item) = (\<Sum>item\<leftarrow>items. tt_value item)"
    by (metis mset_map sum_mset_sum_list)
  let ?rest = "drop MAX_TOOLTIP_MODELS ms @ os"
  have "set ?rest \<subseteq> set items" using set_drop_subset [of MAX_TOOLTIP_MODELS ms] by (auto simp: ms_def os_def)
  then have raw: "(\<Sum>item\<leftarrow>?rest. num0 (tt_raw item)) = (\<Sum>item\<leftarrow>?rest. tt_value item)"
    using assms by (intro arg_cong [of _ _ sum_list] map_cong) (auto simp: num0_def)
  have parts: "(\<Sum>item\<leftarrow>ms @ os. tt_value item) = (\<Sum>item\<leftarrow>take MAX_TOOLTIP_MODELS ms. tt_value item) + (\<Sum>item\<leftarrow>?rest. tt_value item)"
    by (metis append.assoc append_take_drop_id map_append sum_list_append)
  let ?short = "map tt_value (take MAX_TOOLTIP_MODELS ms) @ [\<Sum>item\<leftarrow>?rest. num0 (tt_raw item)]"
  have rows: "map snd (tooltip_rows show_quota other ttl collapse items) =
      map show_quota (tooltip_sum (ms @ os) # (if collapse \<and> length (ms @ os) > MAX_TOOLTIP_MODELS then ?short else map tt_value (ms @ os)))"
    unfolding tooltip_rows_def Let_def ms_def [symmetric] os_def [symmetric] by (simp add: comp_def)
  let ?ns = "tooltip_sum (ms @ os) # (if collapse \<and> length (ms @ os) > MAX_TOOLTIP_MODELS then ?short else map tt_value (ms @ os))"
  have "sum_list ?short = (\<Sum>item\<leftarrow>items. tt_value item)" unfolding sum [symmetric] parts raw by simp
  then show "\<exists>ns. map snd (tooltip_rows show_quota other ttl collapse items) = map show_quota ns \<and> sum_list (tl ns) = (\<Sum>item\<leftarrow>items. tt_value item)"
    using rows sum by (intro exI [of _ ?ns]) (simp only: list.sel split: if_split, simp)
  have "length (tooltip_rows show_quota other ttl collapse items) = length (map snd (tooltip_rows show_quota other ttl collapse items))" by simp
  then show "length (tooltip_rows show_quota other ttl collapse items) \<le> 17" if collapse
    unfolding rows using that by (auto simp: MAX_TOOLTIP_MODELS_def)
qed

end
