(* ===== verification/ChartPreferences.thy ===== *)
theory ChartPreferences
  imports JsValue
begin

text \<open>
  The preferences of the usage page (features/dashboard/lib/filters.ts) in the browser's storage, a map
  from names to texts, and the parameters of its queries. A text that was stored by an older
  version, by hand or not at all must not break the page.
\<close>

record chart_preferences =
  cp_distribution :: string
  cp_analytics :: string
  cp_days :: dec
  cp_granularity :: string

type_synonym storage = "string \<rightharpoonup> string"

definition TIME_GRANULARITY_STORAGE_KEY :: string where
  "TIME_GRANULARITY_STORAGE_KEY = ''data_export_default_time''"

definition DASHBOARD_CHART_PREFERENCES_STORAGE_KEY :: string where
  "DASHBOARD_CHART_PREFERENCES_STORAGE_KEY = ''dashboard_models_chart_preferences''"

definition DEFAULT_TIME_GRANULARITY :: string where
  "DEFAULT_TIME_GRANULARITY = ''hour''"

definition DEFAULT_DASHBOARD_CHART_PREFERENCES :: chart_preferences where
  "DEFAULT_DASHBOARD_CHART_PREFERENCES =
     \<lparr>cp_distribution = ''bar'', cp_analytics = ''trend'', cp_days = int_dec 1, cp_granularity = DEFAULT_TIME_GRANULARITY\<rparr>"

definition TIME_RANGE_PRESETS :: "int list" where
  "TIME_RANGE_PRESETS = [1, 7, 14, 29]"

definition TIME_RANGE_BY_GRANULARITY :: "(string \<times> int) list" where
  "TIME_RANGE_BY_GRANULARITY = [(''hour'', 1), (''day'', 7), (''week'', 30)]"

text \<open>The guards, on any value that a key of the parsed text may have.\<close>

definition isTimeGranularity :: "jsval \<Rightarrow> bool" where
  "isTimeGranularity v \<longleftrightarrow> v = Some (JStr ''hour'') \<or> v = Some (JStr ''day'') \<or> v = Some (JStr ''week'')"

definition isConsumptionDistributionChartType :: "jsval \<Rightarrow> bool" where
  "isConsumptionDistributionChartType v \<longleftrightarrow> v = Some (JStr ''bar'') \<or> v = Some (JStr ''area'')"

definition isModelAnalyticsChartTab :: "jsval \<Rightarrow> bool" where
  "isModelAnalyticsChartTab v \<longleftrightarrow> v = Some (JStr ''trend'') \<or> v = Some (JStr ''proportion'') \<or> v = Some (JStr ''top'')"

definition isTimeRangePresetDays :: "jsval \<Rightarrow> bool" where
  "isTimeRangePresetDays v \<longleftrightarrow> list_ex (\<lambda>days. v = Some (JNum (int_dec days))) TIME_RANGE_PRESETS"

text \<open>A guarded value, read as the text or the number it is.\<close>

definition string_value :: "jsval \<Rightarrow> string" where
  "string_value v = (case v of Some (JStr s) \<Rightarrow> s | _ \<Rightarrow> [])"

definition number_value :: "jsval \<Rightarrow> dec" where
  "number_value v = (case v of Some (JNum n) \<Rightarrow> n | _ \<Rightarrow> int_dec 0)"

definition getLegacySavedGranularity :: "storage \<Rightarrow> string" where
  "getLegacySavedGranularity st =
     (let saved = map_option JStr (st TIME_GRANULARITY_STORAGE_KEY)
      in if isTimeGranularity saved then string_value saved else DEFAULT_TIME_GRANULARITY)"

text \<open>A text that does not parse, and null, whose properties cannot be read, end in the catch.\<close>

definition getSavedChartPreferences :: "storage \<Rightarrow> chart_preferences" where
  "getSavedChartPreferences st =
     (let fallback = DEFAULT_DASHBOARD_CHART_PREFERENCES\<lparr>cp_granularity := getLegacySavedGranularity st\<rparr>
      in case st DASHBOARD_CHART_PREFERENCES_STORAGE_KEY of
        None \<Rightarrow> fallback
      | Some raw \<Rightarrow>
          if raw = [] then fallback
          else case json_parse raw of
            None \<Rightarrow> fallback
          | Some parsed \<Rightarrow>
              if parsed = JNull then fallback
              else let distribution = js_prop parsed ''consumptionDistributionChart''; analytics = js_prop parsed ''modelAnalyticsChart'';
                       days = js_prop parsed ''defaultTimeRangeDays''; granularity = js_prop parsed ''defaultTimeGranularity''
                in \<lparr>cp_distribution = (if isConsumptionDistributionChartType distribution then string_value distribution else cp_distribution fallback),
                    cp_analytics = (if isModelAnalyticsChartTab analytics then string_value analytics else cp_analytics fallback),
                    cp_days = (if isTimeRangePresetDays days then number_value days else cp_days fallback),
                    cp_granularity = (if isTimeGranularity granularity then string_value granularity else cp_granularity fallback)\<rparr>)"

definition preferences_json :: "chart_preferences \<Rightarrow> json" where
  "preferences_json p = JObj
     [(''consumptionDistributionChart'', JStr (cp_distribution p)),
      (''modelAnalyticsChart'', JStr (cp_analytics p)),
      (''defaultTimeRangeDays'', JNum (cp_days p)),
      (''defaultTimeGranularity'', JStr (cp_granularity p))]"

definition saveChartPreferences :: "chart_preferences \<Rightarrow> storage \<Rightarrow> storage" where
  "saveChartPreferences preferences st = st(DASHBOARD_CHART_PREFERENCES_STORAGE_KEY \<mapsto> json_stringify (preferences_json preferences))"

text \<open>An override that is empty is none.\<close>

definition getSavedGranularity :: "string option \<Rightarrow> storage \<Rightarrow> string" where
  "getSavedGranularity over st = (case over of Some (c # cs) \<Rightarrow> c # cs | _ \<Rightarrow> cp_granularity (getSavedChartPreferences st))"

definition saveGranularity :: "string \<Rightarrow> storage \<Rightarrow> storage" where
  "saveGranularity g st = (saveChartPreferences ((getSavedChartPreferences st)\<lparr>cp_granularity := g\<rparr>) st)
     (TIME_GRANULARITY_STORAGE_KEY \<mapsto> g)"

text \<open>None: the table has no such granularity.\<close>

definition getDefaultDays :: "string option \<Rightarrow> storage \<Rightarrow> dec option" where
  "getDefaultDays g st = (if or_default g [] = [] then Some (cp_days (getSavedChartPreferences st))
     else map_option int_dec (map_of TIME_RANGE_BY_GRANULARITY (getSavedGranularity g st)))"

record query_params =
  qp_start :: int
  qp_end :: int
  qp_default_time :: string
  qp_username :: "string option"

definition buildQueryParams :: "int \<times> int \<Rightarrow> (string option \<times> string option) option \<Rightarrow> storage \<Rightarrow> query_params" where
  "buildQueryParams timeRange filters st =
     \<lparr>qp_start = fst timeRange, qp_end = snd timeRange,
      qp_default_time = getSavedGranularity (case filters of None \<Rightarrow> None | Some f \<Rightarrow> fst f) st,
      qp_username = (case filters of None \<Rightarrow> None | Some f \<Rightarrow> (case snd f of None \<Rightarrow> None | Some u \<Rightarrow> if u = [] then None else Some u))\<rparr>"

text \<open>A filter is undefined, null, a text or another value.\<close>

fun clean_filter :: "jsval \<Rightarrow> jsval" where
  "clean_filter None = None"
| "clean_filter (Some JNull) = None"
| "clean_filter (Some (JStr s)) = (let trimmed = js_trim s in if trimmed \<noteq> [] then Some (JStr trimmed) else None)"
| "clean_filter (Some v) = Some v"

definition cleanFilters :: "(string \<times> jsval) list \<Rightarrow> (string \<times> json) list" where
  "cleanFilters filters = concat (map (\<lambda>(key, v). case clean_filter v of None \<Rightarrow> [] | Some w \<Rightarrow> [(key, w)]) filters)"

section \<open>Facts\<close>

text \<open>What the page offers.\<close>

definition offered :: "chart_preferences \<Rightarrow> bool" where
  "offered p \<longleftrightarrow> cp_distribution p \<in> {''bar'', ''area''} \<and> cp_analytics p \<in> {''trend'', ''proportion'', ''top''} \<and>
     cp_days p \<in> {int_dec 1, int_dec 7, int_dec 14, int_dec 29} \<and> cp_granularity p \<in> {''hour'', ''day'', ''week''}"

lemmas guards = isTimeGranularity_def isConsumptionDistributionChartType_def isModelAnalyticsChartTab_def isTimeRangePresetDays_def
  TIME_RANGE_PRESETS_def

lemma guarded:
  "isConsumptionDistributionChartType v \<Longrightarrow> string_value v \<in> {''bar'', ''area''}"
  "isModelAnalyticsChartTab v \<Longrightarrow> string_value v \<in> {''trend'', ''proportion'', ''top''}"
  "isTimeRangePresetDays v \<Longrightarrow> number_value v \<in> {int_dec 1, int_dec 7, int_dec 14, int_dec 29}"
  "isTimeGranularity v \<Longrightarrow> string_value v \<in> {''hour'', ''day'', ''week''}"
  by (auto simp: guards string_value_def number_value_def)

lemma legacy_offered: "getLegacySavedGranularity st \<in> {''hour'', ''day'', ''week''}"
  using guarded(4) [of "map_option JStr (st TIME_GRANULARITY_STORAGE_KEY)"]
  by (auto simp: getLegacySavedGranularity_def Let_def DEFAULT_TIME_GRANULARITY_def)

lemma saved_offered: "offered (getSavedChartPreferences st)"
proof -
  let ?fallback = "DEFAULT_DASHBOARD_CHART_PREFERENCES\<lparr>cp_granularity := getLegacySavedGranularity st\<rparr>"
  have f: "offered ?fallback"
    using legacy_offered [of st] by (simp add: offered_def DEFAULT_DASHBOARD_CHART_PREFERENCES_def)
  show ?thesis
    using f guarded unfolding getSavedChartPreferences_def Let_def offered_def
    by (auto split: option.split)
qed

lemma offered_ok: "offered p \<Longrightarrow> json_ok (preferences_json p)"
  by (auto simp: offered_def preferences_json_def obj_ok_def key_before_def array_index_def is_digit_def)

lemma preferences_not_null: "preferences_json p \<noteq> JNull"
  by (simp add: preferences_json_def)

lemma preferences_read:
  "js_prop (preferences_json p) ''consumptionDistributionChart'' = Some (JStr (cp_distribution p))"
  "js_prop (preferences_json p) ''modelAnalyticsChart'' = Some (JStr (cp_analytics p))"
  "js_prop (preferences_json p) ''defaultTimeRangeDays'' = Some (JNum (cp_days p))"
  "js_prop (preferences_json p) ''defaultTimeGranularity'' = Some (JStr (cp_granularity p))"
  by (simp_all add: preferences_json_def js_prop_def obj_get_def)

lemma stored_read:
  assumes "offered p" "st DASHBOARD_CHART_PREFERENCES_STORAGE_KEY = Some (json_stringify (preferences_json p))"
  shows "getSavedChartPreferences st = p"
proof -
  have ne: "json_stringify (preferences_json p) \<noteq> []" using compact.print_not_empty offered_ok [OF assms(1)] by blast
  have g: "isConsumptionDistributionChartType (Some (JStr (cp_distribution p)))" "isModelAnalyticsChartTab (Some (JStr (cp_analytics p)))"
    "isTimeRangePresetDays (Some (JNum (cp_days p)))" "isTimeGranularity (Some (JStr (cp_granularity p)))"
    using assms(1) by (auto simp: offered_def guards)
  show ?thesis
    using assms(2) ne json_parse_text [OF offered_ok [OF assms(1)], of 0 0] g
    by (simp add: getSavedChartPreferences_def preferences_read Let_def string_value_def number_value_def preferences_not_null)
qed

text \<open>
  C30: Whatever the storage holds, each of the four preferences that are read is one of the offered
  values, also when a text is missing, does not parse, is null or has other values at the keys; and
  offered preferences that were saved are read back as they are.
\<close>
theorem preferences_valid:
  "cp_distribution (getSavedChartPreferences st) \<in> {''bar'', ''area''} \<and>
   cp_analytics (getSavedChartPreferences st) \<in> {''trend'', ''proportion'', ''top''} \<and>
   cp_days (getSavedChartPreferences st) \<in> {int_dec 1, int_dec 7, int_dec 14, int_dec 29} \<and>
   cp_granularity (getSavedChartPreferences st) \<in> {''hour'', ''day'', ''week''} \<and>
   (offered p \<longrightarrow> getSavedChartPreferences (saveChartPreferences p st) = p)"
  using saved_offered [of st] stored_read [of p "saveChartPreferences p st"]
  unfolding offered_def by (simp add: saveChartPreferences_def)

lemma preferences_valid_witness:
  "let p = \<lparr>cp_distribution = ''area'', cp_analytics = ''top'', cp_days = int_dec 14, cp_granularity = ''week''\<rparr>
   in getSavedChartPreferences (saveChartPreferences p (\<lambda>_. None)) = p"
  using preferences_valid [of "\<lambda>_. None" "\<lparr>cp_distribution = ''area'', cp_analytics = ''top'', cp_days = int_dec 14, cp_granularity = ''week''\<rparr>"]
  by (simp add: offered_def Let_def)

text \<open>
  Setting an offered granularity changes nothing else, and it is the one that is read then, also
  where only the key of older versions is looked at.
\<close>
theorem granularity_round_trip:
  assumes "g \<in> {''hour'', ''day'', ''week''}"
  shows "getSavedChartPreferences (saveGranularity g st) = (getSavedChartPreferences st)\<lparr>cp_granularity := g\<rparr>"
    "getLegacySavedGranularity (saveGranularity g st) = g"
proof -
  have "DASHBOARD_CHART_PREFERENCES_STORAGE_KEY \<noteq> TIME_GRANULARITY_STORAGE_KEY"
    by (simp add: DASHBOARD_CHART_PREFERENCES_STORAGE_KEY_def TIME_GRANULARITY_STORAGE_KEY_def)
  then show "getSavedChartPreferences (saveGranularity g st) = (getSavedChartPreferences st)\<lparr>cp_granularity := g\<rparr>"
    using saved_offered [of st] assms by (intro stored_read) (simp_all add: saveGranularity_def saveChartPreferences_def offered_def)
  show "getLegacySavedGranularity (saveGranularity g st) = g"
    using assms by (auto simp: getLegacySavedGranularity_def saveGranularity_def guards string_value_def)
qed

lemma granularity_round_trip_witness: "getLegacySavedGranularity (saveGranularity ''week'' (\<lambda>_. None)) = ''week''"
  by (rule granularity_round_trip) simp

lemma clean_filter_idem: "clean_filter v = Some w \<Longrightarrow> clean_filter (Some w) = Some w"
  by (induction v rule: clean_filter.induct) (auto simp: Let_def split: if_splits)

lemma cleanFilters_idem: "cleanFilters (map (\<lambda>(k, w). (k, Some w)) (cleanFilters fs)) = cleanFilters fs"
proof (induction fs)
  case (Cons f fs)
  then show ?case
    using clean_filter_idem by (cases f; cases "clean_filter (snd f)") (auto simp: cleanFilters_def)
qed (simp add: cleanFilters_def)

end
