(* ===== verification/GroupHealth.thy ===== *)
theory GroupHealth
  imports JsPrelude JsNumber
begin

text \<open>
  The health of a model group (features/model-groups/lib/group-health.ts): the members in the order in
  which a failed request moves on, which of them can be routed to, and the state of the group.
  A priority is a whole number; null counts as 0.
\<close>

datatype provider_state = Healthy | Degraded | Probing | Cooling

record ProviderHealth =
  ph_channel_id :: int
  ph_channel_name :: string
  ph_state :: provider_state

record ModelGroupMember =
  mm_channel_id :: int
  mm_model_name :: string
  mm_priority :: "int option"

datatype group_state = Group_Healthy | Group_Degraded | Group_Down | Group_Empty

record MemberHealth =
  mh_member :: ModelGroupMember
  mh_channel_name :: string
  mh_provider :: "ProviderHealth option"
  mh_available :: bool

record GroupHealth =
  gh_total :: nat
  gh_available :: nat
  gh_cooling :: nat
  gh_state :: group_state
  gh_members :: "MemberHealth list"

definition memberPriority :: "ModelGroupMember \<Rightarrow> int" where
  "memberPriority m = (case mm_priority m of None \<Rightarrow> 0 | Some n \<Rightarrow> n)"

text \<open>The comparator is the difference of the priorities, or that of the places when it is 0.\<close>

definition failover_le :: "ModelGroupMember \<times> nat \<Rightarrow> ModelGroupMember \<times> nat \<Rightarrow> bool" where
  "failover_le a b \<longleftrightarrow> (let d = memberPriority (fst b) - memberPriority (fst a)
     in (if d \<noteq> 0 then d else int (snd a) - int (snd b)) \<le> 0)"

definition orderMembersByFailover :: "ModelGroupMember list \<Rightarrow> ModelGroupMember list" where
  "orderMembersByFailover members = map fst (sort_by failover_le (zip members [0..<length members]))"

definition isChannelAvailable :: "ProviderHealth option \<Rightarrow> bool" where
  "isChannelAvailable provider = (case provider of None \<Rightarrow> False | Some p \<Rightarrow> ph_state p \<noteq> Cooling)"

definition buildChannelHealthMap :: "ProviderHealth list \<Rightarrow> int \<rightharpoonup> ProviderHealth" where
  "buildChannelHealthMap providers = foldl (\<lambda>m p. m(ph_channel_id p \<mapsto> p)) Map.empty providers"

definition member_name :: "(int \<rightharpoonup> string) \<Rightarrow> ProviderHealth option \<Rightarrow> int \<Rightarrow> string" where
  "member_name channelNameById provider channel =
     or_default (channelNameById channel) (or_default (map_option ph_channel_name provider) (''#'' @ show_int channel))"

definition computeGroupHealth ::
    "ModelGroupMember list option \<Rightarrow> (int \<rightharpoonup> ProviderHealth) \<Rightarrow> (int \<rightharpoonup> string) \<Rightarrow> GroupHealth" where
  "computeGroupHealth group_members healthByChannel channelNameById =
     (let members = orderMembersByFailover (case group_members of None \<Rightarrow> [] | Some ms \<Rightarrow> ms);
          memberHealth = map (\<lambda>member. let provider = healthByChannel (mm_channel_id member)
            in \<lparr>mh_member = member, mh_channel_name = member_name channelNameById provider (mm_channel_id member),
                mh_provider = provider, mh_available = isChannelAvailable provider\<rparr>) members;
          available = length (filter (\<lambda>m. isChannelAvailable (healthByChannel (mm_channel_id m))) members);
          cooling = length (filter (\<lambda>m. map_option ph_state (healthByChannel (mm_channel_id m)) = Some Cooling) members);
          total = length members;
          state = (if total = 0 then Group_Empty else if available = 0 then Group_Down
            else if available < total then Group_Degraded else Group_Healthy)
      in \<lparr>gh_total = total, gh_available = available, gh_cooling = cooling, gh_state = state, gh_members = memberHealth\<rparr>)"

section \<open>Facts\<close>

lemma filter_insort_sorted:
  assumes trans: "\<And>a b c. le a b \<Longrightarrow> le b c \<Longrightarrow> le a c" and "sorted_wrt le ys"
  shows "filter q (insort_by le x ys) = (if q x then insort_by le x (filter q ys) else filter q ys)"
  using assms(2)
proof (induction ys)
  case (Cons y ys)
  have first: "insort_by le x zs = x # zs" if "\<forall>z \<in> set zs. le x z" for zs using that by (cases zs) auto
  show ?case
  proof (cases "le x y")
    case True
    then have "\<forall>z \<in> set (filter q (y # ys)). le x z" using Cons.prems trans by auto
    then show ?thesis using True first [of "filter q (y # ys)"] by simp
  qed (use Cons in auto)
qed simp

lemma filter_sort_commute:
  assumes "\<And>a b. le a b \<or> le b a" "\<And>a b c. le a b \<Longrightarrow> le b c \<Longrightarrow> le a c"
  shows "filter q (sort_by le xs) = sort_by le (filter q xs)"
proof (induction xs)
  case (Cons x xs)
  have "sorted_wrt le (sort_by le xs)" using assms by (rule sorted_sort_by)
  from filter_insort_sorted [of le, OF assms(2) this] show ?case using Cons by (simp add: sort_by_Cons)
qed simp

lemma failover_total: "failover_le a b \<or> failover_le b a"
  by (auto simp: failover_le_def Let_def)

lemma failover_trans: "failover_le a b \<Longrightarrow> failover_le b c \<Longrightarrow> failover_le a c"
  by (auto simp: failover_le_def Let_def split: if_splits)

text \<open>
  The order of failover. The members in order are the members of the group, each as often as it is
  there, by falling priority, and those of one priority are in the order of the group.
\<close>
theorem failover_order:
  "mset (orderMembersByFailover members) = mset members \<and>
   sorted_wrt (\<lambda>a b. memberPriority b \<le> memberPriority a) (orderMembersByFailover members) \<and>
   filter (\<lambda>m. memberPriority m = p) (orderMembersByFailover members) = filter (\<lambda>m. memberPriority m = p) members"
proof -
  let ?z = "zip members [0..<length members]" and ?q = "\<lambda>x. memberPriority (fst x) = p"
  have fst: "map fst ?z = members" by simp
  have "mset (orderMembersByFailover members) = mset (map fst ?z)" unfolding orderMembersByFailover_def mset_map mset_sort_by ..
  then have "mset (orderMembersByFailover members) = mset members" unfolding fst .
  moreover have "sorted_wrt failover_le (sort_by failover_le ?z)"
    using failover_total failover_trans by (rule sorted_sort_by)
  then have "sorted_wrt (\<lambda>a b. memberPriority b \<le> memberPriority a) (orderMembersByFailover members)"
    unfolding orderMembersByFailover_def sorted_wrt_map
    by (rule sorted_wrt_mono_rel [rotated]) (auto simp: failover_le_def Let_def split: if_splits)
  moreover have "filter ?q (sort_by failover_le ?z) = filter ?q ?z"
  proof -
    have s: "sorted_wrt (\<lambda>a b. snd a < snd b) ?z"
      by (simp add: sorted_wrt_iff_nth_less)
    have "sorted_wrt failover_le (filter ?q ?z)"
      using sorted_wrt_filter [OF s, of ?q]
      by (rule sorted_wrt_mono_rel [rotated]) (auto simp: failover_le_def)
    moreover have "filter ?q (sort_by failover_le ?z) = sort_by failover_le (filter ?q ?z)"
      using failover_total failover_trans by (rule filter_sort_commute)
    ultimately show ?thesis by (simp add: sort_by_sorted)
  qed
  then have "filter (\<lambda>m. memberPriority m = p) (orderMembersByFailover members) = filter (\<lambda>m. memberPriority m = p) (map fst ?z)"
    unfolding orderMembersByFailover_def filter_map comp_def by (simp only:)
  then have "filter (\<lambda>m. memberPriority m = p) (orderMembersByFailover members) = filter (\<lambda>m. memberPriority m = p) members"
    unfolding fst .
  ultimately show ?thesis by blast
qed

text \<open>
  The state of a model group says what its rows show. The numbers count the rows: the members, those
  that can be routed to, those that cool down, and no member is counted in both of the last; the state
  is healthy, degraded or down as all, some or none of at least one member can be routed to, and empty
  when there are none.
\<close>
theorem group_health:
  "let h = computeGroupHealth ms health names; up = filter mh_available (gh_members h)
   in gh_total h = length (gh_members h) \<and> gh_available h = length up \<and> gh_available h + gh_cooling h \<le> gh_total h \<and>
      (gh_state h = Group_Empty \<longleftrightarrow> gh_members h = []) \<and>
      (gh_state h = Group_Down \<longleftrightarrow> gh_members h \<noteq> [] \<and> up = []) \<and>
      (gh_state h = Group_Healthy \<longleftrightarrow> gh_members h \<noteq> [] \<and> up = gh_members h) \<and>
      (gh_state h = Group_Degraded \<longleftrightarrow> up \<noteq> [] \<and> up \<noteq> gh_members h)"
proof -
  define members where "members = orderMembersByFailover (case ms of None \<Rightarrow> [] | Some ms \<Rightarrow> ms)"
  let ?ok = "\<lambda>m. isChannelAvailable (health (mm_channel_id m))" and ?cool = "\<lambda>m. map_option ph_state (health (mm_channel_id m)) = Some Cooling"
  let ?row = "\<lambda>member. let provider = health (mm_channel_id member)
    in \<lparr>mh_member = member, mh_channel_name = member_name names provider (mm_channel_id member), mh_provider = provider, mh_available = isChannelAvailable provider\<rparr>"
  have "filter ?cool members = filter ?cool (filter (\<lambda>m. \<not> ?ok m) members)"
    by (auto simp: isChannelAvailable_def intro!: filter_cong split: option.splits)
  then have "length (filter ?ok members) + length (filter ?cool members) \<le> length members"
    using sum_length_filter_compl [of ?ok members] length_filter_le [of ?cool "filter (\<lambda>m. \<not> ?ok m) members"] by simp
  moreover have "filter mh_available (map ?row members) = map ?row (filter ?ok members)"
    by (simp add: filter_map comp_def Let_def)
  moreover have "filter ?ok members = members \<longleftrightarrow> length (filter ?ok members) = length members"
    by (metis filter_id_conv length_filter_less less_irrefl)
  moreover have "length (filter ?ok members) \<le> length members" by simp
  ultimately show ?thesis
    unfolding computeGroupHealth_def Let_def members_def [symmetric]
    by (auto simp: filter_map comp_def map_equality_iff)
qed

lemma provider_last_wins: "buildChannelHealthMap (ps @ [p]) (ph_channel_id p) = Some p"
  by (simp add: buildChannelHealthMap_def)

end
