(* ===== verification/GroupRatios.thy ===== *)
theory GroupRatios
  imports JsValue
begin

text \<open>
  The visual editor of the group settings
  (features/system-settings/models/group-ratio-visual-editor.tsx). Every part of it edits a JSON text
  of the settings form. A handler is a function on the state of the editor; it is an option, None
  where a value has not the shape the code takes for granted: mostly the code raises there, for null
  above all, and arrays, which would take the keys as extra properties, are left out of the model. The
  keys are not names of properties of the object prototype.
\<close>

definition safeJsonParse :: "string \<Rightarrow> json \<Rightarrow> json" where
  "safeJsonParse value fallback = (if js_trim value = [] then fallback
     else case json_parse (js_trim value) of Some v \<Rightarrow> v | None \<Rightarrow> fallback)"

text \<open>The entries of a value that has to be an object.\<close>

fun entries_of :: "json \<Rightarrow> (string \<times> json) list option" where
  "entries_of (JObj kvs) = Some kvs"
| "entries_of _ = None"

text \<open>\<open>parseFloat\<close>: the longest prefix that is a number.\<close>

definition parse_float :: "string \<Rightarrow> jsnum" where
  "parse_float s0 =
     (let s = dropWhile is_ws s0;
          signed = (s \<noteq> [] \<and> (hd s = CHR ''-'' \<or> hd s = CHR ''+''));
          neg = (signed \<and> hd s = CHR ''-'');
          s1 = (if signed then tl s else s);
          ds = takeWhile is_digit s1;
          s2 = dropWhile is_digit s1;
          dot = (s2 \<noteq> [] \<and> hd s2 = CHR ''.'');
          fs = (if dot then takeWhile is_digit (tl s2) else []);
          s3 = (if dot then dropWhile is_digit (tl s2) else s2);
          k = int (nat_of_digits (ds @ fs));
          x = (case parse_exponent s3 of Some (x, _) \<Rightarrow> x | None \<Rightarrow> 0)
      in if prefix ''Infinity'' s1 then Infinite (\<not> neg)
         else if ds @ fs = [] then NaN
         else Num (scale_dec (if neg then - k else k) (x - int (length fs))))"

text \<open>A number in JSON: what is not finite is written as null.\<close>

fun json_of_num :: "jsnum \<Rightarrow> json" where
  "json_of_num (Num d) = JNum d"
| "json_of_num _ = JNull"

section \<open>The table of groups\<close>

record GroupPricingRow =
  pr_id :: nat
  pr_name :: string
  pr_ratio :: dec
  pr_selectable :: bool
  pr_description :: string

definition normalizeRatio :: "jsval \<Rightarrow> dec" where
  "normalizeRatio value = (case js_to_number value of Num d \<Rightarrow> d | _ \<Rightarrow> int_dec 1)"

definition nullish_to_string :: "jsval \<Rightarrow> string" where
  "nullish_to_string v = (case v of None \<Rightarrow> [] | Some JNull \<Rightarrow> [] | Some j \<Rightarrow> json_to_string j)"

text \<open>The rows, and the counter of the identifiers after them.\<close>

definition buildGroupPricingRows :: "nat \<Rightarrow> string \<Rightarrow> string \<Rightarrow> (GroupPricingRow list \<times> nat) option" where
  "buildGroupPricingRows counter groupRatio userUsableGroups =
     (case (entries_of (safeJsonParse groupRatio (JObj [])), entries_of (safeJsonParse userUsableGroups (JObj []))) of
        (Some ratioMap, Some usableMap) \<Rightarrow>
          let names = js_uniq (map fst ratioMap @ map fst usableMap)
          in Some (map (\<lambda>(i, name). \<lparr>pr_id = counter + i + 1, pr_name = name, pr_ratio = normalizeRatio (obj_get name ratioMap),
                     pr_selectable = (name \<in> fst ` set usableMap), pr_description = nullish_to_string (obj_get name usableMap)\<rparr>)
                   (zip [0..<length names] names), counter + length names)
      | _ \<Rightarrow> None)"

definition serialize_step :: "(string \<times> json) list \<times> (string \<times> json) list \<Rightarrow> GroupPricingRow \<Rightarrow> (string \<times> json) list \<times> (string \<times> json) list" where
  "serialize_step = (\<lambda>(groupRatio, userUsableGroups) row.
     let name = js_trim (pr_name row)
     in if name = [] then (groupRatio, userUsableGroups)
        else (obj_set name (JNum (pr_ratio row)) groupRatio,
              if pr_selectable row then obj_set name (JStr (pr_description row)) userUsableGroups else userUsableGroups))"

definition group_objects :: "GroupPricingRow list \<Rightarrow> (string \<times> json) list \<times> (string \<times> json) list" where
  "group_objects rows = foldl serialize_step ([], []) rows"

definition serializeGroupPricingRows :: "GroupPricingRow list \<Rightarrow> string \<times> string" where
  "serializeGroupPricingRows rows = (json_pretty (JObj (fst (group_objects rows))), json_pretty (JObj (snd (group_objects rows))))"

definition sourceGroupPricingSignature :: "string \<Rightarrow> string \<Rightarrow> string" where
  "sourceGroupPricingSignature groupRatio userUsableGroups = json_stringify (JObj
     [(''groupRatio'', safeJsonParse groupRatio (JObj [])), (''userUsableGroups'', safeJsonParse userUsableGroups (JObj []))])"

definition groupPricingSignature :: "GroupPricingRow list \<Rightarrow> string" where
  "groupPricingSignature rows = (let serialized = serializeGroupPricingRows rows in json_stringify (JObj
     [(''groupRatio'', safeJsonParse (fst serialized) (JObj [])), (''userUsableGroups'', safeJsonParse (snd serialized) (JObj []))]))"

record pricing_table =
  pt_rows :: "GroupPricingRow list"
  pt_counter :: nat
  pt_groupRatio :: string
  pt_usable :: string

definition open_table :: "nat \<Rightarrow> string \<Rightarrow> string \<Rightarrow> pricing_table option" where
  "open_table counter groupRatio userUsableGroups =
     (case buildGroupPricingRows counter groupRatio userUsableGroups of
        None \<Rightarrow> None
      | Some (rows, n) \<Rightarrow> Some \<lparr>pt_rows = rows, pt_counter = n, pt_groupRatio = groupRatio, pt_usable = userUsableGroups\<rparr>)"

text \<open>The effect that follows the texts: it runs when one of them has changed.\<close>

definition texts_arrive :: "string \<Rightarrow> string \<Rightarrow> pricing_table \<Rightarrow> pricing_table option" where
  "texts_arrive groupRatio userUsableGroups st =
     (if groupRatio = pt_groupRatio st \<and> userUsableGroups = pt_usable st then Some st
      else let st' = st\<lparr>pt_groupRatio := groupRatio, pt_usable := userUsableGroups\<rparr>
           in if groupPricingSignature (pt_rows st) = sourceGroupPricingSignature groupRatio userUsableGroups then Some st'
              else (case buildGroupPricingRows (pt_counter st) groupRatio userUsableGroups of
                  None \<Rightarrow> None
                | Some (rows, n) \<Rightarrow> Some (st'\<lparr>pt_rows := rows, pt_counter := n\<rparr>)))"

text \<open>The form takes the two texts, and the table gets them back as its properties.\<close>

definition emitRows :: "GroupPricingRow list \<Rightarrow> pricing_table \<Rightarrow> pricing_table option" where
  "emitRows nextRows st = (let serialized = serializeGroupPricingRows nextRows
     in texts_arrive (fst serialized) (snd serialized) (st\<lparr>pt_rows := nextRows\<rparr>))"

datatype row_update = RowName string | RowRatio string | RowSelectable bool | RowDescription string

fun apply_update :: "row_update \<Rightarrow> GroupPricingRow \<Rightarrow> GroupPricingRow" where
  "apply_update (RowName s) row = row\<lparr>pr_name := s\<rparr>"
| "apply_update (RowRatio s) row = row\<lparr>pr_ratio := normalizeRatio (Some (JStr s))\<rparr>"
| "apply_update (RowSelectable b) row = row\<lparr>pr_selectable := b\<rparr>"
| "apply_update (RowDescription s) row = row\<lparr>pr_description := s\<rparr>"

definition updateRow :: "nat \<Rightarrow> row_update \<Rightarrow> pricing_table \<Rightarrow> pricing_table option" where
  "updateRow rid u st = emitRows (map (\<lambda>row. if pr_id row = rid then apply_update u row else row) (pt_rows st)) st"

definition group_name :: "nat \<Rightarrow> string" where
  "group_name i = ''group_'' @ show_nat i"

lemma group_name_inj: "group_name i = group_name j \<longleftrightarrow> i = j"
proof
  assume "group_name i = group_name j"
  then have "nat_of_digits (show_nat i) = nat_of_digits (show_nat j)" by (simp add: group_name_def)
  then show "i = j" by (simp only: nat_of_digits_show_nat)
qed simp

text \<open>The loop of the new name ends: each round uses up one of the names at hand.\<close>

function fresh_index :: "string list \<Rightarrow> nat \<Rightarrow> nat" where
  "fresh_index existingNames i = (if group_name i \<in> set existingNames then fresh_index existingNames (i + 1) else i)"
  by auto
termination
proof (relation "measure (\<lambda>(names, i). card {n \<in> set names. \<exists>k \<ge> i. n = group_name k})")
  fix names :: "string list" and i
  assume i: "group_name i \<in> set names"
  have "{n \<in> set names. \<exists>k \<ge> i + 1. n = group_name k} \<subset> {n \<in> set names. \<exists>k \<ge> i. n = group_name k}"
  proof
    show "{n \<in> set names. \<exists>k \<ge> i + 1. n = group_name k} \<subseteq> {n \<in> set names. \<exists>k \<ge> i. n = group_name k}"
      using add_leD1 by blast
    have "group_name i \<notin> {n \<in> set names. \<exists>k \<ge> i + 1. n = group_name k}" by (auto simp: group_name_inj)
    then show "{n \<in> set names. \<exists>k \<ge> i + 1. n = group_name k} \<noteq> {n \<in> set names. \<exists>k \<ge> i. n = group_name k}"
      using i by blast
  qed
  then have "card {n \<in> set names. \<exists>k \<ge> i + 1. n = group_name k} < card {n \<in> set names. \<exists>k \<ge> i. n = group_name k}"
    by (rule psubset_card_mono [rotated]) simp
  then show "((names, i + 1), names, i) \<in> measure (\<lambda>(names, i). card {n \<in> set names. \<exists>k \<ge> i. n = group_name k})"
    by (simp only: in_measure prod.case)
qed simp

declare fresh_index.simps [simp del]

definition addRow :: "pricing_table \<Rightarrow> pricing_table option" where
  "addRow st = (let name = group_name (fresh_index (map pr_name (pt_rows st)) 1); rid = pt_counter st + 1
     in emitRows (pt_rows st @ [\<lparr>pr_id = rid, pr_name = name, pr_ratio = int_dec 1, pr_selectable = True, pr_description = []\<rparr>])
          (st\<lparr>pt_counter := rid\<rparr>))"

definition removeRow :: "nat \<Rightarrow> pricing_table \<Rightarrow> pricing_table option" where
  "removeRow rid st = emitRows (filter (\<lambda>row. pr_id row \<noteq> rid) (pt_rows st)) st"

definition duplicateNames :: "GroupPricingRow list \<Rightarrow> string list" where
  "duplicateNames rows = (let names = filter (\<lambda>n. n \<noteq> []) (map (\<lambda>row. js_trim (pr_name row)) rows)
     in filter (\<lambda>n. 1 < count_list names n) (js_uniq names))"

section \<open>The other parts of the editor\<close>

datatype simple_type = GroupRatioField | TopupRatioField

record group_editor =
  ge_groupRatio :: string
  ge_topupGroupRatio :: string
  ge_groupGroupRatio :: string
  ge_autoGroups :: string
  ge_simpleOpen :: bool
  ge_simpleType :: "simple_type option"
  ge_simpleEdit :: "(string \<times> string) option"
  ge_autoOpen :: bool
  ge_autoInput :: string
  ge_overrideOpen :: bool
  ge_overrideUser :: "string option"
  ge_overrideEdit :: "(string \<times> json) option"
  ge_userOpen :: bool
  ge_userInput :: string

definition simple_text :: "simple_type \<Rightarrow> group_editor \<Rightarrow> string" where
  "simple_text ty st = (case ty of GroupRatioField \<Rightarrow> ge_groupRatio st | TopupRatioField \<Rightarrow> ge_topupGroupRatio st)"

definition set_simple_text :: "simple_type \<Rightarrow> string \<Rightarrow> group_editor \<Rightarrow> group_editor" where
  "set_simple_text ty s st = (case ty of GroupRatioField \<Rightarrow> st\<lparr>ge_groupRatio := s\<rparr> | TopupRatioField \<Rightarrow> st\<lparr>ge_topupGroupRatio := s\<rparr>)"

definition topupRatioList :: "group_editor \<Rightarrow> (string \<times> string) list option" where
  "topupRatioList st = map_option (map (\<lambda>(name, v). (name, json_to_string v))) (entries_of (safeJsonParse (ge_topupGroupRatio st) (JObj [])))"

definition handleSimpleAdd :: "simple_type \<Rightarrow> group_editor \<Rightarrow> group_editor" where
  "handleSimpleAdd ty st = st\<lparr>ge_simpleType := Some ty, ge_simpleEdit := None, ge_simpleOpen := True\<rparr>"

definition handleSimpleEdit :: "simple_type \<Rightarrow> string \<times> string \<Rightarrow> group_editor \<Rightarrow> group_editor" where
  "handleSimpleEdit ty g st = st\<lparr>ge_simpleType := Some ty, ge_simpleEdit := Some g, ge_simpleOpen := True\<rparr>"

definition handleSimpleSave :: "string \<Rightarrow> string \<Rightarrow> group_editor \<Rightarrow> group_editor option" where
  "handleSimpleSave name value st = (case ge_simpleType st of
     None \<Rightarrow> Some st
   | Some ty \<Rightarrow> (case entries_of (safeJsonParse (simple_text ty st) (JObj [])) of
       None \<Rightarrow> None
     | Some m \<Rightarrow>
         let m1 = (case ge_simpleEdit st of Some (old, _) \<Rightarrow> if old \<noteq> name then obj_delete old m else m | None \<Rightarrow> m);
             m2 = obj_set name (json_of_num (parse_float value)) m1
         in Some ((set_simple_text ty (json_pretty (JObj m2)) st)\<lparr>ge_simpleOpen := False\<rparr>)))"

definition handleSimpleDelete :: "simple_type \<Rightarrow> string \<Rightarrow> group_editor \<Rightarrow> group_editor option" where
  "handleSimpleDelete ty name st = (case entries_of (safeJsonParse (simple_text ty st) (JObj [])) of
     None \<Rightarrow> None
   | Some m \<Rightarrow> Some (set_simple_text ty (json_pretty (JObj (obj_delete name m))) st))"

text \<open>The save button of the dialog for one group.\<close>

definition dialog_simple_save :: "string \<Rightarrow> string \<Rightarrow> group_editor \<Rightarrow> group_editor option" where
  "dialog_simple_save name value st =
     (if js_trim name = [] \<or> js_trim value = [] then Some st else handleSimpleSave (js_trim name) (js_trim value) st)"

text \<open>The field of a ratio takes only what starts like a number.\<close>

definition ratio_input :: "string \<Rightarrow> string \<Rightarrow> string" where
  "ratio_input old val = (if val = [] \<or> parse_float val \<noteq> NaN then val else old)"

subsection \<open>The list of automatic groups\<close>

definition autoGroupsList :: "group_editor \<Rightarrow> json list option" where
  "autoGroupsList st = (case safeJsonParse (ge_autoGroups st) (JArr []) of JArr xs \<Rightarrow> Some xs | _ \<Rightarrow> None)"

definition handleAutoGroupAdd :: "group_editor \<Rightarrow> group_editor" where
  "handleAutoGroupAdd st = st\<lparr>ge_autoInput := [], ge_autoOpen := True\<rparr>"

definition handleAutoGroupSave :: "group_editor \<Rightarrow> group_editor option" where
  "handleAutoGroupSave st =
     (if js_trim (ge_autoInput st) = [] then Some st
      else map_option (\<lambda>xs. st\<lparr>ge_autoGroups := json_pretty (JArr (xs @ [JStr (js_trim (ge_autoInput st))])), ge_autoOpen := False\<rparr>) (autoGroupsList st))"

definition remove_at :: "nat \<Rightarrow> 'a list \<Rightarrow> 'a list" where
  "remove_at i xs = map snd (filter (\<lambda>(j, _). j \<noteq> i) (zip [0..<length xs] xs))"

definition handleAutoGroupDelete :: "nat \<Rightarrow> group_editor \<Rightarrow> group_editor option" where
  "handleAutoGroupDelete index st = map_option (\<lambda>xs. st\<lparr>ge_autoGroups := json_pretty (JArr (remove_at index xs))\<rparr>) (autoGroupsList st)"

datatype direction = Up | Down

definition handleAutoGroupMove :: "nat \<Rightarrow> direction \<Rightarrow> group_editor \<Rightarrow> group_editor option" where
  "handleAutoGroupMove index dir st = (case autoGroupsList st of
     None \<Rightarrow> None
   | Some xs \<Rightarrow>
       let newIndex = (case dir of Up \<Rightarrow> int index - 1 | Down \<Rightarrow> int index + 1)
       in if newIndex < 0 \<or> newIndex \<ge> int (length xs) then Some st
          else Some (st\<lparr>ge_autoGroups := json_pretty (JArr (xs[index := xs ! nat newIndex, nat newIndex := xs ! index]))\<rparr>))"

subsection \<open>Ratios between groups\<close>

definition group_map :: "group_editor \<Rightarrow> (string \<times> json) list option" where
  "group_map st = entries_of (safeJsonParse (ge_groupGroupRatio st) (JObj []))"

definition groupGroupRatioList :: "group_editor \<Rightarrow> (string \<times> (string \<times> json) list) list option" where
  "groupGroupRatioList st = (case group_map st of None \<Rightarrow> None
     | Some m \<Rightarrow> if list_all (\<lambda>p. entries_of (snd p) \<noteq> None) m then Some (map (\<lambda>(u, v). (u, the (entries_of v))) m) else None)"

definition write_groups :: "(string \<times> json) list \<Rightarrow> group_editor \<Rightarrow> group_editor" where
  "write_groups m st = st\<lparr>ge_groupGroupRatio := json_pretty (JObj m)\<rparr>"

definition handleUserGroupAdd :: "group_editor \<Rightarrow> group_editor" where
  "handleUserGroupAdd st = st\<lparr>ge_userInput := [], ge_userOpen := True\<rparr>"

definition handleUserGroupSave :: "group_editor \<Rightarrow> group_editor option" where
  "handleUserGroupSave st = (let name = js_trim (ge_userInput st)
     in if name = [] then Some st
        else map_option (\<lambda>m. (write_groups (if js_truthy (obj_get name m) then m else obj_set name (JObj []) m) st)\<lparr>ge_userOpen := False\<rparr>) (group_map st))"

definition handleUserGroupDelete :: "string \<Rightarrow> group_editor \<Rightarrow> group_editor option" where
  "handleUserGroupDelete userGroup st = map_option (\<lambda>m. write_groups (obj_delete userGroup m) st) (group_map st)"

definition handleOverrideAdd :: "string \<Rightarrow> group_editor \<Rightarrow> group_editor" where
  "handleOverrideAdd userGroup st = st\<lparr>ge_overrideUser := Some userGroup, ge_overrideEdit := None, ge_overrideOpen := True\<rparr>"

definition handleOverrideEdit :: "string \<Rightarrow> string \<times> json \<Rightarrow> group_editor \<Rightarrow> group_editor" where
  "handleOverrideEdit userGroup override st = st\<lparr>ge_overrideUser := Some userGroup, ge_overrideEdit := Some override, ge_overrideOpen := True\<rparr>"

definition handleOverrideSave :: "string \<Rightarrow> jsnum \<Rightarrow> string option \<Rightarrow> group_editor \<Rightarrow> group_editor option" where
  "handleOverrideSave targetGroup ratio oldTargetGroup st = (case ge_overrideUser st of
     None \<Rightarrow> Some st
   | Some user \<Rightarrow>
       if user = [] then Some st
       else (case group_map st of
           None \<Rightarrow> None
         | Some m \<Rightarrow>
             (case entries_of (if js_truthy (obj_get user m) then the (obj_get user m) else JObj []) of
                None \<Rightarrow> None
              | Some inner \<Rightarrow>
                  let inner1 = (case oldTargetGroup of
                        Some old \<Rightarrow> if old \<noteq> [] \<and> old \<noteq> targetGroup then obj_delete old inner else inner
                      | None \<Rightarrow> inner)
                  in Some ((write_groups (obj_set user (JObj (obj_set targetGroup (json_of_num ratio) inner1)) m) st)\<lparr>ge_overrideOpen := False\<rparr>))))"

definition handleOverrideDelete :: "string \<Rightarrow> string \<Rightarrow> group_editor \<Rightarrow> group_editor option" where
  "handleOverrideDelete userGroup targetGroup st = (case group_map st of
     None \<Rightarrow> None
   | Some m \<Rightarrow>
       if js_truthy (obj_get userGroup m)
       then (case entries_of (the (obj_get userGroup m)) of
           None \<Rightarrow> None
         | Some inner \<Rightarrow>
             let inner1 = obj_delete targetGroup inner
             in Some (write_groups (if inner1 = [] then obj_delete userGroup m else obj_set userGroup (JObj inner1) m) st))
       else Some (write_groups m st))"

text \<open>The save button of the dialog for an override.\<close>

definition dialog_override_save :: "string \<Rightarrow> string \<Rightarrow> group_editor \<Rightarrow> group_editor option" where
  "dialog_override_save targetGroup ratio st =
     (if js_trim targetGroup = [] \<or> js_trim ratio = [] then Some st
      else if parse_float ratio = NaN then Some st
      else handleOverrideSave (js_trim targetGroup) (parse_float ratio) (map_option fst (ge_overrideEdit st)) st)"

end
