(* ===== verification/GroupRatiosFacts.thy ===== *)
theory GroupRatiosFacts
  imports GroupRatios
begin

text \<open>
  Facts about the group settings: the texts the table writes, that it keeps its rows when they come
  back, the fresh name of a new row, and the ratios between groups as a map from pairs of groups.
\<close>

declare json_text.simps [simp del]

section \<open>Texts that were written are read\<close>

lemma parse_pretty: "json_ok v \<Longrightarrow> safeJsonParse (json_pretty v) d = v"
  using pretty.parse_trim_print [of v] pretty.print_trim [of v] pretty.print_not_empty [of v] by (simp add: safeJsonParse_def)

lemma parse_ok: "json_ok d \<Longrightarrow> json_ok (safeJsonParse s d)"
  using compact.parse_wf by (auto simp: safeJsonParse_def split: option.splits)

lemma entries_ok: "json_ok v \<Longrightarrow> entries_of v = Some m \<Longrightarrow> json_ok (JObj m)"
  by (cases v) simp_all

section \<open>The table of groups\<close>

definition row_ok :: "GroupPricingRow \<Rightarrow> bool" where
  "row_ok row \<longleftrightarrow> dec_ok (pr_ratio row)"

definition objects_ok :: "(string \<times> json) list \<times> (string \<times> json) list \<Rightarrow> bool" where
  "objects_ok st \<longleftrightarrow> json_ok (JObj (fst st)) \<and> json_ok (JObj (snd st))"

lemma serialize_step_ok: "row_ok row \<Longrightarrow> objects_ok st \<Longrightarrow> objects_ok (serialize_step st row)"
  using json_ok_set [of "fst st" "JNum (pr_ratio row)"] json_ok_set [of "snd st" "JStr (pr_description row)"]
  by (cases st) (simp add: serialize_step_def objects_ok_def Let_def row_ok_def del: json_ok.simps(3))

lemma serialize_ok: "list_all row_ok rows \<Longrightarrow> objects_ok st \<Longrightarrow> objects_ok (foldl serialize_step st rows)"
  by (induction rows arbitrary: st) (simp_all add: serialize_step_ok)

lemma group_objects_ok: "list_all row_ok rows \<Longrightarrow> json_ok (JObj (fst (group_objects rows))) \<and> json_ok (JObj (snd (group_objects rows)))"
  using serialize_ok [of rows "([], [])"] by (simp add: group_objects_def objects_ok_def)

lemma serialized_read:
  assumes "list_all row_ok rows"
  shows "safeJsonParse (fst (serializeGroupPricingRows rows)) d = JObj (fst (group_objects rows))"
    "safeJsonParse (snd (serializeGroupPricingRows rows)) d = JObj (snd (group_objects rows))"
  using group_objects_ok [OF assms] parse_pretty by (simp_all add: serializeGroupPricingRows_def)

text \<open>Which row a name gets its figures from: the last of its name, and the last selectable one.\<close>

definition row_name :: "GroupPricingRow \<Rightarrow> string" where
  "row_name row = js_trim (pr_name row)"

fun last_row :: "(GroupPricingRow \<Rightarrow> bool) \<Rightarrow> GroupPricingRow list \<Rightarrow> GroupPricingRow option" where
  "last_row p [] = None"
| "last_row p (row # rows) = (case last_row p rows of Some r \<Rightarrow> Some r | None \<Rightarrow> if p row then Some row else None)"

lemma group_objects_get:
  assumes "name \<noteq> []"
  shows "obj_get name (fst (foldl serialize_step st rows)) =
      (case last_row (\<lambda>row. row_name row = name) rows of Some row \<Rightarrow> Some (JNum (pr_ratio row)) | None \<Rightarrow> obj_get name (fst st))"
    "obj_get name (snd (foldl serialize_step st rows)) =
      (case last_row (\<lambda>row. row_name row = name \<and> pr_selectable row) rows of Some row \<Rightarrow> Some (JStr (pr_description row)) | None \<Rightarrow> obj_get name (snd st))"
  using assms
  by (induction rows arbitrary: st)
    (auto simp: serialize_step_def row_name_def Let_def split: option.splits prod.splits)

lemma table_gets:
  assumes "list_all row_ok rows"
  shows "obj_get name (fst (group_objects rows)) =
       (if name = [] then None else map_option (\<lambda>row. JNum (pr_ratio row)) (last_row (\<lambda>row. row_name row = name) rows))"
    "obj_get name (snd (group_objects rows)) =
       (if name = [] then None else map_option (\<lambda>row. JStr (pr_description row)) (last_row (\<lambda>row. row_name row = name \<and> pr_selectable row) rows))"
proof -
  have blank: "obj_get [] (fst (foldl serialize_step st rows)) = obj_get [] (fst st) \<and> obj_get [] (snd (foldl serialize_step st rows)) = obj_get [] (snd st)" for st
    by (induction rows arbitrary: st) (auto simp: serialize_step_def Let_def split: prod.splits)
  show "obj_get name (fst (group_objects rows)) =
       (if name = [] then None else map_option (\<lambda>row. JNum (pr_ratio row)) (last_row (\<lambda>row. row_name row = name) rows))"
    "obj_get name (snd (group_objects rows)) =
       (if name = [] then None else map_option (\<lambda>row. JStr (pr_description row)) (last_row (\<lambda>row. row_name row = name \<and> pr_selectable row) rows))"
    using group_objects_get [of name "([], [])" rows] blank [of "([], [])"]
    by (auto simp: group_objects_def split: option.splits)
qed

text \<open>
  What the table writes. Under every name that is not blank, the text of the ratios has the ratio of
  the last row of that name, trimmed, and the text of the selectable groups the description of the
  last selectable row of that name; other names are in neither.
\<close>
theorem table_texts:
  assumes "list_all row_ok rows"
  shows "entries_of (safeJsonParse (fst (serializeGroupPricingRows rows)) d) = Some (fst (group_objects rows)) \<and>
    entries_of (safeJsonParse (snd (serializeGroupPricingRows rows)) d) = Some (snd (group_objects rows)) \<and>
    (\<forall>name. obj_get name (fst (group_objects rows)) =
       (if name = [] then None else map_option (\<lambda>row. JNum (pr_ratio row)) (last_row (\<lambda>row. row_name row = name) rows))) \<and>
    (\<forall>name. obj_get name (snd (group_objects rows)) =
       (if name = [] then None else map_option (\<lambda>row. JStr (pr_description row)) (last_row (\<lambda>row. row_name row = name \<and> pr_selectable row) rows)))"
  using serialized_read [OF assms] table_gets [OF assms] by simp

lemma sample_row_ok: "row_ok \<lparr>pr_id = 1, pr_name = n, pr_ratio = int_dec 2, pr_selectable = b, pr_description = t\<rparr>"
  by (simp add: row_ok_def)

subsection \<open>Rows that come back\<close>

text \<open>An edit keeps the rows as they were typed, although the texts it writes come back as properties.\<close>

lemma emit_keeps: "emitRows rows st = Some (st\<lparr>pt_rows := rows, pt_groupRatio := fst (serializeGroupPricingRows rows), pt_usable := snd (serializeGroupPricingRows rows)\<rparr>)"
proof -
  have "groupPricingSignature rows = sourceGroupPricingSignature (fst (serializeGroupPricingRows rows)) (snd (serializeGroupPricingRows rows))"
    by (simp add: groupPricingSignature_def sourceGroupPricingSignature_def Let_def)
  then show ?thesis by (simp add: emitRows_def texts_arrive_def Let_def)
qed

definition strip :: "GroupPricingRow \<Rightarrow> GroupPricingRow" where
  "strip row = row\<lparr>pr_id := 0\<rparr>"

text \<open>Rows that say nothing twice and nothing in vain.\<close>

definition plain_rows :: "GroupPricingRow list \<Rightarrow> bool" where
  "plain_rows rows \<longleftrightarrow> distinct (map pr_name rows) \<and>
     list_all (\<lambda>row. row_ok row \<and> pr_name row \<noteq> [] \<and> js_trim (pr_name row) = pr_name row \<and> (pr_selectable row \<or> pr_description row = [])) rows"

lemma last_row_unique: "distinct (map f rows) \<Longrightarrow> row \<in> set rows \<Longrightarrow> last_row (\<lambda>r. f r = f row \<and> q r) rows = (if q row then Some row else None)"
proof (induction rows)
  case (Cons r rows)
  have none: "last_row (\<lambda>r. f r = f row \<and> q r) rows = None" if "f row \<notin> f ` set rows" for rows
    using that by (induction rows) auto
  show ?case using Cons none [of rows] by (auto split: option.splits)
qed simp

lemma js_uniq_append_subset: "distinct xs \<Longrightarrow> set ys \<subseteq> set xs \<Longrightarrow> js_uniq (xs @ ys) = xs"
proof -
  assume d: "distinct xs" and sub: "set ys \<subseteq> set xs"
  have "fold set_add ys xs = xs" using sub by (induction ys) (auto simp: set_add_def)
  then show ?thesis using js_uniq_distinct [OF d] by (simp add: js_uniq_def)
qed

lemma key_iff_get: "k \<in> fst ` set kvs \<longleftrightarrow> obj_get k kvs \<noteq> None"
  by (simp add: obj_get_def map_of_eq_None_iff)

lemma plain_get:
  assumes "plain_rows rows" "row \<in> set rows"
  shows "obj_get (pr_name row) (fst (group_objects rows)) = Some (JNum (pr_ratio row))"
    "obj_get (pr_name row) (snd (group_objects rows)) = (if pr_selectable row then Some (JStr (pr_description row)) else None)"
proof -
  have trim: "row_name r = pr_name r" if "r \<in> set rows" for r
    using assms(1) that by (auto simp: plain_rows_def list_all_iff row_name_def)
  have d: "distinct (map row_name rows)" using assms(1) trim by (simp add: plain_rows_def cong: map_cong)
  have ne: "pr_name row \<noteq> []" using assms by (auto simp: plain_rows_def list_all_iff)
  show "obj_get (pr_name row) (fst (group_objects rows)) = Some (JNum (pr_ratio row))"
    using group_objects_get(1) [OF ne, of "([], [])" rows] last_row_unique [OF d assms(2), of "\<lambda>_. True"] trim [OF assms(2)]
    by (simp add: group_objects_def)
  show "obj_get (pr_name row) (snd (group_objects rows)) = (if pr_selectable row then Some (JStr (pr_description row)) else None)"
    using group_objects_get(2) [OF ne, of "([], [])" rows] last_row_unique [OF d assms(2), of pr_selectable] trim [OF assms(2)]
    by (simp add: group_objects_def)
qed

lemma map_indexed: "length xs = n \<Longrightarrow> map (\<lambda>(i, x). f x) (zip [0..<n] xs) = map f xs"
  by (rule nth_equalityI) auto

lemma strip_update: "strip \<lparr>pr_id = i, pr_name = n, pr_ratio = r, pr_selectable = b, pr_description = d\<rparr> =
    \<lparr>pr_id = 0, pr_name = n, pr_ratio = r, pr_selectable = b, pr_description = d\<rparr>"
  by (simp add: strip_def)

lemma built_rows:
  assumes ok: "list_all row_ok rows"
  shows "\<exists>rows'. buildGroupPricingRows c (fst (serializeGroupPricingRows rows)) (snd (serializeGroupPricingRows rows)) = Some (rows', c + length rows') \<and>
    map strip rows' = map (\<lambda>name. \<lparr>pr_id = 0, pr_name = name, pr_ratio = normalizeRatio (obj_get name (fst (group_objects rows))),
      pr_selectable = (obj_get name (snd (group_objects rows)) \<noteq> None), pr_description = nullish_to_string (obj_get name (snd (group_objects rows)))\<rparr>)
      (map fst (fst (group_objects rows)))"
proof -
  let ?gr = "fst (group_objects rows)" and ?uu = "snd (group_objects rows)"
  have step: "fst ` set (snd (serialize_step st row)) \<subseteq> fst ` set (fst (serialize_step st row))" if "fst ` set (snd st) \<subseteq> fst ` set (fst st)" for st row
    using that by (cases st; simp add: serialize_step_def Let_def keys_obj_set; blast)
  have sub: "fst ` set (snd (foldl serialize_step st rows)) \<subseteq> fst ` set (fst (foldl serialize_step st rows))" if "fst ` set (snd st) \<subseteq> fst ` set (fst st)" for st
    using that by (induction rows arbitrary: st) (simp_all add: step)
  have "obj_ok ?gr" using group_objects_ok [OF ok] by simp
  then have names: "js_uniq (map fst ?gr @ map fst ?uu) = map fst ?gr"
    using obj_ok_distinct [of ?gr] sub [of "([], [])"] by (intro js_uniq_append_subset) (simp_all add: group_objects_def)
  show ?thesis
    unfolding buildGroupPricingRows_def serialized_read [OF ok] entries_of.simps prod.case option.case names Let_def
    by (simp add: comp_def prod.case_distrib [of strip] strip_update map_indexed key_iff_get)
qed


definition sample_rows :: "GroupPricingRow list" where
  "sample_rows = [\<lparr>pr_id = 1, pr_name = ''vip'', pr_ratio = Dec 5 1, pr_selectable = True, pr_description = ''fast''\<rparr>,
     \<lparr>pr_id = 2, pr_name = ''default'', pr_ratio = int_dec 1, pr_selectable = False, pr_description = []\<rparr>]"

lemma sample_plain: "plain_rows sample_rows"
  by (simp add: plain_rows_def sample_rows_def row_ok_def trim_by_def is_ws_def)


lemma table_texts_witness:
  "obj_get ''vip'' (fst (group_objects sample_rows)) = Some (JNum (Dec 5 1)) \<and> obj_get ''default'' (snd (group_objects sample_rows)) = None"
proof -
  have "list_all row_ok sample_rows" by (simp add: sample_rows_def row_ok_def)
  from table_texts [OF this] show ?thesis by (simp add: sample_rows_def row_name_def trim_by_def is_ws_def)
qed

subsection \<open>The name of a new row\<close>

lemma fresh_index_facts: "i \<le> fresh_index names i \<and> group_name (fresh_index names i) \<notin> set names \<and> (\<forall>k. i \<le> k \<and> k < fresh_index names i \<longrightarrow> group_name k \<in> set names)"
proof (induction names i rule: fresh_index.induct)
  case (1 names i)
  show ?case
  proof (cases "group_name i \<in> set names")
    case True
    have step: "fresh_index names i = fresh_index names (i + 1)" using True by (subst fresh_index.simps) simp
    show ?thesis
    proof (intro conjI allI impI)
      fix k assume k: "i \<le> k \<and> k < fresh_index names i"
      then show "group_name k \<in> set names" using 1 [OF True] True step by (cases "k = i") auto
    qed (use 1 [OF True] step in auto)
  next
    case False
    then have "fresh_index names i = i" by (subst fresh_index.simps) simp
    then show ?thesis using False by auto
  qed
qed

text \<open>
  The search for the name of a new group ends. The number it returns is at least 1 and at most one
  more than the number of rows, no row has the name with it, and every smaller number is taken.
\<close>
theorem new_name_found:
  "let k = fresh_index (map pr_name rows) 1
   in 1 \<le> k \<and> k \<le> length rows + 1 \<and> group_name k \<notin> set (map pr_name rows) \<and> group_name ` {1..<k} \<subseteq> set (map pr_name rows)"
proof -
  let ?k = "fresh_index (map pr_name rows) 1"
  have sub: "group_name ` {1..<?k} \<subseteq> set (map pr_name rows)" using fresh_index_facts [of 1 "map pr_name rows"] by auto
  have "card (group_name ` {1..<?k}) = ?k - 1" by (subst card_image) (auto simp: inj_on_def group_name_inj)
  moreover have "card (group_name ` {1..<?k}) \<le> length rows"
    using card_mono [OF _ sub] card_length [of "map pr_name rows"] by simp
  ultimately show ?thesis using fresh_index_facts [of 1 "map pr_name rows"] sub by (auto simp: Let_def)
qed

text \<open>
  A new group can take over an old one. The search compares the names as they are typed, the texts
  have them trimmed: when a row is called like the new one but for blanks around it, the ratio that is
  saved for the name is the 1 of the new row, whatever the old row says.
\<close>
theorem new_row_takes_over:
  assumes "list_all row_ok (pt_rows st)" "old \<in> set (pt_rows st)"
    "row_name old = group_name (fresh_index (map pr_name (pt_rows st)) 1)"
  shows "\<exists>st'. addRow st = Some st' \<and> old \<in> set (pt_rows st') \<and>
    (\<exists>m. safeJsonParse (pt_groupRatio st') (JObj []) = JObj m \<and> obj_get (row_name old) m = Some (JNum (int_dec 1)))"
proof -
  let ?row = "\<lparr>pr_id = pt_counter st + 1, pr_name = row_name old, pr_ratio = int_dec 1, pr_selectable = True, pr_description = []\<rparr>"
  let ?rows = "pt_rows st @ [?row]"
  have ok: "list_all row_ok ?rows" using assms(1) by (simp add: row_ok_def)
  have name: "row_name old \<noteq> []" unfolding assms(3) by (simp add: group_name_def)
  have trim: "row_name ?row = row_name old" by (simp add: row_name_def)
  have last: "last_row p (rows @ [r]) = Some r" if "p r" for p r rows using that by (induction rows) auto
  have "obj_get (row_name old) (fst (group_objects ?rows)) = Some (JNum (int_dec 1))"
    using table_gets(1) [OF ok, of "row_name old"] name last [of "\<lambda>row. row_name row = row_name old" ?row] trim by simp
  moreover have "addRow st = emitRows ?rows (st\<lparr>pt_counter := pt_counter st + 1\<rparr>)"
    by (simp add: addRow_def Let_def assms(3))
  ultimately show ?thesis
    using assms(2) serialized_read(1) [OF ok] by (auto simp: emit_keeps)
qed

lemma new_row_takes_over_witness:
  "\<exists>st'. addRow \<lparr>pt_rows = [\<lparr>pr_id = 1, pr_name = ''group_1 '', pr_ratio = int_dec 9, pr_selectable = True, pr_description = []\<rparr>], pt_counter = 1, pt_groupRatio = [], pt_usable = []\<rparr> = Some st' \<and>
     (\<exists>m. safeJsonParse (pt_groupRatio st') (JObj []) = JObj m \<and> obj_get ''group_1'' m = Some (JNum (int_dec 1)))"
proof -
  let ?row = "\<lparr>pr_id = 1, pr_name = ''group_1 '', pr_ratio = int_dec 9, pr_selectable = True, pr_description = []\<rparr>"
  have name: "row_name ?row = ''group_1''" by (simp add: row_name_def trim_by_def is_ws_def)
  have one: "group_name 1 = ''group_1''" by code_simp
  moreover have "fresh_index [''group_1 ''] 1 = 1" by (subst fresh_index.simps) (simp only: one, simp)
  ultimately show ?thesis
    using new_row_takes_over [of "\<lparr>pt_rows = [?row], pt_counter = 1, pt_groupRatio = [], pt_usable = []\<rparr>" ?row] name
    by (auto simp: row_ok_def)
qed

section \<open>The list of automatic groups\<close>

lemma auto_list_ok: "autoGroupsList st = Some xs \<Longrightarrow> json_ok (JArr xs)"
  using parse_ok [of "JArr []" "ge_autoGroups st"] by (auto simp: autoGroupsList_def split: json.splits)

lemma auto_list_written: "json_ok (JArr xs) \<Longrightarrow> autoGroupsList (st\<lparr>ge_autoGroups := json_pretty (JArr xs)\<rparr>) = Some xs"
  using parse_pretty [of "JArr xs"] by (simp add: autoGroupsList_def)

text \<open>
  Moving an automatic group up and then down again, from where it got, gives the list that was there;
  a move keeps the groups of the list, and at the ends it does nothing.
\<close>
theorem auto_move_back:
  assumes "autoGroupsList st = Some xs" "0 < i" "i < length xs"
  shows "\<exists>st' st''. handleAutoGroupMove i Up st = Some st' \<and> handleAutoGroupMove (i - 1) Down st' = Some st'' \<and>
    autoGroupsList st'' = Some xs \<and> map_option mset (autoGroupsList st') = Some (mset xs) \<and>
    handleAutoGroupMove 0 Up st = Some st \<and> handleAutoGroupMove (length xs - 1) Down st = Some st"
proof -
  let ?ys = "xs[i := xs ! (i - 1), i - 1 := xs ! i]"
  have perm: "mset ?ys = mset xs" using assms(2,3) mset_swap [of "i - 1" xs i] by (simp add: list_update_swap)
  have ok: "json_ok (JArr xs)" using assms(1) by (rule auto_list_ok)
  then have ok': "json_ok (JArr ?ys)" using perm by (metis json_ok.simps(2) set_mset_mset)
  let ?st = "st\<lparr>ge_autoGroups := json_pretty (JArr ?ys)\<rparr>"
  have up: "handleAutoGroupMove i Up st = Some ?st"
    using assms by (simp add: handleAutoGroupMove_def Let_def nat_diff_distrib')
  have read: "autoGroupsList ?st = Some ?ys" using ok' by (rule auto_list_written)
  have "?ys[i - 1 := ?ys ! i, i := ?ys ! (i - 1)] = xs"
    using assms(2,3) by (intro nth_equalityI) (auto simp: nth_list_update)
  then have down: "handleAutoGroupMove (i - 1) Down ?st = Some (?st\<lparr>ge_autoGroups := json_pretty (JArr xs)\<rparr>)"
    using assms(2,3) read by (simp add: handleAutoGroupMove_def Let_def nat_add_distrib of_nat_diff)
  have ends: "handleAutoGroupMove 0 Up st = Some st" "handleAutoGroupMove (length xs - 1) Down st = Some st"
    using assms by (simp_all add: handleAutoGroupMove_def Let_def)
  show ?thesis
    using up down read perm ends auto_list_written [OF ok, of ?st] by auto
qed

lemma auto_move_back_witness:
  "\<exists>st st' st''. handleAutoGroupMove 1 Up st = Some st' \<and> handleAutoGroupMove 0 Down st' = Some st'' \<and>
     autoGroupsList st'' = Some [JStr ''a'', JStr ''b''] \<and> autoGroupsList st = Some [JStr ''a'', JStr ''b'']"
proof -
  fix st0 :: group_editor
  let ?st = "st0\<lparr>ge_autoGroups := json_pretty (JArr [JStr ''a'', JStr ''b''])\<rparr>"
  have "autoGroupsList ?st = Some [JStr ''a'', JStr ''b'']" by (rule auto_list_written) simp
  from auto_move_back [OF this, of 1] this show ?thesis by auto
qed

section \<open>Ratios between groups\<close>

text \<open>
  The specification: a map from the group of a user and the group of a token to a ratio. It is what
  the list on the screen shows.
\<close>

definition ratio_at :: "group_editor \<Rightarrow> string \<Rightarrow> string \<rightharpoonup> json" where
  "ratio_at st u = (case groupGroupRatioList st of
     None \<Rightarrow> Map.empty
   | Some l \<Rightarrow> (case map_of l u of None \<Rightarrow> Map.empty | Some inner \<Rightarrow> map_of inner))"

definition shown :: "(string \<times> json) list \<Rightarrow> bool" where
  "shown m \<longleftrightarrow> json_ok (JObj m) \<and> list_all (\<lambda>p. entries_of (snd p) \<noteq> None) m"

definition inner_at :: "(string \<times> json) list \<Rightarrow> string \<Rightarrow> string \<rightharpoonup> json" where
  "inner_at m u = (case obj_get u m of Some (JObj inner) \<Rightarrow> map_of inner | _ \<Rightarrow> Map.empty)"

lemma group_map_ok: "group_map st = Some m \<Longrightarrow> json_ok (JObj m)"
  using entries_ok parse_ok json_ok_empty unfolding group_map_def by blast

lemma list_shown: "groupGroupRatioList st \<noteq> None \<longleftrightarrow> (\<exists>m. group_map st = Some m \<and> shown m)"
  using group_map_ok by (auto simp: groupGroupRatioList_def shown_def split: option.splits)

lemma ratio_at_inner:
  assumes "group_map st = Some m" "shown m"
  shows "ratio_at st = inner_at m"
proof
  fix u
  have l: "groupGroupRatioList st = Some (map (\<lambda>(u, v). (u, the (entries_of v))) m)"
    using assms by (simp add: groupGroupRatioList_def shown_def)
  have "map_of (map (\<lambda>(u, v). (u, the (entries_of v))) m) u = map_option (\<lambda>v. the (entries_of v)) (map_of m u)"
    by (induction m) auto
  moreover have "entries_of v \<noteq> None" if "map_of m u = Some v" for v
    using assms(2) map_of_SomeD [OF that] by (auto simp: shown_def list_all_iff)
  ultimately show "ratio_at st u = inner_at m u"
    by (auto simp: ratio_at_def l inner_at_def obj_get_def split: option.splits json.splits)
qed

lemma written_groups:
  assumes "shown m"
  shows "groupGroupRatioList (write_groups m st) \<noteq> None" "ratio_at (write_groups m st) = inner_at m"
proof -
  have "group_map (write_groups m st) = Some m"
    using assms parse_pretty [of "JObj m"] by (simp add: group_map_def write_groups_def shown_def)
  then show "groupGroupRatioList (write_groups m st) \<noteq> None" "ratio_at (write_groups m st) = inner_at m"
    using list_shown ratio_at_inner assms by blast+
qed

lemma shown_set: "shown m \<Longrightarrow> json_ok (JObj inner) \<Longrightarrow> shown (obj_set u (JObj inner) m) \<and> inner_at (obj_set u (JObj inner) m) = (inner_at m)(u := map_of inner)"
proof -
  assume m: "shown m" and inner: "json_ok (JObj inner)"
  have "list_all (\<lambda>p. entries_of (snd p) \<noteq> None) (obj_set u (JObj inner) m)"
    using m obj_set_values [of _ u "JObj inner" m] by (fastforce simp: shown_def list_all_iff)
  moreover have "json_ok (JObj (obj_set u (JObj inner) m))" using m inner by (intro json_ok_set) (simp_all only: shown_def)
  ultimately show ?thesis by (auto simp: shown_def inner_at_def fun_eq_iff simp del: json_ok.simps(3))
qed

lemma shown_delete: "shown m \<Longrightarrow> shown (obj_delete u m) \<and> inner_at (obj_delete u m) = (inner_at m)(u := Map.empty)"
proof -
  assume m: "shown m"
  have "list_all (\<lambda>p. entries_of (snd p) \<noteq> None) (obj_delete u m)"
    using m by (auto simp: shown_def list_all_iff obj_delete_def)
  moreover have "json_ok (JObj (obj_delete u m))" using m by (intro json_ok_delete) (simp only: shown_def)
  ultimately show ?thesis by (auto simp: shown_def inner_at_def fun_eq_iff simp del: json_ok.simps(3))
qed

lemma shown_get:
  assumes "shown m"
  obtains "obj_get u m = None" "inner_at m u = Map.empty"
  | inner where "obj_get u m = Some (JObj inner)" "inner_at m u = map_of inner" "json_ok (JObj inner)"
proof (cases "obj_get u m")
  case None
  then show thesis using that(1) by (simp add: inner_at_def)
next
  case (Some v)
  have "entries_of v \<noteq> None" using assms map_of_SomeD [of m u v] Some by (auto simp: shown_def list_all_iff obj_get_def)
  moreover have "json_ok v" using assms json_ok_get [of m u v] Some by (simp only: shown_def)
  ultimately show thesis using that(2) Some by (cases v) (auto simp: inner_at_def)
qed

lemma map_of_obj_set: "map_of (obj_set k v m) = (map_of m)(k \<mapsto> v)"
  using obj_get_set [of _ k v m] by (auto simp: obj_get_def)

lemma map_of_obj_delete: "map_of (obj_delete k m) = (map_of m)(k := None)"
  using obj_get_delete [of _ k m] by (auto simp: obj_get_def)

lemma override_saved:
  assumes "group_map st = Some m" "shown m" "ge_overrideUser st = Some u" "u \<noteq> []" "dec_ok d"
  shows "\<exists>st'. handleOverrideSave t (Num d) old st = Some st' \<and> groupGroupRatioList st' \<noteq> None \<and>
    ratio_at st' = (ratio_at st)(u := ((case old of Some k \<Rightarrow> if k \<noteq> [] \<and> k \<noteq> t then (ratio_at st u)(k := None) else ratio_at st u | None \<Rightarrow> ratio_at st u)(t \<mapsto> JNum d)))"
proof -
  define inner where "inner = (case obj_get u m of Some (JObj kvs) \<Rightarrow> kvs | _ \<Rightarrow> [])"
  have inner: "json_ok (JObj inner)" "map_of inner = inner_at m u"
    "entries_of (if js_truthy (obj_get u m) then the (obj_get u m) else JObj []) = Some inner"
    by (rule shown_get [OF assms(2), of u]; auto simp: inner_def js_truthy_def)+
  define inner1 where "inner1 = (case old of Some k \<Rightarrow> if k \<noteq> [] \<and> k \<noteq> t then obj_delete k inner else inner | None \<Rightarrow> inner)"
  have "json_ok (JObj inner1)" using inner(1) json_ok_delete by (auto simp: inner1_def split: option.splits simp del: json_ok.simps(3))
  then have ok: "json_ok (JObj (obj_set t (JNum d) inner1))" using assms(5) by (intro json_ok_set) simp_all
  have map1: "map_of inner1 = (case old of Some k \<Rightarrow> if k \<noteq> [] \<and> k \<noteq> t then (inner_at m u)(k := None) else inner_at m u | None \<Rightarrow> inner_at m u)"
    using inner(2) by (auto simp: inner1_def map_of_obj_delete split: option.splits)
  have save: "handleOverrideSave t (Num d) old st = Some ((write_groups (obj_set u (JObj (obj_set t (JNum d) inner1)) m) st)\<lparr>ge_overrideOpen := False\<rparr>)"
    using assms(1,3,4) inner(3) by (simp add: handleOverrideSave_def inner1_def)
  note w = written_groups [of "obj_set u (JObj (obj_set t (JNum d) inner1)) m" "st\<lparr>ge_overrideOpen := False\<rparr>"] shown_set [OF assms(2) ok, of u]
  have swap: "(write_groups x st)\<lparr>ge_overrideOpen := False\<rparr> = write_groups x (st\<lparr>ge_overrideOpen := False\<rparr>)" for x by (simp add: write_groups_def)
  have ratio: "ratio_at (write_groups (obj_set u (JObj (obj_set t (JNum d) inner1)) m) (st\<lparr>ge_overrideOpen := False\<rparr>)) = (inner_at m)(u := (map_of inner1)(t \<mapsto> JNum d))"
    using w by (simp only: map_of_obj_set)
  show ?thesis
    unfolding save swap ratio_at_inner [OF assms(1,2)] using w(1,3) ratio unfolding map1 by simp
qed

lemma override_deleted:
  assumes "group_map st = Some m" "shown m"
  shows "\<exists>st'. handleOverrideDelete u t st = Some st' \<and> groupGroupRatioList st' \<noteq> None \<and> ratio_at st' = (ratio_at st)(u := (ratio_at st u)(t := None))"
proof (rule shown_get [OF assms(2), of u])
  assume u: "obj_get u m = None" "inner_at m u = Map.empty"
  then have "handleOverrideDelete u t st = Some (write_groups m st)" using assms(1) by (simp add: handleOverrideDelete_def js_truthy_def)
  then show ?thesis using written_groups [OF assms(2)] u(2) by (auto simp: ratio_at_inner [OF assms] fun_upd_idem)
next
  fix inner assume u: "obj_get u m = Some (JObj inner)" "inner_at m u = map_of inner" "json_ok (JObj inner)"
  let ?m = "if obj_delete t inner = [] then obj_delete u m else obj_set u (JObj (obj_delete t inner)) m"
  have del: "handleOverrideDelete u t st = Some (write_groups ?m st)" using assms(1) u(1) by (simp add: handleOverrideDelete_def js_truthy_def Let_def)
  have "map_of (obj_delete t inner) = Map.empty" if "obj_delete t inner = []" using that by simp
  then have "shown ?m \<and> inner_at ?m = (inner_at m)(u := map_of (obj_delete t inner))"
    using shown_set [OF assms(2) json_ok_delete [OF u(3)], of u t] shown_delete [OF assms(2), of u] by auto
  then show ?thesis using written_groups [of ?m st] u(2) unfolding del by (auto simp: ratio_at_inner [OF assms] map_of_obj_delete)
qed

text \<open>
  C31: The editor of the ratios between groups implements a map from pairs of groups to ratios. On a text
  that the list can show, saving an override sets the ratio of its pair, and when its target was
  renamed removes the one of the old pair; deleting an override removes that pair; deleting a user group
  removes all of its pairs; adding a user group changes no ratio. No other pair is touched, and the
  text written can be shown again.
\<close>
theorem override_refines:
  assumes "groupGroupRatioList st \<noteq> None" "ge_overrideUser st = Some u" "u \<noteq> []" "dec_ok d"
  shows "(\<exists>st'. handleOverrideSave t (Num d) old st = Some st' \<and> groupGroupRatioList st' \<noteq> None \<and>
      ratio_at st' = (ratio_at st)(u := ((case old of Some k \<Rightarrow> if k \<noteq> [] \<and> k \<noteq> t then (ratio_at st u)(k := None) else ratio_at st u | None \<Rightarrow> ratio_at st u)(t \<mapsto> JNum d)))) \<and>
    (\<exists>st'. handleOverrideDelete v t st = Some st' \<and> groupGroupRatioList st' \<noteq> None \<and> ratio_at st' = (ratio_at st)(v := (ratio_at st v)(t := None))) \<and>
    (\<exists>st'. handleUserGroupDelete v st = Some st' \<and> groupGroupRatioList st' \<noteq> None \<and> ratio_at st' = (ratio_at st)(v := Map.empty)) \<and>
    (\<exists>st'. handleUserGroupSave st = Some st' \<and> groupGroupRatioList st' \<noteq> None \<and> ratio_at st' = ratio_at st)"
proof -
  obtain m where m: "group_map st = Some m" "shown m" using assms(1) list_shown by blast
  have del: "\<exists>st'. handleUserGroupDelete v st = Some st' \<and> groupGroupRatioList st' \<noteq> None \<and> ratio_at st' = (ratio_at st)(v := Map.empty)"
    using m written_groups [of "obj_delete v m" st] shown_delete [OF m(2), of v] by (auto simp: handleUserGroupDelete_def ratio_at_inner [OF m])
  let ?name = "js_trim (ge_userInput st)"
  let ?m = "if js_truthy (obj_get ?name m) then m else obj_set ?name (JObj []) m"
  have "shown ?m \<and> inner_at ?m = inner_at m"
    by (rule shown_get [OF m(2), of ?name]) (use m(2) shown_set [OF m(2) json_ok_empty, of ?name] in \<open>auto simp: js_truthy_def fun_upd_idem\<close>)
  then have "groupGroupRatioList (write_groups ?m (st\<lparr>ge_userOpen := False\<rparr>)) \<noteq> None" "ratio_at (write_groups ?m (st\<lparr>ge_userOpen := False\<rparr>)) = ratio_at st"
    using written_groups [of ?m "st\<lparr>ge_userOpen := False\<rparr>"] ratio_at_inner [OF m] by simp_all
  moreover have "(write_groups x st)\<lparr>ge_userOpen := False\<rparr> = write_groups x (st\<lparr>ge_userOpen := False\<rparr>)" for x by (simp add: write_groups_def)
  ultimately have "\<exists>st'. handleUserGroupSave st = Some st' \<and> groupGroupRatioList st' \<noteq> None \<and> ratio_at st' = ratio_at st"
    using assms(1) m(1) by (cases "?name = []") (simp_all add: handleUserGroupSave_def Let_def)
  then show ?thesis using override_saved [OF m assms(2-4)] override_deleted [OF m] del by blast
qed

lemma override_refines_witness:
  "\<exists>st st'. handleOverrideSave ''vip'' (Num (Dec 9 1)) None st = Some st' \<and> ratio_at st' ''gold'' ''vip'' = Some (JNum (Dec 9 1)) \<and>
     ratio_at st' ''gold'' ''default'' = Some (JNum (int_dec 2))"
proof -
  fix st0 :: group_editor
  let ?m = "[(''gold'', JObj [(''default'', JNum (int_dec 2))])]"
  let ?st = "write_groups ?m (st0\<lparr>ge_overrideUser := Some ''gold''\<rparr>)"
  have m: "shown ?m" by (simp add: shown_def obj_ok_def)
  have "groupGroupRatioList ?st \<noteq> None" "ratio_at ?st ''gold'' ''default'' = Some (JNum (int_dec 2))"
    using written_groups [OF m, of "st0\<lparr>ge_overrideUser := Some ''gold''\<rparr>"] by (simp_all add: inner_at_def obj_get_def)
  moreover have "ge_overrideUser ?st = Some ''gold''" by (simp add: write_groups_def)
  ultimately show ?thesis
    using override_refines [of ?st "''gold''" "Dec 9 1" "''vip''" None] by (fastforce simp del: not_None_eq)
qed

end
