(* ===== verification/GroupRules.thy ===== *)
theory GroupRules
  imports GroupRatiosFacts
begin

text \<open>
  The editor of the special rules for usable groups
  (features/system-settings/models/group-special-usable-editor.tsx): rules that add, remove or append
  a group for the users of another one. They are kept in a JSON text as an object of objects, in which
  the kind of a rule is a prefix of the key.
\<close>

datatype op_type = OpAdd | OpRemove | OpAppend

record special_rule =
  ru_id :: nat
  ru_userGroup :: string
  ru_op :: op_type
  ru_targetGroup :: string
  ru_description :: string

definition parsePrefix :: "string \<Rightarrow> op_type \<times> string" where
  "parsePrefix rawKey = (if prefix ''+:'' rawKey then (OpAdd, drop 2 rawKey)
     else if prefix ''-:'' rawKey then (OpRemove, drop 2 rawKey) else (OpAppend, rawKey))"

definition toRawKey :: "op_type \<Rightarrow> string \<Rightarrow> string" where
  "toRawKey op groupName = (case op of OpAdd \<Rightarrow> ''+:'' @ groupName | OpRemove \<Rightarrow> ''-:'' @ groupName | OpAppend \<Rightarrow> groupName)"

definition safeParseJson :: "string \<Rightarrow> json" where
  "safeParseJson str = (if js_trim str = [] then JObj [] else case json_parse str of Some v \<Rightarrow> v | None \<Rightarrow> JObj [])"

text \<open>\<open>Object.entries\<close>; None is the TypeError for null.\<close>

fun object_entries :: "json \<Rightarrow> (string \<times> json) list option" where
  "object_entries JNull = None"
| "object_entries (JObj kvs) = Some kvs"
| "object_entries (JArr xs) = Some (zip (map show_nat [0..<length xs]) xs)"
| "object_entries (JStr s) = Some (zip (map show_nat [0..<length s]) (map (\<lambda>c. JStr [c]) s))"
| "object_entries _ = Some []"

definition read_rule :: "nat \<Rightarrow> string \<Rightarrow> string \<times> json \<Rightarrow> special_rule" where
  "read_rule rid userGroup = (\<lambda>(rawKey, desc). case parsePrefix rawKey of (op, groupName) \<Rightarrow>
     \<lparr>ru_id = rid, ru_userGroup = userGroup, ru_op = op, ru_targetGroup = groupName,
      ru_description = (if op = OpRemove then ''remove'' else string_or_empty (Some desc))\<rparr>)"

text \<open>The entries of the rules: the user group and the entry of the inner object. Values that are not
  objects are passed over.\<close>

definition rule_entries :: "(string \<times> json) list \<Rightarrow> (string \<times> string \<times> json) list" where
  "rule_entries nested = concat (map (\<lambda>(userGroup, inner). case inner of
       JObj kvs \<Rightarrow> map (Pair userGroup) kvs
     | JArr xs \<Rightarrow> map (Pair userGroup) (the (object_entries inner))
     | _ \<Rightarrow> []) nested)"

definition flattenRules :: "nat \<Rightarrow> json \<Rightarrow> (special_rule list \<times> nat) option" where
  "flattenRules counter nested = (case object_entries nested of
     None \<Rightarrow> None
   | Some kvs \<Rightarrow> let es = rule_entries kvs
       in Some (map (\<lambda>(i, userGroup, e). read_rule (counter + i + 1) userGroup e) (zip [0..<length es] es), counter + length es))"

definition nest_step :: "(string \<times> json) list \<Rightarrow> special_rule \<Rightarrow> (string \<times> json) list" where
  "nest_step result r = (if ru_userGroup r = [] \<or> ru_targetGroup r = [] then result
     else let inner = (case obj_get (ru_userGroup r) result of Some (JObj kvs) \<Rightarrow> kvs | _ \<Rightarrow> [])
          in obj_set (ru_userGroup r) (JObj (obj_set (toRawKey (ru_op r) (ru_targetGroup r)) (JStr (ru_description r)) inner)) result)"

definition nestRules :: "special_rule list \<Rightarrow> (string \<times> json) list" where
  "nestRules rules = foldl nest_step [] rules"

definition serializeRules :: "special_rule list \<Rightarrow> string" where
  "serializeRules rules = (let nested = nestRules rules in if nested = [] then ''{}'' else json_pretty (JObj nested))"

section \<open>The state and its handlers\<close>

record rules_editor =
  re_rules :: "special_rule list"
  re_counter :: nat
  re_newGroup :: string
  re_value :: string

definition open_rules :: "nat \<Rightarrow> string \<Rightarrow> rules_editor option" where
  "open_rules counter s = (case flattenRules counter (safeParseJson s) of
     None \<Rightarrow> None | Some (rules, n) \<Rightarrow> Some \<lparr>re_rules = rules, re_counter = n, re_newGroup = [], re_value = s\<rparr>)"

definition emitChange :: "special_rule list \<Rightarrow> rules_editor \<Rightarrow> rules_editor" where
  "emitChange rules st = st\<lparr>re_rules := rules, re_value := serializeRules rules\<rparr>"

datatype rule_update = SetOp op_type | SetTarget string | SetDescription string

fun update_rule :: "rule_update \<Rightarrow> special_rule \<Rightarrow> special_rule" where
  "update_rule (SetOp op) r =
     (let updated = r\<lparr>ru_op := op\<rparr>
      in if op = OpRemove then updated\<lparr>ru_description := ''remove''\<rparr>
         else if ru_op r = OpRemove \<and> ru_description updated = ''remove'' then updated\<lparr>ru_description := []\<rparr>
         else updated)"
| "update_rule (SetTarget s) r = r\<lparr>ru_targetGroup := s\<rparr>"
| "update_rule (SetDescription s) r = r\<lparr>ru_description := s\<rparr>"

definition updateRule :: "nat \<Rightarrow> rule_update \<Rightarrow> rules_editor \<Rightarrow> rules_editor" where
  "updateRule rid u st = emitChange (map (\<lambda>r. if ru_id r \<noteq> rid then r else update_rule u r) (re_rules st)) st"

definition removeRule :: "nat \<Rightarrow> rules_editor \<Rightarrow> rules_editor" where
  "removeRule rid st = emitChange (filter (\<lambda>r. ru_id r \<noteq> rid) (re_rules st)) st"

definition removeGroup :: "string \<Rightarrow> rules_editor \<Rightarrow> rules_editor" where
  "removeGroup groupName st = emitChange (filter (\<lambda>r. ru_userGroup r \<noteq> groupName) (re_rules st)) st"

definition empty_rule :: "nat \<Rightarrow> string \<Rightarrow> special_rule" where
  "empty_rule rid groupName = \<lparr>ru_id = rid, ru_userGroup = groupName, ru_op = OpAppend, ru_targetGroup = [], ru_description = []\<rparr>"

definition addRuleToGroup :: "string \<Rightarrow> rules_editor \<Rightarrow> rules_editor" where
  "addRuleToGroup groupName st = (let rid = re_counter st + 1
     in emitChange (re_rules st @ [empty_rule rid groupName]) (st\<lparr>re_counter := rid\<rparr>))"

definition addNewGroup :: "rules_editor \<Rightarrow> rules_editor" where
  "addNewGroup st = (let name = js_trim (re_newGroup st); rid = re_counter st + 1
     in if name = [] then st
        else (emitChange (re_rules st @ [empty_rule rid name]) (st\<lparr>re_counter := rid\<rparr>))\<lparr>re_newGroup := []\<rparr>)"

text \<open>The sections on the screen: the user groups in the order in which they come, with their rules.\<close>

definition grouped :: "special_rule list \<Rightarrow> (string \<times> special_rule list) list" where
  "grouped rules = (let rs = filter (\<lambda>r. ru_userGroup r \<noteq> []) rules
     in map (\<lambda>name. (name, filter (\<lambda>r. ru_userGroup r = name) rs)) (js_uniq (map ru_userGroup rs)))"

section \<open>Facts\<close>

lemma raw_key_parse: "case parsePrefix k of (op, g) \<Rightarrow> toRawKey op g = k"
  by (auto simp: parsePrefix_def toRawKey_def prefix_def)

definition target_ok :: "special_rule \<Rightarrow> bool" where
  "target_ok r \<longleftrightarrow> ru_userGroup r \<noteq> [] \<and> ru_targetGroup r \<noteq> [] \<and>
     (ru_op r = OpAppend \<longrightarrow> \<not> prefix ''+:'' (ru_targetGroup r) \<and> \<not> prefix ''-:'' (ru_targetGroup r)) \<and>
     (ru_op r = OpRemove \<longrightarrow> ru_description r = ''remove'')"

definition raw_key :: "special_rule \<Rightarrow> string" where
  "raw_key r = toRawKey (ru_op r) (ru_targetGroup r)"

lemma parse_raw_key: "target_ok r \<Longrightarrow> parsePrefix (raw_key r) = (ru_op r, ru_targetGroup r)"
  by (cases "ru_op r") (auto simp: target_ok_def raw_key_def parsePrefix_def toRawKey_def)

text \<open>A rule without its identifier.\<close>

definition strip_rule :: "special_rule \<Rightarrow> special_rule" where
  "strip_rule r = r\<lparr>ru_id := 0\<rparr>"

lemma read_rule_key: "target_ok r \<Longrightarrow> read_rule 0 (ru_userGroup r) (raw_key r, JStr (ru_description r)) = strip_rule r"
  by (auto simp: read_rule_def parse_raw_key strip_rule_def string_or_empty_def target_ok_def)

lemma nest_step_inner:
  assumes "shown m"
  shows "shown (nest_step m r) \<and> (target_ok r \<longrightarrow> inner_at (nest_step m r) =
    (inner_at m)(ru_userGroup r := (inner_at m (ru_userGroup r))(raw_key r \<mapsto> JStr (ru_description r))))"
proof (cases "ru_userGroup r = [] \<or> ru_targetGroup r = []")
  case False
  define inner where "inner = (case obj_get (ru_userGroup r) m of Some (JObj kvs) \<Rightarrow> kvs | _ \<Rightarrow> [])"
  have inner: "json_ok (JObj inner)" "map_of inner = inner_at m (ru_userGroup r)"
    by (rule shown_get [OF assms, of "ru_userGroup r"]; auto simp: inner_def)+
  have "json_ok (JObj (obj_set (raw_key r) (JStr (ru_description r)) inner))" using inner(1) by (intro json_ok_set) simp_all
  from shown_set [OF assms this, of "ru_userGroup r"] show ?thesis
    using False inner(2) by (simp add: nest_step_def Let_def inner_def [symmetric] raw_key_def map_of_obj_set)
qed (use assms in \<open>auto simp: nest_step_def target_ok_def\<close>)

lemma nest_inner:
  assumes "shown m" "list_all target_ok rules" "distinct (map (\<lambda>r. (ru_userGroup r, raw_key r)) rules)"
  shows "shown (foldl nest_step m rules) \<and> inner_at (foldl nest_step m rules) u k =
    (case List.find (\<lambda>r. ru_userGroup r = u \<and> raw_key r = k) rules of Some r \<Rightarrow> Some (JStr (ru_description r)) | None \<Rightarrow> inner_at m u k)"
  using assms
proof (induction rules arbitrary: m)
  case (Cons r rules)
  have "shown (nest_step m r)" and at: "inner_at (nest_step m r) = (inner_at m)(ru_userGroup r := (inner_at m (ru_userGroup r))(raw_key r \<mapsto> JStr (ru_description r)))"
    using nest_step_inner [OF Cons.prems(1), of r] Cons.prems(2) by simp_all
  from Cons.IH [OF this(1)] Cons.prems(2,3) have IH: "shown (foldl nest_step (nest_step m r) rules)"
    "inner_at (foldl nest_step (nest_step m r) rules) u k =
      (case List.find (\<lambda>r. ru_userGroup r = u \<and> raw_key r = k) rules of Some r \<Rightarrow> Some (JStr (ru_description r)) | None \<Rightarrow> inner_at (nest_step m r) u k)"
    by simp_all
  have "List.find (\<lambda>r'. ru_userGroup r' = ru_userGroup r \<and> raw_key r' = raw_key r) rules = None"
    using Cons.prems(3) by (auto simp: find_None_iff image_iff)
  then show ?case using IH
    by (cases "ru_userGroup r = u \<and> raw_key r = k") (auto simp: at split: option.splits)
qed simp

lemma shown_empty: "shown []"
  by (simp add: shown_def)

lemma rule_entry_from:
  assumes "e \<in> set (rule_entries m)"
  obtains x where "(fst e, x) \<in> set m"
    "e \<in> set (case x of JObj kvs \<Rightarrow> map (Pair (fst e)) kvs | JArr xs \<Rightarrow> map (Pair (fst e)) (the (object_entries x)) | _ \<Rightarrow> [])"
proof -
  from assms obtain p where p: "p \<in> set m"
    "e \<in> set (case p of (u, inner) \<Rightarrow> case inner of JObj kvs \<Rightarrow> map (Pair u) kvs | JArr xs \<Rightarrow> map (Pair u) (the (object_entries inner)) | _ \<Rightarrow> [])"
    unfolding rule_entries_def set_concat set_map by (elim UN_E imageE) simp
  obtain u x where ux: "p = (u, x)" by fastforce
  have u: "u = fst e" using p(2) unfolding ux by (cases x) auto
  from p show thesis unfolding ux prod.case u by (rule that)
qed

lemma shown_entry:
  assumes "shown m" "(u, x) \<in> set m"
  obtains kvs where "x = JObj kvs" "distinct (map fst kvs)"
proof -
  have "entries_of x \<noteq> None" using assms by (auto simp: shown_def list_all_iff)
  then obtain kvs where x: "x = JObj kvs" by (cases x) auto
  have "json_ok (JObj m)" using assms(1) by (simp only: shown_def)
  then have "json_ok x" using assms(2) by fastforce
  then show thesis using that [of kvs] obj_ok_distinct [of kvs] unfolding x by simp
qed

lemma entries_inner:
  assumes "shown m"
  shows "(u, k, v) \<in> set (rule_entries m) \<longleftrightarrow> inner_at m u k = Some v"
proof
  have d: "distinct (map fst m)" using assms obj_ok_distinct [of m] by (simp add: shown_def)
  assume e: "(u, k, v) \<in> set (rule_entries m)"
  from rule_entry_from [OF e] obtain x where x: "(u, x) \<in> set m"
    "(u, k, v) \<in> set (case x of JObj kvs \<Rightarrow> map (Pair u) kvs | JArr xs \<Rightarrow> map (Pair u) (the (object_entries x)) | _ \<Rightarrow> [])"
    unfolding fst_conv .
  obtain kvs where kvs: "x = JObj kvs" "distinct (map fst kvs)" using shown_entry [OF assms x(1)] .
  have "map_of m u = Some (JObj kvs)" using x(1) d unfolding kvs(1) by (rule map_of_is_SomeI [rotated])
  moreover have "map_of kvs k = Some v" using x(2) kvs by (simp add: image_iff)
  ultimately show "inner_at m u k = Some v" by (simp add: inner_at_def obj_get_def)
next
  assume "inner_at m u k = Some v"
  then obtain kvs where kvs: "map_of m u = Some (JObj kvs)" "map_of kvs k = Some v"
    by (auto simp: inner_at_def obj_get_def split: option.splits json.splits)
  show "(u, k, v) \<in> set (rule_entries m)"
    unfolding rule_entries_def set_concat set_map
    by (rule UN_I, rule imageI, rule map_of_SomeD [OF kvs(1)]) (simp add: map_of_SomeD [OF kvs(2)])
qed

lemma entries_distinct:
  assumes "shown m"
  shows "distinct (map (\<lambda>(u, k, v). (u, k)) (rule_entries m))"
proof -
  have "distinct (map fst m') \<Longrightarrow> set m' \<subseteq> set m \<Longrightarrow> distinct (map (\<lambda>(u, k, v). (u, k)) (rule_entries m'))" for m'
  proof (induction m')
    case (Cons p m')
    have "(fst p, snd p) \<in> set m" using Cons.prems(2) by simp
    from shown_entry [OF assms this] obtain kvs where kvs: "snd p = JObj kvs" "distinct (map fst kvs)" .
    have own: "rule_entries (p # m') = map (Pair (fst p)) kvs @ rule_entries m'" using kvs(1) by (cases p) (simp add: rule_entries_def)
    have "(fst p, e) \<notin> set (rule_entries m')" for e
    proof
      assume e: "(fst p, e) \<in> set (rule_entries m')"
      from rule_entry_from [OF e] obtain x where x: "(fst p, x) \<in> set m'" unfolding fst_conv .
      show False using Cons.prems(1) imageI [OF x, of fst] by simp
    qed
    moreover have "distinct (map (\<lambda>(u, k, v). (u, k)) (map (Pair (fst p)) kvs))"
      using kvs(2) by (simp add: comp_def case_prod_unfold distinct_map inj_on_def)
    ultimately show ?case unfolding own using Cons by (auto simp: image_iff)
  qed (simp add: rule_entries_def)
  then show ?thesis using assms obj_ok_distinct [of m] by (simp add: shown_def)
qed

lemma find_distinct:
  assumes "distinct (map (\<lambda>r. (f r, g r)) rules)"
  shows "(\<exists>r. List.find (\<lambda>r. f r = u \<and> g r = k) rules = Some r \<and> P r) \<longleftrightarrow> (\<exists>r \<in> set rules. f r = u \<and> g r = k \<and> P r)"
  using assms
proof (induction rules)
  case (Cons r rules)
  then show ?case by (cases "f r = u \<and> g r = k") (auto simp: image_iff)
qed simp

text \<open>The entries of the saved rules are exactly the rules.\<close>

lemma saved_entries:
  assumes "list_all target_ok rules" "distinct (map (\<lambda>r. (ru_userGroup r, raw_key r)) rules)"
  shows "mset (rule_entries (nestRules rules)) = mset (map (\<lambda>r. (ru_userGroup r, raw_key r, JStr (ru_description r))) rules)"
proof -
  note inner = nest_inner [OF shown_empty assms, folded nestRules_def]
  let ?es = "rule_entries (nestRules rules)" and ?of = "\<lambda>r. (ru_userGroup r, raw_key r, JStr (ru_description r))"
  have "(u, k, v) \<in> set ?es \<longleftrightarrow> (\<exists>r. List.find (\<lambda>r. ru_userGroup r = u \<and> raw_key r = k) rules = Some r \<and> v = JStr (ru_description r))" for u k v
    unfolding entries_inner [OF conjunct1 [OF inner]] conjunct2 [OF inner]
    by (auto simp: inner_at_def obj_get_def split: option.splits)
  then have "set ?es = set (map ?of rules)"
    unfolding find_distinct [OF assms(2)] by auto
  moreover have "distinct ?es" using entries_distinct [OF conjunct1 [OF inner]] distinct_map by blast
  moreover have "distinct (map ?of rules)" using assms(2) by (auto simp: distinct_map inj_on_def)
  ultimately show ?thesis using set_eq_iff_mset_eq_distinct by blast
qed

lemma read_again:
  "map strip_rule (map (\<lambda>(i, u, e). read_rule (n + i + 1) u e) (zip [0..<length es] es)) = map (\<lambda>(u, e). read_rule 0 u e) es"
  by (rule nth_equalityI) (auto simp: read_rule_def strip_rule_def Let_def split: prod.splits)

lemma parse_saved_rules:
  assumes "shown (nestRules rules)"
  shows "safeParseJson (serializeRules rules) = JObj (nestRules rules)"
proof (cases "nestRules rules = []")
  case True
  have "safeParseJson ''{}'' = JObj []" by code_simp
  then show ?thesis using True by (simp add: serializeRules_def)
next
  case False
  have ok: "json_ok (JObj (nestRules rules))" using assms by (simp only: shown_def)
  show ?thesis
    using False pretty.parse_print [OF ok] pretty.print_trim [OF ok] pretty.print_not_empty [OF ok]
    by (simp add: safeParseJson_def serializeRules_def)
qed

text \<open>
  Saving the special rules and opening the editor again shows the same rules.
\<close>

theorem rules_reopen:
  assumes "list_all target_ok (re_rules st)" "distinct (map (\<lambda>r. (ru_userGroup r, raw_key r)) (re_rules st))"
    "re_value st = serializeRules (re_rules st)"
  shows "\<exists>st'. open_rules n (re_value st) = Some st' \<and>
    mset (map strip_rule (re_rules st')) = mset (map strip_rule (re_rules st)) \<and> re_value st' = re_value st"
proof -
  let ?es = "rule_entries (nestRules (re_rules st))"
  have "shown (nestRules (re_rules st))" using nest_inner [OF shown_empty assms(1,2)] by (simp add: nestRules_def)
  note parsed = parse_saved_rules [OF this]
  have "mset (map (\<lambda>(u, e). read_rule 0 u e) ?es) = mset (map strip_rule (re_rules st))"
    unfolding mset_map saved_entries [OF assms(1,2)] image_mset.compositionality
    by (rule image_mset_cong) (use assms(1) in \<open>auto simp: list_all_iff read_rule_key\<close>)
  then have rows: "mset (map strip_rule (map (\<lambda>(i, u, e). read_rule (n + i + 1) u e) (zip [0..<length ?es] ?es))) = mset (map strip_rule (re_rules st))"
    unfolding read_again .
  show ?thesis
    unfolding assms(3) open_rules_def parsed flattenRules_def object_entries.simps option.case Let_def prod.case
    by (intro exI conjI, rule refl) (simp_all only: rules_editor.simps rows)
qed

definition some_rules :: rules_editor where
  "some_rules = emitChange
     [\<lparr>ru_id = 1, ru_userGroup = ''vip'', ru_op = OpAdd, ru_targetGroup = ''gold'', ru_description = ''new''\<rparr>,
      \<lparr>ru_id = 2, ru_userGroup = ''std'', ru_op = OpRemove, ru_targetGroup = ''gold'', ru_description = ''remove''\<rparr>,
      \<lparr>ru_id = 3, ru_userGroup = ''vip'', ru_op = OpAppend, ru_targetGroup = ''gold'', ru_description = []\<rparr>]
     \<lparr>re_rules = [], re_counter = 3, re_newGroup = [], re_value = []\<rparr>"

lemma rules_reopen_witness:
  "\<exists>st'. open_rules 3 (re_value some_rules) = Some st' \<and>
    mset (map strip_rule (re_rules st')) = mset (map strip_rule (re_rules some_rules)) \<and> re_value st' = re_value some_rules"
  by (rule rules_reopen)
    (simp_all add: some_rules_def emitChange_def target_ok_def raw_key_def toRawKey_def)

end
