(* ===== verification/RatioSettings.thy ===== *)
theory RatioSettings
  imports GroupRules
begin

text \<open>
  The card of the ratio settings (features/system-settings/models/ratio-settings-card.tsx) with the
  helpers of utils.ts: every setting is a JSON text, shown with indentation, checked by the schema and
  sent in its compact form when that has changed. The text of a syntax error comes from the exception
  of the engine; it is the parameter \<open>syntax_error\<close>, a function of the text. The server is the
  parameter \<open>ok\<close>, which says of a request whether its promise resolves; it also resolves when the server
  answers \<open>success: false\<close> (use-update-option.ts then only shows the message), so \<open>ok\<close> fails where the
  request itself fails, not where a setting is refused.
\<close>

definition formatJsonForTextarea :: "string \<Rightarrow> string" where
  "formatJsonForTextarea value = (if js_trim value = [] then []
     else case json_parse value of Some v \<Rightarrow> json_pretty v | None \<Rightarrow> value)"

definition normalizeJsonString :: "string \<Rightarrow> string" where
  "normalizeJsonString value = (let trimmed = js_trim value
     in if trimmed = [] then [] else case json_parse trimmed of Some v \<Rightarrow> json_stringify v | None \<Rightarrow> trimmed)"

record JsonValidationOptions =
  vo_allowEmpty :: bool
  vo_predicate :: "(json \<Rightarrow> bool) option"
  vo_predicateMessage :: "string option"

definition default_options :: JsonValidationOptions where
  "default_options = \<lparr>vo_allowEmpty = True, vo_predicate = None, vo_predicateMessage = None\<rparr>"

definition validateJsonString :: "(string \<Rightarrow> string) \<Rightarrow> string \<Rightarrow> JsonValidationOptions \<Rightarrow> bool \<times> string option" where
  "validateJsonString syntax_error value opts = (let trimmed = js_trim value
     in if trimmed = [] then (vo_allowEmpty opts, if vo_allowEmpty opts then None else Some ''Value is required'')
        else case json_parse trimmed of
          Some parsed \<Rightarrow>
            (case vo_predicate opts of
               Some p \<Rightarrow> if p parsed then (True, None)
                 else (False, Some (case vo_predicateMessage opts of Some m \<Rightarrow> if m \<noteq> [] then m else ''JSON structure is invalid''
                                                                    | None \<Rightarrow> ''JSON structure is invalid''))
             | None \<Rightarrow> (True, None))
        | None \<Rightarrow> (False, Some (syntax_error trimmed)))"

section \<open>The two forms\<close>

record ModelFormValues =
  mf_ModelPrice :: string
  mf_ModelRatio :: string
  mf_CacheRatio :: string
  mf_CreateCacheRatio :: string
  mf_CompletionRatio :: string
  mf_ImageRatio :: string
  mf_AudioRatio :: string
  mf_AudioCompletionRatio :: string
  mf_ExposeRatioEnabled :: bool
  mf_BillingMode :: string
  mf_BillingExpr :: string

record GroupFormValues =
  gf_GroupRatio :: string
  gf_TopupGroupRatio :: string
  gf_UserUsableGroups :: string
  gf_GroupGroupRatio :: string
  gf_AutoGroups :: string
  gf_DefaultUseAutoGroup :: bool
  gf_GroupSpecialUsableGroup :: string

definition field_issue :: "(string \<Rightarrow> string) \<Rightarrow> JsonValidationOptions \<Rightarrow> string \<Rightarrow> string \<times> string \<Rightarrow> (string \<times> string) list" where
  "field_issue syntax_error opts otherwise = (\<lambda>(key, value).
     case validateJsonString syntax_error value opts of (valid, message) \<Rightarrow>
       if valid then [] else [(key, case message of Some m \<Rightarrow> if m \<noteq> [] then m else otherwise | None \<Rightarrow> otherwise)])"

definition modelSchema :: "(string \<Rightarrow> string) \<Rightarrow> ModelFormValues \<Rightarrow> (string \<times> string) list" where
  "modelSchema syntax_error f = concat (map (field_issue syntax_error default_options ''Invalid JSON'')
     [(''ModelPrice'', mf_ModelPrice f), (''ModelRatio'', mf_ModelRatio f), (''CacheRatio'', mf_CacheRatio f),
      (''CreateCacheRatio'', mf_CreateCacheRatio f), (''CompletionRatio'', mf_CompletionRatio f), (''ImageRatio'', mf_ImageRatio f),
      (''AudioRatio'', mf_AudioRatio f), (''AudioCompletionRatio'', mf_AudioCompletionRatio f),
      (''BillingMode'', mf_BillingMode f), (''BillingExpr'', mf_BillingExpr f)])"

definition string_array :: "json \<Rightarrow> bool" where
  "string_array parsed = (case parsed of JArr xs \<Rightarrow> list_all (\<lambda>item. is_string (Some item)) xs | _ \<Rightarrow> False)"

definition auto_options :: JsonValidationOptions where
  "auto_options = \<lparr>vo_allowEmpty = True, vo_predicate = Some string_array,
     vo_predicateMessage = Some ''Expected a JSON array of group identifiers''\<rparr>"

definition groupSchema :: "(string \<Rightarrow> string) \<Rightarrow> GroupFormValues \<Rightarrow> (string \<times> string) list" where
  "groupSchema syntax_error f =
     concat (map (field_issue syntax_error default_options ''Invalid JSON'')
       [(''GroupRatio'', gf_GroupRatio f), (''TopupGroupRatio'', gf_TopupGroupRatio f),
        (''UserUsableGroups'', gf_UserUsableGroups f), (''GroupGroupRatio'', gf_GroupGroupRatio f)]) @
     field_issue syntax_error auto_options ''Invalid JSON array'' (''AutoGroups'', gf_AutoGroups f) @
     field_issue syntax_error default_options ''Invalid JSON'' (''GroupSpecialUsableGroup'', gf_GroupSpecialUsableGroup f)"

text \<open>What is compared and sent: the fields in the order of the code.\<close>

definition normalize_model :: "ModelFormValues \<Rightarrow> (string \<times> json) list" where
  "normalize_model f =
     [(''ModelPrice'', JStr (normalizeJsonString (mf_ModelPrice f))), (''ModelRatio'', JStr (normalizeJsonString (mf_ModelRatio f))),
      (''CacheRatio'', JStr (normalizeJsonString (mf_CacheRatio f))), (''CreateCacheRatio'', JStr (normalizeJsonString (mf_CreateCacheRatio f))),
      (''CompletionRatio'', JStr (normalizeJsonString (mf_CompletionRatio f))), (''ImageRatio'', JStr (normalizeJsonString (mf_ImageRatio f))),
      (''AudioRatio'', JStr (normalizeJsonString (mf_AudioRatio f))),
      (''AudioCompletionRatio'', JStr (normalizeJsonString (mf_AudioCompletionRatio f))),
      (''ExposeRatioEnabled'', JBool (mf_ExposeRatioEnabled f)),
      (''BillingMode'', JStr (normalizeJsonString (mf_BillingMode f))), (''BillingExpr'', JStr (normalizeJsonString (mf_BillingExpr f)))]"

definition normalize_group :: "GroupFormValues \<Rightarrow> (string \<times> json) list" where
  "normalize_group f =
     [(''GroupRatio'', JStr (normalizeJsonString (gf_GroupRatio f))), (''TopupGroupRatio'', JStr (normalizeJsonString (gf_TopupGroupRatio f))),
      (''UserUsableGroups'', JStr (normalizeJsonString (gf_UserUsableGroups f))),
      (''GroupGroupRatio'', JStr (normalizeJsonString (gf_GroupGroupRatio f))), (''AutoGroups'', JStr (normalizeJsonString (gf_AutoGroups f))),
      (''DefaultUseAutoGroup'', JBool (gf_DefaultUseAutoGroup f)),
      (''GroupSpecialUsableGroup'', JStr (normalizeJsonString (gf_GroupSpecialUsableGroup f)))]"

definition format_model :: "ModelFormValues \<Rightarrow> ModelFormValues" where
  "format_model f = f\<lparr>mf_ModelPrice := formatJsonForTextarea (mf_ModelPrice f), mf_ModelRatio := formatJsonForTextarea (mf_ModelRatio f),
     mf_CacheRatio := formatJsonForTextarea (mf_CacheRatio f), mf_CreateCacheRatio := formatJsonForTextarea (mf_CreateCacheRatio f),
     mf_CompletionRatio := formatJsonForTextarea (mf_CompletionRatio f), mf_ImageRatio := formatJsonForTextarea (mf_ImageRatio f),
     mf_AudioRatio := formatJsonForTextarea (mf_AudioRatio f), mf_AudioCompletionRatio := formatJsonForTextarea (mf_AudioCompletionRatio f),
     mf_BillingMode := formatJsonForTextarea (mf_BillingMode f), mf_BillingExpr := formatJsonForTextarea (mf_BillingExpr f)\<rparr>"

definition format_group :: "GroupFormValues \<Rightarrow> GroupFormValues" where
  "format_group f = f\<lparr>gf_GroupRatio := formatJsonForTextarea (gf_GroupRatio f), gf_TopupGroupRatio := formatJsonForTextarea (gf_TopupGroupRatio f),
     gf_UserUsableGroups := formatJsonForTextarea (gf_UserUsableGroups f), gf_GroupGroupRatio := formatJsonForTextarea (gf_GroupGroupRatio f),
     gf_AutoGroups := formatJsonForTextarea (gf_AutoGroups f), gf_GroupSpecialUsableGroup := formatJsonForTextarea (gf_GroupSpecialUsableGroup f)\<rparr>"

section \<open>The card\<close>

record ratio_card =
  rc_modelDefaults :: "(string \<times> json) list"
  rc_groupDefaults :: "(string \<times> json) list"
  rc_modelForm :: ModelFormValues
  rc_groupForm :: GroupFormValues
  rc_confirmOpen :: bool

definition open_card :: "ModelFormValues \<Rightarrow> GroupFormValues \<Rightarrow> ratio_card" where
  "open_card modelDefaults groupDefaults =
     \<lparr>rc_modelDefaults = normalize_model modelDefaults, rc_groupDefaults = normalize_group groupDefaults,
      rc_modelForm = format_model modelDefaults, rc_groupForm = format_group groupDefaults, rc_confirmOpen = False\<rparr>"

text \<open>The effects that follow the stored settings.\<close>

definition model_defaults_arrive :: "ModelFormValues \<Rightarrow> ratio_card \<Rightarrow> ratio_card" where
  "model_defaults_arrive modelDefaults st = st\<lparr>rc_modelDefaults := normalize_model modelDefaults, rc_modelForm := format_model modelDefaults\<rparr>"

definition group_defaults_arrive :: "GroupFormValues \<Rightarrow> ratio_card \<Rightarrow> ratio_card" where
  "group_defaults_arrive groupDefaults st = st\<lparr>rc_groupDefaults := normalize_group groupDefaults, rc_groupForm := format_group groupDefaults\<rparr>"

definition updates :: "(string \<times> json) list \<Rightarrow> (string \<times> json) list \<Rightarrow> (string \<times> json) list" where
  "updates defaults normalized = filter (\<lambda>(key, v). obj_get key defaults \<noteq> Some v) normalized"

definition model_api_key :: "string \<Rightarrow> string" where
  "model_api_key key = (if key = ''BillingMode'' then ''billing_setting.billing_mode''
     else if key = ''BillingExpr'' then ''billing_setting.billing_expr'' else key)"

definition group_api_key :: "string \<Rightarrow> string" where
  "group_api_key key = (if key = ''GroupSpecialUsableGroup'' then ''group_ratio_setting.group_special_usable_group'' else key)"

text \<open>One request after the other; the first whose promise is rejected ends the loop.\<close>

fun send_all :: "(string \<times> json \<Rightarrow> bool) \<Rightarrow> (string \<times> json) list \<Rightarrow> (string \<times> json) list" where
  "send_all ok [] = []"
| "send_all ok (r # rs) = r # (if ok r then send_all ok rs else [])"

datatype save_outcome = NoChanges | Sent "(string \<times> json) list"

definition saveModelRatios :: "(string \<times> json \<Rightarrow> bool) \<Rightarrow> ModelFormValues \<Rightarrow> ratio_card \<Rightarrow> save_outcome" where
  "saveModelRatios ok values st = (let us = updates (rc_modelDefaults st) (normalize_model values)
     in if us = [] then NoChanges else Sent (send_all ok (map (\<lambda>(key, v). (model_api_key key, v)) us)))"

definition saveGroupRatios :: "(string \<times> json \<Rightarrow> bool) \<Rightarrow> GroupFormValues \<Rightarrow> ratio_card \<Rightarrow> (string \<times> json) list" where
  "saveGroupRatios ok values st =
     send_all ok (map (\<lambda>(key, v). (group_api_key key, v)) (updates (rc_groupDefaults st) (normalize_group values)))"

text \<open>The save buttons: the form library saves when the schema has nothing to report.\<close>

definition submit_models :: "(string \<Rightarrow> string) \<Rightarrow> (string \<times> json \<Rightarrow> bool) \<Rightarrow> ratio_card \<Rightarrow> (string \<times> string) list + save_outcome" where
  "submit_models syntax_error ok st = (let issues = modelSchema syntax_error (rc_modelForm st)
     in if issues \<noteq> [] then Inl issues else Inr (saveModelRatios ok (rc_modelForm st) st))"

definition submit_groups :: "(string \<Rightarrow> string) \<Rightarrow> (string \<times> json \<Rightarrow> bool) \<Rightarrow> ratio_card \<Rightarrow> (string \<times> string) list + (string \<times> json) list" where
  "submit_groups syntax_error ok st = (let issues = groupSchema syntax_error (rc_groupForm st)
     in if issues \<noteq> [] then Inl issues else Inr (saveGroupRatios ok (rc_groupForm st) st))"

definition handleResetRatios :: "ratio_card \<Rightarrow> ratio_card" where
  "handleResetRatios st = st\<lparr>rc_confirmOpen := True\<rparr>"

end
