(* ===== verification/RatioSettingsFacts.thy ===== *)
theory RatioSettingsFacts
  imports RatioSettings
begin

text \<open>
  Facts about the ratio settings: what a save sends, in terms of the JSON values of the texts; and that
  the visual editors of the groups only write texts the schema accepts.
\<close>

section \<open>Texts and their values\<close>

definition json_meaning :: "string \<Rightarrow> json option" where
  "json_meaning value = (if js_trim value = [] then None else json_parse (js_trim value))"

definition valid_text :: "string \<Rightarrow> bool" where
  "valid_text value \<longleftrightarrow> js_trim value = [] \<or> json_meaning value \<noteq> None"

lemma validate_default: "fst (validateJsonString e value default_options) \<longleftrightarrow> valid_text value"
  by (simp add: validateJsonString_def default_options_def valid_text_def json_meaning_def Let_def split: option.splits)

definition valid_auto :: "string \<Rightarrow> bool" where
  "valid_auto value \<longleftrightarrow> js_trim value = [] \<or> (\<exists>xs. json_meaning value = Some (JArr xs) \<and> list_all (\<lambda>x. is_string (Some x)) xs)"

lemma validate_auto: "fst (validateJsonString e value auto_options) \<longleftrightarrow> valid_auto value"
  by (auto simp: validateJsonString_def auto_options_def string_array_def valid_auto_def json_meaning_def Let_def split: option.splits json.splits)

lemma field_issue_Nil: "field_issue e opts d (key, value) = [] \<longleftrightarrow> fst (validateJsonString e value opts)"
  by (simp add: field_issue_def split: prod.splits)

lemma groupSchema_Nil:
  "groupSchema e f = [] \<longleftrightarrow> valid_text (gf_GroupRatio f) \<and> valid_text (gf_TopupGroupRatio f) \<and> valid_text (gf_UserUsableGroups f) \<and>
     valid_text (gf_GroupGroupRatio f) \<and> valid_auto (gf_AutoGroups f) \<and> valid_text (gf_GroupSpecialUsableGroup f)"
  by (simp add: groupSchema_def field_issue_Nil validate_default validate_auto)

lemma modelSchema_Nil:
  "modelSchema e f = [] \<longleftrightarrow> valid_text (mf_ModelPrice f) \<and> valid_text (mf_ModelRatio f) \<and> valid_text (mf_CacheRatio f) \<and>
     valid_text (mf_CreateCacheRatio f) \<and> valid_text (mf_CompletionRatio f) \<and> valid_text (mf_ImageRatio f) \<and> valid_text (mf_AudioRatio f) \<and>
     valid_text (mf_AudioCompletionRatio f) \<and> valid_text (mf_BillingMode f) \<and> valid_text (mf_BillingExpr f)"
  by (simp add: modelSchema_def field_issue_Nil validate_default)

lemma pretty_meaning: "json_ok v \<Longrightarrow> json_meaning (json_pretty v) = Some v"
  using pretty.parse_trim_print [of v] pretty.print_trim [of v] pretty.print_not_empty [of v] by (simp add: json_meaning_def)

lemma normalize_valid:
  assumes "valid_text v"
  shows "normalizeJsonString v = (case json_meaning v of None \<Rightarrow> [] | Some x \<Rightarrow> json_stringify x)"
  using assms by (auto simp: normalizeJsonString_def valid_text_def json_meaning_def Let_def)

lemma meaning_ok: "json_meaning v = Some x \<Longrightarrow> json_ok x"
  using json_parse_ok by (auto simp: json_meaning_def split: if_splits)

lemma normalize_inj:
  assumes "valid_text a" "valid_text b"
  shows "normalizeJsonString a = normalizeJsonString b \<longleftrightarrow> json_meaning a = json_meaning b"
proof -
  have ne: "[] \<noteq> json_stringify x" "json_stringify x \<noteq> []" if "json_ok x" for x using compact.print_not_empty [OF that] by auto
  show ?thesis
    using meaning_ok [of a] meaning_ok [of b] compact.print_inj ne
    by (auto simp: normalize_valid [OF assms(1)] normalize_valid [OF assms(2)] split: option.splits)
qed

lemma normalize_format: "js_trim v = v \<Longrightarrow> normalizeJsonString (formatJsonForTextarea v) = normalizeJsonString v"
proof (cases "json_parse v")
  case (Some x)
  assume v: "js_trim v = v"
  have ne: "v \<noteq> []" using Some by auto
  have ok: "json_ok x" using Some by (rule json_parse_ok)
  show ?thesis
    using v ne Some pretty.parse_print [OF ok] pretty.print_trim [OF ok] pretty.print_not_empty [OF ok]
    by (simp add: formatJsonForTextarea_def normalizeJsonString_def)
qed (auto simp: formatJsonForTextarea_def)

section \<open>What a save sends\<close>

lemma send_all_ok: "\<forall>r \<in> set rs. ok r \<Longrightarrow> send_all ok rs = rs"
  by (induction rs) auto

text \<open>Two readings of a form, as lists over the same keys.\<close>

lemma updates_same: "updates kvs kvs = [] \<longleftrightarrow> (\<forall>(k, v) \<in> set kvs. obj_get k kvs = Some v)"
  by (auto simp: updates_def filter_empty_conv)

lemma updates_distinct: "distinct (map fst kvs) \<Longrightarrow> updates kvs kvs = []"
  by (auto simp: updates_same obj_get_def)

text \<open>The fields of the forms that hold texts.\<close>

definition model_texts :: "ModelFormValues \<Rightarrow> (string \<times> string) list" where
  "model_texts f =
     [(''ModelPrice'', mf_ModelPrice f), (''ModelRatio'', mf_ModelRatio f), (''CacheRatio'', mf_CacheRatio f),
      (''CreateCacheRatio'', mf_CreateCacheRatio f), (''CompletionRatio'', mf_CompletionRatio f), (''ImageRatio'', mf_ImageRatio f),
      (''AudioRatio'', mf_AudioRatio f), (''AudioCompletionRatio'', mf_AudioCompletionRatio f),
      (''BillingMode'', mf_BillingMode f), (''BillingExpr'', mf_BillingExpr f)]"

definition group_texts :: "GroupFormValues \<Rightarrow> (string \<times> string) list" where
  "group_texts f =
     [(''GroupRatio'', gf_GroupRatio f), (''TopupGroupRatio'', gf_TopupGroupRatio f), (''UserUsableGroups'', gf_UserUsableGroups f),
      (''GroupGroupRatio'', gf_GroupGroupRatio f), (''AutoGroups'', gf_AutoGroups f), (''GroupSpecialUsableGroup'', gf_GroupSpecialUsableGroup f)]"

definition trimmed :: "(string \<times> string) list \<Rightarrow> bool" where
  "trimmed texts \<longleftrightarrow> list_all (\<lambda>(_, v). js_trim v = v) texts"

lemma form_keys: "distinct (map fst (normalize_model f))" "distinct (map fst (normalize_group g))"
  by (simp_all add: normalize_model_def normalize_group_def)

lemma format_keeps:
  "trimmed (model_texts f) \<Longrightarrow> normalize_model (format_model f) = normalize_model f"
  "trimmed (group_texts g) \<Longrightarrow> normalize_group (format_group g) = normalize_group g"
  by (simp_all add: trimmed_def model_texts_def group_texts_def normalize_model_def normalize_group_def
      format_model_def format_group_def normalize_format)

text \<open>
  Saving what was opened sends nothing. The texts are compared in their compact form, so that the
  indentation the card puts in makes no difference.
\<close>
theorem unchanged_settings_send_nothing:
  assumes "trimmed (model_texts f)" "trimmed (group_texts g)"
  shows "saveModelRatios ok (rc_modelForm (open_card f g)) (open_card f g) = NoChanges \<and>
    saveGroupRatios ok (rc_groupForm (open_card f g)) (open_card f g) = []"
  by (simp add: saveModelRatios_def saveGroupRatios_def open_card_def format_keeps(1) [OF assms(1)] format_keeps(2) [OF assms(2)]
      updates_distinct form_keys)

definition empty_model_form :: ModelFormValues where
  "empty_model_form = \<lparr>mf_ModelPrice = [], mf_ModelRatio = [], mf_CacheRatio = [], mf_CreateCacheRatio = [], mf_CompletionRatio = [],
     mf_ImageRatio = [], mf_AudioRatio = [], mf_AudioCompletionRatio = [], mf_ExposeRatioEnabled = False, mf_BillingMode = [], mf_BillingExpr = []\<rparr>"

definition empty_group_form :: GroupFormValues where
  "empty_group_form = \<lparr>gf_GroupRatio = [], gf_TopupGroupRatio = [], gf_UserUsableGroups = [], gf_GroupGroupRatio = [], gf_AutoGroups = [],
     gf_DefaultUseAutoGroup = False, gf_GroupSpecialUsableGroup = []\<rparr>"

lemma unchanged_settings_send_nothing_witness:
  "saveModelRatios (\<lambda>_. True) (rc_modelForm (open_card (empty_model_form\<lparr>mf_ModelRatio := ''[1]''\<rparr>) empty_group_form))
     (open_card (empty_model_form\<lparr>mf_ModelRatio := ''[1]''\<rparr>) empty_group_form) = NoChanges"
proof -
  have "js_trim ''[1]'' = ''[1]''" by code_simp
  then have "trimmed (model_texts (empty_model_form\<lparr>mf_ModelRatio := ''[1]''\<rparr>))" by (simp add: trimmed_def model_texts_def empty_model_form_def)
  moreover have "trimmed (group_texts empty_group_form)" by (simp add: trimmed_def group_texts_def empty_group_form_def)
  ultimately show ?thesis using unchanged_settings_send_nothing by blast
qed

definition model_changed :: "ModelFormValues \<Rightarrow> ModelFormValues \<Rightarrow> string set" where
  "model_changed f g = {k. \<exists>v w. (k, v) \<in> set (model_texts f) \<and> (k, w) \<in> set (model_texts g) \<and> json_meaning v \<noteq> json_meaning w} \<union>
     (if mf_ExposeRatioEnabled f = mf_ExposeRatioEnabled g then {} else {''ExposeRatioEnabled''})"

lemma model_get:
  "obj_get k (normalize_model f) = (if k = ''ExposeRatioEnabled'' then Some (JBool (mf_ExposeRatioEnabled f))
     else map_option (\<lambda>v. JStr (normalizeJsonString v)) (map_of (model_texts f) k))"
  by (simp add: obj_get_def normalize_model_def model_texts_def)

lemma model_texts_keys: "distinct (map fst (model_texts f))" "map fst (model_texts f) = map fst (model_texts g)"
  "''ExposeRatioEnabled'' \<notin> fst ` set (model_texts f)"
  by (simp_all add: model_texts_def)

lemma model_texts_valid: "modelSchema e f = [] \<longleftrightarrow> (\<forall>(k, v) \<in> set (model_texts f). valid_text v)"
  by (auto simp: modelSchema_Nil model_texts_def)

lemma expose_no_text: "(''ExposeRatioEnabled'', v) \<notin> set (model_texts f)"
  by (simp add: model_texts_def)

lemma text_iff: "(k, v) \<in> set (model_texts f) \<longleftrightarrow> map_of (model_texts f) k = Some v"
  using model_texts_keys(1) by (simp add: map_of_eq_Some_iff)

lemma text_of_both: "map_of (model_texts f) k = None \<longleftrightarrow> map_of (model_texts g) k = None"
  using model_texts_keys(2) [of f g] by (metis list.set_map map_of_eq_None_iff)

lemma text_valid: "modelSchema e f = [] \<Longrightarrow> map_of (model_texts f) k = Some v \<Longrightarrow> valid_text v"
  unfolding model_texts_valid text_iff [symmetric] by blast

lemma model_differs:
  assumes "modelSchema e f = []" "modelSchema e g = []"
  shows "obj_get k (normalize_model g) \<noteq> None \<and> obj_get k (normalize_model f) \<noteq> obj_get k (normalize_model g) \<longleftrightarrow> k \<in> model_changed f g"
proof (cases "k = ''ExposeRatioEnabled''")
  case True
  then show ?thesis by (simp add: model_changed_def model_get expose_no_text)
next
  case False
  show ?thesis
  proof (cases "map_of (model_texts f) k")
    case None
    then show ?thesis using False text_of_both [of f k g] by (simp add: model_changed_def model_get text_iff)
  next
    case (Some v)
    then obtain w where w: "map_of (model_texts g) k = Some w" using text_of_both [of f k g] by auto
    show ?thesis
      using False Some w normalize_inj [OF text_valid [OF assms(1) Some] text_valid [OF assms(2) w]]
      by (simp add: model_changed_def model_get text_iff)
  qed
qed

lemma model_save_requests:
  "saveModelRatios ok g st = (let rs = map (\<lambda>(k, v). (model_api_key k, v)) (updates (rc_modelDefaults st) (normalize_model g))
     in if rs = [] then NoChanges else Sent (send_all ok rs))"
  by (simp add: saveModelRatios_def Let_def)

text \<open>The requests that store a form: the names the server knows, in the order of the fields, each with
  the compact text of the JSON value that was entered.\<close>

definition compact_text :: "string \<Rightarrow> json" where
  "compact_text v = JStr (case json_meaning v of None \<Rightarrow> [] | Some x \<Rightarrow> json_stringify x)"

definition model_requests :: "ModelFormValues \<Rightarrow> (string \<times> json) list" where
  "model_requests f =
     [(''ModelPrice'', compact_text (mf_ModelPrice f)), (''ModelRatio'', compact_text (mf_ModelRatio f)),
      (''CacheRatio'', compact_text (mf_CacheRatio f)), (''CreateCacheRatio'', compact_text (mf_CreateCacheRatio f)),
      (''CompletionRatio'', compact_text (mf_CompletionRatio f)), (''ImageRatio'', compact_text (mf_ImageRatio f)),
      (''AudioRatio'', compact_text (mf_AudioRatio f)), (''AudioCompletionRatio'', compact_text (mf_AudioCompletionRatio f)),
      (''ExposeRatioEnabled'', JBool (mf_ExposeRatioEnabled f)),
      (''billing_setting.billing_mode'', compact_text (mf_BillingMode f)),
      (''billing_setting.billing_expr'', compact_text (mf_BillingExpr f))]"

lemma requests_of_form:
  assumes "modelSchema e f = []"
  shows "map (\<lambda>(k, v). (model_api_key k, v)) (normalize_model f) = model_requests f"
  using assms by (simp add: modelSchema_Nil normalize_model_def normalize_valid model_requests_def compact_text_def model_api_key_def)

lemma form_updates:
  assumes "modelSchema e f = []" "modelSchema e g = []"
  shows "updates (normalize_model f) (normalize_model g) = filter (\<lambda>(k, v). k \<in> model_changed f g) (normalize_model g)"
  unfolding updates_def
proof (rule filter_cong [OF refl])
  fix r assume "r \<in> set (normalize_model g)"
  then have "obj_get (fst r) (normalize_model g) = Some (snd r)"
    using form_keys(1) [of g] by (simp add: obj_get_def)
  then show "(case r of (k, v) \<Rightarrow> obj_get k (normalize_model f) \<noteq> Some v) = (case r of (k, v) \<Rightarrow> k \<in> model_changed f g)"
    using model_differs [OF assms, of "fst r"] by (simp add: case_prod_unfold)
qed

lemma api_key_inj: "inj_on model_api_key (fst ` set (normalize_model g) \<union> model_changed f g)"
proof (rule inj_on_subset)
  show "inj_on model_api_key (- {''billing_setting.billing_mode'', ''billing_setting.billing_expr''})"
    by (auto simp: model_api_key_def inj_on_def)
  show "fst ` set (normalize_model g) \<union> model_changed f g \<subseteq> - {''billing_setting.billing_mode'', ''billing_setting.billing_expr''}"
    by (auto simp: normalize_model_def model_changed_def model_texts_def)
qed

lemma filter_requests:
  "map (\<lambda>(k, v). (model_api_key k, v)) (filter (\<lambda>(k, v). k \<in> model_changed f g) (normalize_model g)) =
    filter (\<lambda>(k, v). k \<in> model_api_key ` model_changed f g) (map (\<lambda>(k, v). (model_api_key k, v)) (normalize_model g))"
proof -
  have "fst r \<in> model_changed f g \<longleftrightarrow> model_api_key (fst r) \<in> model_api_key ` model_changed f g" if "r \<in> set (normalize_model g)" for r
    using inj_on_image_mem_iff [OF api_key_inj [of g f], of "fst r" "model_changed f g"] that by auto
  then show ?thesis by (auto simp: filter_map comp_def case_prod_unfold intro: arg_cong [OF filter_cong])
qed

lemma send_all_until: "send_all ok rs = takeWhile ok rs @ take 1 (dropWhile ok rs)"
  by (induction rs) simp_all

text \<open>
  C33: A save of the model prices sends a request for exactly the fields whose JSON value differs from the
  stored one, in the order of the fields, each under the name the server knows and with the compact
  text of the value that was entered. It stops after the first request whose promise is rejected; a
  setting that the server answers with \<open>success: false\<close> does not stop it.
\<close>
theorem changed_settings_sent:
  assumes "modelSchema e f = []" "modelSchema e g = []" "rc_modelDefaults st = normalize_model f"
  shows "let rs = filter (\<lambda>(key, value). key \<in> model_api_key ` model_changed f g) (model_requests g)
    in saveModelRatios ok g st = (if rs = [] then NoChanges else Sent (takeWhile ok rs @ take 1 (dropWhile ok rs)))"
proof -
  have "map (\<lambda>(k, v). (model_api_key k, v)) (updates (rc_modelDefaults st) (normalize_model g)) =
      filter (\<lambda>(key, value). key \<in> model_api_key ` model_changed f g) (model_requests g)"
    unfolding assms(3) form_updates [OF assms(1,2)] filter_requests requests_of_form [OF assms(2)] ..
  then show ?thesis unfolding model_save_requests Let_def send_all_until [symmetric] by simp
qed

lemma changed_settings_sent_witness:
  "saveModelRatios (\<lambda>_. True) (empty_model_form\<lparr>mf_BillingMode := '' { }''\<rparr>) (open_card empty_model_form empty_group_form) =
    Sent [(''billing_setting.billing_mode'', JStr ''{}'')]"
proof -
  let ?g = "empty_model_form\<lparr>mf_BillingMode := '' { }''\<rparr>"
  have m: "json_meaning '' { }'' = Some (JObj [])" "json_meaning [] = None" by code_simp+
  have a: "modelSchema (\<lambda>_. []) empty_model_form = []" "modelSchema (\<lambda>_. []) ?g = []"
    by (simp_all add: modelSchema_Nil empty_model_form_def valid_text_def m)
  have d: "rc_modelDefaults (open_card empty_model_form empty_group_form) = normalize_model empty_model_form" by (simp add: open_card_def)
  have n: "normalizeJsonString '' { }'' = ''{}''" "normalizeJsonString [] = []" "json_stringify (JObj []) = ''{}''" by code_simp+
  have "k \<in> model_changed empty_model_form ?g \<longleftrightarrow> k = ''BillingMode''" for k
    unfolding model_differs [OF a, symmetric] by (simp add: obj_get_def normalize_model_def empty_model_form_def n)
  then have c: "model_changed empty_model_form ?g = {''BillingMode''}" by blast
  show ?thesis
    using changed_settings_sent [OF a d, of "\<lambda>_. True"] unfolding c
    by (simp add: model_requests_def model_api_key_def compact_text_def empty_model_form_def m n)
qed

section \<open>The visual editors write valid texts\<close>

text \<open>The texts of the group form that the visual editors write, and the steps that write them.\<close>

inductive visual_step :: "group_editor \<times> string \<times> string \<Rightarrow> group_editor \<times> string \<times> string \<Rightarrow> bool" where
  table: "emitRows rows tb = Some tb' \<Longrightarrow> list_all row_ok rows \<Longrightarrow> visual_step (st, u, s) (st\<lparr>ge_groupRatio := pt_groupRatio tb'\<rparr>, pt_usable tb', s)"
| rules: "visual_step (st, u, s) (st, u, serializeRules rules)"
| simple_open: "visual_step (st, u, s) (handleSimpleEdit ty p st, u, s)"
| simple_new: "visual_step (st, u, s) (handleSimpleAdd ty st, u, s)"
| simple_save: "dialog_simple_save name value st = Some st' \<Longrightarrow> visual_step (st, u, s) (st', u, s)"
| simple_delete: "handleSimpleDelete ty name st = Some st' \<Longrightarrow> visual_step (st, u, s) (st', u, s)"
| auto_open: "visual_step (st, u, s) ((handleAutoGroupAdd st)\<lparr>ge_autoInput := t\<rparr>, u, s)"
| auto_save: "handleAutoGroupSave st = Some st' \<Longrightarrow> visual_step (st, u, s) (st', u, s)"
| auto_delete: "handleAutoGroupDelete i st = Some st' \<Longrightarrow> visual_step (st, u, s) (st', u, s)"
| auto_move: "autoGroupsList st = Some xs \<Longrightarrow> i < length xs \<Longrightarrow> handleAutoGroupMove i d st = Some st' \<Longrightarrow> visual_step (st, u, s) (st', u, s)"
| user_open: "visual_step (st, u, s) ((handleUserGroupAdd st)\<lparr>ge_userInput := t\<rparr>, u, s)"
| user_save: "handleUserGroupSave st = Some st' \<Longrightarrow> visual_step (st, u, s) (st', u, s)"
| user_delete: "handleUserGroupDelete g st = Some st' \<Longrightarrow> visual_step (st, u, s) (st', u, s)"
| override_new: "visual_step (st, u, s) (handleOverrideAdd g st, u, s)"
| override_open: "visual_step (st, u, s) (handleOverrideEdit g p st, u, s)"
| override_save: "dialog_override_save g r st = Some st' \<Longrightarrow> visual_step (st, u, s) (st', u, s)"
| override_delete: "handleOverrideDelete g h st = Some st' \<Longrightarrow> visual_step (st, u, s) (st', u, s)"

definition texts_valid :: "group_editor \<times> string \<times> string \<Rightarrow> bool" where
  "texts_valid = (\<lambda>(st, u, s). valid_text (ge_groupRatio st) \<and> valid_text (ge_topupGroupRatio st) \<and> valid_text (ge_groupGroupRatio st) \<and>
     valid_auto (ge_autoGroups st) \<and> valid_text u \<and> valid_text s)"

lemma pretty_valid: "json_ok v \<Longrightarrow> valid_text (json_pretty v)"
  by (simp add: valid_text_def pretty_meaning)

lemma fallback_ok: "entries_of (safeJsonParse t (JObj [])) = Some m \<Longrightarrow> json_ok (JObj m)"
  using entries_ok parse_ok json_ok_empty by blast

lemma num_ok: "json_ok (json_of_num (parse_float t))"
  by (simp add: parse_float_def Let_def dec_ok_scale_dec)

lemma simple_valid:
  assumes "texts_valid (st, u, s)"
  shows "dialog_simple_save name value st = Some st' \<Longrightarrow> texts_valid (st', u, s)"
    "handleSimpleDelete ty name st = Some st' \<Longrightarrow> texts_valid (st', u, s)"
proof -
  have written: "texts_valid (set_simple_text ty (json_pretty (JObj m)) st, u, s)" if "json_ok (JObj m)" for m ty
    using assms pretty_valid [OF that] by (cases ty) (simp_all add: texts_valid_def set_simple_text_def)
  have closed: "texts_valid (st0\<lparr>ge_simpleOpen := b\<rparr>, u, s) = texts_valid (st0, u, s)" for st0 b by (simp add: texts_valid_def)
  have kept: "json_ok (JObj (case ge_simpleEdit st of Some (old, _) \<Rightarrow> if old \<noteq> n then obj_delete old m else m | None \<Rightarrow> m))"
    if "json_ok (JObj m)" for m n
    by (cases "ge_simpleEdit st") (use that json_ok_delete [OF that] in \<open>auto simp del: json_ok.simps\<close>)
  have "handleSimpleSave n v st = Some st' \<Longrightarrow> texts_valid (st', u, s)" for n v
    unfolding handleSimpleSave_def Let_def
    using assms written [OF json_ok_set [OF kept num_ok]] fallback_ok by (auto simp: closed simp del: json_ok.simps split: option.splits)
  then show "dialog_simple_save name value st = Some st' \<Longrightarrow> texts_valid (st', u, s)"
    using assms by (auto simp: dialog_simple_save_def split: if_splits)
  show "handleSimpleDelete ty name st = Some st' \<Longrightarrow> texts_valid (st', u, s)"
    using written [OF json_ok_delete [OF fallback_ok]] by (auto simp: handleSimpleDelete_def split: option.splits)
qed

lemma string_item: "is_string (Some x) \<longleftrightarrow> (\<exists>t. x = JStr t)"
  by (cases x) (simp_all add: is_string_def)

definition auto_texts :: "json list \<Rightarrow> bool" where
  "auto_texts xs \<longleftrightarrow> (\<forall>x \<in> set xs. \<exists>t. x = JStr t)"

lemma auto_list_texts: "valid_auto (ge_autoGroups st) \<Longrightarrow> autoGroupsList st = Some xs \<Longrightarrow> auto_texts xs"
  by (auto simp: valid_auto_def json_meaning_def autoGroupsList_def safeJsonParse_def auto_texts_def list_all_iff string_item
      split: if_splits option.splits json.splits)

lemma auto_texts_valid: "auto_texts xs \<Longrightarrow> valid_auto (json_pretty (JArr xs))"
proof -
  assume xs: "auto_texts xs"
  then have "json_ok (JArr xs)" by (auto simp: auto_texts_def)
  then show ?thesis using xs by (auto simp: valid_auto_def pretty_meaning auto_texts_def list_all_iff string_item simp del: json_ok.simps)
qed

lemma auto_texts_add: "auto_texts (xs @ [JStr t]) \<longleftrightarrow> auto_texts xs"
  by (auto simp: auto_texts_def)

lemma auto_texts_sub: "auto_texts xs \<Longrightarrow> set ys \<subseteq> set xs \<Longrightarrow> auto_texts ys"
  by (auto simp: auto_texts_def)

lemma swap_sub: "i < length xs \<Longrightarrow> j < length xs \<Longrightarrow> set (xs[i := xs ! j, j := xs ! i]) \<subseteq> set xs"
  using set_update_subset_insert [of xs i "xs ! j"] set_update_subset_insert [of "xs[i := xs ! j]" j "xs ! i"] nth_mem by fastforce

lemma auto_valid:
  assumes "texts_valid (st, u, s)"
  shows "handleAutoGroupSave st = Some st' \<Longrightarrow> texts_valid (st', u, s)"
    "handleAutoGroupDelete i st = Some st' \<Longrightarrow> texts_valid (st', u, s)"
    "autoGroupsList st = Some xs \<Longrightarrow> i < length xs \<Longrightarrow> handleAutoGroupMove i d st = Some st' \<Longrightarrow> texts_valid (st', u, s)"
proof -
  have written: "texts_valid (st\<lparr>ge_autoGroups := json_pretty (JArr xs)\<rparr>, u, s)" if "auto_texts xs" for xs
    using assms auto_texts_valid [OF that] by (simp add: texts_valid_def)
  have l: "auto_texts xs" if "autoGroupsList st = Some xs" for xs using assms auto_list_texts [OF _ that] by (simp add: texts_valid_def)
  have closed: "texts_valid (st0\<lparr>ge_autoOpen := b\<rparr>, u, s) = texts_valid (st0, u, s)" for st0 b by (simp add: texts_valid_def)
  show "handleAutoGroupSave st = Some st' \<Longrightarrow> texts_valid (st', u, s)"
    using assms written l by (auto simp: handleAutoGroupSave_def closed auto_texts_add split: if_splits)
  have "set (remove_at i xs) \<subseteq> set xs" for xs :: "json list" by (auto simp: remove_at_def dest: set_zip_rightD)
  then show "handleAutoGroupDelete i st = Some st' \<Longrightarrow> texts_valid (st', u, s)"
    using l written auto_texts_sub by (auto simp: handleAutoGroupDelete_def)
  assume xs: "autoGroupsList st = Some xs" "i < length xs" "handleAutoGroupMove i d st = Some st'"
  have "texts_valid (st\<lparr>ge_autoGroups := json_pretty (JArr (xs[i := xs ! j, j := xs ! i]))\<rparr>, u, s)" if "j < length xs" for j
    by (rule written, rule auto_texts_sub [OF l [OF xs(1)] swap_sub]) (use xs(2) that in auto)
  moreover have "nat (case d of Up \<Rightarrow> int i - 1 | Down \<Rightarrow> int i + 1) < length xs" if "\<not> (case d of Up \<Rightarrow> int i - 1 | Down \<Rightarrow> int i + 1) \<ge> int (length xs)"
    using that xs(2) by (cases d) auto
  ultimately show "texts_valid (st', u, s)"
    using assms xs(1,3) by (auto simp: handleAutoGroupMove_def Let_def split: if_splits)
qed

lemma user_valid:
  assumes "texts_valid (st, u, s)"
  shows "handleUserGroupSave st = Some st' \<Longrightarrow> texts_valid (st', u, s)"
    "handleUserGroupDelete g st = Some st' \<Longrightarrow> texts_valid (st', u, s)"
    "handleOverrideSave h r old st = Some st' \<Longrightarrow> json_ok (json_of_num r) \<Longrightarrow> texts_valid (st', u, s)"
    "handleOverrideDelete g h st = Some st' \<Longrightarrow> texts_valid (st', u, s)"
proof -
  have written: "texts_valid (write_groups m st, u, s)" if "json_ok (JObj m)" for m
    using assms pretty_valid [OF that] by (simp add: texts_valid_def write_groups_def)
  have closed: "texts_valid (st0\<lparr>ge_userOpen := b\<rparr>, u, s) = texts_valid (st0, u, s)"
    "texts_valid (st0\<lparr>ge_overrideOpen := b\<rparr>, u, s) = texts_valid (st0, u, s)" for st0 b by (simp_all add: texts_valid_def)
  show "handleUserGroupSave st = Some st' \<Longrightarrow> texts_valid (st', u, s)"
    using assms written [OF group_map_ok] written [OF json_ok_set [OF group_map_ok json_ok_empty]]
    by (auto simp: handleUserGroupSave_def Let_def closed split: if_splits)
  show "handleUserGroupDelete g st = Some st' \<Longrightarrow> texts_valid (st', u, s)"
    using written [OF json_ok_delete [OF group_map_ok]] by (auto simp: handleUserGroupDelete_def)
  have inner_ok: "json_ok (JObj inner)" if m: "group_map st = Some m"
    and e: "entries_of (if js_truthy (obj_get k m) then the (obj_get k m) else JObj []) = Some inner" for m k inner
  proof (rule entries_ok [OF _ e])
    show "json_ok (if js_truthy (obj_get k m) then the (obj_get k m) else JObj [])"
      using json_ok_get [OF group_map_ok [OF m], of k] by (cases "obj_get k m") (auto simp: js_truthy_def)
  qed
  have inner1_ok: "json_ok (JObj (case old of Some k \<Rightarrow> if k \<noteq> [] \<and> k \<noteq> h then obj_delete k inner else inner | None \<Rightarrow> inner))"
    if "json_ok (JObj inner)" for inner
    using that json_ok_delete [OF that] by (cases old) (simp_all del: json_ok.simps)
  show "texts_valid (st', u, s)" if save: "handleOverrideSave h r old st = Some st'" and r: "json_ok (json_of_num r)"
  proof (cases "ge_overrideUser st")
    case (Some user)
    show ?thesis
    proof (cases "user = []")
      case False
      from save obtain m where m: "group_map st = Some m" using Some False by (cases "group_map st") (simp_all add: handleOverrideSave_def)
      from save obtain inner where inner: "entries_of (if js_truthy (obj_get user m) then the (obj_get user m) else JObj []) = Some inner"
        using Some False m by (cases "entries_of (if js_truthy (obj_get user m) then the (obj_get user m) else JObj [])") (simp_all add: handleOverrideSave_def)
      show ?thesis
        using save Some False m inner written [OF json_ok_set [OF group_map_ok [OF m] json_ok_set [OF inner1_ok [OF inner_ok [OF m inner]] r]]]
        by (auto simp: handleOverrideSave_def Let_def closed simp del: json_ok.simps)
    qed (use save Some assms in \<open>simp add: handleOverrideSave_def\<close>)
  qed (use save assms in \<open>simp add: handleOverrideSave_def\<close>)
  show "texts_valid (st', u, s)" if delete: "handleOverrideDelete g h st = Some st'"
  proof -
    from delete obtain m where m: "group_map st = Some m" by (cases "group_map st") (simp_all add: handleOverrideDelete_def)
    show ?thesis
    proof (cases "js_truthy (obj_get g m)")
      case True
      from delete obtain inner where inner: "entries_of (the (obj_get g m)) = Some inner"
        using m True by (cases "entries_of (the (obj_get g m))") (simp_all add: handleOverrideDelete_def)
      have "json_ok (JObj inner)" using inner_ok [OF m, of g inner] inner True by (simp del: json_ok.simps)
      from json_ok_delete [OF this, of h] show ?thesis
        using delete m True inner written [OF json_ok_delete [OF group_map_ok [OF m], of g]] written [OF json_ok_set [OF group_map_ok [OF m]], of _ g]
        by (auto simp: handleOverrideDelete_def Let_def simp del: json_ok.simps)
    qed (use delete m written [OF group_map_ok [OF m]] in \<open>simp add: handleOverrideDelete_def\<close>)
  qed
qed

lemma table_valid:
  assumes "emitRows rows tb = Some tb'" "list_all row_ok rows"
  shows "valid_text (pt_groupRatio tb') \<and> valid_text (pt_usable tb')"
proof -
  from group_objects_ok [OF assms(2)]
  have "json_ok (JObj (fst (group_objects rows)))" "json_ok (JObj (snd (group_objects rows)))" by simp_all
  then show ?thesis using assms(1) pretty_valid by (auto simp: emit_keeps serializeGroupPricingRows_def simp del: json_ok.simps)
qed

lemma nest_shown: "shown m \<Longrightarrow> shown (foldl nest_step m rules)"
  by (induction rules arbitrary: m) (simp_all add: nest_step_inner)

lemma rules_valid: "valid_text (serializeRules rules)"
proof -
  have ok: "json_ok (JObj (nestRules rules))" using nest_shown [OF shown_empty] by (simp only: shown_def nestRules_def)
  have "valid_text ''{}''" by code_simp
  then show ?thesis using pretty_valid [OF ok] by (simp add: serializeRules_def Let_def)
qed

lemma opened_valid:
  assumes "texts_valid (st, u, s)"
  shows "texts_valid (handleSimpleEdit ty p st, u, s)" "texts_valid (handleSimpleAdd ty st, u, s)"
    "texts_valid ((handleAutoGroupAdd st)\<lparr>ge_autoInput := t\<rparr>, u, s)" "texts_valid ((handleUserGroupAdd st)\<lparr>ge_userInput := t\<rparr>, u, s)"
    "texts_valid (handleOverrideAdd g st, u, s)" "texts_valid (handleOverrideEdit g q st, u, s)"
  using assms by (simp_all add: texts_valid_def handleSimpleEdit_def handleSimpleAdd_def handleAutoGroupAdd_def
    handleUserGroupAdd_def handleOverrideAdd_def handleOverrideEdit_def)

lemma override_dialog_valid:
  "texts_valid (st, u, s) \<Longrightarrow> dialog_override_save g r st = Some st' \<Longrightarrow> texts_valid (st', u, s)"
  using user_valid(3) num_ok by (auto simp: dialog_override_save_def split: if_splits)

lemma visual_step_valid: "visual_step x y \<Longrightarrow> texts_valid x \<Longrightarrow> texts_valid y"
proof (induction rule: visual_step.induct)
  case (table rows tb tb' st u s)
  then show ?case using table_valid by (simp add: texts_valid_def)
next
  case (rules st u s rules)
  then show ?case using rules_valid by (simp add: texts_valid_def)
next
  case (override_save st u s st' g r)
  then show ?case using override_dialog_valid by blast
qed (blast intro: simple_valid auto_valid user_valid opened_valid)+

definition with_texts :: "group_editor \<times> string \<times> string \<Rightarrow> GroupFormValues \<Rightarrow> GroupFormValues" where
  "with_texts = (\<lambda>(st, u, s) f. f\<lparr>gf_GroupRatio := ge_groupRatio st, gf_TopupGroupRatio := ge_topupGroupRatio st, gf_UserUsableGroups := u,
     gf_GroupGroupRatio := ge_groupGroupRatio st, gf_AutoGroups := ge_autoGroups st, gf_GroupSpecialUsableGroup := s\<rparr>)"

lemma with_texts_valid: "groupSchema e (with_texts x f) = [] \<longleftrightarrow> texts_valid x"
  by (cases x) (auto simp: groupSchema_Nil with_texts_def texts_valid_def)

lemma visual_steps_valid: "visual_step\<^sup>*\<^sup>* x y \<Longrightarrow> texts_valid x \<Longrightarrow> texts_valid y"
  by (induction rule: rtranclp_induct) (auto intro: visual_step_valid)

text \<open>
  C34: From a form the schema accepts, no sequence of actions in the visual editors of the groups leads to one
  whose save is refused.
\<close>
theorem visual_edits_can_be_saved:
  assumes "visual_step\<^sup>*\<^sup>* x y" "groupSchema e (with_texts x f) = []"
  shows "\<exists>sent. submit_groups e ok (st\<lparr>rc_groupForm := with_texts y f\<rparr>) = Inr sent"
  using visual_steps_valid [OF assms(1)] assms(2) by (simp add: submit_groups_def with_texts_valid)

definition typed_group :: group_editor where
  "typed_group = \<lparr>ge_groupRatio = [], ge_topupGroupRatio = [], ge_groupGroupRatio = [], ge_autoGroups = [],
     ge_simpleOpen = False, ge_simpleType = None, ge_simpleEdit = None, ge_autoOpen = True, ge_autoInput = ''a'', ge_overrideOpen = False,
     ge_overrideUser = None, ge_overrideEdit = None, ge_userOpen = False, ge_userInput = []\<rparr>"

lemma visual_edits_can_be_saved_witness:
  "\<exists>st'. handleAutoGroupSave typed_group = Some st' \<and>
     (\<exists>sent. submit_groups (\<lambda>_. []) (\<lambda>_. True) ((open_card empty_model_form empty_group_form)\<lparr>rc_groupForm := with_texts (st', [], []) empty_group_form\<rparr>) = Inr sent)"
proof -
  have "js_trim ''a'' = ''a''" by code_simp
  then obtain st' where st': "handleAutoGroupSave typed_group = Some st'"
    by (simp add: handleAutoGroupSave_def typed_group_def autoGroupsList_def safeJsonParse_def)
  then have "visual_step\<^sup>*\<^sup>* (typed_group, [], []) (st', [], [])" by (intro r_into_rtranclp visual_step.auto_save)
  moreover have "groupSchema (\<lambda>_. []) (with_texts (typed_group, [], []) empty_group_form) = []"
    by (simp add: with_texts_valid texts_valid_def typed_group_def valid_text_def valid_auto_def)
  ultimately show ?thesis using visual_edits_can_be_saved st' by blast
qed

end
