(* ===== verification/PricingFormat.thy ===== *)
theory PricingFormat
  imports GroupRatios Complex_Main
begin

text \<open>
  The numbers of the price editors (features/system-settings/models/pricing-format.ts). A double is the
  rational number it stands for. \<open>fl\<close> is the rounding of floating-point arithmetic: the numbers read from
  texts and the results of the products and quotients of the editors are values of \<open>fl\<close>, so they drift.
  formatPricingNumber gets such a value and repairs the drift; its own steps are taken on the exact value, and
  what it prints is the decimal they end in.
\<close>

type_synonym rounding = "rat \<Rightarrow> rat"

text \<open>IEEE 754 on numbers of the size of prices: a rounded result is off by at most half a unit of the last of 53 bits.\<close>

definition rounds :: "rounding \<Rightarrow> bool" where
  "rounds fl \<longleftrightarrow> fl 0 = 0 \<and> (\<forall>x. 1 / 10 ^ 20 \<le> \<bar>x\<bar> \<and> \<bar>x\<bar> \<le> 10 ^ 20 \<longrightarrow> \<bar>fl x - x\<bar> \<le> \<bar>x\<bar> / 2 ^ 53)"

fun dec_rat :: "dec \<Rightarrow> rat" where
  "dec_rat (Dec m e) = of_int m / 10 ^ e"

definition roundToDecimals :: "rat \<Rightarrow> nat \<Rightarrow> rat" where
  "roundToDecimals v decimals = of_int \<lfloor>v * 10 ^ decimals + 1 / 2\<rfloor> / 10 ^ decimals"

definition snap_tolerance :: "rat \<Rightarrow> rat" where
  "snap_tolerance v = max (1 / 10 ^ 12) (\<bar>v\<bar> * (1 / 2 ^ 52) * 8)"

definition snapFloatDrift :: "rat \<Rightarrow> rat" where
  "snapFloatDrift v = (case List.find (\<lambda>decimals. \<bar>v - roundToDecimals v decimals\<bar> \<le> snap_tolerance v) [0..<9] of
     Some decimals \<Rightarrow> roundToDecimals v decimals | None \<Rightarrow> v)"

definition fixed_digits :: "rat \<Rightarrow> int" where
  "fixed_digits v = (if v < 0 then - \<lfloor>- v * 10 ^ 12 + 1 / 2\<rfloor> else \<lfloor>v * 10 ^ 12 + 1 / 2\<rfloor>)"

definition formatPricingNumber :: "rat \<Rightarrow> string" where
  "formatPricingNumber v = show_dec (scale_dec (fixed_digits (snapFloatDrift v)) (- 12))"

text \<open>The number a text stands for, before it is rounded to a double.\<close>

definition toNumberOrNull :: "string \<Rightarrow> rat option" where
  "toNumberOrNull v = (if v = [] then None else case js_number v of Num d \<Rightarrow> Some (dec_rat d) | _ \<Rightarrow> None)"

end
