(* ===== verification/ModelPrices.thy ===== *)
theory ModelPrices
  imports RatioSettingsFacts BillingExpr PricingFormat
begin

text \<open>
  The table of model prices (features/system-settings/models/model-ratio-visual-editor.tsx): ten JSON
  texts of the form hold, by model, the fixed price, seven ratios, the billing mode and the billing
  expression. The order of the rows is \<open>localeCompare\<close>, the parameter \<open>le\<close>. A handler that finds a
  text that is no object is None, as in the editor of the groups. An optional text of the code that is
  absent is the empty text here: every use of it makes no difference between the two.
\<close>

datatype price_field = PriceF | RatioF | CacheF | CreateCacheF | CompletionF | ImageF | AudioF | AudioCompletionF

datatype PricingMode = PerToken | PerRequest | TieredExpr

text \<open>The maps of the ten texts.\<close>

record price_maps =
  pm_number :: "price_field \<Rightarrow> (string \<times> json) list"
  pm_mode :: "(string \<times> json) list"
  pm_expr :: "(string \<times> json) list"

fun price_text :: "price_field \<Rightarrow> ModelFormValues \<Rightarrow> string" where
  "price_text PriceF f = mf_ModelPrice f"
| "price_text RatioF f = mf_ModelRatio f"
| "price_text CacheF f = mf_CacheRatio f"
| "price_text CreateCacheF f = mf_CreateCacheRatio f"
| "price_text CompletionF f = mf_CompletionRatio f"
| "price_text ImageF f = mf_ImageRatio f"
| "price_text AudioF f = mf_AudioRatio f"
| "price_text AudioCompletionF f = mf_AudioCompletionRatio f"

definition price_fields :: "price_field list" where
  "price_fields = [PriceF, RatioF, CacheF, CreateCacheF, CompletionF, ImageF, AudioF, AudioCompletionF]"

definition text_map :: "string \<Rightarrow> (string \<times> json) list option" where
  "text_map s = entries_of (safeJsonParse s (JObj []))"

definition read_maps :: "ModelFormValues \<Rightarrow> price_maps option" where
  "read_maps f = (if list_all (\<lambda>x. text_map (price_text x f) \<noteq> None) price_fields \<and>
       text_map (mf_BillingMode f) \<noteq> None \<and> text_map (mf_BillingExpr f) \<noteq> None
     then Some \<lparr>pm_number = (\<lambda>x. the (text_map (price_text x f))), pm_mode = the (text_map (mf_BillingMode f)),
                pm_expr = the (text_map (mf_BillingExpr f))\<rparr>
     else None)"

text \<open>The ten calls of \<open>onChange\<close> and the fields of the form they set.\<close>

definition write_maps :: "price_maps \<Rightarrow> ModelFormValues \<Rightarrow> ModelFormValues" where
  "write_maps m f = f\<lparr>
     mf_ModelPrice := json_pretty (JObj (pm_number m PriceF)), mf_ModelRatio := json_pretty (JObj (pm_number m RatioF)),
     mf_CacheRatio := json_pretty (JObj (pm_number m CacheF)), mf_CreateCacheRatio := json_pretty (JObj (pm_number m CreateCacheF)),
     mf_CompletionRatio := json_pretty (JObj (pm_number m CompletionF)), mf_ImageRatio := json_pretty (JObj (pm_number m ImageF)),
     mf_AudioRatio := json_pretty (JObj (pm_number m AudioF)), mf_AudioCompletionRatio := json_pretty (JObj (pm_number m AudioCompletionF)),
     mf_BillingMode := json_pretty (JObj (pm_mode m)), mf_BillingExpr := json_pretty (JObj (pm_expr m))\<rparr>"

section \<open>The rows\<close>

record ModelRow =
  rw_name :: string
  rw_value :: "price_field \<Rightarrow> string"
  rw_mode :: PricingMode
  rw_billingExpr :: string
  rw_requestRuleExpr :: string
  rw_hasConflict :: bool

text \<open>\<open>map[name]?.toString() || ''\<close>.\<close>

definition cell_text :: "(string \<times> json) list \<Rightarrow> string \<Rightarrow> string" where
  "cell_text m name = (case obj_get name m of None \<Rightarrow> [] | Some JNull \<Rightarrow> [] | Some v \<Rightarrow> json_to_string v)"

definition ratio_fields :: "price_field list" where
  "ratio_fields = [RatioF, CompletionF, CacheF, CreateCacheF, ImageF, AudioF, AudioCompletionF]"

definition tiered_in :: "price_maps \<Rightarrow> string \<Rightarrow> bool" where
  "tiered_in m name \<longleftrightarrow> obj_get name (pm_mode m) = Some (JStr ''tiered_expr'')"

text \<open>None: the stored expression is no text, or taking it apart raises.\<close>

definition full_expr :: "price_maps \<Rightarrow> string \<Rightarrow> string option" where
  "full_expr m name = (case js_or (obj_get name (pm_expr m)) (Some (JStr [])) of Some (JStr s) \<Rightarrow> Some s | _ \<Rightarrow> None)"

definition row_of :: "price_maps \<Rightarrow> string \<Rightarrow> ModelRow option" where
  "row_of m name = (let value = (\<lambda>x. cell_text (pm_number m x) name)
     in if tiered_in m name
        then (case full_expr m name of None \<Rightarrow> None
          | Some s \<Rightarrow> (case splitBillingExprAndRequestRules s of None \<Rightarrow> None
             | Some sr \<Rightarrow> Some \<lparr>rw_name = name, rw_value = value, rw_mode = TieredExpr, rw_billingExpr = sr_billingExpr sr,
                               rw_requestRuleExpr = sr_requestRuleExpr sr, rw_hasConflict = False\<rparr>))
        else Some \<lparr>rw_name = name, rw_value = value, rw_mode = (if value PriceF \<noteq> [] then PerRequest else PerToken),
               rw_billingExpr = [], rw_requestRuleExpr = [],
               rw_hasConflict = (value PriceF \<noteq> [] \<and> list_ex (\<lambda>x. value x \<noteq> []) ratio_fields)\<rparr>)"

definition model_names :: "price_maps \<Rightarrow> string list" where
  "model_names m = js_uniq (concat (map (\<lambda>x. map fst (pm_number m x)) price_fields) @ map fst (pm_mode m) @ map fst (pm_expr m))"

definition model_rows :: "(string \<Rightarrow> string \<Rightarrow> bool) \<Rightarrow> ModelFormValues \<Rightarrow> ModelRow list option" where
  "model_rows le f = (case read_maps f of None \<Rightarrow> None
     | Some m \<Rightarrow> let rows = map (row_of m) (model_names m)
         in if None \<in> set rows then None else Some (sort_by (\<lambda>a b. le (rw_name a) (rw_name b)) (map the rows)))"

definition modeCounts :: "ModelRow list \<Rightarrow> PricingMode \<Rightarrow> nat" where
  "modeCounts models = foldl (\<lambda>acc row. acc(rw_mode row := acc (rw_mode row) + 1)) (\<lambda>_. 0) models"

text \<open>What a row shows. The texts \<open>t\<close> are translations.\<close>

definition ratioToPrice :: "rounding \<Rightarrow> string \<Rightarrow> string option \<Rightarrow> string" where
  "ratioToPrice fl ratio denominator = (case (toNumberOrNull ratio,
       case denominator of Some d \<Rightarrow> if d \<noteq> [] then toNumberOrNull d else Some 2 | None \<Rightarrow> Some 2) of
     (Some r, Some d) \<Rightarrow> formatPricingNumber (fl (fl r * fl d)) | _ \<Rightarrow> [])"

definition getModeLabel :: "PricingMode \<Rightarrow> string" where
  "getModeLabel mode = (case mode of PerRequest \<Rightarrow> ''Per-request'' | TieredExpr \<Rightarrow> ''Expression'' | PerToken \<Rightarrow> ''Per-token'')"

definition getModeVariant :: "PricingMode \<Rightarrow> string" where
  "getModeVariant mode = (case mode of PerRequest \<Rightarrow> ''warning'' | TieredExpr \<Rightarrow> ''info'' | PerToken \<Rightarrow> ''success'')"

text \<open>The matches of \<open>/tier\(/g\<close>; they cannot overlap.\<close>

fun count_tiers :: "string \<Rightarrow> nat" where
  "count_tiers [] = 0"
| "count_tiers (c # s) = (if prefix ''tier('' (c # s) then 1 else 0) + count_tiers s"

definition middle_dot :: string where
  "middle_dot = [CHR '' '', CHR 0xB7, CHR '' '']"

definition getExpressionSummary :: "(string \<Rightarrow> string) \<Rightarrow> ModelRow \<Rightarrow> string" where
  "getExpressionSummary t row = (let tierCount = count_tiers (rw_billingExpr row)
     in if 0 < tierCount then t ''Tiered pricing'' @ middle_dot @ show_nat tierCount @ '' '' @ t ''tiers'' else t ''Expression pricing'')"

definition getPriceSummary :: "rounding \<Rightarrow> (string \<Rightarrow> string) \<Rightarrow> ModelRow \<Rightarrow> string" where
  "getPriceSummary fl t row = (case rw_mode row of
     TieredExpr \<Rightarrow> getExpressionSummary t row
   | PerRequest \<Rightarrow> if rw_value row PriceF \<noteq> [] then CHR ''$'' # rw_value row PriceF @ '' / '' @ t ''request'' else t ''Unset price''
   | PerToken \<Rightarrow>
       (let inputPrice = ratioToPrice fl (rw_value row RatioF) None;
            extraCount = length (filter (\<lambda>x. rw_value row x \<noteq> []) [CompletionF, CacheF, CreateCacheF, ImageF, AudioF, AudioCompletionF])
        in if inputPrice = [] then t ''Unset price''
           else if 0 < extraCount then t ''Input'' @ '' $'' @ inputPrice @ middle_dot @ show_nat extraCount @ '' '' @ t ''extras''
           else t ''Input'' @ '' $'' @ inputPrice))"

definition getPriceDetail :: "rounding \<Rightarrow> (string \<Rightarrow> string) \<Rightarrow> ModelRow \<Rightarrow> string" where
  "getPriceDetail fl t row = (case rw_mode row of
     TieredExpr \<Rightarrow> if rw_requestRuleExpr row \<noteq> [] then t ''Includes request rules'' else t ''Expression based''
   | PerRequest \<Rightarrow> t ''Fixed request price''
   | PerToken \<Rightarrow>
       (let inputPrice = ratioToPrice fl (rw_value row RatioF) None;
            detail = (\<lambda>(label, x). t label @ '' $'' @ ratioToPrice fl (rw_value row x) (Some inputPrice));
            details = map detail (filter (\<lambda>(_, x). rw_value row x \<noteq> [])
              [(''Output'', CompletionF), (''Cache'', CacheF), (''Cache write'', CreateCacheF)])
        in if inputPrice = [] then t ''No base input price''
           else if details \<noteq> [] then js_join middle_dot details else t ''Base input price only''))"

section \<open>The handlers\<close>

record ModelRatioData =
  md_name :: string
  md_value :: "price_field \<Rightarrow> string"
  md_mode :: PricingMode
  md_billingExpr :: string
  md_requestRuleExpr :: string

definition setIfPresent :: "string \<Rightarrow> string \<Rightarrow> (string \<times> json) list \<Rightarrow> (string \<times> json) list" where
  "setIfPresent name value target = (if value = [] then target
     else case parse_float value of Num d \<Rightarrow> obj_set name (JNum d) target | _ \<Rightarrow> target)"

definition delete_model :: "string \<Rightarrow> price_maps \<Rightarrow> price_maps" where
  "delete_model name m = m\<lparr>pm_number := (\<lambda>x. obj_delete name (pm_number m x)), pm_mode := obj_delete name (pm_mode m),
     pm_expr := obj_delete name (pm_expr m)\<rparr>"

definition persist_model :: "ModelRatioData \<Rightarrow> price_maps \<Rightarrow> string \<Rightarrow> price_maps" where
  "persist_model data m0 name = (let m = delete_model name m0
     in if md_mode data = TieredExpr
        then let combined = combineBillingExpr (md_billingExpr data) (md_requestRuleExpr data);
                 m1 = (if combined = [] then m
                   else m\<lparr>pm_mode := obj_set name (JStr ''tiered_expr'') (pm_mode m), pm_expr := obj_set name (JStr combined) (pm_expr m)\<rparr>)
             in m1\<lparr>pm_number := (\<lambda>x. setIfPresent name (md_value data x) (pm_number m1 x))\<rparr>
        else if md_value data PriceF \<noteq> []
        then m\<lparr>pm_number := (pm_number m)(PriceF := setIfPresent name (md_value data PriceF) (pm_number m PriceF))\<rparr>
        else m\<lparr>pm_number := (\<lambda>x. if x = PriceF then pm_number m x else setIfPresent name (md_value data x) (pm_number m x))\<rparr>)"

definition persistPricingData :: "ModelRatioData \<Rightarrow> string list \<Rightarrow> ModelFormValues \<Rightarrow> ModelFormValues option" where
  "persistPricingData data targetNames f = (case read_maps f of None \<Rightarrow> None
     | Some m \<Rightarrow> Some (write_maps (foldl (persist_model data) m targetNames) f))"

record price_editor =
  pe_form :: ModelFormValues
  pe_editData :: "ModelRatioData option"
  pe_editorOpen :: bool
  pe_sheetOpen :: bool
  pe_globalFilter :: string
  pe_selection :: "string list"

definition edit_data :: "ModelRow \<Rightarrow> ModelRatioData" where
  "edit_data model = \<lparr>md_name = rw_name model, md_value = rw_value model,
     md_mode = (if rw_mode model = TieredExpr then TieredExpr else if rw_value model PriceF \<noteq> [] then PerRequest else PerToken),
     md_billingExpr = rw_billingExpr model, md_requestRuleExpr = rw_requestRuleExpr model\<rparr>"

definition handleEdit :: "bool \<Rightarrow> ModelRow \<Rightarrow> price_editor \<Rightarrow> price_editor" where
  "handleEdit isMobile model st =
     st\<lparr>pe_editData := Some (edit_data model), pe_editorOpen := True, pe_sheetOpen := (isMobile \<or> pe_sheetOpen st)\<rparr>"

definition handleAdd :: "bool \<Rightarrow> price_editor \<Rightarrow> price_editor" where
  "handleAdd isMobile st = st\<lparr>pe_editData := None, pe_editorOpen := True, pe_sheetOpen := (isMobile \<or> pe_sheetOpen st)\<rparr>"

definition handleCancel :: "price_editor \<Rightarrow> price_editor" where
  "handleCancel st = st\<lparr>pe_editData := None, pe_editorOpen := False, pe_sheetOpen := False\<rparr>"

definition handleGlobalFilterChange :: "string \<Rightarrow> price_editor \<Rightarrow> price_editor" where
  "handleGlobalFilterChange text' st = (if text' \<noteq> pe_globalFilter st then handleCancel st else st)\<lparr>pe_globalFilter := text'\<rparr>"

definition handleDelete :: "string \<Rightarrow> price_editor \<Rightarrow> price_editor option" where
  "handleDelete name st = (case read_maps (pe_form st) of None \<Rightarrow> None
     | Some m \<Rightarrow> Some (st\<lparr>pe_form := write_maps (delete_model name m) (pe_form st)\<rparr>))"

definition handleSave_price :: "ModelRatioData \<Rightarrow> price_editor \<Rightarrow> price_editor option" where
  "handleSave_price data st = (case persistPricingData data [md_name data] (pe_form st) of None \<Rightarrow> None
     | Some f \<Rightarrow> Some (st\<lparr>pe_form := f, pe_editData := Some data, pe_editorOpen := True\<rparr>))"

datatype copy_outcome = NoSource | NoTarget | Copied price_editor

text \<open>The targets are the selected rows that pass the filters of the table, a matter of the table library.\<close>

definition handleBatchCopy :: "string list \<Rightarrow> price_editor \<Rightarrow> copy_outcome option" where
  "handleBatchCopy targetNames st = (case pe_editData st of
     None \<Rightarrow> Some NoSource
   | Some data \<Rightarrow>
       if targetNames = [] then Some NoTarget
       else (case persistPricingData data targetNames (pe_form st) of None \<Rightarrow> None
         | Some f \<Rightarrow> Some (Copied (st\<lparr>pe_form := f, pe_selection := []\<rparr>))))"

end
