(* ===== verification/NumberTexts.thy ===== *)
theory NumberTexts
  imports GroupRatiosFacts
begin

text \<open>
  A number that was written is read by \<open>parseFloat\<close> and \<open>Number\<close> as by the reader of JSON.
\<close>

lemma json_number_parts:
  assumes "parse_json_number s = Some (d, r)"
  obtains neg s1 where "s = (if neg then ''-'' else []) @ s1" "s1 \<noteq> []" "is_digit (hd s1)"
  | "False"
proof -
  let ?neg = "s \<noteq> [] \<and> hd s = CHR ''-''"
  let ?s1 = "if ?neg then tl s else s"
  have "takeWhile is_digit ?s1 \<noteq> []" using assms by (auto simp: parse_json_number_def Let_def split: if_splits)
  then have "?s1 \<noteq> []" "is_digit (hd ?s1)" by (cases ?s1; auto split: if_splits)+
  moreover have "s = (if ?neg then ''-'' else []) @ ?s1" by (cases s) auto
  ultimately show thesis using that(1) by blast
qed

lemma digit_no_ws: "is_digit c \<Longrightarrow> \<not> is_ws c"
  by (rule starts_value_not_ws) (simp add: starts_value_def)

lemma digit_not_sign: "is_digit c \<Longrightarrow> c \<noteq> CHR ''-'' \<and> c \<noteq> CHR ''+'' \<and> c \<noteq> CHR ''I''"
  by (auto simp: is_digit_def)

lemma minus_not_ws: "\<not> is_ws CHR ''-''"
  by code_simp

lemma parse_float_json:
  assumes "parse_json_number s = Some (d, r)"
  shows "parse_float s = Num d"
proof -
  obtain neg s1 where s: "s = (if neg then ''-'' else []) @ s1" "s1 \<noteq> []" "is_digit (hd s1)"
    using json_number_parts [OF assms] by blast
  obtain c t where ct: "s1 = c # t" "is_digit c" using s(2,3) by (cases s1) auto
  note c = digit_not_sign [OF ct(2)]
  have hd1: "hd s1 \<noteq> CHR ''-''" "hd s1 \<noteq> CHR ''+''" unfolding ct(1) using c by simp_all
  have no_inf: "\<not> prefix ''Infinity'' s1" unfolding ct(1) using c by (metis Cons_prefix_Cons)
  have ws: "dropWhile is_ws s = s" using digit_no_ws [OF ct(2)] minus_not_ws by (cases neg) (simp_all add: s(1) ct(1))
  have signs: "(s \<noteq> [] \<and> hd s = CHR ''-'') = neg" "(s \<noteq> [] \<and> (hd s = CHR ''-'' \<or> hd s = CHR ''+'')) = neg"
    "(if neg then tl s else s) = s1"
    by (cases neg; simp add: s(1) ct(1) c)+
  define ds where "ds = takeWhile is_digit s1"
  define s2 where "s2 = dropWhile is_digit s1"
  define dot where "dot = (s2 \<noteq> [] \<and> hd s2 = CHR ''.'')"
  define fs where "fs = (if dot then takeWhile is_digit (tl s2) else [])"
  define s3 where "s3 = (if dot then dropWhile is_digit (tl s2) else s2)"
  define k where "k = int (nat_of_digits (ds @ fs))"
  have pj: "parse_json_number s = (if ds = [] \<or> 1 < length ds \<and> hd ds = CHR ''0'' \<or> dot \<and> fs = [] then None
      else (case parse_exponent s3 of None \<Rightarrow> None
        | Some (x, rest) \<Rightarrow> Some (scale_dec (if neg then - k else k) (x - int (length fs)), rest)))"
    unfolding parse_json_number_def Let_def signs ds_def s2_def dot_def fs_def s3_def k_def by (rule refl)
  have sn: "(neg \<and> hd s = CHR ''-'') = neg" using signs(1) by blast
  have pf: "parse_float s = (if prefix ''Infinity'' s1 then Infinite (\<not> neg) else if ds @ fs = [] then NaN
      else Num (scale_dec (if neg then - k else k) ((case parse_exponent s3 of Some (x, _) \<Rightarrow> x | None \<Rightarrow> 0) - int (length fs))))"
    unfolding parse_float_def Let_def ws signs sn ds_def s2_def dot_def fs_def s3_def k_def by (rule refl)
  show ?thesis using assms no_inf unfolding pj pf by (auto split: if_splits option.splits prod.splits)
qed


lemma parse_float_show [simp]: "dec_ok d \<Longrightarrow> parse_float (show_dec d) = Num d"
  using parse_float_json [of "show_dec d"] parse_show_dec [of d "[]"] by (simp add: ends_number_def)

lemma show_dec_not_empty: "show_dec d \<noteq> []"
  using show_dec_start [of d] by auto

lemma js_number_json:
  assumes "parse_json_number s = Some (d, [])" "js_trim s = s"
  shows "js_number s = Num d"
proof -
  obtain neg s1 where s: "s = (if neg then ''-'' else []) @ s1" "s1 \<noteq> []" "is_digit (hd s1)"
    using json_number_parts [OF assms(1)] by blast
  obtain c t where ct: "s1 = c # t" "is_digit c" using s(2,3) by (cases s1) auto
  note c = digit_not_sign [OF ct(2)]
  have ne: "s \<noteq> []" "s1 \<noteq> ''Infinity''" using s(1) ct(1) c by (cases neg; auto)+
  have signs: "(s \<noteq> [] \<and> hd s = CHR ''-'') = neg" "(s \<noteq> [] \<and> (hd s = CHR ''-'' \<or> hd s = CHR ''+'')) = neg"
    "(if neg then tl s else s) = s1"
    by (cases neg; simp add: s(1) ct(1) c)+
  define ds where "ds = takeWhile is_digit s1"
  define s2 where "s2 = dropWhile is_digit s1"
  define dot where "dot = (s2 \<noteq> [] \<and> hd s2 = CHR ''.'')"
  define fs where "fs = (if dot then takeWhile is_digit (tl s2) else [])"
  define s3 where "s3 = (if dot then dropWhile is_digit (tl s2) else s2)"
  define k where "k = int (nat_of_digits (ds @ fs))"
  have pj: "parse_json_number s = (if ds = [] \<or> 1 < length ds \<and> hd ds = CHR ''0'' \<or> dot \<and> fs = [] then None
      else (case parse_exponent s3 of None \<Rightarrow> None
        | Some (x, rest) \<Rightarrow> Some (scale_dec (if neg then - k else k) (x - int (length fs)), rest)))"
    unfolding parse_json_number_def Let_def signs ds_def s2_def dot_def fs_def s3_def k_def by (rule refl)
  from assms(1) obtain x where x: "ds \<noteq> []" "\<not> (1 < length ds \<and> hd ds = CHR ''0'')" "parse_exponent s3 = Some (x, [])"
    "d = scale_dec (if neg then - k else k) (x - int (length fs))"
    unfolding pj by (auto split: if_splits option.splits prod.splits)
  have no_radix: "\<not> (\<not> neg \<and> 2 < length s \<and> hd s = CHR ''0'' \<and> radix_digits (s ! 1) \<noteq> [])"
  proof
    assume r: "\<not> neg \<and> 2 < length s \<and> hd s = CHR ''0'' \<and> radix_digits (s ! 1) \<noteq> []"
    have "ds = [c] @ takeWhile is_digit t" using ct by (simp add: ds_def)
    moreover have st: "s = c # t" using r s(1) ct(1) by simp
    then have "c = CHR ''0''" using r by simp
    ultimately have "takeWhile is_digit t = []" using x(2) by auto
    then have "s2 = t" using ct by (cases t) (auto simp: s2_def split: if_splits)
    then have "s ! 1 = hd s2" "s2 \<noteq> []" using r unfolding st by (cases t; simp)+
    moreover have "hd s2 \<in> set ''.eE''"
      using x(3) \<open>s2 \<noteq> []\<close> by (cases dot) (auto simp: s3_def dot_def parse_exponent_def split: list.splits if_splits)
    ultimately show False using r by (auto simp: radix_digits_def)
  qed
  have sn: "(neg \<and> hd s = CHR ''-'') = neg" using signs(1) by blast
  have "js_number s = (if s = [] then Num (int_dec 0) else if s1 = ''Infinity'' then Infinite (\<not> neg)
      else if \<not> neg \<and> 2 < length s \<and> hd s = CHR ''0'' \<and> radix_digits (s ! 1) \<noteq> [] then
        (case radix_value (radix_digits (s ! 1)) (drop 2 s) of None \<Rightarrow> NaN | Some n \<Rightarrow> Num (int_dec (int n)))
      else if ds @ fs = [] then NaN
      else (case parse_exponent s3 of Some (x, []) \<Rightarrow> Num (scale_dec (if neg then - k else k) (x - int (length fs))) | _ \<Rightarrow> NaN))"
    unfolding js_number_def Let_def assms(2) signs sn ds_def s2_def dot_def fs_def s3_def k_def by (rule refl)
  then show ?thesis using ne no_radix x by (simp only: if_False append_is_Nil_conv simp_thms x(3) option.case prod.case list.case)
qed

lemma js_number_written [simp]: "dec_ok d \<Longrightarrow> js_number (show_dec d) = Num d"
proof -
  assume ok: "dec_ok d"
  have "js_trim (json_stringify (JNum d)) = json_stringify (JNum d)" using ok by (intro compact.print_trim) simp
  then have "js_trim (show_dec d) = show_dec d" by (simp add: json_text.simps)
  then show ?thesis using js_number_json [of "show_dec d" d] parse_show_dec [OF ok, of "[]"] by (simp add: ends_number_def)
qed

end
