(* ===== verification/TierRules.thy ===== *)
theory TierRules
  imports TierChain BillingRules
begin

text \<open>
  The text of a tier configuration joined with request rules and taken apart again: what the tiers are
  written as has balanced parentheses when their labels have, does not end like the factor of a rule and
  has no outer parentheses, so splitBillingExprAndRequestRules finds the two parts.
\<close>

section \<open>Texts without a product at the top level\<close>

fun star_free :: "int \<Rightarrow> string \<Rightarrow> bool" where
  "star_free d [] \<longleftrightarrow> d = 0"
| "star_free d (c # t) \<longleftrightarrow> \<not> (d = 0 \<and> c = CHR ''*'') \<and> 0 \<le> depth_step d c \<and> star_free (depth_step d c) t"

lemma star_free_append: "star_free d s \<Longrightarrow> star_free 0 t \<Longrightarrow> star_free d (s @ t)"
  by (induction s arbitrary: d) auto

lemma star_free_nested: "star_free d s \<Longrightarrow> nested d s"
  by (induction s arbitrary: d) auto

lemma nested_append: "nested d s \<Longrightarrow> nested 0 t \<Longrightarrow> nested d (s @ t)"
  by (induction s arbitrary: d) auto

lemma star_free_inner: "nested d s \<Longrightarrow> 0 \<le> d \<Longrightarrow> star_free (d + 1) (s @ CHR '')'' # t) \<longleftrightarrow> star_free 0 t"
proof (induction s arbitrary: d)
  case (Cons c s)
  have "depth_step (d + 1) c = depth_step d c + 1" by (simp add: depth_step_def)
  with Cons show ?case by simp
qed (simp add: depth_step_def)

definition plain_char :: "char \<Rightarrow> bool" where
  "plain_char c \<longleftrightarrow> c \<noteq> CHR ''('' \<and> c \<noteq> CHR '')'' \<and> c \<noteq> CHR ''*''"

lemma star_free_plain: "list_all plain_char s \<Longrightarrow> star_free 0 s"
  by (induction s) (simp_all add: plain_char_def depth_step_def)

lemma nested_plain: "list_all (\<lambda>c. c \<noteq> CHR ''('' \<and> c \<noteq> CHR '')'') s \<Longrightarrow> nested 0 s"
  by (induction s) (simp_all add: depth_step_def)

lemma split_top_step:
  "split_top sep d part (c # t) =
    (if depth_step d c = 0 \<and> sep \<noteq> [] \<and> prefix sep (c # t) then part # split_top sep 0 [] (drop (length sep - 1) t)
     else split_top sep (depth_step d c) (part @ [c]) t)"
  unfolding split_top.simps(2) depth_step_def [symmetric] Let_def by auto

lemma split_top_free:
  "star_free d s \<Longrightarrow> s = [] \<or> last s \<noteq> CHR '' '' \<Longrightarrow> split_top '' * '' d part (s @ t) = split_top '' * '' 0 (part @ s) t"
proof (induction s arbitrary: d part)
  case (Cons c s)
  have no: "\<not> (depth_step d c = 0 \<and> prefix '' * '' (c # s @ t))"
  proof
    assume a: "depth_step d c = 0 \<and> prefix '' * '' (c # s @ t)"
    then have c: "c = CHR '' ''" "prefix ''* '' (s @ t)" by auto
    then have "s \<noteq> []" using Cons.prems(2) by auto
    then obtain s' where "s = CHR ''*'' # s'" using c(2) by (cases s) auto
    then show False using Cons.prems(1) a by simp
  qed
  have "split_top '' * '' d part ((c # s) @ t) = split_top '' * '' (depth_step d c) (part @ [c]) (s @ t)"
    unfolding append_Cons split_top_step [of _ d] by (rule if_not_P) (use no in blast)
  also have "\<dots> = split_top '' * '' 0 ((part @ [c]) @ s) t"
    using Cons.IH [of "depth_step d c" "part @ [c]"] Cons.prems by (cases "s = []") simp_all
  finally show ?case by simp
qed simp

section \<open>The texts of tiers\<close>

definition no_paren :: "char \<Rightarrow> bool" where
  "no_paren c \<longleftrightarrow> c \<noteq> CHR ''('' \<and> c \<noteq> CHR '')''"

lemma plain_no_paren: "plain_num c \<Longrightarrow> no_paren c"
  by (auto simp: no_paren_def plain_num_def is_digit_def)

lemma bound_plain: "bound_char c \<Longrightarrow> plain_char c"
  by (auto simp: plain_char_def bound_char_def is_digit_def)

lemma set_join_within: "set sep \<subseteq> A \<Longrightarrow> (\<And>x. x \<in> set xss \<Longrightarrow> set x \<subseteq> A) \<Longrightarrow> set (js_join sep xss) \<subseteq> A"
  using set_js_join [of sep xss] by blast

lemma body_no_paren:
  assumes "tier_ok t"
  shows "list_all no_paren (buildTierBodyExpr t)"
proof -
  have n: "list_all no_paren (show_num (cost_of t f))" if "f \<in> set COST_FIELDS" for f
  proof -
    have "cost_ok (cost_of t f)" using assms that by (simp add: tier_ok_def)
    then obtain d where "cost_of t f = Num d" by (cases "cost_of t f") (simp_all add: cost_ok_def)
    then show ?thesis using show_dec_chars(1) [of d] plain_no_paren by (auto simp: list_all_iff)
  qed
  have c: "list_all no_paren (coeff_text v (cost_of t f))" if "f \<in> set COST_FIELDS" "list_all no_paren v" for f v
    using n [OF that(1)] that(2) by (simp add: coeff_text_def) (simp add: no_paren_def)
  have fields: "''input_unit_cost'' \<in> set COST_FIELDS" "''output_unit_cost'' \<in> set COST_FIELDS"
    "set (map fst BILLING_CACHE_VAR_MAP) \<subseteq> set COST_FIELDS"
    unfolding cache_vars COST_FIELDS_def by auto
  have vars: "list_all (list_all no_paren) (map snd BILLING_CACHE_VAR_MAP)"
    unfolding cache_vars by (simp add: no_paren_def)
  let ?parts = "coeff_text ''p'' (cost_of t ''input_unit_cost'') # coeff_text ''c'' (cost_of t ''output_unit_cost'') #
       map (\<lambda>(f, v). coeff_text v (cost_of t f)) (filter (\<lambda>(f, v). cost_of t f \<noteq> Num (int_dec 0)) BILLING_CACHE_VAR_MAP)"
  have "list_all no_paren x" if x: "x \<in> set ?parts" for x
  proof -
    consider "x = coeff_text ''p'' (cost_of t ''input_unit_cost'')" | "x = coeff_text ''c'' (cost_of t ''output_unit_cost'')"
      | f v where "(f, v) \<in> set BILLING_CACHE_VAR_MAP" "x = coeff_text v (cost_of t f)"
      using x by auto
    then show ?thesis
    proof cases
      case 3
      then have "f \<in> set COST_FIELDS" "list_all no_paren v" using fields(3) vars by (force simp: list_all_iff)+
      then show ?thesis using 3(2) c by simp
    qed (use c fields in \<open>simp_all add: no_paren_def\<close>)
  qed
  then have "set (buildTierBodyExpr t) \<subseteq> {c. no_paren c}"
    unfolding buildTierBodyExpr_def by (intro set_join_within) (simp add: no_paren_def, simp add: list_all_iff subset_iff)
  then show ?thesis by (auto simp: list_all_iff)
qed

lemma tier_text_free:
  assumes "tier_ok t" "nested 0 (vt_label t)"
  shows "star_free 0 (tier_text (vt_label t) t)"
proof -
  have q: "nested 0 [quote_char]" "nested 0 '', ''" by (simp_all add: depth_step_def)
  have "nested 0 (buildTierBodyExpr t)"
    using body_no_paren [OF assms(1)] by (intro nested_plain) (auto simp: list_all_iff no_paren_def)
  then have "nested 0 ([quote_char] @ vt_label t @ [quote_char] @ '', '' @ buildTierBodyExpr t)"
    using q assms(2) by (intro nested_append)
  from star_free_inner [OF this, of "[]"] show ?thesis
    by (simp add: tier_text_def depth_step_def)
qed

lemma conds_free:
  assumes "list_all input_ok cs"
  shows "list_all plain_char (conds_text cs)"
proof -
  have "list_all plain_char (input_text c)" if "c \<in> set cs" for c
  proof -
    have c: "input_ok c" using assms that by (simp add: list_all_iff)
    then have "ti_var c \<in> {''p'', ''c'', ''len''}" "ti_op c \<in> {''<'', ''<='', ''>'', ''>=''}" by (simp_all add: input_ok_def)
    moreover have "list_all (list_all plain_char) [''p'', ''c'', ''len'', ''<'', ''<='', ''>'', ''>='']" by (simp add: plain_char_def)
    ultimately have "list_all plain_char (ti_var c)" "list_all plain_char (ti_op c)" by auto
    moreover have "list_all plain_char (show_bound (ti_value c))"
      using input_number(1) [OF c] bound_plain by (simp add: list_all_iff)
    moreover have "plain_char CHR '' ''" by (simp add: plain_char_def)
    ultimately show ?thesis by (simp add: input_text_def)
  qed
  then have "set (conds_text cs) \<subseteq> {c. plain_char c}"
    unfolding conds_text_def by (intro set_join_within) (simp add: plain_char_def, auto simp: list_all_iff)
  then show ?thesis by (auto simp: list_all_iff)
qed

abbreviation labels_nested :: "visual_tier list \<Rightarrow> bool" where
  "labels_nested ts \<equiv> list_all (\<lambda>t. nested 0 (vt_label t)) ts"

lemma chain_free:
  "chain_ok ts \<Longrightarrow> labels_nested ts \<Longrightarrow>
    star_free 0 (chain_text ts) \<and> chain_text ts \<noteq> [] \<and> last (chain_text ts) = CHR '')'' \<and> hd (chain_text ts) \<in> set ''tpcl''"
proof (induction ts rule: chain_text.induct)
  case (2 t)
  then have "star_free 0 (tier_text (vt_label t) t)" by (intro tier_text_free) simp_all
  moreover have "chain_text [t] = tier_text (vt_label t) t" by simp
  moreover have "tier_text (vt_label t) t \<noteq> []" "last (tier_text (vt_label t) t) = CHR '')''" "hd (tier_text (vt_label t) t) = CHR ''t''"
    by (simp_all add: tier_text_def)
  ultimately show ?case by simp
next
  case (3 t t' ts)
  have t: "tier_ok t" "proper_conds (vt_conditions t)" "nested 0 (vt_label t)" using 3(2,3) by simp_all
  have rest: "star_free 0 (chain_text (t' # ts))" "chain_text (t' # ts) \<noteq> []" "last (chain_text (t' # ts)) = CHR '')''"
    using 3 by simp_all
  have "star_free 0 (conds_text (vt_conditions t))"
    using conds_free t(2) by (intro star_free_plain) (simp add: proper_conds_def)
  moreover have "star_free 0 '' ? ''" "star_free 0 '' : ''" by (simp_all add: depth_step_def)
  ultimately have "star_free 0 (conds_text (vt_conditions t) @ '' ? '' @ tier_text (vt_label t) t @ '' : '' @ chain_text (t' # ts))"
    using tier_text_free [OF t(1,3)] rest(1) by (intro star_free_append)
  then show ?case using rest conds_shape [OF t(2)] by (simp del: star_free.simps)
qed simp

lemma guarded_free:
  assumes "tier_ok t" "proper_conds (vt_conditions t)" "nested 0 (vt_label t)"
  shows "\<exists>w. guarded_text t = w @ '' * 0 + c * 0'' \<and> star_free 0 w \<and> w \<noteq> [] \<and> last w = CHR ''p'' \<and> hd w \<in> set ''tpcl''"
proof -
  let ?w = "conds_text (vt_conditions t) @ '' ? '' @ tier_text (vt_label t) t @ '' : p''"
  have "star_free 0 (conds_text (vt_conditions t))"
    using conds_free assms(2) by (intro star_free_plain) (simp add: proper_conds_def)
  moreover have "star_free 0 '' ? ''" "star_free 0 '' : p''" by (simp_all add: depth_step_def)
  ultimately have "star_free 0 ?w" using tier_text_free [OF assms(1,3)] by (intro star_free_append)
  moreover have "hd ?w \<in> set ''tpcl''" using conds_shape(2,3) [OF assms(2)] by (cases "conds_text (vt_conditions t)") auto
  moreover have "guarded_text t = ?w @ '' * 0 + c * 0''" by (simp add: guarded_text_def ZERO_EXPR_def)
  moreover have "?w \<noteq> []" "last ?w = CHR ''p''" by simp_all
  ultimately show ?thesis by (intro exI [of _ ?w] conjI)
qed

section \<open>Taking apart\<close>

lemma split_top_first:
  "part \<noteq> [] \<Longrightarrow> \<exists>w ps. split_top sep d part s = (part @ w) # ps"
proof (induction s arbitrary: d part)
  case (Cons c s)
  have "\<exists>w ps. split_top sep (depth_step d c) (part @ [c]) s = (part @ w) # ps"
    using Cons.IH [of "part @ [c]" "depth_step d c"] by (metis append.assoc append_is_Nil_conv not_Cons_self2)
  then show ?case unfolding split_top_step by auto
qed simp

text \<open>A text that does not begin with a parenthesis is no rule.\<close>

lemma not_rule:
  assumes "js_trim w = w" "w \<noteq> []" "hd w \<noteq> CHR ''(''"
  shows "tryParseRequestRuleExpr w = NoMatch"
proof -
  obtain c t where w: "w = c # t" "c \<noteq> CHR ''(''" using assms by (cases w) auto
  have ws: "\<not> is_ws c" using assms(1,2) w(1) trim_by_eq_iff [of is_ws w] by simp
  have "c \<noteq> CHR '' ''" using ws by (auto simp: is_ws_def)
  then have "split_top '' * '' 0 [] w = split_top '' * '' (depth_step 0 c) [c] t" unfolding w(1) split_top_step by auto
  then obtain u ps where s: "split_top '' * '' 0 [] w = ([c] @ u) # ps" using split_top_first [of "[c]"] by (metis not_Cons_self2)
  define v where "v = rev (dropWhile is_ws (rev u))"
  have "dropWhile is_ws (rev u @ [c]) = dropWhile is_ws (rev u) @ [c]"
    using ws by (simp add: dropWhile_append)
  then have v: "js_trim ([c] @ u) = c # v" using ws by (simp add: trim_by_def v_def)
  have "splitTopLevelMultiply w = (c # v) # filter nonempty (map js_trim ps)"
    by (simp add: splitTopLevelMultiply_def split_parts_def s v [simplified])
  moreover have "tryParseRuleGroupFactor (c # v) = NoMatch"
  proof -
    have "match_full FACTOR_REGEX (c # v) = None"
      by (rule match_full_none) (use w(2) in \<open>simp add: FACTOR_REGEX_def run_lit_seq\<close>)
    then show ?thesis by (simp add: tryParseRuleGroupFactor_def)
  qed
  ultimately show ?thesis using assms(1,2) by (simp add: tryParseRequestRuleExpr_def Let_def)
qed

lemma split_no_rules:
  assumes "js_trim e = e" "e \<noteq> []" "\<forall>w \<in> set (splitTopLevelMultiply e). hd w \<noteq> CHR ''(''" 
  shows "splitBillingExprAndRequestRules e = Some \<lparr>sr_billingExpr = e, sr_requestRuleExpr = []\<rparr>"
proof -
  have "tryParseRequestRuleExpr w = NoMatch" if "w \<in> set (splitTopLevelMultiply e)" for w
    using that assms(3) by (intro not_rule) (auto simp: splitTopLevelMultiply_def split_parts_def)
  then have "\<not> (\<exists>w \<in> set (splitTopLevelMultiply e). tryParseRequestRuleExpr w = Raised)"
    "filter (\<lambda>w. is_rule_part (tryParseRequestRuleExpr w)) (splitTopLevelMultiply e) = []"
    by (auto simp: filter_empty_conv is_rule_part_def)
  then show ?thesis using assms(1,2) by (simp add: splitBillingExprAndRequestRules_def Let_def)
qed

text \<open>
  An expression that stands alone: it is written without blanks around it, its parentheses are balanced and
  do not enclose it, it does not end like the factor of a rule, and no factor of it begins with a
  parenthesis, as the factors of rules do.
\<close>

definition plain_expression :: "string \<Rightarrow> bool" where
  "plain_expression e \<longleftrightarrow> e \<noteq> [] \<and> js_trim e = e \<and> nested 0 e \<and> \<not> suffix '' : 1'' e \<and> \<not> hasFullOuterParens e \<and>
     (\<forall>w \<in> set (splitTopLevelMultiply e). hd w \<noteq> CHR ''('')"

lemma written_shape:
  assumes "config_ok ts" "labels_nested ts"
  defines "e \<equiv> generateExprFromVisualConfig (Some \<lparr>vc_tiers = ts\<rparr>)"
  shows "plain_expression e"
proof -
  consider (chain) "chain_ok ts" | (guarded) t where "ts = [t]" "tier_ok t" "proper_conds (vt_conditions t)"
    using assms(1) by (auto simp: config_ok_def)
  then have "e \<noteq> [] \<and> js_trim e = e \<and> nested 0 e \<and> \<not> suffix '' : 1'' e \<and> hd e \<noteq> CHR ''('' \<and>
    (\<forall>w \<in> set (splitTopLevelMultiply e). hd w \<noteq> CHR ''('')"
  proof cases
    case chain
    have e: "e = chain_text ts" unfolding e_def by (rule written_chain [OF chain])
    note c = chain_free [OF chain assms(2), folded e]
    have trim: "js_trim e = e" using c by (auto simp: trim_by_eq_iff is_ws_def)
    have "split_top '' * '' 0 [] (e @ []) = split_top '' * '' 0 ([] @ e) []"
      using c by (intro split_top_free) auto
    then have "splitTopLevelMultiply e = [e]" using c trim by (simp add: splitTopLevelMultiply_def split_parts_def)
    moreover have "\<not> suffix '' : 1'' e" using c by (auto simp: suffix_def)
    ultimately show ?thesis using c trim star_free_nested by auto
  next
    case guarded
    obtain w where w: "guarded_text t = w @ '' * 0 + c * 0''" "star_free 0 w" "w \<noteq> []" "last w = CHR ''p''" "hd w \<in> set ''tpcl''"
      using guarded_free [OF guarded(2,3)] assms(2) guarded(1) by auto
    have e: "e = w @ '' * 0 + c * 0''" unfolding e_def guarded(1) written_guarded [OF guarded(2,3)] w(1) ..
    have trim: "js_trim e = e" "js_trim w = w" using w by (auto simp: e trim_by_eq_iff is_ws_def)
    have "nested 0 '' * 0 + c * 0''" by (simp add: depth_step_def)
    then have n: "nested 0 e" unfolding e using star_free_nested [OF w(2)] by (intro nested_append)
    have "split_top '' * '' 0 [] e = split_top '' * '' 0 ([] @ w) '' * 0 + c * 0''"
      unfolding e using w by (intro split_top_free) auto
    also have "\<dots> = [w, ''0 + c'', ''0'']" by simp
    finally have s: "split_top '' * '' 0 [] e = [w, ''0 + c'', ''0'']" .
    have "js_trim ''0 + c'' = ''0 + c''" "js_trim ''0'' = ''0''" by code_simp+
    then have "splitTopLevelMultiply e = [w, ''0 + c'', ''0'']"
      using w(3) trim(2) by (simp add: splitTopLevelMultiply_def split_parts_def s)
    moreover have "\<not> suffix '' : 1'' e" by (auto simp: e suffix_def)
    ultimately show ?thesis using w(3,5) trim n by (auto simp: e)
  qed
  then show ?thesis by (auto simp: plain_expression_def hasFullOuterParens_def)
qed

text \<open>An expression and rules, joined and taken apart.\<close>

lemma split_plain:
  assumes "plain_expression e" "list_all rule_ok gs" "list_all (\<lambda>g. list_all readable (rg_conditions g)) gs"
  defines "r \<equiv> buildRequestRuleExpr gs"
  shows "combineBillingExpr e r \<noteq> []"
    "splitBillingExprAndRequestRules (combineBillingExpr e r) = Some \<lparr>sr_billingExpr = e, sr_requestRuleExpr = r\<rparr>"
proof -
  have w: "e \<noteq> []" "js_trim e = e" "nested 0 e" "\<not> suffix '' : 1'' e" "\<not> hasFullOuterParens e"
    "\<forall>w \<in> set (splitTopLevelMultiply e). hd w \<noteq> CHR ''(''"
    using assms(1) by (simp_all add: plain_expression_def)
  show "combineBillingExpr e r \<noteq> []" using w(1,2) by (simp add: combineBillingExpr_def Let_def)
  show "splitBillingExprAndRequestRules (combineBillingExpr e r) = Some \<lparr>sr_billingExpr = e, sr_requestRuleExpr = r\<rparr>"
  proof (cases "gs = []")
    case True
    then have r: "r = []" using rules_text(1) [of "[]"] by (simp add: r_def)
    have "js_trim r = []" unfolding r by (simp add: trim_by_def)
    then have "combineBillingExpr e r = e" using w(1,2) by (simp add: combineBillingExpr_def Let_def)
    then show ?thesis using split_no_rules [OF w(2,1,6)] r by simp
  next
    case False
    have "unwrapOuterParens e = e" using w(2,5) by (simp add: unwrapOuterParens_def unwrap_loop.simps [of e])
    then show ?thesis using split_combined [OF assms(2) False, of e] w assms(3) by (simp add: r_def)
  qed
qed

lemmas split_written = split_plain [OF written_shape]

end
