(* ===== verification/ModelPricesFacts.thy ===== *)
theory ModelPricesFacts
  imports ModelPrices NumberTexts TierRules
begin

text \<open>
  Facts about the table of model prices: the ten texts together are a map from models to entries, which
  the handlers change at their targets only; what is saved is edited again as it was.
\<close>

section \<open>The texts as one map\<close>

definition maps_ok :: "price_maps \<Rightarrow> bool" where
  "maps_ok m \<longleftrightarrow> (\<forall>x. json_ok (JObj (pm_number m x))) \<and> json_ok (JObj (pm_mode m)) \<and> json_ok (JObj (pm_expr m))"

lemma text_map_ok: "text_map s = Some m \<Longrightarrow> json_ok (JObj m)"
  using entries_ok parse_ok json_ok_empty unfolding text_map_def by blast

lemma text_map_pretty: "json_ok (JObj m) \<Longrightarrow> text_map (json_pretty (JObj m)) = Some m"
  using parse_pretty [of "JObj m"] by (simp add: text_map_def del: json_ok.simps)

lemma price_fields_all: "list_all P price_fields \<longleftrightarrow> (\<forall>x. P x)"
proof
  assume "list_all P price_fields"
  then show "\<forall>x. P x" by (intro allI, case_tac x) (simp_all add: price_fields_def)
qed (simp add: list_all_iff)

lemma read_ok: "read_maps f = Some m \<Longrightarrow> maps_ok m"
  using text_map_ok by (auto simp: read_maps_def maps_ok_def price_fields_all simp del: json_ok.simps split: if_splits)

lemma written_text: "price_text x (write_maps m f) = json_pretty (JObj (pm_number m x))"
  by (cases x) (simp_all add: write_maps_def)

lemma read_write: "maps_ok m \<Longrightarrow> read_maps (write_maps m f) = Some m"
  using text_map_pretty by (simp add: maps_ok_def read_maps_def price_fields_all written_text del: json_ok.simps) (simp add: write_maps_def)

lemma set_if_ok: "json_ok (JObj m) \<Longrightarrow> json_ok (JObj (setIfPresent n v m))"
proof -
  assume m: "json_ok (JObj m)"
  have "parse_float v = Num d \<Longrightarrow> json_ok (JNum d)" for d using num_ok [of v] by simp
  then show ?thesis using m json_ok_set [OF m] by (auto simp: setIfPresent_def simp del: json_ok.simps split: jsnum.splits)
qed

lemma delete_ok: "maps_ok m \<Longrightarrow> maps_ok (delete_model n m)"
  using json_ok_delete by (simp add: maps_ok_def delete_model_def del: json_ok.simps)

lemma string_ok: "json_ok (JStr s)"
  by simp

lemma persist_ok: "maps_ok m \<Longrightarrow> maps_ok (persist_model data m n)"
proof -
  assume "maps_ok m"
  then have d: "maps_ok (delete_model n m)" by (rule delete_ok)
  show ?thesis
    using d set_if_ok json_ok_set [OF _ string_ok]
    by (auto simp: persist_model_def Let_def maps_ok_def simp del: json_ok.simps)
qed

lemma persist_all_ok: "maps_ok m \<Longrightarrow> maps_ok (foldl (persist_model data) m ns)"
  by (induction ns arbitrary: m) (simp_all add: persist_ok)

text \<open>The abstract view: what the ten texts hold of one model.\<close>

type_synonym price_entry = "(price_field \<Rightarrow> json option) \<times> json option \<times> json option"

definition entry :: "price_maps \<Rightarrow> string \<Rightarrow> price_entry" where
  "entry m n = (\<lambda>x. obj_get n (pm_number m x), obj_get n (pm_mode m), obj_get n (pm_expr m))"

definition no_entry :: price_entry where
  "no_entry = (\<lambda>_. None, None, None)"

definition number_of :: "string \<Rightarrow> json option" where
  "number_of v = (if v = [] then None else case parse_float v of Num d \<Rightarrow> Some (JNum d) | _ \<Rightarrow> None)"

definition entry_of :: "ModelRatioData \<Rightarrow> price_entry" where
  "entry_of data = (let combined = combineBillingExpr (md_billingExpr data) (md_requestRuleExpr data) in
     if md_mode data = TieredExpr then
       (\<lambda>x. number_of (md_value data x),
        if combined = [] then None else Some (JStr ''tiered_expr''), if combined = [] then None else Some (JStr combined))
     else if md_value data PriceF \<noteq> [] then ((\<lambda>_. None)(PriceF := number_of (md_value data PriceF)), None, None)
     else ((\<lambda>x. number_of (md_value data x))(PriceF := None), None, None))"

lemma get_set_if: "obj_get k (setIfPresent n v m) = (if k = n \<and> number_of v \<noteq> None then number_of v else obj_get k m)"
  by (auto simp: setIfPresent_def number_of_def split: jsnum.splits)

lemma entry_delete: "entry (delete_model n m) k = (if k = n then no_entry else entry m k)"
  by (auto simp: entry_def delete_model_def no_entry_def)

lemma entry_persist: "entry (persist_model data m n) k = (if k = n then entry_of data else entry m k)"
  by (auto simp: entry_def persist_model_def delete_model_def entry_of_def Let_def get_set_if fun_eq_iff)

lemma entry_persist_all: "entry (foldl (persist_model data) m ns) k = (if k \<in> set ns then entry_of data else entry m k)"
  by (induction ns arbitrary: m) (auto simp: entry_persist)

text \<open>
  C37: Saving the prices of a model, or copying them to others, changes the entries of the targets and no
  other: for the users of the ten texts it is one update of a map from models to prices. Deleting takes the
  entry away.
\<close>
theorem price_save_refines:
  assumes "read_maps f = Some m"
  shows "(\<exists>f' m'. persistPricingData data targets f = Some f' \<and> read_maps f' = Some m' \<and>
      entry m' = (\<lambda>k. if k \<in> set targets then entry_of data else entry m k)) \<and>
    (\<exists>st' m'. handleDelete name (st\<lparr>pe_form := f\<rparr>) = Some st' \<and> read_maps (pe_form st') = Some m' \<and>
      entry m' = (entry m)(name := no_entry))"
  using read_write [OF persist_all_ok [OF read_ok [OF assms]]] read_write [OF delete_ok [OF read_ok [OF assms]]]
  by (auto simp: persistPricingData_def handleDelete_def assms entry_persist_all entry_delete fun_eq_iff)

definition empty_maps :: price_maps where
  "empty_maps = \<lparr>pm_number = (\<lambda>_. []), pm_mode = [], pm_expr = []\<rparr>"

lemma read_empty: "read_maps empty_model_form = Some empty_maps"
proof -
  have "text_map [] = Some []" by code_simp
  moreover have "price_text x empty_model_form = []" for x by (cases x) (simp_all add: empty_model_form_def)
  ultimately show ?thesis by (simp add: read_maps_def price_fields_all empty_maps_def) (simp add: empty_model_form_def)
qed

definition some_data :: ModelRatioData where
  "some_data = \<lparr>md_name = ''m'', md_value = (\<lambda>_. [])(RatioF := ''2''), md_mode = PerToken, md_billingExpr = [], md_requestRuleExpr = []\<rparr>"

lemma price_save_refines_witness:
  "\<exists>f' m'. persistPricingData some_data [''m'', ''n''] empty_model_form = Some f' \<and> read_maps f' = Some m' \<and>
     entry m' = (\<lambda>k. if k \<in> {''m'', ''n''} then entry_of some_data else entry empty_maps k)"
  using conjunct1 [OF price_save_refines [OF read_empty, of some_data "[''m'', ''n'']"]] by simp

section \<open>Rows\<close>

lemma row_of_entry: "entry m n = entry m' n \<Longrightarrow> row_of m n = row_of m' n"
  by (auto simp: entry_def row_of_def full_expr_def tiered_in_def cell_text_def fun_eq_iff Let_def)

lemma in_names: "n \<in> set (model_names m) \<longleftrightarrow> entry m n \<noteq> no_entry"
proof -
  have "n \<in> set (model_names m) \<longleftrightarrow> (\<exists>x. obj_get n (pm_number m x) \<noteq> None) \<or> obj_get n (pm_mode m) \<noteq> None \<or> obj_get n (pm_expr m) \<noteq> None"
    using price_fields_all [of "\<lambda>x. n \<notin> fst ` set (pm_number m x)"]
    by (auto simp: model_names_def key_iff_get list_all_iff)
  then show ?thesis by (auto simp: entry_def no_entry_def fun_eq_iff)
qed

lemma row_name: "row_of m n = Some row \<Longrightarrow> rw_name row = n"
  by (auto simp: row_of_def Let_def split: if_splits option.splits)

lemma model_rows_set:
  "model_rows le f = Some rows \<longleftrightarrow> (\<exists>m. read_maps f = Some m \<and> (\<forall>n \<in> set (model_names m). row_of m n \<noteq> None) \<and>
     rows = sort_by (\<lambda>a b. le (rw_name a) (rw_name b)) (map (\<lambda>n. the (row_of m n)) (model_names m)))"
proof -
  have "None \<in> row_of m ` set (model_names m) \<longleftrightarrow> \<not> (\<forall>n \<in> set (model_names m). row_of m n \<noteq> None)" for m by force
  then show ?thesis by (auto simp: model_rows_def Let_def comp_def split: option.splits)
qed

lemma rows_members:
  assumes "model_rows le f = Some rows" "read_maps f = Some m"
  shows "row \<in> set rows \<longleftrightarrow> entry m (rw_name row) \<noteq> no_entry \<and> row_of m (rw_name row) = Some row"
proof -
  have rows: "set rows = (\<lambda>n. the (row_of m n)) ` set (model_names m)" "\<forall>n \<in> set (model_names m). row_of m n \<noteq> None"
    using assms by (auto simp: model_rows_set)
  show ?thesis
  proof
    assume "row \<in> set rows"
    then obtain n where n: "n \<in> set (model_names m)" "row_of m n = Some row" using rows by fastforce
    then show "entry m (rw_name row) \<noteq> no_entry \<and> row_of m (rw_name row) = Some row" using row_name [OF n(2)] by (simp add: in_names)
  next
    assume "entry m (rw_name row) \<noteq> no_entry \<and> row_of m (rw_name row) = Some row"
    then show "row \<in> set rows" using rows(1) in_names by (metis imageI option.sel)
  qed
qed

definition cell_number :: "string \<Rightarrow> bool" where
  "cell_number v \<longleftrightarrow> v = [] \<or> (\<exists>d. dec_ok d \<and> v = show_dec d)"

text \<open>
  What the editor of one model holds when it is complete and of one mode: numbers as they are shown; by
  request, a fixed price and nothing else; by token, some ratio, no fixed price and no expression; tiered,
  an expression that stands alone and rules that can be read back.
\<close>

definition data_ok :: "ModelRatioData \<Rightarrow> bool" where
  "data_ok data \<longleftrightarrow> (\<forall>x. cell_number (md_value data x)) \<and>
     (case md_mode data of
        PerRequest \<Rightarrow> md_value data PriceF \<noteq> [] \<and> (\<forall>x. x \<noteq> PriceF \<longrightarrow> md_value data x = []) \<and>
          md_billingExpr data = [] \<and> md_requestRuleExpr data = []
      | PerToken \<Rightarrow> md_value data PriceF = [] \<and> (\<exists>x. md_value data x \<noteq> []) \<and> md_billingExpr data = [] \<and> md_requestRuleExpr data = []
      | TieredExpr \<Rightarrow> plain_expression (md_billingExpr data) \<and>
          (\<exists>gs. list_all rule_ok gs \<and> list_all (\<lambda>g. list_all readable (rg_conditions g)) gs \<and>
            md_requestRuleExpr data = buildRequestRuleExpr gs))"

lemma data_split:
  assumes "data_ok data" "md_mode data = TieredExpr"
  shows "combineBillingExpr (md_billingExpr data) (md_requestRuleExpr data) \<noteq> []"
    "splitBillingExprAndRequestRules (combineBillingExpr (md_billingExpr data) (md_requestRuleExpr data)) =
      Some \<lparr>sr_billingExpr = md_billingExpr data, sr_requestRuleExpr = md_requestRuleExpr data\<rparr>"
  using assms split_plain by (auto simp: data_ok_def)

lemma number_of_cell: "cell_number v \<Longrightarrow> (case number_of v of None \<Rightarrow> [] | Some JNull \<Rightarrow> [] | Some j \<Rightarrow> json_to_string j) = v"
  using show_dec_not_empty by (auto simp: cell_number_def number_of_def)

lemma number_of_None: "cell_number v \<Longrightarrow> number_of v = None \<longleftrightarrow> v = []"
  using show_dec_not_empty by (auto simp: cell_number_def number_of_def)

lemma cell_entry: "fst (entry m n) x = j \<Longrightarrow> cell_text (pm_number m x) n = (case j of None \<Rightarrow> [] | Some JNull \<Rightarrow> [] | Some v \<Rightarrow> json_to_string v)"
  by (simp add: entry_def cell_text_def)

lemma saved_cells:
  assumes "data_ok data" "entry m n = entry_of data"
  shows "cell_text (pm_number m x) n = md_value data x"
proof -
  have plain: "cell_number (md_value data x)" for x using assms(1) by (simp add: data_ok_def)
  have "fst (entry_of data) x = (if md_value data x = [] then None else number_of (md_value data x))"
    using assms(1) by (cases "md_mode data") (auto simp: entry_of_def data_ok_def Let_def number_of_def)
  then show ?thesis
    using cell_entry [of m n x] number_of_cell [OF plain, of x] number_of_None [OF plain, of x] assms(2) by auto
qed

lemma saved_row:
  assumes "data_ok data" "entry m n = entry_of data" "n = md_name data"
  shows "\<exists>row. row_of m n = Some row \<and> edit_data row = data \<and> \<not> rw_hasConflict row"
proof -
  have cells: "cell_text (pm_number m x) (md_name data) = md_value data x" for x using saved_cells [OF assms(1,2)] by (simp add: assms(3))
  have parts: "obj_get n (pm_mode m) = fst (snd (entry_of data))" "obj_get n (pm_expr m) = snd (snd (entry_of data))"
    unfolding assms(2) [symmetric] by (simp_all add: entry_def)
  show ?thesis
  proof (cases "md_mode data")
    case TieredExpr
    then show ?thesis
      using assms(1,3) parts data_split [OF assms(1) TieredExpr]
      by (auto simp: row_of_def tiered_in_def full_expr_def cells entry_of_def data_ok_def Let_def js_or_def js_truthy_def edit_data_def
          intro!: ModelRatioData.equality)
  qed (use assms(1,3) parts in \<open>auto simp: row_of_def tiered_in_def cells entry_of_def data_ok_def Let_def edit_data_def
        ratio_fields_def intro!: ModelRatioData.equality\<close>)
qed

lemma saved_entry: "data_ok data \<Longrightarrow> entry_of data \<noteq> no_entry"
proof -
  assume ok: "data_ok data"
  have n: "number_of (md_value data x) = None \<longleftrightarrow> md_value data x = []" for x using ok number_of_None by (simp add: data_ok_def)
  show ?thesis
  proof (cases "md_mode data")
    case PerToken
    then obtain x where x: "md_value data x \<noteq> []" "md_value data PriceF = []" using ok by (auto simp: data_ok_def)
    then have "x \<noteq> PriceF" by auto
    then have "fst (entry_of data) x \<noteq> None" using PerToken ok n x by (simp add: entry_of_def data_ok_def Let_def)
    then show ?thesis by (auto simp: no_entry_def)
  next
    case PerRequest
    then have "fst (entry_of data) PriceF \<noteq> None" using ok n by (simp add: entry_of_def data_ok_def Let_def)
    then show ?thesis by (auto simp: no_entry_def)
  next
    case TieredExpr
    then show ?thesis using data_split(1) [OF ok TieredExpr] by (simp add: entry_of_def no_entry_def Let_def)
  qed
qed

text \<open>
  C38: The prices of a model that were saved are the prices its editor opens with, and no row of another model
  is touched. This is for data that belong to one mode (a fixed price alone; ratios without a fixed price;
  or an expression that stands alone with rules that can be read back): the ratios of the mode by token are
  lost beside a fixed price (token_prices_lost).
\<close>
theorem saved_prices_edit_again:
  assumes "data_ok data" "model_rows le (pe_form st) = Some rows"
  shows "\<exists>st' rows'. handleSave_price data st = Some st' \<and> model_rows le (pe_form st') = Some rows' \<and>
    (\<exists>row \<in> set rows'. edit_data row = data) \<and>
    (\<forall>row. rw_name row \<noteq> md_name data \<longrightarrow> row \<in> set rows' \<longleftrightarrow> row \<in> set rows)"
proof -
  from assms(2) obtain m where m: "read_maps (pe_form st) = Some m" by (auto simp: model_rows_set)
  let ?n = "md_name data" and ?m = "persist_model data m (md_name data)"
  let ?f = "write_maps ?m (pe_form st)"
  let ?st = "st\<lparr>pe_form := ?f, pe_editData := Some data, pe_editorOpen := True\<rparr>"
  have save: "handleSave_price data st = Some ?st" by (simp add: handleSave_price_def persistPricingData_def m)
  have read: "read_maps ?f = Some ?m" by (rule read_write [OF persist_ok [OF read_ok [OF m]]])
  obtain row where row: "row_of ?m ?n = Some row" "edit_data row = data"
    using saved_row [OF assms(1), of ?m ?n] by (auto simp: entry_persist)
  have others: "row_of ?m k = row_of m k" if "k \<noteq> ?n" for k by (rule row_of_entry) (simp add: entry_persist that)
  have "row_of ?m k \<noteq> None" if "k \<in> set (model_names ?m)" for k
  proof (cases "k = ?n")
    case False
    then have "k \<in> set (model_names m)" using that by (simp add: in_names entry_persist)
    then show ?thesis using assms(2) m others [OF False] by (auto simp: model_rows_set)
  qed (simp add: row)
  then obtain rows' where rows': "model_rows le ?f = Some rows'" by (auto simp: model_rows_set read)
  have name: "rw_name row = ?n" by (rule row_name [OF row(1)])
  have "row \<in> set rows'" by (simp add: rows_members [OF rows' read] name row(1) entry_persist saved_entry [OF assms(1)])
  moreover have "r \<in> set rows' \<longleftrightarrow> r \<in> set rows" if "rw_name r \<noteq> ?n" for r
    by (simp add: rows_members [OF rows' read] rows_members [OF assms(2) m] entry_persist others that)
  ultimately show ?thesis using save rows' row(2) by (intro exI conjI) auto
qed

lemma saved_prices_edit_again_witness:
  "\<exists>st' rows'. handleSave_price some_data
      \<lparr>pe_form = empty_model_form, pe_editData = None, pe_editorOpen = True, pe_sheetOpen = False, pe_globalFilter = [], pe_selection = []\<rparr> = Some st' \<and>
    model_rows (\<lambda>_ _. True) (pe_form st') = Some rows' \<and> (\<exists>row \<in> set rows'. edit_data row = some_data)"
proof -
  let ?st = "\<lparr>pe_form = empty_model_form, pe_editData = None, pe_editorOpen = True, pe_sheetOpen = False, pe_globalFilter = [], pe_selection = []\<rparr>"
  have "show_dec (int_dec 2) = ''2''" by code_simp
  then have "cell_number ''2''" unfolding cell_number_def by (metis dec_ok.simps)
  then have "data_ok some_data" by (auto simp: data_ok_def some_data_def cell_number_def)
  moreover have "model_rows (\<lambda>_ _. True) (pe_form ?st) = Some []"
    by (simp add: model_rows_def read_empty model_names_def empty_maps_def price_fields_def sort_by_def)
  ultimately show ?thesis using saved_prices_edit_again [of some_data "\<lambda>_ _. True" ?st "[]"] by blast
qed

text \<open>
  The handler looks at the price and not at the chosen mode, so that data of the mode by token that still hold
  a price are saved as a fixed price and all their ratios are lost.
\<close>

lemma token_prices_lost:
  assumes "read_maps (pe_form st) = Some m" "md_mode data = PerToken" "parse_float (md_value data PriceF) = Num d"
  shows "\<exists>st' m' row. handleSave_price data st = Some st' \<and> read_maps (pe_form st') = Some m' \<and> row_of m' (md_name data) = Some row \<and>
    rw_mode row = PerRequest \<and> rw_value row PriceF = show_dec d \<and> (\<forall>x. x \<noteq> PriceF \<longrightarrow> rw_value row x = [])"
proof -
  let ?n = "md_name data" and ?m = "persist_model data m (md_name data)"
  have ne: "md_value data PriceF \<noteq> []" using assms(3) by (auto simp: parse_float_def)
  then have e: "entry ?m ?n = ((\<lambda>_. None)(PriceF := Some (JNum d)), None, None)"
    using assms(2,3) by (simp add: entry_persist entry_of_def number_of_def Let_def)
  have cells: "cell_text (pm_number ?m x) ?n = (if x = PriceF then show_dec d else [])" for x
    using cell_entry [of ?m ?n x] e by simp
  have "\<not> tiered_in ?m ?n" using e by (simp add: entry_def tiered_in_def)
  then show ?thesis
    using show_dec_not_empty
    by (simp add: handleSave_price_def persistPricingData_def assms(1) read_write [OF persist_ok [OF read_ok [OF assms(1)]]] row_of_def cells Let_def)
qed

end
