(* ===== verification/PricingPanel.thy ===== *)
theory PricingPanel
  imports ModelPricesFacts
begin

text \<open>
  The panel in which the prices of one model are edited (features/system-settings/models/model-pricing-sheet.tsx).
  The form stores ratios, the panel shows prices: a product is shown when it opens, and a quotient is stored
  when a price is typed. The products and quotients are rounded (\<open>fl\<close>).
\<close>

text \<open>The pattern of a number that is being typed: digits with at most one point.\<close>

definition numeric_draft :: "string \<Rightarrow> bool" where
  "numeric_draft s = (let r = dropWhile is_digit s in r = [] \<or> hd r = CHR ''.'' \<and> list_all is_digit (tl r))"

section \<open>The state\<close>

datatype LaneKey = CompletionL | CacheL | CreateCacheL | ImageL | AudioInputL | AudioOutputL

definition lanes :: "LaneKey list" where
  "lanes = [CompletionL, CacheL, CreateCacheL, ImageL, AudioInputL, AudioOutputL]"

fun ratioFieldByLane :: "LaneKey \<Rightarrow> price_field" where
  "ratioFieldByLane CompletionL = CompletionF"
| "ratioFieldByLane CacheL = CacheF"
| "ratioFieldByLane CreateCacheL = CreateCacheF"
| "ratioFieldByLane ImageL = ImageF"
| "ratioFieldByLane AudioInputL = AudioF"
| "ratioFieldByLane AudioOutputL = AudioCompletionF"

record pricing_panel =
  pp_mode :: PricingMode
  pp_promptPrice :: string
  pp_lanePrices :: "LaneKey \<Rightarrow> string"
  pp_laneEnabled :: "LaneKey \<Rightarrow> bool"
  pp_billingExpr :: string
  pp_requestRuleExpr :: string
  pp_previewOpen :: bool
  pp_name :: string
  pp_value :: "price_field \<Rightarrow> string"
  pp_editData :: "ModelRatioData option"

definition ratioToBasePrice :: "rounding \<Rightarrow> string \<Rightarrow> string" where
  "ratioToBasePrice fl ratio = (case toNumberOrNull ratio of None \<Rightarrow> [] | Some num \<Rightarrow> formatPricingNumber (fl (fl num * 2)))"

definition deriveLanePrice :: "rounding \<Rightarrow> string \<Rightarrow> string \<Rightarrow> string" where
  "deriveLanePrice fl ratio denominator = (case (toNumberOrNull ratio, toNumberOrNull denominator) of
     (Some r, Some d) \<Rightarrow> formatPricingNumber (fl (fl r * fl d)) | _ \<Rightarrow> [])"

text \<open>\<open>createInitialLaneState\<close>: the price of the input, the prices of the lanes, and which are switched on.\<close>

definition initial_prompt :: "rounding \<Rightarrow> ModelRatioData option \<Rightarrow> string" where
  "initial_prompt fl data = (case data of None \<Rightarrow> [] | Some d \<Rightarrow> ratioToBasePrice fl (md_value d RatioF))"

definition initial_prices :: "rounding \<Rightarrow> ModelRatioData option \<Rightarrow> LaneKey \<Rightarrow> string" where
  "initial_prices fl data lane = (case data of None \<Rightarrow> [] | Some d \<Rightarrow>
     deriveLanePrice fl (md_value d (ratioFieldByLane lane))
       (if lane = AudioOutputL then deriveLanePrice fl (md_value d AudioF) (initial_prompt fl data) else initial_prompt fl data))"

definition initial_enabled :: "ModelRatioData option \<Rightarrow> LaneKey \<Rightarrow> bool" where
  "initial_enabled data lane = (case data of None \<Rightarrow> False | Some d \<Rightarrow> md_value d (ratioFieldByLane lane) \<noteq> [])"

text \<open>The effect that follows the data to edit.\<close>

definition load_panel :: "rounding \<Rightarrow> ModelRatioData option \<Rightarrow> pricing_panel" where
  "load_panel fl data =
     \<lparr>pp_mode = (case data of None \<Rightarrow> PerToken
        | Some d \<Rightarrow> if md_mode d = TieredExpr then TieredExpr else if md_value d PriceF \<noteq> [] then PerRequest else PerToken),
      pp_promptPrice = initial_prompt fl data, pp_lanePrices = initial_prices fl data, pp_laneEnabled = initial_enabled data,
      pp_billingExpr = (case data of None \<Rightarrow> [] | Some d \<Rightarrow> md_billingExpr d),
      pp_requestRuleExpr = (case data of None \<Rightarrow> [] | Some d \<Rightarrow> md_requestRuleExpr d), pp_previewOpen = True,
      pp_name = (case data of None \<Rightarrow> [] | Some d \<Rightarrow> md_name d),
      pp_value = (case data of None \<Rightarrow> (\<lambda>_. []) | Some d \<Rightarrow> md_value d), pp_editData = data\<rparr>"

section \<open>The handlers\<close>

definition setFormValue :: "price_field \<Rightarrow> string \<Rightarrow> pricing_panel \<Rightarrow> pricing_panel" where
  "setFormValue x v st = st\<lparr>pp_value := (pp_value st)(x := v)\<rparr>"

definition deriveLaneRatio :: "rounding \<Rightarrow> LaneKey \<Rightarrow> string \<Rightarrow> string \<Rightarrow> (LaneKey \<Rightarrow> string) \<Rightarrow> string" where
  "deriveLaneRatio fl lane price promptPrice lanePrices = (case toNumberOrNull price of
     None \<Rightarrow> []
   | Some priceNumber \<Rightarrow>
       (case toNumberOrNull (if lane = AudioOutputL then lanePrices AudioInputL else promptPrice) of
          None \<Rightarrow> []
        | Some base \<Rightarrow> if fl base = 0 then [] else formatPricingNumber (fl (fl priceNumber / fl base))))"

definition sync_lane :: "rounding \<Rightarrow> string \<Rightarrow> pricing_panel \<Rightarrow> LaneKey \<Rightarrow> pricing_panel" where
  "sync_lane fl promptPrice st key = setFormValue (ratioFieldByLane key)
     (if pp_laneEnabled st key then deriveLaneRatio fl key (pp_lanePrices st key) promptPrice (pp_lanePrices st) else []) st"

definition syncLaneRatios :: "rounding \<Rightarrow> string \<Rightarrow> pricing_panel \<Rightarrow> pricing_panel" where
  "syncLaneRatios fl promptPrice st = foldl (sync_lane fl promptPrice)
     (setFormValue RatioF (case toNumberOrNull promptPrice of Some p \<Rightarrow> formatPricingNumber (fl (fl p / 2)) | None \<Rightarrow> []) st) lanes"

definition handlePromptPriceChange :: "rounding \<Rightarrow> string \<Rightarrow> pricing_panel \<Rightarrow> pricing_panel" where
  "handlePromptPriceChange fl value st = (if \<not> numeric_draft value then st else syncLaneRatios fl value (st\<lparr>pp_promptPrice := value\<rparr>))"

definition handleLanePriceChange :: "rounding \<Rightarrow> LaneKey \<Rightarrow> string \<Rightarrow> pricing_panel \<Rightarrow> pricing_panel" where
  "handleLanePriceChange fl lane value st =
     (if \<not> numeric_draft value then st
      else let nextLanePrices = (pp_lanePrices st)(lane := value);
               st1 = st\<lparr>pp_lanePrices := nextLanePrices\<rparr>;
               st2 = (if pp_laneEnabled st lane
                 then setFormValue (ratioFieldByLane lane) (deriveLaneRatio fl lane value (pp_promptPrice st) nextLanePrices) st1 else st1)
           in if lane = AudioInputL \<and> pp_laneEnabled st AudioOutputL
              then setFormValue AudioCompletionF (deriveLaneRatio fl AudioOutputL (nextLanePrices AudioOutputL) (pp_promptPrice st) nextLanePrices) st2
              else st2)"

definition handleLaneToggle :: "rounding \<Rightarrow> LaneKey \<Rightarrow> bool \<Rightarrow> pricing_panel \<Rightarrow> pricing_panel" where
  "handleLaneToggle fl lane checked st =
     (let nextEnabled = (pp_laneEnabled st)(lane := checked)
      in if checked
         then setFormValue (ratioFieldByLane lane) (deriveLaneRatio fl lane (pp_lanePrices st lane) (pp_promptPrice st) (pp_lanePrices st))
                (st\<lparr>pp_laneEnabled := nextEnabled\<rparr>)
         else if lane = AudioInputL
         then setFormValue AudioCompletionF [] (setFormValue (ratioFieldByLane lane) []
                (st\<lparr>pp_laneEnabled := nextEnabled(AudioOutputL := False), pp_lanePrices := (pp_lanePrices st)(lane := [], AudioOutputL := [])\<rparr>))
         else setFormValue (ratioFieldByLane lane) []
                (st\<lparr>pp_laneEnabled := nextEnabled, pp_lanePrices := (pp_lanePrices st)(lane := [])\<rparr>))"

definition handleModeChange :: "PricingMode \<Rightarrow> pricing_panel \<Rightarrow> pricing_panel" where
  "handleModeChange nextMode st = (let st1 = st\<lparr>pp_mode := nextMode\<rparr>
     in if nextMode = TieredExpr \<and> pp_billingExpr st = []
        then st1\<lparr>pp_billingExpr := ''tier('' @ quote_char # ''base'' @ quote_char # '', p * 0 + c * 0)''\<rparr> else st1)"

definition type_price :: "string \<Rightarrow> pricing_panel \<Rightarrow> pricing_panel" where
  "type_price value st = (if numeric_draft value then setFormValue PriceF value st else st)"

definition has_lane_price :: "pricing_panel \<Rightarrow> bool" where
  "has_lane_price st = list_ex (\<lambda>key. pp_laneEnabled st key \<and> pp_lanePrices st key \<noteq> []) lanes"

definition has_conflict :: "ModelRatioData option \<Rightarrow> bool" where
  "has_conflict data = (case data of None \<Rightarrow> False
     | Some d \<Rightarrow> md_value d PriceF \<noteq> [] \<and> list_ex (\<lambda>x. md_value d x \<noteq> [])
         [RatioF, CompletionF, CacheF, CreateCacheF, ImageF, AudioF, AudioCompletionF])"

definition panel_warnings :: "(string \<Rightarrow> string) \<Rightarrow> pricing_panel \<Rightarrow> string list" where
  "panel_warnings t st =
     (if has_conflict (pp_editData st)
      then [t ''This model has both fixed-price and token-price settings. Saving the current mode will rewrite the conflicting fields.'']
      else []) @
     (if pp_mode st = PerToken \<and> toNumberOrNull (pp_promptPrice st) = None \<and> has_lane_price st
      then [t ''Input price is required before saving dependent prices.''] else []) @
     (if pp_mode st = PerToken \<and> pp_laneEnabled st AudioOutputL \<and> pp_lanePrices st AudioInputL = []
      then [t ''Audio output price requires an audio input price.''] else [])"

text \<open>Inl: the field of the form that gets an error.\<close>

definition buildValidatedData :: "string option \<Rightarrow> pricing_panel \<Rightarrow> price_field + ModelRatioData" where
  "buildValidatedData nameOverride st =
     (if pp_mode st = PerToken \<and> toNumberOrNull (pp_promptPrice st) = None \<and> has_lane_price st then Inl RatioF
      else if pp_mode st = PerToken \<and> pp_laneEnabled st AudioOutputL \<and> pp_lanePrices st AudioInputL = [] then Inl AudioF
      else Inr \<lparr>md_name = js_trim (case nameOverride of Some n \<Rightarrow> n | None \<Rightarrow> pp_name st), md_value = pp_value st, md_mode = pp_mode st,
                md_billingExpr = (if pp_mode st = TieredExpr then pp_billingExpr st else []),
                md_requestRuleExpr = (if pp_mode st = TieredExpr then pp_requestRuleExpr st else [])\<rparr>)"

datatype panel_outcome = Ignored | NameRequired | FieldError price_field | Saves ModelRatioData

text \<open>The submit of the form, which the form library lets through when there is a name.\<close>

definition handleSubmit_panel :: "bool \<Rightarrow> string option \<Rightarrow> pricing_panel \<Rightarrow> panel_outcome" where
  "handleSubmit_panel embedded nameOverride st =
     (if pp_name st = [] then NameRequired
      else if embedded then Ignored
      else case buildValidatedData nameOverride st of Inl x \<Rightarrow> FieldError x | Inr data \<Rightarrow> Saves data)"

definition submit_handle :: "bool \<Rightarrow> string option \<Rightarrow> pricing_panel \<Rightarrow> ModelRatioData option" where
  "submit_handle embedded nameOverride st =
     (if \<not> embedded \<and> pp_name st = [] then None
      else case buildValidatedData nameOverride st of Inl x \<Rightarrow> None | Inr data \<Rightarrow> Some data)"

section \<open>The preview\<close>

record PreviewRow =
  pv_key :: string
  pv_label :: string
  pv_value :: string
  pv_multiline :: bool

definition lane_preview :: "(string \<Rightarrow> string) \<Rightarrow> pricing_panel \<Rightarrow> string \<Rightarrow> string \<Rightarrow> LaneKey \<Rightarrow> PreviewRow" where
  "lane_preview t st key label lane = \<lparr>pv_key = key, pv_label = t label,
     pv_value = (if pp_laneEnabled st lane \<and> pp_lanePrices st lane \<noteq> [] then CHR ''$'' # pp_lanePrices st lane else t ''Empty''),
     pv_multiline = False\<rparr>"

definition buildPreviewRows :: "(string \<Rightarrow> string) \<Rightarrow> pricing_panel \<Rightarrow> PreviewRow list" where
  "buildPreviewRows t st = (case pp_mode st of
     TieredExpr \<Rightarrow>
       (let effectiveExpr = combineBillingExpr (pp_billingExpr st) (pp_requestRuleExpr st)
        in [\<lparr>pv_key = ''mode'', pv_label = ''BillingMode'', pv_value = ''tiered_expr'', pv_multiline = False\<rparr>,
            \<lparr>pv_key = ''expr'', pv_label = t ''Expression'',
             pv_value = (if effectiveExpr \<noteq> [] then effectiveExpr else t ''Empty''), pv_multiline = True\<rparr>])
   | PerRequest \<Rightarrow>
       [\<lparr>pv_key = ''price'', pv_label = ''ModelPrice'',
         pv_value = (if pp_value st PriceF \<noteq> [] then pp_value st PriceF else t ''Empty''), pv_multiline = False\<rparr>]
   | PerToken \<Rightarrow>
       [\<lparr>pv_key = ''inputPrice'', pv_label = t ''Input price'',
         pv_value = (if pp_promptPrice st \<noteq> [] then CHR ''$'' # pp_promptPrice st else t ''Empty''), pv_multiline = False\<rparr>,
        lane_preview t st ''completion'' ''Completion price'' CompletionL, lane_preview t st ''cache'' ''Cache read price'' CacheL,
        lane_preview t st ''createCache'' ''Cache write price'' CreateCacheL, lane_preview t st ''image'' ''Image input price'' ImageL,
        lane_preview t st ''audio'' ''Audio input price'' AudioInputL,
        lane_preview t st ''audioCompletion'' ''Audio output price'' AudioOutputL])"

end
