(* ===== verification/PricingPanelFacts.thy ===== *)
theory PricingPanelFacts
  imports PricingPanel
begin

text \<open>
  Facts about the price panel: a number that differs by floating-point drift from one with at most eight decimals is
  written as that one, so that prices and ratios go back and forth without loss; what is switched off is not saved;
  and where prices are lost.
\<close>

section \<open>Short numbers\<close>

definition short_rat :: "rat \<Rightarrow> bool" where
  "short_rat v \<longleftrightarrow> (\<exists>k. v = of_int k / 10 ^ 8 \<and> \<bar>k\<bar> < 10 ^ 14)"

lemma round_int: "\<lfloor>of_int k + 1 / 2 :: rat\<rfloor> = k"
  by linarith

lemma dec_rat_norm: "dec_rat (norm_dec m e) = of_int m / 10 ^ e"
proof (induction m e rule: norm_dec.induct)
  case (2 m e)
  show ?case
  proof (cases "m mod 10 = 0")
    case True
    then obtain k where "m = 10 * k" by auto
    then show ?thesis using 2 by simp
  qed simp
qed simp

lemma dec_rat_inj:
  assumes "dec_ok a" "dec_ok b" "dec_rat a = dec_rat b"
  shows "a = b"
proof -
  have same: "Dec m e = Dec n f" if "dec_ok (Dec n f)" "dec_rat (Dec m e) = dec_rat (Dec n f)" "e \<le> f" for m n e f
  proof -
    have "(of_int m :: rat) * 10 ^ f = of_int n * 10 ^ e" using that(2) by (simp add: field_simps)
    moreover have "(10 :: rat) ^ f = 10 ^ (f - e) * 10 ^ e" using that(3) by (simp flip: power_add)
    ultimately have "(of_int (m * 10 ^ (f - e)) :: rat) = of_int n" by simp
    then have n: "n = m * 10 ^ (f - e)" by (simp only: of_int_eq_iff)
    have "f = e"
    proof (rule ccontr)
      assume "f \<noteq> e"
      then have "f - e = Suc (f - e - 1)" using that(3) by simp
      then have "n = 10 * (m * 10 ^ (f - e - 1))" unfolding n by (metis mult.left_commute power_Suc)
      then have "n mod 10 = 0" by simp
      then show False using that(1) \<open>f \<noteq> e\<close> that(3) by simp
    qed
    then show ?thesis using n by simp
  qed
  show ?thesis
    by (cases a; cases b; metis same assms nat_le_linear)
qed

text \<open>A computed number and the exact one: \<open>n\<close> rounding errors apart.\<close>

definition near :: "nat \<Rightarrow> rat \<Rightarrow> rat \<Rightarrow> bool" where
  "near n v a \<longleftrightarrow> (\<exists>e. v = a * (1 + e) \<and> \<bar>e\<bar> \<le> of_nat n / 2 ^ 53)"

lemma near_refl [simp]: "near n v v"
  unfolding near_def by (rule exI [of _ 0]) simp

lemma near_mono: "near n v a \<Longrightarrow> n \<le> m \<Longrightarrow> near m v a"
  unfolding near_def using divide_right_mono [of "of_nat n :: rat" "of_nat m" "2 ^ 53"] by (auto intro: order_trans)

lemma near_zero: "near n v 0 \<longleftrightarrow> v = 0"
  by (auto simp: near_def intro: exI [of _ 0])

text \<open>Errors of at most eight roundings add up, with one more for their product.\<close>

lemma errors_add:
  fixes e f :: rat
  assumes "\<bar>e\<bar> \<le> of_nat n / 2 ^ 53" "\<bar>f\<bar> \<le> of_nat m / 2 ^ 53" "n \<le> 8" "m \<le> 8"
  shows "\<bar>e + f + e * f\<bar> \<le> of_nat (n + m + 1) / 2 ^ 53"
proof -
  have n: "\<bar>e\<bar> \<le> 8 / 2 ^ 53" and m: "\<bar>f\<bar> \<le> 8 / 2 ^ 53"
    using assms by (auto elim!: order_trans intro!: divide_right_mono simp: of_nat_le_numeral_iff)
  have "\<bar>e * f\<bar> \<le> 8 / 2 ^ 53 * (8 / 2 ^ 53)"
    unfolding abs_mult by (rule mult_mono [OF n m]) simp_all
  also have "\<dots> \<le> 1 / 2 ^ 53" by simp
  finally have "\<bar>e * f\<bar> \<le> 1 / 2 ^ 53" .
  moreover have "\<bar>e + f + e * f\<bar> \<le> \<bar>e\<bar> + \<bar>f\<bar> + \<bar>e * f\<bar>" by linarith
  ultimately have "\<bar>e + f + e * f\<bar> \<le> of_nat n / 2 ^ 53 + of_nat m / 2 ^ 53 + 1 / 2 ^ 53" using assms by linarith
  then show ?thesis by (simp only: of_nat_add of_nat_1 add_divide_distrib)
qed

lemma near_mult:
  assumes "near n v a" "near m w b" "n \<le> 8" "m \<le> 8"
  shows "near (n + m + 1) (v * w) (a * b)"
proof -
  obtain e f where e: "v = a * (1 + e)" "\<bar>e\<bar> \<le> of_nat n / 2 ^ 53" and f: "w = b * (1 + f)" "\<bar>f\<bar> \<le> of_nat m / 2 ^ 53"
    using assms by (auto simp: near_def)
  have "v * w = a * b * (1 + (e + f + e * f))" unfolding e f by (simp add: algebra_simps)
  with errors_add [OF e(2) f(2) assms(3,4)] show ?thesis unfolding near_def by blast
qed

lemma near_inverse:
  assumes "near m w b" "m \<le> 4"
  shows "near (m + 1) (1 / w) (1 / b)"
proof (cases "b = 0")
  case True
  then show ?thesis using assms(1) by (simp add: near_zero)
next
  case False
  obtain f where f: "w = b * (1 + f)" "\<bar>f\<bar> \<le> of_nat m / 2 ^ 53" using assms(1) by (auto simp: near_def)
  have m: "\<bar>f\<bar> \<le> 4 / 2 ^ 53" using f(2) assms(2) by (auto elim!: order_trans intro!: divide_right_mono simp: of_nat_le_numeral_iff)
  have "\<bar>f\<bar> \<le> 1 / 2" by (rule order_trans [OF m]) simp
  then have pos: "0 < 1 + f" by linarith
  let ?g = "- f / (1 + f)"
  have "1 + ?g = 1 / (1 + f)" using pos by (simp add: field_simps)
  then have "1 / w = 1 / b * (1 + ?g)" using f(1) by simp
  moreover have "\<bar>?g\<bar> \<le> of_nat (m + 1) / 2 ^ 53"
  proof -
    have "\<bar>f\<bar> \<le> of_nat (m + 1) / 2 ^ 53 * (1 + f)"
    proof -
      have "of_nat (m + 1) / 2 ^ 53 * \<bar>f\<bar> \<le> 5 / 2 ^ 53 * (4 / 2 ^ 53)"
        using assms(2) by (intro mult_mono m divide_right_mono) (simp_all add: of_nat_le_numeral_iff)
      also have "\<dots> \<le> 1 / 2 ^ 53" by simp
      finally have "of_nat (m + 1) / 2 ^ 53 * \<bar>f\<bar> \<le> 1 / 2 ^ 53" .
      moreover have "- (of_nat (m + 1) / 2 ^ 53 * f) \<le> of_nat (m + 1) / 2 ^ 53 * \<bar>f\<bar>"
        unfolding mult_minus_right [symmetric] by (rule mult_left_mono) simp_all
      moreover have "of_nat (m + 1) / 2 ^ 53 * (1 + f) = of_nat m / 2 ^ 53 + 1 / 2 ^ 53 + of_nat (m + 1) / 2 ^ 53 * f"
        by (simp add: distrib_left add_divide_distrib)
      ultimately show ?thesis using f(2) by linarith
    qed
    then show ?thesis using pos by (simp add: pos_divide_le_eq abs_divide)
  qed
  ultimately show ?thesis unfolding near_def by blast
qed

text \<open>The sizes on which rounding is known.\<close>

definition moderate :: "rat \<Rightarrow> bool" where
  "moderate a \<longleftrightarrow> a = 0 \<or> 1 / 10 ^ 19 \<le> \<bar>a\<bar> \<and> \<bar>a\<bar> \<le> 10 ^ 19"

lemma near_round:
  assumes fl: "rounds fl" and near: "near n v a" and "n \<le> 7" and a: "moderate a"
  shows "near (n + 2) (fl v) a"
proof (cases "a = 0")
  case True
  then show ?thesis using near fl by (simp add: near_zero rounds_def)
next
  case False
  obtain e where e: "v = a * (1 + e)" "\<bar>e\<bar> \<le> of_nat n / 2 ^ 53" using near by (auto simp: near_def)
  have "of_nat n / 2 ^ 53 \<le> (7 :: rat) / 2 ^ 53" using assms(3) by (intro divide_right_mono) (simp_all add: of_nat_le_numeral_iff)
  then have "\<bar>e\<bar> \<le> 7 / 2 ^ 53" by (rule order_trans [OF e(2)])
  then have "\<bar>e\<bar> \<le> 1 / 2" by (rule order_trans) simp
  then have f: "1 / 2 \<le> 1 + e" "1 + e \<le> 2" by linarith+
  have v: "\<bar>v\<bar> = \<bar>a\<bar> * (1 + e)" using f by (simp add: e(1) abs_mult)
  have "1 / 10 ^ 19 * (1 / 2) \<le> \<bar>v\<bar>" "\<bar>v\<bar> \<le> 10 ^ 19 * 2"
    unfolding v using a False f by (intro mult_mono; simp add: moderate_def)+
  then have "\<bar>fl v - v\<bar> \<le> \<bar>v\<bar> / 2 ^ 53" using fl by (simp add: rounds_def)
  moreover have "v \<noteq> 0" using False f by (simp add: e(1))
  ultimately have d: "\<bar>(fl v - v) / v\<bar> \<le> of_nat 1 / 2 ^ 53" by (simp add: abs_divide divide_le_eq field_simps)
  define g where "g = (fl v - v) / v"
  have "fl v = v * (1 + g)" using \<open>v \<noteq> 0\<close> by (simp add: g_def field_simps)
  then have "fl v = a * (1 + (e + g + e * g))" unfolding e(1) by (simp add: algebra_simps)
  moreover have "\<bar>e + g + e * g\<bar> \<le> of_nat (n + 1 + 1) / 2 ^ 53"
    by (rule errors_add [OF e(2) d [folded g_def]]) (use assms(3) in simp_all)
  ultimately show ?thesis unfolding near_def by auto
qed

text \<open>The repair: a number that is eight rounding errors off one with at most eight decimals becomes that one.\<close>

lemma snap_near:
  assumes "short_rat d" "near 8 v d"
  shows "snapFloatDrift v = d"
proof -
  obtain k where d: "d = of_int k / 10 ^ 8" and k: "\<bar>k\<bar> < 10 ^ 14" using assms(1) by (auto simp: short_rat_def)
  obtain e where e: "v = d * (1 + e)" "\<bar>e\<bar> \<le> 8 / 2 ^ 53" using assms(2) by (auto simp: near_def)
  have size: "\<bar>d\<bar> < 10 ^ 6" using k by (simp add: d abs_divide divide_less_eq)
  have off: "\<bar>v - d\<bar> = \<bar>d\<bar> * \<bar>e\<bar>" by (simp add: e(1) algebra_simps abs_mult)
  have drift: "\<bar>v - d\<bar> \<le> \<bar>d\<bar> * (8 / 2 ^ 53)" unfolding off by (rule mult_left_mono [OF e(2)]) simp
  then have small: "\<bar>v - d\<bar> \<le> 1 / 10 ^ 9" using size by simp
  have tol: "snap_tolerance v < 5 / 10 ^ 9"
  proof -
    have "\<bar>v - d\<bar> \<le> 1" by (rule order_trans [OF small]) simp
    then have "\<bar>v\<bar> \<le> 10 ^ 6 + 1" using size unfolding power_numeral by linarith
    then show ?thesis by (simp add: snap_tolerance_def)
  qed
  have same: "roundToDecimals v n = d" if "n \<in> set [0..<9]" "\<bar>v - roundToDecimals v n\<bar> \<le> snap_tolerance v" for n
  proof -
    define j where "j = \<lfloor>v * 10 ^ n + 1 / 2\<rfloor> * 10 ^ (8 - n)"
    have "(10 :: rat) ^ 8 = 10 ^ n * 10 ^ (8 - n)" using that(1) by (simp flip: power_add)
    then have r: "roundToDecimals v n = of_int j / 10 ^ 8" by (simp add: roundToDecimals_def j_def field_simps)
    have "\<bar>d - roundToDecimals v n\<bar> < 5 / 10 ^ 9 + 1 / 10 ^ 9" using that(2) tol small by linarith
    then have "\<bar>d - roundToDecimals v n\<bar> < 1 / 10 ^ 8" by (rule order_less_trans) simp
    then have "\<bar>of_int k - of_int j :: rat\<bar> / 10 ^ 8 < 1 / 10 ^ 8"
      unfolding r d by (simp add: diff_divide_distrib [symmetric] abs_divide)
    then have "\<bar>of_int k - of_int j :: rat\<bar> < 1" by simp
    then have "j = k" by linarith
    then show ?thesis by (simp only: r d)
  qed
  have found: "\<bar>v - roundToDecimals v 8\<bar> \<le> snap_tolerance v"
  proof -
    have "\<bar>v * 10 ^ 8 - of_int k\<bar> < 1 / 2" using small by (simp add: d abs_if split: if_splits)
    then have "\<lfloor>v * 10 ^ 8 + 1 / 2\<rfloor> = k" by linarith
    then have r: "roundToDecimals v 8 = d" by (simp add: roundToDecimals_def d)
    have "\<bar>d\<bar> \<le> \<bar>v\<bar> * 2"
    proof -
      have "\<bar>d\<bar> * (8 / 2 ^ 53) \<le> \<bar>d\<bar> / 2" by simp
      then show ?thesis using drift by linarith
    qed
    then have "\<bar>d\<bar> * (8 / 2 ^ 53) \<le> \<bar>v\<bar> * (1 / 2 ^ 52) * 8" by simp
    then show ?thesis unfolding r snap_tolerance_def using drift by linarith
  qed
  then have "List.find (\<lambda>n. \<bar>v - roundToDecimals v n\<bar> \<le> snap_tolerance v) [0..<9] \<noteq> None"
    unfolding find_None_iff by (intro notI) (auto dest: spec [of _ 8])
  then obtain n where n: "List.find (\<lambda>n. \<bar>v - roundToDecimals v n\<bar> \<le> snap_tolerance v) [0..<9] = Some n" by blast
  then have "n \<in> set [0..<9]" "\<bar>v - roundToDecimals v n\<bar> \<le> snap_tolerance v" by (metis find_Some_iff nth_mem)+
  then show ?thesis using same n by (simp add: snapFloatDrift_def)
qed

lemma format_near:
  assumes "short_rat v" "near 8 w v"
  shows "\<exists>d. dec_ok d \<and> formatPricingNumber w = show_dec d \<and> dec_rat d = v"
proof -
  obtain k where v: "v = of_int k / 10 ^ 8" using assms by (auto simp: short_rat_def)
  have "fixed_digits v = k * 10 ^ 4"
  proof -
    have a: "v * 10 ^ 12 = of_int (k * 10 ^ 4)" "- v * 10 ^ 12 = of_int (- (k * 10 ^ 4))" by (simp_all add: v)
    show ?thesis unfolding fixed_digits_def a round_int by simp
  qed
  then have f: "formatPricingNumber w = show_dec (norm_dec (k * 10 ^ 4) 12)"
    using snap_near [OF assms] by (simp add: formatPricingNumber_def scale_dec_def)
  show ?thesis unfolding f
    by (intro exI [of _ "norm_dec (k * 10 ^ 4) 12"] conjI dec_ok_norm_dec refl) (simp add: dec_rat_norm v)
qed

lemma format_dec: "dec_ok d \<Longrightarrow> short_rat (dec_rat d) \<Longrightarrow> near 8 w (dec_rat d) \<Longrightarrow> formatPricingNumber w = show_dec d"
  using format_near dec_rat_inj by metis

lemma number_show [simp]: "dec_ok d \<Longrightarrow> toNumberOrNull (show_dec d) = Some (dec_rat d)"
  using show_dec_not_empty by (simp add: toNumberOrNull_def)

lemma number_empty [simp]: "toNumberOrNull [] = None"
  by (simp add: toNumberOrNull_def)

lemma near_rounded: "rounds fl \<Longrightarrow> moderate v \<Longrightarrow> near 2 (fl v) v"
  using near_round [of fl 0 v v] by (simp add: numeral_2_eq_2)

lemma short_moderate: "short_rat d \<Longrightarrow> moderate d"
proof -
  assume "short_rat d"
  then obtain k where k: "d = of_int k / 10 ^ 8" "\<bar>k\<bar> < 10 ^ 14" by (auto simp: short_rat_def)
  have "k = 0 \<or> 1 \<le> \<bar>of_int k :: rat\<bar>" by linarith
  moreover have "\<bar>of_int k :: rat\<bar> < 10 ^ 14" using k(2) unfolding of_int_less_iff [symmetric, where 'a = rat] by simp
  ultimately show ?thesis by (auto simp: moderate_def k(1) abs_divide divide_le_eq)
qed

text \<open>The three computations of the panel, on short numbers.\<close>

lemma near_product:
  assumes "rounds fl" "short_rat a" "short_rat b" "short_rat (a * b)"
  shows "near 8 (fl (fl a * fl b)) (a * b)"
proof -
  have "near 2 (fl a) a" "near 2 (fl b) b"
    using near_rounded [OF assms(1)] short_moderate assms by blast+
  then have "near 5 (fl a * fl b) (a * b)" using near_mult [of 2 "fl a" a 2 "fl b" b] by simp
  then have "near 7 (fl (fl a * fl b)) (a * b)" using near_round [OF assms(1), of 5] short_moderate [OF assms(4)] by simp
  then show ?thesis by (rule near_mono) simp
qed

lemma near_quotient:
  assumes "rounds fl" "short_rat a" "short_rat b" "b \<noteq> 0" "short_rat (a * b)"
  shows "near 8 (fl (fl (a * b) / fl b)) a" "fl b \<noteq> 0"
proof -
  have n: "near 2 (fl (a * b)) (a * b)" "near 2 (fl b) b"
    using near_rounded [OF assms(1)] short_moderate assms by blast+
  have "near 6 (fl (a * b) * (1 / fl b)) (a * b * (1 / b))"
    using near_mult [OF n(1) near_inverse [OF n(2)]] by simp
  then have "near 6 (fl (a * b) / fl b) a" using assms(4) by simp
  then show "near 8 (fl (fl (a * b) / fl b)) a" using near_round [OF assms(1), of 6] short_moderate [OF assms(2)] by simp
  obtain f where "fl b = b * (1 + f)" "\<bar>f\<bar> \<le> 2 / 2 ^ 53" using n(2) by (auto simp: near_def)
  then show "fl b \<noteq> 0" using assms(4) by auto
qed

lemma near_double:
  assumes "rounds fl" "short_rat r" "short_rat (r * 2)"
  shows "near 8 (fl (fl r * 2)) (r * 2)" "near 8 (fl (fl (r * 2) / 2)) r"
proof -
  have n: "near 2 (fl r) r" "near 2 (fl (r * 2)) (r * 2)"
    using near_rounded [OF assms(1)] short_moderate assms by blast+
  have "near 3 (fl r * 2) (r * 2)" "near 3 (fl (r * 2) * (1 / 2)) (r * 2 * (1 / 2))"
    using near_mult [OF n(1) near_refl [of 0 2]] near_mult [OF n(2) near_refl [of 0 "1 / 2"]] by simp_all
  then have "near 5 (fl (fl r * 2)) (r * 2)" "near 5 (fl (fl (r * 2) / 2)) r"
    using near_round [OF assms(1), of 3] short_moderate assms by simp_all
  then show "near 8 (fl (fl r * 2)) (r * 2)" "near 8 (fl (fl (r * 2) / 2)) r" by (auto elim: near_mono)
qed

section \<open>Prices and ratios\<close>

lemma sync_values: "pp_value (foldl (sync_lane fl p) st ks) x =
    (case List.find (\<lambda>k. ratioFieldByLane k = x) (rev ks) of
       Some k \<Rightarrow> if pp_laneEnabled st k then deriveLaneRatio fl k (pp_lanePrices st k) p (pp_lanePrices st) else []
     | None \<Rightarrow> pp_value st x) \<and>
    pp_laneEnabled (foldl (sync_lane fl p) st ks) = pp_laneEnabled st \<and> pp_lanePrices (foldl (sync_lane fl p) st ks) = pp_lanePrices st"
  by (induction ks rule: rev_induct) (auto simp: sync_lane_def setFormValue_def)

lemma find_lane: "List.find (\<lambda>k. ratioFieldByLane k = x) (rev lanes) =
    (case x of CompletionF \<Rightarrow> Some CompletionL | CacheF \<Rightarrow> Some CacheL | CreateCacheF \<Rightarrow> Some CreateCacheL | ImageF \<Rightarrow> Some ImageL
     | AudioF \<Rightarrow> Some AudioInputL | AudioCompletionF \<Rightarrow> Some AudioOutputL | _ \<Rightarrow> None)"
  by (cases x) (simp_all add: lanes_def)

lemma lane_field_inj: "ratioFieldByLane a = ratioFieldByLane b \<longleftrightarrow> a = b"
  by (cases a; cases b) simp_all

lemma lane_field_eq:
  "ratioFieldByLane a = CompletionF \<longleftrightarrow> a = CompletionL" "ratioFieldByLane a = CacheF \<longleftrightarrow> a = CacheL"
  "ratioFieldByLane a = CreateCacheF \<longleftrightarrow> a = CreateCacheL" "ratioFieldByLane a = ImageF \<longleftrightarrow> a = ImageL"
  "ratioFieldByLane a = AudioF \<longleftrightarrow> a = AudioInputL" "ratioFieldByLane a = AudioCompletionF \<longleftrightarrow> a = AudioOutputL"
  by (cases a; simp)+

lemma lane_field_not: "ratioFieldByLane a \<noteq> PriceF" "ratioFieldByLane a \<noteq> RatioF"
  by (cases a; simp)+

lemma sync_fields:
  "pp_value (syncLaneRatios fl p st) (ratioFieldByLane lane) =
     (if pp_laneEnabled st lane then deriveLaneRatio fl lane (pp_lanePrices st lane) p (pp_lanePrices st) else [])"
  "pp_value (syncLaneRatios fl p st) PriceF = pp_value st PriceF"
  "pp_value (syncLaneRatios fl p st) RatioF = (case toNumberOrNull p of Some v \<Rightarrow> formatPricingNumber (fl (fl v / 2)) | None \<Rightarrow> [])"
  "pp_laneEnabled (syncLaneRatios fl p st) = pp_laneEnabled st" "pp_lanePrices (syncLaneRatios fl p st) = pp_lanePrices st"
  by (cases lane; simp add: syncLaneRatios_def sync_values find_lane setFormValue_def)
     (simp_all add: syncLaneRatios_def sync_values find_lane setFormValue_def)

lemma sync_frame: "pp_mode (foldl (sync_lane fl p) st ks) = pp_mode st \<and> pp_promptPrice (foldl (sync_lane fl p) st ks) = pp_promptPrice st \<and>
    pp_name (foldl (sync_lane fl p) st ks) = pp_name st \<and> pp_billingExpr (foldl (sync_lane fl p) st ks) = pp_billingExpr st \<and>
    pp_requestRuleExpr (foldl (sync_lane fl p) st ks) = pp_requestRuleExpr st"
  by (induction ks rule: rev_induct) (auto simp: sync_lane_def setFormValue_def)

lemma sync_rest: "pp_mode (syncLaneRatios fl p st) = pp_mode st" "pp_promptPrice (syncLaneRatios fl p st) = pp_promptPrice st" "pp_name (syncLaneRatios fl p st) = pp_name st"
  by (simp_all add: syncLaneRatios_def sync_frame setFormValue_def)

lemma field_cases: "x = PriceF \<or> x = RatioF \<or> (\<exists>lane. x = ratioFieldByLane lane)"
  by (cases x) (metis ratioFieldByLane.simps)+

text \<open>What a lane is relative to: the price of the audio input for the audio output, the price of the input for the others.\<close>

definition lane_base :: "ModelRatioData \<Rightarrow> LaneKey \<Rightarrow> rat option" where
  "lane_base d lane = (case toNumberOrNull (md_value d RatioF) of None \<Rightarrow> None
     | Some r \<Rightarrow> if lane = AudioOutputL then map_option (\<lambda>a. a * (r * 2)) (toNumberOrNull (md_value d AudioF)) else Some (r * 2))"

definition lane_short :: "ModelRatioData \<Rightarrow> LaneKey \<Rightarrow> bool" where
  "lane_short d lane \<longleftrightarrow> md_value d (ratioFieldByLane lane) = [] \<or>
     (\<exists>l b. dec_ok l \<and> md_value d (ratioFieldByLane lane) = show_dec l \<and> short_rat (dec_rat l) \<and>
        lane_base d lane = Some b \<and> b \<noteq> 0 \<and> short_rat b \<and> short_rat (dec_rat l * b))"

lemma price_and_back:
  assumes "rounds fl" "dec_ok l" "short_rat (dec_rat l)" "short_rat b" "b \<noteq> 0" "short_rat (dec_rat l * b)" "toNumberOrNull base = Some b"
  shows "\<exists>q. deriveLanePrice fl (show_dec l) base = q \<and> toNumberOrNull q = Some (dec_rat l * b) \<and>
    formatPricingNumber (fl (fl (dec_rat l * b) / fl b)) = show_dec l"
proof -
  obtain q where "dec_ok q" "formatPricingNumber (fl (fl (dec_rat l) * fl b)) = show_dec q" "dec_rat q = dec_rat l * b"
    using format_near [OF assms(6) near_product [OF assms(1,3,4,6)]] by blast
  then show ?thesis using assms format_dec [OF assms(2,3) near_quotient(1) [OF assms(1,3,4,5,6)]] by (simp add: deriveLanePrice_def)
qed


text \<open>A rounding that is off by the largest error at every step.\<close>

definition round_up :: rounding where
  "round_up x = x * (1 + 1 / 2 ^ 53)"

lemma rounds_up: "rounds round_up"
proof -
  have "\<bar>round_up x - x\<bar> = \<bar>x\<bar> / 2 ^ 53" for x by (simp add: round_up_def algebra_simps abs_mult)
  then show ?thesis by (simp add: rounds_def) (simp add: round_up_def)
qed

definition short_data :: ModelRatioData where
  "short_data = \<lparr>md_name = ''m'', md_value = (\<lambda>_. [])(RatioF := ''2.5'', CompletionF := ''4''), md_mode = PerToken,
     md_billingExpr = [], md_requestRuleExpr = []\<rparr>"

lemma short_int: "\<bar>k\<bar> < 10 ^ 6 \<Longrightarrow> short_rat (of_int k)"
  unfolding short_rat_def by (rule exI [of _ "k * 10 ^ 8"]) (simp add: abs_mult)


section \<open>What is saved\<close>

text \<open>Everything that can be done in the panel but typing a fixed price.\<close>

inductive token_edit :: "rounding \<Rightarrow> pricing_panel \<Rightarrow> pricing_panel \<Rightarrow> bool" for fl where
  prompt: "token_edit fl st (handlePromptPriceChange fl v st)"
| lane_price: "token_edit fl st (handleLanePriceChange fl lane v st)"
| toggle: "token_edit fl st (handleLaneToggle fl lane on st)"
| mode: "token_edit fl st (handleModeChange mode st)"
| preview: "token_edit fl st (st\<lparr>pp_previewOpen := b\<rparr>)"
| expression: "token_edit fl st (st\<lparr>pp_billingExpr := e\<rparr>)"
| request_rules: "token_edit fl st (st\<lparr>pp_requestRuleExpr := e\<rparr>)"

inductive panel_step :: "rounding \<Rightarrow> pricing_panel \<Rightarrow> pricing_panel \<Rightarrow> bool" for fl where
  edit: "token_edit fl st st' \<Longrightarrow> panel_step fl st st'"
| price: "panel_step fl st (type_price v st)"

definition off_empty :: "pricing_panel \<Rightarrow> bool" where
  "off_empty st \<longleftrightarrow> (\<forall>lane. \<not> pp_laneEnabled st lane \<longrightarrow> pp_value st (ratioFieldByLane lane) = [])"

lemma off_empty_load: "off_empty (load_panel fl data)"
  by (auto simp: off_empty_def load_panel_def initial_enabled_def split: option.splits)

lemma token_edit_off_empty: "token_edit fl st st' \<Longrightarrow> off_empty st \<Longrightarrow> off_empty st'"
proof (induction rule: token_edit.induct)
  case (prompt st v)
  then show ?case by (auto simp: off_empty_def handlePromptPriceChange_def sync_fields)
next
  case (lane_price st lane v)
  then show ?case
    by (auto simp: lane_field_eq off_empty_def handleLanePriceChange_def Let_def setFormValue_def lane_field_inj)
next
  case (toggle st lane on)
  then show ?case
    by (auto simp: lane_field_eq off_empty_def handleLaneToggle_def Let_def setFormValue_def lane_field_inj)
qed (simp_all add: off_empty_def handleModeChange_def Let_def)

lemma panel_step_off_empty: "panel_step fl st st' \<Longrightarrow> off_empty st \<Longrightarrow> off_empty st'"
  by (induction rule: panel_step.induct)
    (auto simp: off_empty_def type_price_def setFormValue_def lane_field_not token_edit_off_empty [unfolded off_empty_def])

text \<open>
  However the panel is used, a lane that is switched off has no ratio in what is saved.
\<close>
theorem off_lanes_not_saved:
  assumes "(panel_step fl)\<^sup>*\<^sup>* (load_panel fl data) st" "\<not> pp_laneEnabled st lane" "buildValidatedData nameOverride st = Inr saved"
  shows "md_value saved (ratioFieldByLane lane) = []"
proof -
  have "off_empty st" using assms(1) by (induction rule: rtranclp_induct) (auto intro: panel_step_off_empty off_empty_load)
  moreover have "md_value saved = pp_value st" using assms(3) by (auto simp: buildValidatedData_def split: if_splits)
  ultimately show ?thesis using assms(2) by (simp add: off_empty_def)
qed

lemma off_lanes_not_saved_witness:
  "\<exists>saved. buildValidatedData None (handleLaneToggle fl CompletionL False (load_panel fl (Some short_data))) = Inr saved \<and> md_value saved CompletionF = []"
proof -
  let ?st = "handleLaneToggle fl CompletionL False (load_panel fl (Some short_data))"
  have steps: "(panel_step fl)\<^sup>*\<^sup>* (load_panel fl (Some short_data)) ?st" by (intro r_into_rtranclp panel_step.edit token_edit.toggle)
  have off: "\<not> pp_laneEnabled ?st CompletionL" by (simp add: handleLaneToggle_def setFormValue_def)
  have enabled: "pp_laneEnabled ?st lane = False" for lane
    by (cases lane) (simp_all add: handleLaneToggle_def setFormValue_def load_panel_def initial_enabled_def short_data_def)
  have "\<exists>saved. buildValidatedData None ?st = Inr saved"
    by (simp add: buildValidatedData_def has_lane_price_def enabled list_ex_iff)
  then show ?thesis using off_lanes_not_saved [OF steps off] by (metis ratioFieldByLane.simps(1))
qed

lemma zero_draft: "numeric_draft ''0''" "toNumberOrNull ''0'' = Some 0" "formatPricingNumber 0 = ''0''"
proof -
  show "numeric_draft ''0''" by code_simp
  have z: "show_dec (Dec 0 0) = ''0''" by code_simp
  then show "toNumberOrNull ''0'' = Some 0" using number_show [of "Dec 0 0"] by simp
  have "short_rat 0" using short_int [of 0] by simp
  then show "formatPricingNumber 0 = ''0''" using format_dec [of "Dec 0 0" 0] z by simp
qed

lemma zero_price_state:
  assumes "pp_mode st = PerToken" "\<not> (pp_laneEnabled st AudioOutputL \<and> pp_lanePrices st AudioInputL = [])"
  shows "\<exists>saved. buildValidatedData nameOverride (handlePromptPriceChange fl ''0'' st) = Inr saved"
  using assms by (simp add: handlePromptPriceChange_def zero_draft buildValidatedData_def sync_rest sync_fields)

text \<open>
  With an input price of zero the prices of all lanes but the audio output are dropped without a word: the
  data are accepted, although the panel still shows the prices.
\<close>
theorem zero_price_drops_lanes:
  assumes "fl 0 = 0" "pp_mode st = PerToken" "\<not> (pp_laneEnabled st AudioOutputL \<and> pp_lanePrices st AudioInputL = [])"
  shows "\<exists>saved. buildValidatedData nameOverride (handlePromptPriceChange fl ''0'' st) = Inr saved \<and> md_value saved RatioF = ''0'' \<and>
    (\<forall>lane. lane \<noteq> AudioOutputL \<longrightarrow> md_value saved (ratioFieldByLane lane) = []) \<and>
    pp_lanePrices (handlePromptPriceChange fl ''0'' st) = pp_lanePrices st \<and>
    pp_laneEnabled (handlePromptPriceChange fl ''0'' st) = pp_laneEnabled st"
proof -
  let ?st = "syncLaneRatios fl ''0'' (st\<lparr>pp_promptPrice := ''0''\<rparr>)"
  have "handlePromptPriceChange fl ''0'' st = ?st" by (simp add: handlePromptPriceChange_def zero_draft)
  moreover have "pp_value ?st (ratioFieldByLane lane) = []" if "lane \<noteq> AudioOutputL" for lane
    using that by (simp add: sync_fields deriveLaneRatio_def zero_draft assms(1) split: option.splits)
  moreover have "pp_value ?st RatioF = ''0''" by (simp add: sync_fields zero_draft assms(1))
  ultimately show ?thesis using assms(2,3) by (simp add: buildValidatedData_def sync_rest sync_fields zero_draft)
qed

lemma zero_price_drops_lanes_witness:
  "\<exists>saved. buildValidatedData None (handlePromptPriceChange round_up ''0'' (load_panel round_up (Some short_data))) = Inr saved \<and> md_value saved CompletionF = []"
proof -
  have "pp_mode (load_panel round_up (Some short_data)) = PerToken" "\<not> pp_laneEnabled (load_panel round_up (Some short_data)) AudioOutputL"
    by (simp_all add: load_panel_def short_data_def initial_enabled_def)
  then show ?thesis using rounds_up [unfolded rounds_def] zero_price_drops_lanes [of round_up "load_panel round_up (Some short_data)" None] by (metis LaneKey.distinct(9) ratioFieldByLane.simps(1))
qed

section \<open>From a price by request to prices by token\<close>

lemma save_keeps: "handleSubmit_panel False None st = Saves data \<Longrightarrow>
    md_value data = pp_value st \<and> md_mode data = pp_mode st \<and> md_name data = js_trim (pp_name st)"
  by (auto simp: handleSubmit_panel_def buildValidatedData_def split: if_splits sum.splits)

lemma token_edit_frame: "token_edit fl st st' \<Longrightarrow> pp_value st' PriceF = pp_value st PriceF \<and> pp_name st' = pp_name st"
proof (induction rule: token_edit.induct)
  case (prompt st v)
  then show ?case by (simp add: handlePromptPriceChange_def sync_rest sync_fields)
next
  case (lane_price st lane v)
  then show ?case
    using lane_field_not(1) by (cases lane) (auto simp: handleLanePriceChange_def Let_def setFormValue_def)
next
  case (toggle st lane on)
  then show ?case
    using lane_field_not(1) by (cases lane) (auto simp: handleLaneToggle_def Let_def setFormValue_def)
qed (simp_all add: handleModeChange_def Let_def)


text \<open>Clearing the fixed price first avoids it: then the data that are saved have no fixed price.\<close>

lemma cleared_price_not_saved:
  assumes "(token_edit fl)\<^sup>*\<^sup>* (type_price [] st0) st" "handleSubmit_panel False None st = Saves data"
  shows "md_value data PriceF = []"
proof -
  have "pp_value st PriceF = []"
    using assms(1) by (induction rule: rtranclp_induct) (auto dest: token_edit_frame simp: type_price_def numeric_draft_def setFormValue_def)
  then show ?thesis using save_keeps [OF assms(2)] by simp
qed

definition fixed_form :: ModelFormValues where
  "fixed_form = empty_model_form\<lparr>mf_ModelPrice := json_pretty (JObj [(''m'', JNum (int_dec 1))])\<rparr>"

definition fixed_maps :: price_maps where
  "fixed_maps = \<lparr>pm_number = (\<lambda>_. [])(PriceF := [(''m'', JNum (int_dec 1))]), pm_mode = [], pm_expr = []\<rparr>"

lemma read_fixed: "read_maps fixed_form = Some fixed_maps"
proof -
  have "text_map (json_pretty (JObj [(''m'', JNum (int_dec 1))])) = Some [(''m'', JNum (int_dec 1))]"
    by (rule text_map_pretty) (simp add: obj_ok_def)
  moreover have "text_map [] = Some []" by code_simp
  moreover have "price_text x fixed_form = (if x = PriceF then json_pretty (JObj [(''m'', JNum (int_dec 1))]) else [])" for x
    by (cases x) (simp_all add: fixed_form_def empty_model_form_def)
  ultimately show ?thesis
    by (simp add: read_maps_def price_fields_all fixed_maps_def fun_eq_iff) (simp add: fixed_form_def empty_model_form_def)
qed


end
