(* ===== verification/TieredEditor.thy ===== *)
theory TieredEditor
  imports TierChain BillingRules
begin

text \<open>
  The editor of a billing expression (features/system-settings/models/tiered-pricing-editor.tsx): the
  fields and the cards in which tiers and rules are edited, and the component that keeps a visual
  configuration, a text and the expression its host holds in step by effects.
\<close>

section \<open>A number field\<close>

definition num_or_nought :: "jsnum \<Rightarrow> jsnum" where
  "num_or_nought n = (case n of Num d \<Rightarrow> Num d | _ \<Rightarrow> Num (int_dec 0))"

text \<open>\<open>Number(x) || 0\<close>: on a number and on a text.\<close>

fun unitCostToPrice :: "bound_value \<Rightarrow> jsnum" where
  "unitCostToPrice (BoundNum n) = num_or_zero n"
| "unitCostToPrice (BoundText s) = num_or_zero (js_number s)"

fun priceToUnitCost :: "bound_value \<Rightarrow> jsnum" where
  "priceToUnitCost (BoundNum n) = num_or_zero n"
| "priceToUnitCost (BoundText s) = num_or_zero (js_number s)"

fun formatNumberDraft :: "bound_value \<Rightarrow> string" where
  "formatNumberDraft (BoundText s) = s"
| "formatNumberDraft (BoundNum n) = (case n of Num d \<Rightarrow> show_dec d | _ \<Rightarrow> ''0'')"

definition parseNumberDraft :: "string \<Rightarrow> jsnum" where
  "parseNumberDraft s = (if js_trim s = [] then Num (int_dec 0) else num_or_nought (js_number s))"

definition isZeroDraft :: "string \<Rightarrow> bool" where
  "isZeroDraft s \<longleftrightarrow> js_trim s \<noteq> [] \<and> parseNumberDraft s = Num (int_dec 0)"

record draft_input =
  di_draft :: string
  di_focused :: bool
  di_sync :: "bool \<times> bound_value"

definition open_draft :: "bound_value \<Rightarrow> draft_input" where
  "open_draft v = \<lparr>di_draft = formatNumberDraft v, di_focused = False, di_sync = (False, v)\<rparr>"

text \<open>A render with the value \<open>v\<close> of the host.\<close>

definition render_draft :: "bound_value \<Rightarrow> draft_input \<Rightarrow> draft_input" where
  "render_draft v st = (if di_sync st \<noteq> (di_focused st, v)
     then st\<lparr>di_sync := (di_focused st, v), di_draft := (if di_focused st then di_draft st else formatNumberDraft v)\<rparr>
     else st)"

text \<open>The field after the event, and the number the host is told.\<close>

definition draft_change :: "string \<Rightarrow> draft_input \<Rightarrow> draft_input \<times> jsnum" where
  "draft_change s st = (st\<lparr>di_draft := s\<rparr>, parseNumberDraft s)"

text \<open>The flag says that the text is selected.\<close>

definition draft_focus :: "bool \<Rightarrow> draft_input \<Rightarrow> draft_input \<times> bool" where
  "draft_focus selectZeroOnFocus st = (st\<lparr>di_focused := True\<rparr>, selectZeroOnFocus \<and> isZeroDraft (di_draft st))"

definition draft_mouse_up :: "bool \<Rightarrow> draft_input \<Rightarrow> bool" where
  "draft_mouse_up selectZeroOnFocus st \<longleftrightarrow> selectZeroOnFocus \<and> isZeroDraft (di_draft st)"

definition draft_blur :: "draft_input \<Rightarrow> draft_input \<times> jsnum" where
  "draft_blur st = (let n = parseNumberDraft (di_draft st) in (st\<lparr>di_focused := False, di_draft := show_num n\<rparr>, n))"

section \<open>The cards of the tiers\<close>

definition CACHE_PRICE_VARS :: "billing_var list" where
  "CACHE_PRICE_VARS = filter (\<lambda>v. bv_group v = Some ''cache'') BILLING_EXTRA_VARS"

definition MEDIA_PRICE_VARS :: "billing_var list" where
  "MEDIA_PRICE_VARS = filter (\<lambda>v. bv_group v = Some ''media'') BILLING_EXTRA_VARS"

definition CONDITION_INPUT_OPTIONS :: "(string \<times> string) list" where
  "CONDITION_INPUT_OPTIONS = [(''len'', ''Full input length''), (''p'', ''Billable input tokens''), (''c'', ''Billable output tokens'')]"

definition OPS :: "string list" where
  "OPS = [''<'', ''<='', ''>'', ''>='']"

text \<open>\<open>filter((_, i) => i !== index)\<close>.\<close>

definition without :: "nat \<Rightarrow> 'a list \<Rightarrow> 'a list" where
  "without i xs = nths xs (- {i})"

text \<open>The index is that of a row that is shown.\<close>

definition handleTierConditionChange :: "nat \<Rightarrow> tier_input \<Rightarrow> visual_tier \<Rightarrow> visual_tier" where
  "handleTierConditionChange i c tier = tier\<lparr>vt_conditions := (vt_conditions tier)[i := c]\<rparr>"

definition handleTierConditionRemove :: "nat \<Rightarrow> visual_tier \<Rightarrow> visual_tier" where
  "handleTierConditionRemove i tier = tier\<lparr>vt_conditions := without i (vt_conditions tier)\<rparr>"

definition handlePriceChange :: "string \<Rightarrow> jsnum \<Rightarrow> visual_tier \<Rightarrow> visual_tier" where
  "handlePriceChange field n tier = tier\<lparr>vt_costs := (vt_costs tier)(field \<mapsto> n)\<rparr>"

definition handleCacheModeChange :: "cache_mode \<Rightarrow> visual_tier \<Rightarrow> visual_tier" where
  "handleCacheModeChange mode tier = tier\<lparr>vt_cache_mode := mode, vt_costs := (vt_costs tier)(''cache_create_1h_unit_cost'' \<mapsto>
     (if mode = Timed then (case vt_costs tier ''cache_create_1h_unit_cost'' of None \<Rightarrow> Num (int_dec 0) | Some n \<Rightarrow> n)
      else Num (int_dec 0)))\<rparr>"

definition hasMediaPricing :: "visual_tier \<Rightarrow> bool" where
  "hasMediaPricing tier \<longleftrightarrow> (\<exists>v \<in> set MEDIA_PRICE_VARS.
     num_lt (Num (int_dec 0)) (unitCostToPrice (BoundNum (case vt_costs tier (or_default (bv_tierField v) []) of
       None \<Rightarrow> Num (int_dec 0) | Some n \<Rightarrow> n))))"

text \<open>The media section: whether it is open and whether the last render had media prices.\<close>

definition media_open :: "visual_tier \<Rightarrow> bool \<times> bool \<Rightarrow> bool \<times> bool" where
  "media_open tier st = (let media = hasMediaPricing tier
     in if snd st \<noteq> media then (media \<or> fst st, media) else st)"

text \<open>What the fields of a card do.\<close>

datatype tier_edit = SetLabel string | SetVar nat string | SetOp nat string | SetBound nat jsnum
  | RemoveCondition nat | SetPrice string jsnum | SetCacheMode cache_mode

fun edit_tier :: "tier_edit \<Rightarrow> visual_tier \<Rightarrow> visual_tier" where
  "edit_tier (SetLabel s) tier = tier\<lparr>vt_label := s\<rparr>"
| "edit_tier (SetVar i v) tier = handleTierConditionChange i ((vt_conditions tier ! i)\<lparr>ti_var := v\<rparr>) tier"
| "edit_tier (SetOp i op) tier = handleTierConditionChange i ((vt_conditions tier ! i)\<lparr>ti_op := op\<rparr>) tier"
| "edit_tier (SetBound i n) tier = handleTierConditionChange i ((vt_conditions tier ! i)\<lparr>ti_value := BoundNum n\<rparr>) tier"
| "edit_tier (RemoveCondition i) tier = handleTierConditionRemove i tier"
| "edit_tier (SetPrice f n) tier = handlePriceChange f (priceToUnitCost (BoundNum n)) tier"
| "edit_tier (SetCacheMode m) tier = handleCacheModeChange m tier"

section \<open>The list of the tiers\<close>

definition new_bound :: "string \<Rightarrow> tier_input" where
  "new_bound v = \<lparr>ti_var = v, ti_op = ''<'', ti_value = BoundNum (Num (int_dec 200000))\<rparr>"

definition handleTierChange :: "nat \<Rightarrow> visual_tier \<Rightarrow> visual_config \<Rightarrow> visual_config" where
  "handleTierChange i tier config = config\<lparr>vc_tiers := (vc_tiers config)[i := normalizeVisualTier (as_partial tier)]\<rparr>"

definition handleAddTier :: "visual_config \<Rightarrow> visual_config" where
  "handleAddTier config =
     (let ts = vc_tiers config;
          ts' = (if ts \<noteq> [] \<and> vt_conditions (last ts) = []
            then butlast ts @ [normalizeVisualTier (as_partial ((last ts)\<lparr>vt_conditions := [new_bound ''len'']\<rparr>))] else ts)
      in config\<lparr>vc_tiers := ts' @ [normalizeVisualTier
           \<lparr>pl_label = Some (''tier_'' @ show_nat (length ts' + 1)), pl_conditions = Some [], pl_cache_mode = None,
            pl_costs = [''input_unit_cost'' \<mapsto> Num (int_dec 0), ''output_unit_cost'' \<mapsto> Num (int_dec 0)]\<rparr>]\<rparr>)"

definition handleRemoveTier :: "nat \<Rightarrow> visual_config \<Rightarrow> visual_config" where
  "handleRemoveTier i config = (let ts = without i (vc_tiers config)
     in config\<lparr>vc_tiers := (if 0 < length ts then ts else vc_tiers config)\<rparr>)"

definition handleAddTierCondition :: "nat \<Rightarrow> visual_config \<Rightarrow> visual_config" where
  "handleAddTierCondition i config =
     (let tier = vc_tiers config ! i
      in if 2 \<le> length (vt_conditions tier) then config
         else (let nextVar = (if ''len'' \<in> ti_var ` set (vt_conditions tier) then ''c'' else ''len'')
               in config\<lparr>vc_tiers := (vc_tiers config)[i := tier\<lparr>vt_conditions := vt_conditions tier @ [new_bound nextVar]\<rparr>]\<rparr>))"

datatype visual_edit = TierEdit nat tier_edit | AddTier | RemoveTier nat | AddCondition nat

text \<open>An edit of what is shown, which is the normal form of what is held.\<close>

fun visual_step :: "visual_edit \<Rightarrow> visual_config option \<Rightarrow> visual_config" where
  "visual_step (TierEdit i e) c = (let config = normalizeVisualConfig c in handleTierChange i (edit_tier e (vc_tiers config ! i)) config)"
| "visual_step AddTier c = handleAddTier (normalizeVisualConfig c)"
| "visual_step (RemoveTier i) c = handleRemoveTier i (normalizeVisualConfig c)"
| "visual_step (AddCondition i) c = handleAddTierCondition i (normalizeVisualConfig c)"

section \<open>The cards of the rules\<close>

definition getMatchLabel :: "string \<Rightarrow> string" where
  "getMatchLabel mode = or_default (map_of [(''eq'', ''Equals''), (''contains'', ''Contains''), (''exists'', ''Exists''),
     (''gt'', ''Greater than''), (''gte'', ''Greater than or equal''), (''lt'', ''Less than''), (''lte'', ''Less than or equal''),
     (''range'', ''Overnight range'')] mode) mode"

definition getTimeFuncLabel :: "string \<Rightarrow> string" where
  "getTimeFuncLabel f = or_default (map_of [(''hour'', ''Hour of day''), (''minute'', ''Minute''), (''weekday'', ''Weekday''),
     (''month'', ''Month number''), (''day'', ''Day of month'')] f) f"

definition condition_source :: "request_condition \<Rightarrow> string" where
  "condition_source c = (case c of TimeC _ \<Rightarrow> ''time'' | SourceC s \<Rightarrow> sc_source s)"

definition sourceLabel :: "request_condition \<Rightarrow> string" where
  "sourceLabel c = (if condition_source c = ''param'' then ''Body param'' else if condition_source c = ''header'' then ''Header'' else ''Time'')"

definition handleSourceChange :: "string \<Rightarrow> request_condition \<Rightarrow> request_condition" where
  "handleSourceChange source c =
     (if source = ''time'' then createEmptyTimeCondition
      else if source = ''header'' \<or> source = ''param''
        then (case createEmptyCondition of SourceC s \<Rightarrow> SourceC (s\<lparr>sc_source := source\<rparr>) | TimeC t \<Rightarrow> TimeC t)
      else c)"

fun handleMatchModeChange :: "string \<Rightarrow> request_condition \<Rightarrow> request_condition" where
  "handleMatchModeChange mode (TimeC t) = TimeC (t\<lparr>tm_mode := mode\<rparr>)"
| "handleMatchModeChange mode (SourceC s) = SourceC (s\<lparr>sc_mode := mode\<rparr>)"

text \<open>The fields of a row: a row on the time has numbers for its values.\<close>

datatype row_edit = SetSource string | SetMode string | SetTimeFunc string | SetTimezone string | SetRangeStart jsnum
  | SetRangeEnd jsnum | SetTimeValue jsnum | SetPath string | SetValue string

fun edit_row :: "row_edit \<Rightarrow> request_condition \<Rightarrow> request_condition" where
  "edit_row (SetSource s) c = handleSourceChange s c"
| "edit_row (SetMode m) c = handleMatchModeChange m c"
| "edit_row (SetTimeFunc f) (TimeC t) = TimeC (t\<lparr>tm_timeFunc := f\<rparr>)"
| "edit_row (SetTimezone z) (TimeC t) = TimeC (t\<lparr>tm_timezone := z\<rparr>)"
| "edit_row (SetRangeStart n) (TimeC t) = TimeC (t\<lparr>tm_rangeStart := show_num n\<rparr>)"
| "edit_row (SetRangeEnd n) (TimeC t) = TimeC (t\<lparr>tm_rangeEnd := show_num n\<rparr>)"
| "edit_row (SetTimeValue n) (TimeC t) = TimeC (t\<lparr>tm_value := show_num n\<rparr>)"
| "edit_row (SetPath p) (SourceC s) = SourceC (s\<lparr>sc_path := p\<rparr>)"
| "edit_row (SetValue v) (SourceC s) = SourceC (s\<lparr>sc_value := v\<rparr>)"
| "edit_row _ c = c"

definition handleConditionChange :: "nat \<Rightarrow> request_condition \<Rightarrow> rule_group \<Rightarrow> rule_group" where
  "handleConditionChange i c g = g\<lparr>rg_conditions := (rg_conditions g)[i := c]\<rparr>"

definition handleAddCondition :: "bool \<Rightarrow> rule_group \<Rightarrow> rule_group" where
  "handleAddCondition timeMode g =
     g\<lparr>rg_conditions := rg_conditions g @ [if timeMode then createEmptyTimeCondition else createEmptyCondition]\<rparr>"

datatype group_edit = EditRow nat row_edit | RemoveRow nat | AddRow bool | SetMultiplier jsnum

fun edit_group :: "group_edit \<Rightarrow> rule_group \<Rightarrow> rule_group" where
  "edit_group (EditRow i e) g = handleConditionChange i (edit_row e (rg_conditions g ! i)) g"
| "edit_group (RemoveRow i) g = g\<lparr>rg_conditions := without i (rg_conditions g)\<rparr>"
| "edit_group (AddRow timeMode) g = handleAddCondition timeMode g"
| "edit_group (SetMultiplier n) g = g\<lparr>rg_multiplier := show_num n\<rparr>"

datatype groups_edit = EditGroup nat group_edit | RemoveGroup nat | AddGroup

fun edit_groups :: "groups_edit \<Rightarrow> rule_group list \<Rightarrow> rule_group list" where
  "edit_groups (EditGroup i e) gs = gs[i := edit_group e (gs ! i)]"
| "edit_groups (RemoveGroup i) gs = without i gs"
| "edit_groups AddGroup gs = gs @ [createEmptyRuleGroup]"


section \<open>The presets\<close>

text \<open>A preset without request rules has none of them.\<close>

record Preset =
  ps_key :: string
  ps_label :: string
  ps_expr :: string
  ps_requestRules :: "rule_group list"

definition preset :: "string \<Rightarrow> string \<Rightarrow> string \<Rightarrow> rule_group list \<Rightarrow> Preset" where
  "preset key label expr rules = \<lparr>ps_key = key, ps_label = label, ps_expr = expr, ps_requestRules = rules\<rparr>"

text \<open>A literal in which the double quotes are written as back quotes.\<close>

definition quoted_text :: "string \<Rightarrow> string" where
  "quoted_text s = map (\<lambda>c. if c = CHR ''`'' then quote_char else c) s"

definition PRESET_GROUPS :: "(string \<times> Preset list) list" where
  "PRESET_GROUPS = [
   (''Fixed price'', [
     preset ''flat'' ''Flat''
       (quoted_text ''tier(`base`, p * 2 + c * 4)'')
       [],
     preset ''claude-opus'' ''Claude Opus 4.6''
       (quoted_text ''tier(`base`, p * 5 + c * 25 + cr * 0.5 + cc * 6.25 + cc1h * 10)'')
       [],
     preset ''gpt-5.4'' ''GPT-5.4''
       (quoted_text ''len <= 272000 ? tier(`standard`, p * 2.5 + c * 15 + cr * 0.25) : tier(`long_context`, p * 5 + c * 22.5 + cr * 0.5)'')
       []]),
   (''Tiered'', [
     preset ''claude-sonnet'' ''Claude Sonnet 4.5''
       (quoted_text ''len <= 200000 ? tier(`standard`, p * 3 + c * 15 + cr * 0.3 + cc * 3.75 + cc1h * 6) : tier(`long_context`, p * 6 + c * 22.5 + cr * 0.6 + cc * 7.5 + cc1h * 12)'')
       [],
     preset ''qwen3-max'' ''Qwen3 Max''
       (quoted_text ''len <= 32000 ? tier(`short`, p * 1.2 + c * 6 + cr * 0.24 + cc * 1.5) : len <= 128000 ? tier(`mid`, p * 2.4 + c * 12 + cr * 0.48 + cc * 3) : tier(`long`, p * 3 + c * 15 + cr * 0.6 + cc * 3.75)'')
       [],
     preset ''glm-4.5-air'' ''GLM-4.5 Air''
       (quoted_text ''len < 32000 && c < 200 ? tier(`short_output`, p * 0.8 + c * 2 + cr * 0.16) : len < 32000 && c >= 200 ? tier(`long_output`, p * 0.8 + c * 6 + cr * 0.16) : tier(`mid_context`, p * 1.2 + c * 8 + cr * 0.24)'')
       [],
     preset ''doubao-seed-1.8'' ''Doubao Seed 1.8''
       (quoted_text ''len <= 32000 && c <= 200 ? tier(`discount`, p * 0.8 + c * 2 + cr * 0.16 + cc * 0.17) : len <= 32000 ? tier(`short`, p * 0.8 + c * 8 + cr * 0.16 + cc * 0.17) : len <= 128000 ? tier(`mid`, p * 1.2 + c * 16 + cr * 0.16 + cc * 0.17) : tier(`long`, p * 2.4 + c * 24 + cr * 0.16 + cc * 0.17)'')
       []]),
   (''Multimodal'', [
     preset ''gpt-image-1-mini'' ''GPT Image 1 Mini''
       (quoted_text ''tier(`base`, p * 2 + c * 8 + img * 2.5)'')
       [],
     preset ''gemini-2.5-flash'' ''Gemini 2.5 Flash''
       (quoted_text ''tier(`base`, p * 0.3 + c * 2.5 + cr * 0.03 + ai * 1.0)'')
       [],
     preset ''gemini-3-pro-image'' ''Gemini 3 Pro Image''
       (quoted_text ''tier(`base`, p * 2 + c * 12 + img_o * 120)'')
       [],
     preset ''qwen3-omni-flash'' ''Qwen3 Omni Flash''
       (quoted_text ''tier(`base`, p * 0.43 + c * 3.06 + img * 0.78 + ai * 3.81 + ao * 15.11)'')
       []]),
   (''Request rule'', [
     preset ''claude-opus-fast'' ''Claude Opus 4.6 Fast''
       (quoted_text ''tier(`base`, p * 5 + c * 25 + cr * 0.5 + cc * 6.25 + cc1h * 10)'')
       [\<lparr>rg_conditions = [SourceC \<lparr>sc_source = ''header'', sc_path = ''anthropic-beta'', sc_mode = ''contains'', sc_value = ''fast-mode-2026-02-01''\<rparr>], rg_multiplier = ''6''\<rparr>],
     preset ''gpt-5.4-tiers'' ''GPT-5.4 Priority/Flex''
       (quoted_text ''len <= 272000 ? tier(`standard`, p * 2.5 + c * 15 + cr * 0.25) : tier(`long_context`, p * 5 + c * 22.5 + cr * 0.5)'')
       [\<lparr>rg_conditions = [SourceC \<lparr>sc_source = ''param'', sc_path = ''service_tier'', sc_mode = ''eq'', sc_value = ''priority''\<rparr>], rg_multiplier = ''2''\<rparr>,
        \<lparr>rg_conditions = [SourceC \<lparr>sc_source = ''param'', sc_path = ''service_tier'', sc_mode = ''eq'', sc_value = ''flex''\<rparr>], rg_multiplier = ''0.5''\<rparr>]]),
   (''Time-based'', [
     preset ''night-discount'' ''Night discount (50%)''
       (quoted_text ''tier(`base`, p * 3 + c * 15)'')
       [\<lparr>rg_conditions = [TimeC \<lparr>tm_timeFunc = ''hour'', tm_timezone = ''Asia/Shanghai'', tm_mode = ''range'', tm_value = '''', tm_rangeStart = ''21'', tm_rangeEnd = ''6''\<rparr>], rg_multiplier = ''0.5''\<rparr>],
     preset ''weekend-discount'' ''Weekend discount (80%)''
       (quoted_text ''tier(`base`, p * 3 + c * 15)'')
       [\<lparr>rg_conditions = [TimeC \<lparr>tm_timeFunc = ''weekday'', tm_timezone = ''Asia/Shanghai'', tm_mode = ''eq'', tm_value = ''0'', tm_rangeStart = '''', tm_rangeEnd = ''''\<rparr>], rg_multiplier = ''0.8''\<rparr>,
        \<lparr>rg_conditions = [TimeC \<lparr>tm_timeFunc = ''weekday'', tm_timezone = ''Asia/Shanghai'', tm_mode = ''eq'', tm_value = ''6'', tm_rangeStart = '''', tm_rangeEnd = ''''\<rparr>], rg_multiplier = ''0.8''\<rparr>]])
   ]"

definition preset_groups :: "bool \<Rightarrow> (string \<times> Preset list) list" where
  "preset_groups hideRequestRules = (if hideRequestRules
     then filter (\<lambda>(g, ps). \<exists>p \<in> set ps. ps_requestRules p = []) PRESET_GROUPS else PRESET_GROUPS)"

definition visible_presets :: "bool \<Rightarrow> bool \<Rightarrow> (string \<times> Preset list) list" where
  "visible_presets hideRequestRules expanded =
     (let groups = preset_groups hideRequestRules in if expanded then groups else take 2 groups)"

definition has_more_presets :: "bool \<Rightarrow> bool" where
  "has_more_presets hideRequestRules \<longleftrightarrow> 2 < length (preset_groups hideRequestRules)"

section \<open>The editor\<close>

datatype editor_mode = Visual | Raw

text \<open>
  The state of the component, the expression and the rules its host holds, and what the first and the
  second effect saw when they last ran. The hosts store what they are told; the host that hides the
  rules ignores them.
\<close>

record tiered_editor =
  te_mode :: editor_mode
  te_config :: "visual_config option"
  te_raw :: string
  te_groups :: "rule_group list"
  te_init :: bool
  te_expr :: string
  te_rules :: string
  te_model :: "string option"
  te_seen :: "(string \<times> string) option"
  te_seenModel :: "string option option"

text \<open>\<open>tryParseRequestRuleExpr(s) || []\<close>; None: it raises.\<close>

definition read_groups :: "string \<Rightarrow> rule_group list option" where
  "read_groups s = (case tryParseRequestRuleExpr s of Raised \<Rightarrow> None | NoMatch \<Rightarrow> Some [] | Found gs \<Rightarrow> Some gs)"

definition mount_editor :: "string option \<Rightarrow> string \<Rightarrow> string \<Rightarrow> tiered_editor option" where
  "mount_editor model expr rules = map_option (\<lambda>gs.
     \<lparr>te_mode = Visual, te_config = tryParseVisualConfig expr, te_raw = combineBillingExpr expr rules, te_groups = gs,
      te_init = False, te_expr = expr, te_rules = rules, te_model = model, te_seen = None, te_seenModel = None\<rparr>)
     (read_groups rules)"

definition tell_expr :: "string \<Rightarrow> tiered_editor \<Rightarrow> tiered_editor" where
  "tell_expr s st = st\<lparr>te_expr := s\<rparr>"

definition tell_rules :: "bool \<Rightarrow> string \<Rightarrow> tiered_editor \<Rightarrow> tiered_editor" where
  "tell_rules hide s st = (if hide then st else st\<lparr>te_rules := s\<rparr>)"

definition canUseVisualRules :: "tiered_editor \<Rightarrow> bool option" where
  "canUseVisualRules st = (if te_rules st = [] then Some True
     else case tryParseRequestRuleExpr (te_rules st) of Raised \<Rightarrow> None | NoMatch \<Rightarrow> Some False | Found _ \<Rightarrow> Some True)"

definition effectiveExpr :: "bool \<Rightarrow> tiered_editor \<Rightarrow> string option" where
  "effectiveExpr hide st =
     (if te_mode st = Visual then Some (generateExprFromVisualConfig (te_config st))
      else if hide then Some (js_trim (te_raw st))
      else map_option sr_billingExpr (splitBillingExprAndRequestRules (te_raw st)))"

text \<open>The effects, in their order; \<open>st\<close> is the state that was rendered and \<open>now\<close> what it has become.\<close>

definition read_props :: "tiered_editor \<Rightarrow> tiered_editor \<Rightarrow> tiered_editor" where
  "read_props st now = (case tryParseVisualConfig (te_expr st) of
     Some c \<Rightarrow> now\<lparr>te_config := Some c, te_mode := Visual\<rparr>
   | None \<Rightarrow> if te_expr st \<noteq> [] then now\<lparr>te_config := None, te_mode := Raw\<rparr>
       else now\<lparr>te_config := Some createDefaultVisualConfig\<rparr>)"

definition init_effect :: "tiered_editor \<Rightarrow> tiered_editor \<Rightarrow> tiered_editor option" where
  "init_effect st now = (if te_seen st = Some (te_expr st, te_rules st) \<or> te_init now then Some now
     else map_option (\<lambda>gs. (read_props st (now\<lparr>te_init := True\<rparr>))\<lparr>te_raw := combineBillingExpr (te_expr st) (te_rules st), te_groups := gs\<rparr>)
       (read_groups (te_rules st)))"

definition model_effect :: "tiered_editor \<Rightarrow> tiered_editor \<Rightarrow> tiered_editor" where
  "model_effect st now = (if te_seenModel st = Some (te_model st) then now else now\<lparr>te_init := False\<rparr>)"

definition expr_effect :: "string \<Rightarrow> tiered_editor \<Rightarrow> tiered_editor \<Rightarrow> tiered_editor" where
  "expr_effect eff st now = (if eff \<noteq> te_expr st then tell_expr eff now else now)"

definition rules_effect :: "bool \<Rightarrow> tiered_editor \<Rightarrow> tiered_editor \<Rightarrow> tiered_editor" where
  "rules_effect hide st now = (if te_mode st \<noteq> Visual then now
     else let ruleExpr = buildRequestRuleExpr (te_groups st)
          in if ruleExpr \<noteq> te_rules st then tell_rules hide ruleExpr now else now)"

text \<open>A render and its effects; None: the component raised.\<close>

definition flush :: "bool \<Rightarrow> tiered_editor \<Rightarrow> tiered_editor option" where
  "flush hide st = (case (effectiveExpr hide st, canUseVisualRules st) of
     (Some eff, Some _) \<Rightarrow> map_option (\<lambda>now.
        (rules_effect hide st (expr_effect eff st (model_effect st now)))
          \<lparr>te_seen := Some (te_expr st, te_rules st), te_seenModel := Some (te_model st)\<rparr>) (init_effect st st)
   | _ \<Rightarrow> None)"

text \<open>Nothing that the effects depend on has changed.\<close>

definition quiet :: "bool \<Rightarrow> tiered_editor \<Rightarrow> bool" where
  "quiet hide st \<longleftrightarrow> te_seen st = Some (te_expr st, te_rules st) \<and> te_seenModel st = Some (te_model st) \<and>
     effectiveExpr hide st = Some (te_expr st) \<and> canUseVisualRules st \<noteq> None \<and>
     (te_mode st = Visual \<longrightarrow> hide \<or> buildRequestRuleExpr (te_groups st) = te_rules st)"

datatype settling = Broke | Running | Settled tiered_editor

fun settle_editor :: "bool \<Rightarrow> nat \<Rightarrow> tiered_editor \<Rightarrow> settling" where
  "settle_editor hide 0 st = Running"
| "settle_editor hide (Suc n) st = (case flush hide st of
     None \<Rightarrow> Broke
   | Some st' \<Rightarrow> if quiet hide st' then Settled st' else settle_editor hide n st')"

section \<open>What the user and the host do\<close>

definition handleVisualChange :: "visual_config \<Rightarrow> tiered_editor \<Rightarrow> tiered_editor" where
  "handleVisualChange c st = st\<lparr>te_config := Some c\<rparr>"

definition handleRuleGroupsChange :: "rule_group list \<Rightarrow> tiered_editor \<Rightarrow> tiered_editor" where
  "handleRuleGroupsChange gs st = st\<lparr>te_groups := gs\<rparr>"

definition handleRawChange :: "bool \<Rightarrow> string \<Rightarrow> tiered_editor \<Rightarrow> tiered_editor option" where
  "handleRawChange hide s st = (let st1 = st\<lparr>te_raw := s\<rparr>
     in if hide then Some st1
        else map_option (\<lambda>r. tell_rules hide (sr_requestRuleExpr r) st1) (splitBillingExprAndRequestRules s))"

definition to_raw :: "tiered_editor \<Rightarrow> tiered_editor" where
  "to_raw st = (let expr = generateExprFromVisualConfig (te_config st); ruleExpr = buildRequestRuleExpr (te_groups st)
     in st\<lparr>te_raw := or_str (combineBillingExpr expr ruleExpr) expr, te_mode := Raw\<rparr>)"

definition to_visual :: "bool \<Rightarrow> tiered_editor \<Rightarrow> tiered_editor option" where
  "to_visual hide st =
     (case (if hide then Some \<lparr>sr_billingExpr = js_trim (te_raw st), sr_requestRuleExpr = []\<rparr>
            else splitBillingExprAndRequestRules (te_raw st)) of
       None \<Rightarrow> None
     | Some r \<Rightarrow> map_option (\<lambda>gs. tell_rules hide (sr_requestRuleExpr r)
         (st\<lparr>te_config := Some (case tryParseVisualConfig (sr_billingExpr r) of Some c \<Rightarrow> c | None \<Rightarrow> createDefaultVisualConfig),
            te_groups := gs, te_mode := Visual\<rparr>)) (read_groups (sr_requestRuleExpr r)))"

definition handleEditorModeChange :: "bool \<Rightarrow> editor_mode \<Rightarrow> tiered_editor \<Rightarrow> tiered_editor option" where
  "handleEditorModeChange hide mode st = (if mode = Visual then to_visual hide st else Some (to_raw st))"

definition applyPreset :: "bool \<Rightarrow> Preset \<Rightarrow> tiered_editor \<Rightarrow> tiered_editor" where
  "applyPreset hide p st =
     (let presetGroups = (if hide then [] else ps_requestRules p);
          ruleExpr = buildRequestRuleExpr presetGroups;
          parsed = tryParseVisualConfig (ps_expr p)
      in tell_rules hide ruleExpr (st\<lparr>te_raw := or_str (combineBillingExpr (ps_expr p) ruleExpr) (ps_expr p),
           te_config := parsed, te_mode := (if parsed = None then Raw else Visual), te_groups := presetGroups\<rparr>))"

text \<open>The host shows another model.\<close>

definition set_props :: "string option \<Rightarrow> string \<Rightarrow> string \<Rightarrow> tiered_editor \<Rightarrow> tiered_editor" where
  "set_props model expr rules st = st\<lparr>te_model := model, te_expr := expr, te_rules := rules\<rparr>"

end
