(* ===== verification/TieredEditorFacts.thy ===== *)
theory TieredEditorFacts
  imports TieredEditor TierRules
begin

text \<open>
  Facts about the editor of a billing expression: its effects come to rest, what they leave alone and
  what they overwrite, and the edits of the cards.
\<close>

section \<open>A render and its effects\<close>

definition rules_target :: "bool \<Rightarrow> tiered_editor \<Rightarrow> string" where
  "rules_target hide st = (if te_mode st = Visual \<and> \<not> hide then buildRequestRuleExpr (te_groups st) else te_rules st)"

lemma flushE:
  assumes "flush hide st = Some st'"
  obtains eff now where "effectiveExpr hide st = Some eff" "canUseVisualRules st \<noteq> None" "init_effect st st = Some now"
    "st' = (rules_effect hide st (expr_effect eff st (model_effect st now)))
       \<lparr>te_seen := Some (te_expr st, te_rules st), te_seenModel := Some (te_model st)\<rparr>"
  using assms by (auto simp: flush_def split: option.splits)

lemma effect_fields [simp]:
  "te_mode (rules_effect hide st now) = te_mode now" "te_config (rules_effect hide st now) = te_config now"
  "te_raw (rules_effect hide st now) = te_raw now" "te_groups (rules_effect hide st now) = te_groups now"
  "te_init (rules_effect hide st now) = te_init now" "te_expr (rules_effect hide st now) = te_expr now"
  "te_model (rules_effect hide st now) = te_model now"
  "te_mode (expr_effect e st now) = te_mode now" "te_config (expr_effect e st now) = te_config now"
  "te_raw (expr_effect e st now) = te_raw now" "te_groups (expr_effect e st now) = te_groups now"
  "te_init (expr_effect e st now) = te_init now" "te_rules (expr_effect e st now) = te_rules now"
  "te_model (expr_effect e st now) = te_model now"
  "te_mode (model_effect st now) = te_mode now" "te_config (model_effect st now) = te_config now"
  "te_raw (model_effect st now) = te_raw now" "te_groups (model_effect st now) = te_groups now"
  "te_expr (model_effect st now) = te_expr now" "te_rules (model_effect st now) = te_rules now"
  "te_model (model_effect st now) = te_model now"
  by (simp_all add: rules_effect_def tell_rules_def expr_effect_def tell_expr_def model_effect_def Let_def)

lemma read_props_fields [simp]:
  "te_init (read_props st now) = te_init now" "te_expr (read_props st now) = te_expr now"
  "te_rules (read_props st now) = te_rules now" "te_model (read_props st now) = te_model now"
  by (simp_all add: read_props_def split: option.splits)

lemma init_fields:
  assumes "init_effect st now = Some now'"
  shows "te_expr now' = te_expr now" "te_rules now' = te_rules now" "te_model now' = te_model now"
    "te_seen st \<noteq> Some (te_expr st, te_rules st) \<Longrightarrow> te_init now'" "te_init now \<Longrightarrow> te_init now'"
  using assms by (auto simp: init_effect_def split: if_splits)

lemma expr_told: "te_expr now = te_expr st \<Longrightarrow> te_expr (expr_effect e st now) = e"
  by (simp add: expr_effect_def tell_expr_def)

lemma rules_told: "te_rules now = te_rules st \<Longrightarrow> te_rules (rules_effect hide st now) = rules_target hide st"
  by (simp add: rules_effect_def tell_rules_def rules_target_def Let_def)

lemma flush_props:
  assumes "flush hide st = Some st'"
  shows "effectiveExpr hide st = Some (te_expr st')" "te_rules st' = rules_target hide st" "te_model st' = te_model st"
    "te_seen st' = Some (te_expr st, te_rules st)" "te_seenModel st' = Some (te_model st)" "canUseVisualRules st \<noteq> None"
  using assms by (auto elim!: flushE simp: init_fields expr_told rules_told)

lemma flush_init:
  assumes "flush hide st = Some st'" "te_seenModel st = Some (te_model st)"
    and "te_init st \<or> te_seen st \<noteq> Some (te_expr st, te_rules st)"
  shows "te_init st'"
  using assms by (auto elim!: flushE simp: init_fields model_effect_def)

text \<open>The first effect does nothing: the component keeps what it has.\<close>

lemma flush_keeps:
  assumes "flush hide st = Some st'" "te_init st \<or> te_seen st = Some (te_expr st, te_rules st)"
  shows "te_mode st' = te_mode st" "te_config st' = te_config st" "te_raw st' = te_raw st" "te_groups st' = te_groups st"
  using assms by (auto elim!: flushE simp: init_effect_def)

lemma effective_same:
  "te_mode st' = te_mode st \<Longrightarrow> te_config st' = te_config st \<Longrightarrow> te_raw st' = te_raw st \<Longrightarrow> effectiveExpr hide st' = effectiveExpr hide st"
  by (simp add: effectiveExpr_def)

lemma can_use_same: "te_rules st' = te_rules st \<Longrightarrow> canUseVisualRules st' = canUseVisualRules st"
  by (simp add: canUseVisualRules_def)

lemma idle_target:
  assumes "flush hide st = Some st'" "te_init st \<or> te_seen st = Some (te_expr st, te_rules st)"
  shows "rules_target hide st' = rules_target hide st"
  using flush_keeps [OF assms] flush_props(2) [OF assms(1)] by (simp add: rules_target_def)

lemma rest_quiet:
  assumes "flush hide st = Some st'" "te_init st \<or> te_seen st = Some (te_expr st, te_rules st)"
    and "te_expr st' = te_expr st" "te_rules st' = te_rules st"
  shows "quiet hide st'"
proof -
  note p = flush_props [OF assms(1)] and k = flush_keeps [OF assms(1,2)]
  have "effectiveExpr hide st' = Some (te_expr st')" using effective_same [OF k(1-3)] p(1) by simp
  moreover have "canUseVisualRules st' \<noteq> None" using can_use_same [OF assms(4)] p(6) by simp
  moreover have "te_mode st' = Visual \<longrightarrow> hide \<or> buildRequestRuleExpr (te_groups st') = te_rules st'"
    using p(2) k by (simp add: rules_target_def)
  ultimately show ?thesis using p assms(3,4) by (simp add: quiet_def)
qed

lemma two_idle:
  assumes "flush hide st = Some st1" "flush hide st1 = Some st2" "te_seenModel st = Some (te_model st)" "te_init st"
  shows "quiet hide st2"
proof -
  have i: "te_init st1" using flush_init [OF assms(1,3)] assms(4) by simp
  note p = flush_props [OF assms(1)] and k = flush_keeps [OF assms(1)]
  have "te_expr st2 = te_expr st1"
    using flush_props(1) [OF assms(2)] p(1) effective_same [of st1 st hide] k assms(4) by simp
  moreover have "te_rules st2 = te_rules st1"
    using flush_props(2) [OF assms(2)] p(2) idle_target [OF assms(1)] assms(4) by simp
  ultimately show ?thesis using rest_quiet [OF assms(2)] i by simp
qed

lemma running_step:
  assumes "settle_editor hide (Suc n) st = Running"
  obtains st' where "flush hide st = Some st'" "\<not> quiet hide st'" "settle_editor hide n st' = Running"
  using assms by (auto split: option.splits if_splits)

lemma five_settle: "settle_editor hide 5 st \<noteq> Running"
proof
  assume "settle_editor hide 5 st = Running"
  then have "settle_editor hide (Suc (Suc (Suc (Suc (Suc 0))))) st = Running" by (simp add: eval_nat_numeral)
  then obtain st1 where 1: "flush hide st = Some st1" and r1: "settle_editor hide (Suc (Suc (Suc (Suc 0)))) st1 = Running"
    by (rule running_step)
  from r1 obtain st2 where 2: "flush hide st1 = Some st2" "\<not> quiet hide st2" and r2: "settle_editor hide (Suc (Suc (Suc 0))) st2 = Running"
    by (rule running_step)
  from r2 obtain st3 where 3: "flush hide st2 = Some st3" "\<not> quiet hide st3" and r3: "settle_editor hide (Suc (Suc 0)) st3 = Running"
    by (rule running_step)
  from r3 obtain st4 where 4: "flush hide st3 = Some st4" "\<not> quiet hide st4" and r4: "settle_editor hide (Suc 0) st4 = Running"
    by (rule running_step)
  from r4 obtain st5 where 5: "flush hide st4 = Some st5" "\<not> quiet hide st5"
    by (rule running_step)
  have seen: "te_seenModel st1 = Some (te_model st1)" "te_seenModel st2 = Some (te_model st2)" "te_seenModel st3 = Some (te_model st3)"
    using flush_props(3,5) [OF 1] flush_props(3,5) [OF 2(1)] flush_props(3,5) [OF 3(1)] by simp_all
  have i1: "\<not> te_init st1" using two_idle [OF 2(1) 3(1) seen(1)] 3(2) by blast
  have "\<not> te_init st2" using two_idle [OF 3(1) 4(1) seen(2)] 4(2) by blast
  then have s1: "te_seen st1 = Some (te_expr st1, te_rules st1)" using flush_init [OF 2(1) seen(1)] by blast
  have "\<not> te_init st3" using two_idle [OF 4(1) 5(1) seen(3)] 5(2) by blast
  then have "te_seen st2 = Some (te_expr st2, te_rules st2)" using flush_init [OF 3(1) seen(2)] by blast
  then have "te_expr st2 = te_expr st1" "te_rules st2 = te_rules st1" using flush_props(4) [OF 2(1)] by simp_all
  then show False using rest_quiet [OF 2(1)] s1 2(2) by blast
qed

lemma settled_quiet: "settle_editor hide n st = Settled st' \<Longrightarrow> quiet hide st'"
  by (induction n arbitrary: st) (auto split: option.splits if_splits)

lemma quiet_flush: "quiet hide st \<Longrightarrow> flush hide st = Some st"
  by (auto simp: quiet_def flush_def init_effect_def model_effect_def expr_effect_def rules_effect_def tell_rules_def Let_def
      split: option.splits)


section \<open>Coming to rest\<close>

fun flushes :: "bool \<Rightarrow> nat \<Rightarrow> tiered_editor \<Rightarrow> tiered_editor option" where
  "flushes hide 0 st = Some st"
| "flushes hide (Suc n) st = (case flush hide st of None \<Rightarrow> None | Some st' \<Rightarrow> flushes hide n st')"

lemma quiet_flushes: "quiet hide st \<Longrightarrow> flushes hide n st = Some st"
  by (induction n) (simp_all add: quiet_flush)

lemma settle_reaches:
  assumes "flushes hide (Suc m) st = Some st'" "quiet hide st'" "m < k"
  shows "settle_editor hide k st = Settled st'"
  using assms
proof (induction m arbitrary: st k)
  case 0
  then show ?case by (cases k) (simp_all split: option.splits)
next
  case (Suc m)
  then obtain s1 where s1: "flush hide st = Some s1" "flushes hide (Suc m) s1 = Some st'" by (auto split: option.splits)
  obtain j where k: "k = Suc j" using Suc.prems(3) by (cases k) auto
  show ?case
  proof (cases "quiet hide s1")
    case True
    then have "st' = s1" using s1(2) quiet_flushes [of hide s1 "Suc m"] by simp
    then show ?thesis using s1(1) True k by simp
  next
    case False
    then show ?thesis using s1 k Suc by simp
  qed
qed

section \<open>What is read\<close>

lemma zero_facts:
  "tryParseVisualConfig ZERO_EXPR = None" "splitBillingExprAndRequestRules ZERO_EXPR = Some \<lparr>sr_billingExpr = ZERO_EXPR, sr_requestRuleExpr = []\<rparr>"
  "combineBillingExpr ZERO_EXPR [] = ZERO_EXPR" "js_trim ZERO_EXPR = ZERO_EXPR"
proof -
  have "expr_body ZERO_EXPR = ZERO_EXPR" "match_full SINGLE_TIER ZERO_EXPR = None"
    by (simp_all add: body_same single_none ZERO_EXPR_def)
  moreover have "chain_tiers ZERO_EXPR = []" by (simp add: chain_tiers_def exec_all.simps zero_search)
  ultimately show "tryParseVisualConfig ZERO_EXPR = None" by (simp add: tryParseVisualConfig_def ZERO_EXPR_def)
  show trim: "js_trim ZERO_EXPR = ZERO_EXPR" by (simp add: ZERO_EXPR_def trim_by_eq_iff is_ws_def)
  show "combineBillingExpr ZERO_EXPR [] = ZERO_EXPR" by (simp add: combineBillingExpr_def trim)
  have trims: "js_trim ''p'' = ''p''" "js_trim ''0 + c'' = ''0 + c''" "js_trim ''0'' = ''0''"
    by (simp_all add: trim_by_eq_iff is_ws_def)
  then have parts: "splitTopLevelMultiply ZERO_EXPR = [''p'', ''0 + c'', ''0'']"
    by (simp add: splitTopLevelMultiply_def split_parts_def ZERO_EXPR_def)
  have "splitTopLevelMultiply w = [w] \<Longrightarrow> js_trim w = w \<Longrightarrow> w \<noteq> [] \<Longrightarrow> hd w \<noteq> CHR ''('' \<Longrightarrow> tryParseRequestRuleExpr w = NoMatch" for w
  proof -
    assume w: "splitTopLevelMultiply w = [w]" "js_trim w = w" "w \<noteq> []" "hd w \<noteq> CHR ''(''"
    have "match_full FACTOR_REGEX w = None"
      by (rule match_full_none) (use w in \<open>cases w; simp add: FACTOR_REGEX_def run_lit_seq\<close>)
    then show "tryParseRequestRuleExpr w = NoMatch"
      using w by (simp add: tryParseRequestRuleExpr_def tryParseRuleGroupFactor_def)
  qed
  moreover have "splitTopLevelMultiply ''p'' = [''p'']" "splitTopLevelMultiply ''0 + c'' = [''0 + c'']" "splitTopLevelMultiply ''0'' = [''0'']"
    using trims by (simp_all add: splitTopLevelMultiply_def split_parts_def)
  ultimately have "tryParseRequestRuleExpr ''p'' = NoMatch" "tryParseRequestRuleExpr ''0 + c'' = NoMatch" "tryParseRequestRuleExpr ''0'' = NoMatch"
    using trims by simp_all
  then show "splitBillingExprAndRequestRules ZERO_EXPR = Some \<lparr>sr_billingExpr = ZERO_EXPR, sr_requestRuleExpr = []\<rparr>"
    unfolding splitBillingExprAndRequestRules_def Let_def trim parts by (simp add: is_rule_part_def)
qed

lemma no_rules [simp]: "read_groups [] = Some []" "buildRequestRuleExpr [] = []" "tryParseRequestRuleExpr [] = Found []"
  by (simp_all add: read_groups_def tryParseRequestRuleExpr_def buildRequestRuleExpr_def)

lemma zero_written: "generateExprFromVisualConfig None = ZERO_EXPR"
  by (simp add: generateExprFromVisualConfig_def)

section \<open>An expression that the visual editor cannot read\<close>

definition raw_state :: "string \<Rightarrow> string \<Rightarrow> bool \<Rightarrow> string option \<Rightarrow> string \<Rightarrow> tiered_editor" where
  "raw_state raw expr init model seen = \<lparr>te_mode = Raw, te_config = None, te_raw = raw, te_groups = [], te_init = init,
     te_expr = expr, te_rules = [], te_model = model, te_seen = Some (seen, []), te_seenModel = Some model\<rparr>"

lemma raw_state_fields [simp]:
  "te_mode (raw_state r e i m s) = Raw" "te_config (raw_state r e i m s) = None" "te_raw (raw_state r e i m s) = r"
  "te_groups (raw_state r e i m s) = []" "te_init (raw_state r e i m s) = i" "te_expr (raw_state r e i m s) = e"
  "te_rules (raw_state r e i m s) = []" "te_model (raw_state r e i m s) = m" "te_seen (raw_state r e i m s) = Some (s, [])"
  "te_seenModel (raw_state r e i m s) = Some m"
  by (simp_all add: raw_state_def)

lemma raw_flush:
  assumes e: "effectiveExpr hide (raw_state raw expr init model seen) = Some e" and idle: "init \<or> seen = expr"
  shows "flush hide (raw_state raw expr init model seen) = Some (raw_state raw e init model expr)"
proof -
  let ?st = "raw_state raw expr init model seen"
  have "init_effect ?st ?st = Some ?st" using idle by (auto simp: init_effect_def)
  then show ?thesis using e by (simp add: flush_def canUseVisualRules_def model_effect_def expr_effect_def tell_expr_def rules_effect_def)
qed

lemma raw_reads:
  assumes e: "effectiveExpr hide (raw_state raw expr False model seen) = Some e" and new: "seen \<noteq> expr"
    and raw: "tryParseVisualConfig expr = None" "expr \<noteq> []"
  shows "flush hide (raw_state raw expr False model seen) = Some (raw_state (combineBillingExpr expr []) e True model expr)"
proof -
  let ?st = "raw_state raw expr False model seen"
  have "init_effect ?st ?st = Some (?st\<lparr>te_init := True, te_raw := combineBillingExpr expr []\<rparr>)"
    using new raw by (simp add: init_effect_def read_props_def)
  then show ?thesis using e by (simp add: flush_def canUseVisualRules_def model_effect_def expr_effect_def tell_expr_def rules_effect_def)
qed

lemma mount_raw:
  assumes "expr \<noteq> []" "tryParseVisualConfig expr = None"
  shows "\<exists>st. mount_editor model expr [] = Some st \<and>
    flush hide st = Some (raw_state (combineBillingExpr expr []) ZERO_EXPR False model expr)"
proof -
  let ?raw = "combineBillingExpr expr []"
  let ?st = "\<lparr>te_mode = Visual, te_config = None, te_raw = ?raw, te_groups = [], te_init = False, te_expr = expr, te_rules = [],
    te_model = model, te_seen = None, te_seenModel = None\<rparr>"
  have "mount_editor model expr [] = Some ?st" using assms by (simp add: mount_editor_def)
  moreover have "init_effect ?st ?st = Some (?st\<lparr>te_init := True, te_mode := Raw\<rparr>)"
    using assms by (simp add: init_effect_def read_props_def)
  then have "flush hide ?st = Some (raw_state ?raw ZERO_EXPR False model expr)"
    by (simp add: flush_def effectiveExpr_def canUseVisualRules_def model_effect_def expr_effect_def tell_expr_def rules_effect_def zero_written)
  ultimately show ?thesis by blast
qed

lemma zero_effective: "effectiveExpr hide (raw_state ZERO_EXPR e i m s) = Some ZERO_EXPR"
  by (simp add: effectiveExpr_def zero_facts)

lemma raw_overwritten:
  assumes expr: "expr \<noteq> []" "tryParseVisualConfig expr = None"
    and read: "hide \<or> splitBillingExprAndRequestRules (js_trim expr) \<noteq> None"
  shows "\<exists>st. mount_editor model expr [] = Some st \<and> settle_editor hide 5 st = Settled (raw_state ZERO_EXPR ZERO_EXPR (expr \<noteq> ZERO_EXPR) model ZERO_EXPR)"
proof -
  have comb: "combineBillingExpr expr [] = js_trim expr" by (auto simp: combineBillingExpr_def trim_by_def Let_def)
  obtain e where eff: "effectiveExpr hide (raw_state (js_trim expr) x i m s) = Some e" for x i m s
    using read by (cases hide) (auto simp: effectiveExpr_def)
  obtain st where st: "mount_editor model expr [] = Some st" "flush hide st = Some (raw_state (js_trim expr) ZERO_EXPR False model expr)"
    using mount_raw [OF expr] comb by auto
  have zero: "ZERO_EXPR \<noteq> []" by (simp add: ZERO_EXPR_def)
  let ?r = "\<lambda>i. raw_state ZERO_EXPR ZERO_EXPR i model ZERO_EXPR"
  have q: "quiet hide (?r i)" for i using zero_effective by (simp add: quiet_def canUseVisualRules_def)
  show ?thesis
  proof (cases "expr = ZERO_EXPR")
    case True
    then have "flushes hide (Suc 0) st = Some (?r False)" using st(2) zero_facts(4) by simp
    from settle_reaches [OF this q] show ?thesis using st(1) True by auto
  next
    case False
    have "flush hide (raw_state (js_trim expr) ZERO_EXPR False model expr) = Some (raw_state ZERO_EXPR e True model ZERO_EXPR)"
      using raw_reads [OF eff] False zero zero_facts by simp
    moreover have "flush hide (raw_state ZERO_EXPR e True model ZERO_EXPR) = Some (raw_state ZERO_EXPR ZERO_EXPR True model e)"
      using raw_flush [OF zero_effective] by simp
    moreover have "flush hide (raw_state ZERO_EXPR ZERO_EXPR True model e) = Some (?r True)"
      using raw_flush [OF zero_effective] by simp
    ultimately have "flushes hide (Suc 3) st = Some (?r True)" using st(2) by (simp add: eval_nat_numeral)
    from settle_reaches [OF this q] show ?thesis using st(1) False by auto
  qed
qed


text \<open>No expression: the first render tells the expression of no configuration, the second reads it.\<close>

lemma empty_overwritten:
  "\<exists>st. mount_editor model [] [] = Some st \<and> settle_editor hide 5 st = Settled (raw_state ZERO_EXPR ZERO_EXPR True model ZERO_EXPR)"
proof -
  let ?st = "\<lparr>te_mode = Visual, te_config = None, te_raw = [], te_groups = [], te_init = False, te_expr = [], te_rules = [],
    te_model = model, te_seen = None, te_seenModel = None\<rparr>"
  let ?s1 = "\<lparr>te_mode = Visual, te_config = Some createDefaultVisualConfig, te_raw = [], te_groups = [], te_init = False, te_expr = ZERO_EXPR,
    te_rules = [], te_model = model, te_seen = Some ([], []), te_seenModel = Some model\<rparr>"
  let ?e = "generateExprFromVisualConfig (Some createDefaultVisualConfig)"
  have none: "tryParseVisualConfig [] = None" "combineBillingExpr [] [] = []"
    by (simp_all add: tryParseVisualConfig_def combineBillingExpr_def trim_by_def)
  have zero: "ZERO_EXPR \<noteq> []" by (simp add: ZERO_EXPR_def)
  have m: "mount_editor model [] [] = Some ?st" using none by (simp add: mount_editor_def)
  have "init_effect ?st ?st = Some (?st\<lparr>te_init := True, te_config := Some createDefaultVisualConfig\<rparr>)"
    using none by (simp add: init_effect_def read_props_def)
  then have 1: "flush hide ?st = Some ?s1"
    using zero by (simp add: flush_def effectiveExpr_def canUseVisualRules_def model_effect_def expr_effect_def tell_expr_def rules_effect_def zero_written)
  have "init_effect ?s1 ?s1 = Some (?s1\<lparr>te_init := True, te_config := None, te_mode := Raw, te_raw := ZERO_EXPR\<rparr>)"
    using zero zero_facts by (simp add: init_effect_def read_props_def)
  then have 2: "flush hide ?s1 = Some (raw_state ZERO_EXPR ?e True model ZERO_EXPR)"
    by (auto simp: flush_def effectiveExpr_def canUseVisualRules_def model_effect_def expr_effect_def tell_expr_def rules_effect_def raw_state_def)
  note 3 = raw_flush [OF zero_effective, of True _ _ hide]
  have "flushes hide (Suc 3) ?st = Some (raw_state ZERO_EXPR ZERO_EXPR True model ZERO_EXPR)"
    using 1 2 3 by (simp add: eval_nat_numeral)
  moreover have "quiet hide (raw_state ZERO_EXPR ZERO_EXPR True model ZERO_EXPR)"
    using zero_effective by (simp add: quiet_def canUseVisualRules_def)
  ultimately have "settle_editor hide 5 ?st = Settled (raw_state ZERO_EXPR ZERO_EXPR True model ZERO_EXPR)"
    by (rule settle_reaches) simp
  then show ?thesis using m by blast
qed

section \<open>Prices that are read as they are written\<close>

definition steady :: "string \<Rightarrow> string \<Rightarrow> visual_config \<Rightarrow> rule_group list \<Rightarrow> bool" where
  "steady expr rules c gs \<longleftrightarrow> tryParseVisualConfig expr = Some c \<and> generateExprFromVisualConfig (Some c) = expr \<and>
     tryParseRequestRuleExpr rules = Found gs \<and> buildRequestRuleExpr gs = rules"

definition displays :: "tiered_editor \<Rightarrow> visual_config \<Rightarrow> rule_group list \<Rightarrow> bool" where
  "displays st c gs \<longleftrightarrow> te_mode st = Visual \<and> te_config st = Some c \<and> te_groups st = gs"

lemma steady_facts:
  assumes "steady expr rules c gs"
  shows "read_groups rules = Some gs" "te_rules st = rules \<Longrightarrow> canUseVisualRules st \<noteq> None"
    "displays st c gs \<Longrightarrow> effectiveExpr hide st = Some expr"
    "displays st c gs \<Longrightarrow> te_rules st = rules \<or> \<not> hide \<Longrightarrow> rules_target hide st = rules"
  using assms by (auto simp: steady_def displays_def read_groups_def canUseVisualRules_def effectiveExpr_def rules_target_def)

lemma steady_written:
  assumes "config_ok ts" "list_all rule_ok gs" "list_all (\<lambda>g. list_all readable (rg_conditions g)) gs"
  shows "steady (generateExprFromVisualConfig (Some \<lparr>vc_tiers = ts\<rparr>)) (buildRequestRuleExpr gs) \<lparr>vc_tiers = map reread ts\<rparr> gs"
  using config_read [OF assms(1)] written_again [OF assms(1)] rules_read [OF assms(2)] assms(3) by (simp add: steady_def)

lemma flush_runs:
  assumes "effectiveExpr hide st \<noteq> None" "canUseVisualRules st \<noteq> None"
  shows "\<exists>st'. flush hide st = Some st'"
proof -
  have "read_groups (te_rules st) \<noteq> None"
    using assms(2) by (auto simp: canUseVisualRules_def read_groups_def split: if_splits reading.splits)
  then have "init_effect st st \<noteq> None" by (simp add: init_effect_def)
  then show ?thesis using assms by (auto simp: flush_def)
qed

lemma flush_reads:
  assumes "flush hide st = Some st'" "\<not> te_init st" "te_seen st \<noteq> Some (te_expr st, te_rules st)"
    and "steady (te_expr st) (te_rules st) c gs"
  shows "displays st' c gs"
  using assms(1)
proof (rule flushE)
  fix eff now
  assume now: "init_effect st st = Some now"
    "st' = (rules_effect hide st (expr_effect eff st (model_effect st now)))
       \<lparr>te_seen := Some (te_expr st, te_rules st), te_seenModel := Some (te_model st)\<rparr>"
  have "tryParseVisualConfig (te_expr st) = Some c" "read_groups (te_rules st) = Some gs"
    using assms(4) steady_facts(1) [OF assms(4)] by (simp_all add: steady_def)
  then show "displays st' c gs" using now assms(2,3) by (auto simp: displays_def init_effect_def read_props_def)
qed

lemma flush_displays:
  assumes "flush hide st = Some st'" "te_init st \<or> te_seen st = Some (te_expr st, te_rules st)" "displays st c gs"
  shows "displays st' c gs"
  using flush_keeps [OF assms(1,2)] assms(3) by (simp add: displays_def)

lemma opens_steady:
  assumes "steady expr rules c gs"
  shows "\<exists>st st'. mount_editor model expr rules = Some st \<and> settle_editor hide 5 st = Settled st' \<and> displays st' c gs \<and>
    te_expr st' = expr \<and> te_rules st' = rules \<and> \<not> te_init st' \<and> te_model st' = model"
proof -
  let ?st = "\<lparr>te_mode = Visual, te_config = Some c, te_raw = combineBillingExpr expr rules, te_groups = gs, te_init = False,
    te_expr = expr, te_rules = rules, te_model = model, te_seen = None, te_seenModel = None\<rparr>"
  have m: "mount_editor model expr rules = Some ?st"
    using assms steady_facts(1) [OF assms] by (simp add: mount_editor_def steady_def)
  have d: "displays ?st c gs" by (simp add: displays_def)
  note f = steady_facts(2) [OF assms, of ?st] steady_facts(3,4) [OF assms d, of hide]
  obtain st' where st': "flush hide ?st = Some st'" using flush_runs [of hide ?st] f by auto
  note p = flush_props [OF st']
  have d': "displays st' c gs" by (rule flush_reads [OF st']) (use assms in simp_all)
  have same: "te_expr st' = expr" "te_rules st' = rules" using p f by simp_all
  have "quiet hide st'"
    using p d' same steady_facts(2) [OF assms, of st'] steady_facts(3,4) [OF assms d'] by (simp add: quiet_def displays_def rules_target_def split: if_splits)
  then have "settle_editor hide 5 ?st = Settled st'" by (intro settle_reaches [of _ 0]) (simp_all add: st')
  moreover have "\<not> te_init st'" using st' by (auto elim!: flushE simp: model_effect_def)
  ultimately show ?thesis using m d' same p(3) by auto
qed

text \<open>Another model is shown in the editor that is open.\<close>

lemma switch_back:
  assumes st: "quiet False st" "displays st c gs" "steady (te_expr st) (te_rules st) c' gs'"
    and new: "steady expr rules c1 gs1" "model \<noteq> te_model st" "(expr, rules) \<noteq> (te_expr st, te_rules st)"
  shows "\<exists>st'. settle_editor False 5 (set_props model expr rules st) = Settled st' \<and> displays st' c' gs' \<and> te_model st' = model \<and>
    te_expr st' = te_expr st \<and> te_rules st' = te_rules st"
proof -
  let ?s0 = "set_props model expr rules st"
  have s0: "te_expr ?s0 = expr" "te_rules ?s0 = rules" "te_model ?s0 = model" "te_seen ?s0 = te_seen st" "te_init ?s0 = te_init st"
    "te_seenModel ?s0 = te_seenModel st" "displays ?s0 c gs" using st(2) by (simp_all add: set_props_def displays_def)
  have held: "generateExprFromVisualConfig (Some c) = te_expr st" "buildRequestRuleExpr gs = te_rules st"
    using st(1,2) by (simp_all add: quiet_def displays_def effectiveExpr_def)
  then have e0: "effectiveExpr False ?s0 = Some (te_expr st)" "rules_target False ?s0 = te_rules st"
    using s0(7) by (simp_all add: displays_def effectiveExpr_def rules_target_def)
  obtain s1 where s1: "flush False ?s0 = Some s1" using flush_runs [of False ?s0] e0 steady_facts(2) [OF new(1)] s0(2) by auto
  note p1 = flush_props [OF s1]
  have x1: "te_expr s1 = te_expr st" "te_rules s1 = te_rules st" "te_model s1 = model" "te_seen s1 = Some (expr, rules)" "te_seenModel s1 = Some model"
    using p1 e0 s0 by simp_all
  have "te_seenModel ?s0 \<noteq> Some (te_model ?s0)" using st(1) new(2) s0 by (simp add: quiet_def)
  then have i1: "\<not> te_init s1" using s1 by (auto elim!: flushE simp: model_effect_def)
  have seen0: "te_seen ?s0 \<noteq> Some (te_expr ?s0, te_rules ?s0)" using st(1) new(3) s0 by (auto simp: quiet_def)
  have d1: "displays s1 c gs \<or> displays s1 c1 gs1"
  proof (cases "te_init st")
    case True then show ?thesis using flush_displays [OF s1 _ s0(7)] s0(5) by simp
  next
    case False then show ?thesis using flush_reads [OF s1 _ seen0] new(1) s0 by simp
  qed
  then have e1: "effectiveExpr False s1 \<noteq> None" "rules_target False s1 \<in> {te_rules st, rules}"
    using held new(1) by (auto simp: steady_def displays_def effectiveExpr_def rules_target_def)
  obtain s2 where s2: "flush False s1 = Some s2" using flush_runs [OF e1(1)] steady_facts(2) [OF st(3)] x1(2) by auto
  note p2 = flush_props [OF s2]
  have d2: "displays s2 c' gs'" by (rule flush_reads [OF s2 i1]) (use x1 st(3) new(3) in auto)
  have i2: "te_init s2" "te_seenModel s2 = Some (te_model s2)"
    using flush_init [OF s2] x1 new(3) p2 by auto
  have can2: "canUseVisualRules s2 \<noteq> None" using p2(2) e1(2) steady_facts(2) [OF st(3)] steady_facts(2) [OF new(1)] by auto
  obtain s3 where s3: "flush False s2 = Some s3" using flush_runs [OF _ can2] steady_facts(3) [OF st(3) d2] by auto
  note p3 = flush_props [OF s3]
  have d3: "displays s3 c' gs'" using flush_displays [OF s3 _ d2] i2 by simp
  have i3: "te_init s3" using flush_init [OF s3 i2(2)] i2 by simp
  have x3: "te_expr s3 = te_expr st" "te_rules s3 = te_rules st"
    using p3(1,2) steady_facts(3,4) [OF st(3) d2] by simp_all
  obtain s4 where s4: "flush False s3 = Some s4"
    using flush_runs [of False s3] steady_facts(3) [OF st(3) d3] steady_facts(2) [OF st(3) x3(2)] by auto
  note p4 = flush_props [OF s4]
  have d4: "displays s4 c' gs'" using flush_displays [OF s4 _ d3] i3 by simp
  have x4: "te_expr s4 = te_expr s3" "te_rules s4 = te_rules s3"
    using p4(1,2) steady_facts(3,4) [OF st(3) d3] x3 by simp_all
  have "quiet False s4" using rest_quiet [OF s4 _ x4] i3 by simp
  moreover have "flushes False (Suc 3) ?s0 = Some s4" using s1 s2 s3 s4 by (simp add: eval_nat_numeral)
  ultimately have "settle_editor False 5 ?s0 = Settled s4" by (intro settle_reaches [of _ 3]) simp_all
  then show ?thesis using d4 x4 x3 p4(3) p3(3) p2(3) x1(3) by auto
qed


section \<open>Changing the mode\<close>

lemma raw_and_back:
  assumes st: "quiet False st" "displays st c gs" "steady (te_expr st) (te_rules st) c' gs'"
    and split: "splitBillingExprAndRequestRules (combineBillingExpr (te_expr st) (te_rules st)) =
      Some \<lparr>sr_billingExpr = te_expr st, sr_requestRuleExpr = te_rules st\<rparr>" "combineBillingExpr (te_expr st) (te_rules st) \<noteq> []"
  shows "quiet False (to_raw st)" "te_raw (to_raw st) = combineBillingExpr (te_expr st) (te_rules st)"
    "te_expr (to_raw st) = te_expr st" "te_rules (to_raw st) = te_rules st"
    "\<exists>st'. to_visual False (to_raw st) = Some st' \<and> quiet False st' \<and> displays st' c' gs' \<and> te_expr st' = te_expr st \<and> te_rules st' = te_rules st"
proof -
  have held: "generateExprFromVisualConfig (Some c) = te_expr st" "buildRequestRuleExpr gs = te_rules st"
    using st(1,2) by (simp_all add: quiet_def displays_def effectiveExpr_def)
  then show raw: "te_raw (to_raw st) = combineBillingExpr (te_expr st) (te_rules st)"
    using st(2) split(2) by (simp add: to_raw_def displays_def or_str_def Let_def)
  have keep [simp]: "te_mode (to_raw st) = Raw" "te_expr (to_raw st) = te_expr st" "te_rules (to_raw st) = te_rules st"
    "te_seen (to_raw st) = te_seen st" "te_model (to_raw st) = te_model st" "te_seenModel (to_raw st) = te_seenModel st"
    by (simp_all add: to_raw_def Let_def)
  show "te_expr (to_raw st) = te_expr st" "te_rules (to_raw st) = te_rules st" by simp_all
  have can: "canUseVisualRules (to_raw st) \<noteq> None" using steady_facts(2) [OF st(3)] by simp
  then show "quiet False (to_raw st)" using st(1) split(1) raw by (simp add: quiet_def effectiveExpr_def)
  let ?vis = "tell_rules False (te_rules st) ((to_raw st)\<lparr>te_config := Some c', te_groups := gs', te_mode := Visual\<rparr>)"
  have "to_visual False (to_raw st) = Some ?vis"
    using raw split(1) st(3) steady_facts(1) [OF st(3)] by (simp add: to_visual_def steady_def)
  moreover have d: "displays ?vis c' gs'" by (simp add: displays_def tell_rules_def)
  moreover have f: "te_expr ?vis = te_expr st" "te_rules ?vis = te_rules st" "te_seen ?vis = te_seen st" "te_model ?vis = te_model st" "te_seenModel ?vis = te_seenModel st"
    by (simp_all add: tell_rules_def)
  moreover have "quiet False ?vis"
    using st(1) st(3) d f steady_facts(2) [OF st(3) f(2)] by (simp add: quiet_def displays_def effectiveExpr_def steady_def)
  ultimately show "\<exists>st'. to_visual False (to_raw st) = Some st' \<and> quiet False st' \<and> displays st' c' gs' \<and> te_expr st' = te_expr st \<and> te_rules st' = te_rules st"
    by blast
qed

section \<open>Edits of the tiers\<close>

text \<open>At most two conditions, and every price a decimal.\<close>

definition tier_shape :: "visual_tier \<Rightarrow> bool" where
  "tier_shape t \<longleftrightarrow> length (vt_conditions t) \<le> 2 \<and> (\<forall>f \<in> set COST_FIELDS. \<exists>d. vt_costs t f = Some (Num d))"

definition config_shape :: "visual_config \<Rightarrow> bool" where
  "config_shape c \<longleftrightarrow> vc_tiers c \<noteq> [] \<and> list_all tier_shape (vc_tiers c)"

text \<open>The number fields tell their host decimals.\<close>

fun decimal_edit :: "visual_edit \<Rightarrow> bool" where
  "decimal_edit (TierEdit i (SetPrice f n)) \<longleftrightarrow> (case n of Num _ \<Rightarrow> True | _ \<Rightarrow> False)"
| "decimal_edit _ \<longleftrightarrow> True"

lemma field_tells_decimals: "\<exists>d. parseNumberDraft s = Num d"
  by (simp add: parseNumberDraft_def num_or_nought_def split: jsnum.splits)

lemma normal_shape:
  assumes "\<forall>cs. pl_conditions p = Some cs \<longrightarrow> length cs \<le> 2" and "\<forall>f \<in> set COST_FIELDS. \<forall>b. pl_costs p f \<noteq> Some (Infinite b)"
  shows "tier_shape (normalizeVisualTier p)"
proof -
  have "\<exists>d. num_or_zero (num_cost (pl_costs p) f) = Num d" if "f \<in> set COST_FIELDS" for f
    using assms(2) that by (auto simp: num_cost_def num_or_zero_def split: option.splits jsnum.splits)
  then show ?thesis using assms(1) by (simp add: tier_shape_def normalizeVisualTier_def split: option.split)
qed

lemma decimal_costs: "tier_shape t \<Longrightarrow> f \<in> set COST_FIELDS \<Longrightarrow> vt_costs t f \<noteq> Some (Infinite b)"
  by (auto simp: tier_shape_def)

lemma renormal_shape: "tier_shape t \<Longrightarrow> tier_shape (normalizeVisualTier (as_partial t))"
  by (rule normal_shape) (auto simp: as_partial_def tier_shape_def)

lemma default_shape: "config_shape createDefaultVisualConfig"
  by (auto simp: config_shape_def createDefaultVisualConfig_def fun_upd_apply split: if_splits intro!: normal_shape)

lemma normalized_shape: "(\<And>c. config = Some c \<Longrightarrow> config_shape c) \<Longrightarrow> config_shape (normalizeVisualConfig config)"
  using default_shape renormal_shape
  by (auto simp: normalizeVisualConfig_def config_shape_def list_all_iff split: option.split)

lemma set_without: "set (without i xs) \<subseteq> set xs"
  by (auto simp: without_def set_nths)

lemma length_without: "length (without i xs) \<le> length xs"
proof -
  have "card {k. k < length xs \<and> k \<in> - {i}} \<le> card {k. k < length xs}" by (rule card_mono) auto
  then show ?thesis by (simp add: without_def length_nths)
qed

lemma edit_shape:
  assumes t: "tier_shape t" and e: "decimal_edit (TierEdit i e)"
  shows "tier_shape (normalizeVisualTier (as_partial (edit_tier e t)))"
proof -
  have c: "length (vt_conditions t) \<le> 2" and f: "\<forall>f \<in> set COST_FIELDS. \<exists>d. vt_costs t f = Some (Num d)"
    using t by (simp_all add: tier_shape_def)
  have "tier_shape (edit_tier e t)"
  proof (cases e)
    case (RemoveCondition j)
    then show ?thesis using length_without [of j "vt_conditions t"] c f by (simp add: tier_shape_def handleTierConditionRemove_def)
  next
    case (SetPrice g n)
    then obtain d where "n = Num d" using e by (cases n) auto
    then show ?thesis using SetPrice c f by (auto simp: tier_shape_def handlePriceChange_def num_or_zero_def)
  next
    case (SetCacheMode m)
    have "''cache_create_1h_unit_cost'' \<in> set COST_FIELDS" by (simp add: COST_FIELDS_def)
    then obtain d where "vt_costs t ''cache_create_1h_unit_cost'' = Some (Num d)" using f by blast
    then show ?thesis using SetCacheMode c f by (simp add: tier_shape_def handleCacheModeChange_def)
  qed (use c f in \<open>simp_all add: tier_shape_def handleTierConditionChange_def\<close>)
  then show ?thesis by (rule renormal_shape)
qed

lemma replaced_tier_shape: "config_shape c \<Longrightarrow> (i < length (vc_tiers c) \<Longrightarrow> tier_shape t) \<Longrightarrow> config_shape (c\<lparr>vc_tiers := (vc_tiers c)[i := t]\<rparr>)"
  using set_update_subset_insert [of "vc_tiers c" i t] by (cases "i < length (vc_tiers c)") (auto simp: config_shape_def list_all_iff list_update_beyond)

lemma at_shape: "config_shape c \<Longrightarrow> i < length (vc_tiers c) \<Longrightarrow> tier_shape (vc_tiers c ! i)"
  by (simp add: config_shape_def list_all_iff)

lemma add_tier_shape:
  assumes "config_shape c"
  shows "config_shape (handleAddTier c)"
proof -
  have l: "tier_shape (last (vc_tiers c))" "\<forall>t \<in> set (butlast (vc_tiers c)). tier_shape t"
    using assms by (auto simp: config_shape_def list_all_iff dest: in_set_butlastD)
  then have "tier_shape (normalizeVisualTier (as_partial ((last (vc_tiers c))\<lparr>vt_conditions := [new_bound ''len'']\<rparr>)))"
    using decimal_costs [OF l(1)] by (intro normal_shape) (auto simp: as_partial_def)
  moreover have "tier_shape (normalizeVisualTier \<lparr>pl_label = l, pl_conditions = Some [], pl_cache_mode = None,
      pl_costs = [''input_unit_cost'' \<mapsto> Num (int_dec 0), ''output_unit_cost'' \<mapsto> Num (int_dec 0)]\<rparr>)" for l
    by (rule normal_shape) auto
  ultimately show ?thesis using assms l(2) by (auto simp: config_shape_def handleAddTier_def Let_def list_all_iff)
qed

lemma step_shape:
  assumes "\<And>c. config = Some c \<Longrightarrow> config_shape c" and "decimal_edit e"
  shows "config_shape (visual_step e config)"
proof -
  let ?c = "normalizeVisualConfig config"
  have c: "config_shape ?c" using assms(1) by (rule normalized_shape)
  show ?thesis
  proof (cases e)
    case (TierEdit i f)
    then show ?thesis using replaced_tier_shape [OF c, of i] edit_shape [OF at_shape [OF c]] assms(2) by (simp add: handleTierChange_def Let_def)
  next
    case AddTier
    then show ?thesis using add_tier_shape [OF c] by simp
  next
    case (RemoveTier i)
    then show ?thesis using c set_without [of i "vc_tiers ?c"] by (auto simp: config_shape_def handleRemoveTier_def Let_def list_all_iff)
  next
    case (AddCondition i)
    let ?t = "vc_tiers ?c ! i"
    have "config_shape (?c\<lparr>vc_tiers := (vc_tiers ?c)[i := ?t\<lparr>vt_conditions := vt_conditions ?t @ [new_bound v]\<rparr>]\<rparr>)"
      if "\<not> 2 \<le> length (vt_conditions ?t)" for v
      by (rule replaced_tier_shape [OF c]) (use at_shape [OF c] that in \<open>simp add: tier_shape_def\<close>)
    then show ?thesis using AddCondition c by (simp add: handleAddTierCondition_def Let_def)
  qed
qed


section \<open>Samples\<close>

lemma small_texts: "show_nat 0 = ''0''" "show_nat 1 = ''1''" "show_nat (Suc 0) = ''1''" "show_nat 2 = ''2''" "show_nat 5 = ''5''"
  by (subst show_nat.simps, simp add: digit_char_def)+

lemma base_text:
  "generateExprFromVisualConfig (Some \<lparr>vc_tiers = [sample_tier ''base'' [] 1]\<rparr>) = quoted_text ''tier(`base`, p * 1 + c * 2 + cr * 0.5)''"
  by (simp add: generateExprFromVisualConfig_def tier_text_def buildTierBodyExpr_def sample_tier_def normalizeVisualTier_def cost_of_def
      num_cost_def num_or_zero_def COST_FIELDS_def coeff_text_def quoted_text_def or_str_def buildConditionStr_def BILLING_CACHE_VAR_MAP_def
      BILLING_EXTRA_VARS_def BILLING_VARS_def price_var_def or_default_def digit_char_def small_texts)

lemma base_ok: "config_ok [sample_tier ''base'' [] 1]"
  by (simp add: config_ok_def not_quote_def sample_tier_ok sample_tier_conditions)

lemma sample_rules_ok: "list_all rule_ok [sample_group]" "list_all (\<lambda>g. list_all readable (rg_conditions g)) [sample_group]"
  using sample_groups_ok by (simp_all add: sample_group_def sample_time_def sample_header_def)

lemma max_facts: "tryParseVisualConfig ''max(p, c)'' = None" "splitBillingExprAndRequestRules ''max(p, c)'' \<noteq> None" "js_trim ''max(p, c)'' = ''max(p, c)''"
  by (code_simp, code_simp, simp add: trim_by_eq_iff is_ws_def)

section \<open>Properties\<close>

text \<open>
  C14: An expression that the visual editor cannot read is lost when it is shown. The component starts in
  the visual mode without a configuration, so its third effect tells the host the expression for no
  configuration, \<open>p * 0 + c * 0\<close>, before the first effect has changed the mode; the two texts are then
  exchanged once more and the component comes to rest with the price 0 as its text, as its expression
  and as the expression of the host. No input of the user is needed.
\<close>

theorem raw_expression_overwritten:
  assumes "expr \<noteq> []" and "tryParseVisualConfig expr = None"
    and "hide \<or> splitBillingExprAndRequestRules (js_trim expr) \<noteq> None"
  shows "\<exists>st st'. mount_editor model expr [] = Some st \<and> settle_editor hide 5 st = Settled st' \<and>
    te_mode st' = Raw \<and> te_raw st' = ZERO_EXPR \<and> te_expr st' = ZERO_EXPR"
  using raw_overwritten [OF assms] by fastforce

lemma raw_expression_overwritten_witness:
  "\<exists>st st'. mount_editor (Some ''m'') ''max(p, c)'' [] = Some st \<and> settle_editor False 5 st = Settled st' \<and>
    te_mode st' = Raw \<and> te_raw st' = ZERO_EXPR \<and> te_expr st' = ZERO_EXPR"
  by (rule raw_expression_overwritten) (simp_all add: max_facts)

text \<open>
  C16: A price that the visual editor wrote is shown without being changed, when its rules are ones that
  can be read back: for every configuration of tiers and rules none of which compares or searches a
  parameter the component comes to rest in the visual mode with these tiers and rules, and its host holds
  the texts it held. With a rule that compares a parameter it does not (comparison_closes_rules).
\<close>

theorem written_price_opens_unchanged:
  assumes "config_ok ts" "list_all rule_ok gs" "list_all (\<lambda>g. list_all readable (rg_conditions g)) gs"
  shows "\<exists>st st'. mount_editor model (generateExprFromVisualConfig (Some \<lparr>vc_tiers = ts\<rparr>)) (buildRequestRuleExpr gs) = Some st \<and>
    settle_editor hide 5 st = Settled st' \<and> te_mode st' = Visual \<and> te_config st' = Some \<lparr>vc_tiers = map reread ts\<rparr> \<and> te_groups st' = gs \<and>
    te_expr st' = generateExprFromVisualConfig (Some \<lparr>vc_tiers = ts\<rparr>) \<and> te_rules st' = buildRequestRuleExpr gs"
  using opens_steady [OF steady_written [OF assms], of model hide] unfolding displays_def by blast

lemma written_price_opens_unchanged_witness:
  "\<exists>st st'. mount_editor (Some ''m'') (generateExprFromVisualConfig (Some \<lparr>vc_tiers = sample_tiers\<rparr>)) (buildRequestRuleExpr [sample_group]) = Some st \<and>
    settle_editor False 5 st = Settled st' \<and> te_mode st' = Visual \<and> te_config st' = Some \<lparr>vc_tiers = map reread sample_tiers\<rparr> \<and> te_groups st' = [sample_group] \<and>
    te_expr st' = generateExprFromVisualConfig (Some \<lparr>vc_tiers = sample_tiers\<rparr>) \<and> te_rules st' = buildRequestRuleExpr [sample_group]"
  by (rule written_price_opens_unchanged [OF sample_tiers_ok sample_rules_ok])





text \<open>
  C17: The effects of the component come to rest. Whatever it holds and whatever its host holds, after at
  most five renders either a reader has raised or a state is reached that a further render leaves as it
  is, in which the host holds the expression the component has.
\<close>

theorem editor_settles:
  "case settle_editor hide 5 st of Running \<Rightarrow> False | Broke \<Rightarrow> True
   | Settled st' \<Rightarrow> flush hide st' = Some st' \<and> effectiveExpr hide st' = Some (te_expr st')"
proof (cases "settle_editor hide 5 st")
  case (Settled st')
  then have "quiet hide st'" by (rule settled_quiet)
  then show ?thesis using Settled quiet_flush by (simp add: quiet_def)
qed (use five_settle in simp_all)



text \<open>
  A condition that compares a parameter closes the editor of the rules. When the component is at rest
  in the visual mode and one of its rules compares a parameter with a number or searches it, the text of
  the rules, which the component itself has written, cannot be read and the cards of the rules are
  replaced by the message that the expression is too complex.
\<close>

theorem comparison_closes_rules:
  assumes "quiet False st" "te_mode st = Visual" "list_all rule_ok (te_groups st)"
    and "g \<in> set (te_groups st)" "SourceC c \<in> set (rg_conditions g)"
    and "sc_source c = ''param''" "sc_mode c \<in> {''contains'', ''gt'', ''gte'', ''lt'', ''lte''}"
  shows "canUseVisualRules st = Some False"
proof -
  have "\<not> readable (SourceC c)" using assms(6,7) by simp
  then have "\<not> list_all (\<lambda>g. list_all readable (rg_conditions g)) (te_groups st)" using assms(4,5) unfolding list_all_iff by blast
  then have "tryParseRequestRuleExpr (te_rules st) = NoMatch" using rules_read [OF assms(3)] assms(1,2) by (simp add: quiet_def)
  then show ?thesis by (auto simp: canUseVisualRules_def)
qed

lemma comparison_closes_rules_witness:
  "\<exists>st. quiet False st \<and> te_groups st = [sample_compare_group] \<and> canUseVisualRules st = Some False"
proof -
  let ?rules = "buildRequestRuleExpr [sample_compare_group]"
  let ?st = "\<lparr>te_mode = Visual, te_config = None, te_raw = [], te_groups = [sample_compare_group], te_init = True, te_expr = ZERO_EXPR,
    te_rules = ?rules, te_model = None, te_seen = Some (ZERO_EXPR, ?rules), te_seenModel = Some None\<rparr>"
  have ok: "list_all rule_ok [sample_compare_group]" using sample_groups_ok(2) by simp
  have "canUseVisualRules ?st \<noteq> None" using rules_read [OF ok] by (auto simp: canUseVisualRules_def)
  then have q: "quiet False ?st" by (simp add: quiet_def effectiveExpr_def zero_written)
  have "canUseVisualRules ?st = Some False"
    by (rule comparison_closes_rules [OF q, of sample_compare_group sample_compare_source])
      (use ok in \<open>simp_all add: sample_compare_group_def sample_compare_def sample_compare_source_def\<close>)
  then show ?thesis using q by (intro exI [of _ ?st]) simp
qed

end
