(* ===== verification/ProviderCost.thy ===== *)
theory ProviderCost
  imports TieredEditorFacts PricingPanel
begin

text \<open>
  The editor of what a model costs upstream (features/models/components/dialogs/provider-cost-editor.tsx):
  prices per token kept as an expression of one tier, a price per request, or an expression that the
  editor of billing expressions edits. What is saved is decided against a snapshot made when it opens.
\<close>

section \<open>Prices per token\<close>

datatype CostMode = PerTokenC | PerRequestC | ExprC

datatype CostLaneKey = CacheC | CreateCacheC | ImageC | AudioInputC | AudioOutputC

definition COST_LANES :: "CostLaneKey list" where
  "COST_LANES = [CacheC, CreateCacheC, ImageC, AudioInputC, AudioOutputC]"

fun tierField :: "CostLaneKey \<Rightarrow> string" where
  "tierField CacheC = ''cache_read_unit_cost''"
| "tierField CreateCacheC = ''cache_create_unit_cost''"
| "tierField ImageC = ''image_unit_cost''"
| "tierField AudioInputC = ''audio_input_unit_cost''"
| "tierField AudioOutputC = ''audio_output_unit_cost''"

record ProviderCostEntry =
  en_input :: "jsnum option"
  en_output :: "jsnum option"
  en_cached_input :: "jsnum option"
  en_per_request :: "jsnum option"

datatype ProviderCostData = Unchanged | Clear | SaveExpr string | SavePerRequest jsnum

record PerTokenState =
  pt_input :: string
  pt_output :: string
  pt_lanePrices :: "CostLaneKey \<Rightarrow> string"
  pt_laneEnabled :: "CostLaneKey \<Rightarrow> bool"

text \<open>\<open>Number(undefined)\<close> is not a number.\<close>

definition numToStr :: "jsnum option \<Rightarrow> string" where
  "numToStr v = (case v of Some (Num d) \<Rightarrow> show_dec d | _ \<Rightarrow> [])"

definition exprEq :: "string \<Rightarrow> string \<Rightarrow> bool" where
  "exprEq a b \<longleftrightarrow> no_spaces a = no_spaces b"

definition emptyPerToken :: PerTokenState where
  "emptyPerToken = \<lparr>pt_input = [], pt_output = [], pt_lanePrices = (\<lambda>_. []), pt_laneEnabled = (\<lambda>_. False)\<rparr>"

definition above_zero :: "jsnum \<Rightarrow> bool" where
  "above_zero n \<longleftrightarrow> num_lt (Num (int_dec 0)) n"

definition put_lane :: "CostLaneKey \<Rightarrow> string \<Rightarrow> PerTokenState \<Rightarrow> PerTokenState" where
  "put_lane k s st = st\<lparr>pt_lanePrices := (pt_lanePrices st)(k := s), pt_laneEnabled := (pt_laneEnabled st)(k := True)\<rparr>"

definition tryExprToPerToken :: "string \<Rightarrow> PerTokenState option" where
  "tryExprToPerToken expr = (case tryParseVisualConfig expr of
     None \<Rightarrow> None
   | Some cfg \<Rightarrow> if length (vc_tiers cfg) \<noteq> 1 then None
       else (let tier = hd (vc_tiers cfg); c = vt_costs tier
         in if 0 < length (vt_conditions tier) then None
            else if above_zero (num_cost c ''cache_create_1h_unit_cost'') \<or> above_zero (num_cost c ''image_output_unit_cost'') then None
            else Some (foldl (\<lambda>st k. let v = num_or_zero (num_cost c (tierField k))
                in if above_zero v then put_lane k (show_num v) st else st)
              (emptyPerToken\<lparr>pt_input := numToStr (c ''input_unit_cost''), pt_output := numToStr (c ''output_unit_cost'')\<rparr>) COST_LANES)))"

definition has_any_cost :: "PerTokenState \<Rightarrow> bool" where
  "has_any_cost st \<longleftrightarrow> js_trim (pt_input st) \<noteq> [] \<or> js_trim (pt_output st) \<noteq> [] \<or>
     (\<exists>k \<in> set COST_LANES. pt_laneEnabled st k \<and> js_trim (pt_lanePrices st k) \<noteq> [])"

definition cost_tier :: "PerTokenState \<Rightarrow> visual_tier" where
  "cost_tier st = \<lparr>vt_label = ''base'', vt_conditions = [], vt_cache_mode = Generic,
     vt_costs = foldl (\<lambda>m k. let v = num_or_zero (js_number (pt_lanePrices st k))
         in if pt_laneEnabled st k \<and> above_zero v then m(tierField k \<mapsto> v) else m)
       [''input_unit_cost'' \<mapsto> num_or_zero (js_number (pt_input st)), ''output_unit_cost'' \<mapsto> num_or_zero (js_number (pt_output st))]
       COST_LANES\<rparr>"

definition perTokenToExpr :: "PerTokenState \<Rightarrow> string" where
  "perTokenToExpr st = (if \<not> has_any_cost st then [] else generateExprFromVisualConfig (Some \<lparr>vc_tiers = [cost_tier st]\<rparr>))"

definition legacyEntryToPerToken :: "ProviderCostEntry \<Rightarrow> PerTokenState" where
  "legacyEntryToPerToken en =
     (let show = (\<lambda>v. case v of None \<Rightarrow> [] | Some n \<Rightarrow> show_num n);
          inputRate = (case en_input en of None \<Rightarrow> Num (int_dec 0) | Some n \<Rightarrow> num_or_zero n);
          cachedRate = (case en_cached_input en of Some n \<Rightarrow> if above_zero n then n else inputRate | None \<Rightarrow> inputRate);
          st = emptyPerToken\<lparr>pt_input := show (en_input en), pt_output := show (en_output en)\<rparr>;
          st1 = (if above_zero cachedRate then put_lane CacheC (show_num cachedRate) st else st)
      in if above_zero inputRate then put_lane CreateCacheC (show_num inputRate) st1 else st1)"

section \<open>The state\<close>

datatype CostBaseline = NoBase | PerTokenBase string | ExprBase string | PerRequestBase jsnum

record cost_editor =
  ce_mode :: CostMode
  ce_perToken :: PerTokenState
  ce_perRequest :: string
  ce_costExpr :: string
  ce_baseline :: CostBaseline
  ce_appliedKey :: "string option"
  ce_dirty :: bool

definition new_cost_editor :: cost_editor where
  "new_cost_editor = \<lparr>ce_mode = PerTokenC, ce_perToken = emptyPerToken, ce_perRequest = [], ce_costExpr = [], ce_baseline = NoBase,
     ce_appliedKey = None, ce_dirty = False\<rparr>"

definition is_set :: "jsnum option \<Rightarrow> bool" where
  "is_set v \<longleftrightarrow> (case v of Some n \<Rightarrow> n \<noteq> NaN \<and> n \<noteq> Num (int_dec 0) | None \<Rightarrow> False)"

text \<open>The effect on the key, the entry and the expression, run when one of them changes.\<close>

definition apply_snapshot :: "string \<Rightarrow> ProviderCostEntry option \<Rightarrow> string option \<Rightarrow> cost_editor \<Rightarrow> cost_editor" where
  "apply_snapshot resetKey ent expr st =
     (if ce_appliedKey st = Some resetKey \<and> ce_dirty st then st
      else (let st = st\<lparr>ce_appliedKey := Some resetKey, ce_dirty := False\<rparr>; e = or_default expr []
        in if e \<noteq> [] then
             (case tryExprToPerToken e of
                Some parsed \<Rightarrow> st\<lparr>ce_mode := PerTokenC, ce_perToken := parsed, ce_baseline := PerTokenBase e, ce_costExpr := e, ce_perRequest := []\<rparr>
              | None \<Rightarrow> st\<lparr>ce_mode := ExprC, ce_perToken := emptyPerToken, ce_baseline := ExprBase e, ce_costExpr := e, ce_perRequest := []\<rparr>)
           else (case ent of
             Some en \<Rightarrow>
               if is_set (en_per_request en) then st\<lparr>ce_costExpr := [], ce_mode := PerRequestC, ce_perRequest := show_num (the (en_per_request en)),
                 ce_perToken := emptyPerToken, ce_baseline := PerRequestBase (the (en_per_request en))\<rparr>
               else if en_input en \<noteq> None \<or> en_output en \<noteq> None then
                 (let state = legacyEntryToPerToken en
                  in st\<lparr>ce_costExpr := [], ce_perRequest := [], ce_mode := PerTokenC, ce_perToken := state, ce_baseline := PerTokenBase (perTokenToExpr state)\<rparr>)
               else st\<lparr>ce_costExpr := [], ce_perRequest := [], ce_mode := PerTokenC, ce_perToken := emptyPerToken, ce_baseline := NoBase\<rparr>
           | None \<Rightarrow> st\<lparr>ce_costExpr := [], ce_perRequest := [], ce_mode := PerTokenC, ce_perToken := emptyPerToken, ce_baseline := NoBase\<rparr>)))"

definition ZERO_TIER :: string where
  "ZERO_TIER = ''tier('' @ [quote_char] @ ''base'' @ [quote_char] @ '', p * 0 + c * 0)''"

definition getData :: "cost_editor \<Rightarrow> ProviderCostData" where
  "getData st = (case ce_mode st of
     PerTokenC \<Rightarrow>
       (let exprNow = perTokenToExpr (ce_perToken st)
        in if exprNow = [] then (case ce_baseline st of PerTokenBase _ \<Rightarrow> Clear | _ \<Rightarrow> Unchanged)
           else (case ce_baseline st of PerTokenBase e \<Rightarrow> if exprEq exprNow e then Unchanged else SaveExpr exprNow | _ \<Rightarrow> SaveExpr exprNow))
   | PerRequestC \<Rightarrow>
       (let n = js_number (js_trim (ce_perRequest st)); valid = (case n of Num _ \<Rightarrow> above_zero n | _ \<Rightarrow> False)
        in if \<not> valid then (case ce_baseline st of PerRequestBase _ \<Rightarrow> Clear | _ \<Rightarrow> Unchanged)
           else (case ce_baseline st of PerRequestBase v \<Rightarrow> if n = v then Unchanged else SavePerRequest n | _ \<Rightarrow> SavePerRequest n))
   | ExprC \<Rightarrow>
       (let e = js_trim (ce_costExpr st)
        in case ce_baseline st of
             ExprBase b \<Rightarrow> if e = [] then Clear else if exprEq e b then Unchanged else SaveExpr e
           | PerTokenBase b \<Rightarrow> if e = [] then Clear else if exprEq e b then Unchanged else SaveExpr e
           | _ \<Rightarrow> if e = [] \<or> exprEq e ZERO_TIER then Unchanged else SaveExpr e))"

section \<open>The handlers\<close>

definition markDirty :: "cost_editor \<Rightarrow> cost_editor" where
  "markDirty st = st\<lparr>ce_dirty := True\<rparr>"

definition setLanePrice :: "CostLaneKey \<Rightarrow> string \<Rightarrow> cost_editor \<Rightarrow> cost_editor" where
  "setLanePrice k v st = (if \<not> numeric_draft v then st
     else (markDirty st)\<lparr>ce_perToken := (ce_perToken st)\<lparr>pt_lanePrices := (pt_lanePrices (ce_perToken st))(k := v)\<rparr>\<rparr>)"

definition setLaneEnabled :: "CostLaneKey \<Rightarrow> bool \<Rightarrow> cost_editor \<Rightarrow> cost_editor" where
  "setLaneEnabled k checked st = (let p = ce_perToken st
     in (markDirty st)\<lparr>ce_perToken := p\<lparr>pt_laneEnabled := (pt_laneEnabled p)(k := checked),
          pt_lanePrices := (if checked then pt_lanePrices p else (pt_lanePrices p)(k := []))\<rparr>\<rparr>)"

definition set_input_cost :: "string \<Rightarrow> cost_editor \<Rightarrow> cost_editor" where
  "set_input_cost v st = (if \<not> numeric_draft v then st else (markDirty st)\<lparr>ce_perToken := (ce_perToken st)\<lparr>pt_input := v\<rparr>\<rparr>)"

definition set_output_cost :: "string \<Rightarrow> cost_editor \<Rightarrow> cost_editor" where
  "set_output_cost v st = (if \<not> numeric_draft v then st else (markDirty st)\<lparr>ce_perToken := (ce_perToken st)\<lparr>pt_output := v\<rparr>\<rparr>)"

definition set_per_request :: "string \<Rightarrow> cost_editor \<Rightarrow> cost_editor" where
  "set_per_request v st = (if numeric_draft v then (markDirty st)\<lparr>ce_perRequest := v\<rparr> else st)"

definition change_tab :: "CostMode \<Rightarrow> cost_editor \<Rightarrow> cost_editor" where
  "change_tab m st = (markDirty st)\<lparr>ce_mode := m\<rparr>"

definition perTokenPreview :: "cost_editor \<Rightarrow> string" where
  "perTokenPreview st = (if ce_mode st = PerTokenC then perTokenToExpr (ce_perToken st) else [])"

text \<open>What the editor of the expression tells.\<close>

definition expr_told :: "string \<Rightarrow> cost_editor \<Rightarrow> cost_editor" where
  "expr_told s st = (let baseExpr = (case ce_baseline st of ExprBase e \<Rightarrow> e | PerTokenBase e \<Rightarrow> e | _ \<Rightarrow> [])
     in st\<lparr>ce_dirty := (if \<not> exprEq s baseExpr then True else ce_dirty st), ce_costExpr := s\<rparr>)"

text \<open>The tab of the expression is shown: the editor is mounted with the expression and comes to rest; every
  text it tells is stored.\<close>

fun run_expr_tab :: "nat \<Rightarrow> tiered_editor \<Rightarrow> cost_editor \<Rightarrow> cost_editor option" where
  "run_expr_tab 0 ed st = None"
| "run_expr_tab (Suc n) ed st = (case flush True ed of
     None \<Rightarrow> None
   | Some ed' \<Rightarrow>
       (let st' = (if te_expr ed' \<noteq> te_expr ed then expr_told (te_expr ed') st else st)
        in if quiet True ed' then Some st' else run_expr_tab n ed' st'))"

definition show_expr_tab :: "string option \<Rightarrow> cost_editor \<Rightarrow> cost_editor option" where
  "show_expr_tab model st = (case mount_editor model (ce_costExpr st) [] of
     None \<Rightarrow> None | Some ed \<Rightarrow> run_expr_tab 5 ed st)"

end
