(* ===== verification/ModelDialog.thy ===== *)
theory ModelDialog
  imports ModelPricesFacts ProviderCost
begin

text \<open>
  The dialog in which a model is created and edited (features/models/components/dialogs/model-mutate-dialog.tsx):
  the form, the price and the cost it takes from the options of the system, and what it sends when it is
  saved. The options are JSON texts; a text that is no object is None, as in the table of the prices.
\<close>

section \<open>The form\<close>

record Model =
  mo_id :: jsnum
  mo_name :: string
  mo_description :: string
  mo_icon :: string
  mo_tags :: string
  mo_vendor :: "jsnum option"
  mo_endpoints :: string
  mo_name_rule :: jsnum
  mo_status :: jsnum

record MutateFormValues =
  fv_id :: "jsnum option"
  fv_name :: string
  fv_description :: string
  fv_icon :: string
  fv_tags :: "string list"
  fv_vendor :: "jsnum option"
  fv_endpoints :: string
  fv_name_rule :: jsnum
  fv_status :: bool

definition parseModelTags :: "string \<Rightarrow> string list" where
  "parseModelTags tags = (if tags = [] then [] else filter nonempty (map js_trim (split_by (\<lambda>c. c = CHR '','') tags)))"

text \<open>The values for a model, and those for a new one with the name of the row. An absent text is empty.\<close>

definition edit_form :: "Model \<Rightarrow> MutateFormValues" where
  "edit_form m = \<lparr>fv_id = Some (mo_id m), fv_name = mo_name m, fv_description = mo_description m, fv_icon = mo_icon m,
     fv_tags = parseModelTags (mo_tags m), fv_vendor = mo_vendor m, fv_endpoints = mo_endpoints m,
     fv_name_rule = num_or_zero (mo_name_rule m), fv_status = (mo_status m = Num (int_dec 1))\<rparr>"

definition new_form :: "string \<Rightarrow> MutateFormValues" where
  "new_form name = \<lparr>fv_id = None, fv_name = name, fv_description = [], fv_icon = [], fv_tags = [], fv_vendor = None, fv_endpoints = [],
     fv_name_rule = Num (int_dec 0), fv_status = True\<rparr>"

definition mutate_form_valid :: "MutateFormValues \<Rightarrow> bool" where
  "mutate_form_valid v \<longleftrightarrow> fv_name v \<noteq> []"

definition ENDPOINT_TEMPLATES :: "(string \<times> string \<times> string) list" where
  "ENDPOINT_TEMPLATES = [(''openai'', ''/v1/chat/completions'', ''POST''), (''openai-response'', ''/v1/responses'', ''POST''),
     (''anthropic'', ''/v1/messages'', ''POST''), (''gemini'', ''/v1beta/models/{model}:generateContent'', ''POST''),
     (''jina-rerank'', ''/rerank'', ''POST''), (''image-generation'', ''/v1/images/generations'', ''POST''),
     (''embeddings'', ''/v1/embeddings'', ''POST'')]"

definition handleFillEndpointTemplate :: "string \<Rightarrow> MutateFormValues \<Rightarrow> MutateFormValues" where
  "handleFillEndpointTemplate key v = (case map_of ENDPOINT_TEMPLATES key of
     None \<Rightarrow> v
   | Some (path, method') \<Rightarrow> v\<lparr>fv_endpoints :=
       json_pretty (JObj [(key, JObj [(''path'', JStr path), (''method'', JStr method')])])\<rparr>)"

record ModelPayload =
  py_id :: "jsnum option"
  py_name :: string
  py_description :: string
  py_icon :: string
  py_tags :: string
  py_vendor :: "jsnum option"
  py_endpoints :: string
  py_name_rule :: jsnum
  py_status :: jsnum

definition modelPayload :: "jsnum option \<Rightarrow> MutateFormValues \<Rightarrow> ModelPayload" where
  "modelPayload rowId v = \<lparr>py_id = rowId, py_name = fv_name v, py_description = fv_description v, py_icon = fv_icon v,
     py_tags = js_join '','' (fv_tags v), py_vendor = fv_vendor v, py_endpoints = fv_endpoints v, py_name_rule = fv_name_rule v,
     py_status = Num (int_dec (if fv_status v then 1 else 0))\<rparr>"

section \<open>The price\<close>

text \<open>The options: the texts of the prices and the two texts of the costs.\<close>

record ModelSettings =
  ms_prices :: ModelFormValues
  ms_providerCost :: string
  ms_costExpr :: string

text \<open>The outer option: a reader raises or a text is no object.\<close>

definition pricingEditData :: "bool \<Rightarrow> ModelSettings \<Rightarrow> string \<Rightarrow> ModelRatioData option option" where
  "pricingEditData isEditing s name = (if \<not> isEditing \<or> name = [] then Some None
     else case read_maps (ms_prices s) of None \<Rightarrow> None
       | Some m \<Rightarrow>
           (let value = (\<lambda>x. cell_text (pm_number m x) name)
            in if tiered_in m name
               then (case full_expr m name of None \<Rightarrow> None
                 | Some e \<Rightarrow> (case splitBillingExprAndRequestRules e of None \<Rightarrow> None
                    | Some sr \<Rightarrow> Some (Some \<lparr>md_name = name, md_value = value, md_mode = TieredExpr, md_billingExpr = sr_billingExpr sr,
                        md_requestRuleExpr = sr_requestRuleExpr sr\<rparr>)))
               else Some (Some \<lparr>md_name = name, md_value = value, md_mode = (if value PriceF \<noteq> [] then PerRequest else PerToken),
                   md_billingExpr = [], md_requestRuleExpr = []\<rparr>)))"

definition stale_names :: "string \<Rightarrow> string \<Rightarrow> string list" where
  "stale_names oldName finalName = finalName # (if oldName \<noteq> [] \<and> oldName \<noteq> finalName then [oldName] else [])"

definition set_price :: "ModelRatioData \<Rightarrow> price_maps \<Rightarrow> string \<Rightarrow> price_maps" where
  "set_price data m name = (if md_mode data = TieredExpr
     then let combined = combineBillingExpr (md_billingExpr data) (md_requestRuleExpr data);
              m1 = (if combined \<noteq> []
                then m\<lparr>pm_mode := obj_set name (JStr ''tiered_expr'') (pm_mode m), pm_expr := obj_set name (JStr combined) (pm_expr m)\<rparr> else m)
          in m1\<lparr>pm_number := (\<lambda>x. setIfPresent name (md_value data x) (pm_number m1 x))\<rparr>
     else if md_value data PriceF \<noteq> []
     then m\<lparr>pm_number := (pm_number m)(PriceF := setIfPresent name (md_value data PriceF) (pm_number m PriceF))\<rparr>
     else m\<lparr>pm_number := (\<lambda>x. if x = PriceF then pm_number m x else setIfPresent name (md_value data x) (pm_number m x))\<rparr>)"

definition dialog_maps :: "ModelRatioData \<Rightarrow> string \<Rightarrow> string \<Rightarrow> price_maps \<Rightarrow> price_maps" where
  "dialog_maps data oldName finalName m = set_price data (foldl (\<lambda>m n. delete_model n m) m (stale_names oldName finalName)) finalName"

fun price_key :: "price_field \<Rightarrow> string" where
  "price_key PriceF = ''ModelPrice''"
| "price_key RatioF = ''ModelRatio''"
| "price_key CacheF = ''CacheRatio''"
| "price_key CreateCacheF = ''CreateCacheRatio''"
| "price_key CompletionF = ''CompletionRatio''"
| "price_key ImageF = ''ImageRatio''"
| "price_key AudioF = ''AudioRatio''"
| "price_key AudioCompletionF = ''AudioCompletionRatio''"

definition pushIfChanged :: "string \<Rightarrow> (string \<times> json) list \<Rightarrow> string \<Rightarrow> (string \<times> string) list" where
  "pushIfChanged key m original = (let nextText = normalizeJsonString (json_stringify (JObj m))
     in if nextText \<noteq> normalizeJsonString original then [(key, nextText)] else [])"

text \<open>The requests, in their order.\<close>

definition persistPricing :: "ModelSettings \<Rightarrow> string \<Rightarrow> ModelRatioData \<Rightarrow> string \<Rightarrow> (string \<times> string) list option" where
  "persistPricing s oldName data finalName = (case read_maps (ms_prices s) of None \<Rightarrow> None
     | Some m0 \<Rightarrow> let m = dialog_maps data oldName finalName m0
         in Some (concat (map (\<lambda>x. pushIfChanged (price_key x) (pm_number m x) (price_text x (ms_prices s))) price_fields) @
              pushIfChanged ''billing_setting.billing_mode'' (pm_mode m) (mf_BillingMode (ms_prices s)) @
              pushIfChanged ''billing_setting.billing_expr'' (pm_expr m) (mf_BillingExpr (ms_prices s))))"

section \<open>The cost\<close>

text \<open>The flat entries and the expressions; the key of an expression is a model, or a channel and a model.\<close>

type_synonym cost_maps = "(string \<times> json) list \<times> (string \<times> json) list"

definition move_key :: "string \<Rightarrow> string \<Rightarrow> (string \<times> json) list \<Rightarrow> (string \<times> json) list" where
  "move_key a b m = (case obj_get a m of None \<Rightarrow> m | Some v \<Rightarrow> obj_delete a (obj_set b v m))"

text \<open>The part of a key before the bar and the name, when it is the number of a channel.\<close>

definition channel_part :: "string \<Rightarrow> string \<Rightarrow> string option" where
  "channel_part oldName key = (let suffix' = CHR ''|'' # oldName; part = take (length key - length suffix') key
     in if \<not> suffix suffix' key then None
        else if part \<noteq> [] \<and> list_all is_digit part then Some part else None)"

definition move_channel :: "string \<Rightarrow> string \<Rightarrow> (string \<times> json) list \<Rightarrow> string \<Rightarrow> (string \<times> json) list" where
  "move_channel oldName finalName m key = (case channel_part oldName key of
     None \<Rightarrow> m | Some part \<Rightarrow> move_key key (part @ CHR ''|'' # finalName) m)"

definition rename_costs :: "string \<Rightarrow> string \<Rightarrow> cost_maps \<Rightarrow> cost_maps" where
  "rename_costs oldName finalName ms = (let m = move_key oldName finalName (fst ms); e = move_key oldName finalName (snd ms)
     in (m, foldl (move_channel oldName finalName) e (map fst e)))"

definition put_cost :: "ProviderCostData \<Rightarrow> string \<Rightarrow> cost_maps \<Rightarrow> cost_maps" where
  "put_cost data name ms = (case data of
     SaveExpr e \<Rightarrow> (obj_delete name (fst ms), obj_set name (JStr e) (snd ms))
   | SavePerRequest v \<Rightarrow>
       (obj_set name (JObj [(''input'', JNum (int_dec 0)), (''output'', JNum (int_dec 0)),
          (''per_request'', case v of Num d \<Rightarrow> JNum d | _ \<Rightarrow> JNull)]) (fst ms), obj_delete name (snd ms))
   | Clear \<Rightarrow> (obj_delete name (fst ms), obj_delete name (snd ms))
   | Unchanged \<Rightarrow> ms)"

definition FLAT_KEY :: string where
  "FLAT_KEY = ''ProviderModelCost''"

definition EXPR_KEY :: string where
  "EXPR_KEY = ''provider_cost_setting.cost_expr''"

definition cost_renamed :: "string \<Rightarrow> string \<Rightarrow> bool" where
  "cost_renamed oldName finalName \<longleftrightarrow> oldName \<noteq> [] \<and> oldName \<noteq> finalName"

definition cost_maps_after :: "string \<Rightarrow> string \<Rightarrow> ProviderCostData \<Rightarrow> cost_maps \<Rightarrow> cost_maps" where
  "cost_maps_after oldName finalName data ms =
     put_cost data finalName (if cost_renamed oldName finalName then rename_costs oldName finalName ms else ms)"

text \<open>The requests, in their order: what is added is written before what is cleared.\<close>

definition cost_writes :: "ModelSettings \<Rightarrow> ProviderCostData \<Rightarrow> cost_maps \<Rightarrow> (string \<times> string) list" where
  "cost_writes s data ms =
     (let flatValue = (if fst ms \<noteq> [] then json_stringify (JObj (fst ms)) else []);
          exprValue = json_stringify (JObj (snd ms));
          flat = (if normalizeJsonString flatValue \<noteq> normalizeJsonString (ms_providerCost s) then [(FLAT_KEY, flatValue)] else []);
          expr = (if normalizeJsonString exprValue \<noteq> normalizeJsonString (or_str (ms_costExpr s) ''{}'') then [(EXPR_KEY, exprValue)] else [])
      in case data of SavePerRequest _ \<Rightarrow> flat @ expr | _ \<Rightarrow> expr @ flat)"

definition persistCost :: "ModelSettings \<Rightarrow> string \<Rightarrow> string \<Rightarrow> ProviderCostData \<Rightarrow> (string \<times> string) list option" where
  "persistCost s oldName finalName data =
     (if data = Unchanged \<and> \<not> cost_renamed oldName finalName then Some []
      else case (text_map (ms_providerCost s), text_map (ms_costExpr s)) of
        (Some flat, Some expr) \<Rightarrow> Some (cost_writes s data (cost_maps_after oldName finalName data (flat, expr)))
      | _ \<Rightarrow> None)"

section \<open>Saving\<close>

text \<open>The requests that are sent until one is refused.\<close>

fun send_until :: "(string \<times> string \<Rightarrow> bool) \<Rightarrow> (string \<times> string) list \<Rightarrow> (string \<times> string) list" where
  "send_until ok [] = []"
| "send_until ok (r # rs) = r # (if ok r then send_until ok rs else [])"

text \<open>What the server holds after a request that it accepts.\<close>

definition store_option :: "string \<times> string \<Rightarrow> ModelSettings \<Rightarrow> ModelSettings" where
  "store_option r s = (if fst r = FLAT_KEY then s\<lparr>ms_providerCost := snd r\<rparr>
     else if fst r = EXPR_KEY then s\<lparr>ms_costExpr := snd r\<rparr> else s)"

fun store_until :: "(string \<times> string \<Rightarrow> bool) \<Rightarrow> (string \<times> string) list \<Rightarrow> ModelSettings \<Rightarrow> ModelSettings" where
  "store_until ok [] s = s"
| "store_until ok (r # rs) s = (if ok r then store_until ok rs (store_option r s) else s)"

datatype MutateTab = BasicTab | PricingTab | CostTab

datatype save_result = StayOn MutateTab | Refused | SaveFailed "(string \<times> string) list" | SavedModel "(string \<times> string) list"

text \<open>
  Saving with the price the panel submits (the outer option: there is no panel; the inner: it refuses) and the
  data of the editor of the cost. The server is the parameters \<open>accepts\<close>, for the model, and \<open>ok\<close>, for an
  option; the answer to a price is not looked at. The result has the requests for the options. None: a
  handler raises.
\<close>

definition handleSave_model :: "(ModelPayload \<Rightarrow> bool) \<Rightarrow> (string \<times> string \<Rightarrow> bool) \<Rightarrow> ModelSettings \<Rightarrow> string \<Rightarrow> jsnum option \<Rightarrow>
    MutateFormValues \<Rightarrow> ModelRatioData option option \<Rightarrow> ProviderCostData \<Rightarrow> save_result option" where
  "handleSave_model accepts ok s oldName rowId v pricing cost =
     (if \<not> mutate_form_valid v then Some (StayOn BasicTab)
      else if pricing = Some None then Some (StayOn PricingTab)
      else if \<not> accepts (modelPayload rowId v) then Some Refused
      else (case (case pricing of Some (Some data) \<Rightarrow> persistPricing s oldName data (fv_name v) | _ \<Rightarrow> Some []) of
          None \<Rightarrow> None
        | Some prices \<Rightarrow> (case persistCost s oldName (fv_name v) cost of
            None \<Rightarrow> None
          | Some costs \<Rightarrow> Some ((if list_all ok costs then SavedModel else SaveFailed) (prices @ send_until ok costs)))))"

text \<open>The snapshot the editor of the cost gets: entries of numbers, as their type says, and texts.\<close>

definition cost_entry :: "json \<Rightarrow> ProviderCostEntry" where
  "cost_entry v = (let field = (\<lambda>k. case js_prop v k of Some (JNum d) \<Rightarrow> Some (Num d) | _ \<Rightarrow> None)
     in \<lparr>en_input = field ''input'', en_output = field ''output'', en_cached_input = field ''cached_input'', en_per_request = field ''per_request''\<rparr>)"

definition costEditorEntry :: "(string \<times> json) list \<Rightarrow> string \<Rightarrow> ProviderCostEntry option" where
  "costEditorEntry costMap name = (if name = [] then None else map_option cost_entry (obj_get name costMap))"

definition costEditorExpr :: "(string \<times> json) list \<Rightarrow> string \<Rightarrow> string option" where
  "costEditorExpr exprMap name = (if name = [] then None else case obj_get name exprMap of Some (JStr e) \<Rightarrow> Some e | _ \<Rightarrow> None)"

end
