(* ===== verification/ProviderCostFacts.thy ===== *)
theory ProviderCostFacts
  imports ProviderCost
begin

text \<open>
  Facts about the editor of the upstream cost: what it wrote is shown again and saved only when it has
  changed, and where a cost is lost or made up because the editor of the expression rewrites its text.
\<close>

section \<open>Numbers that are typed\<close>

lemma number_shape:
  fixes x :: jsnum
  assumes "x = (if a then (case r of None \<Rightarrow> NaN | Some n \<Rightarrow> Num (int_dec (int n))) else if b then NaN
     else (case e of Some (p, []) \<Rightarrow> Num (scale_dec m (p - l)) | _ \<Rightarrow> NaN))"
  shows "x = NaN \<or> (\<exists>k. x = Num (int_dec k)) \<or> (\<exists>m p. x = Num (scale_dec m p))"
  unfolding assms by (auto split: option.split list.split)

lemma js_number_cases:
  obtains "js_number s = NaN" | k where "js_number s = Num (int_dec k)" | m x where "js_number s = Num (scale_dec m x)"
    | b where "js_number s = Infinite b" "CHR ''I'' \<in> set (js_trim s)"
proof -
  have has_I: "CHR ''I'' \<in> set w" if "tl w = ''Infinity'' \<or> w = ''Infinity''" for w :: string
    using that by (cases w) auto
  consider (zero) "js_trim s = []" | (inf) "(if js_trim s \<noteq> [] \<and> (hd (js_trim s) = CHR ''-'' \<or> hd (js_trim s) = CHR ''+'') then tl (js_trim s) else js_trim s) = ''Infinity''"
    | (other) "js_trim s \<noteq> []" "(if js_trim s \<noteq> [] \<and> (hd (js_trim s) = CHR ''-'' \<or> hd (js_trim s) = CHR ''+'') then tl (js_trim s) else js_trim s) \<noteq> ''Infinity''"
    by blast
  then show thesis
  proof cases
    case zero then show ?thesis using that(2) by (simp add: js_number_def Let_def)
  next
    case inf
    then have "js_trim s \<noteq> []" "CHR ''I'' \<in> set (js_trim s)" using has_I [of "js_trim s"] inf by (auto split: if_splits)
    then show ?thesis using that(4) inf unfolding js_number_def Let_def by simp
  next
    case other
    have "js_number s = NaN \<or> (\<exists>k. js_number s = Num (int_dec k)) \<or> (\<exists>m p. js_number s = Num (scale_dec m p))"
      by (rule number_shape) (unfold js_number_def Let_def if_not_P [OF other(1)] if_not_P [OF other(2)], rule refl)
    then show ?thesis using that(1-3) by blast
  qed
qed

lemma js_number_ok: "js_number s = Num d \<Longrightarrow> dec_ok d"
  by (cases s rule: js_number_cases) (auto simp: dec_ok_scale_dec)

lemma in_trim: "c \<in> set (js_trim s) \<Longrightarrow> c \<in> set s"
  by (auto simp: trim_by_def dest!: set_dropWhileD)

lemma draft_chars: "numeric_draft s \<Longrightarrow> c \<in> set s \<Longrightarrow> is_digit c \<or> c = CHR ''.''"
proof -
  assume d: "numeric_draft s" "c \<in> set s"
  have "s = takeWhile is_digit s @ dropWhile is_digit s" by simp
  then have "c \<in> set (takeWhile is_digit s) \<or> c \<in> set (dropWhile is_digit s)" using d(2) by (metis UnE set_append)
  then show ?thesis using d(1)
    by (cases "dropWhile is_digit s") (auto simp: numeric_draft_def Let_def list_all_iff dest: set_takeWhileD)
qed

lemma draft_value:
  assumes "numeric_draft s"
  shows "cost_ok (num_or_zero (js_number s))"
proof (cases s rule: js_number_cases)
  case (4 b)
  then have "is_digit CHR ''I''" using draft_chars [OF assms in_trim, of "CHR ''I''"] by simp
  then show ?thesis by (simp add: is_digit_def)
qed (auto simp: cost_ok_def num_or_zero_def dec_ok_scale_dec)


section \<open>The tier of a state\<close>

definition lane_value :: "PerTokenState \<Rightarrow> CostLaneKey \<Rightarrow> jsnum" where
  "lane_value p k = num_or_zero (js_number (pt_lanePrices p k))"

definition lane_on :: "PerTokenState \<Rightarrow> CostLaneKey \<Rightarrow> bool" where
  "lane_on p k \<longleftrightarrow> pt_laneEnabled p k \<and> above_zero (lane_value p k)"

abbreviation input_value :: "PerTokenState \<Rightarrow> jsnum" where
  "input_value p \<equiv> num_or_zero (js_number (pt_input p))"

abbreviation output_value :: "PerTokenState \<Rightarrow> jsnum" where
  "output_value p \<equiv> num_or_zero (js_number (pt_output p))"

definition lane_put :: "PerTokenState \<Rightarrow> costs \<Rightarrow> CostLaneKey \<Rightarrow> costs" where
  "lane_put p m k = (if lane_on p k then m(tierField k \<mapsto> lane_value p k) else m)"

lemma lane_put_at: "lane_put p m k f = (if lane_on p k \<and> f = tierField k then Some (lane_value p k) else m f)"
  by (simp add: lane_put_def)

lemma cost_tier_lanes:
  "vt_costs (cost_tier p) = foldl (lane_put p) [''input_unit_cost'' \<mapsto> input_value p, ''output_unit_cost'' \<mapsto> output_value p] COST_LANES"
  unfolding cost_tier_def lane_put_def [abs_def] lane_on_def lane_value_def Let_def by simp

lemma cost_tier_costs:
  "vt_costs (cost_tier p) ''input_unit_cost'' = Some (input_value p)" "vt_costs (cost_tier p) ''output_unit_cost'' = Some (output_value p)"
  "vt_costs (cost_tier p) (tierField k) = (if lane_on p k then Some (lane_value p k) else None)"
  "vt_costs (cost_tier p) ''cache_create_1h_unit_cost'' = None" "vt_costs (cost_tier p) ''image_output_unit_cost'' = None"
  by (cases k; simp add: cost_tier_lanes COST_LANES_def lane_put_at)+

lemma cost_tier_other: "f \<notin> set COST_FIELDS \<Longrightarrow> vt_costs (cost_tier p) f = None"
  by (simp add: cost_tier_lanes COST_LANES_def COST_FIELDS_def lane_put_at)

lemma cost_fields_lanes:
  "f \<in> set COST_FIELDS \<longleftrightarrow> f = ''input_unit_cost'' \<or> f = ''output_unit_cost'' \<or> f = ''cache_create_1h_unit_cost'' \<or> f = ''image_output_unit_cost'' \<or> (\<exists>k. f = tierField k)"
proof -
  have "(\<exists>k. f = tierField k) \<longleftrightarrow> f = tierField CacheC \<or> f = tierField CreateCacheC \<or> f = tierField ImageC \<or> f = tierField AudioInputC \<or> f = tierField AudioOutputC"
    by (metis CostLaneKey.exhaust)
  moreover have "f \<in> set COST_FIELDS \<longleftrightarrow> f = ''input_unit_cost'' \<or> f = ''output_unit_cost'' \<or> f = ''cache_read_unit_cost'' \<or> f = ''cache_create_unit_cost'' \<or>
      f = ''cache_create_1h_unit_cost'' \<or> f = ''image_unit_cost'' \<or> f = ''image_output_unit_cost'' \<or> f = ''audio_input_unit_cost'' \<or> f = ''audio_output_unit_cost''"
    unfolding COST_FIELDS_def list.set insert_iff empty_iff by (simp only: simp_thms)
  ultimately show ?thesis unfolding tierField.simps by (simp only: simp_thms disj_ac)
qed

lemma num_or_zero_twice: "num_or_zero (num_or_zero n) = num_or_zero n"
  by (cases n) (simp_all add: num_or_zero_def)

lemma cost_tier_cost_of:
  "cost_of (cost_tier p) ''input_unit_cost'' = input_value p" "cost_of (cost_tier p) ''output_unit_cost'' = output_value p"
  "cost_of (cost_tier p) (tierField k) = (if lane_on p k then lane_value p k else Num (int_dec 0))"
  "cost_of (cost_tier p) ''cache_create_1h_unit_cost'' = Num (int_dec 0)" "cost_of (cost_tier p) ''image_output_unit_cost'' = Num (int_dec 0)"
  by (simp_all add: cost_of_def num_cost_def cost_tier_costs num_or_zero_twice lane_value_def) (simp_all add: num_or_zero_def)

text \<open>The texts of a state are those the fields let through.\<close>

definition typed_state :: "PerTokenState \<Rightarrow> bool" where
  "typed_state p \<longleftrightarrow> numeric_draft (pt_input p) \<and> numeric_draft (pt_output p) \<and> (\<forall>k. numeric_draft (pt_lanePrices p k))"

lemma cost_tier_ok: "typed_state p \<Longrightarrow> f \<in> set COST_FIELDS \<Longrightarrow> cost_ok (cost_of (cost_tier p) f)"
  using draft_value unfolding cost_fields_lanes
  by (elim disjE exE) (simp_all add: cost_tier_cost_of typed_state_def lane_value_def, simp_all add: cost_ok_def)

definition written_tier :: "PerTokenState \<Rightarrow> visual_tier" where
  "written_tier p = normalizeVisualTier (as_partial (cost_tier p))"

lemma written_tier_fields:
  "vt_label (written_tier p) = ''base''" "vt_conditions (written_tier p) = []"
  "vt_costs (written_tier p) f = (if f \<in> set COST_FIELDS then Some (cost_of (cost_tier p) f) else None)"
  "cost_of (written_tier p) f = cost_of (cost_tier p) f"
proof -
  show l: "vt_label (written_tier p) = ''base''" "vt_conditions (written_tier p) = []"
    by (simp_all add: written_tier_def normalizeVisualTier_def as_partial_def cost_tier_def)
  show c: "vt_costs (written_tier p) f = (if f \<in> set COST_FIELDS then Some (cost_of (cost_tier p) f) else None)" for f
    using cost_tier_other [of f p] by (simp add: written_tier_def normalizeVisualTier_def as_partial_def cost_of_def)
  show "cost_of (written_tier p) f = cost_of (cost_tier p) f"
    using cost_tier_other [of f p] unfolding cost_of_def num_cost_def [of "vt_costs (written_tier p)"] c
    by (simp add: num_cost_def cost_of_def num_or_zero_twice)
qed

lemma written_tier_ok: "typed_state p \<Longrightarrow> tier_ok (written_tier p)"
proof -
  assume p: "typed_state p"
  have "dom (vt_costs (written_tier p)) = set COST_FIELDS"
  proof (rule set_eqI)
    fix f show "f \<in> dom (vt_costs (written_tier p)) \<longleftrightarrow> f \<in> set COST_FIELDS" by (simp add: dom_def written_tier_fields(3))
  qed
  then show ?thesis using cost_tier_ok [OF p]
    unfolding tier_ok_def written_tier_fields by (simp add: not_quote_def)
qed

lemma written_tier_text: "generateExprFromVisualConfig (Some \<lparr>vc_tiers = [cost_tier p]\<rparr>) = generateExprFromVisualConfig (Some \<lparr>vc_tiers = [written_tier p]\<rparr>)"
  by (simp add: generateExprFromVisualConfig_def tier_text_def buildTierBodyExpr_def written_tier_fields)
    (simp add: cost_tier_def)

section \<open>Reading it back\<close>

definition reopened :: "PerTokenState \<Rightarrow> PerTokenState" where
  "reopened p = \<lparr>pt_input = show_num (input_value p), pt_output = show_num (output_value p),
     pt_lanePrices = (\<lambda>k. if lane_on p k then show_num (lane_value p k) else []), pt_laneEnabled = lane_on p\<rparr>"

lemma per_token_read:
  assumes p: "typed_state p" "has_any_cost p"
  shows "tryExprToPerToken (perTokenToExpr p) = Some (reopened p)"
proof -
  let ?t = "reread (written_tier p)"
  have "config_ok [written_tier p]" using written_tier_ok [OF p(1)] by (simp add: config_ok_def written_tier_fields)
  from config_read [OF this] have read: "tryParseVisualConfig (perTokenToExpr p) = Some \<lparr>vc_tiers = [?t]\<rparr>"
    using p(2) written_tier_text by (simp add: perTokenToExpr_def)
  have costs: "vt_costs ?t = vt_costs (written_tier p)" "vt_conditions ?t = []" by (simp_all add: reread_def written_tier_fields)
  have in_fields: "''input_unit_cost'' \<in> set COST_FIELDS" "''output_unit_cost'' \<in> set COST_FIELDS" "tierField k \<in> set COST_FIELDS"
    "''cache_create_1h_unit_cost'' \<in> set COST_FIELDS" "''image_output_unit_cost'' \<in> set COST_FIELDS" for k
    by (auto simp: cost_fields_lanes)
  have zero: "\<not> above_zero (Num (int_dec 0))" by (simp add: above_zero_def num_lt_def)
  have lane: "num_or_zero (num_cost (vt_costs ?t) (tierField k)) = (if lane_on p k then lane_value p k else Num (int_dec 0))" for k
    unfolding costs num_cost_def written_tier_fields(3) by (simp add: in_fields cost_tier_cost_of lane_value_def num_or_zero_twice) (simp add: num_or_zero_def)
  have on: "above_zero (if lane_on p k then lane_value p k else Num (int_dec 0)) = lane_on p k" for k
    using zero by (auto simp: lane_on_def)
  have other: "num_cost (vt_costs ?t) ''cache_create_1h_unit_cost'' = Num (int_dec 0)" "num_cost (vt_costs ?t) ''image_output_unit_cost'' = Num (int_dec 0)"
    unfolding costs num_cost_def written_tier_fields(3) by (simp_all add: in_fields cost_tier_cost_of)
  have main: "numToStr (vt_costs ?t ''input_unit_cost'') = show_num (input_value p)" "numToStr (vt_costs ?t ''output_unit_cost'') = show_num (output_value p)"
    using cost_tier_ok [OF p(1) in_fields(1)] cost_tier_ok [OF p(1) in_fields(2)]
    unfolding costs written_tier_fields(3) by (auto simp: in_fields cost_tier_cost_of numToStr_def cost_ok_def split: jsnum.splits)
  have "foldl (\<lambda>st k. let v = num_or_zero (num_cost (vt_costs ?t) (tierField k)) in if above_zero v then put_lane k (show_num v) st else st)
      (emptyPerToken\<lparr>pt_input := i, pt_output := out\<rparr>) COST_LANES = (reopened p)\<lparr>pt_input := i, pt_output := out\<rparr>" for i out
    unfolding lane Let_def on
    by (intro PerTokenState.equality ext)
      (simp_all add: COST_LANES_def reopened_def emptyPerToken_def put_lane_def, use CostLaneKey.exhaust in blast, use CostLaneKey.exhaust in blast)
  then show ?thesis using read costs(2) other zero main
    by (simp add: tryExprToPerToken_def Let_def reopened_def)
qed


lemma reopened_values:
  assumes "typed_state p"
  shows "input_value (reopened p) = input_value p" "output_value (reopened p) = output_value p" "lane_on (reopened p) = lane_on p"
    "lane_on p k \<Longrightarrow> lane_value (reopened p) k = lane_value p k"
proof -
  have ok: "cost_ok (input_value p)" "cost_ok (output_value p)" "cost_ok (lane_value p k)" for k
    using assms draft_value by (simp_all add: typed_state_def lane_value_def)
  show "input_value (reopened p) = input_value p" "output_value (reopened p) = output_value p"
    using cost_text [OF ok(1)] cost_text [OF ok(2)] by (simp_all add: reopened_def)
  show l: "lane_on p k \<Longrightarrow> lane_value (reopened p) k = lane_value p k" for k
    using cost_text [OF ok(3)] unfolding lane_value_def [of "reopened p"] by (simp add: reopened_def)
  show "lane_on (reopened p) = lane_on p"
  proof (rule ext)
    fix k
    show "lane_on (reopened p) k = lane_on p k"
      using l [of k] unfolding lane_on_def [of "reopened p"] by (cases "lane_on p k") (simp_all add: reopened_def, simp add: lane_on_def)
  qed
qed

lemma reopened_tier: "typed_state p \<Longrightarrow> cost_tier (reopened p) = cost_tier p"
proof -
  assume p: "typed_state p"
  note r = reopened_values [OF p]
  have "lane_put (reopened p) = lane_put p" using r(3,4) by (auto simp: fun_eq_iff lane_put_at)
  then have "vt_costs (cost_tier (reopened p)) = vt_costs (cost_tier p)" using r(1,2) by (simp only: cost_tier_lanes)
  then show ?thesis by (simp add: cost_tier_def)
qed

lemma cost_shown:
  assumes "cost_ok n"
  shows "js_trim (show_num n) \<noteq> []"
proof -
  have w: "list_all plain_num (show_num n)" "show_num n \<noteq> []" using cost_text [OF assms] by simp_all
  then have "plain_num (hd (show_num n))" "plain_num (last (show_num n))" by (auto simp: list_all_iff)
  then have "js_trim (show_num n) = show_num n" using plain_num_facts by (intro trim_by_id) auto
  then show ?thesis using w(2) by simp
qed

lemma per_token_again:
  assumes "typed_state p" "has_any_cost p"
  shows "perTokenToExpr (reopened p) = perTokenToExpr p" "has_any_cost (reopened p)"
proof -
  have "cost_ok (input_value p)" using assms(1) draft_value by (simp add: typed_state_def)
  then show a: "has_any_cost (reopened p)" using cost_shown by (simp add: has_any_cost_def reopened_def)
  then show "perTokenToExpr (reopened p) = perTokenToExpr p" using assms reopened_tier by (simp add: perTokenToExpr_def)
qed

lemma written_not_empty: "has_any_cost p \<Longrightarrow> perTokenToExpr p \<noteq> []"
  by (simp add: perTokenToExpr_def generateExprFromVisualConfig_def tier_text_def cost_tier_def buildConditionStr_def Let_def)

section \<open>The tab of the expression\<close>

lemma expr_told_fields [simp]:
  "ce_mode (expr_told s st) = ce_mode st" "ce_baseline (expr_told s st) = ce_baseline st" "ce_costExpr (expr_told s st) = s"
  by (simp_all add: expr_told_def Let_def)

lemma run_tab:
  assumes "settle_editor True n ed = Settled ed'" "ce_costExpr st = te_expr ed"
  shows "\<exists>st'. run_expr_tab n ed st = Some st' \<and> ce_costExpr st' = te_expr ed' \<and> ce_mode st' = ce_mode st \<and> ce_baseline st' = ce_baseline st"
  using assms
proof (induction n arbitrary: ed st)
  case (Suc n)
  then obtain ed1 where ed1: "flush True ed = Some ed1" by (auto split: option.splits)
  let ?st = "if te_expr ed1 \<noteq> te_expr ed then expr_told (te_expr ed1) st else st"
  have st: "ce_costExpr ?st = te_expr ed1" "ce_mode ?st = ce_mode st" "ce_baseline ?st = ce_baseline st" using Suc.prems(2) by simp_all
  show ?case
  proof (cases "quiet True ed1")
    case True
    then have "ed' = ed1" using Suc.prems(1) ed1 by simp
    moreover have "run_expr_tab (Suc n) ed st = Some ?st" using True ed1 by (simp add: Let_def)
    ultimately show ?thesis using st by blast
  next
    case False
    then have "settle_editor True n ed1 = Settled ed'" using Suc.prems(1) ed1 by simp
    then have "\<exists>st'. run_expr_tab n ed1 ?st = Some st' \<and> ce_costExpr st' = te_expr ed' \<and> ce_mode st' = ce_mode ?st \<and> ce_baseline st' = ce_baseline ?st"
      using st(1) by (rule Suc.IH)
    moreover have "run_expr_tab (Suc n) ed st = run_expr_tab n ed1 ?st" using False ed1 by (simp add: Let_def)
    ultimately show ?thesis using st(2,3) by simp
  qed
qed simp

lemma shown_tab:
  assumes "mount_editor model (ce_costExpr st) [] = Some ed" "settle_editor True 5 ed = Settled ed'" "te_expr ed = ce_costExpr st"
  shows "\<exists>st'. show_expr_tab model st = Some st' \<and> ce_costExpr st' = te_expr ed' \<and> ce_mode st' = ce_mode st \<and> ce_baseline st' = ce_baseline st"
  using run_tab [OF assms(2) assms(3) [symmetric]] assms(1) by (simp add: show_expr_tab_def)

lemma mount_expr: "mount_editor model expr rules = Some ed \<Longrightarrow> te_expr ed = expr"
  by (auto simp: mount_editor_def)

lemma no_spaces_trim: "no_spaces (js_trim s) = no_spaces s"
proof -
  have d: "filter (\<lambda>c. \<not> is_ws c) (dropWhile is_ws w) = filter (\<lambda>c. \<not> is_ws c) w" for w by (induction w) auto
  then show ?thesis by (simp add: no_spaces_def trim_by_def rev_filter [symmetric])
qed

lemma zero_expr_trim: "js_trim ZERO_EXPR = ZERO_EXPR" "ZERO_EXPR \<noteq> []" "\<not> exprEq ZERO_EXPR ZERO_TIER"
  using zero_facts(4) by (simp_all add: ZERO_EXPR_def exprEq_def no_spaces_def ZERO_TIER_def is_ws_def)

section \<open>Properties\<close>

text \<open>
  C20: What the tab of the costs per token has written is shown there again and is not saved again. For
  texts that the fields let through, if there is any cost, the expression is read as the same values in the
  same lanes, without the lanes whose cost is 0, the values written in their plain form; and the data of
  the editor that has just been opened with it say that nothing is to be saved.
\<close>

theorem per_token_cost_reopens:
  assumes "typed_state p" and "has_any_cost p"
  defines "e \<equiv> perTokenToExpr p"
  shows "tryExprToPerToken e = Some (reopened p) \<and> perTokenToExpr (reopened p) = e \<and>
    ce_mode (apply_snapshot key en (Some e) new_cost_editor) = PerTokenC \<and>
    getData (apply_snapshot key en (Some e) new_cost_editor) = Unchanged"
proof -
  note r = per_token_read [OF assms(1,2)] per_token_again(1) [OF assms(1,2)] and n = written_not_empty [OF assms(2)]
  show ?thesis using r n unfolding e_def
    by (simp add: apply_snapshot_def getData_def new_cost_editor_def or_default_def or_str_def exprEq_def Let_def)
qed

definition sample_cost :: PerTokenState where
  "sample_cost = \<lparr>pt_input = ''2'', pt_output = ''8.'', pt_lanePrices = (\<lambda>k. if k = CacheC then ''0.3'' else []),
     pt_laneEnabled = (\<lambda>k. k \<in> {CacheC, ImageC})\<rparr>"

lemma sample_cost_typed: "typed_state sample_cost" "has_any_cost sample_cost"
  by (simp_all add: typed_state_def sample_cost_def numeric_draft_def is_digit_def has_any_cost_def trim_by_def is_ws_def)

lemma per_token_cost_reopens_witness:
  "tryExprToPerToken (perTokenToExpr sample_cost) = Some (reopened sample_cost) \<and>
   getData (apply_snapshot ''1'' None (Some (perTokenToExpr sample_cost)) new_cost_editor) = Unchanged"
  using per_token_cost_reopens [OF sample_cost_typed] by blast

text \<open>
  C21: A cost expression that the visual editor cannot read is replaced by the cost 0 when the dialog of the
  model is opened. Its tab is the one that is shown, so the editor of the expression is mounted, tells the
  expression for no configuration, and the data to save are this expression: saving any other change of
  the model writes the cost 0.
\<close>

theorem unread_cost_lost:
  assumes "expr \<noteq> []" "tryParseVisualConfig expr = None" and "\<not> exprEq ZERO_EXPR expr"
  shows "\<exists>st'. show_expr_tab model (apply_snapshot key en (Some expr) new_cost_editor) = Some st' \<and> getData st' = SaveExpr ZERO_EXPR"
proof -
  let ?st = "apply_snapshot key en (Some expr) new_cost_editor"
  have "tryExprToPerToken expr = None" using assms(2) by (simp add: tryExprToPerToken_def)
  then have st: "ce_mode ?st = ExprC" "ce_baseline ?st = ExprBase expr" "ce_costExpr ?st = expr"
    using assms(1) by (simp_all add: apply_snapshot_def new_cost_editor_def or_default_def or_str_def Let_def)
  obtain ed where ed: "mount_editor model expr [] = Some ed" "settle_editor True 5 ed = Settled (raw_state ZERO_EXPR ZERO_EXPR (expr \<noteq> ZERO_EXPR) model ZERO_EXPR)"
    using raw_overwritten [OF assms(1,2), of True model] by auto
  obtain st' where "show_expr_tab model ?st = Some st'" "ce_costExpr st' = ZERO_EXPR" "ce_mode st' = ExprC" "ce_baseline st' = ExprBase expr"
    using shown_tab [of model ?st ed] st ed mount_expr [OF ed(1)] by auto
  then show ?thesis using assms(3) zero_expr_trim by (simp add: getData_def Let_def)
qed

lemma unread_cost_lost_witness:
  "\<exists>st'. show_expr_tab (Some ''m'') (apply_snapshot ''1'' None (Some ''max(p, c)'') new_cost_editor) = Some st' \<and> getData st' = SaveExpr ZERO_EXPR"
  by (rule unread_cost_lost) (simp_all add: max_facts(1) exprEq_def no_spaces_def ZERO_EXPR_def is_ws_def)

text \<open>
  Looking at the tab of the expression makes up a cost for a model that has none. Without a cost the
  editor is mounted with no text; the first render tells the expression of no configuration, the second
  reads it, and the text it rests with is not the one of a tier that the data take for a cost that was not
  set, so that the cost 0 is saved.
\<close>

theorem looked_at_cost_saved_as_zero:
  "\<exists>st'. show_expr_tab model (change_tab ExprC (apply_snapshot key None None new_cost_editor)) = Some st' \<and> getData st' = SaveExpr ZERO_EXPR"
proof -
  let ?st = "change_tab ExprC (apply_snapshot key None None new_cost_editor)"
  have st: "ce_mode ?st = ExprC" "ce_baseline ?st = NoBase" "ce_costExpr ?st = []"
    by (simp_all add: change_tab_def markDirty_def apply_snapshot_def new_cost_editor_def or_default_def or_str_def)
  obtain ed where ed: "mount_editor model [] [] = Some ed" "settle_editor True 5 ed = Settled (raw_state ZERO_EXPR ZERO_EXPR True model ZERO_EXPR)"
    using empty_overwritten by blast
  obtain st' where "show_expr_tab model ?st = Some st'" "ce_costExpr st' = ZERO_EXPR" "ce_mode st' = ExprC" "ce_baseline st' = NoBase"
    using shown_tab [of model ?st ed] st ed mount_expr [OF ed(1)] by auto
  then show ?thesis using zero_expr_trim by (simp add: getData_def Let_def)
qed

text \<open>
  A cost expression of several tiers, or with conditions, that the editor wrote is opened in the tab of
  the expression and is not saved again.
\<close>

theorem written_cost_not_saved_again:
  assumes "config_ok ts" and "length ts \<noteq> 1"
  defines "e \<equiv> generateExprFromVisualConfig (Some \<lparr>vc_tiers = ts\<rparr>)"
  shows "\<exists>st'. show_expr_tab model (apply_snapshot key en (Some e) new_cost_editor) = Some st' \<and> ce_mode st' = ExprC \<and>
    ce_costExpr st' = e \<and> getData st' = Unchanged"
proof -
  let ?st = "apply_snapshot key en (Some e) new_cost_editor"
  have s: "steady e [] \<lparr>vc_tiers = map reread ts\<rparr> []" using steady_written [OF assms(1), of "[]"] by (simp add: e_def)
  then have read: "tryParseVisualConfig e = Some \<lparr>vc_tiers = map reread ts\<rparr>" by (simp add: steady_def)
  then have e: "e \<noteq> []" by (auto simp: tryParseVisualConfig_def)
  have "chain_ok ts" using assms(1,2) by (auto simp: config_ok_def)
  then obtain t t' ts' where ts: "ts = t # t' # ts'" "proper_conds (vt_conditions t)"
    using assms(2) by (cases ts rule: chain_text.cases) auto
  have "hd e \<in> set ''pcl''" using written_chain [OF \<open>chain_ok ts\<close>] conds_shape [OF ts(2)] by (simp add: e_def ts(1))
  then have "\<not> is_ws (hd e)" by (auto simp: is_ws_def)
  then have "js_trim e \<noteq> []" using e by (cases e) (simp_all add: trim_by_def)
  have "tryExprToPerToken e = None" using read assms(2) by (simp add: tryExprToPerToken_def)
  then have st: "ce_mode ?st = ExprC" "ce_baseline ?st = ExprBase e" "ce_costExpr ?st = e"
    using e by (simp_all add: apply_snapshot_def new_cost_editor_def or_default_def or_str_def Let_def)
  obtain ed ed' where ed: "mount_editor model e [] = Some ed" "settle_editor True 5 ed = Settled ed'" "te_expr ed' = e"
    using opens_steady [OF s, of model True] by blast
  obtain st' where "show_expr_tab model ?st = Some st'" "ce_costExpr st' = e" "ce_mode st' = ExprC" "ce_baseline st' = ExprBase e"
    using shown_tab [of model ?st ed] st ed mount_expr [OF ed(1)] by auto
  then show ?thesis using \<open>js_trim e \<noteq> []\<close> by (simp add: getData_def exprEq_def no_spaces_trim Let_def)
qed

lemma written_cost_not_saved_again_witness:
  "\<exists>st'. show_expr_tab (Some ''m'') (apply_snapshot ''1'' None (Some (generateExprFromVisualConfig (Some \<lparr>vc_tiers = sample_tiers\<rparr>))) new_cost_editor) = Some st' \<and>
    getData st' = Unchanged"
proof -
  have "length sample_tiers \<noteq> 1" by (simp add: sample_tiers_def)
  from written_cost_not_saved_again [OF sample_tiers_ok this, of "Some ''m''" "''1''" None] show ?thesis by blast
qed

end
