(* ===== verification/ModelDialogFacts.thy ===== *)
theory ModelDialogFacts
  imports ModelDialog ProviderCostFacts
begin

text \<open>
  Facts about the dialog of a model: it saves prices as the table of the prices does, a renamed model takes
  its costs along, and a cost is not cleared before its successor is stored.
\<close>

section \<open>Prices\<close>

lemma delete_commutes: "delete_model a (delete_model b m) = delete_model b (delete_model a m)"
  by (simp add: delete_model_def obj_delete_def conj_commute)

lemma delete_twice: "delete_model a (delete_model a m) = delete_model a m"
  by (simp add: delete_model_def obj_delete_def)

lemma set_after_delete: "set_price data (delete_model n m) n = persist_model data m n"
  by (simp add: set_price_def persist_model_def Let_def)

lemma dialog_persist:
  "dialog_maps data oldName finalName m =
     persist_model data (if oldName \<noteq> [] \<and> oldName \<noteq> finalName then delete_model oldName m else m) finalName"
  by (simp add: dialog_maps_def stale_names_def set_after_delete delete_commutes [of oldName])

text \<open>
  C24: The dialog stores a price as the table of the prices does. For the users of the ten texts, what it
  sends is the update of the map from models to prices at the name of the model, after the entry of the
  name it had has been taken away when it was renamed; the entries of all other models stay.
\<close>

theorem dialog_price_refines:
  "dialog_maps data oldName finalName m =
      persist_model data (if oldName \<noteq> [] \<and> oldName \<noteq> finalName then delete_model oldName m else m) finalName \<and>
   entry (dialog_maps data oldName finalName m) =
      ((entry m)(if oldName = [] then finalName else oldName := no_entry))(finalName := entry_of data)"
  by (auto simp: dialog_persist entry_persist entry_delete fun_eq_iff)

text \<open>
  The dialog edits the price the table shows: the data it gives the panel are those of the row of the
  model, and it fails on the entries on which the row fails.
\<close>

theorem dialog_edits_row:
  assumes "read_maps (ms_prices s) = Some m" and "name \<noteq> []"
  shows "pricingEditData True s name = map_option (\<lambda>row. Some (edit_data row)) (row_of m name)"
  using assms by (auto simp: pricingEditData_def row_of_def edit_data_def Let_def split: option.split)

lemma dialog_edits_row_witness:
  "pricingEditData True \<lparr>ms_prices = empty_model_form, ms_providerCost = [], ms_costExpr = []\<rparr> ''m'' =
     map_option (\<lambda>row. Some (edit_data row)) (row_of empty_maps ''m'')"
  by (rule dialog_edits_row) (simp_all add: read_empty)

section \<open>Renaming\<close>

lemma get_move: "a \<noteq> b \<Longrightarrow> obj_get k (move_key a b m) =
    (if k = a then None else if k = b \<and> obj_get a m \<noteq> None then obj_get a m else obj_get k m)"
  by (auto simp: move_key_def split: option.split)

text \<open>The key of a channel.\<close>

abbreviation channel_key :: "string \<Rightarrow> string \<Rightarrow> string" where
  "channel_key c name \<equiv> c @ CHR ''|'' # name"

definition channel_id :: "string \<Rightarrow> bool" where
  "channel_id c \<longleftrightarrow> c \<noteq> [] \<and> list_all is_digit c"

lemma channel_part_key: "channel_part oldName key = Some c \<longleftrightarrow> channel_id c \<and> key = channel_key c oldName"
  by (auto simp: channel_part_def channel_id_def suffix_def Let_def)

lemma channel_key_inj: "channel_id c \<Longrightarrow> channel_id d \<Longrightarrow> channel_key c a = channel_key d b \<longleftrightarrow> c = d \<and> a = b"
proof -
  assume cd: "channel_id c" "channel_id d"
  have bar: "takeWhile is_digit (channel_key x n) = x" if "channel_id x" for x n
    using takeWhile_stop [of is_digit x "CHR ''|''" n] that by (simp add: channel_id_def is_digit_def)
  show ?thesis using bar [OF cd(1), of a] bar [OF cd(2), of b] by auto
qed

lemma get_move_channel:
  assumes "oldName \<noteq> finalName" "channel_id c"
  shows "obj_get (channel_key c finalName) (move_channel oldName finalName m key) =
      (if key = channel_key c oldName \<and> obj_get key m \<noteq> None then obj_get key m else obj_get (channel_key c finalName) m)"
    "obj_get (channel_key c oldName) (move_channel oldName finalName m key) =
      (if key = channel_key c oldName then None else obj_get (channel_key c oldName) m)"
proof -
  have part: "channel_part oldName (channel_key c oldName) = Some c" using channel_part_key assms(2) by blast
  note inj = channel_key_inj [OF assms(2)]
  show "obj_get (channel_key c finalName) (move_channel oldName finalName m key) =
      (if key = channel_key c oldName \<and> obj_get key m \<noteq> None then obj_get key m else obj_get (channel_key c finalName) m)"
    "obj_get (channel_key c oldName) (move_channel oldName finalName m key) =
      (if key = channel_key c oldName then None else obj_get (channel_key c oldName) m)"
  proof (atomize (full), cases "channel_part oldName key")
    case None
    then have "key \<noteq> channel_key c oldName" using part by auto
    then show "obj_get (channel_key c finalName) (move_channel oldName finalName m key) =
        (if key = channel_key c oldName \<and> obj_get key m \<noteq> None then obj_get key m else obj_get (channel_key c finalName) m) \<and>
      obj_get (channel_key c oldName) (move_channel oldName finalName m key) =
        (if key = channel_key c oldName then None else obj_get (channel_key c oldName) m)"
      using None by (simp add: move_channel_def)
  next
    case (Some d)
    then have d: "channel_id d" "key = channel_key d oldName" using channel_part_key by blast+
    have "channel_key d oldName \<noteq> channel_key d finalName" using assms(1) by simp
    note get = get_move [OF this]
    show "obj_get (channel_key c finalName) (move_channel oldName finalName m key) =
        (if key = channel_key c oldName \<and> obj_get key m \<noteq> None then obj_get key m else obj_get (channel_key c finalName) m) \<and>
      obj_get (channel_key c oldName) (move_channel oldName finalName m key) =
        (if key = channel_key c oldName then None else obj_get (channel_key c oldName) m)"
      using Some assms(1) unfolding d(2) move_channel_def by (simp add: get inj [OF d(1)] channel_key_inj [OF d(1) assms(2)])
  qed
qed

lemma get_move_channel_other:
  assumes "oldName \<noteq> finalName" "\<forall>c. channel_id c \<longrightarrow> k \<noteq> channel_key c oldName \<and> k \<noteq> channel_key c finalName"
  shows "obj_get k (move_channel oldName finalName m key) = obj_get k m"
proof (cases "channel_part oldName key")
  case (Some c)
  then have "channel_id c" "key = channel_key c oldName" using channel_part_key by blast+
  then show ?thesis using assms Some by (simp add: move_channel_def get_move)
qed (simp add: move_channel_def)

lemma move_channels:
  assumes "oldName \<noteq> finalName" "channel_id c"
  shows "obj_get (channel_key c finalName) (foldl (move_channel oldName finalName) m ks) =
      (if channel_key c oldName \<in> set ks \<and> obj_get (channel_key c oldName) m \<noteq> None then obj_get (channel_key c oldName) m
       else obj_get (channel_key c finalName) m) \<and>
    obj_get (channel_key c oldName) (foldl (move_channel oldName finalName) m ks) =
      (if channel_key c oldName \<in> set ks then None else obj_get (channel_key c oldName) m)"
  by (induction ks arbitrary: m) (auto simp: get_move_channel [OF assms])

lemma move_channels_other:
  assumes "oldName \<noteq> finalName" "\<forall>c. channel_id c \<longrightarrow> k \<noteq> channel_key c oldName \<and> k \<noteq> channel_key c finalName"
  shows "obj_get k (foldl (move_channel oldName finalName) m ks) = obj_get k m"
  by (induction ks arbitrary: m) (simp_all add: get_move_channel_other [OF assms])

lemma not_channel: "channel_id c \<Longrightarrow> CHR ''|'' \<notin> set n \<Longrightarrow> n \<noteq> channel_key c a"
  by auto

text \<open>
  C22: A model that is renamed takes its costs along. Its flat entry, its expression and its expressions for
  single channels are found under the new name with the values they had, nothing is left under the old
  name, and the entries of other models and other keys stay as they are.
\<close>

theorem renamed_model_keeps_costs:
  fixes flat expr :: "(string \<times> json) list"
  assumes "oldName \<noteq> finalName" "CHR ''|'' \<notin> set oldName" "CHR ''|'' \<notin> set finalName"
  defines "ms' \<equiv> rename_costs oldName finalName (flat, expr)"
  shows "(obj_get oldName flat \<noteq> None \<longrightarrow> obj_get finalName (fst ms') = obj_get oldName flat) \<and> obj_get oldName (fst ms') = None \<and>
    (obj_get oldName expr \<noteq> None \<longrightarrow> obj_get finalName (snd ms') = obj_get oldName expr) \<and> obj_get oldName (snd ms') = None \<and>
    (channel_id c \<longrightarrow> obj_get (channel_key c oldName) (snd ms') = None \<and>
      (obj_get (channel_key c oldName) expr \<noteq> None \<longrightarrow>
         obj_get (channel_key c finalName) (snd ms') = obj_get (channel_key c oldName) expr)) \<and>
    (k \<notin> {oldName, finalName} \<longrightarrow> obj_get k (fst ms') = obj_get k flat \<and>
      ((\<forall>c. channel_id c \<longrightarrow> k \<noteq> channel_key c oldName \<and> k \<noteq> channel_key c finalName) \<longrightarrow> obj_get k (snd ms') = obj_get k expr))"
proof -
  let ?e = "move_key oldName finalName expr"
  have ms: "fst ms' = move_key oldName finalName flat" "snd ms' = foldl (move_channel oldName finalName) ?e (map fst ?e)"
    by (simp_all add: ms'_def rename_costs_def Let_def)
  note plain = move_channels_other [OF assms(1)] and get = get_move [OF assms(1)]
  have names: "\<forall>c. channel_id c \<longrightarrow> n \<noteq> channel_key c oldName \<and> n \<noteq> channel_key c finalName" if "n = oldName \<or> n = finalName" for n
    using that not_channel assms(2,3) by (elim disjE) simp_all
  have chan: "channel_key c n \<noteq> oldName" "channel_key c n \<noteq> finalName" if "channel_id c" for c n
    using not_channel [OF that] assms(2,3) by metis+
  have keys: "channel_key c oldName \<in> set (map fst ?e) \<longleftrightarrow> obj_get (channel_key c oldName) expr \<noteq> None" if "channel_id c" for c
    using chan [OF that] key_iff_get [of "channel_key c oldName" ?e] by (simp add: get)
  have c: "channel_id c \<Longrightarrow> obj_get (channel_key c oldName) (snd ms') = None \<and>
      (obj_get (channel_key c oldName) expr \<noteq> None \<longrightarrow> obj_get (channel_key c finalName) (snd ms') = obj_get (channel_key c oldName) expr)"
    using move_channels [OF assms(1), of c ?e "map fst ?e"] keys chan unfolding ms by (simp add: get)
  show ?thesis using c assms(1) unfolding ms by (auto simp: plain [OF names] get plain)
qed


lemma renamed_model_keeps_costs_witness:
  "snd (rename_costs ''a'' ''b'' ([], [(''a'', JStr ''p * 1''), (''7|a'', JStr ''p * 2'')])) = [(''b'', JStr ''p * 1''), (''7|b'', JStr ''p * 2'')] \<and>
   obj_get (channel_key ''7'' ''b'') (snd (rename_costs ''a'' ''b'' ([], [(''a'', JStr ''p * 1''), (''7|a'', JStr ''p * 2'')]))) = Some (JStr ''p * 2'')"
proof
  let ?e = "[(''a'', JStr ''p * 1''), (''7|a'', JStr ''p * 2'')]"
  show "snd (rename_costs ''a'' ''b'' ([], ?e)) = [(''b'', JStr ''p * 1''), (''7|b'', JStr ''p * 2'')]" by code_simp
  have id: "channel_id ''7''" by (simp add: channel_id_def is_digit_def)
  have "obj_get (channel_key ''7'' ''a'') ?e = Some (JStr ''p * 2'')" by (simp add: obj_get_def)
  then show "obj_get (channel_key ''7'' ''b'') (snd (rename_costs ''a'' ''b'' ([], ?e))) = Some (JStr ''p * 2'')"
    using renamed_model_keeps_costs [where oldName = "''a''" and finalName = "''b''" and c = "''7''" and expr = ?e] id by simp
qed

section \<open>What the server holds\<close>

lemma text_map_compact: "json_ok (JObj m) \<Longrightarrow> text_map (json_stringify (JObj m)) = Some m"
  using compact.parse_trim_print [of "JObj m"] compact.print_not_empty [of "JObj m"] compact.print_trim [of "JObj m"]
  by (simp add: text_map_def safeJsonParse_def del: json_ok.simps)

lemma normal_compact: "json_ok (JObj m) \<Longrightarrow> normalizeJsonString (json_stringify (JObj m)) = json_stringify (JObj m)"
  using compact.parse_trim_print [of "JObj m"] compact.print_not_empty [of "JObj m"] compact.print_trim [of "JObj m"]
  by (simp add: normalizeJsonString_def Let_def del: json_ok.simps)

lemma same_text:
  assumes m: "json_ok (JObj m)" and same: "normalizeJsonString t = json_stringify (JObj m)"
  shows "text_map t = Some m"
proof -
  have n: "js_trim t \<noteq> []" using same compact.print_not_empty [OF m] by (auto simp: normalizeJsonString_def Let_def)
  show ?thesis
  proof (cases "json_parse (js_trim t)")
    case None
    then have "json_parse (json_stringify (JObj m)) = None" using same n by (simp add: normalizeJsonString_def Let_def)
    then show ?thesis using compact.parse_print [OF m] by simp
  next
    case (Some v)
    then have "json_stringify v = json_stringify (JObj m)" using same n by (simp add: normalizeJsonString_def Let_def)
    then have "v = JObj m" using compact.print_inj compact.parse_wf [OF Some] m by blast
    then show ?thesis using Some n by (simp add: text_map_def safeJsonParse_def)
  qed
qed

lemma no_text: "text_map [] = Some []" "text_map ''{}'' = Some []"
  by code_simp+

lemma move_key_ok: "json_ok (JObj m) \<Longrightarrow> json_ok (JObj (move_key a b m))"
  using json_ok_delete json_ok_set json_ok_get [of m a] by (auto simp: move_key_def simp del: json_ok.simps split: option.split)

lemma move_channels_ok: "json_ok (JObj m) \<Longrightarrow> json_ok (JObj (foldl (move_channel a b) m ks))"
  by (induction ks arbitrary: m) (auto simp: move_channel_def move_key_ok simp del: json_ok.simps split: option.split)

lemma rename_ok:
  "json_ok (JObj (fst ms)) \<Longrightarrow> json_ok (JObj (fst (rename_costs a b ms)))"
  "json_ok (JObj (snd ms)) \<Longrightarrow> json_ok (JObj (snd (rename_costs a b ms)))"
  by (simp_all add: rename_costs_def Let_def move_key_ok move_channels_ok del: json_ok.simps)

lemma keys_differ: "FLAT_KEY \<noteq> EXPR_KEY"
  by (simp add: FLAT_KEY_def EXPR_KEY_def)

text \<open>
  The text \<open>g\<close> of two options is written first, the text \<open>h\<close> second: if \<open>h\<close> has changed, \<open>g\<close> holds what it
  was to hold, whether that had to be written or was there.
\<close>

lemma stored_before:
  assumes first: "\<And>v s. g (store_option (k, v) s) = v" "\<And>v s. h (store_option (k, v) s) = h s"
    and second: "\<And>v s. g (store_option (k2, v) s) = g s" and m: "json_ok (JObj m)"
    and there: "\<not> a \<Longrightarrow> text_map (g s) = Some m"
    and requests: "requests = (if a then [(k, json_stringify (JObj m))] else []) @ (if b then [(k2, v2)] else [])"
    and changed: "h (store_until ok requests s) \<noteq> h s"
  shows "text_map (g (store_until ok requests s)) = Some m"
  using changed there text_map_compact [OF m] first second unfolding requests
  by (cases "ok (k, json_stringify (JObj m))") (simp_all del: json_ok.simps json_text.simps split: if_splits)

lemma store_fields:
  "ms_costExpr (store_option (EXPR_KEY, v) s) = v" "ms_providerCost (store_option (EXPR_KEY, v) s) = ms_providerCost s"
  "ms_providerCost (store_option (FLAT_KEY, v) s) = v" "ms_costExpr (store_option (FLAT_KEY, v) s) = ms_costExpr s"
  using keys_differ by (simp_all add: store_option_def)

text \<open>What is put into the maps, which are those of a renamed model or those that are stored.\<close>

lemma maps_before_put:
  assumes "text_map (ms_providerCost s) = Some flat" "text_map (ms_costExpr s) = Some expr"
  obtains ms where "json_ok (JObj (fst ms))" "json_ok (JObj (snd ms))" "cost_maps_after oldName finalName data (flat, expr) = put_cost data finalName ms"
  using that [of "if cost_renamed oldName finalName then rename_costs oldName finalName (flat, expr) else (flat, expr)"]
    rename_ok [of "(flat, expr)"] text_map_ok [OF assms(1)] text_map_ok [OF assms(2)]
  by (simp add: cost_maps_after_def del: json_ok.simps split: if_splits)

lemma expr_stored_first:
  assumes t: "text_map (ms_providerCost s) = Some flat" "text_map (ms_costExpr s) = Some expr"
    and requests: "persistCost s oldName finalName (SaveExpr e) = Some requests"
    and changed: "ms_providerCost (store_until ok requests s) \<noteq> ms_providerCost s"
  shows "\<exists>m. text_map (ms_costExpr (store_until ok requests s)) = Some m \<and> obj_get finalName m = Some (JStr e)"
proof -
  obtain ms where ms: "json_ok (JObj (snd ms))" "cost_maps_after oldName finalName (SaveExpr e) (flat, expr) = put_cost (SaveExpr e) finalName ms"
    using maps_before_put [OF t] by metis
  let ?m = "obj_set finalName (JStr e) (snd ms)" and ?flat = "obj_delete finalName (fst ms)"
  let ?old = "normalizeJsonString (or_str (ms_costExpr s) ''{}'')" and ?text = "if ?flat \<noteq> [] then json_stringify (JObj ?flat) else []"
  have m: "json_ok (JObj ?m)" by (rule json_ok_set [OF ms(1) string_ok])
  have there: "text_map (ms_costExpr s) = Some ?m" if "\<not> json_stringify (JObj ?m) \<noteq> ?old"
    using same_text [OF m, of "or_str (ms_costExpr s) ''{}''"] that no_text by (auto simp: or_str_def split: if_splits)
  have writes: "cost_writes s (SaveExpr e) (?flat, ?m) = requests"
    using requests t ms(2) by (simp add: persistCost_def put_cost_def)
  have "requests = (if json_stringify (JObj ?m) \<noteq> ?old then [(EXPR_KEY, json_stringify (JObj ?m))] else []) @
      (if normalizeJsonString ?text \<noteq> normalizeJsonString (ms_providerCost s) then [(FLAT_KEY, ?text)] else [])"
    using writes unfolding cost_writes_def Let_def fst_conv snd_conv ProviderCostData.case normal_compact [OF m] by (rule sym)
  from stored_before [OF store_fields(1,2,4) m there this changed] show ?thesis by simp
qed

definition per_request_json :: "dec \<Rightarrow> json" where
  "per_request_json d = JObj [(''input'', JNum (int_dec 0)), (''output'', JNum (int_dec 0)), (''per_request'', JNum d)]"

lemma per_request_json_ok: "dec_ok d \<Longrightarrow> json_ok (per_request_json d)"
  by (simp add: per_request_json_def obj_ok_def key_before_def array_index_def is_digit_def)

lemma flat_stored_first:
  assumes t: "text_map (ms_providerCost s) = Some flat" "text_map (ms_costExpr s) = Some expr" and d: "dec_ok d"
    and requests: "persistCost s oldName finalName (SavePerRequest (Num d)) = Some requests"
    and changed: "ms_costExpr (store_until ok requests s) \<noteq> ms_costExpr s"
  shows "\<exists>m. text_map (ms_providerCost (store_until ok requests s)) = Some m \<and> obj_get finalName m = Some (per_request_json d)"
proof -
  obtain ms where ms: "json_ok (JObj (fst ms))"
    "cost_maps_after oldName finalName (SavePerRequest (Num d)) (flat, expr) = put_cost (SavePerRequest (Num d)) finalName ms"
    using maps_before_put [OF t] by metis
  let ?m = "obj_set finalName (per_request_json d) (fst ms)" and ?expr = "json_stringify (JObj (obj_delete finalName (snd ms)))"
  let ?old = "normalizeJsonString (ms_providerCost s)"
  have m: "json_ok (JObj ?m)" by (rule json_ok_set [OF ms(1) per_request_json_ok [OF d]])
  have "?m \<noteq> []" using keys_obj_set [of finalName "per_request_json d" "fst ms"] by auto
  have there: "text_map (ms_providerCost s) = Some ?m" if "\<not> json_stringify (JObj ?m) \<noteq> ?old"
    using same_text [OF m, of "ms_providerCost s"] that by simp
  have writes: "cost_writes s (SavePerRequest (Num d)) (?m, obj_delete finalName (snd ms)) = requests"
    using requests t ms(2) by (simp add: persistCost_def put_cost_def per_request_json_def)
  have "requests = (if json_stringify (JObj ?m) \<noteq> ?old then [(FLAT_KEY, json_stringify (JObj ?m))] else []) @
      (if normalizeJsonString ?expr \<noteq> normalizeJsonString (or_str (ms_costExpr s) ''{}'') then [(EXPR_KEY, ?expr)] else [])"
    using writes unfolding cost_writes_def Let_def fst_conv snd_conv ProviderCostData.case if_P [OF \<open>?m \<noteq> []\<close>] normal_compact [OF m]
    by (rule sym)
  from stored_before [OF store_fields(3,4,2) m there this changed] show ?thesis by simp
qed

text \<open>
  C23: A cost is not cleared before its successor is stored. Whatever requests the server refuses: if the flat
  costs have changed after an expression was saved, the stored expressions hold it for the model, and if the
  stored expressions have changed after a price per request was saved, the flat costs hold that price.
\<close>

theorem cost_stored_before_cleared:
  fixes ok :: "string \<times> string \<Rightarrow> bool"
  assumes "text_map (ms_providerCost s) = Some flat" "text_map (ms_costExpr s) = Some expr"
    and "persistCost s oldName finalName data = Some requests"
  defines "s' \<equiv> store_until ok requests s"
  shows "(\<forall>e. data = SaveExpr e \<and> ms_providerCost s' \<noteq> ms_providerCost s \<longrightarrow>
      (\<exists>m. text_map (ms_costExpr s') = Some m \<and> obj_get finalName m = Some (JStr e))) \<and>
    (\<forall>d. data = SavePerRequest (Num d) \<and> dec_ok d \<and> ms_costExpr s' \<noteq> ms_costExpr s \<longrightarrow>
      (\<exists>m. text_map (ms_providerCost s') = Some m \<and> obj_get finalName m = Some (per_request_json d)))"
  using expr_stored_first [OF assms(1,2)] flat_stored_first [OF assms(1,2)] assms(3) unfolding s'_def by blast

definition sample_settings :: ModelSettings where
  "sample_settings = \<lparr>ms_prices = empty_model_form, ms_providerCost = json_stringify (JObj [(''m'', JObj [(''input'', JNum (int_dec 1))])]), ms_costExpr = []\<rparr>"

lemma cost_stored_before_cleared_witness:
  "\<exists>requests. persistCost sample_settings [] ''m'' (SaveExpr ''p * 2'') = Some requests \<and>
    (ms_providerCost (store_until (\<lambda>_. True) requests sample_settings) \<noteq> ms_providerCost sample_settings \<longrightarrow>
      (\<exists>m. text_map (ms_costExpr (store_until (\<lambda>_. True) requests sample_settings)) = Some m \<and> obj_get ''m'' m = Some (JStr ''p * 2'')))"
proof -
  have "json_ok (JObj [(''m'', JObj [(''input'', JNum (int_dec 1))])])" by (simp add: obj_ok_def)
  then have t: "text_map (ms_providerCost sample_settings) = Some [(''m'', JObj [(''input'', JNum (int_dec 1))])]"
    unfolding sample_settings_def ModelSettings.select_convs by (rule text_map_compact)
  have x: "text_map (ms_costExpr sample_settings) = Some []" using no_text(1) by (simp add: sample_settings_def)
  with t obtain requests where r: "persistCost sample_settings [] ''m'' (SaveExpr ''p * 2'') = Some requests" by (simp add: persistCost_def)
  from conjunct1 [OF cost_stored_before_cleared [OF t x r, of "\<lambda>_. True"]] show ?thesis using r by blast
qed

end
