(* ===== verification/SettingsForm.thy ===== *)
theory SettingsForm
  imports JsValue
begin

text \<open>
  The form of the system settings (features/system-settings/hooks/use-settings-form.ts) and the three sections that
  use it: how defaults with dotted keys become the nested values of the form, how the values become flat keys again,
  which of them are sent, and what the hook keeps in its references. The values are JSON objects; the form library
  (react-hook-form) holds them and marks the fields that were changed, which is the parameter \<open>dirtyFields\<close>.
\<close>

section \<open>Dotted keys\<close>

type_synonym js_obj = "(string \<times> json) list"

text \<open>\<open>parentKey ? `${parentKey}.${key}` : key\<close>; None is undefined.\<close>

definition next_key :: "string option \<Rightarrow> string \<Rightarrow> string" where
  "next_key parentKey key = (case parentKey of None \<Rightarrow> key | Some p \<Rightarrow> if p = [] then key else p @ ''.'' @ key)"

fun flattenValues :: "json \<Rightarrow> string option \<Rightarrow> js_obj \<Rightarrow> js_obj"
  and flattenEntries :: "js_obj \<Rightarrow> string option \<Rightarrow> js_obj \<Rightarrow> js_obj" where
  "flattenValues (JObj kvs) parentKey result = flattenEntries kvs parentKey result"
| "flattenValues v parentKey result = (case parentKey of None \<Rightarrow> result | Some p \<Rightarrow> obj_set p v result)"
| "flattenEntries [] parentKey result = result"
| "flattenEntries ((key, v) # kvs) parentKey result =
     flattenEntries kvs parentKey
       (let nextKey = next_key parentKey key
        in if is_plain_object v then flattenValues v (Some nextKey) result else obj_set nextKey v result)"

abbreviation flat :: "js_obj \<Rightarrow> js_obj" where
  "flat values \<equiv> flattenValues (JObj values) None []"

text \<open>\<open>setDeepValue\<close> after the path was split.\<close>

fun setDeepValue :: "js_obj \<Rightarrow> string list \<Rightarrow> json \<Rightarrow> js_obj" where
  "setDeepValue target [] v = target"
| "setDeepValue target [segment] v = obj_set segment v target"
| "setDeepValue target (segment # rest) v =
     obj_set segment (JObj (setDeepValue (case obj_get segment target of Some (JObj next) \<Rightarrow> next | _ \<Rightarrow> []) rest v)) target"

fun expandDotPaths :: "json \<Rightarrow> json"
  and expandEntries :: "js_obj \<Rightarrow> js_obj \<Rightarrow> js_obj" where
  "expandDotPaths (JObj kvs) = JObj (expandEntries kvs [])"
| "expandDotPaths v = v"
| "expandEntries [] result = result"
| "expandEntries ((key, v) # kvs) result =
     expandEntries kvs
       (if CHR ''.'' \<in> set key then setDeepValue result (js_split CHR ''.'' key) v
        else if is_plain_object v then obj_set key (expandDotPaths v) result
        else obj_set key v result)"

abbreviation expanded :: "js_obj \<Rightarrow> js_obj" where
  "expanded values \<equiv> expandEntries values []"

section \<open>Changed fields\<close>

text \<open>
  What the library says of the fields: a mark, or the marks of the parts of an object or an array. A part that is
  undefined or null is like \<open>Mark False\<close>.
\<close>

datatype dirty = Mark bool | Parts "(string \<times> dirty) list"

text \<open>\<open>values[key]\<close>, on an object or an array only.\<close>

definition part_of :: "jsval \<Rightarrow> string \<Rightarrow> jsval" where
  "part_of values key =
     (case values of
        Some (JObj kvs) \<Rightarrow> obj_get key kvs
      | Some (JArr xs) \<Rightarrow> (case array_index key of Some i \<Rightarrow> if i < length xs then Some (xs ! i) else None | None \<Rightarrow> None)
      | _ \<Rightarrow> None)"

fun collectDirtyValues :: "dirty \<Rightarrow> jsval \<Rightarrow> string option \<Rightarrow> (string \<times> jsval) list \<Rightarrow> (string \<times> jsval) list"
  and collectDirtyEntries :: "(string \<times> dirty) list \<Rightarrow> jsval \<Rightarrow> string option \<Rightarrow> (string \<times> jsval) list \<Rightarrow> (string \<times> jsval) list" where
  "collectDirtyValues (Mark b) values parentKey result =
     (if b then case parentKey of None \<Rightarrow> result | Some p \<Rightarrow> obj_set p values result else result)"
| "collectDirtyValues (Parts ds) values parentKey result = collectDirtyEntries ds values parentKey result"
| "collectDirtyEntries [] values parentKey result = result"
| "collectDirtyEntries ((key, d) # ds) values parentKey result =
     collectDirtyEntries ds values parentKey
       (let nextKey = next_key parentKey key; source = part_of values key
        in case d of Mark b \<Rightarrow> if b then obj_set nextKey source result else result
           | Parts _ \<Rightarrow> collectDirtyValues d source (Some nextKey) result)"

text \<open>
  \<open>defaultCompare\<close>. Two values that are the same array or object are equal by their texts too. \<open>typeof\<close> tells
  values of different kinds apart, except that null and arrays are objects.
\<close>

definition is_reference :: "json \<Rightarrow> bool" where
  "is_reference v = (case v of JArr _ \<Rightarrow> True | JObj _ \<Rightarrow> True | _ \<Rightarrow> False)"

definition defaultCompare :: "jsval \<Rightarrow> jsval \<Rightarrow> bool" where
  "defaultCompare a b =
     (case (a, b) of
        (Some x, Some y) \<Rightarrow> if is_reference x \<and> is_reference y then json_stringify x = json_stringify y else x = y
      | _ \<Rightarrow> a = b)"

section \<open>The hook\<close>

text \<open>
  The values and the defaults of the form library, and the three references of the hook.
\<close>

record SettingsForm =
  sf_values :: js_obj
  sf_formDefaults :: js_obj
  sf_defaultValues :: js_obj
  sf_baseline :: js_obj
  sf_serialized :: string

definition form_reset :: "js_obj \<Rightarrow> SettingsForm \<Rightarrow> SettingsForm" where
  "form_reset values st = st\<lparr>sf_values := values, sf_formDefaults := values\<rparr>"

definition openSettings :: "js_obj \<Rightarrow> SettingsForm" where
  "openSettings defaultValues =
     (let values = expanded defaultValues
      in \<lparr>sf_values = values, sf_formDefaults = values, sf_defaultValues = values,
          sf_baseline = flat values, sf_serialized = json_stringify (JObj (flat values))\<rparr>)"

text \<open>The effect that runs when the host gives defaults that are another object, whatever their values.\<close>

definition defaultsEffect :: "js_obj \<Rightarrow> SettingsForm \<Rightarrow> SettingsForm" where
  "defaultsEffect defaultValues st =
     (let values = expanded defaultValues; flattened = flat values; serialized = json_stringify (JObj flattened)
      in if serialized = sf_serialized st then st
         else form_reset values (st\<lparr>sf_baseline := flattened, sf_defaultValues := values, sf_serialized := serialized\<rparr>))"

definition changedFields :: "(jsval \<Rightarrow> jsval \<Rightarrow> bool) \<Rightarrow> dirty \<Rightarrow> js_obj \<Rightarrow> SettingsForm \<Rightarrow> (string \<times> jsval) list" where
  "changedFields compare dirtyFields data st =
     obj_of_list (filter (\<lambda>(key, v). \<not> compare v (obj_get key (sf_baseline st)))
       (collectDirtyValues dirtyFields (Some (JObj data)) None []))"

definition savedSettings :: "js_obj \<Rightarrow> SettingsForm \<Rightarrow> SettingsForm" where
  "savedSettings data st =
     (let flattenedValues = flat data
      in form_reset data (st\<lparr>sf_baseline := flattenedValues, sf_defaultValues := data,
           sf_serialized := json_stringify (JObj flattenedValues)\<rparr>))"

text \<open>
  The submit of validated data, with the outcome of \<open>onSubmit\<close> on the changed fields: whether it raises, and what the
  settings are after it.
\<close>

definition handleSubmit :: "(jsval \<Rightarrow> jsval \<Rightarrow> bool) \<Rightarrow> dirty \<Rightarrow> ((string \<times> jsval) list \<Rightarrow> 's \<Rightarrow> bool \<times> 's) \<Rightarrow> js_obj \<Rightarrow>
    SettingsForm \<times> 's \<Rightarrow> SettingsForm \<times> 's" where
  "handleSubmit compare dirtyFields onSubmit data = (\<lambda>(st, settings).
     let changed = changedFields compare dirtyFields data st
     in if changed = [] then (st, settings)
        else let (raised, settings') = onSubmit changed settings
             in (if raised then st else savedSettings data st, settings'))"

definition handleReset :: "SettingsForm \<Rightarrow> SettingsForm" where
  "handleReset st = form_reset (sf_defaultValues st) st"

section \<open>The sections\<close>

text \<open>
  The answer to a setting: stored, refused (an answer whose \<open>success\<close> is false, with which \<open>mutateAsync\<close> resolves
  after \<open>onSuccess\<close> has shown its message), or failed (\<open>mutateAsync\<close> rejects, so the loop ends). What the server
  holds is a list of keys with their values.
\<close>

datatype answer = Stored | NotStored | NoAnswer

fun send_settings :: "(string \<times> json \<Rightarrow> answer) \<Rightarrow> (string \<times> json) list \<Rightarrow> js_obj \<Rightarrow> bool \<times> js_obj" where
  "send_settings reply [] settings = (False, settings)"
| "send_settings reply (r # rs) settings =
     (case reply r of
        Stored \<Rightarrow> send_settings reply rs (obj_set (fst r) (snd r) settings)
      | NotStored \<Rightarrow> send_settings reply rs settings
      | NoAnswer \<Rightarrow> (True, settings))"

text \<open>A field whose value is undefined has no value in the text of the request.\<close>

definition request_of :: "string \<times> jsval \<Rightarrow> string \<times> json" where
  "request_of f = (fst f, case snd f of Some v \<Rightarrow> v | None \<Rightarrow> JNull)"

definition quotaSettingsSubmit :: "(string \<times> json \<Rightarrow> answer) \<Rightarrow> (string \<times> jsval) list \<Rightarrow> js_obj \<Rightarrow> bool \<times> js_obj" where
  "quotaSettingsSubmit reply changed = send_settings reply (map request_of changed)"

text \<open>general/pricing-section.tsx; every number of the model is finite.\<close>

definition pricing_request :: "string \<times> jsval \<Rightarrow> (string \<times> json) option" where
  "pricing_request f =
     (case snd f of
        Some (JBool b) \<Rightarrow> Some (fst f, JStr (json_to_string (JBool b)))
      | Some (JNum d) \<Rightarrow> Some (fst f, JStr (json_to_string (JNum d)))
      | Some (JStr s) \<Rightarrow> Some (fst f, JStr s)
      | _ \<Rightarrow> None)"

definition pricingSubmit :: "(string \<times> json \<Rightarrow> answer) \<Rightarrow> (string \<times> jsval) list \<Rightarrow> js_obj \<Rightarrow> bool \<times> js_obj" where
  "pricingSubmit reply changed = send_settings reply (List.map_filter pricing_request changed)"

text \<open>general/system-info-section.tsx.\<close>

definition normalizeValue :: "jsval \<Rightarrow> string" where
  "normalizeValue v = (case v of None \<Rightarrow> [] | Some JNull \<Rightarrow> [] | Some (JStr s) \<Rightarrow> s | Some w \<Rightarrow> json_to_string w)"

definition system_info_request :: "string \<times> jsval \<Rightarrow> string \<times> json" where
  "system_info_request f =
     (let v = normalizeValue (snd f)
      in (fst f, JStr (if fst f = ''ServerAddress'' then rev (dropWhile ((=) CHR ''/'') (rev v)) else v)))"

text \<open>The section makes its defaults anew whenever it renders, so the effect of the hook runs then.\<close>

definition systemInfoDefaults :: "jsval \<Rightarrow> js_obj" where
  "systemInfoDefaults serverAddress = [(''ServerAddress'', JStr (normalizeValue serverAddress))]"

definition systemInfoRender :: "jsval \<Rightarrow> SettingsForm \<Rightarrow> SettingsForm" where
  "systemInfoRender serverAddress st = defaultsEffect (systemInfoDefaults serverAddress) st"

definition systemInfoSubmit :: "(string \<times> json \<Rightarrow> answer) \<Rightarrow> (string \<times> jsval) list \<Rightarrow> js_obj \<Rightarrow> bool \<times> js_obj" where
  "systemInfoSubmit reply changed = send_settings reply (map system_info_request changed)"

end
