(* ===== verification/SettingsFormFacts.thy ===== *)
theory SettingsFormFacts
  imports SettingsForm
begin

text \<open>
  Facts about the form of the system settings: an object is read as the set of its leaves, each a path with a value
  that is not an object; flattening puts every leaf under its dotted path, expanding makes a leaf of every dotted key.
  From it: dotted keys return, and a submit stores exactly what the form shows.
\<close>

section \<open>Leaves\<close>

fun leaves :: "json \<Rightarrow> (string list \<times> json) list" where
  "leaves (JObj kvs) = concat (map (\<lambda>p. map (\<lambda>q. (fst p # fst q, snd q)) (leaves (snd p))) kvs)"
| "leaves v = [([], v)]"

fun leaf_at :: "json \<Rightarrow> string list \<Rightarrow> json option" where
  "leaf_at (JObj kvs) [] = None"
| "leaf_at (JObj kvs) (k # ks) = (case obj_get k kvs of Some x \<Rightarrow> leaf_at x ks | None \<Rightarrow> None)"
| "leaf_at v ks = (if ks = [] then Some v else None)"

fun key_of :: "string option \<Rightarrow> string list \<Rightarrow> string" where
  "key_of parentKey [] = (case parentKey of None \<Rightarrow> [] | Some p \<Rightarrow> p)"
| "key_of parentKey (k # ks) = key_of (Some (next_key parentKey k)) ks"

lemma leaf_at_other: "\<not> is_plain_object v \<Longrightarrow> leaf_at v ks = (if ks = [] then Some v else None)"
  by (cases v) (simp_all add: is_plain_object_def)

lemma leaves_other: "\<not> is_plain_object v \<Longrightarrow> leaves v = [([], v)]"
  by (cases v) (simp_all add: is_plain_object_def)

lemma obj_get_in: "obj_ok kvs \<Longrightarrow> obj_get k kvs = Some v \<longleftrightarrow> (k, v) \<in> set kvs"
  unfolding obj_get_def using map_of_eq_Some_iff [of kvs k v] obj_ok_distinct by blast

lemma leaves_iff: "json_ok v \<Longrightarrow> (ks, x) \<in> set (leaves v) \<longleftrightarrow> leaf_at v ks = Some x"
proof (induction v arbitrary: ks rule: leaves.induct)
  case (1 kvs)
  show ?case
  proof (cases ks)
    case (Cons k r)
    have "(ks, x) \<in> set (leaves (JObj kvs)) \<longleftrightarrow> (\<exists>v. (k, v) \<in> set kvs \<and> (r, x) \<in> set (leaves v))"
      unfolding Cons by force
    also have "\<dots> \<longleftrightarrow> (\<exists>v. (k, v) \<in> set kvs \<and> leaf_at v r = Some x)"
      using 1 by (metis json_ok.simps(3) snd_conv)
    also have "\<dots> \<longleftrightarrow> leaf_at (JObj kvs) ks = Some x"
      using 1(2) by (auto simp: Cons obj_get_in [symmetric] split: option.split)
    finally show ?thesis .
  qed auto
qed auto

section \<open>Flattening\<close>

abbreviation set_all :: "(string \<times> 'v) list \<Rightarrow> (string \<times> 'v) list \<Rightarrow> (string \<times> 'v) list" where
  "set_all ps result \<equiv> fold (\<lambda>p. obj_set (fst p) (snd p)) ps result"

lemma flatten_leaves:
  "flattenValues v p result = (if p = None \<and> \<not> is_plain_object v then result
     else fold (\<lambda>q. obj_set (key_of p (fst q)) (snd q)) (leaves v) result)"
  "flattenEntries kvs p result = fold (\<lambda>q. obj_set (key_of p (fst q)) (snd q)) (leaves (JObj kvs)) result"
  by (induction v p result and kvs p result rule: flattenValues_flattenEntries.induct)
    (simp_all add: is_plain_object_def fold_map comp_def Let_def leaves_other split: option.split)

lemma flat_leaves: "flat values = fold (\<lambda>q. obj_set (key_of None (fst q)) (snd q)) (leaves (JObj values)) []"
  by (simp only: flattenValues.simps flatten_leaves(2))

declare leaves.simps(1) [simp del] flattenValues.simps [simp del]

text \<open>The paths of a form: no segment has a dot and the first is not empty.\<close>

definition path_ok :: "string list \<Rightarrow> bool" where
  "path_ok ks \<longleftrightarrow> ks \<noteq> [] \<and> hd ks \<noteq> [] \<and> (\<forall>s \<in> set ks. CHR ''.'' \<notin> set s)"

definition form_ok :: "js_obj \<Rightarrow> bool" where
  "form_ok values \<longleftrightarrow> json_ok (JObj values) \<and> list_all (\<lambda>q. path_ok (fst q)) (leaves (JObj values))"

lemma key_of_Some: "p \<noteq> [] \<Longrightarrow> key_of (Some p) ks = js_join ''.'' (p # ks)"
proof (induction ks arbitrary: p)
  case (Cons k ks)
  then show ?case by (simp add: next_key_def js_join_Cons [of "''.''"])
qed simp

lemma key_of_path: "path_ok ks \<Longrightarrow> key_of None ks = js_join ''.'' ks"
  by (cases ks) (simp_all add: path_ok_def next_key_def key_of_Some)

lemma split_key: "path_ok ks \<Longrightarrow> js_split CHR ''.'' (key_of None ks) = ks"
  using js_split_join [of ks "CHR ''.''"] by (simp add: key_of_path path_ok_def)

lemma key_of_inj: "path_ok ks \<Longrightarrow> path_ok ls \<Longrightarrow> key_of None ks = key_of None ls \<Longrightarrow> ks = ls"
  by (metis split_key)

lemma get_set_all: "obj_get k (set_all ps result) = (case map_of (rev ps) k of Some v \<Rightarrow> Some v | None \<Rightarrow> obj_get k result)"
  by (induction ps arbitrary: result) (simp_all add: map_add_def split: option.split)

lemma get_set_all_keys:
  assumes keys: "\<And>p q. p \<in> set ps \<Longrightarrow> q \<in> set ps \<Longrightarrow> key p = key q \<Longrightarrow> snd p = snd q"
  shows "obj_get k (fold (\<lambda>p. obj_set (key p) (snd p)) ps []) = Some v \<longleftrightarrow> (\<exists>p \<in> set ps. k = key p \<and> v = snd p)"
  using keys
proof (induction ps rule: rev_induct)
  case (snoc p ps)
  have *: "obj_get k (fold (\<lambda>p. obj_set (key p) (snd p)) ps []) = Some v \<longleftrightarrow> (\<exists>p \<in> set ps. k = key p \<and> v = snd p)"
    using snoc.prems by (intro snoc.IH) auto
  show ?case using * snoc.prems [of p] by auto
qed simp

text \<open>What a flat object has under a key: the leaf whose dotted path it is.\<close>

lemma get_flat:
  assumes ok: "form_ok values"
  shows "obj_get k (flat values) = Some v \<longleftrightarrow> (\<exists>ks. leaf_at (JObj values) ks = Some v \<and> k = key_of None ks)"
proof -
  have paths: "(ks, x) \<in> set (leaves (JObj values)) \<Longrightarrow> path_ok ks" for ks x
    using ok by (force simp: form_ok_def list_all_iff)
  have iff: "(ks, x) \<in> set (leaves (JObj values)) \<longleftrightarrow> leaf_at (JObj values) ks = Some x" for ks x
    using ok leaves_iff unfolding form_ok_def by blast
  have "obj_get k (flat values) = Some v \<longleftrightarrow> (\<exists>q \<in> set (leaves (JObj values)). k = key_of None (fst q) \<and> v = snd q)"
    unfolding flat_leaves
  proof (rule get_set_all_keys)
    fix p q assume p: "p \<in> set (leaves (JObj values))" and q: "q \<in> set (leaves (JObj values))" and "key_of None (fst p) = key_of None (fst q)"
    then have "fst p = fst q" using paths key_of_inj by (metis prod.collapse)
    then show "snd p = snd q" using p q iff by (metis option.inject prod.collapse)
  qed
  then show ?thesis using iff by force
qed

section \<open>Expanding\<close>

lemma leaf_set_deep:
  assumes "\<not> is_plain_object v" and "p \<noteq> []"
    and "\<And>q x. leaf_at (JObj t) q = Some x \<Longrightarrow> prefix q p \<or> prefix p q \<Longrightarrow> q = p"
  shows "leaf_at (JObj (setDeepValue t p v)) q = (if q = p then Some v else leaf_at (JObj t) q)"
  using assms
proof (induction t p v arbitrary: q rule: setDeepValue.induct)
  case (2 t segment v)
  have "leaf_at (JObj t) (segment # r) = None" if "r \<noteq> []" for r
  proof (rule ccontr)
    assume "leaf_at (JObj t) (segment # r) \<noteq> None"
    then obtain x where "leaf_at (JObj t) (segment # r) = Some x" by blast
    from 2(3) [OF this] that show False by simp
  qed
  then show ?case using 2(1) by (cases q) (auto simp: leaf_at_other)
next
  case (3 t segment s rest v)
  let ?next = "case obj_get segment t of Some (JObj next) \<Rightarrow> next | _ \<Rightarrow> []"
  have next': "leaf_at (JObj t) (segment # r) = leaf_at (JObj ?next) r" for r
  proof (cases "obj_get segment t")
    case None then show ?thesis by (cases r) simp_all
  next
    case (Some x)
    show ?thesis
    proof (cases "is_plain_object x")
      case False
      then have "leaf_at (JObj t) [segment] = Some x" using Some by (simp add: leaf_at_other)
      from 3(4) [OF this] show ?thesis by simp
    qed (use Some in \<open>auto simp: is_plain_object_def split: json.splits\<close>)
  qed
  have "leaf_at (JObj (setDeepValue ?next (s # rest) v)) r = (if r = s # rest then Some v else leaf_at (JObj ?next) r)" for r
  proof (rule 3(1) [OF 3(2)])
    fix q x assume "leaf_at (JObj ?next) q = Some x" "prefix q (s # rest) \<or> prefix (s # rest) q"
    then show "q = s # rest" using 3(4) [of "segment # q" x] next' [of q] by simp
  qed simp
  then show ?case using next' by (cases q) (auto simp del: leaf_at.simps(2) simp: leaf_at.simps(2) [of "obj_set _ _ _"] leaf_at.simps(2) [of t] split: option.split)
qed simp

lemma set_deep_ok: "json_ok (JObj t) \<Longrightarrow> json_ok v \<Longrightarrow> json_ok (JObj (setDeepValue t p v))"
proof (induction t p v rule: setDeepValue.induct)
  case (3 t segment s rest v)
  have "json_ok (JObj (case obj_get segment t of Some (JObj next) \<Rightarrow> next | _ \<Rightarrow> []))"
    using json_ok_get [OF 3(2), of segment] by (auto simp del: json_ok.simps split: option.splits json.splits) simp_all
  from json_ok_set [OF 3(2) 3(1) [OF this 3(3)]] show ?case by simp
qed (auto intro: json_ok_set simp del: json_ok.simps)

text \<open>
  Defaults as the settings page has them: keys with dots, no value an object, and no key a part of the path of another.
\<close>

definition defaults_ok :: "js_obj \<Rightarrow> bool" where
  "defaults_ok kvs \<longleftrightarrow> json_ok (JObj kvs) \<and>
     list_all (\<lambda>p. \<not> is_plain_object (snd p) \<and> fst p \<noteq> [] \<and> hd (fst p) \<noteq> CHR ''.'') kvs \<and>
     (\<forall>p \<in> set kvs. \<forall>q \<in> set kvs. \<not> prefix (fst p @ ''.'') (fst q))"

lemma expand_fold:
  "list_all (\<lambda>p. \<not> is_plain_object (snd p)) kvs \<Longrightarrow>
    expandEntries kvs result = fold (\<lambda>p t. setDeepValue t (js_split CHR ''.'' (fst p)) (snd p)) kvs result"
  by (induction kvs arbitrary: result) (auto simp: js_split_none)

lemma prefix_split:
  assumes "prefix (js_split c a) (js_split c b)"
  shows "a = b \<or> prefix (a @ [c]) b"
proof -
  from assms obtain zs where b: "js_split c b = js_split c a @ zs" by (auto simp: prefix_def)
  have join: "xs \<noteq> [] \<Longrightarrow> zs \<noteq> [] \<Longrightarrow> js_join [c] (xs @ zs) = js_join [c] xs @ c # js_join [c] zs" for xs zs
    by (induction xs) (simp_all add: js_join_Cons)
  have "b = js_join [c] (js_split c a @ zs)" using b js_join_split by metis
  then show ?thesis using join [of "js_split c a" zs] by (cases "zs = []") simp_all
qed

lemma expanded_leaves:
  assumes ok: "defaults_ok kvs"
  shows "json_ok (JObj (expanded kvs)) \<and>
    (\<forall>q x. leaf_at (JObj (expanded kvs)) q = Some x \<longleftrightarrow> (\<exists>p \<in> set kvs. q = js_split CHR ''.'' (fst p) \<and> x = snd p))"
proof -
  have "list_all (\<lambda>p. \<not> is_plain_object (snd p)) kvs" using ok by (auto simp: defaults_ok_def list_all_iff)
  note fold = expand_fold [OF this, of "[]"]
  have "json_ok (JObj (fold (\<lambda>p t. setDeepValue t (js_split CHR ''.'' (fst p)) (snd p)) ps [])) \<and>
    (\<forall>q x. leaf_at (JObj (fold (\<lambda>p t. setDeepValue t (js_split CHR ''.'' (fst p)) (snd p)) ps [])) q = Some x \<longleftrightarrow>
      (\<exists>p \<in> set ps. q = js_split CHR ''.'' (fst p) \<and> x = snd p))" if "prefix ps kvs" for ps
    using that
  proof (induction ps rule: rev_induct)
    case Nil
    have "leaf_at (JObj []) q = None" for q by (cases q) simp_all
    then show ?case by simp
  next
    case (snoc p ps)
    let ?t = "fold (\<lambda>p t. setDeepValue t (js_split CHR ''.'' (fst p)) (snd p)) ps []"
    from snoc have IH: "json_ok (JObj ?t)" "\<And>q x. leaf_at (JObj ?t) q = Some x \<longleftrightarrow> (\<exists>p \<in> set ps. q = js_split CHR ''.'' (fst p) \<and> x = snd p)"
      by (auto simp: append_prefixD)
    from snoc.prems obtain zs where kvs: "kvs = ps @ p # zs" by (auto simp: prefix_def)
    have p: "\<not> is_plain_object (snd p)" "json_ok (snd p)" and new: "\<forall>q \<in> set ps. fst q \<noteq> fst p"
      and apart: "\<forall>q \<in> set ps. \<not> prefix (fst q @ ''.'') (fst p) \<and> \<not> prefix (fst p @ ''.'') (fst q)"
      using ok obj_ok_distinct [of kvs] by (auto simp: kvs defaults_ok_def image_iff)
    have "leaf_at (JObj (setDeepValue ?t (js_split CHR ''.'' (fst p)) (snd p))) q =
        (if q = js_split CHR ''.'' (fst p) then Some (snd p) else leaf_at (JObj ?t) q)" for q
    proof (rule leaf_set_deep [OF p(1) split_by_not_Nil])
      fix q x assume "leaf_at (JObj ?t) q = Some x" and q: "prefix q (js_split CHR ''.'' (fst p)) \<or> prefix (js_split CHR ''.'' (fst p)) q"
      then obtain p' where "p' \<in> set ps" "q = js_split CHR ''.'' (fst p')" using IH(2) by blast
      with q show "q = js_split CHR ''.'' (fst p)" using prefix_split apart by metis
    qed
    moreover have "js_split CHR ''.'' (fst q) \<noteq> js_split CHR ''.'' (fst p)" if "q \<in> set ps" for q
      using new that js_join_split by metis
    ultimately have "leaf_at (JObj (setDeepValue ?t (js_split CHR ''.'' (fst p)) (snd p))) q = Some x \<longleftrightarrow>
        (\<exists>p' \<in> set (ps @ [p]). q = js_split CHR ''.'' (fst p') \<and> x = snd p')" for q x
      using IH(2) [of q x] by auto
    then show ?case using set_deep_ok [OF IH(1) p(2)] unfolding fold_append comp_apply fold_simps by blast
  qed
  from this [of kvs] show ?thesis unfolding fold by simp
qed

lemma default_path:
  assumes "defaults_ok kvs" and "p \<in> set kvs"
  shows "path_ok (js_split CHR ''.'' (fst p))" and "key_of None (js_split CHR ''.'' (fst p)) = fst p"
proof -
  obtain c cs where k: "fst p = c # cs" "c \<noteq> CHR ''.''" using assms by (cases "fst p") (auto simp: defaults_ok_def list_all_iff)
  show ok: "path_ok (js_split CHR ''.'' (fst p))"
    using k split_by_no_sep_ball [of "(=) CHR ''.''" "fst p"] by (auto simp: path_ok_def split: list.splits)
  show "key_of None (js_split CHR ''.'' (fst p)) = fst p" using key_of_path [OF ok] by simp
qed

lemma expanded_form_ok: "defaults_ok kvs \<Longrightarrow> form_ok (expanded kvs)"
  using expanded_leaves [of kvs] default_path(1) [of kvs] leaves_iff [of "JObj (expanded kvs)"]
  unfolding form_ok_def list_all_iff by (metis prod.collapse)

text \<open>
  Settings whose keys have dots, such as \<open>quota_setting.enable_invitation_reward\<close>, become the nested values of the form;
  flattened again, they have the same keys with the same values and no others.
\<close>

lemma dotted_keys:
  assumes "defaults_ok kvs"
  shows "obj_get k (flat (expanded kvs)) = obj_get k kvs"
proof -
  have "obj_get k (flat (expanded kvs)) = Some v \<longleftrightarrow> obj_get k kvs = Some v" for v
  proof -
    have "obj_get k (flat (expanded kvs)) = Some v \<longleftrightarrow> (\<exists>p \<in> set kvs. k = key_of None (js_split CHR ''.'' (fst p)) \<and> v = snd p)"
      unfolding get_flat [OF expanded_form_ok [OF assms]] using expanded_leaves [OF assms] by auto
    also have "\<dots> \<longleftrightarrow> (\<exists>p \<in> set kvs. k = fst p \<and> v = snd p)" using default_path(2) [OF assms] by metis
    also have "\<dots> \<longleftrightarrow> obj_get k kvs = Some v"
      using assms obj_get_in [of kvs k v] by (force simp: defaults_ok_def)
    finally show ?thesis .
  qed
  then show ?thesis by (metis not_None_eq)
qed

definition sample_defaults :: js_obj where
  "sample_defaults = [(''QuotaForInviter'', JNum (int_dec 0)), (''general_setting.docs_link'', JStr []),
     (''quota_setting.enable_free_model_pre_consume'', JBool True), (''quota_setting.enable_invitation_reward'', JBool False)]"

lemma sample_defaults_ok: "defaults_ok sample_defaults"
  by (simp add: defaults_ok_def sample_defaults_def obj_ok_def key_before_def array_index_def is_digit_def is_plain_object_def)

section \<open>Changed fields\<close>

fun marks :: "dirty \<Rightarrow> string list list" where
  "marks (Mark b) = (if b then [[]] else [])"
| "marks (Parts ds) = concat (map (\<lambda>p. map ((#) (fst p)) (marks (snd p))) ds)"

abbreviation value_at :: "jsval \<Rightarrow> string list \<Rightarrow> jsval" where
  "value_at \<equiv> foldl part_of"

lemma collect_marks:
  "collectDirtyValues d v p result = (if p = None \<and> (\<exists>b. d = Mark b) then result
     else fold (\<lambda>ks. obj_set (key_of p ks) (value_at v ks)) (marks d) result)"
  "collectDirtyEntries ds v p result = fold (\<lambda>ks. obj_set (key_of p ks) (value_at v ks)) (marks (Parts ds)) result"
  by (induction d v p result and ds v p result rule: collectDirtyValues_collectDirtyEntries.induct)
    (auto simp: fold_map comp_def Let_def split: option.split dirty.split)

lemma value_at_leaf: "leaf_at v ks = Some x \<Longrightarrow> value_at (Some v) ks = Some x"
proof (induction ks arbitrary: v)
  case Nil
  then show ?case by (cases v) simp_all
next
  case (Cons k ks)
  then show ?case by (cases v) (auto simp: part_of_def split: option.splits)
qed

lemma leaf_ok: "json_ok v \<Longrightarrow> leaf_at v ks = Some x \<Longrightarrow> json_ok x"
proof (induction ks arbitrary: v)
  case Nil
  then show ?case by (cases v) auto
next
  case (Cons k ks)
  then show ?case using json_ok_get by (cases v) (auto simp del: json_ok.simps(3) split: option.splits)
qed

text \<open>
  What is relied on of the form library: it marks every field whose value differs from its default, and marks fields of
  the form only, not the elements of one.
\<close>

definition marks_changes :: "dirty \<Rightarrow> js_obj \<Rightarrow> js_obj \<Rightarrow> bool" where
  "marks_changes d old new \<longleftrightarrow> list_all (\<lambda>ks. ks \<in> fst ` set (leaves (JObj new))) (marks d) \<and>
     list_all (\<lambda>q. q \<in> set (leaves (JObj old)) \<or> fst q \<in> set (marks d)) (leaves (JObj new))"

lemma compare_equal:
  assumes "json_ok x" and "\<And>y. b = Some y \<Longrightarrow> json_ok y"
  shows "defaultCompare (Some x) b \<longleftrightarrow> b = Some x"
  using assms compact.print_inj by (auto simp: defaultCompare_def split: option.split)

lemma form_leaf: "form_ok v \<Longrightarrow> (ks, x) \<in> set (leaves (JObj v)) \<longleftrightarrow> leaf_at (JObj v) ks = Some x"
  using leaves_iff unfolding form_ok_def by blast

lemma form_path: "form_ok v \<Longrightarrow> leaf_at (JObj v) ks = Some x \<Longrightarrow> path_ok ks \<and> json_ok x"
  using form_leaf [of v ks x] leaf_ok [of "JObj v" ks x] unfolding form_ok_def list_all_iff by force

lemma obj_ok_filter: "obj_ok kvs \<Longrightarrow> obj_ok (filter P kvs)"
  by (simp add: obj_ok_def sorted_wrt_map sorted_wrt_filter)

lemma obj_ok_fold: "obj_ok result \<Longrightarrow> obj_ok (fold (\<lambda>x. obj_set (f x) (g x)) xs result)"
  by (induction xs arbitrary: result) (simp_all add: obj_ok_set)

lemma get_filter: "obj_ok kvs \<Longrightarrow> obj_get k (filter P kvs) = Some v \<longleftrightarrow> obj_get k kvs = Some v \<and> P (k, v)"
  using obj_get_in [of kvs k v] obj_get_in [of "filter P kvs" k v] by (auto simp: obj_ok_filter)

lemma marked_leaf:
  assumes "form_ok data" and "marks_changes d old data" and "ks \<in> set (marks d)"
  obtains x where "leaf_at (JObj data) ks = Some x" "value_at (Some (JObj data)) ks = Some x" "path_ok ks"
proof -
  have "ks \<in> fst ` set (leaves (JObj data))" using assms(2,3) by (simp add: marks_changes_def list_all_iff)
  then obtain x where x: "leaf_at (JObj data) ks = Some x" using form_leaf [OF assms(1)] by auto
  then show thesis using that [OF x value_at_leaf [OF x]] form_path [OF assms(1) x] by simp
qed

lemma get_collected:
  assumes new: "form_ok data" and d: "marks_changes d old data"
  shows "obj_ok (collectDirtyValues d (Some (JObj data)) None [])"
    and "obj_get k (collectDirtyValues d (Some (JObj data)) None []) = Some w \<longleftrightarrow>
      (\<exists>ks v. ks \<in> set (marks d) \<and> leaf_at (JObj data) ks = Some v \<and> k = key_of None ks \<and> w = Some v)"
proof -
  let ?v = "Some (JObj data)" and ?ps = "map (\<lambda>ks. (ks, value_at (Some (JObj data)) ks)) (marks d)"
  have "d \<noteq> Mark True" using marked_leaf [OF new d, of "[]"] by auto
  then have c: "collectDirtyValues d ?v None [] = fold (\<lambda>ks. obj_set (key_of None ks) (value_at ?v ks)) (marks d) []"
    by (cases d) (auto simp: collect_marks(1))
  show "obj_ok (collectDirtyValues d ?v None [])" unfolding c by (simp add: obj_ok_fold)
  have inj: "ks = ls" if "ks \<in> set (marks d)" "ls \<in> set (marks d)" "key_of None ks = key_of None ls" for ks ls
    using marked_leaf [OF new d that(1)] marked_leaf [OF new d that(2)] key_of_inj that(3) by metis
  have "obj_get k (fold (\<lambda>p. obj_set (key_of None (fst p)) (snd p)) ?ps []) = Some w \<longleftrightarrow>
      (\<exists>p \<in> set ?ps. k = key_of None (fst p) \<and> w = snd p)"
  proof (rule get_set_all_keys)
    fix p q assume "p \<in> set ?ps" "q \<in> set ?ps" "key_of None (fst p) = key_of None (fst q)"
    then show "snd p = snd q" using inj [of "fst p" "fst q"] by auto
  qed
  also have "\<dots> \<longleftrightarrow> (\<exists>ks \<in> set (marks d). k = key_of None ks \<and> w = value_at ?v ks)" by auto
  also have "\<dots> \<longleftrightarrow> (\<exists>ks v. ks \<in> set (marks d) \<and> leaf_at (JObj data) ks = Some v \<and> k = key_of None ks \<and> w = Some v)"
    using marked_leaf [OF new d] by (metis option.inject)
  finally show "obj_get k (collectDirtyValues d ?v None []) = Some w \<longleftrightarrow>
      (\<exists>ks v. ks \<in> set (marks d) \<and> leaf_at (JObj data) ks = Some v \<and> k = key_of None ks \<and> w = Some v)"
    unfolding c by (simp add: fold_map comp_def)
qed

text \<open>The fields that are sent: those of the form whose value is not the one the form was opened with.\<close>

lemma get_changed:
  assumes new: "form_ok data" and old: "form_ok old" "sf_baseline st = flat old" and d: "marks_changes d old data"
  shows "obj_ok (changedFields defaultCompare d data st)"
    and "obj_get k (changedFields defaultCompare d data st) = Some w \<longleftrightarrow>
      (\<exists>v. w = Some v \<and> obj_get k (flat data) = Some v \<and> obj_get k (flat old) \<noteq> Some v)"
proof -
  show "obj_ok (changedFields defaultCompare d data st)" by (simp add: changedFields_def obj_ok_of_list)
  have same: "defaultCompare (Some v) (obj_get k (flat old)) \<longleftrightarrow> obj_get k (flat old) = Some v" if "leaf_at (JObj data) ks = Some v" for ks v
  proof (rule compare_equal)
    show "json_ok v" using form_path [OF new that] by simp
    show "json_ok y" if "obj_get k (flat old) = Some y" for y
      using that form_path [OF old(1)] unfolding get_flat [OF old(1)] by auto
  qed
  have marked: "ks \<in> set (marks d)" if "leaf_at (JObj data) ks = Some v" "obj_get (key_of None ks) (flat old) \<noteq> Some v" for ks v
  proof -
    have "leaf_at (JObj old) ks \<noteq> Some v" using that(2) unfolding get_flat [OF old(1)] by blast
    then have "(ks, v) \<in> set (leaves (JObj data))" "(ks, v) \<notin> set (leaves (JObj old))"
      using that(1) form_leaf [OF new] form_leaf [OF old(1)] by blast+
    then show ?thesis using d by (auto simp: marks_changes_def list_all_iff)
  qed
  have "obj_get k (changedFields defaultCompare d data st) = Some w \<longleftrightarrow>
      obj_get k (collectDirtyValues d (Some (JObj data)) None []) = Some w \<and> \<not> defaultCompare w (obj_get k (flat old))"
    using get_filter [OF get_collected(1) [OF new d], of k _ w] obj_of_list_ok [OF obj_ok_filter [OF get_collected(1) [OF new d]]] old(2)
    by (simp add: changedFields_def)
  also have "\<dots> \<longleftrightarrow> (\<exists>ks v. w = Some v \<and> leaf_at (JObj data) ks = Some v \<and> k = key_of None ks \<and> obj_get k (flat old) \<noteq> Some v)"
    unfolding get_collected(2) [OF new d] using same marked by blast
  also have "\<dots> \<longleftrightarrow> (\<exists>v. w = Some v \<and> obj_get k (flat data) = Some v \<and> obj_get k (flat old) \<noteq> Some v)"
    unfolding get_flat [OF new] by blast
  finally show "obj_get k (changedFields defaultCompare d data st) = Some w \<longleftrightarrow>
      (\<exists>v. w = Some v \<and> obj_get k (flat data) = Some v \<and> obj_get k (flat old) \<noteq> Some v)" .
qed

section \<open>Submitting\<close>

text \<open>What the references of the hook are while the form shows \<open>sf_formDefaults\<close> as the saved values.\<close>

definition settings_shown :: "SettingsForm \<Rightarrow> bool" where
  "settings_shown st \<longleftrightarrow> form_ok (sf_formDefaults st) \<and> sf_baseline st = flat (sf_formDefaults st) \<and>
     sf_defaultValues st = sf_formDefaults st \<and> sf_serialized st = json_stringify (JObj (sf_baseline st))"

definition in_step :: "SettingsForm \<times> js_obj \<Rightarrow> bool" where
  "in_step s \<longleftrightarrow> settings_shown (fst s) \<and>
     (\<forall>k v. obj_get k (flat (sf_formDefaults (fst s))) = Some v \<longrightarrow> obj_get k (snd s) = Some v)"

lemma opened_shown: "defaults_ok kvs \<Longrightarrow> settings_shown (openSettings kvs)"
  using expanded_form_ok by (simp add: openSettings_def settings_shown_def Let_def)

lemma effect_shown: "defaults_ok kvs \<Longrightarrow> settings_shown st \<Longrightarrow> settings_shown (defaultsEffect kvs st)"
  using expanded_form_ok by (simp add: defaultsEffect_def form_reset_def settings_shown_def Let_def)

lemma saved_shown: "form_ok data \<Longrightarrow> settings_shown (savedSettings data st)"
  by (simp add: savedSettings_def form_reset_def settings_shown_def Let_def)

lemma saved_defaults [simp]: "sf_formDefaults (savedSettings data st) = data" "sf_baseline (savedSettings data st) = flat data"
  by (simp_all add: savedSettings_def form_reset_def Let_def)

lemma reset_shown: "settings_shown st \<Longrightarrow> settings_shown (handleReset st)"
  by (simp add: handleReset_def form_reset_def settings_shown_def)

lemma all_stored: "(\<And>r. reply r = Stored) \<Longrightarrow> send_settings reply rs settings = (False, set_all rs settings)"
  by (induction rs arbitrary: settings) simp_all

lemma none_stored: "(\<And>r. reply r = NotStored) \<Longrightarrow> send_settings reply rs settings = (False, settings)"
  by (induction rs arbitrary: settings) simp_all

lemma get_set_requests:
  assumes "obj_ok fs" and "\<And>k w. obj_get k fs = Some w \<Longrightarrow> w \<noteq> None"
  shows "obj_get k (set_all (map request_of fs) settings) = (case obj_get k fs of Some w \<Rightarrow> w | None \<Rightarrow> obj_get k settings)"
  using assms
proof (induction fs rule: rev_induct)
  case (snoc f fs)
  have f: "fst f \<notin> fst ` set fs" and fs: "obj_ok fs" using obj_ok_distinct [OF snoc.prems(1)] snoc.prems(1) by (auto simp: obj_ok_def sorted_wrt_append)
  have none: "obj_get (fst f) fs = None" using f by (simp add: obj_get_def map_of_eq_None_iff)
  then have get: "obj_get k (fs @ [f]) = (if k = fst f then Some (snd f) else obj_get k fs)" for k
    by (cases f) (simp add: obj_get_def map_add_def split: option.split)
  have "w \<noteq> None" if "obj_get k fs = Some w" for k w
    using snoc.prems(2) [of k w] that get [of k] none by (cases "k = fst f") simp_all
  from snoc.IH [OF fs this] show ?case using snoc.prems(2) [of "fst f"] get by (auto simp: request_of_def split: option.split)
qed simp

text \<open>
  C35: A submit stores what the form shows, when the server stores every setting it is sent and the form library marks
  every field that was changed. While the server holds the values the form was opened with, saving the
  quota settings gives the server every value of the form and leaves its other settings as they are; then the server
  holds what the form was opened with again. A value is sent under its dotted key when it differs from the saved one
  and then only. What a refused setting does is the next theorem.
\<close>

theorem settings_submit_refines:
  assumes "in_step (st, settings)" and "form_ok data" and "marks_changes d (sf_formDefaults st) data" and "\<And>r. reply r = Stored"
  shows "in_step (handleSubmit defaultCompare d (quotaSettingsSubmit reply) data (st, settings)) \<and>
    obj_get k (snd (handleSubmit defaultCompare d (quotaSettingsSubmit reply) data (st, settings))) =
      (case obj_get k (flat data) of Some v \<Rightarrow> Some v | None \<Rightarrow> obj_get k settings) \<and>
    (obj_get k (changedFields defaultCompare d data st) = Some w \<longleftrightarrow>
      (\<exists>v. w = Some v \<and> obj_get k (flat data) = Some v \<and> obj_get k (flat (sf_formDefaults st)) \<noteq> Some v))"
proof -
  let ?old = "sf_formDefaults st" and ?c = "changedFields defaultCompare d data st"
  have old: "form_ok ?old" "sf_baseline st = flat ?old" and held: "obj_get k (flat ?old) = Some v \<Longrightarrow> obj_get k settings = Some v" for k v
    using assms(1) by (simp_all add: in_step_def settings_shown_def)
  note changed = get_changed [OF assms(2) old assms(3)]
  have stored: "obj_get k (set_all (map request_of ?c) settings) = (case obj_get k (flat data) of Some v \<Rightarrow> Some v | None \<Rightarrow> obj_get k settings)" for k
  proof -
    have "obj_get k (set_all (map request_of ?c) settings) = (case obj_get k ?c of Some w \<Rightarrow> w | None \<Rightarrow> obj_get k settings)"
      by (rule get_set_requests [OF changed(1)]) (simp add: changed(2), blast)
    moreover have "obj_get k ?c = (case obj_get k (flat data) of Some v \<Rightarrow> if obj_get k (flat ?old) = Some v then None else Some (Some v) | None \<Rightarrow> None)"
      using changed(2) [of k] by (cases "obj_get k ?c"; cases "obj_get k (flat data)") auto
    ultimately show ?thesis using held [of k] by (simp split: option.split)
  qed
  have result: "handleSubmit defaultCompare d (quotaSettingsSubmit reply) data (st, settings) =
      (if ?c = [] then st else savedSettings data st, set_all (map request_of ?c) settings)"
    using all_stored [of reply] assms(4) by (simp add: handleSubmit_def quotaSettingsSubmit_def)
  have "in_step (if ?c = [] then st else savedSettings data st, set_all (map request_of ?c) settings)"
    using assms(1) saved_shown [OF assms(2)] stored by (cases "?c = []") (simp_all add: in_step_def)
  then show ?thesis unfolding result snd_conv using stored changed(2) by blast
qed

definition sample_quota_form :: js_obj where
  "sample_quota_form = [(''QuotaForInviter'', JNum (int_dec 5)), (''general_setting'', JObj [(''docs_link'', JStr [])]),
     (''quota_setting'', JObj [(''enable_free_model_pre_consume'', JBool True), (''enable_invitation_reward'', JBool True)])]"

definition sample_dirty :: dirty where
  "sample_dirty = Parts [(''QuotaForInviter'', Mark True), (''quota_setting'', Parts [(''enable_invitation_reward'', Mark True)])]"

lemma sample_expanded: "expanded sample_defaults = [(''QuotaForInviter'', JNum (int_dec 0)), (''general_setting'', JObj [(''docs_link'', JStr [])]),
     (''quota_setting'', JObj [(''enable_free_model_pre_consume'', JBool True), (''enable_invitation_reward'', JBool False)])]"
  by (simp add: sample_defaults_def obj_set_def obj_get_def array_index_def is_digit_def is_plain_object_def)

lemma sample_quota_form_ok: "form_ok sample_quota_form"
  by (simp add: form_ok_def sample_quota_form_def leaves.simps(1) obj_ok_def key_before_def array_index_def is_digit_def path_ok_def)

lemma sample_flat: "obj_get ''quota_setting.enable_invitation_reward'' (flat sample_quota_form) = Some (JBool True)"
  unfolding get_flat [OF sample_quota_form_ok]
  by (rule exI [of _ "[''quota_setting'', ''enable_invitation_reward'']"]) (simp add: sample_quota_form_def obj_get_def next_key_def)

lemma sample_marks: "marks_changes sample_dirty (sf_formDefaults (openSettings sample_defaults)) sample_quota_form"
  by (simp add: openSettings_def Let_def sample_expanded marks_changes_def sample_quota_form_def sample_dirty_def leaves.simps(1))

lemma sample_in_step: "in_step (openSettings sample_defaults, sample_defaults)"
  using opened_shown [OF sample_defaults_ok] dotted_keys [OF sample_defaults_ok] by (simp add: in_step_def openSettings_def Let_def)

lemma settings_submit_refines_witness:
  "obj_get ''quota_setting.enable_invitation_reward''
    (snd (handleSubmit defaultCompare sample_dirty (quotaSettingsSubmit (\<lambda>_. Stored)) sample_quota_form (openSettings sample_defaults, sample_defaults))) =
    obj_get ''quota_setting.enable_invitation_reward'' (flat sample_quota_form) \<and> obj_get ''quota_setting.enable_invitation_reward'' (flat sample_quota_form) = Some (JBool True)"
  using settings_submit_refines [OF sample_in_step sample_quota_form_ok sample_marks refl, of "''quota_setting.enable_invitation_reward''"]
  unfolding sample_flat by simp

section \<open>Refused settings\<close>

lemma unchanged_sends_nothing:
  assumes "form_ok data" and "marks_changes d data data"
  shows "changedFields defaultCompare d data (savedSettings data st) = []"
proof -
  have "obj_get k (changedFields defaultCompare d data (savedSettings data st)) = None" for k
    using get_changed(2) [OF assms(1) assms(1) saved_defaults(2) assms(2), of k] by (cases "obj_get k (changedFields defaultCompare d data (savedSettings data st))") auto
  then have none: "map_of (changedFields defaultCompare d data (savedSettings data st)) k = None" for k by (simp add: obj_get_def)
  have "fst ` set (changedFields defaultCompare d data (savedSettings data st)) = {}" using none by (simp add: map_of_eq_None_iff set_eq_iff del: image_is_empty)
  then show ?thesis by simp
qed

text \<open>
  C36: A refused setting counts as saved, in the two sections whose defaults stay the same object while the host does not
  render (quota and pricing). The answer to a refused setting, with which the request ends well, is not looked at: when
  the server refuses every change, it holds what it held, but the form takes the data as saved, and a second submit of
  the same data, whatever the server would answer now, sends nothing.
\<close>

theorem refused_setting_counts_as_saved:
  assumes "changedFields defaultCompare d data st \<noteq> []" and "form_ok data" and "marks_changes d' data data"
    and "submit \<in> {quotaSettingsSubmit, pricingSubmit}"
  shows "handleSubmit defaultCompare d (submit (\<lambda>_. NotStored)) data (st, settings) = (savedSettings data st, settings) \<and>
    handleSubmit defaultCompare d' (submit reply) data (savedSettings data st, settings) = (savedSettings data st, settings)"
proof
  have "submit (\<lambda>_. NotStored) changed settings = (False, settings)" for changed
    using assms(4) none_stored [of "\<lambda>_. NotStored"] by (auto simp: quotaSettingsSubmit_def pricingSubmit_def)
  then show "handleSubmit defaultCompare d (submit (\<lambda>_. NotStored)) data (st, settings) = (savedSettings data st, settings)"
    using assms(1) by (simp add: handleSubmit_def)
  show "handleSubmit defaultCompare d' (submit reply) data (savedSettings data st, settings) = (savedSettings data st, settings)"
    using unchanged_sends_nothing [OF assms(2,3)] by (simp add: handleSubmit_def)
qed

lemma refused_setting_counts_as_saved_witness:
  "handleSubmit defaultCompare sample_dirty (quotaSettingsSubmit (\<lambda>_. NotStored)) sample_quota_form (openSettings sample_defaults, sample_defaults) =
     (savedSettings sample_quota_form (openSettings sample_defaults), sample_defaults)"
proof -
  have old: "form_ok (expanded sample_defaults)" "sf_baseline (openSettings sample_defaults) = flat (expanded sample_defaults)"
    using expanded_form_ok [OF sample_defaults_ok] by (simp_all add: openSettings_def Let_def)
  have "marks_changes sample_dirty (expanded sample_defaults) sample_quota_form" using sample_marks by (simp add: openSettings_def Let_def)
  from get_changed(2) [OF sample_quota_form_ok old this, of "''quota_setting.enable_invitation_reward''" "Some (JBool True)"]
  have "obj_get ''quota_setting.enable_invitation_reward'' (changedFields defaultCompare sample_dirty sample_quota_form (openSettings sample_defaults)) = Some (Some (JBool True))"
    unfolding dotted_keys [OF sample_defaults_ok] sample_flat by (simp add: sample_defaults_def obj_get_def)
  then have "changedFields defaultCompare sample_dirty sample_quota_form (openSettings sample_defaults) \<noteq> []" by auto
  moreover have "marks_changes (Parts []) sample_quota_form sample_quota_form" by (simp add: marks_changes_def list_all_iff)
  ultimately show ?thesis using conjunct1 [OF refused_setting_counts_as_saved [of sample_dirty sample_quota_form _ "Parts []" quotaSettingsSubmit]] sample_quota_form_ok by simp
qed

text \<open>
  The next render with defaults that are another object undoes this: the form shows the values of the host again, which
  after a refusal are the old ones, and they are what the next submit is compared with.
\<close>

lemma effect_after_save:
  assumes "json_ok (JObj (flat (expanded defs)))" "json_ok (JObj (flat data))" "flat (expanded defs) \<noteq> flat data"
  shows "sf_values (defaultsEffect defs (savedSettings data st)) = expanded defs"
    "sf_baseline (defaultsEffect defs (savedSettings data st)) = flat (expanded defs)"
proof -
  have "json_stringify (JObj (flat (expanded defs))) \<noteq> json_stringify (JObj (flat data))"
    using compact.print_inj [OF assms(1,2)] assms(3) by auto
  then show "sf_values (defaultsEffect defs (savedSettings data st)) = expanded defs"
    "sf_baseline (defaultsEffect defs (savedSettings data st)) = flat (expanded defs)"
    by (simp_all add: defaultsEffect_def savedSettings_def form_reset_def Let_def)
qed

text \<open>
  The section of the system information makes its defaults anew at every render, so there a refused address is taken
  back by the render that follows the submit: the form shows the address of the server, and the same address can be
  submitted again.
\<close>

theorem refused_address_comes_back:
  assumes "address \<noteq> old"
  shows "let st' = systemInfoRender (Some (JStr old)) (savedSettings [(''ServerAddress'', JStr address)] st)
    in sf_values st' = [(''ServerAddress'', JStr old)] \<and>
       changedFields defaultCompare (Parts [(''ServerAddress'', Mark True)]) [(''ServerAddress'', JStr address)] st' =
         [(''ServerAddress'', Some (JStr address))]"
proof -
  let ?obj = "\<lambda>a. [(''ServerAddress'', JStr a)]"
  have defs: "systemInfoDefaults (Some (JStr old)) = ?obj old" by (simp add: systemInfoDefaults_def normalizeValue_def)
  have e: "expanded (?obj a) = ?obj a" "flat (?obj a) = ?obj a" for a
    unfolding flat_leaves by (simp_all add: obj_set_def obj_get_def array_index_def is_digit_def is_plain_object_def next_key_def leaves.simps)
  have ok: "json_ok (JObj (?obj a))" for a by (simp add: obj_ok_def)
  have ne: "?obj old \<noteq> ?obj address" using assms by simp
  have shown: "sf_values (defaultsEffect (?obj old) (savedSettings (?obj address) st)) = ?obj old"
    "sf_baseline (defaultsEffect (?obj old) (savedSettings (?obj address) st)) = ?obj old"
    using effect_after_save [of "?obj old" "?obj address" st, unfolded e, OF ok ok ne] by simp_all
  have "changedFields defaultCompare (Parts [(''ServerAddress'', Mark True)]) (?obj address)
      (defaultsEffect (?obj old) (savedSettings (?obj address) st)) = [(''ServerAddress'', Some (JStr address))]"
    using assms unfolding changedFields_def shown(2)
    by (simp add: obj_set_def obj_get_def array_index_def is_digit_def next_key_def part_of_def defaultCompare_def is_reference_def obj_of_list_def)
  with shown(1) show ?thesis by (simp add: systemInfoRender_def defs Let_def)
qed

lemma refused_address_comes_back_witness:
  "sf_values (systemInfoRender (Some (JStr ''a'')) (savedSettings [(''ServerAddress'', JStr ''b'')] (openSettings []))) =
    [(''ServerAddress'', JStr ''a'')]"
  using refused_address_comes_back [of "''b''" "''a''" "openSettings []"] by (simp add: Let_def)

end
