(* ===== verification/SubscriptionsFacts.thy ===== *)
theory SubscriptionsFacts
  imports Subscriptions
begin

text \<open>
  Facts about the subscriptions: the active ones are a sorted rearrangement of those that are not over, the anchor of
  an upgrade is the dearest and among those the first to end, and the answer about a plan is the one of the server.
\<close>

section \<open>The active subscriptions\<close>

lemma partition_fold: "fold (\<lambda>r (a, i). if P r then (a @ [r], i) else (a, i @ [r])) records (a, i) =
    (a @ filter P records, i @ filter (\<lambda>r. \<not> P r) records)"
  by (induction records arbitrary: a i) simp_all

lemma partition_simps:
  "fst (partitionSubscriptions records now) = sort_by (\<lambda>a b. end_of a \<le> end_of b) (filter (sub_active now) records)"
  "snd (partitionSubscriptions records now) = filter (\<lambda>r. \<not> sub_active now r) records"
  by (simp_all add: partitionSubscriptions_def partition_fold)

lemma active_sorted: "sorted_wrt (\<lambda>a b. end_of a \<le> end_of b) (fst (partitionSubscriptions records now))"
  unfolding partition_simps by (rule sorted_sort_by) auto

lemma active_set: "set (fst (partitionSubscriptions records now)) = {r \<in> set records. sub_active now r}"
  by (auto simp: partition_simps)

section \<open>The anchor\<close>

text \<open>The first of the dearest.\<close>

definition is_anchor :: "sub_record list \<Rightarrow> sub_record \<Rightarrow> bool" where
  "is_anchor active a \<longleftrightarrow> (\<exists>xs ys. active = xs @ a # ys \<and> (\<forall>x \<in> set xs. paid_of x < paid_of a) \<and> (\<forall>y \<in> set ys. paid_of y \<le> paid_of a))"

lemma anchor_snoc: "pickUpgradeAnchor (xs @ [r]) = anchor_step r (pickUpgradeAnchor xs)"
  by (simp add: pickUpgradeAnchor_def)

lemma pick_is_anchor: "active \<noteq> [] \<Longrightarrow> \<exists>a. pickUpgradeAnchor active = Some a \<and> is_anchor active a"
proof (induction active rule: rev_induct)
  case (snoc r active)
  show ?case
  proof (cases "active = []")
    case True
    have "is_anchor [r] r" unfolding is_anchor_def by (intro exI [of _ "[]"]) simp
    with True show ?thesis by (simp add: pickUpgradeAnchor_def anchor_step_def)
  next
    case False
    with snoc obtain a xs ys where a: "pickUpgradeAnchor active = Some a" "active = xs @ a # ys"
      "\<forall>x \<in> set xs. paid_of x < paid_of a" "\<forall>y \<in> set ys. paid_of y \<le> paid_of a"
      by (auto simp: is_anchor_def)
    show ?thesis
    proof (cases "paid_of a < paid_of r")
      case True
      then have "\<forall>x \<in> set active. paid_of x < paid_of r" using a by (auto intro: less_trans le_less_trans)
      then have "is_anchor (active @ [r]) r" unfolding is_anchor_def by (intro exI [of _ active] exI [of _ "[]"]) simp
      then show ?thesis using True a(1) by (simp add: anchor_snoc anchor_step_def)
    next
      case False
      then have "paid_of r \<le> paid_of a" by (simp add: dec_not_less)
      then have "is_anchor (active @ [r]) a" unfolding is_anchor_def
        using a(3,4) by (intro exI [of _ xs] exI [of _ "ys @ [r]"]) (auto simp: a(2))
      then show ?thesis using False a(1) by (simp add: anchor_snoc anchor_step_def)
    qed
  qed
qed simp

lemma anchor_of_sorted:
  assumes "active \<noteq> []" and "sorted_wrt (\<lambda>a b. end_of a \<le> end_of b) active"
  obtains a where "pickUpgradeAnchor active = Some a" "a \<in> set active"
    "\<And>r. r \<in> set active \<Longrightarrow> paid_of r \<le> paid_of a \<and> (paid_of a \<le> paid_of r \<longrightarrow> end_of a \<le> end_of r)"
proof -
  obtain a xs ys where a: "pickUpgradeAnchor active = Some a" "active = xs @ a # ys"
    "\<forall>x \<in> set xs. paid_of x < paid_of a" "\<forall>y \<in> set ys. paid_of y \<le> paid_of a"
    using pick_is_anchor [OF assms(1)] by (auto simp: is_anchor_def)
  have ends: "\<forall>y \<in> set ys. end_of a \<le> end_of y" using assms(2) unfolding a(2) by (simp add: sorted_wrt_append)
  have "paid_of r \<le> paid_of a \<and> (paid_of a \<le> paid_of r \<longrightarrow> end_of a \<le> end_of r)" if r: "r \<in> set active" for r
  proof -
    consider "r = a" | "r \<in> set xs" | "r \<in> set ys" using r unfolding a(2) by auto
    then show ?thesis using a(3,4) ends by cases (auto simp: less_le_not_le)
  qed
  then show thesis using that [OF a(1)] a(2) by simp
qed

text \<open>
  C26: The anchor of an upgrade. Among the active subscriptions of a user, the plan an upgrade starts from is one that is
  active, none was dearer, and none as dear ends before it; there is none exactly when no subscription is active.
\<close>

theorem upgrade_anchor:
  "case pickUpgradeAnchor (fst (partitionSubscriptions records now)) of
     None \<Rightarrow> \<not> (\<exists>r \<in> set records. sub_active now r)
   | Some a \<Rightarrow> a \<in> set records \<and> sub_active now a \<and>
       (\<forall>r. r \<in> set records \<and> sub_active now r \<longrightarrow> paid_of r \<le> paid_of a \<and> (paid_of a \<le> paid_of r \<longrightarrow> end_of a \<le> end_of r))"
proof (cases "fst (partitionSubscriptions records now) = []")
  case True
  then have "\<not> (\<exists>r \<in> set records. sub_active now r)" using active_set [of records now] by auto
  with True show ?thesis by (simp add: pickUpgradeAnchor_def)
next
  case False
  let ?active = "fst (partitionSubscriptions records now)"
  obtain a where a: "pickUpgradeAnchor ?active = Some a" "a \<in> set ?active"
    "\<And>r. r \<in> set ?active \<Longrightarrow> paid_of r \<le> paid_of a \<and> (paid_of a \<le> paid_of r \<longrightarrow> end_of a \<le> end_of r)"
    using anchor_of_sorted [OF False active_sorted] by blast
  then show ?thesis unfolding a(1) option.case active_set by blast
qed

definition sample_sub :: "int \<Rightarrow> int \<Rightarrow> sub_record" where
  "sample_sub finish paid = Some \<lparr>us_plan_id = 1, us_status = ''active'', us_end_time = finish, us_paid_money = Some (int_dec paid), us_plan_title = []\<rparr>"

lemma sample_anchor: "pickUpgradeAnchor (fst (partitionSubscriptions [sample_sub 9 20, sample_sub 8 20, sample_sub 3 50, sample_sub 7 10] 5)) = Some (sample_sub 8 20)"
  by code_simp

lemma upgrade_anchor_witness:
  "paid_of (sample_sub 7 10) \<le> paid_of (sample_sub 8 20) \<and> end_of (sample_sub 8 20) \<le> end_of (sample_sub 9 20)"
  using upgrade_anchor [of "[sample_sub 9 20, sample_sub 8 20, sample_sub 3 50, sample_sub 7 10]" 5]
  unfolding sample_anchor option.case by (simp add: sub_active_def sample_sub_def paid_of_def)

section \<open>The guard of the server\<close>

lemma guard_loop_None: "guard_loop planId m rows = None \<longleftrightarrow> (\<exists>s \<in> set rows. us_plan_id s = planId)"
  by (induction rows arbitrary: m) auto

lemma guard_loop_less:
  "guard_loop planId m rows = Some m' \<Longrightarrow> m' < p \<longleftrightarrow> m < p \<and> (\<forall>s \<in> set rows. paid_of (Some s) < p)"
proof (induction rows arbitrary: m)
  case (Cons s rows)
  let ?m = "if m < paid_of (Some s) then paid_of (Some s) else m"
  have "?m < p \<longleftrightarrow> m < p \<and> paid_of (Some s) < p"
    using dec_not_less [of m "paid_of (Some s)"] by (auto intro: less_trans le_less_trans)
  moreover have "m' < p \<longleftrightarrow> ?m < p \<and> (\<forall>s \<in> set rows. paid_of (Some s) < p)"
    using Cons.prems by (intro Cons.IH) (simp split: if_splits)
  ultimately show ?case by auto
qed simp

lemma anchor_less:
  assumes "active \<noteq> []"
  shows "(case pickUpgradeAnchor active of None \<Rightarrow> int_dec 0 | Some a \<Rightarrow> paid_of a) < p \<longleftrightarrow> (\<forall>r \<in> set active. paid_of r < p)"
proof -
  obtain a xs ys where a: "pickUpgradeAnchor active = Some a" "active = xs @ a # ys"
    "\<forall>x \<in> set xs. paid_of x < paid_of a" "\<forall>y \<in> set ys. paid_of y \<le> paid_of a"
    using pick_is_anchor [OF assms] by (auto simp: is_anchor_def)
  show ?thesis unfolding a(1) using a(3,4) by (auto simp: a(2) intro: less_trans le_less_trans)
qed

text \<open>What the answer of the client means for the server.\<close>

fun server_answer :: "PlanPurchasability \<Rightarrow> purchase_guard" where
  "server_answer Purchasable = Allowed"
| "server_answer Renewable = Allowed"
| "server_answer Upgrade = UpgradeOnly"
| "server_answer Blocked = NotUpgradable"

lemma active_rows:
  assumes "\<forall>s \<in> set rows. us_status s = ''active'' \<longrightarrow> us_end_time s \<noteq> now"
  shows "set (fst (partitionSubscriptions (map Some rows) now)) = Some ` set (filter (\<lambda>s. us_status s = ''active'' \<and> now < us_end_time s) rows)"
proof -
  have "sub_active now (Some s) \<longleftrightarrow> us_status s = ''active'' \<and> now < us_end_time s" if "s \<in> set rows" for s
    using assms that by (auto simp: sub_active_def less_le)
  then show ?thesis unfolding active_set by auto
qed

lemma guard_agrees:
  assumes set: "set active = Some ` set rows" and "sp_id plan \<noteq> 0" and "int_dec 0 < sp_price_amount plan"
  shows "server_answer (getPlanPurchasability (Some plan) active) = (if rows = [] then Allowed
     else case guard_loop (sp_id plan) (int_dec 0) rows of None \<Rightarrow> Allowed
       | Some maxPaid \<Rightarrow> if maxPaid < sp_price_amount plan then UpgradeOnly else NotUpgradable)"
proof -
  have empty: "active = [] \<longleftrightarrow> rows = []" using set by (metis image_is_empty set_empty2)
  have own: "list_ex (\<lambda>r. case r of None \<Rightarrow> False | Some s \<Rightarrow> us_plan_id s = sp_id plan) active \<longleftrightarrow> (\<exists>s \<in> set rows. us_plan_id s = sp_id plan)"
    unfolding list_ex_iff set by auto
  show ?thesis
  proof (cases "rows = [] \<or> (\<exists>s \<in> set rows. us_plan_id s = sp_id plan)")
    case True
    then show ?thesis using empty own assms(2) guard_loop_None [of "sp_id plan" "int_dec 0" rows]
      by (auto simp: getPlanPurchasability_def)
  next
    case False
    then obtain maxPaid where m: "guard_loop (sp_id plan) (int_dec 0) rows = Some maxPaid" using guard_loop_None by (metis not_None_eq)
    have "(case pickUpgradeAnchor active of None \<Rightarrow> int_dec 0 | Some a \<Rightarrow> paid_of a) < sp_price_amount plan \<longleftrightarrow> maxPaid < sp_price_amount plan"
      using anchor_less [of active] guard_loop_less [OF m] False empty assms(3) unfolding set by simp
    then show ?thesis using False empty own m by (simp add: getPlanPurchasability_def)
  qed
qed

text \<open>
  C25: The client repeats the guard of the server. For any subscriptions of a user and any plan with an id and a price
  above 0, unless an active subscription ends in this very second, the plans the client offers for purchase or renewal
  are those the server sells, those it offers as an upgrade the server refuses with the hint to upgrade, and the
  blocked ones the server refuses.
\<close>

theorem client_repeats_guard:
  assumes "sp_id plan \<noteq> 0" and "int_dec 0 < sp_price_amount plan"
    and "\<forall>s \<in> set rows. us_status s = ''active'' \<longrightarrow> us_end_time s \<noteq> now"
  shows "server_answer (getPlanPurchasability (Some plan) (fst (partitionSubscriptions (map Some rows) now))) =
    checkActivePurchaseAllowed rows now plan"
  unfolding guard_agrees [OF active_rows [OF assms(3)] assms(1,2)] checkActivePurchaseAllowed_def Let_def ..

text \<open>In the second in which a subscription ends, the client still counts it and the server does not.\<close>

lemma last_second:
  "let s = \<lparr>us_plan_id = 1, us_status = ''active'', us_end_time = 100, us_paid_money = Some (int_dec 50), us_plan_title = []\<rparr>;
       plan = \<lparr>sp_id = 2, sp_title = [], sp_price_amount = int_dec 30\<rparr>
   in getPlanPurchasability (Some plan) (fst (partitionSubscriptions [Some s] 100)) = Blocked \<and> checkActivePurchaseAllowed [s] 100 plan = Allowed"
  by (simp add: Let_def getPlanPurchasability_def checkActivePurchaseAllowed_def partitionSubscriptions_def sub_active_def sort_by_def
      pickUpgradeAnchor_def anchor_step_def paid_of_def)

lemma client_repeats_guard_witness:
  "let s = \<lparr>us_plan_id = 1, us_status = ''active'', us_end_time = 100, us_paid_money = Some (int_dec 50), us_plan_title = []\<rparr>;
       plan = \<lparr>sp_id = 2, sp_title = [], sp_price_amount = int_dec 80\<rparr>
   in server_answer (getPlanPurchasability (Some plan) (fst (partitionSubscriptions (map Some [s]) 99))) = checkActivePurchaseAllowed [s] 99 plan \<and>
     checkActivePurchaseAllowed [s] 99 plan = UpgradeOnly"
  unfolding Let_def
  by (intro conjI client_repeats_guard) (simp_all add: checkActivePurchaseAllowed_def paid_of_def)

end
