(* ===== verification/Spec2Isabelle.thy ===== *)
theory Spec2Isabelle
  imports ParamEditorFacts StatusCodes ChannelsFacts ChannelFormFacts ChannelSubmitFacts ModelMapping BillingRules TierChain UsageModelsFacts UsageChartsFacts
    ChartPreferences GroupHealth PricingPanelFacts ModelDialogFacts SettingsFormFacts SubscriptionsFacts
begin

text \<open>
  The client side logic of the tierflow web console (web/default/src), the part of the repository
  that is written in TypeScript. The console edits what the gateway runs on: channels (upstream
  providers with keys, models, groups, mappings), the parameter overrides of a channel, status code
  rules, the prices of models and groups and what models cost upstream. It keeps these as texts, JSON
  or expressions, which the server stores and the next visit opens again. What can go wrong is therefore what happens to the texts: an edit that is lost,
  a text that is not read back, a value that passes one check and fails the next.

  The language. JsPrelude holds strings (lists of code units, here characters below 256), trim,
  split, join, sets in insertion order; JsNumber decimal numbers, their texts and \<open>Number(s)\<close>; a
  number read from a text is an exact decimal (where floating-point errors are what the code is about, in the
  price panel, the rounding of a product or quotient is a parameter); Json the JSON values
  with the order of keys of a JavaScript object, JSON.parse and JSON.stringify; JsValue truthiness,
  conversions and property access on a value of unknown shape, and which values \<open>String\<close> raises a TypeError
  on (an object with a key \<open>toString\<close>; the exception is followed where the code calls it on a stored value
  outside a handler, in opening the editor of parameter overrides). Two interfaces are locales there:
  \<open>json_codec\<close> (what a printer and a parser promise each other), interpreted for the compact and
  for the indented printer, and \<open>js_object\<close> (reading and writing the keys of an object). A third,
  \<open>text_list\<close> in TextLists, is a list kept in a text, interpreted for commas and for lines.

  The parameter override editor (features/channels/components/dialogs/param-override-editor-dialog.tsx):
  ParamOverride is its data and its pure functions, ParamDrafts the three structured drafts that
  live inside a value text, ParamEditor the React state with every handler and the relation of the
  states it can reach, ParamOverrideFacts and ParamEditorFacts the theorems: what was saved opens
  and saves as the same text but for values between quotes, a save that passes the checks is complete,
  which stored texts opening raises on, the state invariant, and edits that get lost.

  Status codes: StatusCodes holds the rules that retry or disable (lib/http-status-code-rules.ts)
  with their normal form, and the guard on mappings (features/channels/lib/status-code-risk-guard.ts).

  Channels: Channels is the record of a channel, its tables, key masking, aggregation by tag, key
  deduplication (features/channels/constants.ts, types.ts, lib/channel-utils.ts,
  lib/channel-type-config.ts, lib/multi-key-utils.ts); ChannelForm the schema, how the form is filled
  from a channel and the payloads it sends (lib/channel-form.ts, lib/channel-form-errors.ts);
  ModelMapping the mapping and the model list (lib/model-mapping-validation.ts,
  lib/upstream-update-utils.ts); ChannelSubmit the drawer with its submit, a labelled
  step relation of the button and the answers to the two dialogs that suspend it, whose runs are lists of
  these inputs (components/drawers/channel-mutate-drawer.tsx, hooks/use-channel-mutate-form.ts). The
  theorems are in ChannelsFacts, ChannelFormFacts, ModelMapping and ChannelSubmitFacts.

  Billing expressions: a model may be priced by an expression of token counts. Regex runs the
  patterns of the readers as a JavaScript engine does, by backtracking; BillingExpr has the variables,
  the reader and the builder of the request rules that multiply a price, and how a price and its
  rules are joined and taken apart (lib/billing-expr.ts); TierExpr the tiers of the visual editor, the
  expression written for them and its reader (lib/tier-expr.ts). BillingExprFacts and BillingRules show
  which rules are read back, TierExprFacts and TierChain that tiers are, and
  TierRules that the two, joined, are taken apart again. The texts that are written are
  matched against the patterns symbolically: every match is unique, for any labels and numbers.

  Prices: GroupRatios and GroupRules are the editors of the groups and their special rules
  (features/system-settings/models/group-ratio-visual-editor.tsx, group-special-usable-editor.tsx);
  RatioSettings the card that checks and sends the settings (ratio-settings-card.tsx, utils.ts);
  ModelPrices the table of the model prices, ten JSON texts that are one map from models to prices
  (model-ratio-visual-editor.tsx); PricingFormat and PricingPanel the panel of one model, which shows
  prices and stores ratios (pricing-format.ts, model-pricing-sheet.tsx): its products and quotients are
  rounded by a parameter \<open>fl\<close>, of which the theorems assume the error bound of IEEE 754 (\<open>rounds\<close>), and
  snapFloatDrift is shown to repair the drift; NumberTexts that written numbers
  are read back.

  The editor of an expression (tiered-pricing-editor.tsx) is TieredEditor: the number fields, the cards of
  tiers and rules with every edit, the presets, and the component that keeps tiers, a text and the
  expression of its host in step. Its effects are modelled as React runs them: \<open>flush\<close> is a render and
  its effects, in their order, which read the state that was rendered and change the state that comes
  next; \<open>te_seen\<close> is what the dependencies of the first effect were. \<open>settle_editor\<close> renders until nothing
  changes, with a bound on the renders; TieredEditorFacts shows that five are always enough, what
  opens unchanged, what changing the mode keeps, the invariant of the edits, and that an expression
  the visual editor cannot read, or the price of the model before, overwrites the price of the host.
  ProviderCost is the editor of what a model costs upstream (features/models/components/dialogs/
  provider-cost-editor.tsx), which contains that editor: \<open>show_expr_tab\<close> runs it and stores what it tells.
  ModelDialog is the dialog around both (model-mutate-dialog.tsx): the form, the price taken from and
  put into the options, the renaming of costs, the order of the requests and what the server holds
  when it refuses one. Their theorems are in ProviderCostFacts and ModelDialogFacts.

  SettingsForm is the hook behind the other settings (features/system-settings/hooks/use-settings-form.ts) and what
  three sections send with it; SettingsFormFacts reads an object as its leaves and shows that a submit
  stores what the form shows, under dotted keys, when the server takes it, and that a refused setting counts as
  saved until the section gets new defaults, which one of the three makes at every render.

  Subscriptions is what the client makes of the subscriptions of a user (features/subscriptions/lib/selectors.ts,
  features/dashboard/hooks/use-plan-summary.ts) and the guard of the server it repeats (model/subscription.go,
  the one part of the backend that is modelled); SubscriptionsFacts compares the two.

  Charts: Tally is sums by key, an interface (\<open>sums\<close>, \<open>tally\<close>) interpreted for the association lists of the
  charts; UsageModels the slices and colours by model (features/dashboard/lib/hit-model-group.ts and the
  helpers around it), UsageCharts the series, rankings and trends (lib/charts.ts, stats.ts),
  ChartPreferences what is stored in the browser, any text, and how it is guarded (lib/filters.ts), GroupHealth the state of a model group
  (features/model-groups/lib/group-health.ts); UsageModelsFacts and UsageChartsFacts have the theorems.

  Conventions. A function keeps its name in the code, or gets a longer one where two files use the same.
  What may raise is an option whose None is the raise; a nullish field is an option; a handler is a
  function on the state. The parsers terminate by the length of the text; the one bound on a number of
  steps is that of \<open>settle_editor\<close>. Numbers are exact decimals or rational numbers: the rounding of
  floating-point arithmetic is modelled in the price panel only, and there for products and quotients, while
  sums, comparisons and the steps of formatPricingNumber are exact; a number is written without an exponent. Parameters stand for what is not in the repository: the
  order of \<open>localeCompare\<close>, dayjs, the text of a syntax error, translations, the answers of the server.
  A theorem about what goes wrong states it of all inputs of a kind; its witness is a concrete input.

  Not modelled. Rendering, the table and form libraries, translations, queries and the cache of
  their results. The local estimator of a cost, which evaluates the expression as JavaScript, the hints
  in the format of the locale and the text of the prompt helper. The specifications of the charts around
  their figures. Currency and number display (lib/currency.ts, lib/format.ts), which is Intl and
  floating-point division. Clients of the browser and of the server (lib/api.ts, passkeys, sessions). The
  forms of users, keys, vendors and plans, which are of the same kind as the form of a channel and smaller and
  convert money by a configured rate. The state of the tables in the address and the dialog of the second
  factor, which are glue around the router and the browser. The Go backend, but for the guard of a purchase, and the
  desktop shell, other programs in other languages.
\<close>

end
